(* ===== verification/Prelude.thy ===== *)
theory Prelude
  imports Main "HOL-Library.Word"
begin

text \<open>
  Vocabulary shared by every component of the K-FSW services model: the machine integer types, the
  error codes, pointer arguments, C strings, the big-endian wire integers and the saturating
  counters, with the lemmas the component theories use on them.

  \<^item> A C integer is a \<open>word\<close> of its width (\<open>u8\<close>, \<open>u16\<close>, \<open>u32\<close>, \<open>u64\<close>); a \<open>size_t\<close> that measures
    an object in memory is a \<open>nat\<close>.
  \<^item> A function that returns \<open>0\<close> or a negative errno is an \<open>rc\<close> (\<open>None\<close> is \<open>0\<close>, \<open>Some e\<close> is \<open>-e\<close>);
    one that also writes a result through an output pointer is \<open>errno + 'a\<close> (\<open>Inl\<close> the error).
  \<^item> An input pointer is an \<open>option\<close> (\<open>None\<close> is \<open>NULL\<close>). An output pointer is a \<open>dest\<close>: what the
    code writes through it is part of the returned value, and \<open>dest\<close> only says whether it was \<open>NULL\<close>.
  \<^item> A C string is a HOL \<open>string\<close> without its terminator.
\<close>

unbundle bit_operations_syntax

named_theorems wire \<open>evaluation and round trips of the wire integers\<close>
named_theorems counters \<open>bounds of the saturating counters\<close>

section \<open>Types\<close>

type_synonym u8 = "8 word"
type_synonym u16 = "16 word"
type_synonym u32 = "32 word"
type_synonym u64 = "64 word"
type_synonym bytes = "u8 list"

datatype errno =
    E2BIG | EACCES | EADDRINUSE | EAGAIN | EALREADY | EBADMSG | EBUSY | ECANCELED
  | ECONNREFUSED | ECONNRESET | EEXIST | EFBIG | EILSEQ | EINVAL | EIO | EISDIR
  | EMSGSIZE | ENAMETOOLONG | ENODATA | ENODEV | ENOENT | ENOMEM | ENOSPC | ENOTDIR
  | ENOTSUP | ENXIO | EOVERFLOW | EPERM | EPROTONOSUPPORT | ERANGE | EROFS | ESPIPE
  | ESTALE | ETIME | ETIMEDOUT
  | EOTHER nat

type_synonym rc = "errno option"

datatype dest = Null | Dest

text \<open>The success value of a fallible operation, the view the codec contracts take.\<close>

fun ok :: "'e + 'a \<Rightarrow> 'a option" where
  "ok (Inl e) = None"
| "ok (Inr x) = Some x"

lemma ok_Some [simp]: "ok r = Some x \<longleftrightarrow> r = Inr x"
  by (cases r) auto

lemma ok_None: "ok r = None \<longleftrightarrow> (\<exists>e. r = Inl e)"
  by (cases r) auto

section \<open>Word bounds\<close>

abbreviation UINT32_MAX :: u32 where
  "UINT32_MAX \<equiv> 0xFFFFFFFF"

lemma unat_bound: "unat (w :: 'a::len word) < 2 ^ LENGTH('a)"
  by (rule unsigned_less)

lemma unat_u8_bound: "unat (w :: u8) < 256"
  using unat_bound [of w] by simp

lemma unat_u16_bound: "unat (w :: u16) < 65536"
  using unat_bound [of w] by simp

lemma unat_u32_bound: "unat (w :: u32) < 4294967296"
  using unat_bound [of w] by simp

lemma unat_plus_small:
  "unat a + unat b < 2 ^ LENGTH('a) \<Longrightarrow> unat (a + b :: 'a::len word) = unat a + unat b"
  by (simp add: unat_word_ariths)

lemma unat_word_of_nat_small:
  "n < 2 ^ LENGTH('a) \<Longrightarrow> unat (word_of_nat n :: 'a::len word) = n"
  by (simp add: unat_of_nat)

section \<open>C strings and bytes\<close>

definition byte_of_char :: "char \<Rightarrow> u8" where
  "byte_of_char c = word_of_nat (of_char c)"

definition char_of_byte :: "u8 \<Rightarrow> char" where
  "char_of_byte b = char_of (unat b)"

abbreviation bytes_of_string :: "string \<Rightarrow> bytes" where
  "bytes_of_string \<equiv> map byte_of_char"

abbreviation string_of_bytes :: "bytes \<Rightarrow> string" where
  "string_of_bytes \<equiv> map char_of_byte"

text \<open>A HOL string stands for a C string when the terminator does not occur in it.\<close>

abbreviation NUL :: char where
  "NUL \<equiv> CHR 0x00"

definition c_string :: "string \<Rightarrow> bool" where
  "c_string s \<longleftrightarrow> NUL \<notin> set s"

text \<open>\<open>memchr(s, 0, n) != NULL\<close> on a terminated string: the terminator is among the first \<open>n\<close> bytes.\<close>

definition terminated_within :: "nat \<Rightarrow> string \<Rightarrow> bool" where
  "terminated_within n s \<longleftrightarrow> length s < n"

text \<open>\<open>strncpy(d, s, size - 1); d[size - 1] = 0\<close>: what the destination then holds as a C string.\<close>

definition strncpy_terminated :: "nat \<Rightarrow> string \<Rightarrow> string" where
  "strncpy_terminated n s = take (n - 1) s"

text \<open>\<open>strncmp(a, b, n) == 0\<close> on two terminated strings.\<close>

definition strncmp_eq :: "string \<Rightarrow> string \<Rightarrow> nat \<Rightarrow> bool" where
  "strncmp_eq a b n \<longleftrightarrow> take n (a @ [NUL]) = take n (b @ [NUL])"

text \<open>The C string that copied bytes hold: it ends at the first terminator.\<close>

definition c_string_of_bytes :: "bytes \<Rightarrow> string" where
  "c_string_of_bytes b = takeWhile (\<lambda>c. c \<noteq> NUL) (string_of_bytes b)"

text \<open>The decimal notation of a number, \<open>%u\<close> of \<open>printf\<close>.\<close>

fun decimal :: "nat \<Rightarrow> string" where
  "decimal n = (if n < 10 then [char_of (48 + n)] else decimal (n div 10) @ [char_of (48 + n mod 10)])"

declare decimal.simps [simp del]

lemma char_of_byte_of_char [simp, wire]: "char_of_byte (byte_of_char c) = c"
proof -
  have "unat (word_of_nat (of_char c) :: u8) = of_char c"
    using nat_of_char_less_256 [of c] by (simp add: unat_of_nat)
  then show ?thesis by (simp add: char_of_byte_def byte_of_char_def)
qed

lemma byte_of_char_of_byte [simp, wire]: "byte_of_char (char_of_byte b) = b"
proof -
  have "unat b < 256" by (rule unat_u8_bound)
  then show ?thesis by (simp add: char_of_byte_def byte_of_char_def)
qed

lemma inj_byte_of_char: "inj byte_of_char"
  by (rule inj_on_inverseI [where g = char_of_byte]) simp

lemma inj_char_of_byte: "inj char_of_byte"
  by (rule inj_on_inverseI [where g = byte_of_char]) simp

lemma byte_of_NUL [simp, wire]: "byte_of_char NUL = 0"
  by (simp add: byte_of_char_def)

lemma char_of_byte_0 [simp, wire]: "char_of_byte 0 = NUL"
  using char_of_byte_of_char [of NUL] by simp

lemma string_of_bytes_of_string [simp]: "string_of_bytes (bytes_of_string s) = s"
  by (simp add: comp_def)

lemma bytes_of_string_of_bytes [simp]: "bytes_of_string (string_of_bytes b) = b"
  by (simp add: comp_def)

lemma NUL_string_of_bytes: "NUL \<in> set (string_of_bytes b) \<longleftrightarrow> 0 \<in> set b"
  using inj_char_of_byte char_of_byte_0 by (metis image_eqI image_set inj_image_mem_iff)

lemma zero_bytes_of_string: "0 \<in> set (bytes_of_string s) \<longleftrightarrow> NUL \<in> set s"
  using inj_byte_of_char byte_of_NUL by (metis image_eqI image_set inj_image_mem_iff)

lemma c_string_of_bytes_of_string [simp]: "c_string s \<Longrightarrow> c_string_of_bytes (bytes_of_string s) = s"
  by (auto simp: c_string_of_bytes_def c_string_def comp_def takeWhile_eq_all_conv)

lemma strncmp_eq_short:
  assumes "c_string a" and "c_string b" and "length a < n" and "length b < n"
  shows "strncmp_eq a b n \<longleftrightarrow> a = b"
  using assms by (auto simp: strncmp_eq_def)

section \<open>Big-endian wire integers\<close>

text \<open>
  The layouts of the protocols are stated in the sources as explicit big-endian
  (\<^verbatim>\<open>src/command/command_internal.h\<close>, \<^verbatim>\<open>src/fwu/fwu_lite_protocol.c\<close>): the most significant byte first.
  Reading takes the bytes from the address on, so \<open>sys_get_be16(&buffer[4])\<close> is
  \<open>sys_get_be16 (drop 4 buffer)\<close>.
\<close>

definition sys_put_be16 :: "u16 \<Rightarrow> bytes" where
  "sys_put_be16 x = [ucast (drop_bit 8 x), ucast x]"

definition sys_get_be16 :: "bytes \<Rightarrow> u16" where
  "sys_get_be16 b = push_bit 8 (ucast (b ! 0)) OR ucast (b ! 1)"

definition sys_put_be32 :: "u32 \<Rightarrow> bytes" where
  "sys_put_be32 x = sys_put_be16 (ucast (drop_bit 16 x)) @ sys_put_be16 (ucast x)"

definition sys_get_be32 :: "bytes \<Rightarrow> u32" where
  "sys_get_be32 b = push_bit 16 (ucast (sys_get_be16 b)) OR ucast (sys_get_be16 (drop 2 b))"

definition sys_put_be64 :: "u64 \<Rightarrow> bytes" where
  "sys_put_be64 x = sys_put_be32 (ucast (drop_bit 32 x)) @ sys_put_be32 (ucast x)"

definition sys_get_be64 :: "bytes \<Rightarrow> u64" where
  "sys_get_be64 b = push_bit 32 (ucast (sys_get_be32 b)) OR ucast (sys_get_be32 (drop 4 b))"

lemmas put_be_defs = sys_put_be16_def sys_put_be32_def sys_put_be64_def
lemmas get_be_defs = sys_get_be16_def sys_get_be32_def sys_get_be64_def

lemma length_put_be [simp, wire]:
  "length (sys_put_be16 x) = 2" "length (sys_put_be32 y) = 4" "length (sys_put_be64 z) = 8"
  by (simp_all add: put_be_defs)

lemma join_halves:
  "push_bit 8 (ucast (ucast (drop_bit 8 x) :: u8)) OR ucast (ucast x :: u8) = (x :: u16)"
  "push_bit 16 (ucast (ucast (drop_bit 16 y) :: u16)) OR ucast (ucast y :: u16) = (y :: u32)"
  "push_bit 32 (ucast (ucast (drop_bit 32 z) :: u32)) OR ucast (ucast z :: u32) = (z :: u64)"
  by (rule bit_word_eqI, auto simp: bit_simps)+

lemma split_halves:
  "ucast (drop_bit 8 (push_bit 8 (ucast (h :: u8)) OR ucast (l :: u8) :: u16)) = h"
  "ucast (push_bit 8 (ucast (h :: u8)) OR ucast (l :: u8) :: u16) = l"
  "ucast (drop_bit 16 (push_bit 16 (ucast (hh :: u16)) OR ucast (ll :: u16) :: u32)) = hh"
  "ucast (push_bit 16 (ucast (hh :: u16)) OR ucast (ll :: u16) :: u32) = ll"
  "ucast (drop_bit 32 (push_bit 32 (ucast (hhh :: u32)) OR ucast (lll :: u32) :: u64)) = hhh"
  "ucast (push_bit 32 (ucast (hhh :: u32)) OR ucast (lll :: u32) :: u64) = lll"
  by (rule bit_word_eqI, auto simp: bit_simps dest: bit_imp_le_length)+

lemma get_put_be16 [simp, wire]: "sys_get_be16 (sys_put_be16 x @ r) = x"
  by (simp add: put_be_defs get_be_defs join_halves)

lemma get_put_be32 [simp, wire]: "sys_get_be32 (sys_put_be32 x @ r) = x"
proof -
  have "drop 2 (sys_put_be32 x @ r) = sys_put_be16 (ucast x) @ r"
    by (simp add: sys_put_be32_def)
  then show ?thesis by (simp add: sys_put_be32_def sys_get_be32_def join_halves)
qed

lemma get_put_be64 [simp, wire]: "sys_get_be64 (sys_put_be64 x @ r) = x"
proof -
  have "drop 4 (sys_put_be64 x @ r) = sys_put_be32 (ucast x) @ r"
    by (simp add: sys_put_be64_def)
  then show ?thesis by (simp add: sys_put_be64_def sys_get_be64_def join_halves)
qed

lemmas get_put_be = get_put_be16 get_put_be32 get_put_be64
lemmas get_put_be_end [simp, wire] = get_put_be [where r = "[]", simplified append_Nil2]

lemma drop_2_Cons: "drop 2 (a # b # r) = r"
  by simp

lemma drop_4_Cons: "drop 4 (a # b # c # d # r) = r"
  by simp

lemma put_get_be16 [simp, wire]: "sys_put_be16 (sys_get_be16 (a # b # r)) = [a, b]"
  by (simp only: sys_put_be16_def sys_get_be16_def nth_Cons_0 One_nat_def nth_Cons_Suc split_halves)

lemma put_get_be32 [simp, wire]: "sys_put_be32 (sys_get_be32 (a # b # c # d # r)) = [a, b, c, d]"
  by (simp only: sys_put_be32_def sys_get_be32_def split_halves put_get_be16 drop_2_Cons append.simps)

lemma put_get_be64 [simp, wire]:
  "sys_put_be64 (sys_get_be64 (a # b # c # d # e # f # g # h # r)) = [a, b, c, d, e, f, g, h]"
  by (simp only: sys_put_be64_def sys_get_be64_def split_halves put_get_be32 drop_4_Cons append.simps)

text \<open>The leading bytes of a buffer that is long enough.\<close>

lemma list_ge:
  "2 \<le> length xs \<Longrightarrow> \<exists>a b r. xs = a # b # r"
  "3 \<le> length xs \<Longrightarrow> \<exists>a b c r. xs = a # b # c # r"
  "4 \<le> length xs \<Longrightarrow> \<exists>a b c d r. xs = a # b # c # d # r"
  "8 \<le> length xs \<Longrightarrow> \<exists>a b c d e f g h r. xs = a # b # c # d # e # f # g # h # r"
  by (auto simp: Suc_le_length_iff eval_nat_numeral)

lemma take_drop_split:
  assumes "a \<le> b" and "b \<le> c"
  shows "take (c - a) (drop a xs) = take (b - a) (drop a xs) @ take (c - b) (drop b xs)"
proof -
  have "c - a = (b - a) + (c - b)" using assms by simp
  then show ?thesis using assms by (simp only: take_add drop_drop) simp
qed

section \<open>Saturating counters\<close>

text \<open>
  \<open>if (counter < UINT32_MAX) counter++\<close>, the idiom of the services' counters
  (\<open>saturating_increment\<close> in \<^verbatim>\<open>src/remexec/remexec.c\<close> and in \<^verbatim>\<open>src/limits/limits.c\<close>).
\<close>

definition saturating_increment :: "u32 \<Rightarrow> u32" where
  "saturating_increment c = (if c < UINT32_MAX then c + 1 else c)"

lemma unat_saturating_increment [counters]:
  "unat (saturating_increment c) = min (unat c + 1) 4294967295"
proof (cases "c < UINT32_MAX")
  case True
  then have lt: "unat c < 4294967295" by (simp add: word_less_nat_alt)
  then have "unat (c + 1) = unat c + 1" by (simp add: unat_plus_small)
  with True lt show ?thesis by (simp add: saturating_increment_def)
next
  case False
  then have "4294967295 \<le> unat c" by (simp add: word_less_nat_alt)
  with unat_u32_bound [of c] have "unat c = 4294967295" by simp
  with False show ?thesis by (simp add: saturating_increment_def)
qed

lemma saturating_increment_mono [counters]: "c \<le> saturating_increment c"
  using unat_u32_bound [of c] by (auto simp: word_le_nat_alt unat_saturating_increment)

lemma saturating_increment_never_wraps [counters]: "saturating_increment c \<noteq> 0"
  using unat_saturating_increment [of c] by (auto simp flip: unat_eq_zero)

section \<open>Visits\<close>

text \<open>A loop that passes the elements of a list to a visitor until it says stop.\<close>

fun visit_list :: "('r \<Rightarrow> 'c \<Rightarrow> bool \<times> 'c) \<Rightarrow> 'r list \<Rightarrow> 'c \<Rightarrow> 'c" where
  "visit_list v [] c = c"
| "visit_list v (e # es) c = (let (again, c') = v e c in if again then visit_list v es c' else c')"

section \<open>Searching a table\<close>

text \<open>The index at which a search loop stops.\<close>

fun first_index :: "('a \<Rightarrow> bool) \<Rightarrow> 'a list \<Rightarrow> nat option" where
  "first_index P [] = None"
| "first_index P (x # xs) = (if P x then Some 0 else map_option Suc (first_index P xs))"

lemma first_index_Some:
  "first_index P xs = Some i \<longleftrightarrow> i < length xs \<and> P (xs ! i) \<and> (\<forall>j < i. \<not> P (xs ! j))"
proof (induction xs arbitrary: i)
  case (Cons x xs)
  then show ?case by (cases i) (auto simp: nth_Cons less_Suc_eq_0_disj split: nat.splits)
qed simp

lemma first_index_None: "first_index P xs = None \<longleftrightarrow> (\<forall>x \<in> set xs. \<not> P x)"
  by (induction xs) auto

lemma length_filter_update:
  "i < length xs \<Longrightarrow>
   length (filter P (xs[i := y])) + (if P (xs ! i) then 1 else 0) =
   length (filter P xs) + (if P y then 1 else 0)"
proof (induction xs arbitrary: i)
  case (Cons x xs)
  then show ?case by (cases i) auto
qed simp

section \<open>The newest elements of a list\<close>

definition keep_last :: "nat \<Rightarrow> 'a list \<Rightarrow> 'a list" where
  "keep_last n xs = drop (length xs - n) xs"

lemma keep_last_short [simp]: "length xs \<le> n \<Longrightarrow> keep_last n xs = xs"
  by (simp add: keep_last_def)

lemma length_keep_last [simp]: "length (keep_last n xs) = min n (length xs)"
  by (auto simp: keep_last_def)

lemma keep_last_keep_last_append: "keep_last n (keep_last n xs @ ys) = keep_last n (xs @ ys)"
proof (cases "length xs \<le> n")
  case False
  then have "xs = take (length xs - n) xs @ keep_last n xs"
    by (simp add: keep_last_def)
  then have "keep_last n (xs @ ys) = keep_last n (take (length xs - n) xs @ keep_last n xs @ ys)"
    by (metis append.assoc)
  also have "\<dots> = keep_last n (keep_last n xs @ ys)"
    using False by (simp add: keep_last_def)
  finally show ?thesis by simp
qed simp

lemma keep_last_snoc_full:
  assumes "length xs = n" and "0 < n"
  shows "keep_last n (xs @ [x]) = tl xs @ [x]"
  using assms by (cases xs) (auto simp: keep_last_def)

lemma last_keep_last: "0 < n \<Longrightarrow> xs \<noteq> [] \<Longrightarrow> last (keep_last n xs) = last xs"
  by (simp add: keep_last_def last_drop)

lemma set_keep_last: "set (keep_last n xs) \<subseteq> set xs"
  by (simp add: keep_last_def set_drop_subset)

lemma keep_last_map: "keep_last n (map f xs) = map f (keep_last n xs)"
  by (simp add: keep_last_def drop_map)

end
