(* ===== verification/Contracts.thy ===== *)
theory Contracts
  imports Prelude
begin

text \<open>
  Contracts that several components implement, stated once with the facts their clients use.

  \<^item> \<open>ring_log\<close>: a fixed ring that keeps the newest records; implemented by the event ring, the log
    history and the rings of the housekeeping reports.
  \<^item> \<open>wire_codec\<close> and \<open>canonical_codec\<close>: an encoder and a decoder of one message type; implemented by
    the command, file transfer, firmware and remote execution protocols.
  \<^item> \<open>crossing_latch\<close>: a counter that counts entries into a condition and not the samples spent in it;
    implemented by the stack alert of the resource monitor and by the regions of the image scrub.
  \<^item> \<open>keyed_table\<close>: a table in the strict order of its keys; implemented by the registries of the
    parameter service.
  \<^item> \<open>planned_loop\<close>: a bounded loop that picks the next item of a plan and runs it; implemented by the
    sweep of the release queue.
  Each is interpreted in the theory of the component that provides it.
\<close>

section \<open>Rings that keep the newest records\<close>

locale ring_log =
  fixes store :: "'x \<Rightarrow> 's \<Rightarrow> 's"
    and stamp :: "'x \<Rightarrow> 's \<Rightarrow> 'r"
    and contents :: "'s \<Rightarrow> 'r list"
    and capacity :: "'s \<Rightarrow> nat"
    and invar :: "'s \<Rightarrow> bool"
    and room :: "'x \<Rightarrow> 's \<Rightarrow> bool"
  assumes invar_store: "invar s \<Longrightarrow> room x s \<Longrightarrow> invar (store x s)"
    and capacity_store: "invar s \<Longrightarrow> room x s \<Longrightarrow> capacity (store x s) = capacity s"
    and contents_store:
      "invar s \<Longrightarrow> room x s \<Longrightarrow> contents (store x s) = keep_last (capacity s) (contents s @ [stamp x s])"
    and capacity_pos: "invar s \<Longrightarrow> 0 < capacity s"
    and contents_fit: "invar s \<Longrightarrow> length (contents s) \<le> capacity s"
begin

fun admissible :: "'s \<Rightarrow> 'x list \<Rightarrow> bool" where
  "admissible s [] = True"
| "admissible s (x # xs) = (room x s \<and> admissible (store x s) xs)"

fun stamps :: "'s \<Rightarrow> 'x list \<Rightarrow> 'r list" where
  "stamps s [] = []"
| "stamps s (x # xs) = stamp x s # stamps (store x s) xs"

lemma run_invar:
  "invar s \<Longrightarrow> admissible s xs \<Longrightarrow>
   invar (fold store xs s) \<and> capacity (fold store xs s) = capacity s"
  by (induction xs arbitrary: s) (auto simp: invar_store capacity_store)

lemma run_contents:
  "invar s \<Longrightarrow> admissible s xs \<Longrightarrow>
   contents (fold store xs s) = keep_last (capacity s) (contents s @ stamps s xs)"
proof (induction xs arbitrary: s)
  case Nil
  then show ?case by (simp add: contents_fit)
next
  case (Cons x xs)
  then have "contents (fold store xs (store x s)) =
      keep_last (capacity s) (keep_last (capacity s) (contents s @ [stamp x s]) @ stamps (store x s) xs)"
    by (simp add: invar_store capacity_store contents_store)
  then show ?case by (simp add: keep_last_keep_last_append)
qed

lemma newest_stored: "invar s \<Longrightarrow> room x s \<Longrightarrow> last (contents (store x s)) = stamp x s"
  by (simp add: contents_store last_keep_last capacity_pos)

lemma stored_grows:
  "invar s \<Longrightarrow> room x s \<Longrightarrow>
   length (contents (store x s)) = min (capacity s) (Suc (length (contents s)))"
  by (simp add: contents_store)

lemma nothing_lost_below_capacity:
  "invar s \<Longrightarrow> room x s \<Longrightarrow> length (contents s) < capacity s \<Longrightarrow>
   contents (store x s) = contents s @ [stamp x s]"
  by (simp add: contents_store)

lemma only_oldest_lost:
  "invar s \<Longrightarrow> room x s \<Longrightarrow> length (contents s) = capacity s \<Longrightarrow>
   contents (store x s) = tl (contents s) @ [stamp x s]"
  by (simp add: contents_store keep_last_snoc_full capacity_pos)

end

section \<open>Wire codecs\<close>

locale wire_codec =
  fixes encode :: "'m \<Rightarrow> bytes option"
    and decode :: "bytes \<Rightarrow> 'm option"
    and wf :: "'m \<Rightarrow> bool"
  assumes encode_total: "wf m \<Longrightarrow> \<exists>b. encode m = Some b"
    and decode_encode: "wf m \<Longrightarrow> encode m = Some b \<Longrightarrow> decode b = Some m"
begin

lemma round_trip: "wf m \<Longrightarrow> \<exists>b. encode m = Some b \<and> decode b = Some m"
  using encode_total decode_encode by blast

lemma encode_inj: "wf m \<Longrightarrow> wf m' \<Longrightarrow> encode m = encode m' \<Longrightarrow> m = m'"
  by (metis round_trip option.inject)

end

locale canonical_codec = wire_codec +
  assumes decode_wf: "decode b = Some m \<Longrightarrow> wf m"
    and encode_decode: "decode b = Some m \<Longrightarrow> encode m = Some b"
begin

lemma decode_iff: "decode b = Some m \<longleftrightarrow> wf m \<and> encode m = Some b"
  using decode_wf encode_decode decode_encode by blast

lemma decode_inj: "decode b = Some m \<Longrightarrow> decode b' = Some m \<Longrightarrow> b = b'"
  by (metis encode_decode option.inject)

end

section \<open>Counting crossings\<close>

text \<open>
  \<open>counts\<close> is whether a sample is a measurement at all, \<open>above\<close> the condition it is tested for, \<open>latched\<close>
  the latch and \<open>count\<close> the counter, which stops at \<open>limit\<close>. The latch holds while measurements stay above;
  a sample that is no measurement changes neither.
\<close>

fun crossings :: "bool \<Rightarrow> bool list \<Rightarrow> nat" where
  "crossings latched [] = 0"
| "crossings latched (b # bs) = (if b \<and> \<not> latched then 1 else 0) + crossings b bs"

locale crossing_latch =
  fixes step :: "'i \<Rightarrow> 's \<Rightarrow> 's"
    and counts :: "'i \<Rightarrow> bool"
    and above :: "'i \<Rightarrow> 's \<Rightarrow> bool"
    and latched :: "'s \<Rightarrow> bool"
    and count :: "'s \<Rightarrow> nat"
    and limit :: nat
  assumes latch_step: "latched (step i s) \<longleftrightarrow> (if counts i then above i s else latched s)"
    and count_step: "count (step i s) =
      (if counts i \<and> above i s \<and> \<not> latched s then min (count s + 1) limit else count s)"
    and above_step: "above j (step i s) \<longleftrightarrow> above j s"
    and count_limit: "count s \<le> limit"
begin

lemma run_above: "above j (fold step is s) \<longleftrightarrow> above j s"
  by (induction "is" arbitrary: s) (auto simp: above_step)

lemma run_count:
  "count (fold step is s) =
   min (count s + crossings (latched s) (map (\<lambda>i. above i s) (filter counts is))) limit"
proof (induction "is" arbitrary: s)
  case Nil
  show ?case using count_limit [of s] by simp
next
  case (Cons i "is")
  have "map (\<lambda>j. above j (step i s)) (filter counts is) = map (\<lambda>j. above j s) (filter counts is)"
    by (simp add: above_step)
  then show ?case
    using Cons.IH [of "step i s"] count_limit [of s] by (auto simp: latch_step count_step above_step)
qed

lemma no_recount_while_above: "latched s \<Longrightarrow> count (step i s) = count s"
  by (simp add: count_step)

end

section \<open>Tables ordered by a key\<close>

text \<open>
  The contract of a table kept in the strict order of its keys: \<open>put\<close> adds an element with a new key and
  \<open>get\<close> finds an element by its key. The registries of the parameter service, of its entries by wire ID
  and of its tables by number, provide it.
\<close>

locale keyed_table =
  fixes key :: "'a \<Rightarrow> 'k::linorder"
    and put :: "'a \<Rightarrow> 'a list \<Rightarrow> 'a list"
    and get :: "'k \<Rightarrow> 'a list \<Rightarrow> 'a option"
  assumes put_ordered: "sorted_wrt (<) (map key xs) \<Longrightarrow> key x \<notin> key ` set xs \<Longrightarrow> sorted_wrt (<) (map key (put x xs))"
    and put_set: "set (put x xs) = insert x (set xs)"
    and put_length: "length (put x xs) = Suc (length xs)"
    and get_Some: "sorted_wrt (<) (map key xs) \<Longrightarrow> get k xs = Some x \<longleftrightarrow> x \<in> set xs \<and> key x = k"
begin

lemma get_None:
  assumes "sorted_wrt (<) (map key xs)"
  shows "get k xs = None \<longleftrightarrow> k \<notin> key ` set xs"
proof -
  have "get k xs = None \<longleftrightarrow> (\<forall>x. get k xs \<noteq> Some x)" by (cases "get k xs") auto
  then show ?thesis by (auto simp: get_Some [OF assms])
qed

lemma get_put:
  assumes "sorted_wrt (<) (map key xs)" and "key x \<notin> key ` set xs"
  shows "get k (put x xs) = (if k = key x then Some x else get k xs)"
proof (cases "get k (put x xs)")
  case None
  then have "k \<noteq> key x" "k \<notin> key ` set xs"
    using get_None [OF put_ordered [OF assms]] by (auto simp: put_set)
  with None get_None [OF assms(1), of k] show ?thesis by simp
next
  case (Some y)
  then have y: "y = x \<or> y \<in> set xs" "key y = k"
    using get_Some [OF put_ordered [OF assms]] by (auto simp: put_set)
  show ?thesis
  proof (cases "y = x")
    case True
    with Some y show ?thesis by simp
  next
    case False
    with y have ys: "y \<in> set xs" by simp
    then have "key y \<in> key ` set xs" by simp
    with y assms(2) have "k \<noteq> key x" by metis
    with ys y Some get_Some [OF assms(1), of k y] show ?thesis by simp
  qed
qed

lemma get_key: "sorted_wrt (<) (map key xs) \<Longrightarrow> x \<in> set xs \<Longrightarrow> get (key x) xs = Some x"
  by (simp add: get_Some)

text \<open>Elements with distinct keys, put one after the other, are all found, and only they.\<close>

lemma fold_put:
  assumes "sorted_wrt (<) (map key xs)" and "distinct (map key ys)"
    and "key ` set xs \<inter> key ` set ys = {}"
  shows "sorted_wrt (<) (map key (fold put ys xs)) \<and> set (fold put ys xs) = set xs \<union> set ys"
  using assms
proof (induction ys arbitrary: xs)
  case (Cons y ys)
  then have "key y \<notin> key ` set xs" by auto
  with Cons.prems put_ordered have "sorted_wrt (<) (map key (put y xs))" by blast
  moreover have "key ` set (put y xs) \<inter> key ` set ys = {}" using Cons.prems by (auto simp: put_set)
  ultimately show ?case using Cons.IH [of "put y xs"] Cons.prems(2) by (simp add: put_set)
qed simp

end

section \<open>Bounded loops that work off a plan\<close>

text \<open>At most \<open>n\<close> rounds of picking an item and running it; a round without an item ends the loop.\<close>

fun pick_and_run :: "('s \<Rightarrow> 'i option \<times> 's) \<Rightarrow> ('i \<Rightarrow> 's \<Rightarrow> 's) \<Rightarrow> nat \<Rightarrow> 's \<Rightarrow> 's" where
  "pick_and_run pick run 0 s = s"
| "pick_and_run pick run (Suc n) s =
     (case pick s of (None, s') \<Rightarrow> s' | (Some i, s') \<Rightarrow> pick_and_run pick run n (run i s'))"

locale planned_loop =
  fixes fits :: "'s \<Rightarrow> bool"
    and tidied :: "'s \<Rightarrow> bool"
    and plan :: "'s \<Rightarrow> 'i list"
    and pick :: "'s \<Rightarrow> 'i option \<times> 's"
    and run :: "'i \<Rightarrow> 's \<Rightarrow> 's"
    and tidy :: "'s \<Rightarrow> 's"
  assumes pick_first: "pick s = ((case plan s of [] \<Rightarrow> None | i # rest \<Rightarrow> Some i), tidy s)"
    and tidy_keeps: "fits s \<Longrightarrow> fits (tidy s) \<and> tidied (tidy s) \<and> plan (tidy s) = plan s"
    and tidy_tidied: "tidied s \<Longrightarrow> tidy s = s"
    and run_rest: "fits s \<Longrightarrow> tidied s \<Longrightarrow> plan s = i # rest
      \<Longrightarrow> fits (run i s) \<and> tidied (run i s) \<and> plan (run i s) = rest"
begin

lemma rounds_tidied: "fits s \<Longrightarrow> tidied s \<Longrightarrow> pick_and_run pick run n s = fold run (take n (plan s)) s"
proof (induction n arbitrary: s)
  case (Suc n)
  show ?case
  proof (cases "plan s")
    case Nil
    then show ?thesis using Suc.prems by (simp add: pick_first tidy_tidied)
  next
    case (Cons i rest)
    with Suc.prems run_rest have "fits (run i s)" "tidied (run i s)" "plan (run i s) = rest" by auto
    with Suc Cons show ?thesis by (simp add: pick_first tidy_tidied)
  qed
qed simp

text \<open>The loop tidies up once and then runs the plan in order, as far as its rounds go.\<close>

lemma rounds_planned:
  assumes "fits s" and "n > 0"
  shows "pick_and_run pick run n s = fold run (take n (plan s)) (tidy s)"
proof -
  obtain m where n: "n = Suc m" using assms(2) by (cases n) auto
  show ?thesis
  proof (cases "plan s")
    case Nil
    then show ?thesis by (simp add: n pick_first)
  next
    case (Cons i rest)
    with run_rest [of "tidy s"] tidy_keeps [OF assms(1)]
    have "fits (run i (tidy s))" "tidied (run i (tidy s))" "plan (run i (tidy s)) = rest" by auto
    with Cons show ?thesis by (simp add: n pick_first rounds_tidied)
  qed
qed

text \<open>With a round to spare the whole plan is run, and none of it is left.\<close>

lemma plan_left:
  assumes "fits s" and "n > 0"
  shows "plan (pick_and_run pick run n s) = drop n (plan s)"
proof -
  have "fits s' \<Longrightarrow> tidied s' \<Longrightarrow> plan (fold run (take k (plan s')) s') = drop k (plan s')" for s' k
  proof (induction k arbitrary: s')
    case (Suc k)
    show ?case
    proof (cases "plan s'")
      case (Cons i rest)
      with Suc.prems run_rest have "fits (run i s')" "tidied (run i s')" "plan (run i s') = rest" by auto
      with Suc.IH [of "run i s'"] Cons show ?thesis by simp
    qed simp
  qed simp
  with tidy_keeps [OF assms(1)] show ?thesis by (metis rounds_planned [OF assms])
qed

end

end
