(* ===== verification/Event.thy ===== *)
theory Event
  imports Contracts
begin

text \<open>
  The event record, \<^verbatim>\<open>src/event/event.c\<close> with the types of \<^verbatim>\<open>include/kfsw/services/event.h\<close>: a fixed
  ring of numeric events. The state \<open>event_state\<close> holds the file's static variables; the ring is a
  list whose length is \<open>ARRAY_SIZE(ring)\<close>. \<open>held_count\<close> and \<open>oldest_index\<close> index the ring, whose depth
  Kconfig bounds by 256, so they are \<open>nat\<close>; the counters and the sequence number are 32-bit words and
  wrap. Each operation runs under the ring's spinlock and is one state transformer. Operations are
  modelled without \<open>CONFIG_KFSW_JOURNAL\<close>, so no copy is handed on after a record is stored.

  Proved: the ring refines a bounded list (an interpretation of \<open>ring_log\<close>), the sequence numbers of
  the held records are consecutive, lookup by age and the visit agree with that list, and a refused
  event changes nothing but the rejection counter.
\<close>

section \<open>Types\<close>

datatype kfsw_event_source =
    KFSW_EVENT_SOURCE_BOOT | KFSW_EVENT_SOURCE_COMMAND | KFSW_EVENT_SOURCE_FTP
  | KFSW_EVENT_SOURCE_APP | KFSW_EVENT_SOURCE_FBO | KFSW_EVENT_SOURCE_GNDWDT
  | KFSW_EVENT_SOURCE_RESMON | KFSW_EVENT_SOURCE_TABLE | KFSW_EVENT_SOURCE_SCRUB
  | KFSW_EVENT_SOURCE_LIMITS

fun source_value :: "kfsw_event_source \<Rightarrow> int" where
  "source_value KFSW_EVENT_SOURCE_BOOT = 1"
| "source_value KFSW_EVENT_SOURCE_COMMAND = 2"
| "source_value KFSW_EVENT_SOURCE_FTP = 3"
| "source_value KFSW_EVENT_SOURCE_APP = 4"
| "source_value KFSW_EVENT_SOURCE_FBO = 5"
| "source_value KFSW_EVENT_SOURCE_GNDWDT = 6"
| "source_value KFSW_EVENT_SOURCE_RESMON = 7"
| "source_value KFSW_EVENT_SOURCE_TABLE = 8"
| "source_value KFSW_EVENT_SOURCE_SCRUB = 9"
| "source_value KFSW_EVENT_SOURCE_LIMITS = 10"

datatype kfsw_event_severity =
  KFSW_EVENT_INFO | KFSW_EVENT_WARNING | KFSW_EVENT_ERROR | KFSW_EVENT_CRITICAL

fun severity_value :: "kfsw_event_severity \<Rightarrow> int" where
  "severity_value KFSW_EVENT_INFO = 0"
| "severity_value KFSW_EVENT_WARNING = 1"
| "severity_value KFSW_EVENT_ERROR = 2"
| "severity_value KFSW_EVENT_CRITICAL = 3"

text \<open>The severities are ordered as the code compares them.\<close>

instantiation kfsw_event_severity :: linorder
begin

definition less_eq_kfsw_event_severity :: "kfsw_event_severity \<Rightarrow> kfsw_event_severity \<Rightarrow> bool" where
  "less_eq_kfsw_event_severity a b \<longleftrightarrow> severity_value a \<le> severity_value b"

definition less_kfsw_event_severity :: "kfsw_event_severity \<Rightarrow> kfsw_event_severity \<Rightarrow> bool" where
  "less_kfsw_event_severity a b \<longleftrightarrow> severity_value a < severity_value b"

instance
proof
  fix x y :: kfsw_event_severity
  show "x \<le> y \<Longrightarrow> y \<le> x \<Longrightarrow> x = y"
    by (cases x; cases y) (auto simp: less_eq_kfsw_event_severity_def)
qed (auto simp: less_eq_kfsw_event_severity_def less_kfsw_event_severity_def)

end

definition KFSW_EVENT_MAX_PAYLOAD_SIZE :: nat where
  "KFSW_EVENT_MAX_PAYLOAD_SIZE = 16"

record kfsw_event_record =
  ev_monotonic_us :: u64
  ev_sequence :: u32
  ev_source :: u16
  ev_id :: u16
  ev_severity :: u8
  ev_payload_size :: u8
  ev_payload :: bytes

record kfsw_event_stats =
  st_recorded :: u32
  st_rejected :: u32
  st_overwritten :: u32
  st_held :: nat
  st_capacity :: nat

record event_state =
  ring :: "kfsw_event_record list"
  next_sequence :: u32
  recorded_count :: u32
  rejected_count :: u32
  overwritten_count :: u32
  held_count :: nat
  oldest_index :: nat

section \<open>Operations\<close>

definition source_is_known :: "int \<Rightarrow> bool" where
  "source_is_known source \<longleftrightarrow>
     source = source_value KFSW_EVENT_SOURCE_BOOT \<or>
     source = source_value KFSW_EVENT_SOURCE_COMMAND \<or>
     source = source_value KFSW_EVENT_SOURCE_FTP \<or>
     source = source_value KFSW_EVENT_SOURCE_APP \<or>
     source = source_value KFSW_EVENT_SOURCE_FBO \<or>
     source = source_value KFSW_EVENT_SOURCE_GNDWDT \<or>
     source = source_value KFSW_EVENT_SOURCE_RESMON"

text \<open>
  The arguments of one emission: the C enumerators arrive as integers, the payload as a pointer and
  a size, and \<open>rq_now_us\<close> is the uptime in microseconds the code reads when it stores the record.
\<close>

record event_request =
  rq_source :: int
  rq_id :: u16
  rq_severity :: int
  rq_payload :: "bytes option"
  rq_payload_size :: nat
  rq_now_us :: u64

definition emit_refused :: "event_request \<Rightarrow> bool" where
  "emit_refused r \<longleftrightarrow>
     \<not> source_is_known (rq_source r) \<or>
     rq_severity r < severity_value KFSW_EVENT_INFO \<or>
     rq_severity r > severity_value KFSW_EVENT_CRITICAL \<or>
     rq_payload_size r > KFSW_EVENT_MAX_PAYLOAD_SIZE \<or>
     (rq_payload_size r \<noteq> 0 \<and> rq_payload r = None)"

text \<open>What the accepted emission writes into its slot.\<close>

definition emit_record :: "event_request \<Rightarrow> u32 \<Rightarrow> kfsw_event_record" where
  "emit_record r sequence = \<lparr>
     ev_monotonic_us = rq_now_us r,
     ev_sequence = sequence,
     ev_source = word_of_int (rq_source r),
     ev_id = rq_id r,
     ev_severity = word_of_int (rq_severity r),
     ev_payload_size = word_of_nat (rq_payload_size r),
     ev_payload =
       (case rq_payload r of None \<Rightarrow> [] | Some p \<Rightarrow> take (rq_payload_size r) p)
         @ replicate (KFSW_EVENT_MAX_PAYLOAD_SIZE - rq_payload_size r) 0 \<rparr>"

definition kfsw_event_emit :: "event_request \<Rightarrow> event_state \<Rightarrow> event_state" where
  "kfsw_event_emit r st =
     (if emit_refused r then st\<lparr>rejected_count := rejected_count st + 1\<rparr>
      else
        let n = length (ring st);
            write_index = (oldest_index st + held_count st) mod n;
            st1 = (if held_count st = n
                   then st\<lparr>overwritten_count := overwritten_count st + 1,
                           oldest_index := (oldest_index st + 1) mod n\<rparr>
                   else st\<lparr>held_count := held_count st + 1\<rparr>)
        in st1\<lparr>ring := (ring st1)[write_index := emit_record r (next_sequence st)],
               next_sequence := next_sequence st1 + 1,
               recorded_count := recorded_count st1 + 1\<rparr>)"

text \<open>
  The visit copies each record under the lock and calls the visitor outside it; \<open>visitor\<close> maps the
  record and its context to whether to go on and the new context. The loop is modelled for a ring
  nobody else writes while the visit runs.
\<close>

function visit_from ::
  "(kfsw_event_record \<Rightarrow> 'c \<Rightarrow> bool \<times> 'c) \<Rightarrow> event_state \<Rightarrow> nat \<Rightarrow> 'c \<Rightarrow> 'c" where
  "visit_from visitor st index context =
     (if held_count st \<le> index then context
      else
        let copy = ring st ! ((oldest_index st + index) mod length (ring st));
            (again, context') = visitor copy context
        in if \<not> again then context' else visit_from visitor st (index + 1) context')"
  by pat_completeness auto
termination
  by (relation "measure (\<lambda>(v, st, index, c). held_count st - index)") auto

declare visit_from.simps [simp del]

definition kfsw_event_visit ::
  "(kfsw_event_record \<Rightarrow> 'c \<Rightarrow> bool \<times> 'c) option \<Rightarrow> event_state \<Rightarrow> 'c \<Rightarrow> 'c" where
  "kfsw_event_visit visitor st context =
     (case visitor of None \<Rightarrow> context | Some v \<Rightarrow> visit_from v st 0 context)"

definition kfsw_event_get :: "nat \<Rightarrow> dest \<Rightarrow> event_state \<Rightarrow> errno + kfsw_event_record" where
  "kfsw_event_get age record st =
     (if record = Null then Inl EINVAL
      else if held_count st \<le> age then Inl ENOENT
      else Inr (ring st ! ((oldest_index st + held_count st - 1 - age) mod length (ring st))))"

definition kfsw_event_get_stats :: "dest \<Rightarrow> event_state \<Rightarrow> kfsw_event_stats option" where
  "kfsw_event_get_stats stats st =
     (if stats = Null then None
      else Some \<lparr>st_recorded = recorded_count st, st_rejected = rejected_count st,
                 st_overwritten = overwritten_count st, st_held = held_count st,
                 st_capacity = length (ring st)\<rparr>)"

definition kfsw_event_clear :: "event_state \<Rightarrow> event_state" where
  "kfsw_event_clear st = st\<lparr>held_count := 0, oldest_index := 0\<rparr>"

definition kfsw_event_severity_name :: "int \<Rightarrow> string" where
  "kfsw_event_severity_name severity =
     (if severity = severity_value KFSW_EVENT_INFO then ''info''
      else if severity = severity_value KFSW_EVENT_WARNING then ''warning''
      else if severity = severity_value KFSW_EVENT_ERROR then ''error''
      else if severity = severity_value KFSW_EVENT_CRITICAL then ''critical''
      else ''unknown'')"

definition kfsw_event_source_name :: "int \<Rightarrow> string" where
  "kfsw_event_source_name source =
     (if source = source_value KFSW_EVENT_SOURCE_BOOT then ''boot''
      else if source = source_value KFSW_EVENT_SOURCE_COMMAND then ''command''
      else if source = source_value KFSW_EVENT_SOURCE_FTP then ''ftp''
      else if source = source_value KFSW_EVENT_SOURCE_APP then ''app''
      else if source = source_value KFSW_EVENT_SOURCE_FBO then ''fbo''
      else if source = source_value KFSW_EVENT_SOURCE_GNDWDT then ''gndwdt''
      else if source = source_value KFSW_EVENT_SOURCE_RESMON then ''resmon''
      else ''unknown'')"

text \<open>The zero-initialised statics of a build with a ring of the given depth.\<close>

definition event_init :: "nat \<Rightarrow> event_state" where
  "event_init depth = \<lparr>
     ring = replicate depth \<lparr>ev_monotonic_us = 0, ev_sequence = 0, ev_source = 0, ev_id = 0,
                             ev_severity = 0, ev_payload_size = 0, ev_payload = replicate 16 0\<rparr>,
     next_sequence = 0, recorded_count = 0, rejected_count = 0, overwritten_count = 0,
     held_count = 0, oldest_index = 0\<rparr>"

section \<open>The ring as a list\<close>

text \<open>The held records, oldest first.\<close>

definition event_contents :: "event_state \<Rightarrow> kfsw_event_record list" where
  "event_contents st =
     map (\<lambda>i. ring st ! ((oldest_index st + i) mod length (ring st))) [0..<held_count st]"

definition ring_ok :: "event_state \<Rightarrow> bool" where
  "ring_ok st \<longleftrightarrow> ring st \<noteq> [] \<and> held_count st \<le> length (ring st)
     \<and> oldest_index st < length (ring st)"

definition event_room :: "event_request \<Rightarrow> event_state \<Rightarrow> bool" where
  "event_room r st \<longleftrightarrow> \<not> emit_refused r"

text \<open>
  The invariant: the indices stay inside the ring, the held records carry consecutive sequence
  numbers that end just before \<open>next_sequence\<close>, and each record has a full payload area, a payload
  size inside it, and a known source and severity.
\<close>

definition record_ok :: "kfsw_event_record \<Rightarrow> bool" where
  "record_ok e \<longleftrightarrow> length (ev_payload e) = KFSW_EVENT_MAX_PAYLOAD_SIZE
     \<and> unat (ev_payload_size e) \<le> KFSW_EVENT_MAX_PAYLOAD_SIZE
     \<and> source_is_known (uint (ev_source e))
     \<and> uint (ev_severity e) \<le> severity_value KFSW_EVENT_CRITICAL"

definition event_inv :: "event_state \<Rightarrow> bool" where
  "event_inv st \<longleftrightarrow> ring_ok st
     \<and> (\<forall>i < held_count st. ev_sequence (event_contents st ! i) =
           next_sequence st - word_of_nat (held_count st) + word_of_nat i)
     \<and> (\<forall>e \<in> set (event_contents st). record_ok e)"

text \<open>
  The states a sequence of emissions and clears leads to, from a ring of the given depth. A caller
  passes a payload it can read for the size it states, as \<^verbatim>\<open>event.h\<close> asks.
\<close>

definition payload_readable :: "event_request \<Rightarrow> bool" where
  "payload_readable r \<longleftrightarrow> (\<forall>p. rq_payload r = Some p \<longrightarrow> rq_payload_size r \<le> length p)"

inductive event_reachable :: "nat \<Rightarrow> event_state \<Rightarrow> bool" for depth where
  start: "event_reachable depth (event_init depth)"
| emit: "event_reachable depth st \<Longrightarrow> payload_readable r \<Longrightarrow>
         event_reachable depth (kfsw_event_emit r st)"
| clear: "event_reachable depth st \<Longrightarrow> event_reachable depth (kfsw_event_clear st)"

text \<open>A request the witnesses below use.\<close>

definition demo_request :: "int \<Rightarrow> event_request" where
  "demo_request source = \<lparr>rq_source = source, rq_id = 7, rq_severity = 1, rq_payload = Some [1, 2],
     rq_payload_size = 2, rq_now_us = 9\<rparr>"

section \<open>Lemmas\<close>

lemma length_event_contents [simp]: "length (event_contents st) = held_count st"
  by (simp add: event_contents_def)

lemma nth_event_contents [simp]:
  "i < held_count st \<Longrightarrow>
   event_contents st ! i = ring st ! ((oldest_index st + i) mod length (ring st))"
  by (simp add: event_contents_def)

lemma ring_ok_emit: "ring_ok st \<Longrightarrow> ring_ok (kfsw_event_emit r st)"
  by (auto simp: ring_ok_def kfsw_event_emit_def Let_def)

lemma length_ring_emit [simp]: "length (ring (kfsw_event_emit r st)) = length (ring st)"
  by (simp add: kfsw_event_emit_def Let_def)

lemma mod_index_neq:
  assumes "i < j" and "j - i < n"
  shows "(a + i) mod n \<noteq> (a + j) mod (n :: nat)"
proof
  assume "(a + i) mod n = (a + j) mod n"
  then have "n dvd (a + j) - (a + i)"
    using assms by (metis mod_eq_dvd_iff_nat nat_add_left_cancel_le less_imp_le)
  then show False using assms by (auto dest: dvd_imp_le)
qed

lemma event_contents_emit:
  assumes "ring_ok st" and "\<not> emit_refused r"
  shows "event_contents (kfsw_event_emit r st) =
         keep_last (length (ring st)) (event_contents st @ [emit_record r (next_sequence st)])"
proof (cases "held_count st = length (ring st)")
  case True
  let ?n = "length (ring st)" and ?o = "oldest_index st" and ?new = "emit_record r (next_sequence st)"
  have pos: "0 < ?n" and o: "?o < ?n" using assms(1) by (auto simp: ring_ok_def)
  have "event_contents (kfsw_event_emit r st) = tl (event_contents st) @ [?new]"
  proof (rule nth_equalityI)
    show "length (event_contents (kfsw_event_emit r st)) = length (tl (event_contents st) @ [?new])"
      using True pos assms(2) by (simp add: kfsw_event_emit_def Let_def)
  next
    fix i assume "i < length (event_contents (kfsw_event_emit r st))"
    then have i: "i < ?n" using True assms(2) by (simp add: kfsw_event_emit_def Let_def)
    have "event_contents (kfsw_event_emit r st) ! i =
        ((ring st)[?o := ?new]) ! ((?o + Suc i) mod ?n)"
      using True assms(2) i o pos
      by (simp add: kfsw_event_emit_def Let_def mod_add_left_eq)
    moreover have "(?o + Suc i) mod ?n \<noteq> ?o" if "Suc i < ?n"
      using mod_index_neq [of 0 "Suc i" ?n ?o] that o by simp
    moreover have "(?o + Suc i) mod ?n = ?o" if "Suc i = ?n"
      using that o by simp
    ultimately show "event_contents (kfsw_event_emit r st) ! i = (tl (event_contents st) @ [?new]) ! i"
      using i True o by (cases "Suc i = ?n") (auto simp: nth_append nth_tl)
  qed
  with True pos show ?thesis by (simp add: keep_last_snoc_full)
next
  case False
  let ?n = "length (ring st)" and ?o = "oldest_index st" and ?new = "emit_record r (next_sequence st)"
  have h: "held_count st < ?n" using False assms(1) by (simp add: ring_ok_def)
  have "event_contents (kfsw_event_emit r st) = event_contents st @ [?new]"
  proof (rule nth_equalityI)
    fix i assume "i < length (event_contents (kfsw_event_emit r st))"
    then have i: "i < Suc (held_count st)" using False assms(2) by (simp add: kfsw_event_emit_def Let_def)
    have "event_contents (kfsw_event_emit r st) ! i =
        ((ring st)[(?o + held_count st) mod ?n := ?new]) ! ((?o + i) mod ?n)"
      using False assms(2) i by (simp add: kfsw_event_emit_def Let_def)
    moreover have "(?o + i) mod ?n \<noteq> (?o + held_count st) mod ?n" if "i < held_count st"
      using mod_index_neq [OF that] h by simp
    moreover have "(?o + held_count st) mod ?n < ?n" using h by (simp add: mod_less_divisor [OF le_less_trans [OF le0 h]])
    ultimately show "event_contents (kfsw_event_emit r st) ! i = (event_contents st @ [?new]) ! i"
      using i h by (auto simp: nth_append less_Suc_eq)
  qed (use False assms(2) in \<open>simp add: kfsw_event_emit_def Let_def\<close>)
  with h show ?thesis by simp
qed

interpretation event_ring: ring_log kfsw_event_emit
  "\<lambda>r st. emit_record r (next_sequence st)" event_contents
  "\<lambda>st. length (ring st)" ring_ok event_room
  by unfold_locales
    (auto simp: ring_ok_emit event_contents_emit event_room_def, auto simp: ring_ok_def)

lemma emit_refused_effect:
  "emit_refused r \<Longrightarrow> kfsw_event_emit r st = st\<lparr>rejected_count := rejected_count st + 1\<rparr>"
  by (simp add: kfsw_event_emit_def)

lemma event_contents_rejected [simp]: "event_contents (st\<lparr>rejected_count := c\<rparr>) = event_contents st"
  by (simp add: event_contents_def)

lemma next_sequence_emit:
  "\<not> emit_refused r \<Longrightarrow> next_sequence (kfsw_event_emit r st) = next_sequence st + 1"
  by (simp add: kfsw_event_emit_def Let_def)

lemma held_count_emit:
  "\<not> emit_refused r \<Longrightarrow> ring_ok st \<Longrightarrow>
   held_count (kfsw_event_emit r st) = min (length (ring st)) (Suc (held_count st))"
  by (auto simp: kfsw_event_emit_def Let_def ring_ok_def)

lemma known_source_take_bit: "source_is_known s \<Longrightarrow> take_bit 16 s = s \<and> 0 \<le> s"
  by (auto simp: source_is_known_def)

lemma record_ok_emit_record:
  "\<not> emit_refused r \<Longrightarrow> payload_readable r \<Longrightarrow> record_ok (emit_record r q)"
  using known_source_take_bit [of "rq_source r"]
  by (auto simp: record_ok_def emit_refused_def emit_record_def
      payload_readable_def KFSW_EVENT_MAX_PAYLOAD_SIZE_def unat_of_nat unsigned_of_int
      take_bit_int_eq_self split: option.splits)

lemma event_inv_init: "0 < d \<Longrightarrow> event_inv (event_init d)"
  by (simp add: event_inv_def ring_ok_def event_init_def event_contents_def)

lemma event_inv_clear: "event_inv st \<Longrightarrow> event_inv (kfsw_event_clear st)"
  by (auto simp: event_inv_def ring_ok_def kfsw_event_clear_def event_contents_def)

lemma nth_keep_last: "i < length (keep_last n xs) \<Longrightarrow> keep_last n xs ! i = xs ! (length xs - n + i)"
  by (simp add: keep_last_def)

lemma event_inv_emit:
  assumes "event_inv st" and "payload_readable r"
  shows "event_inv (kfsw_event_emit r st)"
proof (cases "emit_refused r")
  case True
  with assms(1) show ?thesis by (auto simp: emit_refused_effect event_inv_def ring_ok_def)
next
  case False
  let ?st = "kfsw_event_emit r st" and ?n = "length (ring st)" and ?h = "held_count st"
  let ?all = "event_contents st @ [emit_record r (next_sequence st)]"
  have rk: "ring_ok st" using assms(1) by (simp add: event_inv_def)
  have c: "event_contents ?st = keep_last ?n ?all" by (rule event_contents_emit [OF rk False])
  have "ev_sequence (event_contents ?st ! i) =
      next_sequence ?st - word_of_nat (held_count ?st) + word_of_nat i"
    if "i < held_count ?st" for i
  proof -
    have h: "held_count ?st = min ?n (Suc ?h)" by (rule held_count_emit [OF False rk])
    have le: "?h \<le> ?n" using rk by (simp add: ring_ok_def)
    have "event_contents ?st ! i = ?all ! (Suc ?h - ?n + i)"
      using that unfolding c by (subst nth_keep_last) (auto simp: h)
    moreover have "ev_sequence (?all ! j) = next_sequence st - word_of_nat ?h + word_of_nat j"
      if "j \<le> ?h" for j
      using that assms(1)
      by (cases "j = ?h") (auto simp: event_inv_def nth_append emit_record_def)
    moreover have "Suc ?h - ?n + i \<le> ?h" using that h le by auto
    ultimately have "ev_sequence (event_contents ?st ! i) =
        next_sequence st - word_of_nat ?h + word_of_nat (Suc ?h - ?n + i)"
      by metis
    then show ?thesis
      using h le next_sequence_emit [OF False, of st]
      by (cases "?h = ?n") (auto simp: min_def dest: le_antisym)
  qed
  moreover have "\<forall>e \<in> set (event_contents ?st). record_ok e"
    using assms set_keep_last [of ?n ?all] record_ok_emit_record [OF False]
    by (auto simp: c event_inv_def)
  ultimately show ?thesis using ring_ok_emit [OF rk] by (simp add: event_inv_def del: nth_event_contents)
qed

lemma event_reachable_inv: "event_reachable d st \<Longrightarrow> 0 < d \<Longrightarrow> event_inv st \<and> length (ring st) = d"
proof (induction rule: event_reachable.induct)
  case start
  then show ?case by (simp add: event_inv_init) (simp add: event_init_def)
next
  case (emit st r)
  then show ?case by (simp add: event_inv_emit)
next
  case (clear st)
  then show ?case by (simp add: event_inv_clear) (simp add: kfsw_event_clear_def)
qed

lemma emit_run:
  assumes "ring_ok st"
  shows "ring_ok (fold kfsw_event_emit rs st) \<and>
    event_contents (fold kfsw_event_emit rs st) =
      keep_last (length (ring st)) (event_contents st @
        map (\<lambda>(i, r). emit_record r (next_sequence st + word_of_nat i))
          (enumerate 0 (filter (\<lambda>r. \<not> emit_refused r) rs)))"
  using assms
proof (induction rs arbitrary: st)
  case Nil
  then show ?case by (simp add: ring_ok_def)
next
  case (Cons r rs)
  have shift: "map (\<lambda>(i, r). emit_record r (q + word_of_nat i)) (enumerate (Suc 0) xs) =
      map (\<lambda>(i, r). emit_record r (q + 1 + word_of_nat i)) (enumerate 0 xs)" for q xs
    by (rule nth_equalityI) (simp_all add: nth_enumerate_eq add.assoc)
  show ?case
  proof (cases "emit_refused r")
    case True
    with Cons show ?thesis by (simp add: emit_refused_effect ring_ok_def)
  next
    case False
    with Cons.prems Cons.IH [OF ring_ok_emit [OF Cons.prems]] show ?thesis
      by (simp add: event_contents_emit next_sequence_emit keep_last_keep_last_append shift)
  qed
qed

lemma emit_run_counters:
  "recorded_count (fold kfsw_event_emit rs st) =
     recorded_count st + word_of_nat (length (filter (\<lambda>r. \<not> emit_refused r) rs))"
  "rejected_count (fold kfsw_event_emit rs st) =
     rejected_count st + word_of_nat (length (filter emit_refused rs))"
  by (induction rs arbitrary: st) (auto simp: kfsw_event_emit_def Let_def)

lemma visit_from_list:
  "visit_from v st i c = visit_list v (drop i (event_contents st)) c"
proof (induction v st i c rule: visit_from.induct)
  case (1 v st i c)
  then show ?case
    by (subst visit_from.simps)
      (auto simp: Let_def Cons_nth_drop_Suc [symmetric] split: prod.splits)
qed

lemma get_by_age:
  "kfsw_event_get age Dest st =
    (if age < held_count st then Inr (rev (event_contents st) ! age) else Inl ENOENT)"
proof (cases "age < held_count st")
  case True
  then have "oldest_index st + held_count st - 1 - age = oldest_index st + (held_count st - Suc age)"
    by simp
  with True show ?thesis by (simp add: kfsw_event_get_def rev_nth)
qed (simp add: kfsw_event_get_def)

text \<open>The declared sources the emission does not know.\<close>

lemma later_sources_refused:
  "rq_source r \<in> source_value ` {KFSW_EVENT_SOURCE_TABLE, KFSW_EVENT_SOURCE_SCRUB, KFSW_EVENT_SOURCE_LIMITS}
   \<Longrightarrow> kfsw_event_emit r st = st\<lparr>rejected_count := rejected_count st + 1\<rparr>"
  by (rule emit_refused_effect) (auto simp: emit_refused_def source_is_known_def)

section \<open>Properties\<close>

text \<open>
  C6. From an empty ring of any depth, after any sequence of emissions the held records are exactly the
  last \<open>depth\<close> of the accepted ones, in order, numbered from 0 in the order of acceptance; the two
  counters count the accepted and the refused ones modulo \<open>2 ^ 32\<close>.
\<close>

theorem event_ring_refines_list:
  assumes "0 < depth"
  shows "let st = fold kfsw_event_emit rs (event_init depth);
             accepted = filter (\<lambda>r. \<not> emit_refused r) rs
         in event_contents st =
              keep_last depth (map (\<lambda>(i, r). emit_record r (word_of_nat i)) (enumerate 0 accepted))
            \<and> recorded_count st = word_of_nat (length accepted)
            \<and> rejected_count st = word_of_nat (length rs - length accepted)"
proof -
  have init: "ring_ok (event_init depth)" "event_contents (event_init depth) = []"
    "length (ring (event_init depth)) = depth" "next_sequence (event_init depth) = 0"
    "recorded_count (event_init depth) = 0" "rejected_count (event_init depth) = 0"
    using assms by (simp_all add: ring_ok_def event_init_def event_contents_def)
  have "length (filter emit_refused rs) = length rs - length (filter (\<lambda>r. \<not> emit_refused r) rs)"
    using sum_length_filter_compl [of emit_refused rs] by simp
  then show ?thesis
    using emit_run [OF init(1), of rs] by (simp add: Let_def emit_run_counters init)
qed

theorem event_ring_refines_list_witness:
  "map ev_sequence (event_contents
     (fold kfsw_event_emit (map demo_request [1, 8, 2, 3]) (event_init 2))) = [1, 2]"
proof -
  have "filter (\<lambda>r. \<not> emit_refused r) (map demo_request [1, 8, 2, 3]) = map demo_request [1, 2, 3]"
    by (simp add: emit_refused_def source_is_known_def demo_request_def KFSW_EVENT_MAX_PAYLOAD_SIZE_def)
  then show ?thesis
    using event_ring_refines_list [of 2 "map demo_request [1, 8, 2, 3]"]
    by (simp add: Let_def keep_last_def emit_record_def del: fold_simps)
qed

text \<open>
  In every state reached by emissions and clears, the indices stay inside the ring, the held
  records carry consecutive sequence numbers ending just before the next one to be assigned, so a gap
  cannot go unnoticed, and every held record names a known source, a declared severity and a payload
  size within its payload area.
\<close>

theorem event_reachable_invariant:
  assumes "event_reachable depth st" and "0 < depth"
  shows "held_count st \<le> depth \<and> oldest_index st < depth
    \<and> (\<forall>i < held_count st. ev_sequence (event_contents st ! i) =
          next_sequence st - word_of_nat (held_count st) + word_of_nat i)
    \<and> (\<forall>e \<in> set (event_contents st). record_ok e)"
  using event_reachable_inv [OF assms] by (auto simp: event_inv_def ring_ok_def)

theorem event_reachable_invariant_witness:
  "let st = kfsw_event_emit (demo_request 3) (kfsw_event_clear (kfsw_event_emit (demo_request 1) (event_init 2)))
   in held_count st = 1 \<and> (\<forall>e \<in> set (event_contents st). record_ok e) \<and> ev_sequence (event_contents st ! 0) = 1"
proof -
  let ?st = "kfsw_event_emit (demo_request 3) (kfsw_event_clear (kfsw_event_emit (demo_request 1) (event_init 2)))"
  have ok: "payload_readable (demo_request s)" for s
    by (simp add: payload_readable_def demo_request_def)
  have "event_reachable 2 ?st"
    by (intro event_reachable.emit event_reachable.clear event_reachable.start ok)
  from event_reachable_invariant [OF this]
  show ?thesis
    by (simp add: Let_def kfsw_event_emit_def kfsw_event_clear_def event_init_def demo_request_def
        emit_refused_def source_is_known_def KFSW_EVENT_MAX_PAYLOAD_SIZE_def del: nth_event_contents)
qed

text \<open>
  Reading agrees with the list of held records: the record of age \<open>a\<close> is the \<open>a\<close>-th newest one and
  \<open>ENOENT\<close> is returned exactly past the oldest, and a visit passes the records to the visitor oldest
  first until it says stop.
\<close>

theorem event_reads_agree:
  "kfsw_event_get age Dest st =
      (if age < length (event_contents st) then Inr (rev (event_contents st) ! age) else Inl ENOENT)
    \<and> kfsw_event_visit (Some v) st c = visit_list v (event_contents st) c"
  by (simp add: get_by_age kfsw_event_visit_def visit_from_list)

end
