(* ===== verification/Health.thy ===== *)
theory Health
  imports Event
begin

text \<open>
  Health monitoring, \<^verbatim>\<open>src/health/health.c\<close> with the types of \<^verbatim>\<open>include/kfsw/services/health.h\<close>: components
  report against their deadlines, and the watchdog is fed only while all of them keep them.

  The state \<open>health_service\<close> holds the file's static variables; the table is a list whose length is
  \<open>KFSW_HEALTH_MAX_COMPONENTS\<close>, and \<open>health_work\<close> the delay its periodic work was last scheduled with.
  Times are the 64-bit monotonic clock in milliseconds, read once per operation and passed in. The
  platform's watchdog is not part of the sources: its answers are the fields of \<open>watchdog\<close>, and what the
  service asks of the platform is the list of effects an operation returns. Modelled with
  \<open>CONFIG_KFSW_EVENT\<close> and \<open>CONFIG_KFSW_LASTWORDS\<close>.

  Proved: the watchdog is fed exactly by the evaluations that find no component overdue; and in every
  reachable state the count is the number of used entries, which are well formed and, for names that
  fit, distinct.
\<close>

section \<open>Types\<close>

definition KFSW_HEALTH_NAME_SIZE :: nat where "KFSW_HEALTH_NAME_SIZE = 16"

definition KFSW_EVENT_HEALTH_FAULT :: u16 where "KFSW_EVENT_HEALTH_FAULT = 1"

datatype kfsw_health_state = KFSW_HEALTH_OK | KFSW_HEALTH_FAULTED | KFSW_HEALTH_STOPPED

record health_entry =
  he_name :: string
  he_deadline_ms :: u32
  he_last_report_ms :: u64
  he_reports :: u32
  he_used :: bool
  he_warned :: bool

record kfsw_health_status =
  hs_state :: kfsw_health_state
  hs_count :: u8
  hs_feeding :: bool
  hs_faults :: u32
  hs_feeds :: u32
  hs_faulted_by :: string

record kfsw_health_component =
  hc_name :: string
  hc_deadline_ms :: u32
  hc_since_report_ms :: u32
  hc_reports :: u32
  hc_overdue :: bool

record health_service =
  health_entries :: "health_entry list"
  health_state :: kfsw_health_status
  health_interval_ms :: u32
  health_work :: "u32 option"

text \<open>The platform's answers: \<open>wd_info\<close> is the timeout \<open>kfsw_platform_watchdog_get_info\<close> reports.\<close>

record watchdog =
  wd_feed :: rc
  wd_release :: rc
  wd_configured_timeout_ms :: u32
  wd_info :: "u32 option"
  wd_feed_interval_ms :: "u32 \<Rightarrow> u32"

datatype health_effect = Feed_Watchdog | Write_Lastwords u32 u32 | Withdraw_Lastwords

section \<open>Operations\<close>

definition health_find_by_name :: "string \<Rightarrow> health_entry list \<Rightarrow> health_entry option" where
  "health_find_by_name name entries =
     find (\<lambda>e. he_used e \<and> strncmp_eq (he_name e) name KFSW_HEALTH_NAME_SIZE) entries"

definition kfsw_health_register ::
  "u64 \<Rightarrow> string option \<Rightarrow> u32 \<Rightarrow> dest \<Rightarrow> health_service \<Rightarrow> (errno + nat) \<times> health_service" where
  "kfsw_health_register now name deadline_ms handle st =
     (case name of
        None \<Rightarrow> (Inl EINVAL, st)
      | Some n \<Rightarrow>
          if handle = Null \<or> n = [] \<or> deadline_ms = 0 then (Inl EINVAL, st)
          else if health_find_by_name n (health_entries st) \<noteq> None then (Inl EEXIST, st)
          else
            (case first_index (\<lambda>e. \<not> he_used e) (health_entries st) of
               None \<Rightarrow> (Inl ENOSPC, st)
             | Some index \<Rightarrow>
                 (Inr index,
                  st\<lparr>health_entries := (health_entries st)[index :=
                       \<lparr>he_name = strncpy_terminated KFSW_HEALTH_NAME_SIZE n, he_deadline_ms = deadline_ms,
                        he_last_report_ms = now, he_reports = 0, he_used = True, he_warned = False\<rparr>],
                     health_state := (health_state st)\<lparr>hs_count := hs_count (health_state st) + 1\<rparr>\<rparr>)))"

definition kfsw_health_unregister :: "u8 \<Rightarrow> health_service \<Rightarrow> rc \<times> health_service" where
  "kfsw_health_unregister handle st =
     (let i = unat handle; entries = health_entries st; state = health_state st
      in if i \<ge> length entries then (Some EINVAL, st)
         else if \<not> he_used (entries ! i) then (Some EINVAL, st)
         else
           let state1 = (if strncmp_eq (hs_faulted_by state) (he_name (entries ! i)) KFSW_HEALTH_NAME_SIZE
                         then state\<lparr>hs_faulted_by := []\<rparr> else state)
           in (None,
               st\<lparr>health_entries := entries[i := (entries ! i)\<lparr>he_used := False, he_name := []\<rparr>],
                  health_state := state1\<lparr>hs_count := hs_count state1 - 1\<rparr>\<rparr>))"

definition kfsw_health_report :: "u64 \<Rightarrow> u8 \<Rightarrow> health_service \<Rightarrow> rc \<times> health_service" where
  "kfsw_health_report now handle st =
     (let i = unat handle; entries = health_entries st
      in if i \<ge> length entries then (Some EINVAL, st)
         else if \<not> he_used (entries ! i) then (Some EINVAL, st)
         else (None, st\<lparr>health_entries := entries[i := (entries ! i)
                 \<lparr>he_last_report_ms := now,
                  he_reports := saturating_increment (he_reports (entries ! i))\<rparr>]\<rparr>))"

text \<open>
  The loop of an evaluation: the entries after it and the index of the first overdue one, at which it
  stops. \<open>he_deadline_ms * 3\<close> is 32-bit arithmetic, as in the source.
\<close>

definition elapsed_ms :: "u64 \<Rightarrow> health_entry \<Rightarrow> u32" where
  "elapsed_ms now e = ucast (now - he_last_report_ms e)"

definition update_warned :: "u32 \<Rightarrow> health_entry \<Rightarrow> health_entry" where
  "update_warned elapsed e =
     (if elapsed > he_deadline_ms e * 3 div 4 \<and> \<not> he_warned e then e\<lparr>he_warned := True\<rparr>
      else if elapsed \<le> he_deadline_ms e div 2 then e\<lparr>he_warned := False\<rparr>
      else e)"

fun scan_entries :: "u64 \<Rightarrow> health_entry list \<Rightarrow> health_entry list \<times> nat option" where
  "scan_entries now [] = ([], None)"
| "scan_entries now (e # es) =
     (if he_used e \<and> elapsed_ms now e > he_deadline_ms e then (e # es, Some 0)
      else
        let e' = (if he_used e then update_warned (elapsed_ms now e) e else e);
            (es', overdue) = scan_entries now es
        in (e' # es', map_option Suc overdue))"

definition kfsw_health_evaluate ::
  "watchdog \<Rightarrow> u64 \<Rightarrow> u64 \<Rightarrow> health_service \<times> event_state
     \<Rightarrow> rc \<times> health_effect list \<times> health_service \<times> event_state" where
  "kfsw_health_evaluate wd now now_us = (\<lambda>(st, ev).
     let state = health_state st
     in if hs_state state = KFSW_HEALTH_STOPPED then (Some EINVAL, [], st, ev)
        else
          let was_ok = (hs_state state = KFSW_HEALTH_OK);
              (entries, overdue) = scan_entries now (health_entries st);
              st1 = st\<lparr>health_entries := entries\<rparr>
          in case overdue of
               None \<Rightarrow>
                 let state1 = state\<lparr>hs_state := KFSW_HEALTH_OK, hs_faulted_by := []\<rparr>;
                     state2 = (if wd_feed wd = None
                               then state1\<lparr>hs_feeds := saturating_increment (hs_feeds state1), hs_feeding := True\<rparr>
                               else state1)
                 in (None, (if was_ok then [] else [Withdraw_Lastwords]) @ [Feed_Watchdog],
                     st1\<lparr>health_state := state2\<rparr>, ev)
             | Some i \<Rightarrow>
                 let e = entries ! i;
                     state1 = state\<lparr>hs_state := KFSW_HEALTH_FAULTED, hs_feeding := False,
                                    hs_faulted_by := strncpy_terminated KFSW_HEALTH_NAME_SIZE (he_name e)\<rparr>;
                     state2 = (if was_ok then state1\<lparr>hs_faults := hs_faults state1 + 1\<rparr> else state1)
                 in (Some ETIMEDOUT,
                     if was_ok then [Write_Lastwords (ucast (now - he_last_report_ms e)) (ucast now)] else [],
                     st1\<lparr>health_state := state2\<rparr>,
                     if was_ok
                     then kfsw_event_emit \<lparr>rq_source = source_value KFSW_EVENT_SOURCE_APP,
                            rq_id = KFSW_EVENT_HEALTH_FAULT, rq_severity = severity_value KFSW_EVENT_CRITICAL,
                            rq_payload = Some (bytes_of_string (he_name e)),
                            rq_payload_size = min (length (he_name e)) (KFSW_HEALTH_NAME_SIZE - 1),
                            rq_now_us = now_us\<rparr> ev
                     else ev))"

definition health_work_handler ::
  "watchdog \<Rightarrow> u64 \<Rightarrow> u64 \<Rightarrow> health_service \<times> event_state \<Rightarrow> health_effect list \<times> health_service \<times> event_state" where
  "health_work_handler wd now now_us st =
     (let (rc, effects, st1, ev1) = kfsw_health_evaluate wd now now_us st
      in (effects, st1\<lparr>health_work := Some (health_interval_ms st1)\<rparr>, ev1))"

definition kfsw_health_check_interval_ms :: "watchdog \<Rightarrow> u32 \<Rightarrow> rc" where
  "kfsw_health_check_interval_ms wd interval_ms =
     (if interval_ms = 0 then Some EINVAL
      else
        let timeout = (case wd_info wd of
                         None \<Rightarrow> wd_configured_timeout_ms wd
                       | Some t \<Rightarrow> if t \<noteq> 0 then t else wd_configured_timeout_ms wd)
        in if timeout = 0 then None
           else if interval_ms > wd_feed_interval_ms wd timeout then Some ERANGE
           else None)"

definition kfsw_health_start :: "watchdog \<Rightarrow> u64 \<Rightarrow> health_service \<Rightarrow> rc \<times> health_service" where
  "kfsw_health_start wd now st =
     (if hs_state (health_state st) \<noteq> KFSW_HEALTH_STOPPED then (Some EALREADY, st)
      else
        (case kfsw_health_check_interval_ms wd (health_interval_ms st) of
           Some e \<Rightarrow> (Some e, st)
         | None \<Rightarrow>
             (case wd_release wd of
                Some e \<Rightarrow> (Some e, st)
              | None \<Rightarrow>
                  (None,
                   st\<lparr>health_entries := map (\<lambda>e. if he_used e then e\<lparr>he_last_report_ms := now\<rparr> else e)
                        (health_entries st),
                      health_state := (health_state st)\<lparr>hs_state := KFSW_HEALTH_OK\<rparr>,
                      health_work := Some (health_interval_ms st)\<rparr>))))"

definition kfsw_health_get_status :: "dest \<Rightarrow> health_service \<Rightarrow> errno + kfsw_health_status" where
  "kfsw_health_get_status status st = (if status = Null then Inl EINVAL else Inr (health_state st))"

definition kfsw_health_get_component ::
  "u64 \<Rightarrow> u8 \<Rightarrow> dest \<Rightarrow> health_service \<Rightarrow> errno + kfsw_health_component" where
  "kfsw_health_get_component now index component st =
     (let i = unat index; entries = health_entries st
      in if component = Null then Inl EINVAL
         else if i \<ge> length entries then Inl ENOENT
         else if \<not> he_used (entries ! i) then Inl ENOENT
         else
           let e = entries ! i; since = ucast (now - he_last_report_ms e)
           in Inr \<lparr>hc_name = strncpy_terminated KFSW_HEALTH_NAME_SIZE (he_name e),
                   hc_deadline_ms = he_deadline_ms e, hc_since_report_ms = since,
                   hc_reports = he_reports e, hc_overdue = (since > he_deadline_ms e)\<rparr>)"

definition kfsw_health_get_interval_ms :: "health_service \<Rightarrow> u32" where
  "kfsw_health_get_interval_ms st = health_interval_ms st"

definition kfsw_health_set_interval_ms :: "watchdog \<Rightarrow> u32 \<Rightarrow> health_service \<Rightarrow> rc \<times> health_service" where
  "kfsw_health_set_interval_ms wd interval_ms st =
     (case kfsw_health_check_interval_ms wd interval_ms of
        Some e \<Rightarrow> (Some e, st)
      | None \<Rightarrow>
          let st1 = st\<lparr>health_interval_ms := interval_ms\<rparr>
          in (None, if hs_state (health_state st) \<noteq> KFSW_HEALTH_STOPPED
                    then st1\<lparr>health_work := Some (health_interval_ms st1)\<rparr> else st1))"

fun kfsw_health_state_name :: "kfsw_health_state \<Rightarrow> string" where
  "kfsw_health_state_name KFSW_HEALTH_OK = ''ok''"
| "kfsw_health_state_name KFSW_HEALTH_FAULTED = ''faulted''"
| "kfsw_health_state_name KFSW_HEALTH_STOPPED = ''stopped''"

text \<open>The initial statics of a build with the given table size and check interval.\<close>

definition health_init :: "nat \<Rightarrow> u32 \<Rightarrow> health_service" where
  "health_init components interval_ms =
     \<lparr>health_entries = replicate components \<lparr>he_name = [], he_deadline_ms = 0, he_last_report_ms = 0,
        he_reports = 0, he_used = False, he_warned = False\<rparr>,
      health_state = \<lparr>hs_state = KFSW_HEALTH_STOPPED, hs_count = 0, hs_feeding = False, hs_faults = 0,
        hs_feeds = 0, hs_faulted_by = []\<rparr>,
      health_interval_ms = interval_ms, health_work = None\<rparr>"

section \<open>Specification\<close>

text \<open>A component that has been silent for longer than its deadline, by the 64-bit clock.\<close>

definition silent_too_long :: "u64 \<Rightarrow> health_entry \<Rightarrow> bool" where
  "silent_too_long now e \<longleftrightarrow> he_used e \<and> unat (now - he_last_report_ms e) > unat (he_deadline_ms e)"

text \<open>
  The states the operations lead to. Names are C strings; with \<open>short\<close>, no registered name is longer
  than a table entry can hold.
\<close>

inductive health_reachable :: "nat \<Rightarrow> bool \<Rightarrow> health_service \<Rightarrow> bool" for components short where
  init: "health_reachable components short (health_init components interval)"
| register: "health_reachable components short st \<Longrightarrow> c_string n \<Longrightarrow>
    (short \<Longrightarrow> length n < KFSW_HEALTH_NAME_SIZE) \<Longrightarrow>
    health_reachable components short (snd (kfsw_health_register now (Some n) deadline h st))"
| unregister: "health_reachable components short st \<Longrightarrow>
    health_reachable components short (snd (kfsw_health_unregister handle st))"
| report: "health_reachable components short st \<Longrightarrow>
    health_reachable components short (snd (kfsw_health_report now handle st))"
| evaluate: "health_reachable components short st \<Longrightarrow>
    kfsw_health_evaluate wd now now_us (st, ev) = (rc, effects, st', ev') \<Longrightarrow>
    health_reachable components short st'"
| start: "health_reachable components short st \<Longrightarrow>
    health_reachable components short (snd (kfsw_health_start wd now st))"
| set_interval: "health_reachable components short st \<Longrightarrow>
    health_reachable components short (snd (kfsw_health_set_interval_ms wd interval st))"

definition entry_ok :: "health_entry \<Rightarrow> bool" where
  "entry_ok e \<longleftrightarrow> (he_used e \<longrightarrow> he_name e \<noteq> [] \<and> length (he_name e) < KFSW_HEALTH_NAME_SIZE
     \<and> c_string (he_name e) \<and> he_deadline_ms e \<noteq> 0)"

definition names_distinct :: "health_entry list \<Rightarrow> bool" where
  "names_distinct es \<longleftrightarrow> (\<forall>i < length es. \<forall>j < length es.
     he_used (es ! i) \<and> he_used (es ! j) \<and> he_name (es ! i) = he_name (es ! j) \<longrightarrow> i = j)"

definition health_inv :: "nat \<Rightarrow> bool \<Rightarrow> health_service \<Rightarrow> bool" where
  "health_inv components short st \<longleftrightarrow> length (health_entries st) = components
     \<and> unat (hs_count (health_state st)) = length (filter he_used (health_entries st))
     \<and> (\<forall>e \<in> set (health_entries st). entry_ok e)
     \<and> (short \<longrightarrow> names_distinct (health_entries st))"

text \<open>The part of an entry the invariant speaks about.\<close>

definition entry_key :: "health_entry \<Rightarrow> bool \<times> string \<times> u32" where
  "entry_key e = (he_used e, he_name e, he_deadline_ms e)"

text \<open>A service and a watchdog the witnesses below use.\<close>

definition demo_watchdog :: watchdog where
  "demo_watchdog = \<lparr>wd_feed = None, wd_release = None, wd_configured_timeout_ms = 8000, wd_info = None,
     wd_feed_interval_ms = (\<lambda>t. t div 2)\<rparr>"

definition demo_health :: health_service where
  "demo_health = \<lparr>health_entries =
       [\<lparr>he_name = ''param'', he_deadline_ms = 500, he_last_report_ms = 600, he_reports = 1, he_used = True,
         he_warned = False\<rparr>,
        \<lparr>he_name = ''comms'', he_deadline_ms = 500, he_last_report_ms = 100, he_reports = 1, he_used = True,
         he_warned = False\<rparr>],
     health_state = \<lparr>hs_state = KFSW_HEALTH_OK, hs_count = 2, hs_feeding = True, hs_faults = 0, hs_feeds = 4,
       hs_faulted_by = []\<rparr>, health_interval_ms = 1000, health_work = None\<rparr>"

section \<open>Lemmas\<close>

lemma inv_by_keys:
  assumes "health_inv components short st"
    and "map entry_key (health_entries st') = map entry_key (health_entries st)"
    and "hs_count (health_state st') = hs_count (health_state st)"
  shows "health_inv components short st'"
proof -
  let ?a = "health_entries st" and ?b = "health_entries st'"
  have len: "length ?b = length ?a" using assms(2) by (metis length_map)
  have key: "entry_key (?b ! i) = entry_key (?a ! i)" if "i < length ?a" for i
    using assms(2) that len by (metis nth_map)
  have "length (filter he_used xs) = length (filter fst (map entry_key xs))" for xs
    by (induction xs) (auto simp: entry_key_def)
  then have "length (filter he_used ?b) = length (filter he_used ?a)" using assms(2) by metis
  moreover have "\<forall>e \<in> set ?b. entry_ok e"
    using assms(1) key len unfolding health_inv_def all_set_conv_all_nth entry_ok_def entry_key_def by simp
  moreover have "names_distinct ?b" if short
    using assms(1) key len that unfolding health_inv_def names_distinct_def entry_key_def by simp
  ultimately show ?thesis using assms(1,3) len by (simp add: health_inv_def)
qed

lemma scan_keys: "map entry_key (fst (scan_entries now es)) = map entry_key es"
  by (induction es) (auto simp: Let_def entry_key_def update_warned_def split: prod.splits)

lemma scan_overdue:
  "snd (scan_entries now es) = first_index (\<lambda>e. he_used e \<and> elapsed_ms now e > he_deadline_ms e) es"
  by (induction es) (auto simp: Let_def split: prod.splits)

lemma names_distinct_update:
  assumes "names_distinct es"
    and "\<And>j. he_used e \<Longrightarrow> j < length es \<Longrightarrow> j \<noteq> i \<Longrightarrow> he_used (es ! j) \<Longrightarrow> he_name (es ! j) \<noteq> he_name e"
  shows "names_distinct (es[i := e])"
  unfolding names_distinct_def
proof (intro allI impI, elim conjE)
  fix a b
  assume "a < length (es[i := e])" "b < length (es[i := e])" "he_used (es[i := e] ! a)" "he_used (es[i := e] ! b)"
    and eq: "he_name (es[i := e] ! a) = he_name (es[i := e] ! b)"
  then show "a = b"
    using assms(1) assms(2) [of a] assms(2) [of b]
    by (cases "a = i"; cases "b = i") (auto simp: names_distinct_def)
qed

lemma inv_register:
  assumes inv: "health_inv components short st" and "components \<le> 255" and "c_string n"
    and short: "short \<Longrightarrow> length n < KFSW_HEALTH_NAME_SIZE"
  shows "health_inv components short (snd (kfsw_health_register now (Some n) deadline h st))"
proof (cases "h \<noteq> Null \<and> n \<noteq> [] \<and> deadline \<noteq> 0 \<and> health_find_by_name n (health_entries st) = None
    \<and> first_index (\<lambda>e. \<not> he_used e) (health_entries st) \<noteq> None")
  case False
  then show ?thesis using inv by (auto simp: kfsw_health_register_def split: option.splits)
next
  case True
  let ?es = "health_entries st"
  obtain i where fi: "first_index (\<lambda>e. \<not> he_used e) ?es = Some i" using True by auto
  then have i: "i < length ?es" "\<not> he_used (?es ! i)" by (auto simp: first_index_Some)
  define e where "e = \<lparr>he_name = strncpy_terminated KFSW_HEALTH_NAME_SIZE n, he_deadline_ms = deadline,
      he_last_report_ms = now, he_reports = 0, he_used = True, he_warned = False\<rparr>"
  have st': "snd (kfsw_health_register now (Some n) deadline h st) =
      st\<lparr>health_entries := ?es[i := e],
         health_state := (health_state st)\<lparr>hs_count := hs_count (health_state st) + 1\<rparr>\<rparr>"
    using True fi by (simp add: kfsw_health_register_def e_def)
  have ok: "entry_ok e"
    using True assms(3) by (auto simp: e_def entry_ok_def strncpy_terminated_def
        KFSW_HEALTH_NAME_SIZE_def c_string_def dest: in_set_takeD)
  have cnt: "length (filter he_used (?es[i := e])) = Suc (length (filter he_used ?es))"
    using length_filter_update [OF i(1), of he_used e] i(2) by (simp add: e_def)
  have "length (filter he_used (?es[i := e])) \<le> components"
    using inv i(1) length_filter_le [of he_used "?es[i := e]"] by (simp add: health_inv_def)
  with cnt inv assms(2) have "unat (hs_count (health_state st) + 1) = Suc (length (filter he_used ?es))"
    by (simp add: health_inv_def unat_plus_small)
  moreover have "\<forall>x \<in> set (?es[i := e]). entry_ok x"
    using inv ok by (auto simp: health_inv_def dest!: set_update_subset_insert [THEN subsetD])
  moreover have "names_distinct (?es[i := e])" if s: short
  proof -
    have name: "he_name e = n" using short [OF s] by (simp add: e_def strncpy_terminated_def KFSW_HEALTH_NAME_SIZE_def)
    have "he_name (?es ! j) \<noteq> n" if j: "j < length ?es" "he_used (?es ! j)" for j
    proof -
      have "\<not> strncmp_eq (he_name (?es ! j)) n KFSW_HEALTH_NAME_SIZE"
        using True j by (auto simp: health_find_by_name_def find_None_iff)
      moreover have "entry_ok (?es ! j)" using inv j by (simp add: health_inv_def)
      ultimately show ?thesis
        using strncmp_eq_short [of "he_name (?es ! j)" n] short [OF s] assms(3) j(2)
        by (auto simp: entry_ok_def)
    qed
    then show ?thesis
      using inv s name by (intro names_distinct_update) (auto simp: health_inv_def)
  qed
  ultimately show ?thesis using inv cnt unfolding st' by (simp add: health_inv_def)
qed

lemma inv_unregister:
  assumes inv: "health_inv components short st"
  shows "health_inv components short (snd (kfsw_health_unregister handle st))"
proof (cases "unat handle < length (health_entries st) \<and> he_used (health_entries st ! unat handle)")
  case False
  then show ?thesis using inv by (auto simp: kfsw_health_unregister_def Let_def)
next
  case True
  let ?es = "health_entries st" and ?i = "unat handle"
  let ?e = "(?es ! ?i)\<lparr>he_used := False, he_name := []\<rparr>"
  let ?st = "snd (kfsw_health_unregister handle st)"
  have es: "health_entries ?st = ?es[?i := ?e]" "hs_count (health_state ?st) = hs_count (health_state st) - 1"
    using True by (simp_all add: kfsw_health_unregister_def Let_def)
  have cnt: "Suc (length (filter he_used (?es[?i := ?e]))) = length (filter he_used ?es)"
    using length_filter_update [of ?i ?es he_used ?e] True by simp
  with inv have u: "unat (hs_count (health_state st)) = Suc (length (filter he_used (?es[?i := ?e])))"
    by (simp add: health_inv_def)
  then have "1 \<le> hs_count (health_state st)" by (simp add: word_le_nat_alt)
  with u have "unat (hs_count (health_state st) - 1) = length (filter he_used (?es[?i := ?e]))"
    by (simp add: unat_sub)
  moreover have "\<forall>x \<in> set (?es[?i := ?e]). entry_ok x"
    using inv by (auto simp: health_inv_def entry_ok_def dest!: set_update_subset_insert [THEN subsetD])
  moreover have "names_distinct (?es[?i := ?e])" if short
    using inv that by (intro names_distinct_update) (auto simp: health_inv_def)
  ultimately show ?thesis using inv es by (simp add: health_inv_def)
qed

lemma list_update_keys:
  "i < length es \<Longrightarrow> entry_key e = entry_key (es ! i) \<Longrightarrow> map entry_key (es[i := e]) = map entry_key es"
  by (metis length_map list_update_id map_update nth_map)

lemma inv_report:
  assumes "health_inv components short st"
  shows "health_inv components short (snd (kfsw_health_report now handle st))"
  by (rule inv_by_keys [OF assms])
    (auto simp: kfsw_health_report_def Let_def entry_key_def intro!: list_update_keys)

lemma inv_evaluate:
  assumes "health_inv components short st"
    and "kfsw_health_evaluate wd now now_us (st, ev) = (rc, effects, st', ev')"
  shows "health_inv components short st'"
  using assms(2) scan_keys [of now "health_entries st"]
  by (intro inv_by_keys [OF assms(1)])
    (auto simp: kfsw_health_evaluate_def Let_def split: if_splits prod.splits option.splits)

lemma inv_start:
  assumes "health_inv components short st"
  shows "health_inv components short (snd (kfsw_health_start wd now st))"
  by (rule inv_by_keys [OF assms])
    (auto simp: kfsw_health_start_def entry_key_def split: option.splits)

lemma inv_set_interval:
  assumes "health_inv components short st"
  shows "health_inv components short (snd (kfsw_health_set_interval_ms wd interval st))"
  by (rule inv_by_keys [OF assms])
    (auto simp: kfsw_health_set_interval_ms_def Let_def split: option.splits)

lemma inv_init: "health_inv components short (health_init components interval)"
  by (auto simp: health_inv_def health_init_def entry_ok_def names_distinct_def)

lemma health_reachable_inv:
  assumes "health_reachable components short st" and "components \<le> 255"
  shows "health_inv components short st"
  using assms
  by (induction rule: health_reachable.induct)
    (auto simp: inv_init inv_register inv_unregister inv_report inv_start inv_set_interval
      intro: inv_evaluate)

text \<open>The 32-bit elapsed time is exact while a component has been silent for less than \<open>2 ^ 32\<close> ms.\<close>

lemma elapsed_exact:
  "unat (now - he_last_report_ms e) < 4294967296 \<Longrightarrow> unat (elapsed_ms now e) = unat (now - he_last_report_ms e)"
  by (simp add: elapsed_ms_def unsigned_ucast_eq take_bit_nat_eq_self_iff)

lemma overdue_exact:
  "unat (now - he_last_report_ms e) < 4294967296 \<Longrightarrow>
   (he_used e \<and> elapsed_ms now e > he_deadline_ms e) = silent_too_long now e"
  by (simp add: silent_too_long_def word_less_nat_alt elapsed_exact)

lemma evaluate_outcome:
  assumes "hs_state (health_state st) \<noteq> KFSW_HEALTH_STOPPED"
    and "kfsw_health_evaluate wd now now_us (st, ev) = (rc, effects, st', ev')"
  shows "case first_index (\<lambda>e. he_used e \<and> elapsed_ms now e > he_deadline_ms e) (health_entries st) of
      None \<Rightarrow> rc = None \<and> Feed_Watchdog \<in> set effects \<and> hs_state (health_state st') = KFSW_HEALTH_OK
        \<and> hs_faulted_by (health_state st') = []
    | Some i \<Rightarrow> rc = Some ETIMEDOUT \<and> Feed_Watchdog \<notin> set effects
        \<and> hs_state (health_state st') = KFSW_HEALTH_FAULTED
        \<and> hs_faulted_by (health_state st') = take 15 (he_name (health_entries st ! i))"
proof -
  obtain es od where sc: "scan_entries now (health_entries st) = (es, od)" by fastforce
  have od: "od = first_index (\<lambda>e. he_used e \<and> elapsed_ms now e > he_deadline_ms e) (health_entries st)"
    using scan_overdue [of now "health_entries st"] sc by simp
  have name: "he_name (es ! i) = he_name (health_entries st ! i)" if "i < length (health_entries st)" for i
  proof -
    have "map entry_key es = map entry_key (health_entries st)"
      using scan_keys [of now "health_entries st"] sc by simp
    then have "entry_key (es ! i) = entry_key (health_entries st ! i)"
      using that by (metis length_map nth_map)
    then show ?thesis by (simp add: entry_key_def)
  qed
  show ?thesis
  proof (cases od)
    case None
    with assms sc show ?thesis unfolding od [symmetric]
      by (auto simp: kfsw_health_evaluate_def Let_def split: if_splits)
  next
    case (Some i)
    then have "i < length (health_entries st)" using od first_index_Some by metis
    from name [OF this] Some assms sc show ?thesis unfolding od [symmetric]
      by (auto simp: kfsw_health_evaluate_def Let_def strncpy_terminated_def KFSW_HEALTH_NAME_SIZE_def
          split: if_splits)
  qed
qed

text \<open>A name that does not fit its entry is stored shortened, so registering it again is not refused.\<close>

lemma long_name_never_found:
  assumes "health_inv components short st" and "c_string n" and "16 \<le> length n"
  shows "health_find_by_name n (health_entries st) = None"
proof -
  have "\<not> strncmp_eq (he_name e) n 16" if "e \<in> set (health_entries st)" "he_used e" for e
  proof
    assume eq: "strncmp_eq (he_name e) n 16"
    have "length (he_name e) < 16"
      using assms(1) that by (auto simp: health_inv_def entry_ok_def KFSW_HEALTH_NAME_SIZE_def)
    then have "NUL \<in> set (take 16 (he_name e @ [NUL]))" by simp
    with eq have "NUL \<in> set (take 16 (n @ [NUL]))" by (simp only: strncmp_eq_def)
    with assms(2,3) show False by (auto simp: c_string_def dest: in_set_takeD)
  qed
  then show ?thesis by (auto simp: health_find_by_name_def find_None_iff KFSW_HEALTH_NAME_SIZE_def)
qed

section \<open>Properties\<close>



text \<open>
  In every state the operations reach, the count of components is the number of used entries, every
  used entry has a terminated name of 1 to 15 characters and a deadline, and the names are distinct as
  long as no component registers under a longer name.
\<close>

theorem health_reachable_invariant:
  assumes "health_reachable components short st" and "components \<le> 255"
  shows "length (health_entries st) = components
    \<and> unat (hs_count (health_state st)) = length (filter he_used (health_entries st))
    \<and> (\<forall>e \<in> set (health_entries st). entry_ok e)
    \<and> (short \<longrightarrow> names_distinct (health_entries st))"
  using health_reachable_inv [OF assms] by (simp add: health_inv_def)

theorem health_reachable_invariant_witness:
  "let st = snd (kfsw_health_unregister 0 (snd (kfsw_health_register 5 (Some ''comms'') 500 Dest
       (health_init 2 1000))))
   in unat (hs_count (health_state st)) = length (filter he_used (health_entries st))"
proof -
  have "health_reachable 2 True (snd (kfsw_health_unregister 0
      (snd (kfsw_health_register 5 (Some ''comms'') 500 Dest (health_init 2 1000)))))"
    by (intro health_reachable.unregister health_reachable.register health_reachable.init)
      (simp_all add: c_string_def KFSW_HEALTH_NAME_SIZE_def)
  from health_reachable_invariant [OF this] show ?thesis by (simp add: Let_def)
qed

end
