(* ===== verification/Command_Protocol.thy ===== *)
theory Command_Protocol
  imports Contracts
begin

text \<open>
  The wire format of the command service, \<^verbatim>\<open>src/command/command_protocol.c\<close> with the types of
  \<^verbatim>\<open>src/command/command_internal.h\<close> and \<^verbatim>\<open>include/kfsw/services/command.h\<close>: the fixed header of versions
  1 and 2, and the argument entries of a request payload.

  An encoder returns the bytes it writes, whose number is the encoded size. A payload pointer is an
  optional list of the bytes it points to. The tagged union of an argument is a datatype with a
  constructor per tag, and one for a tag value the service does not carry.

  Proved: the header codec is canonical (an interpretation of \<open>canonical_codec\<close>), and the argument
  codec is inverse in both directions on the arguments the service carries.
\<close>

section \<open>Types\<close>

definition KFSW_COMMAND_MAX_ARGS :: nat where "KFSW_COMMAND_MAX_ARGS = 4"
definition KFSW_COMMAND_MAX_TEXT_SIZE :: nat where "KFSW_COMMAND_MAX_TEXT_SIZE = 64"
definition KFSW_COMMAND_MAX_DETAIL_SIZE :: nat where "KFSW_COMMAND_MAX_DETAIL_SIZE = 96"
definition KFSW_COMMAND_PROTOCOL_VERSION :: u8 where "KFSW_COMMAND_PROTOCOL_VERSION = 1"
definition KFSW_COMMAND_HEADER_SIZE :: nat where "KFSW_COMMAND_HEADER_SIZE = 12"
definition KFSW_COMMAND_RETRY_HEADER_SIZE :: nat where "KFSW_COMMAND_RETRY_HEADER_SIZE = 20"
definition KFSW_COMMAND_MAX_PAYLOAD_SIZE :: nat where "KFSW_COMMAND_MAX_PAYLOAD_SIZE = 192"

lemmas command_sizes = KFSW_COMMAND_MAX_ARGS_def KFSW_COMMAND_MAX_TEXT_SIZE_def
  KFSW_COMMAND_MAX_DETAIL_SIZE_def KFSW_COMMAND_PROTOCOL_VERSION_def KFSW_COMMAND_HEADER_SIZE_def
  KFSW_COMMAND_RETRY_HEADER_SIZE_def KFSW_COMMAND_MAX_PAYLOAD_SIZE_def

datatype kfsw_command_opcode =
    KFSW_COMMAND_OP_REQUEST | KFSW_COMMAND_OP_RESULT | KFSW_COMMAND_OP_PREPARE
  | KFSW_COMMAND_OP_TICKET | KFSW_COMMAND_OP_EXECUTE

fun opcode_value :: "kfsw_command_opcode \<Rightarrow> u8" where
  "opcode_value KFSW_COMMAND_OP_REQUEST = 1"
| "opcode_value KFSW_COMMAND_OP_RESULT = 2"
| "opcode_value KFSW_COMMAND_OP_PREPARE = 3"
| "opcode_value KFSW_COMMAND_OP_TICKET = 4"
| "opcode_value KFSW_COMMAND_OP_EXECUTE = 5"

record kfsw_command_message =
  cm_version :: u8
  cm_token :: u64
  cm_opcode :: u8
  cm_status :: u8
  cm_arg_count :: u8
  cm_command_id :: u16
  cm_request_id :: u16
  cm_payload_size :: u16
  cm_payload :: "bytes option"

datatype kfsw_command_type =
    KFSW_COMMAND_TYPE_U32 | KFSW_COMMAND_TYPE_I32 | KFSW_COMMAND_TYPE_TEXT | TYPE_OTHER int

fun type_value :: "kfsw_command_type \<Rightarrow> int" where
  "type_value KFSW_COMMAND_TYPE_U32 = 1"
| "type_value KFSW_COMMAND_TYPE_I32 = 2"
| "type_value KFSW_COMMAND_TYPE_TEXT = 3"
| "type_value (TYPE_OTHER n) = n"

text \<open>A signed 32-bit argument is the word of its two's complement representation.\<close>

datatype kfsw_command_arg =
    ARG_U32 u32 | ARG_I32 "32 word" | ARG_TEXT "string option" | ARG_OTHER int

fun arg_type :: "kfsw_command_arg \<Rightarrow> kfsw_command_type" where
  "arg_type (ARG_U32 v) = KFSW_COMMAND_TYPE_U32"
| "arg_type (ARG_I32 v) = KFSW_COMMAND_TYPE_I32"
| "arg_type (ARG_TEXT t) = KFSW_COMMAND_TYPE_TEXT"
| "arg_type (ARG_OTHER n) = TYPE_OTHER n"

section \<open>The header\<close>

definition header_size :: "u8 \<Rightarrow> nat" where
  "header_size version =
     (if version = 2 then KFSW_COMMAND_RETRY_HEADER_SIZE else KFSW_COMMAND_HEADER_SIZE)"

definition kfsw_command_protocol_encode ::
  "dest \<Rightarrow> nat \<Rightarrow> kfsw_command_message option \<Rightarrow> dest \<Rightarrow> errno + bytes" where
  "kfsw_command_protocol_encode buffer capacity message encoded_size =
     (case message of
        None \<Rightarrow> Inl EINVAL
      | Some m \<Rightarrow>
          if buffer = Null \<or> encoded_size = Null
             \<or> unat (cm_payload_size m) > KFSW_COMMAND_MAX_PAYLOAD_SIZE
             \<or> (cm_payload_size m \<noteq> 0 \<and> cm_payload m = None)
             \<or> unat (cm_arg_count m) > KFSW_COMMAND_MAX_ARGS
          then Inl EINVAL
          else
            let version = (if cm_version m \<noteq> 0 then cm_version m else KFSW_COMMAND_PROTOCOL_VERSION)
            in if version \<noteq> 1 \<and> version \<noteq> 2 then Inl EPROTONOSUPPORT
               else if header_size version + unat (cm_payload_size m) > capacity then Inl EMSGSIZE
               else Inr ([version, cm_opcode m, cm_status m, cm_arg_count m]
                         @ sys_put_be16 (cm_command_id m)
                         @ sys_put_be16 (cm_request_id m)
                         @ sys_put_be16 (cm_payload_size m)
                         @ [0, 0]
                         @ (if version = 2 then sys_put_be64 (cm_token m) else [])
                         @ (case cm_payload m of
                              None \<Rightarrow> []
                            | Some p \<Rightarrow> take (unat (cm_payload_size m)) p)))"

definition kfsw_command_protocol_decode ::
  "bytes option \<Rightarrow> nat \<Rightarrow> dest \<Rightarrow> errno + kfsw_command_message" where
  "kfsw_command_protocol_decode buffer sz message =
     (case buffer of
        None \<Rightarrow> Inl EMSGSIZE
      | Some b \<Rightarrow>
          if message = Null \<or> sz < KFSW_COMMAND_HEADER_SIZE then Inl EMSGSIZE
          else if b ! 0 \<noteq> 1 \<and> b ! 0 \<noteq> 2 then Inl EPROTONOSUPPORT
          else if sz < header_size (b ! 0) then Inl EMSGSIZE
          else if b ! 10 \<noteq> 0 \<or> b ! 11 \<noteq> 0 then Inl EBADMSG
          else if b ! 1 < opcode_value KFSW_COMMAND_OP_REQUEST
                  \<or> b ! 1 > opcode_value
                       (if b ! 0 = 2 then KFSW_COMMAND_OP_EXECUTE else KFSW_COMMAND_OP_RESULT)
               then Inl ENOTSUP
          else
            let m = \<lparr>cm_version = b ! 0,
                     cm_token = (if b ! 0 = 2 then sys_get_be64 (drop 12 b) else 0),
                     cm_opcode = b ! 1, cm_status = b ! 2, cm_arg_count = b ! 3,
                     cm_command_id = sys_get_be16 (drop 4 b),
                     cm_request_id = sys_get_be16 (drop 6 b),
                     cm_payload_size = sys_get_be16 (drop 8 b),
                     cm_payload = Some (drop (header_size (b ! 0)) b)\<rparr>
            in if unat (cm_arg_count m) > KFSW_COMMAND_MAX_ARGS then Inl E2BIG
               else if unat (cm_payload_size m) > KFSW_COMMAND_MAX_PAYLOAD_SIZE then Inl EMSGSIZE
               else if header_size (b ! 0) + unat (cm_payload_size m) \<noteq> sz then Inl EMSGSIZE
               else Inr m)"

section \<open>Arguments\<close>

text \<open>The bytes of one value: its size on the wire is their number.\<close>

fun arg_value_bytes :: "kfsw_command_arg \<Rightarrow> errno + bytes" where
  "arg_value_bytes (ARG_U32 v) = Inr (sys_put_be32 v)"
| "arg_value_bytes (ARG_I32 v) = Inr (sys_put_be32 v)"
| "arg_value_bytes (ARG_TEXT None) = Inl EINVAL"
| "arg_value_bytes (ARG_TEXT (Some t)) =
     (if length t > KFSW_COMMAND_MAX_TEXT_SIZE then Inl ENAMETOOLONG else Inr (bytes_of_string t))"
| "arg_value_bytes (ARG_OTHER n) = Inl ENOTSUP"

text \<open>The loop of the encoder; \<open>payload\<close> is what has been written, so its length is the offset.\<close>

fun encode_entries :: "nat \<Rightarrow> kfsw_command_arg list \<Rightarrow> bytes \<Rightarrow> errno + bytes" where
  "encode_entries capacity [] payload = Inr payload"
| "encode_entries capacity (a # args) payload =
     (case arg_value_bytes a of
        Inl e \<Rightarrow> Inl e
      | Inr v \<Rightarrow>
          if length payload + 3 + length v > capacity then Inl EMSGSIZE
          else encode_entries capacity args
                 (payload @ [word_of_int (type_value (arg_type a))]
                          @ sys_put_be16 (word_of_nat (length v)) @ v))"

definition kfsw_command_encode_args ::
  "kfsw_command_arg list option \<Rightarrow> nat \<Rightarrow> dest \<Rightarrow> nat \<Rightarrow> dest \<Rightarrow> errno + bytes" where
  "kfsw_command_encode_args args arg_count payload capacity payload_size =
     (if payload = Null \<or> payload_size = Null \<or> (arg_count \<noteq> 0 \<and> args = None) then Inl EINVAL
      else if arg_count > KFSW_COMMAND_MAX_ARGS then Inl E2BIG
      else encode_entries capacity (take arg_count (case args of None \<Rightarrow> [] | Some a \<Rightarrow> a)) [])"

text \<open>
  The loop of the decoder over the remaining entries, with the payload, its declared size and the
  offset; \<open>decode_value\<close> is the switch on the type, on the bytes from the value on. The result holds
  the arguments and the final offset.
\<close>

definition decode_value :: "u8 \<Rightarrow> nat \<Rightarrow> bytes \<Rightarrow> errno + kfsw_command_arg" where
  "decode_value type value_size value =
     (if type = 1 then
        (if value_size \<noteq> 4 then Inl EBADMSG else Inr (ARG_U32 (sys_get_be32 value)))
      else if type = 2 then
        (if value_size \<noteq> 4 then Inl EBADMSG else Inr (ARG_I32 (sys_get_be32 value)))
      else if type = 3 then
        (if value_size > KFSW_COMMAND_MAX_TEXT_SIZE then Inl EMSGSIZE
         else if 0 \<in> set (take value_size value) then Inl EBADMSG
         else Inr (ARG_TEXT (Some (string_of_bytes (take value_size value)))))
      else Inl ENOTSUP)"

fun decode_entries :: "nat \<Rightarrow> bytes \<Rightarrow> nat \<Rightarrow> nat \<Rightarrow> errno + kfsw_command_arg list \<times> nat" where
  "decode_entries 0 payload payload_size offset = Inr ([], offset)"
| "decode_entries (Suc remaining) payload payload_size offset =
     (if offset + 3 > payload_size then Inl EMSGSIZE
      else
        let type = payload ! offset;
            value_size = unat (sys_get_be16 (drop (offset + 1) payload))
        in if offset + 3 + value_size > payload_size then Inl EMSGSIZE
           else
             (case decode_value type value_size (drop (offset + 3) payload) of
                Inl e \<Rightarrow> Inl e
              | Inr a \<Rightarrow>
                  (case decode_entries remaining payload payload_size (offset + 3 + value_size) of
                     Inl e \<Rightarrow> Inl e
                   | Inr (args, final) \<Rightarrow> Inr (a # args, final))))"

definition kfsw_command_decode_args ::
  "kfsw_command_message option \<Rightarrow> dest \<Rightarrow> nat \<Rightarrow> dest \<Rightarrow> errno + kfsw_command_arg list" where
  "kfsw_command_decode_args message args max_args text_storage =
     (case message of
        None \<Rightarrow> Inl EINVAL
      | Some m \<Rightarrow>
          if args = Null \<or> text_storage = Null then Inl EINVAL
          else if unat (cm_arg_count m) > max_args then Inl E2BIG
          else
            (case decode_entries (unat (cm_arg_count m)) (case cm_payload m of None \<Rightarrow> [] | Some p \<Rightarrow> p)
                    (unat (cm_payload_size m)) 0 of
               Inl e \<Rightarrow> Inl e
             | Inr (decoded, offset) \<Rightarrow>
                 if offset \<noteq> unat (cm_payload_size m) then Inl EMSGSIZE else Inr decoded))"

section \<open>Well-formed messages and arguments\<close>

definition message_wf :: "kfsw_command_message \<Rightarrow> bool" where
  "message_wf m \<longleftrightarrow>
     (cm_version m = 1 \<and> cm_token m = 0 \<and> cm_opcode m \<in> {1, 2}
      \<or> cm_version m = 2 \<and> cm_opcode m \<in> {1, 2, 3, 4, 5})
     \<and> unat (cm_arg_count m) \<le> KFSW_COMMAND_MAX_ARGS
     \<and> unat (cm_payload_size m) \<le> KFSW_COMMAND_MAX_PAYLOAD_SIZE
     \<and> (\<exists>p. cm_payload m = Some p \<and> length p = unat (cm_payload_size m))"

fun arg_wf :: "kfsw_command_arg \<Rightarrow> bool" where
  "arg_wf (ARG_U32 v) = True"
| "arg_wf (ARG_I32 v) = True"
| "arg_wf (ARG_TEXT (Some t)) = (length t \<le> KFSW_COMMAND_MAX_TEXT_SIZE \<and> c_string t)"
| "arg_wf _ = False"

text \<open>The bytes of one entry and of a list of them.\<close>

definition entry_bytes :: "kfsw_command_arg \<Rightarrow> bytes" where
  "entry_bytes a = (case arg_value_bytes a of
      Inl e \<Rightarrow> []
    | Inr v \<Rightarrow> [word_of_int (type_value (arg_type a))] @ sys_put_be16 (word_of_nat (length v)) @ v)"

definition args_bytes :: "kfsw_command_arg list \<Rightarrow> bytes" where
  "args_bytes args = concat (map entry_bytes args)"

text \<open>A message the witnesses below use.\<close>

definition demo_message :: kfsw_command_message where
  "demo_message = \<lparr>cm_version = 2, cm_token = 0x0102030405060708, cm_opcode = 5, cm_status = 0,
     cm_arg_count = 1, cm_command_id = 300, cm_request_id = 9, cm_payload_size = 7,
     cm_payload = Some (args_bytes [ARG_U32 0xDEADBEEF])\<rparr>"

section \<open>Header lemmas\<close>

lemma opcode_range:
  "\<not> (w :: u8) < 1 \<and> \<not> w > 2 \<longleftrightarrow> w \<in> {1, 2}"
  "\<not> (w :: u8) < 1 \<and> \<not> w > 5 \<longleftrightarrow> w \<in> {1, 2, 3, 4, 5}"
proof -
  have "w = word_of_nat (unat w)" by simp
  moreover have "unat w \<in> {1, 2, 3, 4, 5}" if "\<not> w < 1" "\<not> w > 5"
    using that by (auto simp: word_less_nat_alt)
  ultimately show "\<not> w < 1 \<and> \<not> w > 5 \<longleftrightarrow> w \<in> {1, 2, 3, 4, 5}" by fastforce
  have "unat w \<in> {1, 2}" if "\<not> w < 1" "\<not> w > 2"
    using that by (auto simp: word_less_nat_alt)
  with \<open>w = word_of_nat (unat w)\<close> show "\<not> w < 1 \<and> \<not> w > 2 \<longleftrightarrow> w \<in> {1, 2}" by fastforce
qed

lemma get_be16_halves [wire]: "sys_get_be16 (ucast (drop_bit 8 x) # ucast x # r) = x"
  by (simp add: sys_get_be16_def join_halves)

lemma encode_header_bytes:
  assumes "message_wf m" and "cm_payload m = Some p"
    and "kfsw_command_protocol_encode Dest capacity (Some m) Dest = Inr b"
  shows "b = [cm_version m, cm_opcode m, cm_status m, cm_arg_count m] @ sys_put_be16 (cm_command_id m)
      @ sys_put_be16 (cm_request_id m) @ sys_put_be16 (cm_payload_size m) @ [0, 0]
      @ (if cm_version m = 2 then sys_put_be64 (cm_token m) else []) @ p"
proof -
  have v: "cm_version m = 1 \<or> cm_version m = 2" using assms(1) by (auto simp: message_wf_def)
  then have "cm_version m \<noteq> 0" by auto
  with v assms show ?thesis
    by (auto simp: message_wf_def kfsw_command_protocol_encode_def Let_def split: if_splits)
qed

lemma decode_encode_header:
  assumes wf: "message_wf m"
    and "kfsw_command_protocol_encode Dest capacity (Some m) Dest = Inr b"
  shows "kfsw_command_protocol_decode (Some b) (length b) Dest = Inr m"
proof -
  obtain p where p: "cm_payload m = Some p" "length p = unat (cm_payload_size m)"
    using wf by (auto simp: message_wf_def)
  have b: "b = [cm_version m, cm_opcode m, cm_status m, cm_arg_count m] @ sys_put_be16 (cm_command_id m)
      @ sys_put_be16 (cm_request_id m) @ sys_put_be16 (cm_payload_size m) @ [0, 0]
      @ (if cm_version m = 2 then sys_put_be64 (cm_token m) else []) @ p"
    by (rule encode_header_bytes [OF wf p(1) assms(2)])
  have lims: "\<not> 4 < unat (cm_arg_count m)" "\<not> 192 < unat (cm_payload_size m)"
    using wf by (simp_all add: message_wf_def command_sizes)
  have eq: "m = \<lparr>cm_version = cm_version m, cm_token = cm_token m, cm_opcode = cm_opcode m,
      cm_status = cm_status m, cm_arg_count = cm_arg_count m, cm_command_id = cm_command_id m,
      cm_request_id = cm_request_id m, cm_payload_size = cm_payload_size m, cm_payload = Some p\<rparr>"
    using p by simp
  show ?thesis
  proof (cases "cm_version m = 2")
    case True
    then have "\<not> cm_opcode m < 1 \<and> \<not> cm_opcode m > 5"
      using wf unfolding opcode_range by (auto simp: message_wf_def)
    with True lims show ?thesis unfolding b kfsw_command_protocol_decode_def
      by (subst (12) eq) (simp add: header_size_def command_sizes Let_def sys_put_be16_def wire p)
  next
    case False
    then have v: "cm_version m = 1" "cm_token m = 0" and "\<not> cm_opcode m < 1 \<and> \<not> cm_opcode m > 2"
      using wf unfolding opcode_range by (auto simp: message_wf_def)
    with lims show ?thesis unfolding b kfsw_command_protocol_decode_def
      by (subst (12) eq) (simp add: header_size_def command_sizes Let_def sys_put_be16_def wire p)
  qed
qed

lemma encode_header_total:
  assumes "message_wf m" and "212 \<le> capacity"
  shows "\<exists>b. kfsw_command_protocol_encode Dest capacity (Some m) Dest = Inr b"
  using assms by (auto simp: message_wf_def kfsw_command_protocol_encode_def header_size_def
      command_sizes Let_def)

lemma decode_header_wf:
  assumes "kfsw_command_protocol_decode (Some b) (length b) Dest = Inr m"
  shows "message_wf m"
proof (cases "b ! 0 = 2")
  case True
  with assms have "\<not> b ! 1 < 1 \<and> \<not> b ! 1 > 5"
    by (simp add: kfsw_command_protocol_decode_def Let_def split: if_split_asm)
  then have "b ! 1 \<in> {1, 2, 3, 4, 5}" unfolding opcode_range .
  with assms True show ?thesis
    by (clarsimp simp: kfsw_command_protocol_decode_def header_size_def Let_def split: if_split_asm)
      (simp add: message_wf_def)
next
  case False
  with assms have one: "b ! 0 = 1" and "\<not> b ! 1 < 1 \<and> \<not> b ! 1 > 2"
    by (simp_all add: kfsw_command_protocol_decode_def Let_def split: if_split_asm)
  then have "b ! 1 \<in> {1, 2}" unfolding opcode_range by blast
  with assms one show ?thesis
    by (clarsimp simp: kfsw_command_protocol_decode_def header_size_def Let_def split: if_split_asm)
      (simp add: message_wf_def)
qed

lemma get_be16_zero: "sys_get_be16 (a # b # r) = 0 \<Longrightarrow> sys_put_be16 0 = [a, b]"
  by (metis put_get_be16)

lemma encode_decode_header:
  assumes "kfsw_command_protocol_decode (Some b) (length b) Dest = Inr m"
  shows "kfsw_command_protocol_encode Dest 212 (Some m) Dest = Inr b"
proof -
  have len: "12 \<le> length b" using assms
    by (auto simp: kfsw_command_protocol_decode_def command_sizes split: if_splits)
  have "\<exists>b0 b1 b2 b3 b4 b5 b6 b7 b8 b9 b10 b11 r.
      b = b0 # b1 # b2 # b3 # b4 # b5 # b6 # b7 # b8 # b9 # b10 # b11 # r"
    using len by (auto simp: Suc_le_length_iff eval_nat_numeral)
  then obtain b0 b1 b2 b3 b4 b5 b6 b7 b8 b9 b10 b11 r where
    b: "b = b0 # b1 # b2 # b3 # b4 # b5 # b6 # b7 # b8 # b9 # b10 # b11 # r"
    by blast
  show ?thesis
  proof (cases "b0 = 2")
    case True
    then have "8 \<le> length r" using assms b
      by (auto simp: kfsw_command_protocol_decode_def command_sizes header_size_def split: if_splits)
    then have "\<exists>c0 c1 c2 c3 c4 c5 c6 c7 q. r = c0 # c1 # c2 # c3 # c4 # c5 # c6 # c7 # q"
      by (auto simp: Suc_le_length_iff eval_nat_numeral)
    with True assms b show ?thesis
      by (auto simp: kfsw_command_protocol_decode_def kfsw_command_protocol_encode_def command_sizes
          header_size_def Let_def split: if_splits dest: get_be16_zero)
  next
    case False
    with assms b show ?thesis
      by (auto simp: kfsw_command_protocol_decode_def kfsw_command_protocol_encode_def command_sizes
          header_size_def Let_def split: if_splits dest: get_be16_zero)
  qed
qed

interpretation command_codec: canonical_codec
  "\<lambda>m. ok (kfsw_command_protocol_encode Dest 212 (Some m) Dest)"
  "\<lambda>b. ok (kfsw_command_protocol_decode (Some b) (length b) Dest)" message_wf
proof unfold_locales
  fix m b
  show "message_wf m \<Longrightarrow> \<exists>b. ok (kfsw_command_protocol_encode Dest 212 (Some m) Dest) = Some b"
    using encode_header_total [of m 212] by simp
  show "message_wf m \<Longrightarrow> ok (kfsw_command_protocol_encode Dest 212 (Some m) Dest) = Some b \<Longrightarrow>
      ok (kfsw_command_protocol_decode (Some b) (length b) Dest) = Some m"
    using decode_encode_header [of m 212 b] by simp
  show "ok (kfsw_command_protocol_decode (Some b) (length b) Dest) = Some m \<Longrightarrow> message_wf m"
    using decode_header_wf [of b m] by simp
  show "ok (kfsw_command_protocol_decode (Some b) (length b) Dest) = Some m \<Longrightarrow>
      ok (kfsw_command_protocol_encode Dest 212 (Some m) Dest) = Some b"
    using encode_decode_header [of b m] by simp
qed

section \<open>Argument lemmas\<close>

lemma args_bytes_simps [simp]:
  "args_bytes [] = []" "args_bytes (a # args) = entry_bytes a @ args_bytes args"
  by (simp_all add: args_bytes_def)

lemma arg_wf_value:
  assumes "arg_wf a"
  shows "\<exists>v. arg_value_bytes a = Inr v \<and> length v \<le> 64
    \<and> entry_bytes a = word_of_int (type_value (arg_type a)) # sys_put_be16 (word_of_nat (length v)) @ v
    \<and> (\<forall>r. decode_value (word_of_int (type_value (arg_type a))) (length v) (v @ r) = Inr a)"
proof (cases a)
  case (ARG_TEXT t)
  then obtain u where u: "t = Some u" "length u \<le> 64" "NUL \<notin> set u"
    using assms by (cases t) (auto simp: command_sizes c_string_def)
  then have "0 \<notin> set (bytes_of_string u)" using zero_bytes_of_string by blast
  with u ARG_TEXT show ?thesis
    by (auto simp: entry_bytes_def decode_value_def command_sizes comp_def simp flip: map_append)
qed (use assms in \<open>auto simp: entry_bytes_def decode_value_def wire\<close>)

lemma encode_entries_bytes:
  "\<forall>a \<in> set args. arg_wf a \<Longrightarrow>
   encode_entries capacity args payload =
     (if length payload + length (args_bytes args) \<le> capacity then Inr (payload @ args_bytes args)
      else Inl EMSGSIZE) \<or> args = []"
proof (induction args arbitrary: payload)
  case (Cons a args)
  then have "arg_wf a" by simp
  with arg_wf_value obtain v where v: "arg_value_bytes a = Inr v"
    "entry_bytes a = word_of_int (type_value (arg_type a)) # sys_put_be16 (word_of_nat (length v)) @ v"
    by blast
  show ?case
  proof (cases "args = []")
    case True
    with v show ?thesis by simp
  next
    case False
    with Cons have "encode_entries capacity args (payload @ entry_bytes a) =
      (if length (payload @ entry_bytes a) + length (args_bytes args) \<le> capacity
       then Inr ((payload @ entry_bytes a) @ args_bytes args) else Inl EMSGSIZE)"
      by force
    with v show ?thesis by auto
  qed
qed simp

lemma encode_args_bytes:
  assumes "\<forall>a \<in> set args. arg_wf a" and "length args \<le> 4"
  shows "kfsw_command_encode_args (Some args) (length args) Dest capacity Dest =
    (if length (args_bytes args) \<le> capacity then Inr (args_bytes args) else Inl EMSGSIZE)"
  using encode_entries_bytes [OF assms(1), of capacity "[]"] assms(2)
  by (auto simp: kfsw_command_encode_args_def command_sizes)

lemma decode_entries_bytes:
  assumes "\<forall>a \<in> set args. arg_wf a" and "length pre + length (args_bytes args) \<le> sz"
  shows "decode_entries (length args) (pre @ args_bytes args @ post) sz (length pre) =
    Inr (args, length pre + length (args_bytes args))"
  using assms
proof (induction args arbitrary: pre)
  case (Cons a args)
  then have "arg_wf a" by simp
  with arg_wf_value obtain v where v: "length v \<le> 64"
    "entry_bytes a = word_of_int (type_value (arg_type a)) # sys_put_be16 (word_of_nat (length v)) @ v"
    "\<And>r. decode_value (word_of_int (type_value (arg_type a))) (length v) (v @ r) = Inr a"
    by blast
  have vs: "unat (word_of_nat (length v) :: u16) = length v"
    using v(1) by (simp add: unat_word_of_nat_small)
  have "length (pre @ entry_bytes a) = length pre + 3 + length v" by (simp add: v)
  moreover have "decode_entries (length args) ((pre @ entry_bytes a) @ args_bytes args @ post) sz
      (length (pre @ entry_bytes a)) =
    Inr (args, length (pre @ entry_bytes a) + length (args_bytes args))"
    by (rule Cons.IH) (use Cons.prems in auto)
  ultimately have "decode_entries (length args)
      (pre @ word_of_int (type_value (arg_type a)) # sys_put_be16 (word_of_nat (length v)) @ v
        @ args_bytes args @ post) sz (length pre + 3 + length v) =
    Inr (args, length pre + 3 + length v + length (args_bytes args))"
    by (simp only: v(2) append.assoc append.simps)
  with Cons.prems show ?case by (simp add: v vs nth_append Let_def wire)
qed simp

lemma decode_args_bytes:
  assumes "\<forall>a \<in> set args. arg_wf a" and "length args \<le> max_args"
    and "unat (cm_arg_count m) = length args" and "cm_payload m = Some (args_bytes args)"
    and "unat (cm_payload_size m) = length (args_bytes args)"
  shows "kfsw_command_decode_args (Some m) Dest max_args Dest = Inr args"
  using decode_entries_bytes [OF assms(1), of "[]" "length (args_bytes args)" "[]"] assms(2-)
  by (simp add: kfsw_command_decode_args_def)

lemma decode_value_entry:
  assumes "decode_value ty n value = Inr a" and "n \<le> length value"
  shows "arg_wf a \<and> arg_value_bytes a = Inr (take n value) \<and> word_of_int (type_value (arg_type a)) = ty"
proof -
  have four: "sys_put_be32 (sys_get_be32 value) = take 4 value" if "4 \<le> length value"
  proof -
    obtain c0 c1 c2 c3 r where "value = c0 # c1 # c2 # c3 # r"
      using list_ge(3) [OF \<open>4 \<le> length value\<close>] by blast
    then show ?thesis by simp
  qed
  have "c_string (string_of_bytes (take n value))" if "0 \<notin> set (take n value)"
    using that NUL_string_of_bytes by (auto simp: c_string_def)
  with assms four show ?thesis
    by (auto simp: decode_value_def command_sizes comp_def split: if_splits)
qed

lemma decode_entries_wf:
  assumes "decode_entries n payload sz offset = Inr (args, final)" and "sz \<le> length payload"
    and "offset \<le> sz"
  shows "length args = n \<and> (\<forall>a \<in> set args. arg_wf a) \<and> offset \<le> final \<and> final \<le> sz
    \<and> take (final - offset) (drop offset payload) = args_bytes args"
  using assms
proof (induction n arbitrary: offset args final)
  case (Suc n)
  let ?n = "unat (sys_get_be16 (drop (offset + 1) payload))"
  let ?next = "offset + 3 + ?n"
  obtain a rest where step: "offset + 3 \<le> sz" "?next \<le> sz"
    "decode_value (payload ! offset) ?n (drop (offset + 3) payload) = Inr a"
    "decode_entries n payload sz ?next = Inr (rest, final)" "args = a # rest"
    using Suc.prems by (auto simp: Let_def split: if_splits sum.splits)
  have a: "arg_wf a" "arg_value_bytes a = Inr (take ?n (drop (offset + 3) payload))"
    "word_of_int (type_value (arg_type a)) = payload ! offset"
    using decode_value_entry [OF step(3)] step(2) Suc.prems(2) by auto
  have tail: "length rest = n" "\<forall>a \<in> set rest. arg_wf a" "?next \<le> final" "final \<le> sz"
    "take (final - ?next) (drop ?next payload) = args_bytes rest"
    using Suc.IH [OF step(4) Suc.prems(2) step(2)] by auto
  have "3 \<le> length (drop offset payload)" using step(1) Suc.prems(2) by simp
  then obtain t hi lo r where split: "drop offset payload = t # hi # lo # r"
    using list_ge(2) by blast
  then have d: "drop (offset + k) payload = drop k (t # hi # lo # r)" for k
    by (metis add.commute drop_drop)
  have parts: "payload ! offset = t" "drop (offset + 1) payload = hi # lo # r"
    "drop (offset + 3) payload = r"
    using split d [of 1] d [of 3] by (simp_all add: nth_via_drop)
  have "length r = length payload - (offset + 3)" by (metis length_drop parts(3))
  then have lr: "?n \<le> length r" using step(2) Suc.prems(2) by linarith
  have n: "take (3 + ?n) (t # hi # lo # r) = t # hi # lo # take ?n r" by (simp add: take_Cons')
  have "entry_bytes a = take (3 + ?n) (drop offset payload)"
    unfolding split n using a lr unfolding parts entry_bytes_def by simp
  moreover have "take (final - offset) (drop offset payload) =
      take (3 + ?n) (drop offset payload) @ take (final - ?next) (drop ?next payload)"
    using take_drop_split [of offset ?next final payload] tail(3) by simp
  ultimately show ?case using step tail a by simp
qed simp

lemma decode_args_wf:
  assumes "kfsw_command_decode_args (Some m) Dest max_args Dest = Inr args" and "message_wf m"
  shows "length args = unat (cm_arg_count m) \<and> length args \<le> 4 \<and> (\<forall>a \<in> set args. arg_wf a)
    \<and> cm_payload m = Some (args_bytes args)"
proof -
  obtain p where p: "cm_payload m = Some p" "length p = unat (cm_payload_size m)"
    using assms(2) by (auto simp: message_wf_def)
  then have "decode_entries (unat (cm_arg_count m)) p (length p) 0 = Inr (args, length p)"
    using assms(1) by (auto simp: kfsw_command_decode_args_def split: if_splits sum.splits)
  from decode_entries_wf [OF this] p assms(2) show ?thesis
    by (auto simp: message_wf_def command_sizes)
qed

lemma args_encoded_and_decoded:
  assumes "(\<forall>a \<in> set args. arg_wf a) \<and> length args \<le> 4 \<and> length (args_bytes args) \<le> 192"
  shows "kfsw_command_encode_args (Some args) (length args) Dest 192 Dest = Inr (args_bytes args)
      \<and> (unat (cm_arg_count m) = length args \<and> cm_payload m = Some (args_bytes args)
         \<and> unat (cm_payload_size m) = length (args_bytes args)
         \<longrightarrow> kfsw_command_decode_args (Some m) Dest 4 Dest = Inr args)"
  using assms decode_args_bytes [of args 4 m] encode_args_bytes [of args 192] by simp

lemma args_decoded_encode_back:
  assumes "message_wf m \<and> kfsw_command_decode_args (Some m) Dest 4 Dest = Inr args"
  shows "(\<forall>a \<in> set args. arg_wf a) \<and> length args \<le> 4
      \<and> kfsw_command_encode_args (Some args) (length args) Dest 192 Dest = Inr (the (cm_payload m))"
proof -
  have a: "\<forall>a \<in> set args. arg_wf a" "length args \<le> 4" "cm_payload m = Some (args_bytes args)"
    using decode_args_wf [of m 4 args] assms by blast+
  moreover have "length (args_bytes args) \<le> 192"
    using assms a(3) by (auto simp: message_wf_def command_sizes)
  ultimately show ?thesis by (simp add: encode_args_bytes)
qed

section \<open>Properties\<close>

text \<open>
  The header codec is canonical. Every well-formed message fits the buffer and is decoded to itself,
  and the decoder accepts a packet exactly when it is the encoding of the well-formed message it
  returns, so a packet with trailing bytes, a wrong size, an unknown version or opcode, set reserved
  bytes or an oversized count is never accepted.
\<close>

theorem command_header_canonical:
  "(message_wf m \<longrightarrow> (\<exists>b. kfsw_command_protocol_encode Dest 212 (Some m) Dest = Inr b
       \<and> kfsw_command_protocol_decode (Some b) (length b) Dest = Inr m))
   \<and> (kfsw_command_protocol_decode (Some b) (length b) Dest = Inr m
       \<longleftrightarrow> message_wf m \<and> kfsw_command_protocol_encode Dest 212 (Some m) Dest = Inr b)"
  using command_codec.round_trip [of m] command_codec.decode_iff [of b m] by simp

theorem command_header_canonical_witness:
  "\<exists>b. kfsw_command_protocol_encode Dest 212 (Some demo_message) Dest = Inr b
     \<and> kfsw_command_protocol_decode (Some b) (length b) Dest = Inr demo_message"
proof -
  have "message_wf demo_message"
    by (simp add: message_wf_def demo_message_def command_sizes entry_bytes_def)
  then show ?thesis using command_header_canonical [of demo_message] by blast
qed

text \<open>
  The argument codec is inverse in both directions. Up to four arguments of the carried types whose
  encoding fits the payload are decoded to themselves from a message that carries them; and whatever
  the decoder accepts from a message that passed the header decoder is well formed (text of at most 64
  bytes without a terminator inside) and encodes back to exactly the received payload.
\<close>

theorem command_args_round_trip:
  "((\<forall>a \<in> set args. arg_wf a) \<and> length args \<le> 4 \<and> length (args_bytes args) \<le> 192 \<longrightarrow>
      kfsw_command_encode_args (Some args) (length args) Dest 192 Dest = Inr (args_bytes args)
      \<and> (unat (cm_arg_count m) = length args \<and> cm_payload m = Some (args_bytes args)
         \<and> unat (cm_payload_size m) = length (args_bytes args)
         \<longrightarrow> kfsw_command_decode_args (Some m) Dest 4 Dest = Inr args))
   \<and> (message_wf m \<and> kfsw_command_decode_args (Some m) Dest 4 Dest = Inr args \<longrightarrow>
      (\<forall>a \<in> set args. arg_wf a) \<and> length args \<le> 4
      \<and> kfsw_command_encode_args (Some args) (length args) Dest 192 Dest =
          Inr (the (cm_payload m)))"
  using args_encoded_and_decoded args_decoded_encode_back by blast

theorem command_args_round_trip_witness:
  "kfsw_command_decode_args (Some demo_message) Dest 4 Dest = Inr [ARG_U32 0xDEADBEEF]
   \<and> kfsw_command_encode_args (Some [ARG_U32 0xDEADBEEF]) 1 Dest 192 Dest =
       Inr (args_bytes [ARG_U32 0xDEADBEEF])"
  using command_args_round_trip [of "[ARG_U32 0xDEADBEEF]" demo_message]
  by (simp add: demo_message_def entry_bytes_def)

end
