(* ===== verification/C_Text.thy ===== *)
theory C_Text
  imports Prelude
begin

text \<open>
  The part of the C library's number conversion the services use: \<open>strtoul\<close>, \<open>strtol\<close>, \<open>strtoull\<close> and
  \<open>strtoll\<close> with base 0 and with base 10, on a text without its terminator, with the lemmas on decimal
  notation. The command service converts shell arguments with it, the parameter service settings and
  the limit monitor the fields of a rule.
\<close>

section \<open>Conversion\<close>

text \<open>
  \<open>isspace\<close> in the C locale, and the part of \<open>strtoul\<close> and \<open>strtol\<close> with base 0 the conversion uses:
  leading white space, a sign, the prefix that selects the base, and the longest run of digits.
  \<open>c_integer\<close> returns the signed value and the rest of the text, or \<open>None\<close> when there is no number, in
  which case the C functions leave their end pointer at the start.
\<close>

definition is_space :: "char \<Rightarrow> bool" where
  "is_space c \<longleftrightarrow> c \<in> {CHR '' '', CHR 0x09, CHR 0x0A, CHR 0x0B, CHR 0x0C, CHR 0x0D}"

definition digit_value :: "char \<Rightarrow> nat option" where
  "digit_value c =
     (let n = of_char c :: nat
      in if 48 \<le> n \<and> n \<le> 57 then Some (n - 48)
         else if 97 \<le> n \<and> n \<le> 122 then Some (n - 97 + 10)
         else if 65 \<le> n \<and> n \<le> 90 then Some (n - 65 + 10)
         else None)"

definition is_digit :: "nat \<Rightarrow> char \<Rightarrow> bool" where
  "is_digit base c = (case digit_value c of None \<Rightarrow> False | Some d \<Rightarrow> d < base)"

definition digits_value :: "nat \<Rightarrow> string \<Rightarrow> nat" where
  "digits_value base s =
     foldl (\<lambda>v c. v * base + (case digit_value c of None \<Rightarrow> 0 | Some d \<Rightarrow> d)) 0 s"

definition c_unsigned :: "string \<Rightarrow> (nat \<times> string) option" where
  "c_unsigned s =
     (let hex = drop 2 s;
          is_hex = (take 2 s = ''0x'' \<or> take 2 s = ''0X'') \<and> hex \<noteq> [] \<and> is_digit 16 (hd hex);
          base = (if is_hex then 16 else if take 1 s = ''0'' then 8 else 10);
          body = (if is_hex then hex else s);
          run = takeWhile (is_digit base) body
      in if run = [] then None else Some (digits_value base run, dropWhile (is_digit base) body))"

definition c_integer :: "string \<Rightarrow> (int \<times> string) option" where
  "c_integer s =
     (let t = dropWhile is_space s
      in if take 1 t = ''-'' then map_option (\<lambda>(v, r). (- int v, r)) (c_unsigned (tl t))
         else map_option (\<lambda>(v, r). (int v, r)) (c_unsigned (if take 1 t = ''+'' then tl t else t)))"

text \<open>
  \<open>strtoull\<close>, \<open>strtoll\<close> and \<open>strtoul\<close> with base 0 and an end pointer: \<open>None\<close> where nothing was converted
  (\<open>end == text\<close>) or \<open>errno\<close> is \<open>ERANGE\<close>. A minus sign negates in the unsigned type. \<open>ulong_max\<close> is the
  target's \<open>ULONG_MAX\<close>.
\<close>

definition c_strtoull :: "string \<Rightarrow> (u64 \<times> string) option" where
  "c_strtoull s =
     (case c_integer s of
        None \<Rightarrow> None
      | Some (v, rest) \<Rightarrow> if \<bar>v\<bar> \<ge> 2 ^ 64 then None else Some (word_of_int v, rest))"

definition c_strtoll :: "string \<Rightarrow> (int \<times> string) option" where
  "c_strtoll s =
     (case c_integer s of
        None \<Rightarrow> None
      | Some (v, rest) \<Rightarrow> if v < - (2 ^ 63) \<or> v \<ge> 2 ^ 63 then None else Some (v, rest))"

definition c_strtoul :: "int \<Rightarrow> string \<Rightarrow> (int \<times> string) option" where
  "c_strtoul ulong_max s =
     (case c_integer s of
        None \<Rightarrow> None
      | Some (v, rest) \<Rightarrow> if \<bar>v\<bar> > ulong_max then None else Some (v mod (ulong_max + 1), rest))"

text \<open>
  The same with base 10, where no prefix is special. \<open>c_strtoll_10\<close> returns the nearest limit for a number
  out of range, for code that does not look at \<open>errno\<close>.
\<close>

definition c_decimal :: "string \<Rightarrow> (int \<times> string) option" where
  "c_decimal s =
     (let t = dropWhile is_space s;
          negative = take 1 t = ''-'';
          body = (if negative \<or> take 1 t = ''+'' then tl t else t);
          run = takeWhile (is_digit 10) body
      in if run = [] then None
         else Some ((if negative then - 1 else 1) * int (digits_value 10 run), dropWhile (is_digit 10) body))"

definition c_strtoll_10 :: "string \<Rightarrow> (int \<times> string) option" where
  "c_strtoll_10 s =
     (case c_decimal s of
        None \<Rightarrow> None
      | Some (v, rest) \<Rightarrow> Some (if v < - (2 ^ 63) then - (2 ^ 63) else if v \<ge> 2 ^ 63 then 2 ^ 63 - 1 else v, rest))"

section \<open>Decimal notation\<close>

text \<open>The decimal notation of a signed number.\<close>

definition signed_decimal :: "int \<Rightarrow> string" where
  "signed_decimal i = (if i < 0 then ''-'' @ decimal (nat (- i)) else decimal (nat i))"

text \<open>\<open>%08x\<close> of \<open>printf\<close>.\<close>

definition hex_digit :: "nat \<Rightarrow> char" where
  "hex_digit d = (if d < 10 then char_of (48 + d) else char_of (87 + d))"

definition hex8 :: "u32 \<Rightarrow> string" where
  "hex8 w = map (\<lambda>i. hex_digit (unat w div 16 ^ i mod 16)) [7, 6, 5, 4, 3, 2, 1, 0]"

lemma digit_value_decimal: "d < 10 \<Longrightarrow> digit_value (char_of (48 + d :: nat)) = Some d"
  by (simp add: digit_value_def)

lemma decimal_digits:
  "list_all (is_digit 10) (decimal n) \<and> decimal n \<noteq> [] \<and> digits_value 10 (decimal n) = n
   \<and> (0 < n \<longrightarrow> hd (decimal n) \<noteq> CHR ''0'')
   \<and> hd (decimal n) \<notin> {CHR ''-'', CHR ''+''} \<and> \<not> is_space (hd (decimal n))"
proof (induction n rule: decimal.induct)
  case (1 n)
  show ?case
  proof (cases "n < 10")
    case True
    then have d: "decimal n = [char_of (48 + n)]" by (subst decimal.simps) simp
    have "n \<in> {0, 1, 2, 3, 4, 5, 6, 7, 8, 9}" using True by auto
    then show ?thesis
      unfolding d
      by (auto simp: is_digit_def digits_value_def digit_value_def is_space_def char_of_eq_iff)
  next
    case False
    then have d: "decimal n = decimal (n div 10) @ [char_of (48 + n mod 10)]"
      by (subst decimal.simps) simp
    have v: "digit_value (char_of (48 + n mod 10)) = Some (n mod 10)"
      by (rule digit_value_decimal) simp
    from 1 [OF False] False show ?thesis
      unfolding d by (simp add: is_digit_def digits_value_def v hd_append del: of_char_of)
  qed
qed

lemma c_unsigned_decimal: "c_unsigned (decimal n) = Some (n, [])"
proof -
  let ?s = "decimal n"
  note d = decimal_digits [of n]
  then have all10: "takeWhile (is_digit 10) ?s = ?s" "dropWhile (is_digit 10) ?s = []"
    by (auto simp: list_all_iff takeWhile_eq_all_conv)
  show ?thesis
  proof (cases "n = 0")
    case True
    then have "?s = ''0''" by (simp add: decimal.simps char_of_eq_iff)
    with True show ?thesis by (simp add: c_unsigned_def is_digit_def digit_value_def digits_value_def)
  next
    case False
    obtain c r where cr: "?s = c # r" using d by (cases ?s) auto
    with False d have "c \<noteq> CHR ''0''" by auto
    then have "take 1 ?s \<noteq> ''0''" "take 2 ?s \<noteq> ''0x''" "take 2 ?s \<noteq> ''0X''" by (auto simp: cr)
    with d show ?thesis by (simp add: c_unsigned_def Let_def all10)
  qed
qed

lemma c_integer_decimal: "c_integer (decimal n) = Some (int n, []) \<and> c_integer (''-'' @ decimal n) = Some (- int n, [])"
proof -
  obtain c r where cr: "decimal n = c # r" using decimal_digits [of n] by (cases "decimal n") auto
  with decimal_digits [of n] have "\<not> is_space c" "c \<noteq> CHR ''-''" "c \<noteq> CHR ''+''" by auto
  with c_unsigned_decimal [of n] show ?thesis
    by (simp add: cr c_integer_def Let_def) (simp add: is_space_def)
qed

end
