(* ===== verification/Command.thy ===== *)
theory Command
  imports Command_Protocol Event C_Text
begin

text \<open>
  The command service, \<^verbatim>\<open>src/command/command.c\<close> with the types of \<^verbatim>\<open>include/kfsw/services/command.h\<close>: the
  registry frozen at startup, the conversion of shell arguments, the claim one thread may hold on the
  command path, and the dispatch of an invocation to its handler.

  The registry (\<open>registry_state\<close>) holds the registered definitions in order; its length is
  \<open>registry_count\<close> and its capacity \<open>CONFIG_KFSW_COMMAND_MAX_COMMANDS\<close> is an argument of the
  initialisation. The other static variables are \<open>command_state\<close>. A handler is a function on the
  \<open>system\<close> state: the command state, the event ring and a world of type \<open>'w\<close> the application owns, so
  a handler may record events and change the claim. The thread that runs an operation is an argument.
  Dispatch is one step: between the check of the claim and the handler no other thread is modelled.

  Proved: initialisation accepts exactly the sets with unambiguous, valid commands that fit, and every
  one is then found under its id and its name; a handler runs exactly when the registry is ready, the
  command is known, its arguments match and no other thread holds an exclusive claim; a claim is
  changed by its holder only; decimal numbers are parsed to their value.
\<close>

section \<open>Types\<close>

datatype kfsw_command_status =
    KFSW_COMMAND_OK | KFSW_COMMAND_UNKNOWN | KFSW_COMMAND_INVALID_ARGUMENT | KFSW_COMMAND_DENIED
  | KFSW_COMMAND_BUSY | KFSW_COMMAND_FAILED | KFSW_COMMAND_UNAVAILABLE | STATUS_OTHER u8

fun status_value :: "kfsw_command_status \<Rightarrow> u8" where
  "status_value KFSW_COMMAND_OK = 0"
| "status_value KFSW_COMMAND_UNKNOWN = 1"
| "status_value KFSW_COMMAND_INVALID_ARGUMENT = 2"
| "status_value KFSW_COMMAND_DENIED = 3"
| "status_value KFSW_COMMAND_BUSY = 4"
| "status_value KFSW_COMMAND_FAILED = 5"
| "status_value KFSW_COMMAND_UNAVAILABLE = 6"
| "status_value (STATUS_OTHER n) = n"

datatype kfsw_event_command_id =
  KFSW_EVENT_COMMAND_INVOKED | KFSW_EVENT_COMMAND_UNKNOWN | KFSW_EVENT_COMMAND_REJECTED

fun event_command_id_value :: "kfsw_event_command_id \<Rightarrow> u16" where
  "event_command_id_value KFSW_EVENT_COMMAND_INVOKED = 1"
| "event_command_id_value KFSW_EVENT_COMMAND_UNKNOWN = 2"
| "event_command_id_value KFSW_EVENT_COMMAND_REJECTED = 3"

datatype kfsw_command_claim_mode = KFSW_COMMAND_CLAIM_SHARED | KFSW_COMMAND_CLAIM_EXCLUSIVE

definition KFSW_COMMAND_CLAIM_NAME_MAX :: nat where "KFSW_COMMAND_CLAIM_NAME_MAX = 32"
definition KFSW_COMMAND_TIMEOUT_MIN_MS :: u32 where "KFSW_COMMAND_TIMEOUT_MIN_MS = 1000"
definition KFSW_COMMAND_TIMEOUT_MAX_MS :: u32 where "KFSW_COMMAND_TIMEOUT_MAX_MS = 120000"

type_synonym tid = nat

record kfsw_command_source =
  src_node :: u16
  src_authenticated :: bool
  src_via_csp :: bool

record kfsw_command_result =
  rs_status :: kfsw_command_status
  rs_detail :: string

record command_claim =
  cl_owner :: "tid option"
  cl_mode :: kfsw_command_claim_mode
  cl_name :: string
  cl_intrusions :: u32
  cl_refusals :: u32
  cl_held :: bool

record kfsw_command_claim_state =
  cs_held :: bool
  cs_mode :: kfsw_command_claim_mode
  cs_owner :: string
  cs_intrusions :: u32
  cs_refusals :: u32

record command_state =
  claim :: command_claim
  command_invoked :: u32
  command_failed :: u32
  command_unknown :: u32
  command_rejected :: u32
  command_timeout_ms :: u32

record 'w system =
  sys_command :: command_state
  sys_event :: event_state
  sys_world :: 'w

type_synonym 'w kfsw_command_handler =
  "kfsw_command_arg list \<Rightarrow> kfsw_command_source \<Rightarrow> kfsw_command_result \<Rightarrow> 'w system
     \<Rightarrow> rc \<times> kfsw_command_result \<times> 'w system"

record 'w kfsw_command_definition =
  cd_id :: u16
  cd_name :: "string option"
  cd_help :: "string option"
  cd_flags :: u32
  cd_arg_count :: u8
  cd_arg_types :: "kfsw_command_type list option"
  cd_handler :: "'w kfsw_command_handler option"

record 'w kfsw_command_definition_set =
  ds_commands :: "'w kfsw_command_definition list option"
  ds_count :: nat

record 'w registry_state =
  registry :: "'w kfsw_command_definition list"
  registry_ready :: bool

record kfsw_command_info =
  ci_id :: u16
  ci_name :: "string option"
  ci_help :: "string option"
  ci_flags :: u32
  ci_arg_count :: u8
  ci_arg_types :: "kfsw_command_type list option"

record kfsw_command_stats =
  cst_invoked :: u32
  cst_failed :: u32
  cst_unknown :: u32
  cst_rejected :: u32
  cst_registered :: u16

record 'w echo_state =
  command_echo_enabled :: u8
  command_echo_handler :: "(bool \<Rightarrow> 'w \<Rightarrow> 'w) option"

section \<open>The registry\<close>

definition find_by_id ::
  "u16 \<Rightarrow> 'w kfsw_command_definition list \<Rightarrow> 'w kfsw_command_definition option" where
  "find_by_id ident commands = find (\<lambda>d. cd_id d = ident) commands"

definition find_by_name ::
  "string \<Rightarrow> 'w kfsw_command_definition list \<Rightarrow> 'w kfsw_command_definition option" where
  "find_by_name name commands = find (\<lambda>d. cd_name d = Some name) commands"

definition validate_definition ::
  "'w kfsw_command_definition \<Rightarrow> 'w kfsw_command_definition list \<Rightarrow> rc" where
  "validate_definition d commands =
     (case cd_name d of
        None \<Rightarrow> Some EINVAL
      | Some name \<Rightarrow>
          if name = [] \<or> cd_handler d = None then Some EINVAL
          else if unat (cd_arg_count d) > KFSW_COMMAND_MAX_ARGS then Some E2BIG
          else if cd_arg_count d \<noteq> 0 \<and> cd_arg_types d = None then Some EINVAL
          else if \<not> terminated_within KFSW_COMMAND_MAX_TEXT_SIZE name then Some ENAMETOOLONG
          else if find_by_id (cd_id d) commands \<noteq> None \<or> find_by_name name commands \<noteq> None
            then Some EEXIST
          else None)"

text \<open>The inner loop over one set, and the outer one over the sets, on the registered commands.\<close>

fun register_set ::
  "nat \<Rightarrow> 'w kfsw_command_definition list \<Rightarrow> 'w kfsw_command_definition list
     \<Rightarrow> rc \<times> 'w kfsw_command_definition list" where
  "register_set capacity [] commands = (None, commands)"
| "register_set capacity (d # ds) commands =
     (case validate_definition d commands of
        Some e \<Rightarrow> (Some e, [])
      | None \<Rightarrow>
          if length commands = capacity then (Some ENOSPC, [])
          else register_set capacity ds (commands @ [d]))"

fun register_sets ::
  "nat \<Rightarrow> 'w kfsw_command_definition_set option list \<Rightarrow> 'w kfsw_command_definition list
     \<Rightarrow> rc \<times> 'w kfsw_command_definition list" where
  "register_sets capacity [] commands = (None, commands)"
| "register_sets capacity (None # sets) commands = (Some EINVAL, commands)"
| "register_sets capacity (Some defs # sets) commands =
     (if ds_count defs \<noteq> 0 \<and> ds_commands defs = None then (Some EINVAL, commands)
      else
        (case register_set capacity
            (take (ds_count defs) (case ds_commands defs of None \<Rightarrow> [] | Some c \<Rightarrow> c)) commands of
           (Some e, commands') \<Rightarrow> (Some e, commands')
         | (None, commands') \<Rightarrow> register_sets capacity sets commands'))"

definition kfsw_command_init ::
  "nat \<Rightarrow> 'w kfsw_command_definition_set option list option \<Rightarrow> nat \<Rightarrow> 'w registry_state
     \<Rightarrow> rc \<times> 'w registry_state" where
  "kfsw_command_init capacity sets set_count reg =
     (if sets = None \<and> set_count \<noteq> 0 then (Some EINVAL, reg)
      else
        (case register_sets capacity (take set_count (case sets of None \<Rightarrow> [] | Some s \<Rightarrow> s)) [] of
           (Some e, commands) \<Rightarrow> (Some e, \<lparr>registry = commands, registry_ready = False\<rparr>)
         | (None, commands) \<Rightarrow> (None, \<lparr>registry = commands, registry_ready = True\<rparr>)))"

definition kfsw_command_is_initialized :: "'w registry_state \<Rightarrow> bool" where
  "kfsw_command_is_initialized reg = registry_ready reg"

definition describe :: "'w kfsw_command_definition \<Rightarrow> kfsw_command_info" where
  "describe d = \<lparr>ci_id = cd_id d, ci_name = cd_name d, ci_help = cd_help d, ci_flags = cd_flags d,
     ci_arg_count = cd_arg_count d, ci_arg_types = cd_arg_types d\<rparr>"

definition kfsw_command_visit ::
  "(kfsw_command_info \<Rightarrow> 'c \<Rightarrow> bool \<times> 'c) option \<Rightarrow> 'w registry_state \<Rightarrow> 'c \<Rightarrow> 'c" where
  "kfsw_command_visit visitor reg context =
     (case visitor of
        None \<Rightarrow> context
      | Some v \<Rightarrow>
          if \<not> registry_ready reg then context
          else visit_list v (map describe (registry reg)) context)"

definition kfsw_command_find ::
  "string option \<Rightarrow> dest \<Rightarrow> 'w registry_state \<Rightarrow> errno + kfsw_command_info" where
  "kfsw_command_find name info reg =
     (case name of
        None \<Rightarrow> Inl EINVAL
      | Some n \<Rightarrow>
          if info = Null then Inl EINVAL
          else if \<not> registry_ready reg then Inl EACCES
          else (case find_by_name n (registry reg) of
                  None \<Rightarrow> Inl ENOENT
                | Some d \<Rightarrow> Inr (describe d)))"

definition kfsw_command_lookup_id :: "string option \<Rightarrow> dest \<Rightarrow> 'w registry_state \<Rightarrow> errno + u16" where
  "kfsw_command_lookup_id name ident reg =
     (case name of
        None \<Rightarrow> Inl EINVAL
      | Some n \<Rightarrow>
          if ident = Null then Inl EINVAL
          else if \<not> registry_ready reg then Inl EACCES
          else (case find_by_name n (registry reg) of
                  None \<Rightarrow> Inl ENOENT
                | Some d \<Rightarrow> Inr (cd_id d)))"

section \<open>Argument conversion\<close>

text \<open>
  \<open>ulong_max\<close> and \<open>long_max\<close> are the limits of the target's \<open>unsigned long\<close> and \<open>long\<close>; a number outside
  them sets \<open>errno\<close> to \<open>ERANGE\<close>. The number that reaches \<open>strtoul\<close> has no minus sign.
\<close>

definition kfsw_command_parse_arg ::
  "int \<Rightarrow> int \<Rightarrow> string option \<Rightarrow> kfsw_command_type \<Rightarrow> dest \<Rightarrow> errno + kfsw_command_arg" where
  "kfsw_command_parse_arg ulong_max long_max text type arg =
     (case text of
        None \<Rightarrow> Inl EINVAL
      | Some t \<Rightarrow>
          if arg = Null then Inl EINVAL
          else
            (case type of
               KFSW_COMMAND_TYPE_U32 \<Rightarrow>
                 let number = dropWhile is_space t
                 in if take 1 number = ''-'' then Inl EINVAL
                    else (case c_integer number of
                            None \<Rightarrow> Inl EINVAL
                          | Some (parsed, rest) \<Rightarrow>
                              if parsed > ulong_max \<or> rest \<noteq> [] \<or> parsed > 4294967295 then Inl EINVAL
                              else Inr (ARG_U32 (word_of_int parsed)))
             | KFSW_COMMAND_TYPE_I32 \<Rightarrow>
                 (case c_integer t of
                    None \<Rightarrow> Inl EINVAL
                  | Some (parsed, rest) \<Rightarrow>
                      if parsed > long_max \<or> parsed < - long_max - 1 \<or> rest \<noteq> []
                         \<or> parsed > 2147483647 \<or> parsed < - 2147483648
                      then Inl EINVAL
                      else Inr (ARG_I32 (word_of_int parsed)))
             | KFSW_COMMAND_TYPE_TEXT \<Rightarrow>
                 if \<not> terminated_within (KFSW_COMMAND_MAX_TEXT_SIZE + 1) t then Inl ENAMETOOLONG
                 else Inr (ARG_TEXT (Some t))
             | TYPE_OTHER n \<Rightarrow> Inl ENOTSUP))"

section \<open>Dispatch\<close>

text \<open>The loop over the arguments, each with the type declared for its position.\<close>

fun check_each :: "kfsw_command_arg list \<Rightarrow> kfsw_command_type list \<Rightarrow> kfsw_command_status" where
  "check_each [] types = KFSW_COMMAND_OK"
| "check_each (a # args) types =
     (if arg_type a \<noteq> hd types then KFSW_COMMAND_INVALID_ARGUMENT
      else if a = ARG_TEXT None then KFSW_COMMAND_INVALID_ARGUMENT
      else check_each args (tl types))"

definition check_arguments ::
  "'w kfsw_command_definition \<Rightarrow> kfsw_command_arg list \<Rightarrow> kfsw_command_status" where
  "check_arguments d args =
     (if length args \<noteq> unat (cd_arg_count d) then KFSW_COMMAND_INVALID_ARGUMENT
      else check_each args (case cd_arg_types d of None \<Rightarrow> [] | Some t \<Rightarrow> t))"

definition count_outcome :: "kfsw_command_status \<Rightarrow> command_state \<Rightarrow> command_state" where
  "count_outcome status st =
     (let st1 = st\<lparr>command_invoked := command_invoked st + 1\<rparr>
      in if status = KFSW_COMMAND_UNKNOWN then st1\<lparr>command_unknown := command_unknown st1 + 1\<rparr>
         else if status = KFSW_COMMAND_DENIED then st1\<lparr>command_rejected := command_rejected st1 + 1\<rparr>
         else if status \<noteq> KFSW_COMMAND_OK then st1\<lparr>command_failed := command_failed st1 + 1\<rparr>
         else st1)"

definition record_outcome ::
  "u64 \<Rightarrow> kfsw_event_command_id \<Rightarrow> u16 \<Rightarrow> kfsw_command_source \<Rightarrow> kfsw_command_status
     \<Rightarrow> 'w system \<Rightarrow> 'w system" where
  "record_outcome now event_id command_id source status sys =
     sys\<lparr>sys_command := count_outcome status (sys_command sys),
         sys_event := kfsw_event_emit
           \<lparr>rq_source = source_value KFSW_EVENT_SOURCE_COMMAND,
            rq_id = event_command_id_value event_id,
            rq_severity = severity_value
              (if status = KFSW_COMMAND_OK then KFSW_EVENT_INFO else KFSW_EVENT_WARNING),
            rq_payload = Some (sys_put_be16 command_id @ sys_put_be16 (src_node source)
                               @ [status_value status]),
            rq_payload_size = 5, rq_now_us = now\<rparr> (sys_event sys)\<rparr>"

definition foreign_claim :: "tid \<Rightarrow> command_claim \<Rightarrow> bool" where
  "foreign_claim current c \<longleftrightarrow> cl_held c \<and> cl_owner c \<noteq> Some current"

definition check_claim ::
  "tid \<Rightarrow> 'w kfsw_command_definition \<Rightarrow> kfsw_command_result \<Rightarrow> command_claim
     \<Rightarrow> rc \<times> kfsw_command_result \<times> command_claim" where
  "check_claim current d result c =
     (if foreign_claim current c then
        if cl_mode c = KFSW_COMMAND_CLAIM_EXCLUSIVE then
          (Some EBUSY,
           \<lparr>rs_status = KFSW_COMMAND_BUSY,
            rs_detail = take (KFSW_COMMAND_MAX_DETAIL_SIZE - 1)
              ((case cd_name d of None \<Rightarrow> [] | Some n \<Rightarrow> n) @ '' refused while '' @ cl_name c @ '' runs'')\<rparr>,
           c\<lparr>cl_refusals := saturating_increment (cl_refusals c)\<rparr>)
        else (None, result, c\<lparr>cl_intrusions := saturating_increment (cl_intrusions c)\<rparr>)
      else (None, result, c))"

definition kfsw_command_claim_acquire ::
  "tid \<Rightarrow> kfsw_command_claim_mode \<Rightarrow> string option \<Rightarrow> command_claim \<Rightarrow> rc \<times> command_claim" where
  "kfsw_command_claim_acquire current mode owner c =
     (case owner of
        None \<Rightarrow> (Some EINVAL, c)
      | Some name \<Rightarrow>
          if name = [] \<or> \<not> terminated_within KFSW_COMMAND_CLAIM_NAME_MAX name then (Some EINVAL, c)
          else if foreign_claim current c then (Some EBUSY, c)
          else
            let c1 = (if \<not> cl_held c then c\<lparr>cl_intrusions := 0, cl_refusals := 0\<rparr> else c)
            in (None, c1\<lparr>cl_owner := Some current, cl_mode := mode, cl_name := name, cl_held := True\<rparr>))"

definition kfsw_command_claim_release :: "tid \<Rightarrow> command_claim \<Rightarrow> rc \<times> command_claim" where
  "kfsw_command_claim_release current c =
     (if foreign_claim current c then (Some EPERM, c)
      else (None, c\<lparr>cl_held := False, cl_owner := None\<rparr>))"

definition kfsw_command_claim_get :: "dest \<Rightarrow> command_claim \<Rightarrow> errno + kfsw_command_claim_state" where
  "kfsw_command_claim_get state c =
     (if state = Null then Inl EINVAL
      else Inr \<lparr>cs_held = cl_held c, cs_mode = cl_mode c, cs_owner = (if cl_held c then cl_name c else []),
                cs_intrusions = cl_intrusions c, cs_refusals = cl_refusals c\<rparr>)"

definition dispatch ::
  "u64 \<Rightarrow> tid \<Rightarrow> 'w registry_state \<Rightarrow> 'w kfsw_command_definition option \<Rightarrow> kfsw_command_arg list
     \<Rightarrow> kfsw_command_source \<Rightarrow> 'w system \<Rightarrow> rc \<times> kfsw_command_result \<times> 'w system" where
  "dispatch now current reg def args source sys =
     (let result = \<lparr>rs_status = KFSW_COMMAND_OK, rs_detail = []\<rparr>
      in if \<not> registry_ready reg then
           (Some EACCES, result\<lparr>rs_status := KFSW_COMMAND_UNAVAILABLE\<rparr>, sys)
         else
           (case def of
              None \<Rightarrow>
                (Some ENOENT, result\<lparr>rs_status := KFSW_COMMAND_UNKNOWN\<rparr>,
                 record_outcome now KFSW_EVENT_COMMAND_UNKNOWN 0 source KFSW_COMMAND_UNKNOWN sys)
            | Some d \<Rightarrow>
                let checked = check_arguments d args
                in if checked \<noteq> KFSW_COMMAND_OK then
                     (Some EINVAL, result\<lparr>rs_status := checked\<rparr>,
                      record_outcome now KFSW_EVENT_COMMAND_REJECTED (cd_id d) source checked sys)
                   else
                     let (refused, result1, c) = check_claim current d result (claim (sys_command sys));
                         sys1 = sys\<lparr>sys_command := (sys_command sys)\<lparr>claim := c\<rparr>\<rparr>
                     in if refused \<noteq> None then
                          (Some EBUSY, result1,
                           record_outcome now KFSW_EVENT_COMMAND_REJECTED (cd_id d) source
                             (rs_status result1) sys1)
                        else
                          let (outcome, result2, sys2) = the (cd_handler d) args source result1 sys1;
                              result3 = (if outcome \<noteq> None \<and> rs_status result2 = KFSW_COMMAND_OK
                                         then result2\<lparr>rs_status := KFSW_COMMAND_FAILED\<rparr> else result2)
                          in (outcome, result3,
                              record_outcome now KFSW_EVENT_COMMAND_INVOKED (cd_id d) source
                                (rs_status result3) sys2)))"

definition local_source :: kfsw_command_source where
  "local_source = \<lparr>src_node = 0, src_authenticated = False, src_via_csp = False\<rparr>"

definition kfsw_command_invoke ::
  "u64 \<Rightarrow> tid \<Rightarrow> 'w registry_state \<Rightarrow> string option \<Rightarrow> kfsw_command_arg list \<Rightarrow> dest \<Rightarrow> 'w system
     \<Rightarrow> (errno + rc \<times> kfsw_command_result) \<times> 'w system" where
  "kfsw_command_invoke now current reg name args result sys =
     (case name of
        None \<Rightarrow> (Inl EINVAL, sys)
      | Some n \<Rightarrow>
          if result = Null then (Inl EINVAL, sys)
          else
            let (outcome, r, sys') =
              dispatch now current reg (find_by_name n (registry reg)) args local_source sys
            in (Inr (outcome, r), sys'))"

definition kfsw_command_invoke_id ::
  "u64 \<Rightarrow> tid \<Rightarrow> 'w registry_state \<Rightarrow> u16 \<Rightarrow> kfsw_command_arg list \<Rightarrow> kfsw_command_source option \<Rightarrow> dest
     \<Rightarrow> 'w system \<Rightarrow> (errno + rc \<times> kfsw_command_result) \<times> 'w system" where
  "kfsw_command_invoke_id now current reg ident args source result sys =
     (if result = Null then (Inl EINVAL, sys)
      else
        let (outcome, r, sys') =
          dispatch now current reg (find_by_id ident (registry reg)) args
            (case source of None \<Rightarrow> local_source | Some s \<Rightarrow> s) sys
        in (Inr (outcome, r), sys'))"

definition kfsw_command_get_stats ::
  "dest \<Rightarrow> 'w registry_state \<Rightarrow> command_state \<Rightarrow> errno + kfsw_command_stats" where
  "kfsw_command_get_stats stats reg st =
     (if stats = Null then Inl EINVAL
      else Inr \<lparr>cst_invoked = command_invoked st, cst_failed = command_failed st,
                cst_unknown = command_unknown st, cst_rejected = command_rejected st,
                cst_registered = word_of_nat (length (registry reg))\<rparr>)"

definition kfsw_command_get_timeout_ms :: "command_state \<Rightarrow> u32" where
  "kfsw_command_get_timeout_ms st = command_timeout_ms st"

definition kfsw_command_check_timeout_ms :: "u32 \<Rightarrow> rc" where
  "kfsw_command_check_timeout_ms timeout_ms =
     (if timeout_ms < KFSW_COMMAND_TIMEOUT_MIN_MS \<or> timeout_ms > KFSW_COMMAND_TIMEOUT_MAX_MS
      then Some ERANGE else None)"

definition kfsw_command_set_timeout_ms :: "u32 \<Rightarrow> command_state \<Rightarrow> rc \<times> command_state" where
  "kfsw_command_set_timeout_ms timeout_ms st =
     (case kfsw_command_check_timeout_ms timeout_ms of
        Some e \<Rightarrow> (Some e, st)
      | None \<Rightarrow> (None, st\<lparr>command_timeout_ms := timeout_ms\<rparr>))"

definition kfsw_command_echo_enabled :: "'w echo_state \<Rightarrow> bool" where
  "kfsw_command_echo_enabled e \<longleftrightarrow> command_echo_enabled e \<noteq> 0"

definition kfsw_command_set_echo_handler ::
  "(bool \<Rightarrow> 'w \<Rightarrow> 'w) option \<Rightarrow> 'w echo_state \<times> 'w \<Rightarrow> 'w echo_state \<times> 'w" where
  "kfsw_command_set_echo_handler handler = (\<lambda>(e, w).
     (e\<lparr>command_echo_handler := handler\<rparr>,
      case handler of None \<Rightarrow> w | Some h \<Rightarrow> h (command_echo_enabled e \<noteq> 0) w))"

definition kfsw_command_set_echo :: "bool \<Rightarrow> 'w echo_state \<times> 'w \<Rightarrow> 'w echo_state \<times> 'w" where
  "kfsw_command_set_echo enabled = (\<lambda>(e, w).
     (e\<lparr>command_echo_enabled := (if enabled then 1 else 0)\<rparr>,
      case command_echo_handler e of None \<Rightarrow> w | Some h \<Rightarrow> h enabled w))"

fun kfsw_command_status_name :: "kfsw_command_status \<Rightarrow> string" where
  "kfsw_command_status_name KFSW_COMMAND_OK = ''ok''"
| "kfsw_command_status_name KFSW_COMMAND_UNKNOWN = ''unknown command''"
| "kfsw_command_status_name KFSW_COMMAND_INVALID_ARGUMENT = ''invalid argument''"
| "kfsw_command_status_name KFSW_COMMAND_DENIED = ''denied''"
| "kfsw_command_status_name KFSW_COMMAND_BUSY = ''busy''"
| "kfsw_command_status_name KFSW_COMMAND_UNAVAILABLE = ''service unavailable''"
| "kfsw_command_status_name KFSW_COMMAND_FAILED = ''failed''"
| "kfsw_command_status_name (STATUS_OTHER n) = ''failed''"

section \<open>Specifications\<close>

text \<open>A registry that is unambiguous, valid and fits; what the definition sets name, in order.\<close>

definition command_valid :: "'w kfsw_command_definition \<Rightarrow> bool" where
  "command_valid d \<longleftrightarrow> (\<exists>name. cd_name d = Some name \<and> name \<noteq> [] \<and> length name < 64)
     \<and> cd_handler d \<noteq> None \<and> unat (cd_arg_count d) \<le> 4
     \<and> (cd_arg_count d \<noteq> 0 \<longrightarrow> cd_arg_types d \<noteq> None)"

definition registry_good :: "nat \<Rightarrow> 'w kfsw_command_definition list \<Rightarrow> bool" where
  "registry_good capacity commands \<longleftrightarrow> (\<forall>d \<in> set commands. command_valid d)
     \<and> distinct (map cd_id commands) \<and> distinct (map cd_name commands) \<and> length commands \<le> capacity"

definition set_readable :: "'w kfsw_command_definition_set option \<Rightarrow> bool" where
  "set_readable s \<longleftrightarrow> (\<exists>g. s = Some g \<and> (ds_count g = 0 \<or> ds_commands g \<noteq> None))"

definition set_commands :: "'w kfsw_command_definition_set option \<Rightarrow> 'w kfsw_command_definition list" where
  "set_commands s = (case s of None \<Rightarrow> [] | Some g \<Rightarrow>
     take (ds_count g) (case ds_commands g of None \<Rightarrow> [] | Some c \<Rightarrow> c))"

text \<open>An invocation may reach the handler of a definition when all of these hold.\<close>

definition may_run ::
  "tid \<Rightarrow> 'w registry_state \<Rightarrow> 'w kfsw_command_definition option \<Rightarrow> kfsw_command_arg list \<Rightarrow> 'w system
     \<Rightarrow> bool" where
  "may_run current reg def args sys \<longleftrightarrow> registry_ready reg
     \<and> (\<exists>d. def = Some d \<and> check_arguments d args = KFSW_COMMAND_OK)
     \<and> \<not> (foreign_claim current (claim (sys_command sys))
           \<and> cl_mode (claim (sys_command sys)) = KFSW_COMMAND_CLAIM_EXCLUSIVE)"

text \<open>What the handler is called with when an invocation passes the claim.\<close>

definition at_handler :: "tid \<Rightarrow> 'w system \<Rightarrow> 'w system" where
  "at_handler current sys = (let c = claim (sys_command sys) in
     sys\<lparr>sys_command := (sys_command sys)\<lparr>claim :=
       (if foreign_claim current c then c\<lparr>cl_intrusions := saturating_increment (cl_intrusions c)\<rparr>
        else c)\<rparr>\<rparr>)"

text \<open>The claim while another thread holds it exclusively.\<close>

definition held_exclusively :: "tid \<Rightarrow> command_claim \<Rightarrow> bool" where
  "held_exclusively owner c \<longleftrightarrow> cl_held c \<and> cl_owner c = Some owner
     \<and> cl_mode c = KFSW_COMMAND_CLAIM_EXCLUSIVE"

text \<open>The operations a thread performs on the command service, and their effect on the system.\<close>

datatype command_op =
    Acquire kfsw_command_claim_mode "string option"
  | Release
  | Invoke "string option" "kfsw_command_arg list"
  | Invoke_Id u16 "kfsw_command_arg list" "kfsw_command_source option"

fun command_step :: "'w registry_state \<Rightarrow> u64 \<times> tid \<times> command_op \<Rightarrow> 'w system \<Rightarrow> 'w system" where
  "command_step reg (now, current, Acquire mode owner) sys =
     sys\<lparr>sys_command := (sys_command sys)\<lparr>claim :=
       snd (kfsw_command_claim_acquire current mode owner (claim (sys_command sys)))\<rparr>\<rparr>"
| "command_step reg (now, current, Release) sys =
     sys\<lparr>sys_command := (sys_command sys)\<lparr>claim :=
       snd (kfsw_command_claim_release current (claim (sys_command sys)))\<rparr>\<rparr>"
| "command_step reg (now, current, Invoke name args) sys =
     snd (kfsw_command_invoke now current reg name args Dest sys)"
| "command_step reg (now, current, Invoke_Id ident args source) sys =
     snd (kfsw_command_invoke_id now current reg ident args source Dest sys)"

text \<open>The part of the claim that says who may do what.\<close>

definition claim_terms :: "command_claim \<Rightarrow> tid option \<times> kfsw_command_claim_mode \<times> string \<times> bool" where
  "claim_terms c = (cl_owner c, cl_mode c, cl_name c, cl_held c)"

text \<open>An invocation that gets as far as the claim: a registered command with matching arguments.\<close>

fun reaches_claim :: "'w registry_state \<Rightarrow> command_op \<Rightarrow> bool" where
  "reaches_claim reg (Invoke (Some name) args) =
     (case find_by_name name (registry reg) of
        None \<Rightarrow> False | Some d \<Rightarrow> check_arguments d args = KFSW_COMMAND_OK)"
| "reaches_claim reg (Invoke_Id ident args source) =
     (case find_by_id ident (registry reg) of
        None \<Rightarrow> False | Some d \<Rightarrow> check_arguments d args = KFSW_COMMAND_OK)"
| "reaches_claim reg _ = False"

section \<open>Lemmas on the registry\<close>

lemma registry_good_Nil [simp]: "registry_good capacity []"
  by (simp add: registry_good_def)

lemma find_None_iff_names:
  "find_by_id i cs = None \<longleftrightarrow> i \<notin> cd_id ` set cs"
  "find_by_name n cs = None \<longleftrightarrow> Some n \<notin> cd_name ` set cs"
  by (auto simp: find_by_id_def find_by_name_def find_None_iff image_iff)

lemma registry_good_snoc:
  "registry_good capacity (commands @ [d]) \<longleftrightarrow>
     registry_good capacity commands \<and> validate_definition d commands = None
     \<and> length commands < capacity"
  by (auto simp: registry_good_def validate_definition_def command_valid_def command_sizes
      terminated_within_def find_None_iff_names split: option.splits if_splits)

lemma registry_good_prefix: "registry_good capacity (a @ b) \<Longrightarrow> registry_good capacity a"
  by (auto simp: registry_good_def)

lemma register_set_iff:
  "registry_good capacity commands \<Longrightarrow>
   register_set capacity ds commands = (None, result) \<longleftrightarrow>
     result = commands @ ds \<and> registry_good capacity (commands @ ds)"
proof (induction ds arbitrary: commands)
  case (Cons d ds)
  show ?case
  proof (cases "registry_good capacity (commands @ [d])")
    case True
    then have "validate_definition d commands = None" "length commands < capacity"
      by (simp_all add: registry_good_snoc)
    with Cons.IH [OF True] show ?thesis by simp
  next
    case False
    then have "\<not> registry_good capacity (commands @ d # ds)"
      using registry_good_prefix [of capacity "commands @ [d]" ds] by auto
    moreover have "validate_definition d commands \<noteq> None \<or> length commands = capacity"
      using False Cons.prems registry_good_snoc [of capacity commands d]
      by (auto simp: registry_good_def)
    ultimately show ?thesis by (auto split: option.splits)
  qed
qed auto

lemma register_sets_Some:
  "register_sets capacity (Some g # sets) commands =
     (if \<not> set_readable (Some g) then (Some EINVAL, commands)
      else (case register_set capacity (set_commands (Some g)) commands of
              (Some e, commands') \<Rightarrow> (Some e, commands')
            | (None, commands') \<Rightarrow> register_sets capacity sets commands'))"
  by (simp add: set_readable_def set_commands_def)

declare register_sets.simps(3) [simp del]

lemma register_sets_iff:
  "registry_good capacity commands \<Longrightarrow>
   register_sets capacity sets commands = (None, result) \<longleftrightarrow>
     (\<forall>s \<in> set sets. set_readable s) \<and> result = commands @ concat (map set_commands sets)
     \<and> registry_good capacity (commands @ concat (map set_commands sets))"
proof (induction sets arbitrary: commands)
  case (Cons s sets)
  show ?case
  proof (cases s)
    case None
    then show ?thesis by (simp add: set_readable_def)
  next
    case (Some g)
    let ?ds = "set_commands s"
    obtain r cs where rs: "register_set capacity ?ds commands = (r, cs)" by fastforce
    show ?thesis
    proof (cases "r = None")
      case True
      then have "cs = commands @ ?ds" "registry_good capacity cs"
        using register_set_iff [OF Cons.prems, of ?ds cs] rs by auto
      with Cons.IH [of cs] rs True Some show ?thesis
        by (auto simp: register_sets_Some)
    next
      case False
      then have "\<not> registry_good capacity (commands @ ?ds)"
        using register_set_iff [OF Cons.prems, of ?ds "commands @ ?ds"] rs by auto
      then have "\<not> registry_good capacity ((commands @ ?ds) @ concat (map set_commands sets))"
        using registry_good_prefix by blast
      with rs False Some show ?thesis by (auto simp: register_sets_Some)
    qed
  qed
qed auto

lemma find_unique:
  assumes "d \<in> set xs" and "P d" and "\<And>e. e \<in> set xs \<Longrightarrow> P e \<Longrightarrow> e = d"
  shows "find P xs = Some d"
proof (cases "find P xs")
  case None
  with assms(1,2) show ?thesis by (auto simp: find_None_iff)
next
  case (Some e)
  then have "e \<in> set xs \<and> P e" by (auto simp: find_Some_iff)
  with Some assms(3) show ?thesis by blast
qed

lemma registry_good_lookup:
  assumes "registry_good capacity commands" and "d \<in> set commands"
  shows "find_by_id (cd_id d) commands = Some d \<and> find_by_name (the (cd_name d)) commands = Some d"
proof -
  have uniq: "e = d" if "e \<in> set commands" "cd_id e = cd_id d \<or> cd_name e = cd_name d" for e
    using that assms unfolding registry_good_def distinct_map inj_on_def by metis
  obtain n where n: "cd_name d = Some n"
    using assms by (auto simp: registry_good_def command_valid_def)
  have "find_by_id (cd_id d) commands = Some d"
    unfolding find_by_id_def by (rule find_unique) (use assms(2) uniq in auto)
  moreover have "find_by_name n commands = Some d"
    unfolding find_by_name_def by (rule find_unique) (use assms(2) n uniq in auto)
  ultimately show ?thesis using n by simp
qed

section \<open>Lemmas on dispatch and the claim\<close>

lemma record_outcome_sel [simp]:
  "sys_world (record_outcome now i c s status sys) = sys_world sys"
  "claim (sys_command (record_outcome now i c s status sys)) = claim (sys_command sys)"
  "command_invoked (sys_command (record_outcome now i c s status sys)) =
     command_invoked (sys_command sys) + 1"
  by (simp_all add: record_outcome_def count_outcome_def Let_def)

lemma dispatch_allowed:
  assumes "may_run current reg def args sys"
    and "the (cd_handler (the def)) args source \<lparr>rs_status = KFSW_COMMAND_OK, rs_detail = []\<rparr>
           (at_handler current sys) = (outcome, r, sys2)"
  shows "dispatch now current reg def args source sys =
    (let status = (if outcome \<noteq> None \<and> rs_status r = KFSW_COMMAND_OK then KFSW_COMMAND_FAILED
                   else rs_status r)
     in (outcome, r\<lparr>rs_status := status\<rparr>,
         record_outcome now KFSW_EVENT_COMMAND_INVOKED (cd_id (the def)) source status sys2))"
  using assms
  by (auto simp: may_run_def dispatch_def check_claim_def at_handler_def Let_def)

lemma dispatch_refused:
  assumes "\<not> may_run current reg def args sys"
    and "dispatch now current reg def args source sys = (outcome, r, sys')"
  shows "outcome \<noteq> None" and "rs_status r \<noteq> KFSW_COMMAND_OK" and "sys_world sys' = sys_world sys"
    and "claim_terms (claim (sys_command sys')) = claim_terms (claim (sys_command sys))"
    and "cl_refusals (claim (sys_command sys')) =
      (if registry_ready reg \<and> (\<exists>d. def = Some d \<and> check_arguments d args = KFSW_COMMAND_OK)
       then saturating_increment (cl_refusals (claim (sys_command sys)))
       else cl_refusals (claim (sys_command sys)))"
  using assms
  by (auto simp: may_run_def dispatch_def check_claim_def claim_terms_def Let_def
      split: option.splits if_splits prod.splits)

lemma held_exclusively_terms: "claim_terms c' = claim_terms c \<Longrightarrow> held_exclusively t c' = held_exclusively t c"
  by (simp add: claim_terms_def held_exclusively_def)

lemma foreign_when_exclusive:
  assumes "held_exclusively owner c" and "current \<noteq> owner"
  shows "foreign_claim current c"
  using assms by (simp add: held_exclusively_def foreign_claim_def)

lemma exclusive_not_may_run:
  assumes "held_exclusively owner (claim (sys_command sys))" and "current \<noteq> owner"
  shows "\<not> may_run current reg def args sys"
  using foreign_when_exclusive [OF assms] assms(1) by (simp add: may_run_def held_exclusively_def)

lemma exclusive_step:
  assumes "held_exclusively owner (claim (sys_command sys))" and "current \<noteq> owner"
    and "registry_ready reg"
  shows "sys_world (command_step reg (now, current, opn) sys) = sys_world sys"
    and "claim_terms (claim (sys_command (command_step reg (now, current, opn) sys))) =
      claim_terms (claim (sys_command sys))"
    and "cl_refusals (claim (sys_command (command_step reg (now, current, opn) sys))) =
      (if reaches_claim reg opn then saturating_increment (cl_refusals (claim (sys_command sys)))
       else cl_refusals (claim (sys_command sys)))"
proof -
  note no_run = exclusive_not_may_run [OF assms(1,2), of reg]
  note foreign = foreign_when_exclusive [OF assms(1,2)]
  have by_dispatch: "sys_world sys' = sys_world sys
      \<and> claim_terms (claim (sys_command sys')) = claim_terms (claim (sys_command sys))
      \<and> cl_refusals (claim (sys_command sys')) =
        (if \<exists>d. def = Some d \<and> check_arguments d args = KFSW_COMMAND_OK
         then saturating_increment (cl_refusals (claim (sys_command sys)))
         else cl_refusals (claim (sys_command sys)))"
    if "dispatch now current reg def args source sys = (outcome, r, sys')"
    for def args source outcome r sys'
    using dispatch_refused(3-5) [OF no_run that] assms(3) by simp
  have all: "sys_world (command_step reg (now, current, opn) sys) = sys_world sys
      \<and> claim_terms (claim (sys_command (command_step reg (now, current, opn) sys))) =
          claim_terms (claim (sys_command sys))
      \<and> cl_refusals (claim (sys_command (command_step reg (now, current, opn) sys))) =
        (if reaches_claim reg opn then saturating_increment (cl_refusals (claim (sys_command sys)))
         else cl_refusals (claim (sys_command sys)))"
  proof (cases opn)
    case (Acquire mode name)
    with foreign show ?thesis
      by (auto simp: kfsw_command_claim_acquire_def split: option.splits)
  next
    case Release
    with foreign show ?thesis by (simp add: kfsw_command_claim_release_def)
  next
    case (Invoke name args)
    with by_dispatch show ?thesis
      by (cases name) (auto simp: kfsw_command_invoke_def split: prod.splits option.splits)
  next
    case (Invoke_Id ident args source)
    with by_dispatch show ?thesis
      by (auto simp: kfsw_command_invoke_id_def split: prod.splits option.splits)
  qed
  then show "sys_world (command_step reg (now, current, opn) sys) = sys_world sys"
    and "claim_terms (claim (sys_command (command_step reg (now, current, opn) sys))) =
      claim_terms (claim (sys_command sys))"
    and "cl_refusals (claim (sys_command (command_step reg (now, current, opn) sys))) =
      (if reaches_claim reg opn then saturating_increment (cl_refusals (claim (sys_command sys)))
       else cl_refusals (claim (sys_command sys)))"
    by blast+
qed

lemma exclusive_run:
  assumes "held_exclusively owner (claim (sys_command sys))" and "registry_ready reg"
    and "\<forall>(now, current, opn) \<in> set ops. current \<noteq> owner"
  shows "sys_world (fold (command_step reg) ops sys) = sys_world sys
    \<and> claim_terms (claim (sys_command (fold (command_step reg) ops sys))) =
        claim_terms (claim (sys_command sys))
    \<and> unat (cl_refusals (claim (sys_command (fold (command_step reg) ops sys)))) =
        min (unat (cl_refusals (claim (sys_command sys)))
             + length (filter (\<lambda>(now, current, opn). reaches_claim reg opn) ops)) 4294967295"
  using assms
proof (induction ops arbitrary: sys)
  case Nil
  then show ?case using unat_u32_bound [of "cl_refusals (claim (sys_command sys))"] by simp
next
  case (Cons x ops)
  obtain now current opn where x: "x = (now, current, opn)" by (cases x)
  with Cons.prems have ne: "current \<noteq> owner" by simp
  note st = exclusive_step [OF Cons.prems(1) ne Cons.prems(2), of now opn]
  have "held_exclusively owner (claim (sys_command (command_step reg x sys)))"
    using Cons.prems(1) held_exclusively_terms [OF st(2)] x by simp
  from Cons.IH [OF this Cons.prems(2)] Cons.prems(3) st show ?case
    by (auto simp: x unat_saturating_increment)
qed

section \<open>Lemmas on numbers\<close>

lemma parse_u32_decimal:
  assumes "n \<le> 4294967295" and "4294967295 \<le> ulong_max"
  shows "kfsw_command_parse_arg ulong_max long_max (Some (decimal n)) KFSW_COMMAND_TYPE_U32 Dest =
    Inr (ARG_U32 (word_of_nat n))"
proof -
  obtain c r where cr: "decimal n = c # r" using decimal_digits [of n] by (cases "decimal n") auto
  with decimal_digits [of n] have c: "\<not> is_space c" "c \<noteq> CHR ''-''" by auto
  with c_integer_decimal [of n] assms show ?thesis
    by (simp add: cr kfsw_command_parse_arg_def)
qed

lemma parse_i32_decimal:
  assumes "- 2147483648 \<le> i" and "i \<le> 2147483647" and "2147483647 \<le> long_max"
  shows "kfsw_command_parse_arg ulong_max long_max (Some (signed_decimal i)) KFSW_COMMAND_TYPE_I32 Dest =
    Inr (ARG_I32 (word_of_int i))"
  using assms c_integer_decimal [of "nat (- i)"] c_integer_decimal [of "nat i"]
  by (simp add: kfsw_command_parse_arg_def signed_decimal_def)

section \<open>Properties\<close>

text \<open>
  Initialisation succeeds exactly when every set can be read and the commands of the sets, in order,
  are valid, have distinct ids and distinct names and fit the registry; the registry is then those
  commands, and each is found under its id and under its name. Otherwise the registry is not ready.
\<close>

theorem command_init_exact:
  "let r = kfsw_command_init capacity (Some sets) (length sets) reg;
       commands = concat (map set_commands sets)
   in (fst r = None \<longleftrightarrow> (\<forall>s \<in> set sets. set_readable s) \<and> registry_good capacity commands)
      \<and> (fst r = None \<longrightarrow> snd r = \<lparr>registry = commands, registry_ready = True\<rparr>
          \<and> (\<forall>d \<in> set commands. find_by_id (cd_id d) commands = Some d
               \<and> find_by_name (the (cd_name d)) commands = Some d))
      \<and> (fst r \<noteq> None \<longrightarrow> \<not> registry_ready (snd r))"
proof -
  obtain e cs where r: "register_sets capacity sets [] = (e, cs)" by fastforce
  with register_sets_iff [OF registry_good_Nil, of capacity sets cs]
    register_sets_iff [OF registry_good_Nil, of capacity sets "concat (map set_commands sets)"]
  show ?thesis
    using registry_good_lookup [of capacity "concat (map set_commands sets)"]
    by (cases e) (auto simp: kfsw_command_init_def Let_def)
qed

theorem command_init_exact_witness:
  "let d = \<lparr>cd_id = 7, cd_name = Some ''ping'', cd_help = None, cd_flags = 0, cd_arg_count = 0,
            cd_arg_types = None, cd_handler = Some (\<lambda>args source result sys. (None, result, sys))\<rparr>
   in find_by_id 7 (registry (snd (kfsw_command_init 4
        (Some [Some \<lparr>ds_commands = Some [d :: unit kfsw_command_definition], ds_count = 1\<rparr>]) 1
        \<lparr>registry = [], registry_ready = False\<rparr>))) = Some d"
proof -
  define d :: "unit kfsw_command_definition" where
    "d = \<lparr>cd_id = 7, cd_name = Some ''ping'', cd_help = None, cd_flags = 0, cd_arg_count = 0,
          cd_arg_types = None, cd_handler = Some (\<lambda>args source result sys. (None, result, sys))\<rparr>"
  let ?sets = "[Some \<lparr>ds_commands = Some [d], ds_count = 1\<rparr>]"
  have c: "concat (map set_commands ?sets) = [d]" by (simp add: set_commands_def)
  have "registry_good 4 [d]" by (simp add: registry_good_def command_valid_def d_def)
  moreover have "\<forall>s \<in> set ?sets. set_readable s" by (simp add: set_readable_def)
  ultimately have "find_by_id 7 (registry (snd (kfsw_command_init 4 (Some ?sets) (length ?sets)
      \<lparr>registry = [], registry_ready = False\<rparr>))) = Some d"
    using command_init_exact [of 4 ?sets "\<lparr>registry = [], registry_ready = False\<rparr>"]
    unfolding Let_def c by (simp add: d_def)
  then show ?thesis by (simp add: d_def)
qed




text \<open>
  The decimal notation of every unsigned and of every signed 32-bit number is converted to exactly
  that number, on every target whose \<open>long\<close> has at least 32 bits.
\<close>

theorem command_parse_decimal:
  assumes "4294967295 \<le> ulong_max" and "2147483647 \<le> long_max"
  shows "kfsw_command_parse_arg ulong_max long_max (Some (decimal (unat v))) KFSW_COMMAND_TYPE_U32 Dest =
      Inr (ARG_U32 v)
    \<and> kfsw_command_parse_arg ulong_max long_max (Some (signed_decimal (sint w))) KFSW_COMMAND_TYPE_I32 Dest =
      Inr (ARG_I32 w)"
proof -
  have "sint w < 2147483648" "- 2147483648 \<le> sint w"
    using sint_lt [of w] sint_ge [of w] by simp_all
  then show ?thesis
    using parse_u32_decimal [of "unat v" ulong_max long_max] parse_i32_decimal [of "sint w" long_max ulong_max]
      unat_u32_bound [of v] assms by simp
qed

theorem command_parse_decimal_witness:
  "kfsw_command_parse_arg 4294967295 2147483647 (Some ''4294967295'') KFSW_COMMAND_TYPE_U32 Dest =
     Inr (ARG_U32 0xFFFFFFFF)"
proof -
  have "decimal (unat (0xFFFFFFFF :: u32)) = ''4294967295''"
    by (simp add: decimal.simps char_of_eq_iff)
  then show ?thesis
    using command_parse_decimal [of 4294967295 2147483647 "0xFFFFFFFF" 0] by simp
qed

end
