(* ===== verification/Command_Retry.thy ===== *)
theory Command_Retry
  imports Command
begin

text \<open>
  The ticket cache that makes remote commands safe to retry, \<^verbatim>\<open>src/command/command_retry.c\<close> with the types of
  \<^verbatim>\<open>src/command/command_retry.h\<close>. A client first reserves a ticket (prepare) and then executes it; the
  cache keeps each reservation with its request and, once executed, its result for the retry window.

  The cache is the list of its entries, \<open>CONFIG_KFSW_COMMAND_RETRY_SLOTS\<close> long; the window is an
  argument. Times are the 64-bit uptime in milliseconds, an \<open>int\<close>. The random ticket the server draws is
  an argument of the dispatch.

  Proved: whatever requests arrive, each ticket is executed at most once; a ticket that is unknown or
  expired executes nothing; and a prepared command is executed once within the window, with repeated
  executions answered from the cache.
\<close>

section \<open>Types and operations\<close>

record kfsw_command_ticket =
  tk_nonce :: u64
  tk_ticket :: u64
  tk_expires :: int
  tk_source :: u16
  tk_command :: u16
  tk_request :: u16
  tk_size :: u16
  tk_count :: u8
  tk_complete :: bool
  tk_payload :: bytes
  tk_result :: kfsw_command_result

type_synonym kfsw_command_retry_cache = "kfsw_command_ticket list"

text \<open>
  The random number generator is not part of the sources: \<open>csrand\<close> is what it returns, \<open>None\<close> in a build
  without one.
\<close>

definition kfsw_command_retry_random :: "(errno + u64) option \<Rightarrow> rc \<times> u64" where
  "kfsw_command_retry_random csrand =
     (case csrand of
        None \<Rightarrow> (Some ENOTSUP, 0)
      | Some (Inl e) \<Rightarrow> (Some e, 0)
      | Some (Inr value) \<Rightarrow> (if value = 0 then Some EIO else None, value))"

definition payload_bytes :: "kfsw_command_message \<Rightarrow> bytes" where
  "payload_bytes m = (case cm_payload m of None \<Rightarrow> [] | Some p \<Rightarrow> p)"

definition matches :: "kfsw_command_ticket \<Rightarrow> kfsw_command_message \<Rightarrow> bool" where
  "matches entry request \<longleftrightarrow> tk_command entry = cm_command_id request
     \<and> tk_request entry = cm_request_id request \<and> tk_size entry = cm_payload_size request
     \<and> tk_count entry = cm_arg_count request
     \<and> take (unat (tk_size entry)) (tk_payload entry) = take (unat (tk_size entry)) (payload_bytes request)"

text \<open>
  The loop over the entries: the first free one, whether a live entry has the new ticket, and the last
  live one the request names.
\<close>

definition entry_free :: "int \<Rightarrow> kfsw_command_ticket \<Rightarrow> bool" where
  "entry_free now e \<longleftrightarrow> tk_ticket e = 0 \<or> now \<ge> tk_expires e"

definition entry_named :: "u16 \<Rightarrow> kfsw_command_message \<Rightarrow> kfsw_command_ticket \<Rightarrow> bool" where
  "entry_named source request e \<longleftrightarrow> tk_source e = source
     \<and> (cm_opcode request = opcode_value KFSW_COMMAND_OP_PREPARE \<and> tk_nonce e = cm_token request
        \<or> cm_opcode request = opcode_value KFSW_COMMAND_OP_EXECUTE \<and> tk_ticket e = cm_token request)"

fun retry_scan ::
  "u16 \<Rightarrow> kfsw_command_message \<Rightarrow> u64 \<Rightarrow> int \<Rightarrow> nat \<Rightarrow> kfsw_command_ticket list
     \<Rightarrow> nat option \<times> bool \<times> nat option \<Rightarrow> nat option \<times> bool \<times> nat option" where
  "retry_scan source request new_ticket now i [] acc = acc"
| "retry_scan source request new_ticket now i (e # es) (free_entry, collision, entry) =
     (if entry_free now e then
        retry_scan source request new_ticket now (Suc i) es
          (if free_entry = None then Some i else free_entry, collision, entry)
      else
        retry_scan source request new_ticket now (Suc i) es
          (free_entry, collision \<or> tk_ticket e = new_ticket,
           if entry_named source request e then Some i else entry))"

definition retry_malformed :: "kfsw_command_message \<Rightarrow> bool" where
  "retry_malformed request \<longleftrightarrow> cm_version request \<noteq> 2 \<or> cm_token request = 0 \<or> cm_status request \<noteq> 0
     \<or> unat (cm_payload_size request) > KFSW_COMMAND_MAX_PAYLOAD_SIZE
     \<or> (cm_opcode request \<noteq> opcode_value KFSW_COMMAND_OP_PREPARE
        \<and> cm_opcode request \<noteq> opcode_value KFSW_COMMAND_OP_EXECUTE)"

definition new_entry :: "int \<Rightarrow> u16 \<Rightarrow> kfsw_command_message \<Rightarrow> u64 \<Rightarrow> int \<Rightarrow> kfsw_command_ticket" where
  "new_entry window source request new_ticket now =
     \<lparr>tk_nonce = cm_token request, tk_ticket = new_ticket, tk_expires = now + window,
      tk_source = source, tk_command = cm_command_id request, tk_request = cm_request_id request,
      tk_size = cm_payload_size request, tk_count = cm_arg_count request, tk_complete = False,
      tk_payload = take (unat (cm_payload_size request)) (payload_bytes request),
      tk_result = \<lparr>rs_status = KFSW_COMMAND_OK, rs_detail = []\<rparr>\<rparr>"

text \<open>
  What the dispatch depends on beside the cache: the thread and time of the invocation, the registry of
  the node, and the retry window of the build.
\<close>

record 'w retry_env =
  env_now_us :: u64
  env_thread :: tid
  env_registry :: "'w registry_state"
  env_window :: int

definition kfsw_command_retry_dispatch ::
  "'w retry_env \<Rightarrow> u16 \<Rightarrow> kfsw_command_message \<Rightarrow> u64 \<Rightarrow> int \<Rightarrow> kfsw_command_retry_cache \<times> 'w system
     \<Rightarrow> (u64 \<times> kfsw_command_result) \<times> kfsw_command_retry_cache \<times> 'w system" where
  "kfsw_command_retry_dispatch env source request new_ticket now = (\<lambda>(cache, sys).
     let result = \<lparr>rs_status = KFSW_COMMAND_UNAVAILABLE, rs_detail = []\<rparr>;
         invalid = \<lparr>rs_status = KFSW_COMMAND_INVALID_ARGUMENT, rs_detail = []\<rparr>;
         prepare = (cm_opcode request = opcode_value KFSW_COMMAND_OP_PREPARE);
         token = cm_token request
     in if retry_malformed request then ((token, invalid), cache, sys)
        else
          let (free_entry, collision, entry) = retry_scan source request new_ticket now 0 cache (None, False, None)
          in case entry of
               Some i \<Rightarrow>
                 let e = cache ! i
                 in if \<not> matches e request then ((token, invalid), cache, sys)
                    else if prepare then
                      ((tk_ticket e, result\<lparr>rs_status := KFSW_COMMAND_OK\<rparr>), cache, sys)
                    else if tk_complete e then ((tk_ticket e, tk_result e), cache, sys)
                    else
                      (case kfsw_command_decode_args (Some request) Dest KFSW_COMMAND_MAX_ARGS Dest of
                         Inl err \<Rightarrow>
                           ((tk_ticket e, invalid), cache[i := e\<lparr>tk_result := invalid, tk_complete := True\<rparr>], sys)
                       | Inr args \<Rightarrow>
                           let (outcome, sys') =
                                 kfsw_command_invoke_id (env_now_us env) (env_thread env) (env_registry env)
                                   (cm_command_id request) args
                                   (Some \<lparr>src_node = source, src_authenticated = False, src_via_csp = True\<rparr>)
                                   Dest sys;
                               r = (case outcome of Inl err \<Rightarrow> result | Inr (rc, r) \<Rightarrow> r)
                           in ((tk_ticket e, r), cache[i := e\<lparr>tk_result := r, tk_complete := True\<rparr>], sys'))
             | None \<Rightarrow>
                 if prepare then
                   (case free_entry of
                      None \<Rightarrow> ((token, result\<lparr>rs_status := KFSW_COMMAND_BUSY\<rparr>), cache, sys)
                    | Some f \<Rightarrow>
                        if new_ticket = 0 \<or> collision then ((token, result), cache, sys)
                        else
                          (case kfsw_command_decode_args (Some request) Dest KFSW_COMMAND_MAX_ARGS Dest of
                             Inl err \<Rightarrow> ((token, invalid), cache, sys)
                           | Inr args \<Rightarrow>
                               ((new_ticket, result\<lparr>rs_status := KFSW_COMMAND_OK\<rparr>),
                                cache[f := new_entry (env_window env) source request new_ticket now], sys)))
                 else
                   ((token, result\<lparr>rs_detail := ''ticket expired or unknown; outcome may be unknown''\<rparr>),
                    cache, sys))"

section \<open>Executions\<close>

text \<open>Whether a dispatch calls the command: it executes a live, matching, not yet completed ticket.\<close>

definition invokes ::
  "u16 \<Rightarrow> kfsw_command_message \<Rightarrow> u64 \<Rightarrow> int \<Rightarrow> kfsw_command_retry_cache \<Rightarrow> bool" where
  "invokes source request new_ticket now cache \<longleftrightarrow> \<not> retry_malformed request
     \<and> cm_opcode request = opcode_value KFSW_COMMAND_OP_EXECUTE
     \<and> (\<exists>i. snd (snd (retry_scan source request new_ticket now 0 cache (None, False, None))) = Some i
          \<and> matches (cache ! i) request \<and> \<not> tk_complete (cache ! i))
     \<and> (\<exists>args. kfsw_command_decode_args (Some request) Dest KFSW_COMMAND_MAX_ARGS Dest = Inr args)"

text \<open>A request as the server receives it, and the executions of a ticket along a run.\<close>

type_synonym 'w retry_request = "'w retry_env \<times> u16 \<times> kfsw_command_message \<times> u64 \<times> int"

fun retry_step ::
  "'w retry_request \<Rightarrow> kfsw_command_retry_cache \<times> 'w system \<Rightarrow> kfsw_command_retry_cache \<times> 'w system" where
  "retry_step (env, source, request, new_ticket, now) st =
     snd (kfsw_command_retry_dispatch env source request new_ticket now st)"

fun executions ::
  "u64 \<Rightarrow> 'w retry_request list \<Rightarrow> kfsw_command_retry_cache \<times> 'w system \<Rightarrow> nat" where
  "executions ticket [] st = 0"
| "executions ticket ((env, source, request, new_ticket, now) # rs) st =
     (if cm_token request = ticket \<and> invokes source request new_ticket now (fst st) then 1 else 0)
     + executions ticket rs (retry_step (env, source, request, new_ticket, now) st)"

fun drawn_ticket :: "'w retry_request \<Rightarrow> u64" where
  "drawn_ticket (env, source, request, new_ticket, now) = new_ticket"

definition empty_ticket :: kfsw_command_ticket where
  "empty_ticket = \<lparr>tk_nonce = 0, tk_ticket = 0, tk_expires = 0, tk_source = 0, tk_command = 0,
     tk_request = 0, tk_size = 0, tk_count = 0, tk_complete = False, tk_payload = [],
     tk_result = \<lparr>rs_status = KFSW_COMMAND_OK, rs_detail = []\<rparr>\<rparr>"

text \<open>No two entries share a ticket, and no ticket still to be drawn is in the cache.\<close>

definition tickets_unique :: "u64 list \<Rightarrow> kfsw_command_retry_cache \<Rightarrow> bool" where
  "tickets_unique future c \<longleftrightarrow>
     (\<forall>i < length c. tk_ticket (c ! i) \<noteq> 0 \<longrightarrow>
        tk_ticket (c ! i) \<notin> set future
        \<and> (\<forall>j < length c. tk_ticket (c ! j) = tk_ticket (c ! i) \<longrightarrow> j = i))"

definition spent :: "u64 \<Rightarrow> kfsw_command_retry_cache \<Rightarrow> bool" where
  "spent ticket c \<longleftrightarrow> (\<forall>e \<in> set c. tk_ticket e = ticket \<longrightarrow> tk_complete e)"

text \<open>A fresh reservation, and the executions of a ticket that is in the cache.\<close>

definition well_formed_prepare :: "kfsw_command_message \<Rightarrow> bool" where
  "well_formed_prepare p \<longleftrightarrow> \<not> retry_malformed p \<and> cm_opcode p = opcode_value KFSW_COMMAND_OP_PREPARE
     \<and> unat (cm_payload_size p) \<le> length (payload_bytes p)"

definition execute_request :: "kfsw_command_message \<Rightarrow> u64 \<Rightarrow> kfsw_command_message" where
  "execute_request p ticket = p\<lparr>cm_opcode := opcode_value KFSW_COMMAND_OP_EXECUTE, cm_token := ticket\<rparr>"

text \<open>A node, a system and a request the witnesses below use.\<close>

definition demo_env :: "nat retry_env" where
  "demo_env = \<lparr>env_now_us = 1, env_thread = 1, env_registry =
     \<lparr>registry = [\<lparr>cd_id = 7, cd_name = Some ''count'', cd_help = None, cd_flags = 0, cd_arg_count = 0,
        cd_arg_types = None, cd_handler = Some (\<lambda>args source result sys.
          (None, result, sys\<lparr>sys_world := sys_world sys + 1\<rparr>))\<rparr>], registry_ready = True\<rparr>,
     env_window = 60000\<rparr>"

definition demo_system :: "nat system" where
  "demo_system = \<lparr>sys_command = \<lparr>claim = \<lparr>cl_owner = None, cl_mode = KFSW_COMMAND_CLAIM_SHARED,
       cl_name = [], cl_intrusions = 0, cl_refusals = 0, cl_held = False\<rparr>,
     command_invoked = 0, command_failed = 0, command_unknown = 0, command_rejected = 0,
     command_timeout_ms = 5000\<rparr>, sys_event = event_init 4, sys_world = 0\<rparr>"

definition demo_prepare :: kfsw_command_message where
  "demo_prepare = \<lparr>cm_version = 2, cm_token = 11, cm_opcode = 3, cm_status = 0, cm_arg_count = 0,
     cm_command_id = 7, cm_request_id = 1, cm_payload_size = 0, cm_payload = Some []\<rparr>"

section \<open>Lemmas on the scan\<close>

lemma scan_entry_Some:
  "retry_scan source request nt now k es (f, c, en) = (f', c', Some i) \<Longrightarrow>
   en = Some i \<or> (k \<le> i \<and> i - k < length es \<and> \<not> entry_free now (es ! (i - k))
                  \<and> entry_named source request (es ! (i - k)))"
proof (induction es arbitrary: k f c en)
  case (Cons e es)
  show ?case
    using Cons.prems
    by (auto simp: Suc_le_eq nth_Cons' split: if_splits dest!: Cons.IH)
qed simp

lemma scan_free_Some:
  "retry_scan source request nt now k es (f, c, en) = (Some i, c', en') \<Longrightarrow>
   f = Some i \<or> (k \<le> i \<and> i - k < length es \<and> entry_free now (es ! (i - k)))"
proof (induction es arbitrary: k f c en)
  case (Cons e es)
  show ?case
    using Cons.prems
    by (auto simp: Suc_le_eq nth_Cons' split: if_splits dest!: Cons.IH)
qed simp

lemma scan_result:
  assumes "retry_scan source request nt now k es (f, c, en) = (f', c', en')"
  shows "(en' = None \<longleftrightarrow> en = None \<and> (\<forall>e \<in> set es. entry_free now e \<or> \<not> entry_named source request e))
    \<and> (f' = None \<longleftrightarrow> f = None \<and> (\<forall>e \<in> set es. \<not> entry_free now e))
    \<and> (c' \<longleftrightarrow> c \<or> (\<exists>e \<in> set es. \<not> entry_free now e \<and> tk_ticket e = nt))"
  using assms
proof (induction es arbitrary: k f c en)
  case (Cons e es)
  show ?case
    using Cons.prems by (auto split: if_splits dest!: Cons.IH)
qed auto

section \<open>Lemmas on the dispatch\<close>

lemma named_entry:
  assumes "retry_scan source request nt now 0 c (None, False, None) = (f, coll, Some i)"
  shows "i < length c \<and> \<not> entry_free now (c ! i) \<and> entry_named source request (c ! i)"
  using scan_entry_Some [OF assms] by simp

lemma free_entry:
  assumes "retry_scan source request nt now 0 c (None, False, None) = (Some i, coll, en)"
  shows "i < length c \<and> entry_free now (c ! i)"
  using scan_free_Some [OF assms] by simp

lemma dispatch_without_invocation:
  assumes "\<not> invokes source request nt now c"
  shows "snd (snd (kfsw_command_retry_dispatch env source request nt now (c, sys))) = sys"
  using assms
  by (auto simp: kfsw_command_retry_dispatch_def invokes_def retry_malformed_def Let_def
      split: prod.splits option.splits sum.splits)

text \<open>What a dispatch does to the cache: at most one entry is completed or replaced.\<close>

lemma dispatch_cache_cases:
  obtains (same) "fst (snd (kfsw_command_retry_dispatch env source request nt now (c, sys))) = c"
      "\<not> invokes source request nt now c"
  | (completed) i r where "i < length c" "tk_ticket (c ! i) = cm_token request"
      "cm_token request \<noteq> 0"
      "fst (snd (kfsw_command_retry_dispatch env source request nt now (c, sys))) =
         c[i := (c ! i)\<lparr>tk_result := r, tk_complete := True\<rparr>]"
  | (reserved) i where "i < length c" "nt \<noteq> 0" "\<not> invokes source request nt now c"
      "fst (snd (kfsw_command_retry_dispatch env source request nt now (c, sys))) =
         c[i := new_entry (env_window env) source request nt now]"
proof -
  obtain f coll en where sc: "retry_scan source request nt now 0 c (None, False, None) = (f, coll, en)"
    by (metis prod.exhaust)
  consider (malformed) "retry_malformed request"
    | (named) i where "\<not> retry_malformed request" "en = Some i"
    | (unnamed) "\<not> retry_malformed request" "en = None"
    by (cases en) auto
  then show thesis
  proof cases
    case malformed
    then show ?thesis
      by (intro same) (simp_all add: kfsw_command_retry_dispatch_def invokes_def)
  next
    case named
    then have ni: "i < length c" "entry_named source request (c ! i)"
      using named_entry sc by blast+
    show ?thesis
    proof (cases "matches (c ! i) request \<and> cm_opcode request \<noteq> opcode_value KFSW_COMMAND_OP_PREPARE
        \<and> \<not> tk_complete (c ! i)")
      case True
      then have "cm_opcode request = 5" "cm_token request \<noteq> 0"
        using named(1) by (auto simp: retry_malformed_def)
      with ni have "tk_ticket (c ! i) = cm_token request" by (auto simp: entry_named_def)
      moreover have "\<exists>r. fst (snd (kfsw_command_retry_dispatch env source request nt now (c, sys))) =
          c[i := (c ! i)\<lparr>tk_result := r, tk_complete := True\<rparr>]"
        using named sc True
        by (auto simp: kfsw_command_retry_dispatch_def Let_def split: sum.splits prod.splits)
      ultimately show ?thesis using completed ni(1) \<open>cm_token request \<noteq> 0\<close> by blast
    next
      case False
      with named sc show ?thesis
        by (intro same) (auto simp: kfsw_command_retry_dispatch_def invokes_def Let_def)
    qed
  next
    case unnamed
    then have no: "\<not> invokes source request nt now c" by (simp add: invokes_def sc)
    show ?thesis
    proof (cases "cm_opcode request = opcode_value KFSW_COMMAND_OP_PREPARE \<and> f \<noteq> None \<and> nt \<noteq> 0 \<and> \<not> coll
        \<and> (\<exists>args. kfsw_command_decode_args (Some request) Dest KFSW_COMMAND_MAX_ARGS Dest = Inr args)")
      case True
      then obtain i where i: "f = Some i" by blast
      with sc have "i < length c" using free_entry by blast
      with True unnamed sc i no show ?thesis
        by (intro reserved) (auto simp: kfsw_command_retry_dispatch_def Let_def)
    next
      case False
      with unnamed sc no show ?thesis
        by (intro same) (auto simp: kfsw_command_retry_dispatch_def Let_def split: option.splits sum.splits)
    qed
  qed
qed

lemma spent_step:
  assumes "spent t c" and "nt \<noteq> t"
  shows "spent t (fst (retry_step (env, source, request, nt, now) (c, sys)))"
proof (cases rule: dispatch_cache_cases [of env source request nt now c sys])
  case same
  with assms show ?thesis by simp
next
  case (completed i r)
  with assms show ?thesis
    by (auto simp: spent_def dest!: set_update_subset_insert [THEN subsetD])
next
  case (reserved i)
  with assms show ?thesis
    by (auto simp: spent_def new_entry_def dest!: set_update_subset_insert [THEN subsetD])
qed

lemma spent_not_invoked: "spent t c \<Longrightarrow> cm_token request = t \<Longrightarrow> \<not> invokes source request nt now c"
proof
  assume s: "spent t c" "cm_token request = t" and "invokes source request nt now c"
  then obtain i where i: "snd (snd (retry_scan source request nt now 0 c (None, False, None))) = Some i"
    "\<not> tk_complete (c ! i)" "cm_opcode request = 5"
    by (auto simp: invokes_def)
  obtain f coll where "retry_scan source request nt now 0 c (None, False, None) = (f, coll, Some i)"
    using i(1) by (metis prod.collapse)
  from named_entry [OF this] i s show False by (auto simp: entry_named_def spent_def)
qed

lemma spent_executions:
  "spent t c \<Longrightarrow> t \<notin> drawn_ticket ` set rs \<Longrightarrow> executions t rs (c, sys) = 0"
proof (induction rs arbitrary: c sys)
  case (Cons r rs)
  obtain env source request nt now where r: "r = (env, source, request, nt, now)" by (metis prod.exhaust)
  then have "spent t (fst (retry_step r (c, sys)))"
    using Cons.prems by (auto intro!: spent_step simp del: retry_step.simps)
  moreover have "t \<notin> drawn_ticket ` set rs" using Cons.prems by simp
  ultimately have "executions t rs (retry_step r (c, sys)) = 0"
    using Cons.IH [of "fst (retry_step r (c, sys))" "snd (retry_step r (c, sys))"] by simp
  moreover have "\<not> (cm_token request = t \<and> invokes source request nt now c)"
    using Cons.prems(1) spent_not_invoked by blast
  ultimately show ?case by (simp add: r)
qed simp

lemma invoked_then_spent:
  assumes "tickets_unique future c" and "invokes source request nt now c"
  shows "spent (cm_token request) (fst (retry_step (env, source, request, nt, now) (c, sys)))"
proof (cases rule: dispatch_cache_cases [of env source request nt now c sys])
  case (completed i r)
  have "tk_complete (c[i := (c ! i)\<lparr>tk_result := r, tk_complete := True\<rparr>] ! j)"
    if "j < length c" "tk_ticket (c[i := (c ! i)\<lparr>tk_result := r, tk_complete := True\<rparr>] ! j) = cm_token request"
    for j
    using that completed assms(1) by (cases "j = i") (auto simp: tickets_unique_def)
  with completed show ?thesis by (auto simp: spent_def in_set_conv_nth)
qed (use assms in auto)

lemma unique_step:
  assumes "tickets_unique (nt # future) c" and "nt \<noteq> 0 \<longrightarrow> nt \<notin> set future"
  shows "tickets_unique future (fst (retry_step (env, source, request, nt, now) (c, sys)))"
proof (cases rule: dispatch_cache_cases [of env source request nt now c sys])
  case same
  with assms show ?thesis by (simp add: tickets_unique_def)
next
  case (completed i r)
  have "tk_ticket (c[i := (c ! i)\<lparr>tk_result := r, tk_complete := True\<rparr>] ! j) = tk_ticket (c ! j)"
    if "j < length c" for j
    using that completed by (cases "j = i") auto
  with completed assms show ?thesis by (simp add: tickets_unique_def)
next
  case (reserved i)
  have "tk_ticket (c[i := new_entry (env_window env) source request nt now] ! j) =
      (if j = i then nt else tk_ticket (c ! j))" if "j < length c" for j
    using that reserved by (auto simp: new_entry_def)
  with reserved assms show ?thesis unfolding tickets_unique_def by auto
qed

lemma executions_at_most_once:
  assumes "tickets_unique (map drawn_ticket rs) c"
    and "distinct (filter (\<lambda>t. t \<noteq> 0) (map drawn_ticket rs))" and "t \<noteq> 0"
  shows "executions t rs (c, sys) \<le> 1"
  using assms
proof (induction rs arbitrary: c sys)
  case (Cons r rs)
  obtain env source request nt now where r: "r = (env, source, request, nt, now)" by (metis prod.exhaust)
  let ?st = "retry_step r (c, sys)"
  have nt: "nt \<noteq> 0 \<longrightarrow> nt \<notin> set (map drawn_ticket rs)"
    using Cons.prems(2) by (auto simp: r split: if_splits)
  have u: "tickets_unique (map drawn_ticket rs) (fst ?st)"
    unfolding r by (rule unique_step) (use Cons.prems(1) nt r in simp_all)
  have st: "?st = (fst ?st, snd ?st)" by simp
  show ?case
  proof (cases "cm_token request = t \<and> invokes source request nt now c")
    case True
    then have sp: "spent t (fst ?st)"
      using invoked_then_spent [OF Cons.prems(1)] r by (metis)
    have "\<exists>i < length c. tk_ticket (c ! i) = t"
      using True dispatch_cache_cases [of env source request nt now c sys] by metis
    then have "t \<notin> set (map drawn_ticket (r # rs))"
      using Cons.prems(1,3) unfolding tickets_unique_def by blast
    then have "executions t rs (fst ?st, snd ?st) = 0" by (intro spent_executions sp) auto
    then show ?thesis using True by (simp add: r)
  next
    case False
    have "executions t rs (fst ?st, snd ?st) \<le> 1"
      by (rule Cons.IH [OF u]) (use Cons.prems r in \<open>auto split: if_splits\<close>)
    then show ?thesis using False by (auto simp: r)
  qed
qed simp

lemma scan_unique:
  assumes "i < length c" and "\<not> entry_free now (c ! i)" and "entry_named source request (c ! i)"
    and "\<And>j. j < length c \<Longrightarrow> j \<noteq> i \<Longrightarrow> entry_free now (c ! j) \<or> \<not> entry_named source request (c ! j)"
  shows "\<exists>f coll. retry_scan source request nt now 0 c (None, False, None) = (f, coll, Some i)"
proof -
  obtain f coll en where sc: "retry_scan source request nt now 0 c (None, False, None) = (f, coll, en)"
    by (metis prod.exhaust)
  have "en \<noteq> None" using scan_result [OF sc] assms(1-3) nth_mem by blast
  then obtain j where "en = Some j" by blast
  with sc named_entry [of source request nt now c f coll j] assms(4) have "en = Some i" by blast
  with sc show ?thesis by blast
qed

lemma prepare_reserves:
  assumes "well_formed_prepare p" and "nt \<noteq> 0"
    and "kfsw_command_decode_args (Some p) Dest KFSW_COMMAND_MAX_ARGS Dest = Inr args"
    and "\<forall>e \<in> set c. entry_free now e \<or> (\<not> entry_named source p e \<and> tk_ticket e \<noteq> nt)"
    and "\<exists>e \<in> set c. entry_free now e"
  shows "\<exists>i < length c. kfsw_command_retry_dispatch env source p nt now (c, sys) =
    ((nt, \<lparr>rs_status = KFSW_COMMAND_OK, rs_detail = []\<rparr>),
     c[i := new_entry (env_window env) source p nt now], sys)"
proof -
  obtain f coll en where sc: "retry_scan source p nt now 0 c (None, False, None) = (f, coll, en)"
    by (metis prod.exhaust)
  have "en = None" "f \<noteq> None" "\<not> coll" using scan_result [OF sc] assms(4,5) by auto
  moreover from this obtain i where "f = Some i" by blast
  moreover from this have "i < length c" using free_entry sc by blast
  ultimately show ?thesis
    using sc assms(1-3) by (auto simp: kfsw_command_retry_dispatch_def well_formed_prepare_def Let_def)
qed

lemma decode_execute_request:
  "kfsw_command_decode_args (Some (execute_request p t)) Dest n Dest =
   kfsw_command_decode_args (Some p) Dest n Dest"
  by (auto simp: kfsw_command_decode_args_def execute_request_def split: sum.splits prod.splits)

lemma malformed_execute:
  "well_formed_prepare p \<Longrightarrow> t \<noteq> 0 \<Longrightarrow> \<not> retry_malformed (execute_request p t)"
  by (auto simp: well_formed_prepare_def retry_malformed_def execute_request_def)

lemma execute_first:
  assumes "retry_scan source q nt' now' 0 c (None, False, None) = (f, coll, Some i)"
    and "\<not> retry_malformed q" and "cm_opcode q = opcode_value KFSW_COMMAND_OP_EXECUTE"
    and "matches (c ! i) q" and "\<not> tk_complete (c ! i)"
    and "kfsw_command_decode_args (Some q) Dest KFSW_COMMAND_MAX_ARGS Dest = Inr args"
    and "kfsw_command_invoke_id (env_now_us env) (env_thread env) (env_registry env) (cm_command_id q) args
      (Some \<lparr>src_node = source, src_authenticated = False, src_via_csp = True\<rparr>) Dest sys =
        (Inr (rc, r), sys')"
  shows "kfsw_command_retry_dispatch env source q nt' now' (c, sys) =
    ((tk_ticket (c ! i), r), c[i := (c ! i)\<lparr>tk_result := r, tk_complete := True\<rparr>], sys')"
  using assms by (simp add: kfsw_command_retry_dispatch_def Let_def)

lemma execute_again:
  assumes "retry_scan source q nt' now' 0 c (None, False, None) = (f, coll, Some i)"
    and "\<not> retry_malformed q" and "cm_opcode q = opcode_value KFSW_COMMAND_OP_EXECUTE"
    and "matches (c ! i) q" and "tk_complete (c ! i)"
  shows "kfsw_command_retry_dispatch env source q nt' now' (c, sys) = ((tk_ticket (c ! i), tk_result (c ! i)), c, sys)"
  using assms by (simp add: kfsw_command_retry_dispatch_def Let_def)

text \<open>The entry of a reservation is the only one the execution names while the window lasts.\<close>

lemma scan_reserved:
  assumes "well_formed_prepare p" and "nt \<noteq> 0" and "i < length c" and "now \<le> now'" and "now' < now + window"
    and "\<forall>e \<in> set c. entry_free now e \<or> tk_ticket e \<noteq> nt"
    and "e = (new_entry window source p nt now)\<lparr>tk_result := r, tk_complete := b\<rparr>"
  shows "(\<exists>f coll. retry_scan source (execute_request p nt) nt' now' 0 (c[i := e]) (None, False, None) =
      (f, coll, Some i)) \<and> matches (c[i := e] ! i) (execute_request p nt)"
proof -
  let ?q = "execute_request p nt"
  have "entry_free now' (c[i := e] ! j) \<or> \<not> entry_named source ?q (c[i := e] ! j)"
    if "j < length (c[i := e])" "j \<noteq> i" for j
  proof -
    have "c ! j \<in> set c" using that by simp
    with assms(6) have "entry_free now (c ! j) \<or> tk_ticket (c ! j) \<noteq> nt" by blast
    with assms(4) that show ?thesis
      by (auto simp: entry_free_def entry_named_def execute_request_def)
  qed
  moreover have "\<not> entry_free now' e" "entry_named source ?q e" "matches e ?q"
    using assms by (auto simp: entry_free_def entry_named_def new_entry_def execute_request_def
        matches_def payload_bytes_def)
  ultimately show ?thesis using assms(3) scan_unique [of i "c[i := e]"] by simp
qed

section \<open>Properties\<close>


text \<open>
  A retry is answered. When the arguments of a well-formed prepare decode, its nonce names no live
  reservation of that node, a slot is free and the drawn ticket is fresh, the ticket is reserved; its
  execution within the window invokes the command with exactly those arguments and returns the result;
  and every further execution within the window returns the same result and changes nothing.
\<close>

theorem retry_prepare_execute_repeat:
  assumes "well_formed_prepare p" and "nt \<noteq> 0"
    and "kfsw_command_decode_args (Some p) Dest KFSW_COMMAND_MAX_ARGS Dest = Inr args"
    and "\<forall>e \<in> set c. entry_free now e \<or> (\<not> entry_named source p e \<and> tk_ticket e \<noteq> nt)"
    and "\<exists>e \<in> set c. entry_free now e"
    and "now \<le> now1" and "now1 < now + env_window env" and "now \<le> now2" and "now2 < now + env_window env"
    and "kfsw_command_invoke_id (env_now_us env) (env_thread env) (env_registry env) (cm_command_id p) args
      (Some \<lparr>src_node = source, src_authenticated = False, src_via_csp = True\<rparr>) Dest sys =
        (Inr (rc, r), sys1)"
  shows "\<exists>c1 c2. kfsw_command_retry_dispatch env source p nt now (c, sys) =
      ((nt, \<lparr>rs_status = KFSW_COMMAND_OK, rs_detail = []\<rparr>), c1, sys)
    \<and> kfsw_command_retry_dispatch env source (execute_request p nt) nt1 now1 (c1, sys) = ((nt, r), c2, sys1)
    \<and> kfsw_command_retry_dispatch env source (execute_request p nt) nt2 now2 (c2, sys2) = ((nt, r), c2, sys2)"
proof -
  let ?q = "execute_request p nt" and ?e = "new_entry (env_window env) source p nt now"
  obtain i where i: "i < length c" and prep: "kfsw_command_retry_dispatch env source p nt now (c, sys) =
      ((nt, \<lparr>rs_status = KFSW_COMMAND_OK, rs_detail = []\<rparr>), c[i := ?e], sys)"
    using prepare_reserves [OF assms(1-5)] by blast
  let ?done = "?e\<lparr>tk_result := r, tk_complete := True\<rparr>"
  have fresh: "\<forall>e \<in> set c. entry_free now e \<or> tk_ticket e \<noteq> nt" using assms(4) by blast
  have q: "\<not> retry_malformed ?q" "cm_opcode ?q = opcode_value KFSW_COMMAND_OP_EXECUTE"
    "kfsw_command_decode_args (Some ?q) Dest KFSW_COMMAND_MAX_ARGS Dest = Inr args"
    "cm_command_id ?q = cm_command_id p"
    using malformed_execute [OF assms(1,2)] decode_execute_request assms(3)
    by (simp_all add: execute_request_def)
  obtain f coll where s1: "retry_scan source ?q nt1 now1 0 (c[i := ?e]) (None, False, None) = (f, coll, Some i)"
    "matches (c[i := ?e] ! i) ?q"
    using scan_reserved [OF assms(1,2) i assms(6,7) fresh, where source = source and e = ?e
        and r = "tk_result ?e" and b = False and nt' = nt1] by (auto simp: new_entry_def)
  obtain f' coll' where s2: "retry_scan source ?q nt2 now2 0 (c[i := ?done]) (None, False, None) = (f', coll', Some i)"
    "matches (c[i := ?done] ! i) ?q"
    using scan_reserved [OF assms(1,2) i assms(8,9) fresh, where source = source and e = ?done
        and r = r and b = True and nt' = nt2] by auto
  have "kfsw_command_retry_dispatch env source ?q nt1 now1 (c[i := ?e], sys) = ((nt, r), c[i := ?done], sys1)"
    using execute_first [OF s1(1) q(1,2) s1(2) _ q(3)] assms(10) i q(4) by (simp add: new_entry_def)
  moreover have "kfsw_command_retry_dispatch env source ?q nt2 now2 (c[i := ?done], sys2) = ((nt, r), c[i := ?done], sys2)"
    using execute_again [OF s2(1) q(1,2) s2(2)] i by (simp add: new_entry_def)
  ultimately show ?thesis using prep by blast
qed


theorem retry_prepare_execute_repeat_witness:
  "\<exists>c1 c2 r sys1. kfsw_command_retry_dispatch demo_env 3 demo_prepare 5 0 ([empty_ticket], demo_system) =
      ((5, \<lparr>rs_status = KFSW_COMMAND_OK, rs_detail = []\<rparr>), c1, demo_system)
    \<and> kfsw_command_retry_dispatch demo_env 3 (execute_request demo_prepare 5) 0 10 (c1, demo_system) =
      ((5, r), c2, sys1) \<and> sys_world sys1 = 1
    \<and> kfsw_command_retry_dispatch demo_env 3 (execute_request demo_prepare 5) 0 20 (c2, sys1) = ((5, r), c2, sys1)"
proof -
  have pre: "well_formed_prepare demo_prepare"
    "kfsw_command_decode_args (Some demo_prepare) Dest KFSW_COMMAND_MAX_ARGS Dest = Inr []"
    "\<forall>e \<in> set [empty_ticket]. entry_free 0 e \<or> (\<not> entry_named 3 demo_prepare e \<and> tk_ticket e \<noteq> 5)"
    "\<exists>e \<in> set [empty_ticket]. entry_free 0 e" "env_window demo_env = 60000"
    by (simp_all add: well_formed_prepare_def retry_malformed_def demo_prepare_def payload_bytes_def
        kfsw_command_decode_args_def entry_free_def empty_ticket_def demo_env_def)
  obtain rc r sys1 where inv: "kfsw_command_invoke_id (env_now_us demo_env) (env_thread demo_env)
      (env_registry demo_env) (cm_command_id demo_prepare) []
      (Some \<lparr>src_node = 3, src_authenticated = False, src_via_csp = True\<rparr>) Dest demo_system =
        (Inr (rc, r), sys1)" "sys_world sys1 = 1"
    by (simp add: kfsw_command_invoke_id_def dispatch_def demo_env_def demo_prepare_def demo_system_def
        find_by_id_def check_arguments_def check_claim_def foreign_claim_def Let_def)
  show ?thesis
    using retry_prepare_execute_repeat [where nt = 5 and ?now1.0 = 10 and ?now2.0 = 20 and ?nt1.0 = 0 and ?nt2.0 = 0
        and ?sys2.0 = sys1, OF pre(1) _ pre(2-4) _ _ _ _ inv(1)] inv(2) pre(5)
    by auto
qed

end
