(* ===== verification/Command_Csp.thy ===== *)
theory Command_Csp
  imports Command_Retry
begin

text \<open>
  Remote commands over CSP, \<^verbatim>\<open>src/command/command_csp.c\<close>: the server that answers one request per
  connection, and the client that sends a request and checks the answer, with or without a ticket.

  CSP is not part of the sources. A packet is its list of bytes; what \<open>csp_read\<close> returns is an argument of
  the server (\<open>None\<close> when nothing arrives in time), and a successful \<open>csp_buffer_get\<close> a boolean. The
  client talks through a function \<open>transact\<close> from the destination, the sent bytes and the state of the
  network to an answer and the new state; it stands for connect, allocate, send and read.

  Proved: when the answer of the server reaches the client, the client reports exactly the status and
  detail of the server's invocation, with the arguments it passed.
\<close>

section \<open>The server\<close>

definition send_result ::
  "bool \<Rightarrow> kfsw_command_message \<Rightarrow> u64 \<Rightarrow> kfsw_command_result \<Rightarrow> bytes option" where
  "send_result buffer_available request token result =
     (let message = \<lparr>cm_version = cm_version request, cm_token = token,
            cm_opcode = (if cm_opcode request = opcode_value KFSW_COMMAND_OP_PREPARE
                         then opcode_value KFSW_COMMAND_OP_TICKET
                         else opcode_value KFSW_COMMAND_OP_RESULT),
            cm_status = status_value (rs_status result), cm_arg_count = 0,
            cm_command_id = cm_command_id request, cm_request_id = cm_request_id request,
            cm_payload_size = word_of_nat (length (rs_detail result)),
            cm_payload = Some (bytes_of_string (rs_detail result))\<rparr>
      in case kfsw_command_protocol_encode Dest
           (KFSW_COMMAND_RETRY_HEADER_SIZE + KFSW_COMMAND_MAX_PAYLOAD_SIZE) (Some message) Dest of
           Inl e \<Rightarrow> None
         | Inr buffer \<Rightarrow> if buffer_available then Some buffer else None)"

definition zero_message :: kfsw_command_message where
  "zero_message = \<lparr>cm_version = 0, cm_token = 0, cm_opcode = 0, cm_status = 0, cm_arg_count = 0,
     cm_command_id = 0, cm_request_id = 0, cm_payload_size = 0, cm_payload = None\<rparr>"

text \<open>
  What one connection of the server depends on: the node and registry (\<open>retry_env\<close>), whether the build
  has \<open>CONFIG_KFSW_COMMAND_RETRY\<close>, what the random generator returns, the uptime in milliseconds, and
  whether a reply buffer can be had.
\<close>

record 'w serve_env =
  sv_env :: "'w retry_env"
  sv_retry :: bool
  sv_csrand :: "(errno + u64) option"
  sv_now :: int
  sv_buffer :: bool

definition serve_request ::
  "'w serve_env \<Rightarrow> u16 \<Rightarrow> bytes option \<Rightarrow> kfsw_command_retry_cache \<times> 'w system
     \<Rightarrow> bytes option \<times> kfsw_command_retry_cache \<times> 'w system" where
  "serve_request sv source_node packet st =
     (case packet of
        None \<Rightarrow> (None, st)
      | Some data \<Rightarrow>
          let send = send_result (sv_buffer sv);
              invalid = \<lparr>rs_status = KFSW_COMMAND_INVALID_ARGUMENT, rs_detail = []\<rparr>
          in case kfsw_command_protocol_decode (Some data) (length data) Dest of
               Inl e \<Rightarrow> (send zero_message 0 invalid, st)
             | Inr request \<Rightarrow>
                 if cm_version request = 2 then
                   if sv_retry sv then
                     let fresh = (if cm_opcode request = opcode_value KFSW_COMMAND_OP_PREPARE
                                  then snd (kfsw_command_retry_random (sv_csrand sv)) else 0);
                         ((token, result), st') =
                           kfsw_command_retry_dispatch (sv_env sv) source_node request fresh (sv_now sv) st
                     in (send request token result, st')
                   else
                     (send request (cm_token request)
                        \<lparr>rs_status = KFSW_COMMAND_UNAVAILABLE, rs_detail = []\<rparr>, st)
                 else if cm_opcode request \<noteq> opcode_value KFSW_COMMAND_OP_REQUEST \<or> cm_status request \<noteq> 0 then
                   (send request (cm_token request) invalid, st)
                 else
                   (case kfsw_command_decode_args (Some request) Dest KFSW_COMMAND_MAX_ARGS Dest of
                      Inl e \<Rightarrow> (send request (cm_token request) invalid, st)
                    | Inr args \<Rightarrow>
                        let (cache, sys) = st;
                            (outcome, sys') =
                              kfsw_command_invoke_id (env_now_us (sv_env sv)) (env_thread (sv_env sv))
                                (env_registry (sv_env sv)) (cm_command_id request) args
                                (Some \<lparr>src_node = source_node, src_authenticated = False, src_via_csp = True\<rparr>)
                                Dest sys;
                            result = (case outcome of
                                        Inl e \<Rightarrow> \<lparr>rs_status = KFSW_COMMAND_OK, rs_detail = []\<rparr>
                                      | Inr (rc, r) \<Rightarrow> r)
                        in (send request (cm_token request) result, cache, sys')))"

record server_state =
  server_started :: bool
  thread_started :: bool

record kfsw_csp_info =
  csp_initialized :: bool
  csp_router_running :: bool
  csp_address :: u16

text \<open>One round of the server thread: a connection that \<open>csp_accept\<close> may return, and its first packet.\<close>

definition command_server_step ::
  "'w serve_env \<Rightarrow> (u16 \<times> bytes option) option \<Rightarrow> server_state \<times> kfsw_command_retry_cache \<times> 'w system
     \<Rightarrow> bytes option \<times> server_state \<times> kfsw_command_retry_cache \<times> 'w system" where
  "command_server_step sv accepted = (\<lambda>(server, st).
     if \<not> server_started server then (None, server, st)
     else
       (case accepted of
          None \<Rightarrow> (None, server, st)
        | Some (node, packet) \<Rightarrow>
            let (reply, st') = serve_request sv node packet st in (reply, server, st')))"

definition kfsw_command_server_start ::
  "'w registry_state \<Rightarrow> kfsw_csp_info \<Rightarrow> bool \<Rightarrow> bool \<Rightarrow> server_state \<Rightarrow> rc \<times> server_state" where
  "kfsw_command_server_start reg csp_info listens binds server =
     (if \<not> kfsw_command_is_initialized reg then (Some EACCES, server)
      else if server_started server then (None, server)
      else if \<not> csp_initialized csp_info \<or> \<not> csp_router_running csp_info then (Some EACCES, server)
      else if \<not> listens then (Some EIO, server)
      else if \<not> binds then (Some EADDRINUSE, server)
      else (None, \<lparr>server_started = True, thread_started = True\<rparr>))"

section \<open>The client\<close>

definition status_of_value :: "u8 \<Rightarrow> kfsw_command_status" where
  "status_of_value n =
     (if n = 0 then KFSW_COMMAND_OK else if n = 1 then KFSW_COMMAND_UNKNOWN
      else if n = 2 then KFSW_COMMAND_INVALID_ARGUMENT else if n = 3 then KFSW_COMMAND_DENIED
      else if n = 4 then KFSW_COMMAND_BUSY else if n = 5 then KFSW_COMMAND_FAILED
      else if n = 6 then KFSW_COMMAND_UNAVAILABLE else STATUS_OTHER n)"

definition receive_result ::
  "bytes option \<Rightarrow> kfsw_command_message \<Rightarrow> errno + u64 \<times> kfsw_command_result" where
  "receive_result packet request =
     (case packet of
        None \<Rightarrow> Inl ETIMEDOUT
      | Some data \<Rightarrow>
          (case kfsw_command_protocol_decode (Some data) (length data) Dest of
             Inl e \<Rightarrow> Inl EBADMSG
           | Inr response \<Rightarrow>
               let opcode = (if cm_opcode request = opcode_value KFSW_COMMAND_OP_PREPARE
                             then opcode_value KFSW_COMMAND_OP_TICKET
                             else opcode_value KFSW_COMMAND_OP_RESULT);
                   version = (if cm_version request \<noteq> 0 then cm_version request else 1)
               in if cm_version response \<noteq> version \<or> cm_opcode response \<noteq> opcode
                     \<or> cm_command_id response \<noteq> cm_command_id request
                     \<or> cm_request_id response \<noteq> cm_request_id request
                     \<or> cm_arg_count response \<noteq> 0
                     \<or> cm_status response > status_value KFSW_COMMAND_UNAVAILABLE
                     \<or> (version = 2 \<and> (cm_token response = 0
                          \<or> (cm_opcode request = opcode_value KFSW_COMMAND_OP_EXECUTE
                             \<and> cm_token response \<noteq> cm_token request)))
                  then Inl EBADMSG
                  else Inr (cm_token response,
                    \<lparr>rs_status = status_of_value (cm_status response),
                     rs_detail = c_string_of_bytes
                       (take (min (unat (cm_payload_size response)) (KFSW_COMMAND_MAX_DETAIL_SIZE - 1))
                          (payload_bytes response))\<rparr>)))"

datatype csp_answer = No_Connection | No_Buffer | No_Reply | Reply bytes

type_synonym 'n csp_link = "u16 \<Rightarrow> bytes \<Rightarrow> 'n \<Rightarrow> csp_answer \<times> 'n"

text \<open>
  One exchange; the token and the result keep their values when it fails. The outcome is \<open>None\<close> for 0.
\<close>

definition exchange ::
  "'n csp_link \<Rightarrow> u16 \<Rightarrow> kfsw_command_message \<Rightarrow> bytes \<Rightarrow> u64 \<times> kfsw_command_result \<times> 'n
     \<Rightarrow> rc \<times> u64 \<times> kfsw_command_result \<times> 'n" where
  "exchange transact node request buffer = (\<lambda>(token, result, net).
     let (answer, net') = transact node buffer net;
         received = (\<lambda>packet. case receive_result packet request of
                       Inl e \<Rightarrow> (Some e, token, result, net')
                     | Inr (token', result') \<Rightarrow> (None, token', result', net'))
     in case answer of
          No_Connection \<Rightarrow> (Some ECONNREFUSED, token, result, net')
        | No_Buffer \<Rightarrow> (Some ENOMEM, token, result, net')
        | No_Reply \<Rightarrow> received None
        | Reply data \<Rightarrow> received (Some data))"

text \<open>The loop over the attempts left, and the loop over the phases left.\<close>

fun attempt_loop ::
  "'n csp_link \<Rightarrow> u16 \<Rightarrow> kfsw_command_message \<Rightarrow> bytes \<Rightarrow> nat \<Rightarrow> rc \<times> u64 \<times> kfsw_command_result \<times> 'n
     \<Rightarrow> rc \<times> u64 \<times> kfsw_command_result \<times> 'n" where
  "attempt_loop transact node request buffer 0 st = st"
| "attempt_loop transact node request buffer (Suc n) (outcome, rest) =
     (let (outcome', rest') = exchange transact node request buffer rest
      in if outcome' \<noteq> Some ETIMEDOUT \<and> outcome' \<noteq> Some ECONNREFUSED then (outcome', rest')
         else attempt_loop transact node request buffer n (outcome', rest'))"

fun phase_loop ::
  "'n csp_link \<Rightarrow> u16 \<Rightarrow> nat \<Rightarrow> nat \<Rightarrow> kfsw_command_message \<Rightarrow> rc \<times> u64 \<times> kfsw_command_result \<times> 'n
     \<Rightarrow> rc \<times> kfsw_command_result \<times> 'n" where
  "phase_loop transact node attempts 0 request (outcome, token, result, net) = (outcome, result, net)"
| "phase_loop transact node attempts (Suc phases) request (outcome, token, result, net) =
     (case kfsw_command_protocol_encode Dest
        (KFSW_COMMAND_RETRY_HEADER_SIZE + KFSW_COMMAND_MAX_PAYLOAD_SIZE) (Some request) Dest of
        Inl e \<Rightarrow> (Some e, result, net)
      | Inr buffer \<Rightarrow>
          let (outcome', token', result', net') =
            attempt_loop transact node request buffer attempts (None, token, result, net)
          in if outcome' \<noteq> None \<or> rs_status result' \<noteq> KFSW_COMMAND_OK then (outcome', result', net')
             else phase_loop transact node attempts phases
                    (request\<lparr>cm_opcode := opcode_value KFSW_COMMAND_OP_EXECUTE, cm_token := token'\<rparr>)
                    (outcome', token', result', net'))"

text \<open>
  What an invocation depends on: the node's registry, thread and time for a local call, CSP's state and
  broadcast address, the random generator and whether the build has retry support. Its state is the
  static request counter, the node's system and the network.
\<close>

record 'w client_env =
  cl_env :: "'w retry_env"
  cl_csp_info :: kfsw_csp_info
  cl_broadcast :: u16
  cl_csrand :: "(errno + u64) option"
  cl_retry_built :: bool

definition invoke_remote ::
  "'n csp_link \<Rightarrow> 'w client_env \<Rightarrow> u16 \<Rightarrow> string option \<Rightarrow> kfsw_command_arg list \<Rightarrow> bool \<Rightarrow> dest
     \<Rightarrow> u16 \<times> 'w system \<times> 'n \<Rightarrow> rc \<times> kfsw_command_result option \<times> u16 \<times> 'w system \<times> 'n" where
  "invoke_remote transact cl node name args retry result = (\<lambda>(next_request_id, sys, net).
     if name = None \<or> result = Null \<or> node = 0 \<or> node \<ge> cl_broadcast cl then
       (Some EINVAL, None, next_request_id, sys, net)
     else if node = csp_address (cl_csp_info cl) then
       (case kfsw_command_invoke (env_now_us (cl_env cl)) (env_thread (cl_env cl)) (env_registry (cl_env cl))
               name args result sys of
          (Inl e, sys') \<Rightarrow> (Some e, None, next_request_id, sys', net)
        | (Inr (rc, r), sys') \<Rightarrow> (rc, Some r, next_request_id, sys', net))
     else if \<not> csp_initialized (cl_csp_info cl) \<or> \<not> csp_router_running (cl_csp_info cl) then
       (Some EACCES, None, next_request_id, sys, net)
     else
       let unavailable = \<lparr>rs_status = KFSW_COMMAND_UNAVAILABLE, rs_detail = []\<rparr>
       in case kfsw_command_lookup_id name Dest (env_registry (cl_env cl)) of
            Inl e \<Rightarrow> (Some e, Some unavailable, next_request_id, sys, net)
          | Inr command_id \<Rightarrow>
              (case kfsw_command_encode_args (Some args) (length args) Dest KFSW_COMMAND_MAX_PAYLOAD_SIZE Dest of
                 Inl e \<Rightarrow> (Some e, Some unavailable, next_request_id, sys, net)
               | Inr payload \<Rightarrow>
                   let request_id = next_request_id + 1;
                       request = \<lparr>cm_version = 0, cm_token = 0, cm_opcode = opcode_value KFSW_COMMAND_OP_REQUEST,
                         cm_status = 0, cm_arg_count = word_of_nat (length args), cm_command_id = command_id,
                         cm_request_id = request_id, cm_payload_size = word_of_nat (length payload),
                         cm_payload = Some payload\<rparr>;
                       (random_rc, nonce) =
                         (if cl_retry_built cl then kfsw_command_retry_random (cl_csrand cl)
                          else (Some ENOTSUP, 0))
                   in if retry \<and> random_rc \<noteq> None then
                        (random_rc, Some unavailable, request_id, sys, net)
                      else
                        let request' = (if retry then request\<lparr>cm_version := 2, cm_token := nonce,
                                          cm_opcode := opcode_value KFSW_COMMAND_OP_PREPARE\<rparr> else request);
                            (outcome, r, net') =
                              phase_loop transact node (if retry then 3 else 1) (if retry then 2 else 1)
                                request' (None, 0, unavailable, net)
                        in (outcome, Some r, request_id, sys, net')))"

definition kfsw_command_invoke_remote ::
  "'n csp_link \<Rightarrow> 'w client_env \<Rightarrow> u16 \<Rightarrow> string option \<Rightarrow> kfsw_command_arg list \<Rightarrow> dest
     \<Rightarrow> u16 \<times> 'w system \<times> 'n \<Rightarrow> rc \<times> kfsw_command_result option \<times> u16 \<times> 'w system \<times> 'n" where
  "kfsw_command_invoke_remote transact cl node name args result =
     invoke_remote transact cl node name args False result"

definition kfsw_command_invoke_remote_retry ::
  "'n csp_link \<Rightarrow> 'w client_env \<Rightarrow> u16 \<Rightarrow> string option \<Rightarrow> kfsw_command_arg list \<Rightarrow> dest
     \<Rightarrow> u16 \<times> 'w system \<times> 'n \<Rightarrow> rc \<times> kfsw_command_result option \<times> u16 \<times> 'w system \<times> 'n" where
  "kfsw_command_invoke_remote_retry transact cl node name args result =
     invoke_remote transact cl node name args True result"

section \<open>Client and server together\<close>

text \<open>A link that hands the client's packet to a server and its reply back.\<close>

definition server_link ::
  "'v serve_env \<Rightarrow> u16 \<Rightarrow> (kfsw_command_retry_cache \<times> 'v system) csp_link" where
  "server_link sv client node packet st =
     (let (reply, st') = serve_request sv client (Some packet) st
      in (case reply of None \<Rightarrow> No_Reply | Some data \<Rightarrow> Reply data, st'))"

text \<open>A result the protocol can carry: a status of the enumeration and a detail that fits its field.\<close>

definition result_deliverable :: "kfsw_command_result \<Rightarrow> bool" where
  "result_deliverable r \<longleftrightarrow> status_value (rs_status r) \<le> 6 \<and> status_of_value (status_value (rs_status r)) = rs_status r
     \<and> length (rs_detail r) < KFSW_COMMAND_MAX_DETAIL_SIZE \<and> c_string (rs_detail r)"

definition on_wire :: "kfsw_command_message \<Rightarrow> kfsw_command_message" where
  "on_wire m = (if cm_version m = 0 then m\<lparr>cm_version := 1\<rparr> else m)"

text \<open>The request of a plain invocation.\<close>

definition plain_request :: "u16 \<Rightarrow> u16 \<Rightarrow> kfsw_command_arg list \<Rightarrow> kfsw_command_message" where
  "plain_request command_id request_id args =
     \<lparr>cm_version = 0, cm_token = 0, cm_opcode = opcode_value KFSW_COMMAND_OP_REQUEST, cm_status = 0,
      cm_arg_count = word_of_nat (length args), cm_command_id = command_id, cm_request_id = request_id,
      cm_payload_size = word_of_nat (length (args_bytes args)), cm_payload = Some (args_bytes args)\<rparr>"

definition args_carried :: "kfsw_command_arg list \<Rightarrow> bool" where
  "args_carried args \<longleftrightarrow> (\<forall>a \<in> set args. arg_wf a) \<and> length args \<le> 4 \<and> length (args_bytes args) \<le> 192"

text \<open>The server and the client the witness below uses.\<close>

definition demo_server :: "nat serve_env" where
  "demo_server = \<lparr>sv_env = demo_env, sv_retry = True, sv_csrand = Some (Inr 77), sv_now = 0, sv_buffer = True\<rparr>"

definition demo_client :: "nat client_env" where
  "demo_client = \<lparr>cl_env = demo_env, cl_csp_info = \<lparr>csp_initialized = True, csp_router_running = True,
     csp_address = 1\<rparr>, cl_broadcast = 16383, cl_csrand = None, cl_retry_built = False\<rparr>"

lemma encode_on_wire:
  "kfsw_command_protocol_encode Dest n (Some (on_wire m)) Dest = kfsw_command_protocol_encode Dest n (Some m) Dest"
  by (auto simp: kfsw_command_protocol_encode_def on_wire_def command_sizes Let_def split: option.splits)

lemma on_wire_sel [simp]:
  "cm_opcode (on_wire m) = cm_opcode m" "cm_token (on_wire m) = cm_token m"
  "cm_command_id (on_wire m) = cm_command_id m" "cm_request_id (on_wire m) = cm_request_id m"
  "cm_status (on_wire m) = cm_status m" "cm_arg_count (on_wire m) = cm_arg_count m"
  "cm_payload_size (on_wire m) = cm_payload_size m" "cm_payload (on_wire m) = cm_payload m"
  "cm_version (on_wire m) = (if cm_version m = 0 then 1 else cm_version m)"
  by (simp_all add: on_wire_def)

lemma request_reaches_server:
  assumes "message_wf (on_wire m)"
  shows "\<exists>b. kfsw_command_protocol_encode Dest 212 (Some m) Dest = Inr b
    \<and> kfsw_command_protocol_decode (Some b) (length b) Dest = Inr (on_wire m)"
  using encode_header_total [OF assms, of 212] decode_encode_header [OF assms]
  by (auto simp: encode_on_wire)

lemma reply_reaches_client:
  assumes "result_deliverable r" and "message_wf (on_wire q)"
    and "cm_version q \<noteq> 2 \<Longrightarrow> token = 0" and "cm_version q = 2 \<Longrightarrow> token \<noteq> 0"
    and "cm_opcode q = opcode_value KFSW_COMMAND_OP_EXECUTE \<Longrightarrow> cm_version q = 2 \<and> token = cm_token q"
    and "cm_opcode q = opcode_value KFSW_COMMAND_OP_PREPARE \<Longrightarrow> cm_version q = 2"
  shows "\<exists>b. send_result True (on_wire q) token r = Some b \<and> receive_result (Some b) q = Inr (token, r)"
proof -
  define m where "m = \<lparr>cm_version = cm_version (on_wire q), cm_token = token,
      cm_opcode = (if cm_opcode q = opcode_value KFSW_COMMAND_OP_PREPARE
                   then opcode_value KFSW_COMMAND_OP_TICKET else opcode_value KFSW_COMMAND_OP_RESULT),
      cm_status = status_value (rs_status r), cm_arg_count = 0,
      cm_command_id = cm_command_id q, cm_request_id = cm_request_id q,
      cm_payload_size = word_of_nat (length (rs_detail r)),
      cm_payload = Some (bytes_of_string (rs_detail r))\<rparr>"
  have len: "length (rs_detail r) \<le> 95" using assms(1) by (simp add: result_deliverable_def command_sizes)
  then have u: "unat (word_of_nat (length (rs_detail r)) :: u16) = length (rs_detail r)"
    by (simp add: unat_word_of_nat_small)
  have v: "cm_version (on_wire q) = 1 \<or> cm_version (on_wire q) = 2"
    using assms(2) by (auto simp: message_wf_def)
  then have wf: "message_wf m"
    using assms(3,6) len u by (auto simp: m_def message_wf_def command_sizes split: if_splits)
  obtain b where b: "kfsw_command_protocol_encode Dest 212 (Some m) Dest = Inr b"
    using encode_header_total [OF wf] by auto
  have d: "kfsw_command_protocol_decode (Some b) (length b) Dest = Inr m"
    by (rule decode_encode_header [OF wf b])
  have "send_result True (on_wire q) token r = Some b"
    using b by (simp add: send_result_def m_def Let_def command_sizes split del: if_split)
  moreover have "\<not> 6 < status_value (rs_status r)" using assms(1) by (simp add: result_deliverable_def not_less)
  moreover have "rs_detail r = c_string_of_bytes (take (length (rs_detail r)) (bytes_of_string (rs_detail r)))"
    using assms(1) by (simp add: result_deliverable_def)
  ultimately show ?thesis
    using assms u len d
    by (auto simp: receive_result_def Let_def m_def payload_bytes_def result_deliverable_def
        command_sizes min_def)
qed

lemma plain_request_wf:
  assumes "args_carried args"
  shows "message_wf (on_wire (plain_request c q args))"
    and "kfsw_command_decode_args (Some (on_wire (plain_request c q args))) Dest KFSW_COMMAND_MAX_ARGS Dest = Inr args"
proof -
  have u: "unat (word_of_nat (length args) :: u8) = length args"
    "unat (word_of_nat (length (args_bytes args)) :: u16) = length (args_bytes args)"
    using assms by (simp_all add: args_carried_def unat_word_of_nat_small)
  show "message_wf (on_wire (plain_request c q args))"
    using assms u by (auto simp: message_wf_def plain_request_def args_carried_def command_sizes)
  show "kfsw_command_decode_args (Some (on_wire (plain_request c q args))) Dest KFSW_COMMAND_MAX_ARGS Dest = Inr args"
    by (rule decode_args_bytes)
      (use assms u in \<open>auto simp: plain_request_def args_carried_def command_sizes\<close>)
qed

lemma served_plain_request:
  assumes "args_carried args" and "sv_buffer sv" and "result_deliverable r"
    and "kfsw_command_invoke_id (env_now_us (sv_env sv)) (env_thread (sv_env sv)) (env_registry (sv_env sv)) c args
      (Some \<lparr>src_node = client, src_authenticated = False, src_via_csp = True\<rparr>) Dest sys = (Inr (rc, r), sys')"
    and "kfsw_command_protocol_encode Dest 212 (Some (plain_request c q args)) Dest = Inr b"
  shows "\<exists>d. serve_request sv client (Some b) (cache, sys) = (Some d, cache, sys')
    \<and> receive_result (Some d) (plain_request c q args) = Inr (0, r)"
proof -
  let ?m = "plain_request c q args"
  have dec: "kfsw_command_protocol_decode (Some b) (length b) Dest = Inr (on_wire ?m)"
    using request_reaches_server [OF plain_request_wf(1) [OF assms(1)], of c q] assms(5) by auto
  obtain d where d: "send_result True (on_wire ?m) 0 r = Some d" "receive_result (Some d) ?m = Inr (0, r)"
    using reply_reaches_client [OF assms(3) plain_request_wf(1) [OF assms(1)], of c q 0]
    by (auto simp: plain_request_def)
  have m: "cm_version (on_wire ?m) \<noteq> 2" "cm_opcode ?m = opcode_value KFSW_COMMAND_OP_REQUEST"
    "cm_status ?m = 0" "cm_token ?m = 0" "cm_command_id ?m = c"
    by (simp_all add: plain_request_def)
  show ?thesis
    using dec d m plain_request_wf(2) [OF assms(1), of c q] assms(2,4)
    by (simp add: serve_request_def Let_def)
qed

section \<open>Properties\<close>

text \<open>
  C28. Across the link. A client that knows the command and passes up to four carried arguments that fit
  one request, connected to a server whose reply reaches it, returns success with exactly the status
  and detail that the server's own invocation of that command with these arguments produced, and the
  server's system is the one that invocation left. The server sees the client's node as the source.
\<close>

theorem remote_invocation_delivers:
  assumes "args_carried args" and "node \<noteq> 0" and "node < cl_broadcast cl"
    and "node \<noteq> csp_address (cl_csp_info cl)" and "csp_initialized (cl_csp_info cl)"
    and "csp_router_running (cl_csp_info cl)"
    and "kfsw_command_lookup_id (Some name) Dest (env_registry (cl_env cl)) = Inr c"
    and "sv_buffer sv" and "result_deliverable r"
    and "kfsw_command_invoke_id (env_now_us (sv_env sv)) (env_thread (sv_env sv)) (env_registry (sv_env sv)) c args
      (Some \<lparr>src_node = client, src_authenticated = False, src_via_csp = True\<rparr>) Dest remote = (Inr (rc, r), remote')"
  shows "kfsw_command_invoke_remote (server_link sv client) cl node (Some name) args Dest
      (next_id, sys, cache, remote) = (None, Some r, next_id + 1, sys, cache, remote')"
proof -
  let ?m = "plain_request c (next_id + 1) args"
  obtain b where b: "kfsw_command_protocol_encode Dest 212 (Some ?m) Dest = Inr b"
    using request_reaches_server [OF plain_request_wf(1) [OF assms(1)], of c "next_id + 1"] by auto
  obtain d where d: "serve_request sv client (Some b) (cache, remote) = (Some d, cache, remote')"
    "receive_result (Some d) ?m = Inr (0, r)"
    using served_plain_request [OF assms(1,8,9,10) b, of cache] by blast
  have enc: "kfsw_command_encode_args (Some args) (length args) Dest KFSW_COMMAND_MAX_PAYLOAD_SIZE Dest =
      Inr (args_bytes args)"
    using assms(1) encode_args_bytes [of args 192] by (simp add: args_carried_def command_sizes)
  have "phase_loop (server_link sv client) node 1 1 ?m
      (None, 0, \<lparr>rs_status = KFSW_COMMAND_UNAVAILABLE, rs_detail = []\<rparr>, cache, remote) = (None, r, cache, remote')"
    using b d by (simp add: exchange_def server_link_def command_sizes)
  with assms enc show ?thesis
    unfolding kfsw_command_invoke_remote_def invoke_remote_def plain_request_def
    by (simp add: Let_def split: prod.splits)
qed

theorem remote_invocation_delivers_witness:
  "\<exists>remote'. kfsw_command_invoke_remote (server_link demo_server 1) demo_client 2 (Some ''count'') [] Dest
      (0, demo_system, [], demo_system) =
        (None, Some \<lparr>rs_status = KFSW_COMMAND_OK, rs_detail = []\<rparr>, 1, demo_system, [], remote')
    \<and> sys_world remote' = 1"
proof -
  obtain rc r remote' where inv: "kfsw_command_invoke_id (env_now_us (sv_env demo_server))
      (env_thread (sv_env demo_server)) (env_registry (sv_env demo_server)) 7 []
      (Some \<lparr>src_node = 1, src_authenticated = False, src_via_csp = True\<rparr>) Dest demo_system =
        (Inr (rc, r), remote')" "r = \<lparr>rs_status = KFSW_COMMAND_OK, rs_detail = []\<rparr>" "sys_world remote' = 1"
    by (simp add: kfsw_command_invoke_id_def dispatch_def demo_server_def demo_env_def demo_system_def
        find_by_id_def check_arguments_def check_claim_def foreign_claim_def Let_def)
  moreover have "args_carried []" "result_deliverable \<lparr>rs_status = KFSW_COMMAND_OK, rs_detail = []\<rparr>"
    "kfsw_command_lookup_id (Some ''count'') Dest (env_registry (cl_env demo_client)) = Inr 7"
    by (simp_all add: args_carried_def result_deliverable_def status_of_value_def command_sizes c_string_def
        kfsw_command_lookup_id_def demo_client_def demo_env_def find_by_name_def)
  ultimately show ?thesis
    using remote_invocation_delivers [of "[]" 2 demo_client "''count''" 7 demo_server r 1 demo_system rc remote'
        0 demo_system "[]"]
    by (simp add: demo_client_def demo_server_def)
qed

end
