(* ===== verification/Gndwdt.thy ===== *)
theory Gndwdt
  imports Command_Csp
begin

text \<open>
  The ground watchdog, \<^verbatim>\<open>src/gndwdt/gndwdt.c\<close> with the types of \<^verbatim>\<open>include/kfsw/services/gndwdt.h\<close>: the node
  resets itself when no valid feed arrives over CSP before the timeout.

  \<open>gndwdt_state\<close> holds the file's static variables, and whether its two delayed works are scheduled. The
  64-bit monotonic clock in milliseconds is an argument. The command handler \<open>ground_wtd\<close> is a handler of
  the command service whose world is this state, so it can be registered and dispatched as in
  \<open>Command\<close>. Kconfig's bounds on the timeout are arguments.

  Proved: a dispatched \<open>ground_wtd\<close> restarts the countdown exactly for the feed word over CSP while the
  service runs and no reset is decided; the periodic check decides a reset exactly when the watchdog is
  armed and the timeout has passed; and a decided reset is called off by stopping the service only.
\<close>

section \<open>Types and operations\<close>

definition KFSW_EVENT_GNDWDT_EXPIRED :: u16 where "KFSW_EVENT_GNDWDT_EXPIRED = 1"
definition KFSW_COMMAND_ID_GROUND_WTD :: u16 where "KFSW_COMMAND_ID_GROUND_WTD = 16"
definition KFSW_GNDWDT_FEED_WORD :: string where "KFSW_GNDWDT_FEED_WORD = ''KFSWWSFK''"

record gndwdt_state =
  last_contact_ms :: u64
  contacts :: u32
  last_node :: u16
  timeout_s :: u32
  expiries :: u32
  gw_enabled :: bool
  gw_running :: bool
  resetting :: bool
  gndwdt_work :: bool
  gndwdt_reset_work :: bool

record kfsw_gndwdt_status =
  gs_timeout_s :: u32
  gs_since_contact_s :: u32
  gs_remaining_s :: u32
  gs_contacts :: u32
  gs_expiries :: u32
  gs_last_node :: u16
  gs_enabled :: bool
  gs_running :: bool

definition restart_countdown :: "u64 \<Rightarrow> gndwdt_state \<Rightarrow> gndwdt_state" where
  "restart_countdown now st = st\<lparr>last_contact_ms := now\<rparr>"

definition kfsw_gndwdt_start :: "u64 \<Rightarrow> gndwdt_state \<Rightarrow> rc \<times> gndwdt_state" where
  "kfsw_gndwdt_start now st =
     (if gw_running st then (Some EALREADY, st)
      else (None, (restart_countdown now (st\<lparr>gw_running := True\<rparr>))\<lparr>gndwdt_work := True\<rparr>))"

definition kfsw_gndwdt_stop :: "gndwdt_state \<Rightarrow> rc \<times> gndwdt_state" where
  "kfsw_gndwdt_stop st =
     (if \<not> gw_running st then (Some EALREADY, st)
      else (None, st\<lparr>gw_running := False, resetting := False, gndwdt_reset_work := False,
                     gndwdt_work := False\<rparr>))"

definition kfsw_gndwdt_get_status :: "u64 \<Rightarrow> dest \<Rightarrow> gndwdt_state \<Rightarrow> kfsw_gndwdt_status option" where
  "kfsw_gndwdt_get_status now status st =
     (if status = Null then None
      else
        let elapsed_ms = now - last_contact_ms st;
            since = (if elapsed_ms div 1000 < 0xFFFFFFFF then ucast (elapsed_ms div 1000) else UINT32_MAX)
        in Some \<lparr>gs_timeout_s = timeout_s st, gs_since_contact_s = since,
                 gs_remaining_s = (if \<not> gw_running st \<or> resetting st \<or> since \<ge> timeout_s st then 0
                                   else timeout_s st - since),
                 gs_contacts = contacts st, gs_expiries = expiries st, gs_last_node = last_node st,
                 gs_enabled = gw_enabled st, gs_running = gw_running st\<rparr>)"

definition ground_wtd_reply :: "u64 \<Rightarrow> gndwdt_state \<Rightarrow> kfsw_command_result \<Rightarrow> kfsw_command_result" where
  "ground_wtd_reply now st result =
     (case kfsw_gndwdt_get_status now Dest st of
        None \<Rightarrow> result
      | Some status \<Rightarrow>
          \<lparr>rs_status = KFSW_COMMAND_OK,
           rs_detail = take (KFSW_COMMAND_MAX_DETAIL_SIZE - 1)
             (''ground_wtd_cnt='' @ decimal (unat (gs_remaining_s status))
              @ '' ground_wtd_timeout='' @ decimal (unat (gs_timeout_s status)))\<rparr>)"

text \<open>
  The handler reads the text of its first argument; the dispatch has checked that there is one. \<open>now\<close>
  is the time it runs at.
\<close>

definition arg_text :: "kfsw_command_arg list \<Rightarrow> string" where
  "arg_text args = (case args of ARG_TEXT (Some t) # _ \<Rightarrow> t | _ \<Rightarrow> [])"

definition ground_wtd :: "u64 \<Rightarrow> gndwdt_state kfsw_command_handler" where
  "ground_wtd now args source result sys =
     (let st = sys_world sys
      in if arg_text args = ''get'' then (None, ground_wtd_reply now st result, sys)
         else if \<not> src_via_csp source \<or> arg_text args \<noteq> KFSW_GNDWDT_FEED_WORD then
           (Some EACCES, result\<lparr>rs_status := KFSW_COMMAND_DENIED\<rparr>, sys)
         else if \<not> gw_running st \<or> resetting st then
           (Some EAGAIN, result\<lparr>rs_status := KFSW_COMMAND_UNAVAILABLE\<rparr>, sys)
         else
           let st1 = (restart_countdown now st)\<lparr>last_node := src_node source,
                       contacts := saturating_increment (contacts st)\<rparr>
           in (None, ground_wtd_reply now st1 result, sys\<lparr>sys_world := st1\<rparr>))"

definition ground_wtd_command :: "u64 \<Rightarrow> gndwdt_state kfsw_command_definition" where
  "ground_wtd_command now =
     \<lparr>cd_id = KFSW_COMMAND_ID_GROUND_WTD, cd_name = Some ''ground_wtd'',
      cd_help = Some ''Ground watchdog: get, or KFSWWSFK to feed over CSP.'', cd_flags = 1,
      cd_arg_count = 1, cd_arg_types = Some [KFSW_COMMAND_TYPE_TEXT], cd_handler = Some (ground_wtd now)\<rparr>"

definition kfsw_gndwdt_command_definitions :: "u64 \<Rightarrow> gndwdt_state kfsw_command_definition_set" where
  "kfsw_gndwdt_command_definitions now = \<lparr>ds_commands = Some [ground_wtd_command now], ds_count = 1\<rparr>"

text \<open>
  \<open>own_address\<close> is whether CSP finds the node among this node's interfaces.
\<close>

definition kfsw_gndwdt_remote ::
  "'n csp_link \<Rightarrow> 'w client_env \<Rightarrow> bool \<Rightarrow> u16 \<Rightarrow> bool \<Rightarrow> dest \<Rightarrow> u16 \<times> 'w system \<times> 'n
     \<Rightarrow> rc \<times> kfsw_command_result option \<times> u16 \<times> 'w system \<times> 'n" where
  "kfsw_gndwdt_remote transact cl own_address node feed result st =
     (if node = 0 \<or> result = Null \<or> own_address then (Some EINVAL, None, st)
      else kfsw_command_invoke_remote transact cl node (Some ''ground_wtd'')
             [ARG_TEXT (Some (if feed then KFSW_GNDWDT_FEED_WORD else ''get''))] result st)"

definition kfsw_gndwdt_evaluate ::
  "u64 \<Rightarrow> u64 \<Rightarrow> gndwdt_state \<times> event_state \<Rightarrow> rc \<times> gndwdt_state \<times> event_state" where
  "kfsw_gndwdt_evaluate now now_us = (\<lambda>(st, ev).
     if \<not> gw_running st \<or> \<not> gw_enabled st \<or> resetting st then (None, st, ev)
     else if unat ((now - last_contact_ms st) div 1000) < unat (timeout_s st) then (None, st, ev)
     else
       (Some ETIMEDOUT, restart_countdown now (st\<lparr>expiries := saturating_increment (expiries st)\<rparr>),
        kfsw_event_emit \<lparr>rq_source = source_value KFSW_EVENT_SOURCE_GNDWDT, rq_id = KFSW_EVENT_GNDWDT_EXPIRED,
          rq_severity = severity_value KFSW_EVENT_CRITICAL, rq_payload = Some (sys_put_be32 (timeout_s st)),
          rq_payload_size = 4, rq_now_us = now_us\<rparr> ev))"

definition kfsw_gndwdt_set_timeout_s :: "u32 \<Rightarrow> u32 \<Rightarrow> u32 \<Rightarrow> gndwdt_state \<Rightarrow> rc \<times> gndwdt_state" where
  "kfsw_gndwdt_set_timeout_s min_s max_s value st =
     (if value < min_s \<or> value > max_s then (Some ERANGE, st) else (None, st\<lparr>timeout_s := value\<rparr>))"

definition kfsw_gndwdt_set_enabled :: "bool \<Rightarrow> gndwdt_state \<Rightarrow> gndwdt_state" where
  "kfsw_gndwdt_set_enabled value st = st\<lparr>gw_enabled := value\<rparr>"

text \<open>The periodic work: it is rescheduled while the service runs.\<close>

definition gndwdt_work_handler ::
  "u64 \<Rightarrow> u64 \<Rightarrow> gndwdt_state \<times> event_state \<Rightarrow> gndwdt_state \<times> event_state" where
  "gndwdt_work_handler now now_us s =
     (let (rc, st, ev) = kfsw_gndwdt_evaluate now now_us s;
          st1 = (if rc = Some ETIMEDOUT \<and> \<not> resetting st
                 then st\<lparr>resetting := True, gndwdt_reset_work := True\<rparr> else st)
      in (if gw_running st1 then st1\<lparr>gndwdt_work := True\<rparr> else st1\<lparr>gndwdt_work := False\<rparr>, ev))"

text \<open>The delayed reset work reboots the node: whether it runs is whether it is scheduled.\<close>

definition gndwdt_reset_handler :: "gndwdt_state \<Rightarrow> bool" where
  "gndwdt_reset_handler st = gndwdt_reset_work st"

section \<open>Runs\<close>

text \<open>The operations on the service, with the time each runs at.\<close>

datatype gndwdt_op =
    Start | Stop | Check | Set_Timeout u32 u32 u32 | Set_Enabled bool
  | Command kfsw_command_source "kfsw_command_arg list"

fun gndwdt_step :: "u64 \<times> gndwdt_op \<Rightarrow> gndwdt_state system \<Rightarrow> gndwdt_state system" where
  "gndwdt_step (now, Start) sys = sys\<lparr>sys_world := snd (kfsw_gndwdt_start now (sys_world sys))\<rparr>"
| "gndwdt_step (now, Stop) sys = sys\<lparr>sys_world := snd (kfsw_gndwdt_stop (sys_world sys))\<rparr>"
| "gndwdt_step (now, Check) sys =
     (let (st, ev) = gndwdt_work_handler now (now * 1000) (sys_world sys, sys_event sys)
      in sys\<lparr>sys_world := st, sys_event := ev\<rparr>)"
| "gndwdt_step (now, Set_Timeout min_s max_s value) sys =
     sys\<lparr>sys_world := snd (kfsw_gndwdt_set_timeout_s min_s max_s value (sys_world sys))\<rparr>"
| "gndwdt_step (now, Set_Enabled value) sys = sys\<lparr>sys_world := kfsw_gndwdt_set_enabled value (sys_world sys)\<rparr>"
| "gndwdt_step (now, Command source args) sys = snd (snd (ground_wtd now args source
     \<lparr>rs_status = KFSW_COMMAND_OK, rs_detail = []\<rparr> sys))"

definition reset_pending :: "gndwdt_state \<Rightarrow> bool" where
  "reset_pending st \<longleftrightarrow> gw_running st \<and> resetting st \<and> gndwdt_reset_work st"

text \<open>An armed service with a timeout of a minute, which the witnesses below use.\<close>

definition demo_gndwdt :: gndwdt_state where
  "demo_gndwdt = \<lparr>last_contact_ms = 0, contacts = 0, last_node = 0, timeout_s = 60, expiries = 0,
     gw_enabled = True, gw_running = True, resetting = False, gndwdt_work = True, gndwdt_reset_work = False\<rparr>"

definition demo_ground :: "gndwdt_state system" where
  "demo_ground = \<lparr>sys_command = \<lparr>claim = \<lparr>cl_owner = None, cl_mode = KFSW_COMMAND_CLAIM_SHARED,
       cl_name = [], cl_intrusions = 0, cl_refusals = 0, cl_held = False\<rparr>,
     command_invoked = 0, command_failed = 0, command_unknown = 0, command_rejected = 0,
     command_timeout_ms = 5000\<rparr>, sys_event = event_init 4,
     sys_world = demo_gndwdt\<lparr>resetting := True, gndwdt_reset_work := True\<rparr>\<rparr>"

section \<open>Lemmas\<close>

lemma seconds_passed:
  "unat (t :: u32) \<le> unat (d div 1000 :: u64) \<longleftrightarrow> unat t * 1000 \<le> unat d"
  by (simp add: unat_div less_eq_div_iff_mult_less_eq)

lemma work_handler_pending:
  assumes "gw_running st" and "\<not> resetting st"
  shows "reset_pending (fst (gndwdt_work_handler now now_us (st, ev))) \<longleftrightarrow>
    gw_enabled st \<and> unat (timeout_s st) * 1000 \<le> unat (now - last_contact_ms st)"
  using assms seconds_passed [of "timeout_s st" "now - last_contact_ms st"]
  by (auto simp: reset_pending_def gndwdt_work_handler_def kfsw_gndwdt_evaluate_def restart_countdown_def
      Let_def split: prod.splits)

lemma pending_step:
  assumes "reset_pending (sys_world sys)" and "opn \<noteq> Stop"
  shows "sys_world (gndwdt_step (now, opn) sys) =
    (sys_world sys)\<lparr>gndwdt_work := gndwdt_work (sys_world (gndwdt_step (now, opn) sys)),
       timeout_s := timeout_s (sys_world (gndwdt_step (now, opn) sys)),
       gw_enabled := gw_enabled (sys_world (gndwdt_step (now, opn) sys))\<rparr>"
  using assms
  by (cases opn) (auto simp: reset_pending_def kfsw_gndwdt_start_def gndwdt_work_handler_def
      kfsw_gndwdt_evaluate_def kfsw_gndwdt_set_timeout_s_def kfsw_gndwdt_set_enabled_def ground_wtd_def Let_def)

lemma pending_run:
  assumes "reset_pending (sys_world sys)" and "Stop \<notin> snd ` set ops"
  shows "reset_pending (sys_world (fold gndwdt_step ops sys))
    \<and> contacts (sys_world (fold gndwdt_step ops sys)) = contacts (sys_world sys)
    \<and> expiries (sys_world (fold gndwdt_step ops sys)) = expiries (sys_world sys)"
  using assms
proof (induction ops arbitrary: sys)
  case (Cons x ops)
  obtain now opn where x: "x = (now, opn)" by (cases x)
  with Cons.prems have "opn \<noteq> Stop" by auto
  then obtain a b c where "sys_world (gndwdt_step x sys) =
      (sys_world sys)\<lparr>gndwdt_work := a, timeout_s := b, gw_enabled := c\<rparr>"
    using pending_step [OF Cons.prems(1), of opn now] x by blast
  then have "reset_pending (sys_world (gndwdt_step x sys))"
    "contacts (sys_world (gndwdt_step x sys)) = contacts (sys_world sys)"
    "expiries (sys_world (gndwdt_step x sys)) = expiries (sys_world sys)"
    using Cons.prems(1) by (simp_all add: reset_pending_def)
  with Cons.IH [of "gndwdt_step x sys"] Cons.prems(2) show ?case by auto
qed simp

lemma ground_wtd_arguments:
  "check_arguments (ground_wtd_command now) args = KFSW_COMMAND_OK \<longleftrightarrow> (\<exists>t. args = [ARG_TEXT (Some t)])"
proof
  assume "check_arguments (ground_wtd_command now) args = KFSW_COMMAND_OK"
  then obtain a where "args = [a]" "arg_type a = KFSW_COMMAND_TYPE_TEXT" "a \<noteq> ARG_TEXT None"
    by (auto simp: check_arguments_def ground_wtd_command_def length_Suc_conv split: if_splits)
  then show "\<exists>t. args = [ARG_TEXT (Some t)]" by (cases a) auto
qed (auto simp: check_arguments_def ground_wtd_command_def)

lemma at_handler_world [simp]: "sys_world (at_handler current sys) = sys_world sys"
  by (simp add: at_handler_def Let_def)

section \<open>Properties\<close>

text \<open>
  C8. Whatever reaches the command service, a dispatched \<open>ground_wtd\<close> restarts the countdown exactly when
  the invocation may run, came over CSP, carries the feed word and nothing else, the service runs and no
  reset is decided; then the feed is counted and its node kept. In every other case, local invocations
  included, the watchdog is unchanged.
\<close>

theorem gndwdt_fed_only_over_csp:
  "let def = Some (ground_wtd_command now);
       st = sys_world sys;
       (outcome, result, sys') = dispatch now_us current reg def args source sys
   in sys_world sys' =
        (if may_run current reg def args sys \<and> src_via_csp source
            \<and> args = [ARG_TEXT (Some KFSW_GNDWDT_FEED_WORD)] \<and> gw_running st \<and> \<not> resetting st
         then st\<lparr>last_contact_ms := now, last_node := src_node source,
                 contacts := saturating_increment (contacts st)\<rparr>
         else st)"
proof (cases "may_run current reg (Some (ground_wtd_command now)) args sys")
  case True
  then obtain t where t: "args = [ARG_TEXT (Some t)]"
    using ground_wtd_arguments [of now args] by (auto simp: may_run_def)
  obtain o2 r2 sys2 where h: "ground_wtd now args source \<lparr>rs_status = KFSW_COMMAND_OK, rs_detail = []\<rparr>
      (at_handler current sys) = (o2, r2, sys2)"
    by (metis prod.exhaust)
  have "sys_world (snd (snd (dispatch now_us current reg (Some (ground_wtd_command now)) args source sys))) =
      sys_world sys2"
    using dispatch_allowed [OF True, of source o2 r2 sys2 now_us] h
    by (simp add: ground_wtd_command_def Let_def)
  moreover have "sys_world sys2 = (if src_via_csp source \<and> t = KFSW_GNDWDT_FEED_WORD
      \<and> gw_running (sys_world sys) \<and> \<not> resetting (sys_world sys)
      then (sys_world sys)\<lparr>last_contact_ms := now, last_node := src_node source,
              contacts := saturating_increment (contacts (sys_world sys))\<rparr>
      else sys_world sys)"
    using h t by (auto simp: ground_wtd_def arg_text_def KFSW_GNDWDT_FEED_WORD_def restart_countdown_def
        Let_def split: if_splits)
  ultimately show ?thesis using True t by (auto simp: Let_def split: prod.splits)
next
  case False
  obtain outcome result sys' where
    d: "dispatch now_us current reg (Some (ground_wtd_command now)) args source sys = (outcome, result, sys')"
    by (metis prod.exhaust)
  with dispatch_refused(3) [OF False d] False show ?thesis by (simp add: Let_def)
qed

text \<open>
  C30. The periodic check of a running service that has no reset decided decides one, and schedules the
  reset, exactly when the watchdog is armed and the timeout has passed since the last contact.
\<close>

theorem gndwdt_reset_iff_silent:
  assumes "gw_running st" and "\<not> resetting st"
  shows "reset_pending (fst (gndwdt_work_handler now now_us (st, ev))) \<longleftrightarrow>
    gw_enabled st \<and> unat (timeout_s st) * 1000 \<le> unat (now - last_contact_ms st)"
  using work_handler_pending [OF assms] .

theorem gndwdt_reset_iff_silent_witness:
  "reset_pending (fst (gndwdt_work_handler 60000 0 (demo_gndwdt, event_init 1)))
   \<and> \<not> reset_pending (fst (gndwdt_work_handler 59999 0 (demo_gndwdt, event_init 1)))"
  using gndwdt_reset_iff_silent [of demo_gndwdt 60000 0 "event_init 1"]
    gndwdt_reset_iff_silent [of demo_gndwdt 59999 0 "event_init 1"]
  by (simp add: demo_gndwdt_def)

text \<open>
  Once a reset is decided it stays scheduled through any sequence of feeds, checks, starts, timeout
  changes and disarming, none of which counts as a contact or as a second expiry; only stopping the
  service calls it off.
\<close>

theorem gndwdt_decided_reset_stands:
  assumes "reset_pending (sys_world sys)" and "Stop \<notin> snd ` set ops"
  shows "let st = sys_world (fold gndwdt_step ops sys)
    in reset_pending st \<and> contacts st = contacts (sys_world sys) \<and> expiries st = expiries (sys_world sys)
       \<and> \<not> reset_pending (snd (kfsw_gndwdt_stop st))"
proof -
  have "\<not> reset_pending (snd (kfsw_gndwdt_stop st))" for st
    by (simp add: reset_pending_def kfsw_gndwdt_stop_def)
  with pending_run [OF assms] show ?thesis by (simp add: Let_def)
qed

theorem gndwdt_decided_reset_stands_witness:
  "reset_pending (sys_world (fold gndwdt_step
     [(70000, Command \<lparr>src_node = 9, src_authenticated = False, src_via_csp = True\<rparr>
        [ARG_TEXT (Some KFSW_GNDWDT_FEED_WORD)]), (70001, Set_Enabled False), (70002, Check)] demo_ground))"
proof -
  have "reset_pending (sys_world demo_ground)"
    by (simp add: demo_ground_def demo_gndwdt_def reset_pending_def)
  from gndwdt_decided_reset_stands [OF this, of "[(70000, Command \<lparr>src_node = 9, src_authenticated = False,
      src_via_csp = True\<rparr> [ARG_TEXT (Some KFSW_GNDWDT_FEED_WORD)]), (70001, Set_Enabled False), (70002, Check)]"]
  show ?thesis by (simp add: Let_def del: fold_simps)
qed

end
