(* ===== verification/Fwu.thy ===== *)
theory Fwu
  imports Contracts
begin

text \<open>
  Firmware update, \<^verbatim>\<open>src/fwu/fwu.c\<close> with the types of \<^verbatim>\<open>include/kfsw/services/fwu.h\<close>: an image is received in
  order into the secondary slot, checked against the declared size and CRC, and offered to the
  bootloader.

  \<open>fwu_service\<close> holds the file's static variables. The flash, the stream writer, the bootloader and the CRC
  are not part of the sources: the answers of the first three are the fields of \<open>fwu_env\<close>, one for each
  call the code makes, and \<open>crc32_ieee_update\<close> is a function argument. \<open>fwu_stream\<close> is the sequence of bytes
  the stream writer has taken since it was initialised; it writes them in order from its start offset.
  The build has a target partition when \<open>fe_partition\<close> holds its size. The number of secondary readers,
  which the number of open files bounds, is a \<open>nat\<close>.

  Proved, for a CRC that composes over concatenation: in every reachable state a verified or ready image
  is complete and has the declared CRC, a ready one has its swap scheduled, and no transfer can touch
  the slot while it is being read.
\<close>

section \<open>Types\<close>

datatype kfsw_fwu_state =
  KFSW_FWU_IDLE | KFSW_FWU_RECEIVING | KFSW_FWU_READY | KFSW_FWU_FAILED | KFSW_FWU_VERIFIED

record kfsw_fwu_status =
  fs_total_size :: u32
  fs_received :: u32
  fs_expected_crc32 :: u32
  fs_actual_crc32 :: u32
  fs_started :: u32
  fs_completed :: u32
  fs_failed :: u32
  fs_state :: kfsw_fwu_state
  fs_swap_scheduled :: bool
  fs_target_bound :: bool

record fwu_service =
  fwu_state :: kfsw_fwu_status
  secondary_readers :: nat
  fwu_stream :: bytes
  fwu_area :: bool
  fwu_stream_open :: bool

text \<open>
  What the platform answers during one operation: the flash calls by their place in the code, and the
  bootloader. \<open>fe_page\<close> is the page size \<open>flash_get_page_info_by_offs\<close> reports.
\<close>

record fwu_env =
  fe_partition :: "u32 option"
  fe_offset_sectors :: u32
  fe_area_open :: rc
  fe_device :: bool
  fe_page :: "errno + u32"
  fe_flatten :: rc
  fe_slot_open :: rc
  fe_stream_init :: rc
  fe_buffered_write :: rc
  fe_flush :: rc
  fe_mcuboot :: bool
  fe_swap_revert :: bool
  fe_request_upgrade :: rc
  fe_swap_test :: bool

definition KFSW_FWU_TRAILER_SECTORS :: u32 where "KFSW_FWU_TRAILER_SECTORS = 1"

section \<open>Operations\<close>

definition secondary_needed_for_revert :: "fwu_env \<Rightarrow> bool" where
  "secondary_needed_for_revert env \<longleftrightarrow> fe_mcuboot env \<and> fe_swap_revert env"

definition kfsw_fwu_secondary_acquire :: "fwu_service \<Rightarrow> rc \<times> fwu_service" where
  "kfsw_fwu_secondary_acquire st =
     (if fs_state (fwu_state st) = KFSW_FWU_RECEIVING \<or> fs_state (fwu_state st) = KFSW_FWU_FAILED
      then (Some EBUSY, st)
      else (None, st\<lparr>secondary_readers := secondary_readers st + 1\<rparr>))"

definition kfsw_fwu_secondary_release :: "fwu_service \<Rightarrow> fwu_service" where
  "kfsw_fwu_secondary_release st = st\<lparr>secondary_readers := secondary_readers st - 1\<rparr>"

definition fwu_sector_size :: "fwu_env \<Rightarrow> errno + u32" where
  "fwu_sector_size env =
     (case fe_area_open env of
        Some e \<Rightarrow> Inl e
      | None \<Rightarrow> if \<not> fe_device env then Inl ENODEV else fe_page env)"

text \<open>A sector size the code accepts: \<open>sector > 0\<close> as a signed integer.\<close>

definition usable_sector :: "fwu_env \<Rightarrow> u32 option" where
  "usable_sector env =
     (case fwu_sector_size env of
        Inl e \<Rightarrow> None
      | Inr sector \<Rightarrow> if sint sector \<le> 0 then None else Some sector)"

definition kfsw_fwu_slot_write_offset :: "fwu_env \<Rightarrow> u32" where
  "kfsw_fwu_slot_write_offset env =
     (if fe_partition env = None \<or> fe_offset_sectors env = 0 then 0
      else (case usable_sector env of None \<Rightarrow> 0 | Some sector \<Rightarrow> sector * fe_offset_sectors env))"

definition kfsw_fwu_max_image_size :: "fwu_env \<Rightarrow> u32" where
  "kfsw_fwu_max_image_size env =
     (case fe_partition env of
        None \<Rightarrow> 0
      | Some partition_size \<Rightarrow>
          let offset = kfsw_fwu_slot_write_offset env
          in case usable_sector env of
               None \<Rightarrow> 0
             | Some sector \<Rightarrow>
                 let trailer = sector * KFSW_FWU_TRAILER_SECTORS
                 in if offset + trailer \<ge> partition_size then 0 else partition_size - offset - trailer)"

definition fwu_close_stream :: "fwu_service \<Rightarrow> fwu_service" where
  "fwu_close_stream st = st\<lparr>fwu_area := False, fwu_stream_open := False\<rparr>"

definition fwu_erase_slot :: "fwu_env \<Rightarrow> fwu_service \<Rightarrow> rc \<times> fwu_service" where
  "fwu_erase_slot env st =
     (case fe_area_open env of
        Some e \<Rightarrow> (Some e, st)
      | None \<Rightarrow> (fe_flatten env, st\<lparr>fwu_area := False\<rparr>))"

text \<open>\<open>fwu_state.state = KFSW_FWU_FAILED; fwu_state.failed++\<close>\<close>

definition fwu_fail :: "fwu_service \<Rightarrow> fwu_service" where
  "fwu_fail st = st\<lparr>fwu_state := (fwu_state st)\<lparr>fs_state := KFSW_FWU_FAILED,
                      fs_failed := fs_failed (fwu_state st) + 1\<rparr>\<rparr>"

definition kfsw_fwu_begin :: "fwu_env \<Rightarrow> u32 \<Rightarrow> u32 \<Rightarrow> fwu_service \<Rightarrow> rc \<times> fwu_service" where
  "kfsw_fwu_begin env total_size expected_crc32 st =
     (if fe_partition env = None then (Some ENODEV, st)
      else if total_size = 0 then (Some EINVAL, st)
      else if total_size > kfsw_fwu_max_image_size env then (Some EFBIG, st)
      else if fs_state (fwu_state st) = KFSW_FWU_RECEIVING \<or> secondary_readers st \<noteq> 0
              \<or> secondary_needed_for_revert env then (Some EBUSY, st)
      else
        (case fwu_erase_slot env st of
           (Some e, st1) \<Rightarrow> (Some e, fwu_fail st1)
         | (None, st1) \<Rightarrow>
             (case fe_slot_open env of
                Some e \<Rightarrow> (Some e, fwu_fail st1)
              | None \<Rightarrow>
                  (case fe_stream_init env of
                     Some e \<Rightarrow> (Some e, fwu_fail (fwu_close_stream st1))
                   | None \<Rightarrow>
                       (None, st1\<lparr>fwu_area := True, fwu_stream_open := True, fwu_stream := [],
                          fwu_state := (fwu_state st1)\<lparr>fs_total_size := total_size,
                            fs_expected_crc32 := expected_crc32, fs_received := 0, fs_actual_crc32 := 0,
                            fs_swap_scheduled := False, fs_state := KFSW_FWU_RECEIVING,
                            fs_started := fs_started (fwu_state st1) + 1\<rparr>\<rparr>)))))"

definition kfsw_fwu_write ::
  "(u32 \<Rightarrow> bytes \<Rightarrow> u32) \<Rightarrow> fwu_env \<Rightarrow> u32 \<Rightarrow> bytes option \<Rightarrow> nat \<Rightarrow> fwu_service \<Rightarrow> rc \<times> fwu_service" where
  "kfsw_fwu_write crc32_ieee_update env offset data sz st =
     (if fe_partition env = None then (Some ENODEV, st)
      else
        (case data of
           None \<Rightarrow> (Some EINVAL, st)
         | Some d \<Rightarrow>
             if sz = 0 then (Some EINVAL, st)
             else if fs_state (fwu_state st) \<noteq> KFSW_FWU_RECEIVING then (Some EINVAL, st)
             else if offset \<noteq> fs_received (fwu_state st) then (Some ESPIPE, st)
             else if unat offset + sz > unat (fs_total_size (fwu_state st)) then (Some EFBIG, st)
             else
               (case fe_buffered_write env of
                  Some e \<Rightarrow> (Some e, fwu_fail st)
                | None \<Rightarrow>
                    (None, st\<lparr>fwu_stream := fwu_stream st @ take sz d,
                       fwu_state := (fwu_state st)\<lparr>
                         fs_actual_crc32 := crc32_ieee_update (fs_actual_crc32 (fwu_state st)) (take sz d),
                         fs_received := fs_received (fwu_state st) + word_of_nat sz\<rparr>\<rparr>))))"

definition fwu_verify_locked :: "fwu_env \<Rightarrow> fwu_service \<Rightarrow> rc \<times> fwu_service" where
  "fwu_verify_locked env st =
     (let s = fwu_state st
      in if fs_state s = KFSW_FWU_VERIFIED then (None, st)
         else if fs_state s \<noteq> KFSW_FWU_RECEIVING then (Some EINVAL, st)
         else if fs_received s \<noteq> fs_total_size s then (Some EAGAIN, st)
         else if fs_actual_crc32 s \<noteq> fs_expected_crc32 s then
           (Some EILSEQ, fwu_fail (snd (fwu_erase_slot env (fwu_close_stream st))))
         else
           (case fe_flush env of
              Some e \<Rightarrow> (Some e, fwu_fail (fwu_close_stream st))
            | None \<Rightarrow>
                let st1 = fwu_close_stream st
                in (None, st1\<lparr>fwu_state := (fwu_state st1)\<lparr>fs_state := KFSW_FWU_VERIFIED\<rparr>\<rparr>)))"

definition kfsw_fwu_verify :: "fwu_env \<Rightarrow> fwu_service \<Rightarrow> rc \<times> fwu_service" where
  "kfsw_fwu_verify env st =
     (if fe_partition env = None then (Some ENODEV, st) else fwu_verify_locked env st)"

definition kfsw_fwu_finish :: "fwu_env \<Rightarrow> fwu_service \<Rightarrow> rc \<times> fwu_service" where
  "kfsw_fwu_finish env st =
     (if fe_partition env = None then (Some ENODEV, st)
      else if secondary_readers st \<noteq> 0 then (Some EBUSY, st)
      else
        (case fwu_verify_locked env st of
           (Some e, st1) \<Rightarrow> (Some e, st1)
         | (None, st1) \<Rightarrow>
             let ready = (\<lambda>s. s\<lparr>fs_state := KFSW_FWU_READY, fs_completed := fs_completed s + 1\<rparr>)
             in if \<not> fe_mcuboot env then (None, st1\<lparr>fwu_state := ready (fwu_state st1)\<rparr>)
                else
                  (case fe_request_upgrade env of
                     Some e \<Rightarrow> (Some e, fwu_fail st1)
                   | None \<Rightarrow>
                       if \<not> fe_swap_test env then (Some EIO, fwu_fail st1)
                       else (None, st1\<lparr>fwu_state := ready ((fwu_state st1)\<lparr>fs_swap_scheduled := True\<rparr>)\<rparr>))))"

definition kfsw_fwu_abort :: "fwu_env \<Rightarrow> fwu_service \<Rightarrow> rc \<times> fwu_service" where
  "kfsw_fwu_abort env st =
     (if secondary_readers st \<noteq> 0 \<or> secondary_needed_for_revert env then (Some EBUSY, st)
      else
        let idle = (\<lambda>s. s\<lparr>fs_total_size := 0, fs_received := 0, fs_expected_crc32 := 0, fs_actual_crc32 := 0,
                          fs_swap_scheduled := False, fs_state := KFSW_FWU_IDLE\<rparr>)
        in if fe_partition env = None then (None, st\<lparr>fwu_state := idle (fwu_state st)\<rparr>)
           else
             let s = fwu_state st;
                 st1 = (if fs_state s = KFSW_FWU_RECEIVING
                        then st\<lparr>fwu_state := s\<lparr>fs_failed := fs_failed s + 1\<rparr>\<rparr> else st)
             in case fwu_erase_slot env (fwu_close_stream st1) of
                  (Some e, st2) \<Rightarrow> (Some e, st2\<lparr>fwu_state := (fwu_state st2)\<lparr>fs_state := KFSW_FWU_FAILED\<rparr>\<rparr>)
                | (None, st2) \<Rightarrow> (None, st2\<lparr>fwu_state := idle (fwu_state st2)\<rparr>))"

definition kfsw_fwu_get_status :: "dest \<Rightarrow> fwu_service \<Rightarrow> errno + kfsw_fwu_status" where
  "kfsw_fwu_get_status status st = (if status = Null then Inl EINVAL else Inr (fwu_state st))"

fun kfsw_fwu_state_name :: "kfsw_fwu_state \<Rightarrow> string" where
  "kfsw_fwu_state_name KFSW_FWU_IDLE = ''idle''"
| "kfsw_fwu_state_name KFSW_FWU_RECEIVING = ''receiving''"
| "kfsw_fwu_state_name KFSW_FWU_READY = ''ready''"
| "kfsw_fwu_state_name KFSW_FWU_FAILED = ''failed''"
| "kfsw_fwu_state_name KFSW_FWU_VERIFIED = ''verified''"

definition fwu_init :: "bool \<Rightarrow> fwu_service" where
  "fwu_init target_bound =
     \<lparr>fwu_state = \<lparr>fs_total_size = 0, fs_received = 0, fs_expected_crc32 = 0, fs_actual_crc32 = 0,
        fs_started = 0, fs_completed = 0, fs_failed = 0, fs_state = KFSW_FWU_IDLE,
        fs_swap_scheduled = False, fs_target_bound = target_bound\<rparr>,
      secondary_readers = 0, fwu_stream = [], fwu_area = False, fwu_stream_open = False\<rparr>"

section \<open>Reachable states\<close>

text \<open>
  The operations in any order, each with its own answers of the platform; whether the build uses the
  bootloader is fixed. A caller passes data it can read for the size it states, and releases a reader
  it holds.
\<close>

inductive fwu_reachable :: "(u32 \<Rightarrow> bytes \<Rightarrow> u32) \<Rightarrow> bool \<Rightarrow> fwu_service \<Rightarrow> bool" for crc mcuboot where
  init: "fwu_reachable crc mcuboot (fwu_init bound)"
| begin_transfer: "fwu_reachable crc mcuboot st \<Longrightarrow> fe_mcuboot env = mcuboot \<Longrightarrow>
    fwu_reachable crc mcuboot (snd (kfsw_fwu_begin env image_size expected st))"
| write_span: "fwu_reachable crc mcuboot st \<Longrightarrow> fe_mcuboot env = mcuboot \<Longrightarrow> sz \<le> length d \<Longrightarrow>
    fwu_reachable crc mcuboot (snd (kfsw_fwu_write crc env offset (Some d) sz st))"
| verify: "fwu_reachable crc mcuboot st \<Longrightarrow> fe_mcuboot env = mcuboot \<Longrightarrow>
    fwu_reachable crc mcuboot (snd (kfsw_fwu_verify env st))"
| finish: "fwu_reachable crc mcuboot st \<Longrightarrow> fe_mcuboot env = mcuboot \<Longrightarrow>
    fwu_reachable crc mcuboot (snd (kfsw_fwu_finish env st))"
| abort: "fwu_reachable crc mcuboot st \<Longrightarrow> fe_mcuboot env = mcuboot \<Longrightarrow>
    fwu_reachable crc mcuboot (snd (kfsw_fwu_abort env st))"
| acquire: "fwu_reachable crc mcuboot st \<Longrightarrow>
    fwu_reachable crc mcuboot (snd (kfsw_fwu_secondary_acquire st))"
| release: "fwu_reachable crc mcuboot st \<Longrightarrow> 0 < secondary_readers st \<Longrightarrow>
    fwu_reachable crc mcuboot (kfsw_fwu_secondary_release st)"

text \<open>What Zephyr documents of \<open>crc32_ieee_update\<close>: it continues a CRC over further bytes.\<close>

definition crc_composes :: "(u32 \<Rightarrow> bytes \<Rightarrow> u32) \<Rightarrow> bool" where
  "crc_composes crc \<longleftrightarrow> (\<forall>c a b. crc (crc c a) b = crc c (a @ b)) \<and> crc 0 [] = 0"

definition image_accepted :: "(u32 \<Rightarrow> bytes \<Rightarrow> u32) \<Rightarrow> fwu_service \<Rightarrow> bool" where
  "image_accepted crc st \<longleftrightarrow> length (fwu_stream st) = unat (fs_total_size (fwu_state st))
     \<and> crc 0 (fwu_stream st) = fs_expected_crc32 (fwu_state st)"

definition fwu_inv :: "(u32 \<Rightarrow> bytes \<Rightarrow> u32) \<Rightarrow> bool \<Rightarrow> fwu_service \<Rightarrow> bool" where
  "fwu_inv crc mcuboot st \<longleftrightarrow>
     (fs_state (fwu_state st) = KFSW_FWU_RECEIVING \<longrightarrow>
        length (fwu_stream st) = unat (fs_received (fwu_state st))
        \<and> fs_received (fwu_state st) \<le> fs_total_size (fwu_state st)
        \<and> fs_actual_crc32 (fwu_state st) = crc 0 (fwu_stream st) \<and> fwu_stream_open st)
     \<and> (fs_state (fwu_state st) \<in> {KFSW_FWU_VERIFIED, KFSW_FWU_READY} \<longrightarrow> image_accepted crc st)
     \<and> (fs_state (fwu_state st) = KFSW_FWU_READY \<and> mcuboot \<longrightarrow> fs_swap_scheduled (fwu_state st))
     \<and> (0 < secondary_readers st \<longrightarrow>
          fs_state (fwu_state st) \<notin> {KFSW_FWU_RECEIVING, KFSW_FWU_FAILED})"

text \<open>
  The CRC-32 of IEEE 802.3, bit by bit: a concrete function that composes, for the witnesses. The
  platform of the witnesses answers every call with success.
\<close>

definition crc32_byte :: "u32 \<Rightarrow> u8 \<Rightarrow> u32" where
  "crc32_byte c b =
     ((\<lambda>x. if bit x 0 then drop_bit 1 x XOR 0xEDB88320 else drop_bit 1 x) ^^ 8) (c XOR ucast b)"

definition crc32_reference :: "u32 \<Rightarrow> bytes \<Rightarrow> u32" where
  "crc32_reference c data = NOT (foldl crc32_byte (NOT c) data)"

definition demo_fwu_env :: fwu_env where
  "demo_fwu_env = \<lparr>fe_partition = Some 0x40000, fe_offset_sectors = 1, fe_area_open = None, fe_device = True,
     fe_page = Inr 0x1000, fe_flatten = None, fe_slot_open = None, fe_stream_init = None,
     fe_buffered_write = None, fe_flush = None, fe_mcuboot = True, fe_swap_revert = False,
     fe_request_upgrade = None, fe_swap_test = True\<rparr>"

section \<open>Lemmas\<close>

lemma inv_begin: "fwu_inv crc mcuboot st \<Longrightarrow> crc_composes crc \<Longrightarrow> fwu_inv crc mcuboot (snd (kfsw_fwu_begin env t e st))"
  by (auto simp: kfsw_fwu_begin_def fwu_inv_def image_accepted_def fwu_fail_def fwu_close_stream_def
      fwu_erase_slot_def crc_composes_def split: option.splits prod.splits)

lemma inv_write:
  assumes inv: "fwu_inv crc mcuboot st" and "crc_composes crc" and "sz \<le> length d"
  shows "fwu_inv crc mcuboot (snd (kfsw_fwu_write crc env offset (Some d) sz st))"
proof -
  let ?s = "fwu_state st"
  have "unat (fs_received ?s + word_of_nat sz) = unat (fs_received ?s) + sz"
    if "unat (fs_received ?s) + sz \<le> unat (fs_total_size ?s)"
    using that unat_u32_bound [of "fs_total_size ?s"]
    by (simp add: unat_plus_small unat_word_of_nat_small)
  with assms show ?thesis
    by (auto simp: kfsw_fwu_write_def fwu_inv_def image_accepted_def fwu_fail_def crc_composes_def
        word_le_nat_alt split: option.splits)
qed

lemma inv_verify_locked: "fwu_inv crc mcuboot st \<Longrightarrow> fwu_inv crc mcuboot (snd (fwu_verify_locked env st))"
  by (auto simp: fwu_verify_locked_def fwu_inv_def image_accepted_def fwu_fail_def fwu_close_stream_def
      fwu_erase_slot_def Let_def split: option.splits)

lemma verify_locked_ok:
  "fwu_verify_locked env st = (None, st1) \<Longrightarrow> fs_state (fwu_state st1) = KFSW_FWU_VERIFIED"
  by (auto simp: fwu_verify_locked_def Let_def split: if_splits option.splits)

lemma verify_locked_readers:
  "secondary_readers (snd (fwu_verify_locked env st)) = secondary_readers st"
  by (auto simp: fwu_verify_locked_def fwu_fail_def fwu_close_stream_def fwu_erase_slot_def Let_def
      split: option.splits)

lemma inv_finish:
  assumes inv: "fwu_inv crc mcuboot st" and "fe_mcuboot env = mcuboot"
  shows "fwu_inv crc mcuboot (snd (kfsw_fwu_finish env st))"
proof -
  obtain r st1 where v: "fwu_verify_locked env st = (r, st1)" by fastforce
  have i1: "fwu_inv crc mcuboot st1" using inv_verify_locked [OF inv, of env] v by simp
  have rd: "secondary_readers st1 = secondary_readers st" using verify_locked_readers [of env st] v by simp
  show ?thesis
  proof (cases r)
    case None
    then have "fs_state (fwu_state st1) = KFSW_FWU_VERIFIED" using verify_locked_ok v by blast
    with i1 rd assms None v show ?thesis
      by (auto simp: kfsw_fwu_finish_def fwu_inv_def image_accepted_def fwu_fail_def Let_def
          split: option.splits)
  next
    case (Some e)
    with i1 v inv show ?thesis by (auto simp: kfsw_fwu_finish_def)
  qed
qed

lemma inv_abort: "fwu_inv crc mcuboot st \<Longrightarrow> fwu_inv crc mcuboot (snd (kfsw_fwu_abort env st))"
  by (auto simp: kfsw_fwu_abort_def fwu_inv_def image_accepted_def fwu_close_stream_def fwu_erase_slot_def
      Let_def split: option.splits prod.splits)

lemma inv_readers:
  "fwu_inv crc mcuboot st \<Longrightarrow> fwu_inv crc mcuboot (snd (kfsw_fwu_secondary_acquire st))"
  "fwu_inv crc mcuboot st \<Longrightarrow> fwu_inv crc mcuboot (kfsw_fwu_secondary_release st)"
  by (auto simp: kfsw_fwu_secondary_acquire_def kfsw_fwu_secondary_release_def fwu_inv_def image_accepted_def)

lemma fwu_reachable_inv:
  assumes "fwu_reachable crc mcuboot st" and "crc_composes crc"
  shows "fwu_inv crc mcuboot st"
  using assms
proof (induction rule: fwu_reachable.induct)
  case (init bound)
  show ?case by (simp add: fwu_inv_def fwu_init_def)
next
  case (verify st env)
  then show ?case by (simp add: kfsw_fwu_verify_def inv_verify_locked)
qed (simp_all add: inv_begin inv_write inv_finish inv_abort inv_readers)

lemma crc32_reference_composes: "crc_composes crc32_reference"
  by (simp add: crc_composes_def crc32_reference_def)

lemma demo_max_image_size: "kfsw_fwu_max_image_size demo_fwu_env = 0x3E000"
  by (simp add: kfsw_fwu_max_image_size_def kfsw_fwu_slot_write_offset_def usable_sector_def
      fwu_sector_size_def demo_fwu_env_def KFSW_FWU_TRAILER_SECTORS_def)

section \<open>Properties\<close>

text \<open>
  C2. In every state any sequence of operations reaches, whatever the flash and the bootloader answer: an
  image that is verified or ready has exactly the declared number of bytes and the declared CRC over the
  bytes the stream took; while one is received the count is the bytes taken and stays within the declared
  size; a ready image has its swap scheduled when the build uses the bootloader; and while a reader holds
  the slot, no begin, finish or abort changes anything and no write is accepted.
\<close>

theorem fwu_offers_only_checked_images:
  assumes "fwu_reachable crc mcuboot st" and "crc_composes crc"
  shows "(fs_state (fwu_state st) \<in> {KFSW_FWU_VERIFIED, KFSW_FWU_READY} \<longrightarrow>
        length (fwu_stream st) = unat (fs_total_size (fwu_state st))
        \<and> crc 0 (fwu_stream st) = fs_expected_crc32 (fwu_state st))
    \<and> (fs_state (fwu_state st) = KFSW_FWU_RECEIVING \<longrightarrow>
        unat (fs_received (fwu_state st)) = length (fwu_stream st)
        \<and> fs_received (fwu_state st) \<le> fs_total_size (fwu_state st))
    \<and> (fs_state (fwu_state st) = KFSW_FWU_READY \<and> mcuboot \<longrightarrow> fs_swap_scheduled (fwu_state st))
    \<and> (0 < secondary_readers st \<longrightarrow>
        snd (kfsw_fwu_begin env total_size expected st) = st \<and> snd (kfsw_fwu_finish env st) = st
        \<and> snd (kfsw_fwu_abort env st) = st \<and> snd (kfsw_fwu_write crc env offset data sz st) = st)"
  using fwu_reachable_inv [OF assms]
  by (auto simp: fwu_inv_def image_accepted_def kfsw_fwu_begin_def kfsw_fwu_finish_def kfsw_fwu_abort_def
      kfsw_fwu_write_def split: option.splits)

theorem fwu_offers_only_checked_images_witness:
  "let st = snd (kfsw_fwu_verify demo_fwu_env (snd (kfsw_fwu_write crc32_reference demo_fwu_env 0 (Some [1, 2]) 2
         (snd (kfsw_fwu_begin demo_fwu_env 2 (crc32_reference 0 [1, 2]) (fwu_init True))))))
   in fs_state (fwu_state st) = KFSW_FWU_VERIFIED \<and> length (fwu_stream st) = 2"
proof -
  let ?st = "snd (kfsw_fwu_verify demo_fwu_env (snd (kfsw_fwu_write crc32_reference demo_fwu_env 0 (Some [1, 2]) 2
         (snd (kfsw_fwu_begin demo_fwu_env 2 (crc32_reference 0 [1, 2]) (fwu_init True))))))"
  have "fwu_reachable crc32_reference True ?st"
    by (intro fwu_reachable.verify fwu_reachable.write_span fwu_reachable.begin_transfer fwu_reachable.init)
      (simp_all add: demo_fwu_env_def)
  moreover have "fs_state (fwu_state ?st) = KFSW_FWU_VERIFIED \<and> fs_total_size (fwu_state ?st) = 2"
    using demo_max_image_size
    by (simp add: kfsw_fwu_begin_def kfsw_fwu_write_def kfsw_fwu_verify_def fwu_verify_locked_def
        fwu_erase_slot_def fwu_close_stream_def secondary_needed_for_revert_def fwu_init_def
        demo_fwu_env_def Let_def)
  ultimately show ?thesis
    using fwu_offers_only_checked_images [of crc32_reference True ?st demo_fwu_env 0 0 0 None 0]
      crc32_reference_composes
    by (simp add: Let_def)
qed

end
