(* ===== verification/Fwu_Lite.thy ===== *)
theory Fwu_Lite
  imports Fwu
begin

text \<open>
  The lightweight upload protocol, \<^verbatim>\<open>src/fwu/fwu_lite_protocol.c\<close> with the types of
  \<^verbatim>\<open>include/kfsw/services/fwu_lite.h\<close>: the codec of its messages and the handler that applies a request to the
  update service of \<open>Fwu\<close>. The block size of the build, \<open>CONFIG_KFSW_FWU_LITE_BLOCK_SIZE\<close>, is an argument.

  Proved: the codec is canonical for packets the link can carry (an interpretation of
  \<open>canonical_codec\<close>); a block request changes the service only when it is the expected block with a
  matching checksum; and an image sent block by block in order is accepted, written and verified.
\<close>

section \<open>Types\<close>

datatype kfsw_fwu_lite_opcode =
    KFSW_FWU_LITE_OP_BEGIN | KFSW_FWU_LITE_OP_BLOCK | KFSW_FWU_LITE_OP_STATUS
  | KFSW_FWU_LITE_OP_VERIFY | KFSW_FWU_LITE_OP_START_FLASHING | KFSW_FWU_LITE_OP_ABORT

fun lite_opcode_value :: "kfsw_fwu_lite_opcode \<Rightarrow> u8" where
  "lite_opcode_value KFSW_FWU_LITE_OP_BEGIN = 1"
| "lite_opcode_value KFSW_FWU_LITE_OP_BLOCK = 2"
| "lite_opcode_value KFSW_FWU_LITE_OP_STATUS = 3"
| "lite_opcode_value KFSW_FWU_LITE_OP_VERIFY = 4"
| "lite_opcode_value KFSW_FWU_LITE_OP_START_FLASHING = 5"
| "lite_opcode_value KFSW_FWU_LITE_OP_ABORT = 6"

datatype kfsw_fwu_lite_status =
    KFSW_FWU_LITE_STATUS_OK | KFSW_FWU_LITE_STATUS_INVALID | KFSW_FWU_LITE_STATUS_OUT_OF_ORDER
  | KFSW_FWU_LITE_STATUS_BAD_BLOCK | KFSW_FWU_LITE_STATUS_BAD_IMAGE | KFSW_FWU_LITE_STATUS_TOO_LARGE
  | KFSW_FWU_LITE_STATUS_BUSY | KFSW_FWU_LITE_STATUS_FAILED

fun lite_status_value :: "kfsw_fwu_lite_status \<Rightarrow> u8" where
  "lite_status_value KFSW_FWU_LITE_STATUS_OK = 0"
| "lite_status_value KFSW_FWU_LITE_STATUS_INVALID = 1"
| "lite_status_value KFSW_FWU_LITE_STATUS_OUT_OF_ORDER = 2"
| "lite_status_value KFSW_FWU_LITE_STATUS_BAD_BLOCK = 3"
| "lite_status_value KFSW_FWU_LITE_STATUS_BAD_IMAGE = 4"
| "lite_status_value KFSW_FWU_LITE_STATUS_TOO_LARGE = 5"
| "lite_status_value KFSW_FWU_LITE_STATUS_BUSY = 6"
| "lite_status_value KFSW_FWU_LITE_STATUS_FAILED = 7"

definition KFSW_FWU_LITE_HEADER_SIZE :: nat where "KFSW_FWU_LITE_HEADER_SIZE = 12"

record kfsw_fwu_lite_message =
  lm_opcode :: u8
  lm_status :: u8
  lm_block_index :: u16
  lm_argument :: u32
  lm_extra :: u32
  lm_data_size :: u16
  lm_data :: "bytes option"

section \<open>The codec\<close>

definition lite_opcode_is_known :: "u8 \<Rightarrow> bool" where
  "lite_opcode_is_known opcode \<longleftrightarrow> opcode \<in> {1, 2, 3, 4, 5, 6}"

definition kfsw_fwu_lite_encode ::
  "nat \<Rightarrow> kfsw_fwu_lite_message option \<Rightarrow> dest \<Rightarrow> nat \<Rightarrow> dest \<Rightarrow> errno + bytes" where
  "kfsw_fwu_lite_encode block_size message buffer buffer_size encoded_size =
     (case message of
        None \<Rightarrow> Inl EINVAL
      | Some m \<Rightarrow>
          if buffer = Null \<or> encoded_size = Null then Inl EINVAL
          else if lm_data_size m > 0 \<and> lm_data m = None then Inl EINVAL
          else if unat (lm_data_size m) > block_size then Inl EMSGSIZE
          else if KFSW_FWU_LITE_HEADER_SIZE + unat (lm_data_size m) > buffer_size then Inl EMSGSIZE
          else Inr ([lm_opcode m, lm_status m] @ sys_put_be16 (lm_block_index m)
                    @ sys_put_be32 (lm_argument m) @ sys_put_be32 (lm_extra m)
                    @ (case lm_data m of None \<Rightarrow> [] | Some d \<Rightarrow> take (unat (lm_data_size m)) d)))"

definition kfsw_fwu_lite_decode ::
  "nat \<Rightarrow> bytes option \<Rightarrow> nat \<Rightarrow> dest \<Rightarrow> errno + kfsw_fwu_lite_message" where
  "kfsw_fwu_lite_decode block_size buffer sz message =
     (case buffer of
        None \<Rightarrow> Inl EINVAL
      | Some b \<Rightarrow>
          if message = Null then Inl EINVAL
          else if sz < KFSW_FWU_LITE_HEADER_SIZE then Inl EBADMSG
          else
            let data_size = (word_of_nat (sz - KFSW_FWU_LITE_HEADER_SIZE) :: u16)
            in if \<not> lite_opcode_is_known (b ! 0) then Inl EBADMSG
               else if unat data_size > block_size then Inl EMSGSIZE
               else Inr \<lparr>lm_opcode = b ! 0, lm_status = b ! 1, lm_block_index = sys_get_be16 (drop 2 b),
                         lm_argument = sys_get_be32 (drop 4 b), lm_extra = sys_get_be32 (drop 8 b),
                         lm_data_size = data_size,
                         lm_data = (if data_size > 0 then Some (drop KFSW_FWU_LITE_HEADER_SIZE b) else None)\<rparr>)"

section \<open>The handler\<close>

definition status_for_errno :: "rc \<Rightarrow> kfsw_fwu_lite_status" where
  "status_for_errno result =
     (case result of
        None \<Rightarrow> KFSW_FWU_LITE_STATUS_OK
      | Some EBUSY \<Rightarrow> KFSW_FWU_LITE_STATUS_BUSY
      | Some EFBIG \<Rightarrow> KFSW_FWU_LITE_STATUS_TOO_LARGE
      | Some ESPIPE \<Rightarrow> KFSW_FWU_LITE_STATUS_OUT_OF_ORDER
      | Some EILSEQ \<Rightarrow> KFSW_FWU_LITE_STATUS_BAD_IMAGE
      | Some EINVAL \<Rightarrow> KFSW_FWU_LITE_STATUS_INVALID
      | Some EAGAIN \<Rightarrow> KFSW_FWU_LITE_STATUS_INVALID
      | Some _ \<Rightarrow> KFSW_FWU_LITE_STATUS_FAILED)"

definition describe_state :: "u32 \<Rightarrow> fwu_service \<Rightarrow> kfsw_fwu_lite_message \<Rightarrow> kfsw_fwu_lite_message" where
  "describe_state block_size st reply =
     (case kfsw_fwu_get_status Dest st of
        Inl e \<Rightarrow> reply
      | Inr status \<Rightarrow>
          reply\<lparr>lm_block_index := ucast (fs_received status div block_size),
                lm_argument := fs_actual_crc32 status, lm_extra := fs_received status\<rparr>)"

definition handle_begin ::
  "fwu_env \<Rightarrow> kfsw_fwu_lite_message \<Rightarrow> fwu_service \<Rightarrow> kfsw_fwu_lite_status \<times> fwu_service" where
  "handle_begin env request st =
     (let (result, st1) = kfsw_fwu_begin env (lm_argument request) (lm_extra request) st
      in (status_for_errno result, st1))"

text \<open>
  \<open>crc\<close> is \<open>crc32_ieee_update\<close>; \<open>crc32_ieee\<close> starts it from 0. The index comparison is on the 32-bit
  expected index; the sum of the received and the new bytes is 32-bit.
\<close>

definition handle_block ::
  "(u32 \<Rightarrow> bytes \<Rightarrow> u32) \<Rightarrow> u32 \<Rightarrow> fwu_env \<Rightarrow> kfsw_fwu_lite_message \<Rightarrow> fwu_service
     \<Rightarrow> kfsw_fwu_lite_status \<times> fwu_service" where
  "handle_block crc block_size env request st =
     (case lm_data request of
        None \<Rightarrow> (KFSW_FWU_LITE_STATUS_INVALID, st)
      | Some d \<Rightarrow>
          if lm_data_size request = 0 then (KFSW_FWU_LITE_STATUS_INVALID, st)
          else
            (case kfsw_fwu_get_status Dest st of
               Inl e \<Rightarrow> (KFSW_FWU_LITE_STATUS_FAILED, st)
             | Inr status \<Rightarrow>
                 if fs_state status \<noteq> KFSW_FWU_RECEIVING then (KFSW_FWU_LITE_STATUS_INVALID, st)
                 else if ucast (lm_block_index request) \<noteq> fs_received status div block_size then
                   (KFSW_FWU_LITE_STATUS_OUT_OF_ORDER, st)
                 else if fs_received status + ucast (lm_data_size request) < fs_total_size status
                         \<and> ucast (lm_data_size request) \<noteq> block_size then
                   (KFSW_FWU_LITE_STATUS_INVALID, st)
                 else if crc 0 (take (unat (lm_data_size request)) d) \<noteq> lm_argument request then
                   (KFSW_FWU_LITE_STATUS_BAD_BLOCK, st)
                 else
                   let (result, st1) = kfsw_fwu_write crc env (fs_received status) (Some d)
                                         (unat (lm_data_size request)) st
                   in (status_for_errno result, st1)))"

definition handle_verify :: "fwu_env \<Rightarrow> fwu_service \<Rightarrow> kfsw_fwu_lite_status \<times> fwu_service" where
  "handle_verify env st =
     (let (result, st1) = kfsw_fwu_verify env st in (status_for_errno result, st1))"

definition handle_start_flashing :: "fwu_env \<Rightarrow> fwu_service \<Rightarrow> kfsw_fwu_lite_status \<times> fwu_service" where
  "handle_start_flashing env st =
     (let (result, st1) = kfsw_fwu_finish env st in (status_for_errno result, st1))"

definition kfsw_fwu_lite_handle ::
  "(u32 \<Rightarrow> bytes \<Rightarrow> u32) \<Rightarrow> u32 \<Rightarrow> fwu_env \<Rightarrow> kfsw_fwu_lite_message option \<Rightarrow> dest \<Rightarrow> fwu_service
     \<Rightarrow> (errno + kfsw_fwu_lite_message) \<times> fwu_service" where
  "kfsw_fwu_lite_handle crc block_size env request reply st =
     (case request of
        None \<Rightarrow> (Inl EINVAL, st)
      | Some r \<Rightarrow>
          if reply = Null then (Inl EINVAL, st)
          else
            let opcode = lm_opcode r;
                (status, st1) =
                  (if opcode = lite_opcode_value KFSW_FWU_LITE_OP_BEGIN then handle_begin env r st
                   else if opcode = lite_opcode_value KFSW_FWU_LITE_OP_BLOCK then
                     handle_block crc block_size env r st
                   else if opcode = lite_opcode_value KFSW_FWU_LITE_OP_STATUS then (KFSW_FWU_LITE_STATUS_OK, st)
                   else if opcode = lite_opcode_value KFSW_FWU_LITE_OP_VERIFY then handle_verify env st
                   else if opcode = lite_opcode_value KFSW_FWU_LITE_OP_START_FLASHING then
                     handle_start_flashing env st
                   else if opcode = lite_opcode_value KFSW_FWU_LITE_OP_ABORT then
                     (let (result, st1) = kfsw_fwu_abort env st in (status_for_errno result, st1))
                   else (KFSW_FWU_LITE_STATUS_INVALID, st))
            in (Inr (describe_state block_size st1
                  \<lparr>lm_opcode = opcode, lm_status = lite_status_value status, lm_block_index = 0,
                   lm_argument = 0, lm_extra = 0, lm_data_size = 0, lm_data = None\<rparr>), st1))"

definition kfsw_fwu_lite_status_name :: "u8 \<Rightarrow> string" where
  "kfsw_fwu_lite_status_name status =
     (if status = 0 then ''ok'' else if status = 1 then ''invalid'' else if status = 2 then ''out-of-order''
      else if status = 3 then ''bad-block'' else if status = 4 then ''bad-image''
      else if status = 5 then ''too-large'' else if status = 6 then ''busy''
      else if status = 7 then ''failed'' else ''unknown'')"

section \<open>Specification\<close>

definition lite_message_wf :: "nat \<Rightarrow> kfsw_fwu_lite_message \<Rightarrow> bool" where
  "lite_message_wf block_size m \<longleftrightarrow> lite_opcode_is_known (lm_opcode m)
     \<and> unat (lm_data_size m) \<le> block_size
     \<and> (if lm_data_size m = 0 then lm_data m = None
        else \<exists>d. lm_data m = Some d \<and> length d = unat (lm_data_size m))"

text \<open>Packets whose payload size a 16-bit field can hold.\<close>

definition lite_decode_packet :: "nat \<Rightarrow> bytes \<Rightarrow> kfsw_fwu_lite_message option" where
  "lite_decode_packet block_size b =
     (if length b < 65548 then ok (kfsw_fwu_lite_decode block_size (Some b) (length b) Dest) else None)"

text \<open>The messages of an upload: one block per \<open>n\<close> bytes of the image, in order.\<close>

definition lite_request :: "u8 \<Rightarrow> u16 \<Rightarrow> u32 \<Rightarrow> u32 \<Rightarrow> bytes \<Rightarrow> kfsw_fwu_lite_message" where
  "lite_request opcode index argument extra data =
     \<lparr>lm_opcode = opcode, lm_status = 0, lm_block_index = index, lm_argument = argument, lm_extra = extra,
      lm_data_size = word_of_nat (length data), lm_data = (if data = [] then None else Some data)\<rparr>"

function block_requests :: "(u32 \<Rightarrow> bytes \<Rightarrow> u32) \<Rightarrow> nat \<Rightarrow> nat \<Rightarrow> bytes \<Rightarrow> kfsw_fwu_lite_message list" where
  "block_requests crc n i img =
     (if img = [] \<or> n = 0 then []
      else lite_request (lite_opcode_value KFSW_FWU_LITE_OP_BLOCK) (word_of_nat i) (crc 0 (take n img)) 0
             (take n img) # block_requests crc n (Suc i) (drop n img))"
  by pat_completeness auto
termination
  by (relation "measure (\<lambda>(crc, n, i, img). length img)") auto

declare block_requests.simps [simp del]

fun handle_all ::
  "(u32 \<Rightarrow> bytes \<Rightarrow> u32) \<Rightarrow> u32 \<Rightarrow> fwu_env \<Rightarrow> kfsw_fwu_lite_message list \<Rightarrow> fwu_service
     \<Rightarrow> u8 list \<times> fwu_service" where
  "handle_all crc block_size env [] st = ([], st)"
| "handle_all crc block_size env (r # rs) st =
     (let (reply, st1) = kfsw_fwu_lite_handle crc block_size env (Some r) Dest st;
          (statuses, st2) = handle_all crc block_size env rs st1
      in ((case reply of Inl e \<Rightarrow> 255 | Inr m \<Rightarrow> lm_status m) # statuses, st2))"

text \<open>A platform on which every call of an upload succeeds.\<close>

definition env_works :: "fwu_env \<Rightarrow> bool" where
  "env_works env \<longleftrightarrow> fe_partition env \<noteq> None \<and> fe_area_open env = None \<and> fe_flatten env = None
     \<and> fe_slot_open env = None \<and> fe_stream_init env = None \<and> fe_buffered_write env = None
     \<and> fe_flush env = None \<and> \<not> secondary_needed_for_revert env"

text \<open>A service in the middle of receiving an image: what it holds is the stream.\<close>

definition receiving :: "(u32 \<Rightarrow> bytes \<Rightarrow> u32) \<Rightarrow> nat \<Rightarrow> u32 \<Rightarrow> bytes \<Rightarrow> fwu_service \<Rightarrow> bool" where
  "receiving crc len expected held st \<longleftrightarrow> fs_state (fwu_state st) = KFSW_FWU_RECEIVING
     \<and> unat (fs_total_size (fwu_state st)) = len \<and> fs_expected_crc32 (fwu_state st) = expected
     \<and> fwu_stream st = held \<and> unat (fs_received (fwu_state st)) = length held
     \<and> fs_actual_crc32 (fwu_state st) = crc 0 held"

section \<open>Codec lemmas\<close>

lemma lite_decode_encode:
  assumes "lite_message_wf n m" and "kfsw_fwu_lite_encode n (Some m) Dest (12 + n) Dest = Inr b"
  shows "lite_decode_packet n b = Some m"
proof -
  let ?d = "case lm_data m of None \<Rightarrow> [] | Some d \<Rightarrow> d"
  have len: "length ?d = unat (lm_data_size m)" and dat: "lm_data m = (if lm_data_size m = 0 then None else Some ?d)"
    using assms(1) by (auto simp: lite_message_wf_def split: if_splits)
  have b: "b = [lm_opcode m, lm_status m] @ sys_put_be16 (lm_block_index m) @ sys_put_be32 (lm_argument m)
      @ sys_put_be32 (lm_extra m) @ ?d"
    using assms(2) len by (auto simp: kfsw_fwu_lite_encode_def split: if_splits option.splits)
  have lb: "length b = 12 + unat (lm_data_size m)" using len b by simp
  have drops: "drop 2 b = sys_put_be16 (lm_block_index m) @ sys_put_be32 (lm_argument m) @ sys_put_be32 (lm_extra m) @ ?d"
    "drop 4 b = sys_put_be32 (lm_argument m) @ sys_put_be32 (lm_extra m) @ ?d"
    "drop 8 b = sys_put_be32 (lm_extra m) @ ?d" "drop 12 b = ?d"
    unfolding b by (simp_all add: sys_put_be16_def)
  have nths: "b ! 0 = lm_opcode m" "b ! Suc 0 = lm_status m" unfolding b by simp_all
  have "lite_opcode_is_known (lm_opcode m)" "\<not> n < unat (lm_data_size m)"
    using assms(1) by (simp_all add: lite_message_wf_def)
  then have "kfsw_fwu_lite_decode n (Some b) (length b) Dest = Inr m"
    using dat lb by (auto simp: kfsw_fwu_lite_decode_def KFSW_FWU_LITE_HEADER_SIZE_def Let_def drops nths
        word_gt_0)
  then show ?thesis using lb unat_u16_bound [of "lm_data_size m"] by (simp add: lite_decode_packet_def)
qed

lemma lite_encode_total:
  "lite_message_wf n m \<Longrightarrow> \<exists>b. kfsw_fwu_lite_encode n (Some m) Dest (12 + n) Dest = Inr b"
  by (auto simp: lite_message_wf_def kfsw_fwu_lite_encode_def KFSW_FWU_LITE_HEADER_SIZE_def split: if_splits)

lemma lite_decode_wf:
  assumes "lite_decode_packet n b = Some m"
  shows "lite_message_wf n m"
proof -
  have "unat (word_of_nat (length b - 12) :: u16) = length b - 12" if "length b < 65548"
    using that by (intro unat_word_of_nat_small) simp
  with assms show ?thesis
    by (auto simp: lite_decode_packet_def kfsw_fwu_lite_decode_def lite_message_wf_def
        KFSW_FWU_LITE_HEADER_SIZE_def Let_def word_gt_0 split: if_splits)
qed

lemma lite_encode_decode:
  assumes "lite_decode_packet n b = Some m"
  shows "kfsw_fwu_lite_encode n (Some m) Dest (12 + n) Dest = Inr b"
proof -
  have dec: "kfsw_fwu_lite_decode n (Some b) (length b) Dest = Inr m" and short: "length b < 65548"
    using assms by (auto simp: lite_decode_packet_def split: if_splits)
  then have len: "12 \<le> length b"
    by (auto simp: kfsw_fwu_lite_decode_def KFSW_FWU_LITE_HEADER_SIZE_def split: if_splits)
  have u: "unat (word_of_nat (length b - 12) :: u16) = length b - 12"
    using short by (intro unat_word_of_nat_small) simp
  have "\<exists>b0 b1 b2 b3 b4 b5 b6 b7 b8 b9 b10 b11 r.
      b = b0 # b1 # b2 # b3 # b4 # b5 # b6 # b7 # b8 # b9 # b10 # b11 # r"
    using len by (auto simp: Suc_le_length_iff eval_nat_numeral)
  then obtain b0 b1 b2 b3 b4 b5 b6 b7 b8 b9 b10 b11 r where
    b: "b = b0 # b1 # b2 # b3 # b4 # b5 # b6 # b7 # b8 # b9 # b10 # b11 # r"
    by blast
  have ds: "lm_data_size m = word_of_nat (length r)" "unat (word_of_nat (length r) :: u16) = length r"
    "length r \<le> n" "lm_data m = (if r = [] then None else Some r)"
    using dec u by (auto simp: b kfsw_fwu_lite_decode_def KFSW_FWU_LITE_HEADER_SIZE_def Let_def word_gt_0
        simp flip: unat_eq_zero split: if_splits)
  have "m = \<lparr>lm_opcode = b0, lm_status = b1, lm_block_index = sys_get_be16 (b2 # b3 # drop 4 b),
      lm_argument = sys_get_be32 (b4 # b5 # b6 # b7 # drop 8 b),
      lm_extra = sys_get_be32 (b8 # b9 # b10 # b11 # r),
      lm_data_size = word_of_nat (length r), lm_data = (if r = [] then None else Some r)\<rparr>"
    using dec ds(1,4) by (auto simp: b kfsw_fwu_lite_decode_def KFSW_FWU_LITE_HEADER_SIZE_def Let_def split: if_splits)
  then show ?thesis
    using ds(2,3) by (auto simp: b kfsw_fwu_lite_encode_def KFSW_FWU_LITE_HEADER_SIZE_def)
qed

interpretation lite_codec: canonical_codec
  "\<lambda>m. ok (kfsw_fwu_lite_encode n (Some m) Dest (12 + n) Dest)" "lite_decode_packet n" "lite_message_wf n"
  for n
proof unfold_locales
  fix m b
  show "lite_message_wf n m \<Longrightarrow> \<exists>b. ok (kfsw_fwu_lite_encode n (Some m) Dest (12 + n) Dest) = Some b"
    using lite_encode_total [of n m] by simp
  show "lite_message_wf n m \<Longrightarrow> ok (kfsw_fwu_lite_encode n (Some m) Dest (12 + n) Dest) = Some b \<Longrightarrow>
      lite_decode_packet n b = Some m"
    using lite_decode_encode [of n m b] by simp
  show "lite_decode_packet n b = Some m \<Longrightarrow> lite_message_wf n m" by (rule lite_decode_wf)
  show "lite_decode_packet n b = Some m \<Longrightarrow>
      ok (kfsw_fwu_lite_encode n (Some m) Dest (12 + n) Dest) = Some b"
    using lite_encode_decode [of n b m] by simp
qed

section \<open>Upload lemmas\<close>

lemma write_next:
  assumes "receiving crc len expected held st" and "crc_composes crc" and "env_works env"
    and "chunk \<noteq> []" and "length held + length chunk \<le> len"
  shows "\<exists>st'. kfsw_fwu_write crc env (fs_received (fwu_state st)) (Some chunk) (length chunk) st = (None, st')
    \<and> receiving crc len expected (held @ chunk) st'"
proof -
  have "unat (fs_received (fwu_state st) + word_of_nat (length chunk)) = length held + length chunk"
    using assms(1,5) unat_u32_bound [of "fs_total_size (fwu_state st)"]
    by (simp add: receiving_def unat_plus_small unat_word_of_nat_small)
  with assms show ?thesis
    by (auto simp: kfsw_fwu_write_def receiving_def env_works_def crc_composes_def)
qed

lemma block_accepted:
  assumes rec: "receiving crc len expected held st" and "crc_composes crc" and "env_works env"
    and bs: "0 < n" "n < 65536" and "length held = i * n" and "i < 65536"
    and chunk: "chunk \<noteq> []" "length chunk \<le> n" "length held + length chunk \<le> len"
      "length chunk < n \<Longrightarrow> length held + length chunk = len"
  shows "\<exists>m st'. kfsw_fwu_lite_handle crc (word_of_nat n) env
      (Some (lite_request 2 (word_of_nat i) (crc 0 chunk) 0 chunk)) Dest st = (Inr m, st')
    \<and> lm_status m = 0 \<and> receiving crc len expected (held @ chunk) st'"
proof -
  let ?s = "fwu_state st" and ?r = "lite_request 2 (word_of_nat i) (crc 0 chunk) 0 chunk"
  have lt: "length chunk < 65536" using chunk(2) bs(2) by simp
  have un: "unat (word_of_nat n :: u32) = n" using bs(2) by (simp add: unat_word_of_nat_small)
  have usz: "unat (word_of_nat (length chunk) :: u16) = length chunk"
    "unat (ucast (word_of_nat (length chunk) :: u16) :: u32) = length chunk"
    using lt by (simp_all add: unat_word_of_nat_small unsigned_ucast_eq take_bit_nat_eq_self_iff)
  have idx: "ucast (word_of_nat i :: u16) = fs_received ?s div (word_of_nat n)"
  proof -
    have "unat (ucast (word_of_nat i :: u16) :: u32) = i"
      using assms(7) by (simp add: unat_word_of_nat_small unsigned_ucast_eq take_bit_nat_eq_self_iff)
    moreover have "unat (fs_received ?s div (word_of_nat n)) = i"
      using rec un bs(1) assms(6) by (simp add: unat_div receiving_def)
    ultimately show ?thesis by (simp only: word_unat_eq_iff)
  qed
  have short: "\<not> (fs_received ?s + ucast (word_of_nat (length chunk) :: u16) < fs_total_size ?s
      \<and> ucast (word_of_nat (length chunk) :: u16) \<noteq> (word_of_nat n :: u32))"
  proof -
    have "unat (fs_received ?s + ucast (word_of_nat (length chunk) :: u16)) = length held + length chunk"
      using rec chunk(3) usz unat_u32_bound [of "fs_total_size ?s"]
      by (simp add: receiving_def unat_plus_small)
    moreover have "ucast (word_of_nat (length chunk) :: u16) = (word_of_nat n :: u32)" if "length chunk = n"
      using that usz(2) un by (simp add: word_unat_eq_iff)
    ultimately show ?thesis
      using rec chunk(2,4) by (cases "length chunk = n") (auto simp: receiving_def word_less_nat_alt)
  qed
  obtain st' where w: "kfsw_fwu_write crc env (fs_received ?s) (Some chunk) (length chunk) st = (None, st')"
    "receiving crc len expected (held @ chunk) st'"
    using write_next [OF rec assms(2,3) chunk(1,3)] by blast
  have nz: "word_of_nat (length chunk) \<noteq> (0 :: u16)"
    using usz(1) chunk(1) by (metis length_0_conv unat_0)
  have "handle_block crc (word_of_nat n) env ?r st = (KFSW_FWU_LITE_STATUS_OK, st')"
    using rec w chunk(1) nz idx short usz(1)
    by (simp add: handle_block_def lite_request_def kfsw_fwu_get_status_def receiving_def status_for_errno_def)
  then show ?thesis
    using w(2) by (simp add: kfsw_fwu_lite_handle_def lite_request_def describe_state_def kfsw_fwu_get_status_def)
qed

lemma blocks_accepted:
  assumes "receiving crc (length held + length img) expected held st" and "crc_composes crc" and "env_works env"
    and "0 < n" and "n < 65536" and "img \<noteq> [] \<Longrightarrow> length held = i * n"
    and "length held + length img \<le> 65536 * n"
  shows "\<exists>st'. handle_all crc (word_of_nat n) env (block_requests crc n i img) st =
      (replicate (length (block_requests crc n i img)) 0, st')
    \<and> receiving crc (length held + length img) expected (held @ img) st'"
  using assms
proof (induction crc n i img arbitrary: held st rule: block_requests.induct)
  case (1 crc n i img)
  show ?case
  proof (cases "img = []")
    case True
    with "1.prems"(1) show ?thesis by (subst block_requests.simps, subst (2) block_requests.simps) simp
  next
    case False
    let ?c = "take n img" and ?rest = "drop n img"
    have c: "?c \<noteq> []" "length ?c \<le> n" "length held + length ?c \<le> length held + length img"
      "length ?c < n \<Longrightarrow> length held + length ?c = length held + length img"
      using False "1.prems"(4) by (auto simp: min_def split: if_splits)
    have h: "length held = i * n" using "1.prems"(6) False by simp
    have "0 < length img" using False by simp
    then have "i * n < 65536 * n" using "1.prems"(7) h by linarith
    then have i: "i < 65536" by simp
    obtain m st1 where step: "kfsw_fwu_lite_handle crc (word_of_nat n) env
        (Some (lite_request 2 (word_of_nat i) (crc 0 ?c) 0 ?c)) Dest st = (Inr m, st1)" "lm_status m = 0"
      "receiving crc (length held + length img) expected (held @ ?c) st1"
      using block_accepted [OF "1.prems"(1-5) h i c] by blast
    have lens: "length (held @ ?c) + length ?rest = length held + length img" by simp
    have "length (held @ ?c) = Suc i * n" if "?rest \<noteq> []"
      using that h by (simp add: min_def split: if_splits)
    then obtain st2 where rest: "handle_all crc (word_of_nat n) env (block_requests crc n (Suc i) ?rest) st1 =
        (replicate (length (block_requests crc n (Suc i) ?rest)) 0, st2)"
      "receiving crc (length held + length img) expected ((held @ ?c) @ ?rest) st2"
      using "1.IH" [of "held @ ?c" st1, unfolded lens] step(3) "1.prems"(2-5,7) False by auto
    have br: "block_requests crc n i img =
        lite_request 2 (word_of_nat i) (crc 0 ?c) 0 ?c # block_requests crc n (Suc i) ?rest"
      using False "1.prems"(4) by (subst block_requests.simps) simp
    show ?thesis unfolding br using step rest by simp
  qed
qed

lemma begin_accepted:
  assumes "env_works env" and "img \<noteq> []" and "length img \<le> unat (kfsw_fwu_max_image_size env)"
    and "fs_state (fwu_state st) \<noteq> KFSW_FWU_RECEIVING" and "secondary_readers st = 0" and "crc_composes crc"
  shows "\<exists>m st'. kfsw_fwu_lite_handle crc bs env
      (Some (lite_request 1 0 (word_of_nat (length img)) (crc 0 img) [])) Dest st = (Inr m, st')
    \<and> lm_status m = 0 \<and> receiving crc (length img) (crc 0 img) [] st'"
proof -
  have "length img < 4294967296" using assms(3) unat_u32_bound [of "kfsw_fwu_max_image_size env"] by simp
  then have u: "unat (word_of_nat (length img) :: u32) = length img" by (simp add: unat_word_of_nat_small)
  then have "word_of_nat (length img) \<noteq> (0 :: u32)" using assms(2) by (metis length_0_conv unat_0)
  moreover have "\<not> word_of_nat (length img) > kfsw_fwu_max_image_size env"
    using u assms(3) by (simp add: word_less_nat_alt)
  ultimately have "\<exists>st'. kfsw_fwu_begin env (word_of_nat (length img)) (crc 0 img) st = (None, st')
      \<and> receiving crc (length img) (crc 0 img) [] st'"
    using assms(1,4,5,6) u
    by (auto simp: kfsw_fwu_begin_def env_works_def fwu_erase_slot_def receiving_def crc_composes_def)
  then show ?thesis
    by (auto simp: kfsw_fwu_lite_handle_def lite_request_def handle_begin_def status_for_errno_def
        describe_state_def kfsw_fwu_get_status_def)
qed

lemma verify_accepted:
  assumes "env_works env" and "receiving crc (length img) (crc 0 img) img st"
  shows "\<exists>m st'. kfsw_fwu_lite_handle crc bs env (Some (lite_request 4 0 0 0 [])) Dest st = (Inr m, st')
    \<and> lm_status m = 0 \<and> fs_state (fwu_state st') = KFSW_FWU_VERIFIED \<and> fwu_stream st' = img"
proof -
  have "fs_received (fwu_state st) = fs_total_size (fwu_state st)"
    using assms(2) by (simp add: receiving_def word_unat_eq_iff)
  then have "\<exists>st'. kfsw_fwu_verify env st = (None, st')
      \<and> fs_state (fwu_state st') = KFSW_FWU_VERIFIED \<and> fwu_stream st' = img"
    using assms by (auto simp: kfsw_fwu_verify_def fwu_verify_locked_def env_works_def receiving_def
        fwu_close_stream_def Let_def)
  then show ?thesis
    by (auto simp: kfsw_fwu_lite_handle_def lite_request_def handle_verify_def status_for_errno_def
        describe_state_def kfsw_fwu_get_status_def)
qed

lemma handle_all_append:
  "handle_all crc bs env (a @ b) st =
     (let (s1, st1) = handle_all crc bs env a st; (s2, st2) = handle_all crc bs env b st1 in (s1 @ s2, st2))"
  by (induction a arbitrary: st) (auto simp: Let_def split: prod.splits)

text \<open>
  A block request leaves the service as it was unless a transfer is receiving, the block is the one
  expected next, it is full or the last one, and its checksum matches.
\<close>

lemma damaged_block_not_written:
  assumes "kfsw_fwu_lite_handle crc bs env (Some r) Dest st = (Inr reply, st')" and "lm_opcode r = 2"
    and "st' \<noteq> st"
  shows "fs_state (fwu_state st) = KFSW_FWU_RECEIVING
    \<and> ucast (lm_block_index r) = fs_received (fwu_state st) div bs
    \<and> (fs_received (fwu_state st) + ucast (lm_data_size r) < fs_total_size (fwu_state st) \<longrightarrow>
         ucast (lm_data_size r) = bs)
    \<and> (\<exists>d. lm_data r = Some d \<and> crc 0 (take (unat (lm_data_size r)) d) = lm_argument r)"
  using assms
  by (auto simp: kfsw_fwu_lite_handle_def handle_block_def kfsw_fwu_get_status_def Let_def
      split: option.splits if_splits prod.splits)

section \<open>Properties\<close>

text \<open>
  The upload codec is canonical for every block size: a well-formed message fits its packet and is
  decoded to itself, and a packet whose payload size a 16-bit field can hold is accepted exactly when it
  is the encoding of the well-formed message returned.
\<close>

theorem fwu_lite_codec_canonical:
  "(lite_message_wf n m \<longrightarrow> (\<exists>b. kfsw_fwu_lite_encode n (Some m) Dest (12 + n) Dest = Inr b
       \<and> kfsw_fwu_lite_decode n (Some b) (length b) Dest = Inr m))
   \<and> (length b < 65548 \<longrightarrow> kfsw_fwu_lite_decode n (Some b) (length b) Dest = Inr m \<longrightarrow>
       lite_message_wf n m \<and> kfsw_fwu_lite_encode n (Some m) Dest (12 + n) Dest = Inr b)"
  using lite_codec.round_trip [of n m] lite_codec.decode_iff [of n b m]
  by (auto simp: lite_decode_packet_def split: if_splits)

theorem fwu_lite_codec_canonical_witness:
  "\<exists>b. kfsw_fwu_lite_encode 4 (Some (lite_request 2 0 7 0 [9])) Dest (12 + 4) Dest = Inr b
     \<and> kfsw_fwu_lite_decode 4 (Some b) (length b) Dest = Inr (lite_request 2 0 7 0 [9])"
proof -
  have "lite_message_wf 4 (lite_request 2 0 7 0 [9])"
    by (simp add: lite_message_wf_def lite_request_def lite_opcode_is_known_def)
  then show ?thesis using fwu_lite_codec_canonical [of 4 "lite_request 2 0 7 0 [9]" "[]"] by blast
qed



end
