(* ===== verification/Ftp_Protocol.thy ===== *)
theory Ftp_Protocol
  imports Contracts
begin

text \<open>
  The file transfer protocol and its path policy, \<^verbatim>\<open>src/ftp/ftp_protocol.c\<close>, and the settings and counters of
  \<^verbatim>\<open>src/ftp/ftp_state.c\<close>, with the types of \<^verbatim>\<open>src/ftp/ftp_internal.h\<close> and \<^verbatim>\<open>include/kfsw/services/ftp.h\<close>.

  A path or data pointer with its size is the list of the bytes it denotes. The mount point of the RAM
  volume is defined by the platform: it is an argument, \<open>None\<close> in a build without
  \<open>CONFIG_KFSW_STORAGE_TMP\<close>. Virtual paths are C strings.

  Proved: the message codec is canonical (an interpretation of \<open>canonical_codec\<close>); a resolved path lies
  at or below one of the roots, component by component, and is complete; a resolved write path lies
  strictly below a writable root.
\<close>

section \<open>Types\<close>

definition KFSW_FTP_MAX_PATH_SIZE :: nat where "KFSW_FTP_MAX_PATH_SIZE = 96"
definition KFSW_FTP_CHUNK_SIZE :: nat where "KFSW_FTP_CHUNK_SIZE = 192"
definition KFSW_FTP_ROOT_PATH :: string where "KFSW_FTP_ROOT_PATH = ''/kfsw/ftp''"
definition KFSW_FTP_READONLY_ROOT :: string where "KFSW_FTP_READONLY_ROOT = ''/kfsw/hk''"
definition KFSW_FTP_HK_PATH :: string where "KFSW_FTP_HK_PATH = ''hk''"
definition KFSW_FTP_BOOT_PATH :: string where "KFSW_FTP_BOOT_PATH = ''boot''"
definition KFSW_FTP_TMP_PATH :: string where "KFSW_FTP_TMP_PATH = ''tmp''"
definition KFSW_FTP_PROTOCOL_VERSION :: u8 where "KFSW_FTP_PROTOCOL_VERSION = 1"
definition KFSW_FTP_PROTOCOL_HEADER_SIZE :: nat where "KFSW_FTP_PROTOCOL_HEADER_SIZE = 24"
definition KFSW_FTP_FULL_PATH_SIZE :: nat where "KFSW_FTP_FULL_PATH_SIZE = 128"
definition KFSW_FTP_TIMEOUT_MIN_MS :: u32 where "KFSW_FTP_TIMEOUT_MIN_MS = 1000"
definition KFSW_FTP_TIMEOUT_MAX_MS :: u32 where "KFSW_FTP_TIMEOUT_MAX_MS = 120000"

lemmas ftp_sizes = KFSW_FTP_MAX_PATH_SIZE_def KFSW_FTP_CHUNK_SIZE_def KFSW_FTP_PROTOCOL_VERSION_def
  KFSW_FTP_PROTOCOL_HEADER_SIZE_def KFSW_FTP_FULL_PATH_SIZE_def

datatype kfsw_ftp_opcode =
    KFSW_FTP_OP_MKDIR_REQUEST | KFSW_FTP_OP_MKDIR_RESPONSE | KFSW_FTP_OP_LIST_REQUEST
  | KFSW_FTP_OP_LIST_ENTRY | KFSW_FTP_OP_LIST_END | KFSW_FTP_OP_STAT_REQUEST | KFSW_FTP_OP_STAT_RESPONSE
  | KFSW_FTP_OP_PUT_REQUEST | KFSW_FTP_OP_PUT_READY | KFSW_FTP_OP_PUT_DATA | KFSW_FTP_OP_PUT_RESULT
  | KFSW_FTP_OP_GET_REQUEST | KFSW_FTP_OP_GET_INFO | KFSW_FTP_OP_GET_DATA | KFSW_FTP_OP_GET_RESULT

fun ftp_opcode_value :: "kfsw_ftp_opcode \<Rightarrow> u8" where
  "ftp_opcode_value KFSW_FTP_OP_MKDIR_REQUEST = 1"
| "ftp_opcode_value KFSW_FTP_OP_MKDIR_RESPONSE = 2"
| "ftp_opcode_value KFSW_FTP_OP_LIST_REQUEST = 3"
| "ftp_opcode_value KFSW_FTP_OP_LIST_ENTRY = 4"
| "ftp_opcode_value KFSW_FTP_OP_LIST_END = 5"
| "ftp_opcode_value KFSW_FTP_OP_STAT_REQUEST = 6"
| "ftp_opcode_value KFSW_FTP_OP_STAT_RESPONSE = 7"
| "ftp_opcode_value KFSW_FTP_OP_PUT_REQUEST = 8"
| "ftp_opcode_value KFSW_FTP_OP_PUT_READY = 9"
| "ftp_opcode_value KFSW_FTP_OP_PUT_DATA = 10"
| "ftp_opcode_value KFSW_FTP_OP_PUT_RESULT = 11"
| "ftp_opcode_value KFSW_FTP_OP_GET_REQUEST = 12"
| "ftp_opcode_value KFSW_FTP_OP_GET_INFO = 13"
| "ftp_opcode_value KFSW_FTP_OP_GET_DATA = 14"
| "ftp_opcode_value KFSW_FTP_OP_GET_RESULT = 15"

datatype kfsw_ftp_wire_status =
    KFSW_FTP_STATUS_OK | KFSW_FTP_STATUS_INVALID_REQUEST | KFSW_FTP_STATUS_INVALID_PATH
  | KFSW_FTP_STATUS_NOT_FOUND | KFSW_FTP_STATUS_ALREADY_EXISTS | KFSW_FTP_STATUS_NO_SPACE
  | KFSW_FTP_STATUS_IO_ERROR | KFSW_FTP_STATUS_INTEGRITY_ERROR | KFSW_FTP_STATUS_BUSY
  | KFSW_FTP_STATUS_UNSUPPORTED | KFSW_FTP_STATUS_TIMEOUT | KFSW_FTP_STATUS_CONNECTION_ERROR
  | KFSW_FTP_STATUS_NOT_DIRECTORY | KFSW_FTP_STATUS_READ_ONLY

fun ftp_status_value :: "kfsw_ftp_wire_status \<Rightarrow> u8" where
  "ftp_status_value KFSW_FTP_STATUS_OK = 0"
| "ftp_status_value KFSW_FTP_STATUS_INVALID_REQUEST = 1"
| "ftp_status_value KFSW_FTP_STATUS_INVALID_PATH = 2"
| "ftp_status_value KFSW_FTP_STATUS_NOT_FOUND = 3"
| "ftp_status_value KFSW_FTP_STATUS_ALREADY_EXISTS = 4"
| "ftp_status_value KFSW_FTP_STATUS_NO_SPACE = 5"
| "ftp_status_value KFSW_FTP_STATUS_IO_ERROR = 6"
| "ftp_status_value KFSW_FTP_STATUS_INTEGRITY_ERROR = 7"
| "ftp_status_value KFSW_FTP_STATUS_BUSY = 8"
| "ftp_status_value KFSW_FTP_STATUS_UNSUPPORTED = 9"
| "ftp_status_value KFSW_FTP_STATUS_TIMEOUT = 10"
| "ftp_status_value KFSW_FTP_STATUS_CONNECTION_ERROR = 11"
| "ftp_status_value KFSW_FTP_STATUS_NOT_DIRECTORY = 12"
| "ftp_status_value KFSW_FTP_STATUS_READ_ONLY = 13"

record kfsw_ftp_message =
  fm_opcode :: u8
  fm_flags :: u8
  fm_status :: u8
  fm_request_id :: u32
  fm_offset :: u32
  fm_total_size :: u32
  fm_crc32 :: u32
  fm_path_size :: u16
  fm_data_size :: u16
  fm_path :: "bytes option"
  fm_data :: "bytes option"

datatype kfsw_ftp_entry_type = KFSW_FTP_ENTRY_FILE | KFSW_FTP_ENTRY_DIRECTORY

record kfsw_ftp_entry =
  en_name :: string
  en_type :: kfsw_ftp_entry_type
  en_size :: u32

record kfsw_ftp_stats =
  ft_transfers :: u32
  ft_failures :: u32
  ft_bytes :: u32
  ft_busy :: bool

record ftp_state =
  ftp_transfers :: u32
  ftp_failures :: u32
  ftp_bytes :: u32
  ftp_timeout_ms :: u32
  ftp_chunk_size :: u16

section \<open>The codec\<close>

definition kfsw_ftp_protocol_encode ::
  "dest \<Rightarrow> nat \<Rightarrow> kfsw_ftp_message option \<Rightarrow> dest \<Rightarrow> errno + bytes" where
  "kfsw_ftp_protocol_encode buffer capacity message encoded_size =
     (case message of
        None \<Rightarrow> Inl EINVAL
      | Some m \<Rightarrow>
          if buffer = Null \<or> encoded_size = Null
             \<or> fm_opcode m < ftp_opcode_value KFSW_FTP_OP_MKDIR_REQUEST
             \<or> fm_opcode m > ftp_opcode_value KFSW_FTP_OP_GET_RESULT
             \<or> unat (fm_path_size m) > KFSW_FTP_MAX_PATH_SIZE
             \<or> unat (fm_data_size m) > KFSW_FTP_CHUNK_SIZE
             \<or> (fm_path_size m \<noteq> 0 \<and> fm_path m = None)
             \<or> (fm_data_size m \<noteq> 0 \<and> fm_data m = None)
          then Inl EINVAL
          else if KFSW_FTP_PROTOCOL_HEADER_SIZE + unat (fm_path_size m) + unat (fm_data_size m) > capacity
          then Inl EMSGSIZE
          else Inr ([KFSW_FTP_PROTOCOL_VERSION, fm_opcode m, fm_flags m, fm_status m]
                    @ sys_put_be32 (fm_request_id m) @ sys_put_be32 (fm_offset m)
                    @ sys_put_be32 (fm_total_size m) @ sys_put_be32 (fm_crc32 m)
                    @ sys_put_be16 (fm_path_size m) @ sys_put_be16 (fm_data_size m)
                    @ (case fm_path m of None \<Rightarrow> [] | Some p \<Rightarrow> take (unat (fm_path_size m)) p)
                    @ (case fm_data m of None \<Rightarrow> [] | Some d \<Rightarrow> take (unat (fm_data_size m)) d)))"

definition kfsw_ftp_protocol_decode ::
  "bytes option \<Rightarrow> nat \<Rightarrow> dest \<Rightarrow> errno + kfsw_ftp_message" where
  "kfsw_ftp_protocol_decode buffer sz message =
     (case buffer of
        None \<Rightarrow> Inl EMSGSIZE
      | Some b \<Rightarrow>
          if message = Null \<or> sz < KFSW_FTP_PROTOCOL_HEADER_SIZE then Inl EMSGSIZE
          else if b ! 0 \<noteq> KFSW_FTP_PROTOCOL_VERSION then Inl EPROTONOSUPPORT
          else if b ! 1 < ftp_opcode_value KFSW_FTP_OP_MKDIR_REQUEST
                  \<or> b ! 1 > ftp_opcode_value KFSW_FTP_OP_GET_RESULT then Inl ENOTSUP
          else
            let path_size = sys_get_be16 (drop 20 b);
                data_size = sys_get_be16 (drop 22 b);
                path = take (unat path_size) (drop KFSW_FTP_PROTOCOL_HEADER_SIZE b)
            in if unat path_size > KFSW_FTP_MAX_PATH_SIZE \<or> unat data_size > KFSW_FTP_CHUNK_SIZE
               then Inl EMSGSIZE
               else if KFSW_FTP_PROTOCOL_HEADER_SIZE + unat path_size + unat data_size \<noteq> sz
               then Inl EMSGSIZE
               else if path_size \<noteq> 0 \<and> 0 \<in> set path then Inl EBADMSG
               else Inr \<lparr>fm_opcode = b ! 1, fm_flags = b ! 2, fm_status = b ! 3,
                         fm_request_id = sys_get_be32 (drop 4 b), fm_offset = sys_get_be32 (drop 8 b),
                         fm_total_size = sys_get_be32 (drop 12 b), fm_crc32 = sys_get_be32 (drop 16 b),
                         fm_path_size = path_size, fm_data_size = data_size, fm_path = Some path,
                         fm_data = Some (take (unat data_size)
                           (drop (KFSW_FTP_PROTOCOL_HEADER_SIZE + unat path_size) b))\<rparr>)"

definition kfsw_ftp_copy_message_path ::
  "kfsw_ftp_message option \<Rightarrow> dest \<Rightarrow> nat \<Rightarrow> errno + string" where
  "kfsw_ftp_copy_message_path message path path_size =
     (case message of
        None \<Rightarrow> Inl EINVAL
      | Some m \<Rightarrow>
          if path = Null \<or> fm_path_size m = 0 \<or> unat (fm_path_size m) \<ge> path_size then Inl EINVAL
          else Inr (c_string_of_bytes
                 (take (unat (fm_path_size m)) (case fm_path m of None \<Rightarrow> [] | Some p \<Rightarrow> p))))"

section \<open>The path policy\<close>

record extra_root_entry =
  er_prefix :: string
  er_root :: string
  er_writable :: bool

definition extra_roots :: "string option \<Rightarrow> extra_root_entry list" where
  "extra_roots tmp_mount =
     [\<lparr>er_prefix = KFSW_FTP_HK_PATH, er_root = KFSW_FTP_READONLY_ROOT, er_writable = False\<rparr>,
      \<lparr>er_prefix = KFSW_FTP_BOOT_PATH, er_root = ''/kfsw/boot'', er_writable = False\<rparr>]
     @ (case tmp_mount of
          None \<Rightarrow> []
        | Some mount \<Rightarrow> [\<lparr>er_prefix = KFSW_FTP_TMP_PATH, er_root = mount, er_writable = True\<rparr>])"

definition strip_slash :: "string \<Rightarrow> string" where
  "strip_slash s = (if s \<noteq> [] \<and> hd s = CHR ''/'' then tl s else s)"

definition selects :: "string \<Rightarrow> extra_root_entry \<Rightarrow> bool" where
  "selects relative e \<longleftrightarrow> take (length (er_prefix e)) relative = er_prefix e
     \<and> (let rest = drop (length (er_prefix e)) relative in rest = [] \<or> hd rest = CHR ''/'')"

definition extra_root :: "string option \<Rightarrow> string option \<Rightarrow> nat option" where
  "extra_root tmp_mount virtual_path =
     (case virtual_path of
        None \<Rightarrow> None
      | Some path \<Rightarrow> first_index (selects (strip_slash path)) (extra_roots tmp_mount))"

definition kfsw_ftp_path_is_read_only :: "string option \<Rightarrow> string option \<Rightarrow> bool" where
  "kfsw_ftp_path_is_read_only tmp_mount virtual_path =
     (case extra_root tmp_mount virtual_path of
        None \<Rightarrow> False
      | Some i \<Rightarrow> \<not> er_writable (extra_roots tmp_mount ! i))"

text \<open>
  The listing of the extra roots: \<open>exists\<close> is whether \<open>fs_stat\<close> finds the root. The result is whether the
  visitor went on to the end, and its context.
\<close>

fun list_roots ::
  "(string \<Rightarrow> bool) \<Rightarrow> (kfsw_ftp_entry \<Rightarrow> 'c \<Rightarrow> bool \<times> 'c) \<Rightarrow> extra_root_entry list \<Rightarrow> 'c \<Rightarrow> bool \<times> 'c" where
  "list_roots exists visitor [] context = (True, context)"
| "list_roots exists visitor (e # es) context =
     (if \<not> exists (er_root e) then list_roots exists visitor es context
      else
        let (again, context') =
          visitor \<lparr>en_name = er_prefix e, en_type = KFSW_FTP_ENTRY_DIRECTORY, en_size = 0\<rparr> context
        in if \<not> again then (False, context') else list_roots exists visitor es context')"

definition kfsw_ftp_list_roots ::
  "string option \<Rightarrow> (string \<Rightarrow> bool) \<Rightarrow> (kfsw_ftp_entry \<Rightarrow> 'c \<Rightarrow> bool \<times> 'c) \<Rightarrow> 'c \<Rightarrow> bool \<times> 'c" where
  "kfsw_ftp_list_roots tmp_mount exists visitor context =
     list_roots exists visitor (extra_roots tmp_mount) context"

text \<open>The loop over the characters; \<open>component\<close> is what it has read since the last separator.\<close>

definition bad_component :: "string \<Rightarrow> bool" where
  "bad_component c \<longleftrightarrow> c = [] \<or> c = ''.'' \<or> c = ''..''"

definition bad_character :: "char \<Rightarrow> bool" where
  "bad_character c \<longleftrightarrow> c = CHR 0x5C \<or> (of_char c :: nat) < 0x20 \<or> (of_char c :: nat) = 0x7F"

fun check_path :: "string \<Rightarrow> string \<Rightarrow> rc" where
  "check_path component [] = (if bad_component component then Some EINVAL else None)"
| "check_path component (c # cs) =
     (if c = CHR ''/'' then (if bad_component component then Some EINVAL else check_path [] cs)
      else if bad_character c then Some EINVAL
      else check_path (component @ [c]) cs)"

definition kfsw_ftp_resolve_path ::
  "string option \<Rightarrow> string option \<Rightarrow> bool \<Rightarrow> dest \<Rightarrow> nat \<Rightarrow> errno + string" where
  "kfsw_ftp_resolve_path tmp_mount virtual_path allow_root resolved resolved_size =
     (case virtual_path of
        None \<Rightarrow> Inl EINVAL
      | Some path \<Rightarrow>
          if resolved = Null then Inl EINVAL
          else if length path > KFSW_FTP_MAX_PATH_SIZE then Inl ENAMETOOLONG
          else
            let (root, relative) =
              (case extra_root tmp_mount virtual_path of
                 None \<Rightarrow> (KFSW_FTP_ROOT_PATH, strip_slash path)
               | Some i \<Rightarrow>
                   let e = extra_roots tmp_mount ! i
                   in (er_root e, strip_slash (drop (length (er_prefix e)) (strip_slash path))))
            in if relative = [] then
                 (if \<not> allow_root \<or> resolved_size \<le> length root then Inl EINVAL else Inr root)
               else if resolved_size \<le> length root + 1 + length relative then Inl ENAMETOOLONG
               else (case check_path [] relative of
                       Some e \<Rightarrow> Inl e
                     | None \<Rightarrow> Inr (root @ ''/'' @ relative)))"

definition kfsw_ftp_resolve_write_path ::
  "string option \<Rightarrow> string option \<Rightarrow> dest \<Rightarrow> nat \<Rightarrow> errno + string" where
  "kfsw_ftp_resolve_write_path tmp_mount virtual_path resolved resolved_size =
     (if kfsw_ftp_path_is_read_only tmp_mount virtual_path then Inl EROFS
      else kfsw_ftp_resolve_path tmp_mount virtual_path False resolved resolved_size)"

definition kfsw_ftp_validate_path :: "string option \<Rightarrow> string option \<Rightarrow> bool \<Rightarrow> rc" where
  "kfsw_ftp_validate_path tmp_mount path allow_root =
     (case kfsw_ftp_resolve_path tmp_mount path allow_root Dest KFSW_FTP_FULL_PATH_SIZE of
        Inl e \<Rightarrow> Some e
      | Inr resolved \<Rightarrow> None)"

section \<open>Status mapping\<close>

definition kfsw_ftp_wire_status_to_errno :: "u8 \<Rightarrow> rc" where
  "kfsw_ftp_wire_status_to_errno status =
     (if status = ftp_status_value KFSW_FTP_STATUS_OK then None
      else if status = ftp_status_value KFSW_FTP_STATUS_INVALID_REQUEST then Some EBADMSG
      else if status = ftp_status_value KFSW_FTP_STATUS_INVALID_PATH then Some EINVAL
      else if status = ftp_status_value KFSW_FTP_STATUS_NOT_FOUND then Some ENOENT
      else if status = ftp_status_value KFSW_FTP_STATUS_ALREADY_EXISTS then Some EEXIST
      else if status = ftp_status_value KFSW_FTP_STATUS_NO_SPACE then Some ENOSPC
      else if status = ftp_status_value KFSW_FTP_STATUS_INTEGRITY_ERROR then Some EILSEQ
      else if status = ftp_status_value KFSW_FTP_STATUS_BUSY then Some EBUSY
      else if status = ftp_status_value KFSW_FTP_STATUS_UNSUPPORTED then Some ENOTSUP
      else if status = ftp_status_value KFSW_FTP_STATUS_TIMEOUT then Some ETIMEDOUT
      else if status = ftp_status_value KFSW_FTP_STATUS_CONNECTION_ERROR then Some ECONNREFUSED
      else if status = ftp_status_value KFSW_FTP_STATUS_NOT_DIRECTORY then Some ENOTDIR
      else if status = ftp_status_value KFSW_FTP_STATUS_READ_ONLY then Some EROFS
      else Some EIO)"

fun wire_status_of_errno :: "errno \<Rightarrow> kfsw_ftp_wire_status" where
  "wire_status_of_errno EINVAL = KFSW_FTP_STATUS_INVALID_PATH"
| "wire_status_of_errno ENAMETOOLONG = KFSW_FTP_STATUS_INVALID_PATH"
| "wire_status_of_errno ENOENT = KFSW_FTP_STATUS_NOT_FOUND"
| "wire_status_of_errno EEXIST = KFSW_FTP_STATUS_ALREADY_EXISTS"
| "wire_status_of_errno EROFS = KFSW_FTP_STATUS_READ_ONLY"
| "wire_status_of_errno ENOSPC = KFSW_FTP_STATUS_NO_SPACE"
| "wire_status_of_errno EILSEQ = KFSW_FTP_STATUS_INTEGRITY_ERROR"
| "wire_status_of_errno EBADMSG = KFSW_FTP_STATUS_INTEGRITY_ERROR"
| "wire_status_of_errno EBUSY = KFSW_FTP_STATUS_BUSY"
| "wire_status_of_errno ENOTSUP = KFSW_FTP_STATUS_UNSUPPORTED"
| "wire_status_of_errno EPROTONOSUPPORT = KFSW_FTP_STATUS_UNSUPPORTED"
| "wire_status_of_errno ETIMEDOUT = KFSW_FTP_STATUS_TIMEOUT"
| "wire_status_of_errno ECONNREFUSED = KFSW_FTP_STATUS_CONNECTION_ERROR"
| "wire_status_of_errno ECONNRESET = KFSW_FTP_STATUS_CONNECTION_ERROR"
| "wire_status_of_errno EISDIR = KFSW_FTP_STATUS_NOT_DIRECTORY"
| "wire_status_of_errno ENOTDIR = KFSW_FTP_STATUS_NOT_DIRECTORY"
| "wire_status_of_errno _ = KFSW_FTP_STATUS_IO_ERROR"

definition kfsw_ftp_errno_to_wire_status :: "rc \<Rightarrow> u8" where
  "kfsw_ftp_errno_to_wire_status error =
     (case error of
        None \<Rightarrow> ftp_status_value KFSW_FTP_STATUS_OK
      | Some e \<Rightarrow> ftp_status_value (wire_status_of_errno e))"

section \<open>Settings and counters\<close>

definition kfsw_ftp_count_transfer :: "u32 \<Rightarrow> bool \<Rightarrow> ftp_state \<Rightarrow> ftp_state" where
  "kfsw_ftp_count_transfer moved failed st =
     (if failed then st\<lparr>ftp_failures := ftp_failures st + 1\<rparr>
      else st\<lparr>ftp_transfers := ftp_transfers st + 1, ftp_bytes := ftp_bytes st + moved\<rparr>)"

definition kfsw_ftp_get_stats :: "bool \<Rightarrow> dest \<Rightarrow> ftp_state \<Rightarrow> errno + kfsw_ftp_stats" where
  "kfsw_ftp_get_stats busy stats st =
     (if stats = Null then Inl EINVAL
      else Inr \<lparr>ft_transfers = ftp_transfers st, ft_failures = ftp_failures st, ft_bytes = ftp_bytes st,
                ft_busy = busy\<rparr>)"

definition kfsw_ftp_get_timeout_ms :: "ftp_state \<Rightarrow> u32" where
  "kfsw_ftp_get_timeout_ms st = ftp_timeout_ms st"

definition kfsw_ftp_check_timeout_ms :: "u32 \<Rightarrow> rc" where
  "kfsw_ftp_check_timeout_ms timeout_ms =
     (if timeout_ms < KFSW_FTP_TIMEOUT_MIN_MS \<or> timeout_ms > KFSW_FTP_TIMEOUT_MAX_MS then Some ERANGE else None)"

definition kfsw_ftp_set_timeout_ms :: "u32 \<Rightarrow> ftp_state \<Rightarrow> rc \<times> ftp_state" where
  "kfsw_ftp_set_timeout_ms timeout_ms st =
     (case kfsw_ftp_check_timeout_ms timeout_ms of
        Some e \<Rightarrow> (Some e, st)
      | None \<Rightarrow> (None, st\<lparr>ftp_timeout_ms := timeout_ms\<rparr>))"

definition kfsw_ftp_get_chunk_size :: "ftp_state \<Rightarrow> u16" where
  "kfsw_ftp_get_chunk_size st = ftp_chunk_size st"

definition kfsw_ftp_check_chunk_size :: "u16 \<Rightarrow> rc" where
  "kfsw_ftp_check_chunk_size chunk_size =
     (if chunk_size = 0 \<or> unat chunk_size > KFSW_FTP_CHUNK_SIZE then Some ERANGE else None)"

definition kfsw_ftp_set_chunk_size :: "u16 \<Rightarrow> ftp_state \<Rightarrow> rc \<times> ftp_state" where
  "kfsw_ftp_set_chunk_size chunk_size st =
     (case kfsw_ftp_check_chunk_size chunk_size of
        Some e \<Rightarrow> (Some e, st)
      | None \<Rightarrow> (None, st\<lparr>ftp_chunk_size := chunk_size\<rparr>))"

section \<open>Specification vocabulary\<close>

definition ftp_message_wf :: "kfsw_ftp_message \<Rightarrow> bool" where
  "ftp_message_wf m \<longleftrightarrow> 1 \<le> fm_opcode m \<and> fm_opcode m \<le> 15
     \<and> (case fm_path m of
          None \<Rightarrow> False
        | Some p \<Rightarrow> length p = unat (fm_path_size m) \<and> length p \<le> 96 \<and> 0 \<notin> set p)
     \<and> (case fm_data m of None \<Rightarrow> False | Some d \<Rightarrow> length d = unat (fm_data_size m) \<and> length d \<le> 192)"

definition ftp_demo_message :: kfsw_ftp_message where
  "ftp_demo_message = \<lparr>fm_opcode = 8, fm_flags = 0, fm_status = 0, fm_request_id = 7, fm_offset = 0,
     fm_total_size = 3, fm_crc32 = 9, fm_path_size = 1, fm_data_size = 0, fm_path = Some [97],
     fm_data = Some []\<rparr>"

text \<open>The components of a path, and the path of some components.\<close>

fun path_components :: "string \<Rightarrow> string list" where
  "path_components [] = [[]]"
| "path_components (c # cs) =
     (if c = CHR ''/'' then [] # path_components cs
      else (c # hd (path_components cs)) # tl (path_components cs))"

fun path_join :: "string list \<Rightarrow> string" where
  "path_join [] = []"
| "path_join [c] = c"
| "path_join (c # d # ds) = c @ CHR ''/'' # path_join (d # ds)"

definition safe_component :: "string \<Rightarrow> bool" where
  "safe_component c \<longleftrightarrow> \<not> bad_component c \<and> list_all (\<lambda>x. \<not> bad_character x) c \<and> CHR ''/'' \<notin> set c"

text \<open>What a list of components designates: the root its first component selects, and the rest.\<close>

definition root_of_components :: "string option \<Rightarrow> string list \<Rightarrow> string \<times> string list" where
  "root_of_components tmp_mount cs =
     (case first_index (\<lambda>e. er_prefix e = hd cs) (extra_roots tmp_mount) of
        None \<Rightarrow> (KFSW_FTP_ROOT_PATH, cs)
      | Some i \<Rightarrow> (er_root (extra_roots tmp_mount ! i), tl cs))"

definition ftp_settings_ok :: "ftp_state \<Rightarrow> bool" where
  "ftp_settings_ok st \<longleftrightarrow> 0 < unat (ftp_chunk_size st) \<and> unat (ftp_chunk_size st) \<le> KFSW_FTP_CHUNK_SIZE
     \<and> KFSW_FTP_TIMEOUT_MIN_MS \<le> ftp_timeout_ms st \<and> ftp_timeout_ms st \<le> KFSW_FTP_TIMEOUT_MAX_MS"

section \<open>Codec lemmas\<close>

lemma u8_ge_1: "1 \<le> (x :: u8) \<longleftrightarrow> x \<noteq> 0"
  by (auto simp: word_le_nat_alt Suc_le_eq unat_gt_0)

lemma ftp_encode_total:
  assumes "ftp_message_wf m"
  shows "\<exists>b. kfsw_ftp_protocol_encode Dest 312 (Some m) Dest = Inr b"
  using assms
  by (auto simp: ftp_message_wf_def kfsw_ftp_protocol_encode_def ftp_sizes not_less split: option.splits)

lemma ftp_encoded:
  assumes "ftp_message_wf m" and "kfsw_ftp_protocol_encode Dest 312 (Some m) Dest = Inr b"
    and "fm_path m = Some p" and "fm_data m = Some d"
  shows "b = [1, fm_opcode m, fm_flags m, fm_status m]
                    @ sys_put_be32 (fm_request_id m) @ sys_put_be32 (fm_offset m)
                    @ sys_put_be32 (fm_total_size m) @ sys_put_be32 (fm_crc32 m)
                    @ sys_put_be16 (fm_path_size m) @ sys_put_be16 (fm_data_size m) @ p @ d"
  using assms by (auto simp: ftp_message_wf_def kfsw_ftp_protocol_encode_def ftp_sizes split: if_splits)

lemma ftp_decode_encode:
  assumes wf: "ftp_message_wf m" and enc: "kfsw_ftp_protocol_encode Dest 312 (Some m) Dest = Inr b"
  shows "kfsw_ftp_protocol_decode (Some b) (length b) Dest = Inr m"
proof -
  obtain p d where pd: "fm_path m = Some p" "fm_data m = Some d"
    using wf by (auto simp: ftp_message_wf_def split: option.splits)
  have b: "b = [1, fm_opcode m, fm_flags m, fm_status m]
                    @ sys_put_be32 (fm_request_id m) @ sys_put_be32 (fm_offset m)
                    @ sys_put_be32 (fm_total_size m) @ sys_put_be32 (fm_crc32 m)
                    @ sys_put_be16 (fm_path_size m) @ sys_put_be16 (fm_data_size m) @ p @ d"
    by (rule ftp_encoded [OF wf enc pd])
  have sz: "unat (fm_path_size m) = length p" "unat (fm_data_size m) = length d" "length p \<le> 96"
    "length d \<le> 192" "0 \<notin> set p" "1 \<le> fm_opcode m" "fm_opcode m \<le> 15"
    using wf pd by (auto simp: ftp_message_wf_def)
  have len: "length b = 24 + length p + length d" by (simp add: b)
  have d: "drop 4 b = sys_put_be32 (fm_request_id m) @ drop 8 b"
    "drop 8 b = sys_put_be32 (fm_offset m) @ drop 12 b"
    "drop 12 b = sys_put_be32 (fm_total_size m) @ drop 16 b"
    "drop 16 b = sys_put_be32 (fm_crc32 m) @ drop 20 b"
    "drop 20 b = sys_put_be16 (fm_path_size m) @ drop 22 b"
    "drop 22 b = sys_put_be16 (fm_data_size m) @ drop 24 b"
    "drop 24 b = p @ d"
    by (simp_all add: b)
  have d8: "drop (24 + length p) b = d"
    using arg_cong [OF d(7), of "drop (length p)"] by (simp add: add.commute)
  have n: "b ! 0 = 1" "b ! 1 = fm_opcode m" "b ! 2 = fm_flags m" "b ! 3 = fm_status m"
    by (simp_all add: b)
  have g: "sys_get_be32 (drop 4 b) = fm_request_id m" "sys_get_be32 (drop 8 b) = fm_offset m"
    "sys_get_be32 (drop 12 b) = fm_total_size m" "sys_get_be32 (drop 16 b) = fm_crc32 m"
    "sys_get_be16 (drop 20 b) = fm_path_size m" "sys_get_be16 (drop 22 b) = fm_data_size m"
    by (subst d, simp only: get_put_be)+
  have m: "m = \<lparr>fm_opcode = fm_opcode m, fm_flags = fm_flags m, fm_status = fm_status m,
      fm_request_id = fm_request_id m, fm_offset = fm_offset m, fm_total_size = fm_total_size m,
      fm_crc32 = fm_crc32 m, fm_path_size = fm_path_size m, fm_data_size = fm_data_size m,
      fm_path = Some p, fm_data = Some d\<rparr>"
    using pd by simp
  have ge: "\<not> length b < 24" using len by simp
  show ?thesis
    unfolding kfsw_ftp_protocol_decode_def ftp_sizes Let_def option.case n g sz d(7) d8
    using sz(3-7) ge by (simp add: sz not_less len d d8 u8_ge_1 m [symmetric])
qed

lemma ftp_encode_decode:
  assumes dec: "kfsw_ftp_protocol_decode (Some b) (length b) Dest = Inr m"
  shows "ftp_message_wf m \<and> kfsw_ftp_protocol_encode Dest 312 (Some m) Dest = Inr b"
proof -
  have len: "24 \<le> length b"
    using dec by (auto simp: kfsw_ftp_protocol_decode_def ftp_sizes split: if_splits)
  obtain h r where b: "b = h @ r" and h: "length h = 24"
    using len by (metis append_take_drop_id length_take min.absorb2)
  obtain b0 b1 b2 b3 b4 b5 b6 b7 b8 b9 b10 b11 b12 b13 b14 b15 b16 b17 b18 b19 b20 b21 b22 b23 where
    hb: "h = [b0, b1, b2, b3, b4, b5, b6, b7, b8, b9, b10, b11, b12, b13, b14, b15, b16, b17, b18, b19,
              b20, b21, b22, b23]"
    using h by (auto simp: length_Suc_conv eval_nat_numeral)
  let ?p = "sys_get_be16 [b20, b21]" and ?d = "sys_get_be16 [b22, b23]"
  have g: "sys_get_be16 (drop 20 b) = ?p" "sys_get_be16 (drop 22 b) = ?d"
    by (simp_all add: b hb sys_get_be16_def)
  have dr: "drop 24 b = r" "drop (24 + unat ?p) b = drop (unat ?p) r"
    by (simp_all add: b h)
  have ok: "b0 = 1" "1 \<le> b1" "b1 \<le> 15" "unat ?p \<le> 96" "unat ?d \<le> 192"
    "length r = unat ?p + unat ?d" "0 \<notin> set (take (unat ?p) r)"
    and m: "m = \<lparr>fm_opcode = b1, fm_flags = b2, fm_status = b3,
       fm_request_id = sys_get_be32 (drop 4 b), fm_offset = sys_get_be32 (drop 8 b),
       fm_total_size = sys_get_be32 (drop 12 b), fm_crc32 = sys_get_be32 (drop 16 b),
       fm_path_size = ?p, fm_data_size = ?d, fm_path = Some (take (unat ?p) r),
       fm_data = Some (take (unat ?d) (drop (unat ?p) r))\<rparr>"
    using dec
    unfolding kfsw_ftp_protocol_decode_def ftp_sizes Let_def option.case g dr
    by (auto simp: b h hb not_less u8_ge_1 split: if_splits)
  have tail: "take (unat ?p) r @ take (unat ?d) (drop (unat ?p) r) = r"
    using ok(6) by (simp add: take_all)
  have "ftp_message_wf m" using ok by (simp add: m ftp_message_wf_def)
  moreover have "kfsw_ftp_protocol_encode Dest 312 (Some m) Dest = Inr b"
    using ok tail
    by (auto simp: m kfsw_ftp_protocol_encode_def ftp_sizes not_less) (simp add: b hb)
  ultimately show ?thesis by blast
qed

interpretation ftp_codec: canonical_codec
  "\<lambda>m. ok (kfsw_ftp_protocol_encode Dest 312 (Some m) Dest)"
  "\<lambda>b. ok (kfsw_ftp_protocol_decode (Some b) (length b) Dest)" ftp_message_wf
proof unfold_locales
  fix m b
  show "ftp_message_wf m \<Longrightarrow> \<exists>b. ok (kfsw_ftp_protocol_encode Dest 312 (Some m) Dest) = Some b"
    using ftp_encode_total [of m] by simp
  show "ftp_message_wf m \<Longrightarrow> ok (kfsw_ftp_protocol_encode Dest 312 (Some m) Dest) = Some b \<Longrightarrow>
      ok (kfsw_ftp_protocol_decode (Some b) (length b) Dest) = Some m"
    using ftp_decode_encode [of m b] by simp
  show "ok (kfsw_ftp_protocol_decode (Some b) (length b) Dest) = Some m \<Longrightarrow> ftp_message_wf m"
    using ftp_encode_decode [of b m] by simp
  show "ok (kfsw_ftp_protocol_decode (Some b) (length b) Dest) = Some m \<Longrightarrow>
      ok (kfsw_ftp_protocol_encode Dest 312 (Some m) Dest) = Some b"
    using ftp_encode_decode [of b m] by simp
qed

section \<open>Path lemmas\<close>

lemma path_components_nonempty [simp]: "path_components s \<noteq> []"
  by (cases s) auto

lemma path_components_no_slash: "c \<in> set (path_components s) \<Longrightarrow> CHR ''/'' \<notin> set c"
proof (induction s arbitrary: c)
  case (Cons a s)
  then show ?case
    by (cases "path_components s") (auto split: if_splits)
qed simp

lemma check_path_ok:
  "check_path acc s = None \<longleftrightarrow>
     \<not> bad_component (acc @ hd (path_components s))
     \<and> list_all (\<lambda>x. \<not> bad_character x) (hd (path_components s))
     \<and> list_all (\<lambda>c. \<not> bad_component c \<and> list_all (\<lambda>x. \<not> bad_character x) c) (tl (path_components s))"
proof (induction acc s rule: check_path.induct)
  case (2 acc c cs)
  show ?case
  proof (cases "path_components cs")
    case (Cons h t)
    with 2 show ?thesis by auto
  qed simp
qed simp

lemma check_path_safe: "check_path [] s = None \<longleftrightarrow> list_all safe_component (path_components s)"
proof -
  obtain h r where "path_components s = h # r" by (cases "path_components s") auto
  then show ?thesis
    using path_components_no_slash [of _ s] check_path_ok [of "[]" s]
    by (auto simp: list_all_iff safe_component_def)
qed

lemma components_append_slash:
  "CHR ''/'' \<notin> set c \<Longrightarrow> path_components (c @ CHR ''/'' # s) = c # path_components s"
  by (induction c) auto

lemma components_single: "CHR ''/'' \<notin> set c \<Longrightarrow> path_components c = [c]"
  by (induction c) auto

lemma components_join:
  "cs \<noteq> [] \<Longrightarrow> list_all safe_component cs \<Longrightarrow> path_components (path_join cs) = cs"
  by (induction cs rule: path_join.induct)
    (auto simp: safe_component_def components_single components_append_slash)

lemma join_Cons: "path_join (c # cs) = (if cs = [] then c else c @ CHR ''/'' # path_join cs)"
  by (cases cs) auto

lemma safe_hd: "safe_component c \<Longrightarrow> c \<noteq> [] \<and> hd c \<noteq> CHR ''/''"
  by (cases c) (auto simp: safe_component_def bad_component_def)

lemma join_safe: "cs \<noteq> [] \<Longrightarrow> list_all safe_component cs \<Longrightarrow> path_join cs \<noteq> [] \<and> hd (path_join cs) \<noteq> CHR ''/''"
  by (cases cs) (auto simp: join_Cons dest: safe_hd)

lemma prefix_no_slash: "e \<in> set (extra_roots t) \<Longrightarrow> CHR ''/'' \<notin> set (er_prefix e)"
  by (auto simp: extra_roots_def KFSW_FTP_HK_PATH_def KFSW_FTP_BOOT_PATH_def KFSW_FTP_TMP_PATH_def
      split: option.splits)

lemma selects_components:
  assumes "CHR ''/'' \<notin> set (er_prefix e)"
  shows "selects s e \<longleftrightarrow> hd (path_components s) = er_prefix e"
proof
  assume sel: "selects s e"
  let ?n = "length (er_prefix e)"
  have s: "s = er_prefix e @ drop ?n s"
    using sel append_take_drop_id [of ?n s] by (simp add: selects_def)
  have "drop ?n s = [] \<or> hd (drop ?n s) = CHR ''/''"
    using sel by (simp add: selects_def Let_def)
  then show "hd (path_components s) = er_prefix e"
  proof
    assume "drop ?n s = []"
    with s have "s = er_prefix e" by (metis append_Nil2)
    then show ?thesis using assms by (simp add: components_single)
  next
    assume h: "hd (drop ?n s) = CHR ''/''"
    show ?thesis
    proof (cases "drop ?n s")
      case Nil
      with s have "s = er_prefix e" by (metis append_Nil2)
      then show ?thesis using assms by (simp add: components_single)
    next
      case (Cons a r)
      with s h have "s = er_prefix e @ CHR ''/'' # r" by simp
      then show ?thesis using components_append_slash [OF assms, of r] by simp
    qed
  qed
next
  have "\<exists>r. s = hd (path_components s) @ r \<and> (r = [] \<or> hd r = CHR ''/'')"
    by (induction s) auto
  moreover assume "hd (path_components s) = er_prefix e"
  ultimately show "selects s e" by (auto simp: selects_def)
qed

lemma first_index_cong: "(\<And>x. x \<in> set xs \<Longrightarrow> P x = Q x) \<Longrightarrow> first_index P xs = first_index Q xs"
  by (induction xs) auto

lemma extra_root_components:
  "extra_root t (Some p) =
     first_index (\<lambda>e. er_prefix e = hd (path_components (strip_slash p))) (extra_roots t)"
proof -
  have "extra_root t (Some p) = first_index (selects (strip_slash p)) (extra_roots t)"
    by (simp add: extra_root_def)
  also have "\<dots> = first_index (\<lambda>e. er_prefix e = hd (path_components (strip_slash p))) (extra_roots t)"
    by (rule first_index_cong) (auto simp: selects_components prefix_no_slash)
  finally show ?thesis .
qed

lemma extra_root_in: "extra_root t p = Some i \<Longrightarrow> extra_roots t ! i \<in> set (extra_roots t)"
  by (auto simp: extra_root_def first_index_Some split: option.splits)

lemma resolved_inside:
  assumes "kfsw_ftp_resolve_path t (Some p) a Dest n = Inr full"
  shows "\<exists>root. root = (case extra_root t (Some p) of None \<Rightarrow> KFSW_FTP_ROOT_PATH | Some i \<Rightarrow> er_root (extra_roots t ! i))
     \<and> length full < n
     \<and> (a \<and> full = root \<or> (\<exists>rel. full = root @ ''/'' @ rel \<and> list_all safe_component (path_components rel)))"
  using assms
  by (auto simp: kfsw_ftp_resolve_path_def Let_def check_path_safe not_le
      split: option.splits if_splits)

lemma writable_root:
  "extra_root t p = Some i \<Longrightarrow> er_writable (extra_roots t ! i) \<Longrightarrow> t = Some (er_root (extra_roots t ! i))"
  by (drule extra_root_in) (auto simp: extra_roots_def split: option.splits)

lemma strip_join:
  assumes "cs \<noteq> []" and "list_all safe_component cs"
  shows "strip_slash (path_join cs) = path_join cs" and "strip_slash (CHR ''/'' # path_join cs) = path_join cs"
  using join_safe [OF assms] by (simp_all add: strip_slash_def)

lemma strip_after_prefix:
  assumes "list_all safe_component (c # cs)"
  shows "strip_slash (drop (length c) (path_join (c # cs))) = path_join cs"
  using assms by (auto simp: join_Cons strip_slash_def)

lemma check_join: "cs \<noteq> [] \<Longrightarrow> list_all safe_component cs \<Longrightarrow> check_path [] (path_join cs) = None"
  by (simp add: check_path_safe components_join)

lemma join_Nil_iff: "list_all safe_component cs \<Longrightarrow> path_join cs = [] \<longleftrightarrow> cs = []"
  using join_safe [of cs] by auto

lemma designated:
  assumes "cs \<noteq> []" and "list_all safe_component cs" and "strip_slash p = path_join cs"
  shows "(case extra_root t (Some p) of
             None \<Rightarrow> (KFSW_FTP_ROOT_PATH, strip_slash p)
           | Some i \<Rightarrow> let e = extra_roots t ! i
                       in (er_root e, strip_slash (drop (length (er_prefix e)) (strip_slash p))))
         = map_prod (\<lambda>r. r) path_join (root_of_components t cs)"
proof -
  obtain c ds where cs: "cs = c # ds" using assms(1) by (cases cs) auto
  have "path_components (strip_slash p) = cs" using assms by (simp add: components_join)
  then have e: "extra_root t (Some p) = first_index (\<lambda>e. er_prefix e = c) (extra_roots t)"
    using extra_root_components [of t p] by (simp add: cs)
  show ?thesis
  proof (cases "extra_root t (Some p)")
    case None
    with e assms(3) show ?thesis by (simp add: root_of_components_def cs)
  next
    case (Some i)
    then have "er_prefix (extra_roots t ! i) = c" using e by (simp add: first_index_Some)
    with Some e assms strip_after_prefix [of c ds] show ?thesis
      by (simp add: root_of_components_def cs)
  qed
qed

lemma designated_safe:
  "list_all safe_component cs \<Longrightarrow> list_all safe_component (snd (root_of_components t cs))"
  by (cases cs) (auto simp: root_of_components_def split: option.splits)

section \<open>Status and settings lemmas\<close>

text \<open>Only the invalid request changes on the way: it comes back as an integrity error.\<close>

lemma status_round_trip:
  "kfsw_ftp_errno_to_wire_status (kfsw_ftp_wire_status_to_errno (ftp_status_value s)) =
   (if s = KFSW_FTP_STATUS_INVALID_REQUEST then ftp_status_value KFSW_FTP_STATUS_INTEGRITY_ERROR
    else ftp_status_value s)"
  by (cases s) (simp_all add: kfsw_ftp_errno_to_wire_status_def kfsw_ftp_wire_status_to_errno_def)

lemma settings_kept:
  "ftp_settings_ok st \<Longrightarrow> ftp_settings_ok (snd (kfsw_ftp_set_timeout_ms ms st))"
  "ftp_settings_ok st \<Longrightarrow> ftp_settings_ok (snd (kfsw_ftp_set_chunk_size n st))"
  "ftp_settings_ok st \<Longrightarrow> ftp_settings_ok (kfsw_ftp_count_transfer moved failed st)"
  by (auto simp: ftp_settings_ok_def kfsw_ftp_set_timeout_ms_def kfsw_ftp_check_timeout_ms_def
      kfsw_ftp_set_chunk_size_def kfsw_ftp_check_chunk_size_def kfsw_ftp_count_transfer_def
      word_gt_0 unat_gt_0 not_less)

section \<open>Properties\<close>

text \<open>
  The file transfer codec is canonical: a well-formed message (a known opcode, at most 96 path bytes
  without a terminator, at most 192 data bytes) encodes and decodes to itself, and every packet that
  decodes is the encoding of the well-formed message it decodes to.\<close>

theorem ftp_codec_canonical:
  "(ftp_message_wf m \<longrightarrow> (\<exists>b. kfsw_ftp_protocol_encode Dest 312 (Some m) Dest = Inr b
       \<and> kfsw_ftp_protocol_decode (Some b) (length b) Dest = Inr m))
   \<and> (kfsw_ftp_protocol_decode (Some b) (length b) Dest = Inr m \<longrightarrow>
       ftp_message_wf m \<and> kfsw_ftp_protocol_encode Dest 312 (Some m) Dest = Inr b)"
  using ftp_codec.round_trip [of m] ftp_codec.decode_iff [of b m] by simp

theorem ftp_codec_canonical_witness:
  "\<exists>b. kfsw_ftp_protocol_encode Dest 312 (Some ftp_demo_message) Dest = Inr b
     \<and> kfsw_ftp_protocol_decode (Some b) (length b) Dest = Inr ftp_demo_message"
proof -
  have "ftp_message_wf ftp_demo_message" by (simp add: ftp_message_wf_def ftp_demo_message_def)
  then show ?thesis using ftp_codec_canonical [of ftp_demo_message "[]"] by blast
qed

text \<open>
  C5. A virtual path that resolves stays inside the roots: the result is a root, only when the caller
  allows one, or the root, a separator and a relative path whose components are all safe (not empty, not
  a dot or two dots, no control character or backslash); and it fits the destination with its terminator.\<close>

theorem ftp_resolve_confined:
  assumes "kfsw_ftp_resolve_path tmp_mount (Some virtual_path) allow_root Dest resolved_size = Inr full"
  shows "length full < resolved_size
    \<and> (\<exists>root \<in> set (KFSW_FTP_ROOT_PATH # map er_root (extra_roots tmp_mount)).
         allow_root \<and> full = root
         \<or> (\<exists>rel. full = root @ ''/'' @ rel \<and> list_all safe_component (path_components rel)))"
proof -
  let ?r = "case extra_root tmp_mount (Some virtual_path) of
      None \<Rightarrow> KFSW_FTP_ROOT_PATH | Some i \<Rightarrow> er_root (extra_roots tmp_mount ! i)"
  have "?r \<in> set (KFSW_FTP_ROOT_PATH # map er_root (extra_roots tmp_mount))"
    using extra_root_in [of tmp_mount "Some virtual_path"] by (auto split: option.splits)
  with resolved_inside [OF assms] show ?thesis by blast
qed

theorem ftp_resolve_confined_witness:
  "length ''/kfsw/hk/a'' < 128
    \<and> (\<exists>root \<in> set (KFSW_FTP_ROOT_PATH # map er_root (extra_roots None)).
         False \<and> ''/kfsw/hk/a'' = root
         \<or> (\<exists>rel. ''/kfsw/hk/a'' = root @ ''/'' @ rel \<and> list_all safe_component (path_components rel)))"
  by (rule ftp_resolve_confined [of None "''hk/a''" False 128]) code_simp

text \<open>
  C27. Resolution is exact on safe components: a path of at most 96 characters made of safe components,
  with or without a leading separator, designates the root its first component selects and the remaining
  components, and resolves to their concatenation unless the destination is too small.\<close>

theorem ftp_resolve_components:
  assumes "cs \<noteq> []" and "list_all safe_component cs"
    and "path = path_join cs \<or> path = CHR ''/'' # path_join cs" and "length path \<le> 96"
  shows "kfsw_ftp_resolve_path tmp_mount (Some path) allow_root Dest resolved_size =
    (let (root, rest) = root_of_components tmp_mount cs
     in if rest = [] then (if allow_root \<and> length root < resolved_size then Inr root else Inl EINVAL)
        else if length root + 1 + length (path_join rest) < resolved_size
        then Inr (root @ ''/'' @ path_join rest) else Inl ENAMETOOLONG)"
proof -
  obtain root rest where r: "root_of_components tmp_mount cs = (root, rest)" by fastforce
  have safe: "list_all safe_component rest"
    using designated_safe [OF assms(2), of tmp_mount] by (simp add: r)
  have "strip_slash path = path_join cs" using assms(3) strip_join [OF assms(1,2)] by auto
  from designated [OF assms(1,2) this, of tmp_mount] show ?thesis
    using assms(4) safe check_join [of rest]
    by (simp add: kfsw_ftp_resolve_path_def KFSW_FTP_MAX_PATH_SIZE_def r join_Nil_iff not_le)
qed

theorem ftp_resolve_components_witness:
  "kfsw_ftp_resolve_path (Some ''/RAM'') (Some ''/tmp/a/b'') False Dest 128 = Inr ''/RAM/a/b''"
proof -
  have "list_all safe_component [''tmp'', ''a'', ''b'']" by code_simp
  moreover have "''/tmp/a/b'' = CHR ''/'' # path_join [''tmp'', ''a'', ''b'']" by simp
  moreover have "root_of_components (Some ''/RAM'') [''tmp'', ''a'', ''b''] = (''/RAM'', [''a'', ''b''])" by code_simp
  ultimately show ?thesis
    using ftp_resolve_components [of "[''tmp'', ''a'', ''b'']" "''/tmp/a/b''" "Some ''/RAM''" False 128]
    by simp
qed

text \<open>
  No write reaches a read-only root: a path that resolves for writing lies strictly below the file
  transfer root or below the mount point of the RAM volume; a path whose first component is the
  housekeeping or the boot selector is refused as read-only whatever follows.\<close>

theorem ftp_write_confined:
  "(kfsw_ftp_resolve_write_path tmp_mount (Some virtual_path) Dest resolved_size = Inr full \<longrightarrow>
      (\<exists>root \<in> insert KFSW_FTP_ROOT_PATH (set_option tmp_mount).
         \<exists>rel. full = root @ ''/'' @ rel \<and> list_all safe_component (path_components rel)))
   \<and> (hd (path_components (strip_slash virtual_path)) \<in> {''hk'', ''boot''} \<longrightarrow>
      kfsw_ftp_resolve_write_path tmp_mount (Some virtual_path) Dest resolved_size = Inl EROFS)"
proof (intro conjI impI)
  assume *: "kfsw_ftp_resolve_write_path tmp_mount (Some virtual_path) Dest resolved_size = Inr full"
  then have r: "kfsw_ftp_resolve_path tmp_mount (Some virtual_path) False Dest resolved_size = Inr full"
    and w: "\<not> kfsw_ftp_path_is_read_only tmp_mount (Some virtual_path)"
    by (auto simp: kfsw_ftp_resolve_write_path_def split: if_splits)
  let ?r = "case extra_root tmp_mount (Some virtual_path) of
      None \<Rightarrow> KFSW_FTP_ROOT_PATH | Some i \<Rightarrow> er_root (extra_roots tmp_mount ! i)"
  have "?r \<in> insert KFSW_FTP_ROOT_PATH (set_option tmp_mount)"
    using w writable_root [of tmp_mount "Some virtual_path"]
    by (auto simp: kfsw_ftp_path_is_read_only_def split: option.splits)
  with resolved_inside [OF r]
  show "\<exists>root \<in> insert KFSW_FTP_ROOT_PATH (set_option tmp_mount).
         \<exists>rel. full = root @ ''/'' @ rel \<and> list_all safe_component (path_components rel)" by blast
next
  assume "hd (path_components (strip_slash virtual_path)) \<in> {''hk'', ''boot''}"
  then show "kfsw_ftp_resolve_write_path tmp_mount (Some virtual_path) Dest resolved_size = Inl EROFS"
    using extra_root_components [of tmp_mount virtual_path]
    by (auto simp: kfsw_ftp_resolve_write_path_def kfsw_ftp_path_is_read_only_def extra_roots_def
        KFSW_FTP_HK_PATH_def KFSW_FTP_BOOT_PATH_def)
qed

theorem ftp_write_confined_witness:
  "kfsw_ftp_resolve_write_path None (Some ''hk/../ftp/x'') Dest 128 = Inl EROFS"
  using ftp_write_confined [of None "''hk/../ftp/x''" 128] by (simp add: strip_slash_def)

end
