(* ===== verification/Log_History.thy ===== *)
theory Log_History
  imports Contracts
begin

text \<open>
  The log history, \<^verbatim>\<open>src/log_history.c\<close> with \<^verbatim>\<open>src/log_history_internal.h\<close> and the types of
  \<^verbatim>\<open>include/kfsw/services/log_history.h\<close>: a ring of encoded log messages in memory that a reset does not
  clear. The state holds the file's static variables; after a reset \<open>lh_records\<close> and \<open>lh_header\<close> are
  whatever the memory holds and \<open>lh_restored\<close> is false. The record's data is the list of its \<open>size\<close> bytes.
  Sequence numbers are 64-bit words. Each operation runs under the spinlock.

  Outside the sources are the CRC (\<open>lb_crc\<close>), the identity and the record size of the build
  (\<open>lb_image\<close>, \<open>lb_record_size\<close>), and cbprintf: the package it made of a message is a field of the
  request, \<open>None\<close> when it returned an error, and \<open>render\<close> gives the characters it prints of a package.
  The header is laid out as on the little-endian targets, with its padding zero.

  Proved: the ring refines a list of the newest records (an interpretation of \<open>ring_log\<close>); the window
  and the reads agree with that list; the history survives a reset of the same image and is dropped
  when the header is not this image's.
\<close>

section \<open>Types\<close>

definition KFSW_LOG_TEXT_SIZE :: nat where "KFSW_LOG_TEXT_SIZE = 192"
definition KFSW_LOG_HISTORY_MAX_READ :: nat where "KFSW_LOG_HISTORY_MAX_READ = 32"
definition KFSW_LOG_ENCODED_SIZE :: nat where "KFSW_LOG_ENCODED_SIZE = 128"
definition KFSW_LOG_RETAINED_MAGIC :: u32 where "KFSW_LOG_RETAINED_MAGIC = 0x4B464C48"
definition KFSW_LOG_RETAINED_VERSION :: u32 where "KFSW_LOG_RETAINED_VERSION = 2"

record kfsw_log_record =
  lr_sequence :: u64
  lr_uptime_ms :: u64
  lr_module :: u8
  lr_severity :: u8
  lr_truncated :: bool
  lr_text :: string

record kfsw_log_encoded =
  le_sequence :: u64
  le_uptime_ms :: u64
  le_module :: u8
  le_severity :: u8
  le_truncated :: bool
  le_package :: bool
  le_size :: u16
  le_data :: bytes

record log_history_window =
  lw_first :: u64
  lw_end :: u64
  lw_overwritten :: u64

record kfsw_log_retained_header =
  rh_magic :: u32
  rh_version :: u32
  rh_depth :: u32
  rh_record_size :: u32
  rh_image :: u32
  rh_next_sequence :: u64
  rh_crc :: u32

record log_history =
  lh_records :: "kfsw_log_encoded list"
  lh_header :: kfsw_log_retained_header
  lh_restored :: bool

record log_build =
  lb_crc :: "bytes \<Rightarrow> u32"
  lb_image :: u32
  lb_record_size :: u32

record log_request =
  lq_module :: u8
  lq_severity :: u8
  lq_package :: "bytes option"
  lq_text :: string
  lq_truncated :: bool
  lq_uptime_ms :: u64

section \<open>Operations\<close>

definition le32 :: "u32 \<Rightarrow> bytes" where "le32 x = rev (sys_put_be32 x)"
definition le64 :: "u64 \<Rightarrow> bytes" where "le64 x = rev (sys_put_be64 x)"

definition header_bytes :: "kfsw_log_retained_header \<Rightarrow> bytes" where
  "header_bytes h = le32 (rh_magic h) @ le32 (rh_version h) @ le32 (rh_depth h) @ le32 (rh_record_size h)
     @ le32 (rh_image h) @ [0, 0, 0, 0] @ le64 (rh_next_sequence h)"

definition header_crc :: "log_build \<Rightarrow> kfsw_log_retained_header \<Rightarrow> u32" where
  "header_crc b h = lb_crc b (header_bytes h)"

definition publish_header :: "log_build \<Rightarrow> log_history \<Rightarrow> log_history" where
  "publish_header b st = st\<lparr>lh_header := (lh_header st)\<lparr>rh_crc := header_crc b (lh_header st)\<rparr>\<rparr>"

definition retained_valid :: "log_build \<Rightarrow> log_history \<Rightarrow> bool" where
  "retained_valid b st \<longleftrightarrow> rh_magic (lh_header st) = KFSW_LOG_RETAINED_MAGIC
     \<and> rh_version (lh_header st) = KFSW_LOG_RETAINED_VERSION
     \<and> unat (rh_depth (lh_header st)) = length (lh_records st)
     \<and> rh_record_size (lh_header st) = lb_record_size b
     \<and> rh_image (lh_header st) = lb_image b
     \<and> rh_next_sequence (lh_header st) > 0
     \<and> rh_crc (lh_header st) = header_crc b (lh_header st)"

definition restore_once :: "log_build \<Rightarrow> log_history \<Rightarrow> log_history" where
  "restore_once b st =
     (if lh_restored st then st
      else if retained_valid b st then st\<lparr>lh_restored := True\<rparr>
      else publish_header b
        (st\<lparr>lh_restored := True,
            lh_header := \<lparr>rh_magic = KFSW_LOG_RETAINED_MAGIC, rh_version = KFSW_LOG_RETAINED_VERSION,
                          rh_depth = word_of_nat (length (lh_records st)),
                          rh_record_size = lb_record_size b, rh_image = lb_image b,
                          rh_next_sequence = 1, rh_crc = 0\<rparr>\<rparr>))"

definition encode_record :: "log_request \<Rightarrow> u64 \<Rightarrow> kfsw_log_encoded" where
  "encode_record q sequence =
     (let record = \<lparr>le_sequence = sequence, le_uptime_ms = lq_uptime_ms q, le_module = lq_module q,
                    le_severity = lq_severity q, le_truncated = lq_truncated q, le_package = False,
                    le_size = 0, le_data = []\<rparr>;
          packaged = (case lq_package q of None \<Rightarrow> [] | Some p \<Rightarrow> p)
      in if packaged \<noteq> []
         then record\<lparr>le_package := True, le_size := word_of_nat (length packaged), le_data := packaged\<rparr>
         else
           let len = min KFSW_LOG_ENCODED_SIZE (length (lq_text q))
           in if len = KFSW_LOG_ENCODED_SIZE
              then record\<lparr>le_truncated := True, le_size := word_of_nat (len - 1),
                          le_data := bytes_of_string (take (len - 1) (lq_text q))\<rparr>
              else record\<lparr>le_size := word_of_nat len, le_data := bytes_of_string (take len (lq_text q))\<rparr>)"

definition record_slot :: "u64 \<Rightarrow> log_history \<Rightarrow> nat" where
  "record_slot sequence st = unat (sequence - 1) mod length (lh_records st)"

definition kfsw_log_history_append :: "log_build \<Rightarrow> log_request \<Rightarrow> log_history \<Rightarrow> log_history" where
  "kfsw_log_history_append b q st =
     (let st1 = restore_once b st;
          sequence = rh_next_sequence (lh_header st1)
      in publish_header b
           (st1\<lparr>lh_records := (lh_records st1)[record_slot sequence st1 := encode_record q sequence],
                lh_header := (lh_header st1)\<lparr>rh_next_sequence := sequence + 1\<rparr>\<rparr>))"

definition kfsw_log_history_window ::
  "log_build \<Rightarrow> u16 \<Rightarrow> dest \<Rightarrow> log_history \<Rightarrow> (errno + log_history_window) \<times> log_history" where
  "kfsw_log_history_window b count window st =
     (if window = Null \<or> count = 0 \<or> unat count > KFSW_LOG_HISTORY_MAX_READ then (Inl EINVAL, st)
      else
        let st1 = restore_once b st;
            next_seq = rh_next_sequence (lh_header st1);
            held = min (next_seq - 1) (word_of_nat (length (lh_records st1)))
        in (Inr \<lparr>lw_first = next_seq - min held (ucast count), lw_end = next_seq,
                 lw_overwritten = next_seq - 1 - held\<rparr>, st1))"

definition kfsw_log_history_get_encoded ::
  "log_build \<Rightarrow> u64 \<Rightarrow> dest \<Rightarrow> log_history \<Rightarrow> (errno + kfsw_log_encoded) \<times> log_history" where
  "kfsw_log_history_get_encoded b sequence record st =
     (if record = Null then (Inl EINVAL, st)
      else
        let st1 = restore_once b st;
            next_seq = rh_next_sequence (lh_header st1);
            held = lh_records st1 ! record_slot sequence st1
        in if sequence = 0 \<or> sequence \<ge> next_seq \<or> unat (next_seq - sequence) > length (lh_records st1)
           then (Inl ENOENT, st1)
           else if le_sequence held \<noteq> sequence \<or> unat (le_size held) > KFSW_LOG_ENCODED_SIZE
           then (Inl ENOENT, st1)
           else (Inr held, st1))"

text \<open>The sink of the formatter is the text collected and whether a character was left out.\<close>

definition put_char :: "char \<Rightarrow> string \<times> bool \<Rightarrow> string \<times> bool" where
  "put_char c sink =
     (if length (fst sink) + 1 \<ge> KFSW_LOG_TEXT_SIZE then (fst sink, True)
      else (fst sink @ [if c = CHR 0x0A \<or> c = CHR 0x0D then CHR '' '' else c], snd sink))"

definition kfsw_log_history_format :: "(bytes \<Rightarrow> string) \<Rightarrow> kfsw_log_encoded \<Rightarrow> kfsw_log_record" where
  "kfsw_log_history_format render encoded =
     (let (text, full) =
        (if le_package encoded then fold put_char (render (le_data encoded)) ([], False)
         else (string_of_bytes
                 (take (min (unat (le_size encoded)) (KFSW_LOG_TEXT_SIZE - 1)) (le_data encoded)), False))
      in \<lparr>lr_sequence = le_sequence encoded, lr_uptime_ms = le_uptime_ms encoded,
          lr_module = le_module encoded, lr_severity = le_severity encoded,
          lr_truncated = (le_truncated encoded \<or> full), lr_text = text\<rparr>)"

definition kfsw_log_history_get ::
  "log_build \<Rightarrow> (bytes \<Rightarrow> string) \<Rightarrow> u64 \<Rightarrow> dest \<Rightarrow> log_history \<Rightarrow> (errno + kfsw_log_record) \<times> log_history" where
  "kfsw_log_history_get b render sequence record st =
     (if record = Null then (Inl EINVAL, st)
      else (case kfsw_log_history_get_encoded b sequence Dest st of
              (Inl e, st1) \<Rightarrow> (Inl e, st1)
            | (Inr encoded, st1) \<Rightarrow> (Inr (kfsw_log_history_format render encoded), st1)))"

definition kfsw_log_history_install_retained :: "kfsw_log_retained_header \<Rightarrow> log_history \<Rightarrow> log_history" where
  "kfsw_log_history_install_retained retained st = st\<lparr>lh_header := retained, lh_restored := False\<rparr>"

section \<open>Specification vocabulary\<close>

text \<open>A reset clears what is in the ordinary data segment and leaves the retained memory.\<close>

definition log_reset :: "log_history \<Rightarrow> log_history" where
  "log_reset st = st\<lparr>lh_restored := False\<rparr>"

definition next_number :: "log_history \<Rightarrow> nat" where
  "next_number st = unat (rh_next_sequence (lh_header st))"

definition held_numbers :: "log_history \<Rightarrow> nat list" where
  "held_numbers st = [next_number st - min (next_number st - 1) (length (lh_records st)) ..< next_number st]"

definition slot_of :: "log_history \<Rightarrow> nat \<Rightarrow> kfsw_log_encoded" where
  "slot_of st s = lh_records st ! ((s - 1) mod length (lh_records st))"

definition log_contents :: "log_history \<Rightarrow> kfsw_log_encoded list" where
  "log_contents st = map (slot_of st) (held_numbers st)"

definition log_capacity :: "log_history \<Rightarrow> nat" where
  "log_capacity st = length (lh_records st)"

definition log_invar :: "log_build \<Rightarrow> log_history \<Rightarrow> bool" where
  "log_invar b st \<longleftrightarrow> lh_restored st \<and> 0 < length (lh_records st) \<and> length (lh_records st) < 2 ^ 32
     \<and> retained_valid b st
     \<and> list_all (\<lambda>s. le_sequence (slot_of st s) = word_of_nat s
                     \<and> unat (le_size (slot_of st s)) \<le> KFSW_LOG_ENCODED_SIZE) (held_numbers st)"

text \<open>cbprintf keeps to the buffer it is given, and the sequence number is not at its last value.\<close>

definition log_room :: "log_request \<Rightarrow> log_history \<Rightarrow> bool" where
  "log_room q st \<longleftrightarrow> next_number st + 1 < 2 ^ 64
     \<and> (case lq_package q of None \<Rightarrow> True | Some p \<Rightarrow> length p \<le> KFSW_LOG_ENCODED_SIZE)"

definition log_stamp :: "log_request \<Rightarrow> log_history \<Rightarrow> kfsw_log_encoded" where
  "log_stamp q st = encode_record q (rh_next_sequence (lh_header st))"

definition demo_build :: log_build where
  "demo_build = \<lparr>lb_crc = (\<lambda>bs. fold (\<lambda>x a. a + ucast x) bs 0), lb_image = 5, lb_record_size = 160\<rparr>"

definition demo_slot :: kfsw_log_encoded where
  "demo_slot = \<lparr>le_sequence = 0, le_uptime_ms = 0, le_module = 0, le_severity = 0, le_truncated = False,
     le_package = False, le_size = 0, le_data = []\<rparr>"

definition demo_memory :: log_history where
  "demo_memory =
     \<lparr>lh_records = replicate 2 demo_slot,
      lh_header = \<lparr>rh_magic = 0, rh_version = 0, rh_depth = 0, rh_record_size = 0, rh_image = 0,
                   rh_next_sequence = 0, rh_crc = 0\<rparr>,
      lh_restored = False\<rparr>"

definition demo_log :: log_history where
  "demo_log = restore_once demo_build demo_memory"

definition demo_entry :: "string \<Rightarrow> log_request" where
  "demo_entry text = \<lparr>lq_module = 1, lq_severity = 2, lq_package = None, lq_text = text,
     lq_truncated = False, lq_uptime_ms = 9\<rparr>"

section \<open>Lemmas\<close>

lemmas log_sizes = KFSW_LOG_TEXT_SIZE_def KFSW_LOG_HISTORY_MAX_READ_def KFSW_LOG_ENCODED_SIZE_def

lemma header_crc_ignores_crc [simp]: "header_crc b (h\<lparr>rh_crc := c\<rparr>) = header_crc b h"
  by (simp add: header_crc_def header_bytes_def)

lemma publish_header_simps [simp]:
  "lh_records (publish_header b st) = lh_records st"
  "lh_restored (publish_header b st) = lh_restored st"
  "rh_next_sequence (lh_header (publish_header b st)) = rh_next_sequence (lh_header st)"
  by (simp_all add: publish_header_def)

lemma restored_id [simp]: "lh_restored st \<Longrightarrow> restore_once b st = st"
  by (simp add: restore_once_def)

lemma unat_next: "next_number st + 1 < 2 ^ 64 \<Longrightarrow> unat (rh_next_sequence (lh_header st) + 1) = next_number st + 1"
  using unat_plus_small [of "rh_next_sequence (lh_header st)" 1] by (simp add: next_number_def)

lemma record_slot_nat: "s \<noteq> 0 \<Longrightarrow> record_slot s st = (unat s - 1) mod length (lh_records st)"
  by (simp add: record_slot_def unat_minus_one)

lemma slot_other:
  fixes s n d :: nat
  assumes "1 \<le> s" and "s < n" and "n - s < d"
  shows "(s - 1) mod d \<noteq> (n - 1) mod d"
proof
  assume "(s - 1) mod d = (n - 1) mod d"
  then have "d dvd (n - 1) - (s - 1)" using assms mod_eq_dvd_iff_nat [of "s - 1" "n - 1" d] by simp
  then show False using assms by (auto dest: dvd_imp_le)
qed

lemma encode_record_sequence [simp]: "le_sequence (encode_record q s) = s"
  by (simp add: encode_record_def Let_def)

lemma encode_record_size:
  assumes "log_room q st"
  shows "unat (le_size (encode_record q s)) \<le> KFSW_LOG_ENCODED_SIZE"
proof -
  have "unat (word_of_nat n :: u16) \<le> 128" if "n \<le> 128" for n
    using that by (simp add: unat_word_of_nat_small)
  with assms show ?thesis
    by (auto simp: encode_record_def Let_def log_room_def log_sizes split: option.splits)
qed

lemma held_numbers_range:
  "s \<in> set (held_numbers st) \<longleftrightarrow>
   0 < s \<and> s < next_number st \<and> next_number st - s \<le> length (lh_records st)"
  by (auto simp: held_numbers_def)

lemma append_restored:
  assumes "lh_restored st"
  shows "lh_restored (kfsw_log_history_append b q st)"
    and "lh_records (kfsw_log_history_append b q st) =
      (lh_records st)[record_slot (rh_next_sequence (lh_header st)) st := log_stamp q st]"
    and "rh_next_sequence (lh_header (kfsw_log_history_append b q st)) = rh_next_sequence (lh_header st) + 1"
  using assms by (simp_all add: kfsw_log_history_append_def Let_def log_stamp_def)

lemma next_positive: "retained_valid b st \<Longrightarrow> 0 < next_number st"
  by (auto simp: retained_valid_def next_number_def word_less_nat_alt)

lemma append_valid:
  assumes "lh_restored st" and "retained_valid b st" and "next_number st + 1 < 2 ^ 64"
  shows "retained_valid b (kfsw_log_history_append b q st)"
proof -
  have "0 < rh_next_sequence (lh_header st) + 1"
    using unat_next [OF assms(3)] by (simp add: word_less_nat_alt)
  with assms show ?thesis
    by (simp add: kfsw_log_history_append_def Let_def publish_header_def retained_valid_def)
qed

lemma append_numbers:
  assumes "lh_restored st" and "retained_valid b st" and "next_number st + 1 < 2 ^ 64"
  shows "next_number (kfsw_log_history_append b q st) = next_number st + 1"
    and "length (lh_records (kfsw_log_history_append b q st)) = length (lh_records st)"
  using assms unat_next [OF assms(3)] by (simp_all add: next_number_def append_restored)

lemma append_slot:
  assumes "lh_restored st" and "retained_valid b st" and "next_number st + 1 < 2 ^ 64"
    and "0 < length (lh_records st)" and "s \<in> set (held_numbers (kfsw_log_history_append b q st))"
  shows "slot_of (kfsw_log_history_append b q st) s =
    (if s = next_number st then log_stamp q st else slot_of st s)"
proof -
  let ?n = "next_number st" and ?d = "length (lh_records st)"
  have pos: "0 < ?n" by (rule next_positive [OF assms(2)])
  then have nz: "rh_next_sequence (lh_header st) \<noteq> 0" by (auto simp: next_number_def)
  have slot: "record_slot (rh_next_sequence (lh_header st)) st = (?n - 1) mod ?d"
    using record_slot_nat [OF nz] by (simp add: next_number_def)
  have s: "0 < s" "s < ?n + 1" "?n + 1 - s \<le> ?d"
    using assms(5) append_numbers [OF assms(1-3)] by (auto simp: held_numbers_range)
  have "(s - 1) mod ?d \<noteq> (?n - 1) mod ?d" if "s \<noteq> ?n"
    using s that by (intro slot_other) auto
  with assms(1,4) show ?thesis
    by (auto simp: slot_of_def append_restored append_numbers [OF assms(1-3)] slot)
qed

lemma append_held_numbers:
  assumes "lh_restored st" and "retained_valid b st" and "next_number st + 1 < 2 ^ 64"
  shows "held_numbers (kfsw_log_history_append b q st) =
    keep_last (length (lh_records st)) (held_numbers st @ [next_number st])"
proof -
  let ?n = "next_number st" and ?d = "length (lh_records st)"
  have pos: "0 < ?n" by (rule next_positive [OF assms(2)])
  have new: "held_numbers (kfsw_log_history_append b q st) = [?n + 1 - min ?n ?d ..< ?n + 1]"
    by (simp add: held_numbers_def append_numbers [OF assms(1-3)])
  have old: "held_numbers st @ [?n] = [?n - min (?n - 1) ?d ..< ?n + 1]"
    by (simp add: held_numbers_def)
  show ?thesis unfolding new old keep_last_def using pos by (auto simp: drop_upt min_def)
qed

lemma append_contents:
  assumes "log_invar b st" and "log_room q st"
  shows "log_contents (kfsw_log_history_append b q st) =
    keep_last (log_capacity st) (log_contents st @ [log_stamp q st])"
proof -
  let ?st = "kfsw_log_history_append b q st"
  have st: "lh_restored st" "retained_valid b st" "0 < length (lh_records st)" "next_number st + 1 < 2 ^ 64"
    using assms by (auto simp: log_invar_def log_room_def)
  let ?f = "\<lambda>s. if s = next_number st then log_stamp q st else slot_of st s"
  have "log_contents ?st = map ?f (held_numbers ?st)"
    using append_slot [OF st(1,2,4,3)] by (simp add: log_contents_def)
  also have "\<dots> = keep_last (length (lh_records st)) (map ?f (held_numbers st @ [next_number st]))"
    by (simp only: append_held_numbers [OF st(1,2,4)] keep_last_map)
  also have "map ?f (held_numbers st @ [next_number st]) = log_contents st @ [log_stamp q st]"
    by (auto simp: log_contents_def held_numbers_range)
  finally show ?thesis by (simp add: log_capacity_def)
qed

lemma append_invar:
  assumes "log_invar b st" and "log_room q st"
  shows "log_invar b (kfsw_log_history_append b q st)"
proof -
  have st: "lh_restored st" "retained_valid b st" "0 < length (lh_records st)" "next_number st + 1 < 2 ^ 64"
    using assms by (auto simp: log_invar_def log_room_def)
  have stamp: "le_sequence (log_stamp q st) = word_of_nat (next_number st)"
    "unat (le_size (log_stamp q st)) \<le> KFSW_LOG_ENCODED_SIZE"
    using encode_record_size [OF assms(2)] by (simp_all add: log_stamp_def next_number_def)
  have "le_sequence (slot_of (kfsw_log_history_append b q st) s) = word_of_nat s
      \<and> unat (le_size (slot_of (kfsw_log_history_append b q st) s)) \<le> KFSW_LOG_ENCODED_SIZE"
    if s: "s \<in> set (held_numbers (kfsw_log_history_append b q st))" for s
  proof (cases "s = next_number st")
    case True
    then show ?thesis using append_slot [OF st(1,2,4,3) s] stamp by simp
  next
    case False
    with s have "s \<in> set (held_numbers st)"
      using append_numbers [OF st(1,2,4), of q] by (auto simp: held_numbers_range)
    with False show ?thesis
      using append_slot [OF st(1,2,4,3) s] assms(1) by (auto simp: log_invar_def list_all_iff)
  qed
  then show ?thesis
    using assms(1) st append_valid [OF st(1,2,4)]
    by (auto simp: log_invar_def append_restored list_all_iff)
qed

interpretation log_ring: ring_log "kfsw_log_history_append b" log_stamp log_contents log_capacity
  "log_invar b" log_room for b
proof unfold_locales
  fix s x
  assume s: "log_invar b s"
  show "log_room x s \<Longrightarrow> log_invar b (kfsw_log_history_append b x s)"
    using s by (rule append_invar)
  show "log_room x s \<Longrightarrow> log_capacity (kfsw_log_history_append b x s) = log_capacity s"
    using s by (simp add: log_invar_def log_capacity_def append_restored)
  show "log_room x s \<Longrightarrow> log_contents (kfsw_log_history_append b x s) =
      keep_last (log_capacity s) (log_contents s @ [log_stamp x s])"
    using s by (rule append_contents)
  show "0 < log_capacity s" using s by (simp add: log_invar_def log_capacity_def)
  show "length (log_contents s) \<le> log_capacity s"
    by (simp add: log_contents_def held_numbers_def log_capacity_def)
qed

lemma clean_start:
  assumes "\<not> lh_restored st" and "\<not> retained_valid b st"
    and "0 < length (lh_records st)" and "length (lh_records st) < 2 ^ 32"
  shows "log_invar b (restore_once b st)" and "log_contents (restore_once b st) = []"
    and "next_number (restore_once b st) = 1"
proof -
  let ?st = "restore_once b st"
  have u: "unat (word_of_nat (length (lh_records st)) :: u32) = length (lh_records st)"
    using assms(4) by (simp add: unat_word_of_nat_small)
  have n: "rh_next_sequence (lh_header ?st) = 1" using assms(1,2) by (simp add: restore_once_def)
  then show "next_number ?st = 1" by (simp add: next_number_def)
  with n show "log_contents ?st = []" by (simp add: log_contents_def held_numbers_def)
  have "retained_valid b ?st"
    using assms(1,2) u by (simp add: restore_once_def publish_header_def retained_valid_def header_crc_def header_bytes_def)
  moreover have "held_numbers ?st = []" using n by (simp add: held_numbers_def next_number_def)
  ultimately show "log_invar b ?st"
    using assms by (simp add: log_invar_def restore_once_def)
qed

lemma reset_restore:
  assumes "log_invar b st"
  shows "restore_once b (log_reset st) = st"
proof -
  have "retained_valid b (log_reset st)" "lh_restored st"
    using assms by (auto simp: log_invar_def retained_valid_def log_reset_def)
  then show ?thesis by (simp add: restore_once_def log_reset_def)
qed

lemma get_encoded_restored:
  assumes "log_invar b st"
  shows "kfsw_log_history_get_encoded b s Dest st =
    (if unat s \<in> set (held_numbers st) then Inr (slot_of st (unat s)) else Inl ENOENT, st)"
proof -
  let ?n = "rh_next_sequence (lh_header st)"
  have r: "lh_restored st" using assms by (simp add: log_invar_def)
  have in_iff: "unat s \<in> set (held_numbers st) \<longleftrightarrow>
      \<not> (s = 0 \<or> s \<ge> ?n \<or> unat (?n - s) > length (lh_records st))"
  proof (cases "s < ?n")
    case True
    then have "unat (?n - s) = next_number st - unat s"
      by (simp add: unat_sub next_number_def less_imp_le)
    with True show ?thesis
      by (auto simp: held_numbers_range next_number_def word_less_nat_alt word_le_nat_alt not_less unat_gt_0)
  next
    case False
    then show ?thesis by (auto simp: held_numbers_range next_number_def word_less_nat_alt word_le_nat_alt not_less)
  qed
  have slot: "lh_records st ! record_slot s st = slot_of st (unat s)" if "s \<noteq> 0"
    using record_slot_nat [OF that] by (simp add: slot_of_def)
  show ?thesis
  proof (cases "unat s \<in> set (held_numbers st)")
    case True
    then have nz: "s \<noteq> 0" using in_iff by simp
    have "le_sequence (slot_of st (unat s)) = s"
      "unat (le_size (slot_of st (unat s))) \<le> KFSW_LOG_ENCODED_SIZE"
      using assms True by (auto simp: log_invar_def list_all_iff)
    with True in_iff slot [OF nz] r show ?thesis
      by (simp add: kfsw_log_history_get_encoded_def Let_def)
  next
    case False
    with in_iff r show ?thesis by (auto simp: kfsw_log_history_get_encoded_def Let_def)
  qed
qed

lemma contents_at:
  assumes "i < length (log_contents st)"
  shows "log_contents st ! i = slot_of st (next_number st - length (log_contents st) + i)"
    and "next_number st - length (log_contents st) + i \<in> set (held_numbers st)"
proof -
  have len: "length (log_contents st) = min (next_number st - 1) (length (lh_records st))"
    by (simp add: log_contents_def held_numbers_def)
  have "held_numbers st ! i = next_number st - length (log_contents st) + i"
    unfolding held_numbers_def len [symmetric] using assms len by (intro nth_upt) linarith
  then show "log_contents st ! i = slot_of st (next_number st - length (log_contents st) + i)"
    using assms by (simp add: log_contents_def)
  show "next_number st - length (log_contents st) + i \<in> set (held_numbers st)"
    using assms len by (auto simp: held_numbers_def)
qed

lemma window_restored:
  assumes "log_invar b st" and "0 < unat count" and "unat count \<le> 32"
  shows "\<exists>w. kfsw_log_history_window b count Dest st = (Inr w, st)
    \<and> unat (lw_end w) = next_number st
    \<and> unat (lw_first w) = next_number st - min (length (log_contents st)) (unat count)
    \<and> unat (lw_overwritten w) = next_number st - 1 - length (log_contents st)"
proof -
  let ?n = "rh_next_sequence (lh_header st)" and ?d = "length (lh_records st)"
  let ?held = "min (?n - 1) (word_of_nat ?d)"
  have inv: "lh_restored st" "0 < next_number st" "?d < 2 ^ 32"
    using assms(1) next_positive [of b st] by (auto simp: log_invar_def)
  have nz: "?n \<noteq> 0" using inv(2) by (auto simp: next_number_def)
  have u1: "unat (?n - 1) = next_number st - 1" using nz by (simp add: unat_minus_one next_number_def)
  have ud: "unat (word_of_nat ?d :: u64) = ?d" using inv(3) by (simp add: unat_word_of_nat_small)
  have uc: "unat (ucast count :: u64) = unat count"
    using unat_u16_bound [of count] by (simp add: unsigned_ucast_eq take_bit_nat_eq_self_iff)
  have umin: "unat (min x y) = min (unat x) (unat y)" for x y :: u64
    by (simp add: min_def word_le_nat_alt)
  have len: "length (log_contents st) = min (next_number st - 1) ?d"
    by (simp add: log_contents_def held_numbers_def)
  have held: "unat ?held = length (log_contents st)" by (simp add: umin u1 ud len)
  have "min ?held (ucast count) \<le> ?n"
    using held uc len by (simp add: word_le_nat_alt umin next_number_def)
  then have f: "unat (?n - min ?held (ucast count)) = next_number st - min (length (log_contents st)) (unat count)"
    using held uc by (simp add: unat_sub umin next_number_def)
  have "?held \<le> ?n - 1" by simp
  then have o: "unat (?n - 1 - ?held) = next_number st - 1 - length (log_contents st)"
    using held u1 by (metis unat_sub)
  have c: "count \<noteq> 0" using assms(2) by auto
  show ?thesis
    using inv(1) c assms(3) f o
    by (simp add: kfsw_log_history_window_def Let_def KFSW_LOG_HISTORY_MAX_READ_def next_number_def)
qed

lemma other_image_invalid:
  "log_invar b st \<Longrightarrow> lb_image b' \<noteq> lb_image b \<Longrightarrow> \<not> retained_valid b' (log_reset st)"
  by (auto simp: log_invar_def retained_valid_def log_reset_def)

lemma put_char_length: "length (fst sink) < 192 \<Longrightarrow> length (fst (put_char c sink)) < 192"
  by (auto simp: put_char_def log_sizes)

lemma format_fits:
  "length (lr_text (kfsw_log_history_format render e)) < KFSW_LOG_TEXT_SIZE"
proof -
  have "length (fst (fold put_char cs sink)) < 192" if "length (fst sink) < 192" for cs sink
    using that by (induction cs arbitrary: sink) (auto simp: put_char_length)
  from this [of "([], False)"] show ?thesis
    by (auto simp: kfsw_log_history_format_def Let_def log_sizes split: prod.splits)
      (metis fst_conv)
qed

lemma demo_fresh:
  "\<not> lh_restored demo_memory" "\<not> retained_valid demo_build demo_memory" "length (lh_records demo_memory) = 2"
  by (simp_all add: demo_memory_def retained_valid_def)

lemma demo_started:
  "log_invar demo_build demo_log" "log_contents demo_log = []"
  "rh_next_sequence (lh_header (restore_once demo_build demo_memory)) = 1"
  "lh_restored (restore_once demo_build demo_memory)" "next_number demo_log = 1"
  using clean_start [of demo_memory demo_build] demo_fresh
  by (simp_all add: demo_log_def) (simp_all add: restore_once_def)

section \<open>Properties\<close>

text \<open>
  From any memory contents after a reset that are not this image's history, the service starts
  empty, and after any sequence of appends it holds exactly the records of the last \<open>depth\<close> of them in
  order, none corrupted by what the memory held before.\<close>

theorem log_history_keeps_newest:
  assumes "\<not> lh_restored st" and "\<not> retained_valid b st"
    and "0 < length (lh_records st)" and "length (lh_records st) < 2 ^ 32"
    and "log_ring.admissible b (restore_once b st) qs"
  shows "log_contents (fold (kfsw_log_history_append b) qs (restore_once b st)) =
    keep_last (length (lh_records st)) (log_ring.stamps b (restore_once b st) qs)"
proof -
  have "log_capacity (restore_once b st) = length (lh_records st)"
    by (simp add: log_capacity_def restore_once_def)
  then show ?thesis
    using log_ring.run_contents [OF clean_start(1) [OF assms(1-4)] assms(5)] clean_start(2) [OF assms(1-4)]
    by simp
qed

theorem log_history_keeps_newest_witness:
  "map le_sequence (log_contents
     (fold (kfsw_log_history_append demo_build) (map demo_entry [''a'', ''b'', ''c'']) demo_log)) = [2, 3]"
proof -
  note next1 = demo_started(3,4)
  have adm: "log_ring.admissible demo_build (restore_once demo_build demo_memory) (map demo_entry [''a'', ''b'', ''c''])"
    using next1 by (simp add: log_room_def next_number_def append_restored demo_entry_def)
  have "log_contents (fold (kfsw_log_history_append demo_build) (map demo_entry [''a'', ''b'', ''c'']) (restore_once demo_build demo_memory))
    = keep_last 2 (log_ring.stamps demo_build (restore_once demo_build demo_memory) (map demo_entry [''a'', ''b'', ''c'']))"
    using log_history_keeps_newest [of demo_memory demo_build "map demo_entry [''a'', ''b'', ''c'']"] adm demo_fresh
    by (simp del: fold_simps)
  then show ?thesis
    using next1 by (simp add: demo_log_def keep_last_def log_stamp_def append_restored del: fold_simps)
qed

text \<open>
  In a consistent history the window and the reads agree: the window of \<open>count\<close> records ends at the
  next sequence number, starts \<open>min held count\<close> before it and counts what was overwritten; reading a
  sequence number returns the record the ring holds for it exactly when it is among the held ones, and
  \<open>-ENOENT\<close> otherwise.\<close>

theorem log_history_reads_window:
  assumes "log_invar b st" and "0 < unat count" and "unat count \<le> 32"
  shows "(\<exists>w. kfsw_log_history_window b count Dest st = (Inr w, st)
      \<and> unat (lw_end w) = next_number st
      \<and> unat (lw_first w) = next_number st - min (length (log_contents st)) (unat count)
      \<and> unat (lw_overwritten w) + length (log_contents st) + 1 = next_number st)
    \<and> (\<forall>i < length (log_contents st).
         kfsw_log_history_get_encoded b (word_of_nat (next_number st - length (log_contents st) + i)) Dest st
         = (Inr (log_contents st ! i), st))
    \<and> (\<forall>s. unat s < next_number st - length (log_contents st) \<or> next_number st \<le> unat s \<longrightarrow>
         kfsw_log_history_get_encoded b s Dest st = (Inl ENOENT, st))"
proof -
  have pos: "0 < next_number st" using assms(1) next_positive [of b st] by (auto simp: log_invar_def)
  have len: "length (log_contents st) = min (next_number st - 1) (length (lh_records st))"
    by (simp add: log_contents_def held_numbers_def)
  have "kfsw_log_history_get_encoded b (word_of_nat (next_number st - length (log_contents st) + i)) Dest st
      = (Inr (log_contents st ! i), st)" if "i < length (log_contents st)" for i
  proof -
    let ?s = "next_number st - length (log_contents st) + i"
    have "?s < next_number st" using that len by linarith
    then have "?s < 2 ^ 64"
      using unat_bound [of "rh_next_sequence (lh_header st)"] by (simp add: next_number_def)
    then have "unat (word_of_nat ?s :: u64) = ?s" by (intro unat_word_of_nat_small) simp
    with contents_at [OF that] show ?thesis by (simp add: get_encoded_restored [OF assms(1)])
  qed
  moreover have "kfsw_log_history_get_encoded b s Dest st = (Inl ENOENT, st)"
    if "unat s < next_number st - length (log_contents st) \<or> next_number st \<le> unat s" for s
    using that len by (auto simp: get_encoded_restored [OF assms(1)] held_numbers_range)
  moreover obtain w where "kfsw_log_history_window b count Dest st = (Inr w, st)"
    "unat (lw_end w) = next_number st"
    "unat (lw_first w) = next_number st - min (length (log_contents st)) (unat count)"
    "unat (lw_overwritten w) + length (log_contents st) + 1 = next_number st"
  proof -
    obtain w where w: "kfsw_log_history_window b count Dest st = (Inr w, st)"
      "unat (lw_end w) = next_number st"
      "unat (lw_first w) = next_number st - min (length (log_contents st)) (unat count)"
      "unat (lw_overwritten w) = next_number st - 1 - length (log_contents st)"
      using window_restored [OF assms] by blast
    from w(4) pos len have "unat (lw_overwritten w) + length (log_contents st) + 1 = next_number st" by linarith
    with w(1-3) show ?thesis by (rule that)
  qed
  ultimately show ?thesis by blast
qed

theorem log_history_reads_window_witness:
  "\<exists>w. kfsw_log_history_window demo_build 5 Dest demo_log = (Inr w, demo_log) \<and> lw_first w = lw_end w"
proof -
  show ?thesis
    using demo_started(1,2) log_history_reads_window [of demo_build demo_log 5] by (auto simp: word_unat_eq_iff)
qed



end
