(* ===== verification/Resmon.thy ===== *)
theory Resmon
  imports Event
begin

text \<open>
  The resource monitor, \<^verbatim>\<open>src/resmon/resmon.c\<close> with \<^verbatim>\<open>include/kfsw/services/resmon.h\<close>: periodic sweeps over
  the kernel's thread list that keep the worst stack use and raise one event per crossing of a threshold.
  What the kernel tells of a thread is a \<open>k_thread\<close>: its configured stack size, the unused bytes
  \<open>k_thread_stack_space_get\<close> reports (\<open>None\<close> when it fails) and its name. The thread list is an argument of
  a sweep; \<open>size_t\<close> values are \<open>nat\<close> (the product with 100 is taken to fit). \<open>min_stack\<close> is
  \<open>CONFIG_KFSW_RESMON_MIN_STACK_BYTES\<close>; with the value 0 the C division below has no meaning for a thread
  that reports no stack at all, so the results about a sweep assume it positive. The delayed work item is
  its delay when scheduled.

  Proved: a sweep finds the busiest and the tightest of the measurable threads; the alert counter counts
  crossings of the threshold and not sweeps above it (an interpretation of \<open>crossing_latch\<close>); the worst
  figures never get better.
\<close>

section \<open>Types\<close>

definition KFSW_RESMON_NAME_SIZE :: nat where "KFSW_RESMON_NAME_SIZE = 20"
definition KFSW_EVENT_RESMON_LOW_STACK :: u16 where "KFSW_EVENT_RESMON_LOW_STACK = 1"
definition KFSW_RESMON_PERCENT_MIN :: u32 where "KFSW_RESMON_PERCENT_MIN = 1"

record k_thread =
  th_stack_size :: nat
  th_space :: "nat option"
  th_name :: "string option"

record sweep =
  sw_thread :: "k_thread option"
  sw_used_percent :: u32
  sw_unused_bytes :: u32
  sw_stack_bytes :: u32
  sw_tightest :: "k_thread option"
  sw_tightest_unused_bytes :: u32
  sw_tightest_stack_bytes :: u32
  sw_threads :: u16
  sw_unmeasured :: u16

record kfsw_resmon_status =
  rs_sweeps :: u32
  rs_alerts :: u32
  rs_worst_used_percent :: u32
  rs_worst_unused_bytes :: u32
  rs_worst_stack_bytes :: u32
  rs_last_used_percent :: u32
  rs_alert_percent :: u32
  rs_tightest_unused_bytes :: u32
  rs_tightest_stack_bytes :: u32
  rs_threads :: u16
  rs_unmeasured :: u16
  rs_worst_thread :: string
  rs_tightest_thread :: string
  rs_running :: bool

record resmon_service =
  resmon_state :: kfsw_resmon_status
  alerting :: bool
  resmon_work :: "u32 option"

section \<open>Operations\<close>

definition sweep_init :: sweep where
  "sweep_init = \<lparr>sw_thread = None, sw_used_percent = 0, sw_unused_bytes = 0, sw_stack_bytes = 0,
     sw_tightest = None, sw_tightest_unused_bytes = 0, sw_tightest_stack_bytes = 0, sw_threads = 0,
     sw_unmeasured = 0\<rparr>"

definition cap_u32 :: "nat \<Rightarrow> u32" where
  "cap_u32 n = word_of_nat (min n (2 ^ 32 - 1))"

definition stack_percent :: "nat \<Rightarrow> nat \<Rightarrow> nat" where
  "stack_percent stack_bytes unused = (stack_bytes - min unused stack_bytes) * 100 div stack_bytes"

definition visit_thread :: "nat \<Rightarrow> k_thread \<Rightarrow> sweep \<Rightarrow> sweep" where
  "visit_thread min_stack thread sw =
     (case th_space thread of
        None \<Rightarrow> sw\<lparr>sw_unmeasured := sw_unmeasured sw + 1\<rparr>
      | Some unused \<Rightarrow>
          if th_stack_size thread < min_stack then sw\<lparr>sw_unmeasured := sw_unmeasured sw + 1\<rparr>
          else
            let used_percent = word_of_nat (stack_percent (th_stack_size thread) unused);
                sw1 = (if sw_threads sw = 0 \<or> used_percent > sw_used_percent sw
                       then sw\<lparr>sw_used_percent := used_percent, sw_unused_bytes := cap_u32 unused,
                               sw_stack_bytes := cap_u32 (th_stack_size thread), sw_thread := Some thread\<rparr>
                       else sw);
                sw2 = (if sw_threads sw1 = 0 \<or> unused < unat (sw_tightest_unused_bytes sw1)
                       then sw1\<lparr>sw_tightest_unused_bytes := cap_u32 unused,
                                sw_tightest_stack_bytes := cap_u32 (th_stack_size thread),
                                sw_tightest := Some thread\<rparr>
                       else sw1)
            in sw2\<lparr>sw_threads := sw_threads sw2 + 1\<rparr>)"

definition run_sweep :: "nat \<Rightarrow> k_thread list \<Rightarrow> sweep" where
  "run_sweep min_stack threads = fold (visit_thread min_stack) threads sweep_init"

definition copy_thread_name :: "k_thread option \<Rightarrow> string" where
  "copy_thread_name thread =
     (let name = (case thread of None \<Rightarrow> None | Some t \<Rightarrow> th_name t)
      in strncpy_terminated KFSW_RESMON_NAME_SIZE
           (case name of None \<Rightarrow> ''unnamed'' | Some n \<Rightarrow> if n = [] then ''unnamed'' else n))"

text \<open>The three updates of the status a sample makes under the lock, in the order of the source.\<close>

definition update_tightest :: "sweep \<Rightarrow> kfsw_resmon_status \<Rightarrow> kfsw_resmon_status" where
  "update_tightest sw s =
     (if rs_sweeps s = 1 \<or> sw_tightest_unused_bytes sw < rs_tightest_unused_bytes s
      then s\<lparr>rs_tightest_unused_bytes := sw_tightest_unused_bytes sw,
             rs_tightest_stack_bytes := sw_tightest_stack_bytes sw,
             rs_tightest_thread := copy_thread_name (sw_tightest sw)\<rparr>
      else s)"

definition update_worst :: "sweep \<Rightarrow> kfsw_resmon_status \<Rightarrow> kfsw_resmon_status" where
  "update_worst sw s =
     (if sw_used_percent sw \<ge> rs_worst_used_percent s
      then s\<lparr>rs_worst_used_percent := sw_used_percent sw, rs_worst_unused_bytes := sw_unused_bytes sw,
             rs_worst_stack_bytes := sw_stack_bytes sw,
             rs_worst_thread := strncpy_terminated KFSW_RESMON_NAME_SIZE (copy_thread_name (sw_thread sw))\<rparr>
      else s)"

definition update_alert :: "sweep \<Rightarrow> resmon_service \<Rightarrow> bool \<times> resmon_service" where
  "update_alert sw st =
     (if sw_used_percent sw \<ge> rs_alert_percent (resmon_state st) then
        (if \<not> alerting st
         then (True, st\<lparr>alerting := True,
                        resmon_state := (resmon_state st)
                          \<lparr>rs_alerts := saturating_increment (rs_alerts (resmon_state st))\<rparr>\<rparr>)
         else (False, st))
      else (False, st\<lparr>alerting := False\<rparr>))"

definition low_stack_event :: "u64 \<Rightarrow> sweep \<Rightarrow> event_request" where
  "low_stack_event now_us sw = \<lparr>rq_source = source_value KFSW_EVENT_SOURCE_RESMON,
     rq_id = KFSW_EVENT_RESMON_LOW_STACK, rq_severity = severity_value KFSW_EVENT_WARNING,
     rq_payload = Some (ucast (min (sw_used_percent sw) 100) # sys_put_be32 (sw_unused_bytes sw)),
     rq_payload_size = 5, rq_now_us = now_us\<rparr>"

definition kfsw_resmon_sample ::
  "nat \<Rightarrow> k_thread list \<times> u64 \<Rightarrow> resmon_service \<times> event_state
     \<Rightarrow> (errno + u16) \<times> resmon_service \<times> event_state" where
  "kfsw_resmon_sample min_stack = (\<lambda>(threads, now_us) (st, ev).
     let sw = run_sweep min_stack threads
     in if sw_threads sw = 0 then (Inl ENODATA, st, ev)
        else
          let s0 = (resmon_state st)\<lparr>rs_sweeps := saturating_increment (rs_sweeps (resmon_state st)),
                     rs_threads := sw_threads sw, rs_unmeasured := sw_unmeasured sw,
                     rs_last_used_percent := sw_used_percent sw\<rparr>;
              s1 = update_worst sw (update_tightest sw s0);
              (crossed, st1) = update_alert sw (st\<lparr>resmon_state := s1\<rparr>)
          in (Inr (sw_threads sw), st1,
              if crossed then kfsw_event_emit (low_stack_event now_us sw) ev else ev))"

definition resmon_work_handler ::
  "nat \<Rightarrow> u32 \<Rightarrow> k_thread list \<times> u64 \<Rightarrow> resmon_service \<times> event_state \<Rightarrow> resmon_service \<times> event_state" where
  "resmon_work_handler min_stack period_ms input st =
     (let (r, st1, ev1) = kfsw_resmon_sample min_stack input ((fst st)\<lparr>resmon_work := None\<rparr>, snd st)
      in (if rs_running (resmon_state st1) then st1\<lparr>resmon_work := Some period_ms\<rparr> else st1, ev1))"

definition kfsw_resmon_start ::
  "nat \<Rightarrow> u32 \<Rightarrow> k_thread list \<times> u64 \<Rightarrow> resmon_service \<times> event_state \<Rightarrow> rc \<times> resmon_service \<times> event_state" where
  "kfsw_resmon_start min_stack period_ms input st =
     (if rs_running (resmon_state (fst st)) then (Some EALREADY, st)
      else
        let (r, st1, ev1) = kfsw_resmon_sample min_stack input
              ((fst st)\<lparr>resmon_state := (resmon_state (fst st))\<lparr>rs_running := True\<rparr>\<rparr>, snd st)
        in (None, st1\<lparr>resmon_work := Some period_ms\<rparr>, ev1))"

definition kfsw_resmon_stop :: "resmon_service \<Rightarrow> rc \<times> resmon_service" where
  "kfsw_resmon_stop st =
     (if \<not> rs_running (resmon_state st) then (Some EALREADY, st)
      else (None, st\<lparr>resmon_state := (resmon_state st)\<lparr>rs_running := False\<rparr>, resmon_work := None\<rparr>))"

definition kfsw_resmon_get_status :: "dest \<Rightarrow> resmon_service \<Rightarrow> kfsw_resmon_status option" where
  "kfsw_resmon_get_status status st = (if status = Null then None else Some (resmon_state st))"

definition kfsw_resmon_set_alert_percent :: "u32 \<Rightarrow> resmon_service \<Rightarrow> rc \<times> resmon_service" where
  "kfsw_resmon_set_alert_percent percent st =
     (if percent < KFSW_RESMON_PERCENT_MIN \<or> percent > 100 then (Some ERANGE, st)
      else (None, st\<lparr>resmon_state := (resmon_state st)\<lparr>rs_alert_percent := percent\<rparr>, alerting := False\<rparr>))"

definition resmon_init :: "u32 \<Rightarrow> resmon_service" where
  "resmon_init alert_percent = \<lparr>resmon_state = \<lparr>rs_sweeps = 0, rs_alerts = 0, rs_worst_used_percent = 0,
     rs_worst_unused_bytes = 0, rs_worst_stack_bytes = 0, rs_last_used_percent = 0,
     rs_alert_percent = alert_percent, rs_tightest_unused_bytes = 0, rs_tightest_stack_bytes = 0,
     rs_threads = 0, rs_unmeasured = 0, rs_worst_thread = [], rs_tightest_thread = [], rs_running = False\<rparr>,
     alerting = False, resmon_work = None\<rparr>"

section \<open>Specification vocabulary\<close>

definition measurable :: "nat \<Rightarrow> k_thread \<Rightarrow> bool" where
  "measurable min_stack t \<longleftrightarrow> min_stack \<le> th_stack_size t \<and> th_space t \<noteq> None"

definition thread_unused :: "k_thread \<Rightarrow> nat" where
  "thread_unused t = (case th_space t of None \<Rightarrow> 0 | Some n \<Rightarrow> n)"

definition thread_percent :: "k_thread \<Rightarrow> nat" where
  "thread_percent t = stack_percent (th_stack_size t) (thread_unused t)"

definition sample_state :: "nat \<Rightarrow> k_thread list \<times> u64 \<Rightarrow> resmon_service \<times> event_state \<Rightarrow> resmon_service \<times> event_state" where
  "sample_state min_stack input st = snd (kfsw_resmon_sample min_stack input st)"

definition sweep_counts :: "nat \<Rightarrow> k_thread list \<times> u64 \<Rightarrow> bool" where
  "sweep_counts min_stack input \<longleftrightarrow> sw_threads (run_sweep min_stack (fst input)) \<noteq> 0"

definition sweep_above :: "nat \<Rightarrow> k_thread list \<times> u64 \<Rightarrow> resmon_service \<times> event_state \<Rightarrow> bool" where
  "sweep_above min_stack input st \<longleftrightarrow>
     rs_alert_percent (resmon_state (fst st)) \<le> sw_used_percent (run_sweep min_stack (fst input))"

text \<open>What a sweep holds of the threads it has seen.\<close>

definition busiest_of :: "nat \<Rightarrow> k_thread list \<Rightarrow> sweep \<Rightarrow> bool" where
  "busiest_of m ts sw \<longleftrightarrow>
     (\<exists>t \<in> set ts. measurable m t \<and> sw_thread sw = Some t \<and> unat (sw_used_percent sw) = thread_percent t
        \<and> sw_unused_bytes sw = cap_u32 (thread_unused t) \<and> sw_stack_bytes sw = cap_u32 (th_stack_size t)
        \<and> (\<forall>u \<in> set ts. measurable m u \<longrightarrow> thread_percent u \<le> thread_percent t))"

definition tightest_of :: "nat \<Rightarrow> k_thread list \<Rightarrow> sweep \<Rightarrow> bool" where
  "tightest_of m ts sw \<longleftrightarrow>
     (\<exists>t \<in> set ts. measurable m t \<and> sw_tightest sw = Some t
        \<and> sw_tightest_unused_bytes sw = cap_u32 (thread_unused t)
        \<and> sw_tightest_stack_bytes sw = cap_u32 (th_stack_size t)
        \<and> (\<forall>u \<in> set ts. measurable m u \<longrightarrow> cap_u32 (thread_unused t) \<le> cap_u32 (thread_unused u)))"

definition sweep_of :: "nat \<Rightarrow> k_thread list \<Rightarrow> sweep \<Rightarrow> bool" where
  "sweep_of m ts sw \<longleftrightarrow>
     unat (sw_threads sw) = length (filter (measurable m) ts)
     \<and> unat (sw_unmeasured sw) = length (filter (\<lambda>t. \<not> measurable m t) ts)
     \<and> ((\<exists>t \<in> set ts. measurable m t) \<longrightarrow> busiest_of m ts sw \<and> tightest_of m ts sw)"

definition demo_threads :: "nat \<Rightarrow> k_thread list" where
  "demo_threads unused =
     [\<lparr>th_stack_size = 1000, th_space = Some unused, th_name = Some ''main''\<rparr>,
      \<lparr>th_stack_size = 500, th_space = Some 300, th_name = None\<rparr>,
      \<lparr>th_stack_size = 500, th_space = None, th_name = None\<rparr>]"

section \<open>Lemmas\<close>

lemma stack_percent_le: "stack_percent n u \<le> 100"
proof -
  have "(n - min u n) * 100 div n \<le> n * 100 div n" by (intro div_le_mono mult_le_mono1) simp
  also have "\<dots> \<le> 100" by (cases "n = 0") auto
  finally show ?thesis by (simp add: stack_percent_def)
qed

lemma unat_percent: "unat (word_of_nat (stack_percent n u) :: u32) = stack_percent n u"
  using stack_percent_le [of n u] by (intro unat_word_of_nat_small) simp

lemma unat_cap: "unat (cap_u32 n) = min n 4294967295"
  unfolding cap_u32_def by (subst unat_word_of_nat_small) auto

lemma visit_unmeasurable:
  "\<not> measurable m t \<Longrightarrow> visit_thread m t sw = sw\<lparr>sw_unmeasured := sw_unmeasured sw + 1\<rparr>"
  by (auto simp: measurable_def visit_thread_def split: option.splits)

lemma unat_Suc_u16: "unat (w :: u16) = n \<Longrightarrow> n < 65535 \<Longrightarrow> unat (w + 1) = n + 1"
  using unat_plus_small [of w 1] by simp

lemma visit_busiest:
  assumes "measurable m t" and "sw' = visit_thread m t sw"
  shows "sw_threads sw' = sw_threads sw + 1" and "sw_unmeasured sw' = sw_unmeasured sw"
    and "if sw_threads sw = 0 \<or> unat (sw_used_percent sw) < thread_percent t
         then sw_thread sw' = Some t \<and> unat (sw_used_percent sw') = thread_percent t
           \<and> sw_unused_bytes sw' = cap_u32 (thread_unused t) \<and> sw_stack_bytes sw' = cap_u32 (th_stack_size t)
         else sw_thread sw' = sw_thread sw \<and> sw_used_percent sw' = sw_used_percent sw
           \<and> sw_unused_bytes sw' = sw_unused_bytes sw \<and> sw_stack_bytes sw' = sw_stack_bytes sw"
    and "if sw_threads sw = 0 \<or> thread_unused t < unat (sw_tightest_unused_bytes sw)
         then sw_tightest sw' = Some t \<and> sw_tightest_unused_bytes sw' = cap_u32 (thread_unused t)
           \<and> sw_tightest_stack_bytes sw' = cap_u32 (th_stack_size t)
         else sw_tightest sw' = sw_tightest sw \<and> sw_tightest_unused_bytes sw' = sw_tightest_unused_bytes sw
           \<and> sw_tightest_stack_bytes sw' = sw_tightest_stack_bytes sw"
  using assms
  by (auto simp: measurable_def visit_thread_def thread_percent_def thread_unused_def Let_def
      word_less_nat_alt unat_percent)

lemma visit_busiest_of:
  assumes "measurable m t" and none: "sw_threads sw = 0 \<longleftrightarrow> (\<forall>t \<in> set ts. \<not> measurable m t)"
    and sw: "(\<exists>t \<in> set ts. measurable m t) \<longrightarrow> busiest_of m ts sw"
  shows "busiest_of m (ts @ [t]) (visit_thread m t sw)"
proof (cases "sw_threads sw = 0 \<or> unat (sw_used_percent sw) < thread_percent t")
  case new: True
  have "thread_percent u \<le> thread_percent t" if "u \<in> set ts" "measurable m u" for u
    using sw that new none unfolding busiest_of_def by (metis le_trans less_imp_le)
  with new visit_busiest(3) [OF assms(1) refl, of sw] assms(1) show ?thesis
    unfolding busiest_of_def by (intro bexI [of _ t]) auto
next
  case old: False
  with sw none obtain b where b: "b \<in> set ts" "measurable m b" "sw_thread sw = Some b"
    "unat (sw_used_percent sw) = thread_percent b" "sw_unused_bytes sw = cap_u32 (thread_unused b)"
    "sw_stack_bytes sw = cap_u32 (th_stack_size b)"
    "\<forall>u \<in> set ts. measurable m u \<longrightarrow> thread_percent u \<le> thread_percent b"
    unfolding busiest_of_def by metis
  with old visit_busiest(3) [OF assms(1) refl, of sw] show ?thesis
    unfolding busiest_of_def by (intro bexI [of _ b]) auto
qed

lemma visit_tightest_of:
  assumes "measurable m t" and none: "sw_threads sw = 0 \<longleftrightarrow> (\<forall>t \<in> set ts. \<not> measurable m t)"
    and sw: "(\<exists>t \<in> set ts. measurable m t) \<longrightarrow> tightest_of m ts sw"
  shows "tightest_of m (ts @ [t]) (visit_thread m t sw)"
proof (cases "sw_threads sw = 0 \<or> thread_unused t < unat (sw_tightest_unused_bytes sw)")
  case new: True
  have capped: "cap_u32 (thread_unused t) \<le> x" if "thread_unused t < unat x" for x
    using that by (simp add: word_le_nat_alt unat_cap)
  have "cap_u32 (thread_unused t) \<le> cap_u32 (thread_unused u)" if "u \<in> set ts" "measurable m u" for u
    using sw that new none capped unfolding tightest_of_def by (metis order_trans)
  with new visit_busiest(4) [OF assms(1) refl, of sw] assms(1) show ?thesis
    unfolding tightest_of_def by (intro bexI [of _ t]) auto
next
  case old: False
  have capped: "cap_u32 y \<le> cap_u32 (thread_unused t)" if "\<not> thread_unused t < unat (cap_u32 y)" for y
    using that by (auto simp: word_le_nat_alt unat_cap)
  from old sw none obtain b where b: "b \<in> set ts" "measurable m b" "sw_tightest sw = Some b"
    "sw_tightest_unused_bytes sw = cap_u32 (thread_unused b)"
    "sw_tightest_stack_bytes sw = cap_u32 (th_stack_size b)"
    "\<forall>u \<in> set ts. measurable m u \<longrightarrow> cap_u32 (thread_unused b) \<le> cap_u32 (thread_unused u)"
    unfolding tightest_of_def by metis
  with old visit_busiest(4) [OF assms(1) refl, of sw] capped [of "thread_unused b"] show ?thesis
    unfolding tightest_of_def by (intro bexI [of _ b]) auto
qed

lemma visit_sweep_of:
  assumes sw: "sweep_of m ts sw" and len: "length ts < 65535"
  shows "sweep_of m (ts @ [t]) (visit_thread m t sw)"
proof -
  have lt: "length (filter P ts) < 65535" for P
    using len length_filter_le [of _ ts] by (rule le_less_trans [rotated])
  show ?thesis
  proof (cases "measurable m t")
    case False
    with lt sw show ?thesis
      by (auto simp: sweep_of_def busiest_of_def tightest_of_def visit_unmeasurable unat_Suc_u16)
  next
    case True
    have "sw_threads sw = 0 \<longleftrightarrow> length (filter (measurable m) ts) = 0"
      using sw by (metis sweep_of_def unat_eq_zero)
    then have none: "sw_threads sw = 0 \<longleftrightarrow> (\<forall>t \<in> set ts. \<not> measurable m t)"
      by (simp add: filter_empty_conv)
    show ?thesis
      using sw lt True visit_busiest(1,2) [OF True refl, of sw]
        visit_busiest_of [OF True none] visit_tightest_of [OF True none]
      by (auto simp: sweep_of_def unat_Suc_u16)
  qed
qed

lemma run_sweep_of: "length ts < 65536 \<Longrightarrow> sweep_of m ts (run_sweep m ts)"
proof (induction ts rule: rev_induct)
  case Nil
  show ?case by (simp add: sweep_of_def run_sweep_def sweep_init_def)
next
  case (snoc t ts)
  then show ?case using visit_sweep_of [of m ts "run_sweep m ts" t] by (simp add: run_sweep_def)
qed

lemma sample_cases:
  "sample_state m i (st, ev) =
     (if \<not> sweep_counts m i then (st, ev)
      else
        let sw = run_sweep m (fst i);
            s0 = (resmon_state st)\<lparr>rs_sweeps := saturating_increment (rs_sweeps (resmon_state st)),
                     rs_threads := sw_threads sw, rs_unmeasured := sw_unmeasured sw,
                     rs_last_used_percent := sw_used_percent sw\<rparr>;
            u = update_alert sw (st\<lparr>resmon_state := update_worst sw (update_tightest sw s0)\<rparr>)
        in (snd u, if fst u then kfsw_event_emit (low_stack_event (snd i) sw) ev else ev))"
  by (auto simp: sample_state_def kfsw_resmon_sample_def sweep_counts_def Let_def split: prod.splits)

lemma update_keeps [simp]:
  "rs_alert_percent (update_worst sw s) = rs_alert_percent s"
  "rs_alert_percent (update_tightest sw s) = rs_alert_percent s"
  "rs_alerts (update_worst sw s) = rs_alerts s"
  "rs_alerts (update_tightest sw s) = rs_alerts s"
  "rs_worst_used_percent (update_tightest sw s) = rs_worst_used_percent s"
  by (simp_all add: update_worst_def update_tightest_def)

lemma sample_latch:
  "alerting (fst (sample_state m i st)) \<longleftrightarrow> (if sweep_counts m i then sweep_above m i st else alerting (fst st))"
  by (cases st) (simp add: sample_cases Let_def sweep_above_def update_alert_def)

lemma sample_alert_percent:
  "rs_alert_percent (resmon_state (fst (sample_state m i st))) = rs_alert_percent (resmon_state (fst st))"
  by (cases st) (simp add: sample_cases Let_def update_alert_def)

lemma sample_alerts:
  "unat (rs_alerts (resmon_state (fst (sample_state m i st)))) =
   (if sweep_counts m i \<and> sweep_above m i st \<and> \<not> alerting (fst st)
    then min (unat (rs_alerts (resmon_state (fst st))) + 1) 4294967295
    else unat (rs_alerts (resmon_state (fst st))))"
  by (cases st) (simp add: sample_cases Let_def sweep_above_def update_alert_def unat_saturating_increment)

interpretation stack_alert: crossing_latch "sample_state m" "sweep_counts m" "sweep_above m"
  "\<lambda>st. alerting (fst st)" "\<lambda>st. unat (rs_alerts (resmon_state (fst st)))" 4294967295 for m
proof unfold_locales
  fix i j s
  show "alerting (fst (sample_state m i s)) = (if sweep_counts m i then sweep_above m i s else alerting (fst s))"
    by (rule sample_latch)
  show "unat (rs_alerts (resmon_state (fst (sample_state m i s)))) =
      (if sweep_counts m i \<and> sweep_above m i s \<and> \<not> alerting (fst s)
       then min (unat (rs_alerts (resmon_state (fst s))) + 1) 4294967295
       else unat (rs_alerts (resmon_state (fst s))))"
    by (rule sample_alerts)
  show "sweep_above m j (sample_state m i s) = sweep_above m j s"
    by (simp add: sweep_above_def sample_alert_percent)
  show "unat (rs_alerts (resmon_state (fst s))) \<le> 4294967295"
    using unat_u32_bound [of "rs_alerts (resmon_state (fst s))"] by simp
qed

lemma low_stack_accepted: "\<not> emit_refused (low_stack_event now sw)"
  by (simp add: emit_refused_def low_stack_event_def source_is_known_def KFSW_EVENT_MAX_PAYLOAD_SIZE_def)

lemma sample_events:
  "recorded_count (snd (sample_state m i st)) = recorded_count (snd st)
     + (if sweep_counts m i \<and> sweep_above m i st \<and> \<not> alerting (fst st) then 1 else 0)"
  by (cases st)
    (auto simp: sample_cases Let_def sweep_above_def update_alert_def kfsw_event_emit_def low_stack_accepted)

lemma run_events:
  "recorded_count (snd (fold (sample_state m) is st)) = recorded_count (snd st)
     + word_of_nat (crossings (alerting (fst st)) (map (\<lambda>i. sweep_above m i st) (filter (sweep_counts m) is)))"
proof (induction "is" arbitrary: st)
  case (Cons i "is")
  have "sweep_above m j (sample_state m i st) = sweep_above m j st" for j
    by (simp add: sweep_above_def sample_alert_percent)
  then show ?case
    using Cons.IH [of "sample_state m i st"] by (simp add: sample_latch sample_events)
qed simp

lemma sample_worst:
  "rs_worst_used_percent (resmon_state (fst (sample_state m i st))) =
   (if sweep_counts m i then max (rs_worst_used_percent (resmon_state (fst st))) (sw_used_percent (run_sweep m (fst i)))
    else rs_worst_used_percent (resmon_state (fst st)))"
  by (cases st) (auto simp: sample_cases Let_def update_alert_def update_worst_def max_def)

lemma run_worst:
  "rs_worst_used_percent (resmon_state (fst (fold (sample_state m) is st))) =
   fold max (map (\<lambda>i. sw_used_percent (run_sweep m (fst i))) (filter (sweep_counts m) is))
     (rs_worst_used_percent (resmon_state (fst st)))"
  by (induction "is" arbitrary: st) (auto simp: sample_worst max.commute)

section \<open>Properties\<close>

text \<open>
  A sweep over at most 65535 threads is exact: it counts the measurable and the unmeasured threads,
  names the measurable thread with the highest use and its figures, and the one with the fewest unused
  bytes; a sample returns the count of measured threads, or \<open>-ENODATA\<close> and no change when there is none.\<close>

theorem resmon_sweep_exact:
  assumes "length threads < 65536" and "0 < m"
  shows "sweep_of m threads (run_sweep m threads)
    \<and> fst (kfsw_resmon_sample m (threads, now) (st, ev)) =
        (if filter (measurable m) threads = [] then Inl ENODATA
         else Inr (word_of_nat (length (filter (measurable m) threads))))
    \<and> (filter (measurable m) threads = [] \<longrightarrow> snd (kfsw_resmon_sample m (threads, now) (st, ev)) = (st, ev))"
proof -
  note sw = run_sweep_of [OF assms(1), of m]
  then have n: "unat (sw_threads (run_sweep m threads)) = length (filter (measurable m) threads)"
    by (simp add: sweep_of_def)
  then have z: "sw_threads (run_sweep m threads) = 0 \<longleftrightarrow> filter (measurable m) threads = []"
    by (metis length_0_conv unat_eq_zero)
  have "word_of_nat (length (filter (measurable m) threads)) = sw_threads (run_sweep m threads)"
    unfolding n [symmetric] by simp
  with sw z show ?thesis
    by (auto simp: kfsw_resmon_sample_def Let_def split: prod.splits)
qed

theorem resmon_sweep_exact_witness:
  "\<exists>r. kfsw_resmon_sample 100 (demo_threads 50, 0) (resmon_init 90, event_init 2) = (Inr 2, r)"
proof -
  have "filter (measurable 100) (demo_threads 50) = take 2 (demo_threads 50)"
    by (simp add: demo_threads_def measurable_def)
  then show ?thesis
    using resmon_sweep_exact [of "demo_threads 50" 100 0 "resmon_init 90" "event_init 2"]
    by (cases "kfsw_resmon_sample 100 (demo_threads 50, 0) (resmon_init 90, event_init 2)")
      (simp add: demo_threads_def)
qed


end
