(* ===== verification/Remexec_Protocol.thy ===== *)
theory Remexec_Protocol
  imports Contracts
begin

text \<open>
  The packets of remote execution, \<^verbatim>\<open>src/remexec/remexec_protocol.c\<close>, with the types of
  \<^verbatim>\<open>src/remexec/remexec_internal.h\<close> and \<^verbatim>\<open>include/kfsw/services/remexec.h\<close>. The text of a reply is the
  string of its \<open>size\<close> bytes; the output limit \<open>CONFIG_KFSW_REMEXEC_OUTPUT_MAX\<close> is an argument. A decoded
  request is what the code leaves in its output buffers: the opcode and the C string in \<open>text\<close>.

  Proved: requests and replies survive encoding and decoding (interpretations of \<open>wire_codec\<close>).
\<close>

section \<open>Types\<close>

definition KFSW_REMEXEC_COMMAND_MAX :: nat where "KFSW_REMEXEC_COMMAND_MAX = 64"
definition KFSW_REMEXEC_REFUSAL_MAX :: nat where "KFSW_REMEXEC_REFUSAL_MAX = 96"
definition KFSW_REMEXEC_PROTOCOL_VERSION :: u8 where "KFSW_REMEXEC_PROTOCOL_VERSION = 1"
definition KFSW_REMEXEC_REQUEST_HEADER_SIZE :: nat where "KFSW_REMEXEC_REQUEST_HEADER_SIZE = 4"
definition KFSW_REMEXEC_REPLY_HEADER_SIZE :: nat where "KFSW_REMEXEC_REPLY_HEADER_SIZE = 18"
definition KFSW_REMEXEC_FLAG_TRUNCATED :: u8 where "KFSW_REMEXEC_FLAG_TRUNCATED = 1"

lemmas remexec_sizes = KFSW_REMEXEC_COMMAND_MAX_def KFSW_REMEXEC_REFUSAL_MAX_def
  KFSW_REMEXEC_PROTOCOL_VERSION_def KFSW_REMEXEC_REQUEST_HEADER_SIZE_def
  KFSW_REMEXEC_REPLY_HEADER_SIZE_def KFSW_REMEXEC_FLAG_TRUNCATED_def

datatype kfsw_remexec_opcode = KFSW_REMEXEC_OP_LIST | KFSW_REMEXEC_OP_RUN | REMEXEC_OP_OTHER u8

fun remexec_opcode_value :: "kfsw_remexec_opcode \<Rightarrow> u8" where
  "remexec_opcode_value KFSW_REMEXEC_OP_LIST = 1"
| "remexec_opcode_value KFSW_REMEXEC_OP_RUN = 2"
| "remexec_opcode_value (REMEXEC_OP_OTHER n) = n"

datatype kfsw_remexec_status =
    KFSW_REMEXEC_OK | KFSW_REMEXEC_NOT_OFFERED | KFSW_REMEXEC_TOO_LONG | KFSW_REMEXEC_INVALID
  | KFSW_REMEXEC_BUSY | KFSW_REMEXEC_TIMEOUT | KFSW_REMEXEC_FAILED | KFSW_REMEXEC_UNAVAILABLE

fun remexec_status_value :: "kfsw_remexec_status \<Rightarrow> u8" where
  "remexec_status_value KFSW_REMEXEC_OK = 0"
| "remexec_status_value KFSW_REMEXEC_NOT_OFFERED = 1"
| "remexec_status_value KFSW_REMEXEC_TOO_LONG = 2"
| "remexec_status_value KFSW_REMEXEC_INVALID = 3"
| "remexec_status_value KFSW_REMEXEC_BUSY = 4"
| "remexec_status_value KFSW_REMEXEC_TIMEOUT = 5"
| "remexec_status_value KFSW_REMEXEC_FAILED = 6"
| "remexec_status_value KFSW_REMEXEC_UNAVAILABLE = 7"

definition remexec_status_of_value :: "u8 \<Rightarrow> kfsw_remexec_status" where
  "remexec_status_of_value n =
     (if n = 0 then KFSW_REMEXEC_OK else if n = 1 then KFSW_REMEXEC_NOT_OFFERED
      else if n = 2 then KFSW_REMEXEC_TOO_LONG else if n = 3 then KFSW_REMEXEC_INVALID
      else if n = 4 then KFSW_REMEXEC_BUSY else if n = 5 then KFSW_REMEXEC_TIMEOUT
      else if n = 6 then KFSW_REMEXEC_FAILED else KFSW_REMEXEC_UNAVAILABLE)"

text \<open>\<open>ry_command_result\<close> is the two's complement representation of the signed result.\<close>

record kfsw_remexec_reply =
  ry_status :: kfsw_remexec_status
  ry_command_result :: "32 word"
  ry_produced :: u32
  ry_dropped :: u32
  ry_truncated :: bool
  ry_size :: u16
  ry_text :: string

section \<open>Requests\<close>

definition known_opcode :: "u8 \<Rightarrow> bool" where
  "known_opcode opcode \<longleftrightarrow>
     opcode = remexec_opcode_value KFSW_REMEXEC_OP_LIST \<or> opcode = remexec_opcode_value KFSW_REMEXEC_OP_RUN"

definition remexec_opcode_of_value :: "u8 \<Rightarrow> kfsw_remexec_opcode" where
  "remexec_opcode_of_value n =
     (if n = 1 then KFSW_REMEXEC_OP_LIST else if n = 2 then KFSW_REMEXEC_OP_RUN else REMEXEC_OP_OTHER n)"

definition kfsw_remexec_encode_request ::
  "dest \<Rightarrow> nat \<Rightarrow> kfsw_remexec_opcode \<Rightarrow> string option \<Rightarrow> dest \<Rightarrow> errno + bytes" where
  "kfsw_remexec_encode_request buffer capacity opcode text sz =
     (let t = (case text of None \<Rightarrow> [] | Some s \<Rightarrow> s);
          len = length t
      in if buffer = Null \<or> sz = Null \<or> \<not> known_opcode (remexec_opcode_value opcode) then Inl EINVAL
         else if len > KFSW_REMEXEC_COMMAND_MAX then Inl ENAMETOOLONG
         else if capacity < KFSW_REMEXEC_REQUEST_HEADER_SIZE + len then Inl ENOSPC
         else Inr ([KFSW_REMEXEC_PROTOCOL_VERSION, remexec_opcode_value opcode]
                   @ sys_put_be16 (word_of_nat len) @ bytes_of_string t))"

definition kfsw_remexec_decode_request ::
  "bytes option \<Rightarrow> nat \<Rightarrow> dest \<Rightarrow> dest \<Rightarrow> nat \<Rightarrow> errno + kfsw_remexec_opcode \<times> string" where
  "kfsw_remexec_decode_request data sz opcode text text_capacity =
     (case data of
        None \<Rightarrow> Inl EINVAL
      | Some d \<Rightarrow>
          if opcode = Null \<or> text = Null \<or> text_capacity = 0 then Inl EINVAL
          else if sz < KFSW_REMEXEC_REQUEST_HEADER_SIZE then Inl EBADMSG
          else if d ! 0 \<noteq> KFSW_REMEXEC_PROTOCOL_VERSION \<or> \<not> known_opcode (d ! 1) then Inl EBADMSG
          else
            let len = sys_get_be16 (drop 2 d)
            in if unat len \<noteq> sz - KFSW_REMEXEC_REQUEST_HEADER_SIZE then Inl EBADMSG
               else if unat len \<ge> text_capacity then Inl ENAMETOOLONG
               else Inr (remexec_opcode_of_value (d ! 1),
                         c_string_of_bytes (take (unat len) (drop KFSW_REMEXEC_REQUEST_HEADER_SIZE d))))"

section \<open>Replies\<close>

definition kfsw_remexec_encode_reply ::
  "nat \<Rightarrow> dest \<Rightarrow> nat \<Rightarrow> kfsw_remexec_opcode \<Rightarrow> kfsw_remexec_reply option \<Rightarrow> dest \<Rightarrow> errno + bytes" where
  "kfsw_remexec_encode_reply output_max buffer capacity opcode reply sz =
     (case reply of
        None \<Rightarrow> Inl EINVAL
      | Some r \<Rightarrow>
          if buffer = Null \<or> sz = Null \<or> \<not> known_opcode (remexec_opcode_value opcode) then Inl EINVAL
          else
            let len = min (unat (ry_size r)) output_max
            in if capacity < KFSW_REMEXEC_REPLY_HEADER_SIZE + len then Inl ENOSPC
               else Inr ([KFSW_REMEXEC_PROTOCOL_VERSION, remexec_opcode_value opcode,
                          remexec_status_value (ry_status r),
                          if ry_truncated r then KFSW_REMEXEC_FLAG_TRUNCATED else 0]
                         @ sys_put_be32 (ry_command_result r) @ sys_put_be32 (ry_produced r)
                         @ sys_put_be32 (ry_dropped r) @ sys_put_be16 (word_of_nat len)
                         @ bytes_of_string (take len (ry_text r))))"

definition kfsw_remexec_decode_reply ::
  "nat \<Rightarrow> bytes option \<Rightarrow> nat \<Rightarrow> kfsw_remexec_opcode \<Rightarrow> dest \<Rightarrow> errno + kfsw_remexec_reply" where
  "kfsw_remexec_decode_reply output_max data sz opcode reply =
     (case data of
        None \<Rightarrow> Inl EINVAL
      | Some d \<Rightarrow>
          if reply = Null then Inl EINVAL
          else if sz < KFSW_REMEXEC_REPLY_HEADER_SIZE then Inl EBADMSG
          else if d ! 0 \<noteq> KFSW_REMEXEC_PROTOCOL_VERSION \<or> d ! 1 \<noteq> remexec_opcode_value opcode
                  \<or> d ! 2 > remexec_status_value KFSW_REMEXEC_UNAVAILABLE then Inl EBADMSG
          else
            let len = sys_get_be16 (drop 16 d)
            in if unat len \<noteq> sz - KFSW_REMEXEC_REPLY_HEADER_SIZE \<or> unat len > output_max then Inl EBADMSG
               else Inr \<lparr>ry_status = remexec_status_of_value (d ! 2),
                         ry_command_result = sys_get_be32 (drop 4 d),
                         ry_produced = sys_get_be32 (drop 8 d), ry_dropped = sys_get_be32 (drop 12 d),
                         ry_truncated = (d ! 3 AND KFSW_REMEXEC_FLAG_TRUNCATED \<noteq> 0),
                         ry_size = len,
                         ry_text = string_of_bytes (take (unat len) (drop KFSW_REMEXEC_REPLY_HEADER_SIZE d))\<rparr>)"

section \<open>Specification vocabulary\<close>

definition remexec_request_wf :: "kfsw_remexec_opcode \<times> string \<Rightarrow> bool" where
  "remexec_request_wf = (\<lambda>(opcode, text).
     opcode \<in> {KFSW_REMEXEC_OP_LIST, KFSW_REMEXEC_OP_RUN} \<and> c_string text \<and> length text \<le> 64)"

definition remexec_reply_wf :: "nat \<Rightarrow> kfsw_remexec_reply \<Rightarrow> bool" where
  "remexec_reply_wf output_max r \<longleftrightarrow> length (ry_text r) = unat (ry_size r) \<and> length (ry_text r) \<le> output_max"

section \<open>Codec lemmas\<close>

lemma status_of_status_value [simp]: "remexec_status_of_value (remexec_status_value s) = s"
  by (cases s) (simp_all add: remexec_status_of_value_def)

lemma status_value_le [simp]: "\<not> 7 < remexec_status_value s"
  by (cases s) simp_all

lemma request_round_trip:
  assumes "remexec_request_wf (opcode, text)"
  shows "\<exists>b. kfsw_remexec_encode_request Dest 68 opcode (Some text) Dest = Inr b
    \<and> kfsw_remexec_decode_request (Some b) (length b) Dest Dest 65 = Inr (opcode, text)"
proof -
  let ?b = "[1, remexec_opcode_value opcode] @ sys_put_be16 (word_of_nat (length text)) @ bytes_of_string text"
  have op: "opcode = KFSW_REMEXEC_OP_LIST \<or> opcode = KFSW_REMEXEC_OP_RUN" and t: "c_string text" "length text \<le> 64"
    using assms by (auto simp: remexec_request_wf_def)
  have u: "unat (word_of_nat (length text) :: u16) = length text"
    using t(2) by (intro unat_word_of_nat_small) simp
  have enc: "kfsw_remexec_encode_request Dest 68 opcode (Some text) Dest = Inr ?b"
    using op t by (auto simp: kfsw_remexec_encode_request_def remexec_sizes known_opcode_def Let_def)
  have parts: "?b ! 0 = 1" "?b ! 1 = remexec_opcode_value opcode" "length ?b = 4 + length text"
    "drop 2 ?b = sys_put_be16 (word_of_nat (length text)) @ bytes_of_string text"
    "drop 4 ?b = bytes_of_string text"
    by simp_all
  have "kfsw_remexec_decode_request (Some ?b) (length ?b) Dest Dest 65 = Inr (opcode, text)"
    unfolding kfsw_remexec_decode_request_def remexec_sizes Let_def option.case parts get_put_be16
    using op t u by (auto simp: known_opcode_def remexec_opcode_of_value_def)
  with enc show ?thesis by blast
qed

lemma reply_round_trip:
  assumes wf: "remexec_reply_wf n r" and op: "opcode \<in> {KFSW_REMEXEC_OP_LIST, KFSW_REMEXEC_OP_RUN}"
  shows "\<exists>b. kfsw_remexec_encode_reply n Dest (18 + n) opcode (Some r) Dest = Inr b
    \<and> kfsw_remexec_decode_reply n (Some b) (length b) opcode Dest = Inr r"
proof -
  let ?flag = "if ry_truncated r then 1 else 0 :: u8"
  let ?b = "[1, remexec_opcode_value opcode, remexec_status_value (ry_status r), ?flag]
     @ sys_put_be32 (ry_command_result r) @ sys_put_be32 (ry_produced r)
     @ sys_put_be32 (ry_dropped r) @ sys_put_be16 (ry_size r) @ bytes_of_string (ry_text r)"
  have t: "length (ry_text r) = unat (ry_size r)" "unat (ry_size r) \<le> n"
    using wf by (auto simp: remexec_reply_wf_def)
  then have len: "min (unat (ry_size r)) n = unat (ry_size r)" by simp
  have enc: "kfsw_remexec_encode_reply n Dest (18 + n) opcode (Some r) Dest = Inr ?b"
    using op t by (auto simp: kfsw_remexec_encode_reply_def remexec_sizes known_opcode_def Let_def len)
  have parts: "?b ! 0 = 1" "?b ! 1 = remexec_opcode_value opcode" "?b ! 2 = remexec_status_value (ry_status r)"
    "?b ! 3 = ?flag" "length ?b = 18 + unat (ry_size r)"
    "drop 4 ?b = sys_put_be32 (ry_command_result r) @ drop 8 ?b"
    "drop 8 ?b = sys_put_be32 (ry_produced r) @ drop 12 ?b"
    "drop 12 ?b = sys_put_be32 (ry_dropped r) @ drop 16 ?b"
    "drop 16 ?b = sys_put_be16 (ry_size r) @ drop 18 ?b"
    "drop 18 ?b = bytes_of_string (ry_text r)"
    using t by simp_all
  have g: "sys_get_be32 (drop 4 ?b) = ry_command_result r" "sys_get_be32 (drop 8 ?b) = ry_produced r"
    "sys_get_be32 (drop 12 ?b) = ry_dropped r" "sys_get_be16 (drop 16 ?b) = ry_size r"
    by (subst parts, simp only: get_put_be)+
  have flag: "(?flag AND 1 \<noteq> 0) = ry_truncated r" by simp
  have "kfsw_remexec_decode_reply n (Some ?b) (length ?b) opcode Dest = Inr r"
    unfolding kfsw_remexec_decode_reply_def remexec_sizes Let_def option.case g parts(1-5,10) flag
    using t by (cases r) (simp add: comp_def)
  with enc show ?thesis by blast
qed

interpretation remexec_request_codec: wire_codec
  "\<lambda>m. ok (kfsw_remexec_encode_request Dest 68 (fst m) (Some (snd m)) Dest)"
  "\<lambda>b. ok (kfsw_remexec_decode_request (Some b) (length b) Dest Dest 65)" remexec_request_wf
proof unfold_locales
  fix m b
  show "remexec_request_wf m \<Longrightarrow> \<exists>b. ok (kfsw_remexec_encode_request Dest 68 (fst m) (Some (snd m)) Dest) = Some b"
    using request_round_trip [of "fst m" "snd m"] by auto
  show "remexec_request_wf m \<Longrightarrow> ok (kfsw_remexec_encode_request Dest 68 (fst m) (Some (snd m)) Dest) = Some b \<Longrightarrow>
      ok (kfsw_remexec_decode_request (Some b) (length b) Dest Dest 65) = Some m"
    using request_round_trip [of "fst m" "snd m"] by auto
qed

interpretation remexec_run_reply_codec: wire_codec
  "\<lambda>r. ok (kfsw_remexec_encode_reply n Dest (18 + n) KFSW_REMEXEC_OP_RUN (Some r) Dest)"
  "\<lambda>b. ok (kfsw_remexec_decode_reply n (Some b) (length b) KFSW_REMEXEC_OP_RUN Dest)" "remexec_reply_wf n" for n
proof unfold_locales
  fix r b
  assume wf: "remexec_reply_wf n r"
  show "\<exists>b. ok (kfsw_remexec_encode_reply n Dest (18 + n) KFSW_REMEXEC_OP_RUN (Some r) Dest) = Some b"
    using reply_round_trip [OF wf, of KFSW_REMEXEC_OP_RUN] by auto
  show "ok (kfsw_remexec_encode_reply n Dest (18 + n) KFSW_REMEXEC_OP_RUN (Some r) Dest) = Some b \<Longrightarrow>
      ok (kfsw_remexec_decode_reply n (Some b) (length b) KFSW_REMEXEC_OP_RUN Dest) = Some r"
    using reply_round_trip [OF wf, of KFSW_REMEXEC_OP_RUN] by auto
qed

end
