(* ===== verification/Remexec.thy ===== *)
theory Remexec
  imports Remexec_Protocol Command_Csp
begin

text \<open>
  Remote execution, \<^verbatim>\<open>src/remexec/remexec.c\<close> and its CSP ends \<^verbatim>\<open>src/remexec/remexec_csp.c\<close>: the allowlist, the
  bounded output and the counters.

  The Zephyr shell is not part of the sources. \<open>shell\<close> maps a line and the state \<open>'w\<close> of whatever commands
  act on to one run (the blocks it hands the transport, the handler's result, the time it took) and the
  new state, so that a line that is not executed is one that leaves \<open>'w\<close> alone. The executor mutex is a flag
  of the state; it is taken by another thread when a request finds it set. \<open>run_local\<close> is admission,
  execution and completion; the step relation interleaves requests between the admission and the
  completion of one. Log lines are left out.

  Proved: a line runs exactly when the service is initialised, the line is well formed, an allowlist entry
  offers it and no other line is running; the reply accounts for every byte the command printed; the
  listing is the allowlist; no interleaving runs two lines at once or a line the allowlist does not offer.
\<close>

section \<open>Types\<close>

record kfsw_remexec_entry =
  xe_command :: "string option"
  xe_help :: "string option"

record kfsw_remexec_allowlist =
  xa_entries :: "kfsw_remexec_entry list option"
  xa_count :: nat

record kfsw_remexec_stats =
  xs_accepted :: u32
  xs_refused :: u32
  xs_truncated :: u32
  xs_entries :: u16
  xs_running :: bool
  xs_last_result :: "32 word"
  xs_last_duration_ms :: u32

record remexec_capture =
  cap_written :: nat
  cap_buf :: string

text \<open>\<open>rx_entries\<close> is the array the service refers to, \<open>count\<close> long.\<close>

record remexec_service =
  rx_entries :: "kfsw_remexec_entry list"
  rx_initialized :: bool
  rx_stats :: kfsw_remexec_stats
  rx_last_refusal :: string
  rx_last_command :: string
  rx_executor_locked :: bool
  rx_capture :: remexec_capture

record remexec_config =
  xc_output_max :: nat
  xc_max_entries :: nat
  xc_timeout_ms :: int

text \<open>What Zephyr's shell answers when the capture shell is brought up, and what one execution does.\<close>

record shell_boot =
  sb_init :: rc
  sb_start :: rc
  sb_ready :: bool

record shell_run =
  sr_writes :: "string list"
  sr_result :: "32 word"
  sr_elapsed_ms :: int

type_synonym 'w shell = "string \<Rightarrow> 'w \<Rightarrow> shell_run \<times> 'w"

section \<open>Capture and replies\<close>

definition capture_write :: "nat \<Rightarrow> string \<Rightarrow> remexec_capture \<Rightarrow> remexec_capture" where
  "capture_write output_max data c =
     \<lparr>cap_written = cap_written c + length data,
      cap_buf = cap_buf c @ take (min (length data) (output_max - length (cap_buf c))) data\<rparr>"

definition reset_reply :: kfsw_remexec_reply where
  "reset_reply = \<lparr>ry_status = KFSW_REMEXEC_OK, ry_command_result = 0, ry_produced = 0, ry_dropped = 0,
     ry_truncated = False, ry_size = 0, ry_text = []\<rparr>"

definition remexec_append :: "nat \<Rightarrow> string \<Rightarrow> kfsw_remexec_reply \<Rightarrow> kfsw_remexec_reply" where
  "remexec_append output_max text r =
     (let kept = min (length text) (output_max - unat (ry_size r))
      in r\<lparr>ry_text := take (unat (ry_size r)) (ry_text r) @ take kept text,
           ry_size := ry_size r + word_of_nat kept,
           ry_produced := ry_produced r + word_of_nat (length text)\<rparr>)"

definition finish_reply :: "kfsw_remexec_reply \<Rightarrow> kfsw_remexec_stats \<Rightarrow> kfsw_remexec_reply \<times> kfsw_remexec_stats" where
  "finish_reply r stats =
     (let dropped = ry_produced r - ucast (ry_size r)
      in (r\<lparr>ry_dropped := dropped, ry_truncated := (dropped \<noteq> 0)\<rparr>,
          if dropped \<noteq> 0 then stats\<lparr>xs_truncated := saturating_increment (xs_truncated stats)\<rparr> else stats))"

definition remexec_refuse ::
  "remexec_config \<Rightarrow> kfsw_remexec_status \<Rightarrow> string \<Rightarrow> remexec_service \<Rightarrow> kfsw_remexec_reply \<times> remexec_service" where
  "remexec_refuse cfg status reason st =
     (let (r, stats) = finish_reply
            (remexec_append (xc_output_max cfg) reason (reset_reply\<lparr>ry_status := status\<rparr>)) (rx_stats st)
      in (r, st\<lparr>rx_last_refusal := strncpy_terminated KFSW_REMEXEC_REFUSAL_MAX reason,
                rx_stats := stats\<lparr>xs_refused := saturating_increment (xs_refused stats)\<rparr>\<rparr>))"

text \<open>\<open>snprintk(buffer, n, ...)\<close> keeps the first \<open>n - 1\<close> characters.\<close>

definition refuse_not_offered ::
  "remexec_config \<Rightarrow> string \<Rightarrow> remexec_service \<Rightarrow> kfsw_remexec_reply \<times> remexec_service" where
  "refuse_not_offered cfg command st =
     remexec_refuse cfg KFSW_REMEXEC_NOT_OFFERED
       (take (KFSW_REMEXEC_REFUSAL_MAX - 1) (CHR 0x27 # command @ CHR 0x27 # '' is not offered for remote execution'')) st"

section \<open>The allowlist\<close>

definition printable :: "string \<Rightarrow> bool" where
  "printable text \<longleftrightarrow> list_all (\<lambda>c. 0x20 \<le> (of_char c :: nat) \<and> (of_char c :: nat) \<le> 0x7E) text"

definition matches_or_extends :: "string \<Rightarrow> string \<Rightarrow> bool" where
  "matches_or_extends text prefix \<longleftrightarrow> take (length prefix) text = prefix
     \<and> (let rest = drop (length prefix) text in rest = [] \<or> hd rest = CHR '' '')"

definition entry_command :: "kfsw_remexec_entry \<Rightarrow> string" where
  "entry_command e = (case xe_command e of None \<Rightarrow> [] | Some c \<Rightarrow> c)"

definition entry_help :: "kfsw_remexec_entry \<Rightarrow> string" where
  "entry_help e = (case xe_help e of None \<Rightarrow> [] | Some h \<Rightarrow> h)"

definition offered :: "string \<Rightarrow> kfsw_remexec_entry list \<Rightarrow> kfsw_remexec_entry option" where
  "offered line entries = find (\<lambda>e. matches_or_extends line (entry_command e)) entries"

definition remexec_check_entry :: "kfsw_remexec_entry \<Rightarrow> kfsw_remexec_entry list \<Rightarrow> rc" where
  "remexec_check_entry e earlier =
     (case (xe_command e, xe_help e) of
        (Some command, Some help) \<Rightarrow>
          if command = [] \<or> help = [] \<or> \<not> printable command then Some EINVAL
          else if length command > KFSW_REMEXEC_COMMAND_MAX then Some ENAMETOOLONG
          else if list_ex (\<lambda>other. entry_command other = command) earlier then Some EINVAL
          else None
      | _ \<Rightarrow> Some EINVAL)"

fun check_entries :: "kfsw_remexec_entry list \<Rightarrow> kfsw_remexec_entry list \<Rightarrow> rc" where
  "check_entries earlier [] = None"
| "check_entries earlier (e # es) =
     (case remexec_check_entry e earlier of
        Some error \<Rightarrow> Some error
      | None \<Rightarrow> check_entries (earlier @ [e]) es)"

definition kfsw_remexec_init ::
  "remexec_config \<Rightarrow> shell_boot \<Rightarrow> kfsw_remexec_allowlist option \<Rightarrow> remexec_service \<Rightarrow> rc \<times> remexec_service" where
  "kfsw_remexec_init cfg boot allowlist st =
     (if rx_initialized st then (Some EALREADY, st)
      else
        let entries = (case allowlist of None \<Rightarrow> None | Some a \<Rightarrow> xa_entries a);
            count = (case allowlist of None \<Rightarrow> 0 | Some a \<Rightarrow> xa_count a);
            array = (case entries of None \<Rightarrow> [] | Some es \<Rightarrow> take count es);
            refused = (\<lambda>e. (Some e, st\<lparr>rx_entries := []\<rparr>))
        in if count > xc_max_entries cfg then refused E2BIG
           else if count \<noteq> 0 \<and> entries = None then refused EINVAL
           else (case check_entries [] array of
                   Some e \<Rightarrow> refused e
                 | None \<Rightarrow>
                     (case sb_init boot of
                        Some e \<Rightarrow> refused e
                      | None \<Rightarrow>
                          if sb_start boot \<noteq> None \<and> sb_start boot \<noteq> Some ENOTSUP
                          then (sb_start boot, st\<lparr>rx_entries := []\<rparr>)
                          else if \<not> sb_ready boot then refused EAGAIN
                          else (None, st\<lparr>rx_entries := array, rx_initialized := True,
                                         rx_stats := (rx_stats st)\<lparr>xs_entries := word_of_nat count\<rparr>\<rparr>))))"

definition kfsw_remexec_is_initialized :: "remexec_service \<Rightarrow> bool" where
  "kfsw_remexec_is_initialized st = rx_initialized st"

definition kfsw_remexec_get_stats :: "dest \<Rightarrow> remexec_service \<Rightarrow> kfsw_remexec_stats option" where
  "kfsw_remexec_get_stats stats st = (if stats = Null then None else Some (rx_stats st))"

definition kfsw_remexec_last_refusal :: "remexec_service \<Rightarrow> string" where
  "kfsw_remexec_last_refusal st = rx_last_refusal st"

definition kfsw_remexec_last_command :: "remexec_service \<Rightarrow> string" where
  "kfsw_remexec_last_command st = rx_last_command st"

fun kfsw_remexec_status_name :: "kfsw_remexec_status \<Rightarrow> string" where
  "kfsw_remexec_status_name KFSW_REMEXEC_OK = ''ok''"
| "kfsw_remexec_status_name KFSW_REMEXEC_NOT_OFFERED = ''not offered''"
| "kfsw_remexec_status_name KFSW_REMEXEC_TOO_LONG = ''too long''"
| "kfsw_remexec_status_name KFSW_REMEXEC_INVALID = ''invalid''"
| "kfsw_remexec_status_name KFSW_REMEXEC_BUSY = ''busy''"
| "kfsw_remexec_status_name KFSW_REMEXEC_TIMEOUT = ''timeout''"
| "kfsw_remexec_status_name KFSW_REMEXEC_FAILED = ''failed''"
| "kfsw_remexec_status_name KFSW_REMEXEC_UNAVAILABLE = ''unavailable''"

section \<open>Listing\<close>

definition listing_line :: "bool \<Rightarrow> kfsw_remexec_entry \<Rightarrow> string" where
  "listing_line narrowed e =
     take (KFSW_REMEXEC_COMMAND_MAX + KFSW_REMEXEC_REFUSAL_MAX - 1)
       (if narrowed then entry_command e @ [CHR 0x09] @ entry_help e @ [CHR 0x0A]
        else entry_command e @ [CHR 0x0A])"

definition list_entries ::
  "nat \<Rightarrow> string option \<Rightarrow> kfsw_remexec_entry list \<Rightarrow> nat \<times> kfsw_remexec_reply \<Rightarrow> nat \<times> kfsw_remexec_reply" where
  "list_entries output_max narrowed = fold (\<lambda>e (matches, r).
     case narrowed of
       None \<Rightarrow> (matches + 1, remexec_append output_max (listing_line False e) r)
     | Some prefix \<Rightarrow>
         if \<not> matches_or_extends (entry_command e) prefix then (matches, r)
         else (matches + 1, remexec_append output_max (listing_line True e) r))"

definition kfsw_remexec_list_local ::
  "remexec_config \<Rightarrow> string option \<Rightarrow> remexec_service \<Rightarrow> kfsw_remexec_reply \<times> remexec_service" where
  "kfsw_remexec_list_local cfg prefix st =
     (let narrowed = (case prefix of None \<Rightarrow> None | Some p \<Rightarrow> if p = [] then None else Some p)
      in if \<not> rx_initialized st
         then remexec_refuse cfg KFSW_REMEXEC_UNAVAILABLE ''remote execution is not initialised'' st
         else if (case narrowed of None \<Rightarrow> False
                  | Some p \<Rightarrow> \<not> printable p \<or> length p > KFSW_REMEXEC_COMMAND_MAX)
         then remexec_refuse cfg KFSW_REMEXEC_INVALID ''the requested command is not a valid name'' st
         else
           let (matches, r) = list_entries (xc_output_max cfg) narrowed (rx_entries st) (0, reset_reply)
           in case narrowed of
                Some p \<Rightarrow>
                  if matches = 0 then refuse_not_offered cfg p st
                  else (let (r', stats) = finish_reply r (rx_stats st) in (r', st\<lparr>rx_stats := stats\<rparr>))
              | None \<Rightarrow> (let (r', stats) = finish_reply r (rx_stats st) in (r', st\<lparr>rx_stats := stats\<rparr>)))"

section \<open>Execution\<close>

text \<open>
  Admission refuses the line with a reply, or takes the executor and records the line; completion turns
  what the run did into the reply and gives the executor back.
\<close>

definition remexec_admit ::
  "remexec_config \<Rightarrow> string option \<Rightarrow> remexec_service \<Rightarrow> (kfsw_remexec_reply + string) \<times> remexec_service" where
  "remexec_admit cfg line st =
     (let refused = (\<lambda>status reason. let (r, st') = remexec_refuse cfg status reason st in (Inl r, st'))
      in if \<not> rx_initialized st then refused KFSW_REMEXEC_UNAVAILABLE ''remote execution is not initialised''
         else
           (case line of
              None \<Rightarrow> refused KFSW_REMEXEC_INVALID ''the request carried no command''
            | Some l \<Rightarrow>
                if l = [] then refused KFSW_REMEXEC_INVALID ''the request carried no command''
                else if length l > KFSW_REMEXEC_COMMAND_MAX
                then refused KFSW_REMEXEC_TOO_LONG ''a command is at most 64 bytes''
                else if \<not> printable l
                then refused KFSW_REMEXEC_INVALID ''the command holds a byte that is not printable''
                else if offered l (rx_entries st) = None
                then (let (r, st') = refuse_not_offered cfg l st in (Inl r, st'))
                else if rx_executor_locked st
                then refused KFSW_REMEXEC_BUSY ''another remote execution is running''
                else (Inr l, st\<lparr>rx_executor_locked := True,
                                rx_capture := \<lparr>cap_written = 0, cap_buf = []\<rparr>,
                                rx_last_command := strncpy_terminated (KFSW_REMEXEC_COMMAND_MAX + 1) l,
                                rx_stats := (rx_stats st)\<lparr>xs_running := True\<rparr>\<rparr>)))"

definition remexec_complete ::
  "remexec_config \<Rightarrow> shell_run \<Rightarrow> remexec_service \<Rightarrow> kfsw_remexec_reply \<times> remexec_service" where
  "remexec_complete cfg run st =
     (let c = fold (capture_write (xc_output_max cfg)) (sr_writes run) (rx_capture st);
          stats1 = (rx_stats st)\<lparr>xs_running := False, xs_last_result := sr_result run,
                     xs_last_duration_ms := word_of_int (sr_elapsed_ms run)\<rparr>;
          r1 = remexec_append (xc_output_max cfg) (takeWhile (\<lambda>ch. ch \<noteq> NUL) (cap_buf c)) reset_reply;
          r2 = r1\<lparr>ry_produced := word_of_nat (cap_written c), ry_command_result := sr_result run,
                  ry_status := (if sr_elapsed_ms run > xc_timeout_ms cfg then KFSW_REMEXEC_TIMEOUT
                                else if sr_result run \<noteq> 0 then KFSW_REMEXEC_FAILED
                                else KFSW_REMEXEC_OK)\<rparr>;
          (r3, stats2) = finish_reply r2 stats1
      in (r3, st\<lparr>rx_capture := c,
                 rx_stats := stats2\<lparr>xs_accepted := saturating_increment (xs_accepted stats2)\<rparr>,
                 rx_executor_locked := False\<rparr>))"

definition kfsw_remexec_run_local ::
  "remexec_config \<Rightarrow> 'w shell \<Rightarrow> string option \<Rightarrow> remexec_service \<times> 'w
     \<Rightarrow> kfsw_remexec_reply \<times> remexec_service \<times> 'w" where
  "kfsw_remexec_run_local cfg shell line = (\<lambda>(st, w).
     case remexec_admit cfg line st of
       (Inl r, st1) \<Rightarrow> (r, st1, w)
     | (Inr l, st1) \<Rightarrow>
         let (run, w') = shell l w;
             (r, st2) = remexec_complete cfg run st1
         in (r, st2, w'))"

section \<open>The CSP ends\<close>

definition send_reply ::
  "remexec_config \<Rightarrow> bool \<Rightarrow> kfsw_remexec_opcode \<Rightarrow> kfsw_remexec_reply \<Rightarrow> bytes option" where
  "send_reply cfg buffer_available opcode reply =
     (case kfsw_remexec_encode_reply (xc_output_max cfg) Dest
             (KFSW_REMEXEC_REPLY_HEADER_SIZE + xc_output_max cfg) opcode (Some reply) Dest of
        Inl e \<Rightarrow> None
      | Inr buffer \<Rightarrow> if buffer_available then Some buffer else None)"

definition remexec_serve_request ::
  "remexec_config \<Rightarrow> 'w shell \<Rightarrow> bool \<Rightarrow> bytes option \<Rightarrow> remexec_service \<times> 'w
     \<Rightarrow> bytes option \<times> remexec_service \<times> 'w" where
  "remexec_serve_request cfg shell buffer_available packet = (\<lambda>(st, w).
     case packet of
       None \<Rightarrow> (None, st, w)
     | Some data \<Rightarrow>
         (case kfsw_remexec_decode_request (Some data) (length data) Dest Dest (KFSW_REMEXEC_COMMAND_MAX + 1) of
            Inl e \<Rightarrow> (None, st, w)
          | Inr (opcode, text) \<Rightarrow>
              if opcode = KFSW_REMEXEC_OP_LIST then
                (let (r, st') = kfsw_remexec_list_local cfg (Some text) st
                 in (send_reply cfg buffer_available opcode r, st', w))
              else
                (let (r, st', w') = kfsw_remexec_run_local cfg shell (Some text) (st, w)
                 in (send_reply cfg buffer_available opcode r, st', w'))))"

definition kfsw_remexec_server_start ::
  "remexec_service \<Rightarrow> kfsw_csp_info \<Rightarrow> bool \<Rightarrow> bool \<Rightarrow> server_state \<Rightarrow> rc \<times> server_state" where
  "kfsw_remexec_server_start st csp_info listens binds server =
     (if \<not> kfsw_remexec_is_initialized st then (Some EACCES, server)
      else if server_started server then (None, server)
      else if \<not> csp_initialized csp_info \<or> \<not> csp_router_running csp_info then (Some EACCES, server)
      else if \<not> listens then (Some EIO, server)
      else if \<not> binds then (Some EADDRINUSE, server)
      else (None, \<lparr>server_started = True, thread_started = True\<rparr>))"

definition remexec_server_step ::
  "remexec_config \<Rightarrow> 'w shell \<Rightarrow> bool \<Rightarrow> bytes option option \<Rightarrow> server_state \<Rightarrow> remexec_service \<times> 'w
     \<Rightarrow> bytes option \<times> remexec_service \<times> 'w" where
  "remexec_server_step cfg shell buffer_available accepted server st =
     (if \<not> server_started server then (None, st)
      else (case accepted of
              None \<Rightarrow> (None, st)
            | Some packet \<Rightarrow> remexec_serve_request cfg shell buffer_available packet st))"

definition remexec_exchange ::
  "remexec_config \<Rightarrow> 'n csp_link \<Rightarrow> u16 \<Rightarrow> kfsw_remexec_opcode \<Rightarrow> string \<Rightarrow> 'n
     \<Rightarrow> (errno + kfsw_remexec_reply) \<times> 'n" where
  "remexec_exchange cfg transact node opcode text net =
     (case kfsw_remexec_encode_request Dest (KFSW_REMEXEC_REQUEST_HEADER_SIZE + KFSW_REMEXEC_COMMAND_MAX)
             opcode (Some text) Dest of
        Inl e \<Rightarrow> (Inl e, net)
      | Inr buffer \<Rightarrow>
          let (answer, net') = transact node buffer net
          in (case answer of
                No_Connection \<Rightarrow> Inl ECONNREFUSED
              | No_Buffer \<Rightarrow> Inl ENOMEM
              | No_Reply \<Rightarrow> Inl ETIMEDOUT
              | Reply data \<Rightarrow> kfsw_remexec_decode_reply (xc_output_max cfg) (Some data) (length data) opcode Dest,
              net'))"

definition remexec_request ::
  "remexec_config \<Rightarrow> 'n csp_link \<Rightarrow> kfsw_csp_info \<Rightarrow> u16 \<Rightarrow> u16 \<Rightarrow> kfsw_remexec_opcode \<Rightarrow> string \<Rightarrow> dest \<Rightarrow> 'n
     \<Rightarrow> (errno + kfsw_remexec_reply) \<times> 'n" where
  "remexec_request cfg transact csp_info broadcast node opcode text reply net =
     (if reply = Null \<or> node = 0 \<or> node \<ge> broadcast then (Inl EINVAL, net)
      else if node = csp_address csp_info then (Inl EINVAL, net)
      else if \<not> csp_initialized csp_info \<or> \<not> csp_router_running csp_info then (Inl EACCES, net)
      else remexec_exchange cfg transact node opcode text net)"

definition kfsw_remexec_list_remote ::
  "remexec_config \<Rightarrow> 'n csp_link \<Rightarrow> kfsw_csp_info \<Rightarrow> u16 \<Rightarrow> u16 \<Rightarrow> string option \<Rightarrow> dest \<Rightarrow> 'n
     \<Rightarrow> (errno + kfsw_remexec_reply) \<times> 'n" where
  "kfsw_remexec_list_remote cfg transact csp_info broadcast node prefix reply net =
     remexec_request cfg transact csp_info broadcast node KFSW_REMEXEC_OP_LIST
       (case prefix of None \<Rightarrow> [] | Some p \<Rightarrow> p) reply net"

definition kfsw_remexec_run_remote ::
  "remexec_config \<Rightarrow> 'n csp_link \<Rightarrow> kfsw_csp_info \<Rightarrow> u16 \<Rightarrow> u16 \<Rightarrow> string option \<Rightarrow> dest \<Rightarrow> 'n
     \<Rightarrow> (errno + kfsw_remexec_reply) \<times> 'n" where
  "kfsw_remexec_run_remote cfg transact csp_info broadcast node line reply net =
     (case line of
        None \<Rightarrow> (Inl EINVAL, net)
      | Some l \<Rightarrow> remexec_request cfg transact csp_info broadcast node KFSW_REMEXEC_OP_RUN l reply net)"

section \<open>Interleaved requests\<close>

text \<open>
  The state of the node as threads see it: the service, the lines between admission and completion, and
  every line handed to the shell so far. Any request may arrive between any two of these steps.
\<close>

definition remexec_boot :: remexec_service where
  "remexec_boot = \<lparr>rx_entries = [], rx_initialized = False,
     rx_stats = \<lparr>xs_accepted = 0, xs_refused = 0, xs_truncated = 0, xs_entries = 0, xs_running = False,
                 xs_last_result = 0, xs_last_duration_ms = 0\<rparr>,
     rx_last_refusal = [], rx_last_command = [], rx_executor_locked = False,
     rx_capture = \<lparr>cap_written = 0, cap_buf = []\<rparr>\<rparr>"

inductive remexec_reachable ::
  "remexec_config \<Rightarrow> remexec_service \<times> string list \<times> string list \<Rightarrow> bool" for cfg where
  boot: "remexec_reachable cfg (remexec_boot, [], [])"
| init: "remexec_reachable cfg (st, running, executed) \<Longrightarrow>
    remexec_reachable cfg (snd (kfsw_remexec_init cfg shell_state allowlist st), running, executed)"
| listing: "remexec_reachable cfg (st, running, executed) \<Longrightarrow>
    remexec_reachable cfg (snd (kfsw_remexec_list_local cfg prefix st), running, executed)"
| refusal: "remexec_reachable cfg (st, running, executed) \<Longrightarrow> remexec_admit cfg line st = (Inl r, st') \<Longrightarrow>
    remexec_reachable cfg (st', running, executed)"
| start: "remexec_reachable cfg (st, running, executed) \<Longrightarrow> remexec_admit cfg line st = (Inr l, st') \<Longrightarrow>
    remexec_reachable cfg (st', l # running, l # executed)"
| completion: "remexec_reachable cfg (st, before @ l # after, executed) \<Longrightarrow>
    remexec_reachable cfg (snd (remexec_complete cfg run st), before @ after, executed)"

definition offers :: "kfsw_remexec_entry list \<Rightarrow> string \<Rightarrow> bool" where
  "offers entries l \<longleftrightarrow>
     (\<exists>e \<in> set entries. l = entry_command e \<or> (\<exists>arguments. l = entry_command e @ '' '' @ arguments))"

definition runnable :: "remexec_service \<Rightarrow> string \<Rightarrow> bool" where
  "runnable st l \<longleftrightarrow> rx_initialized st \<and> l \<noteq> [] \<and> length l \<le> 64 \<and> printable l
     \<and> offers (rx_entries st) l \<and> \<not> rx_executor_locked st"

definition remexec_inv :: "remexec_service \<times> string list \<times> string list \<Rightarrow> bool" where
  "remexec_inv = (\<lambda>(st, running, executed).
     length running \<le> 1
     \<and> (rx_executor_locked st \<longleftrightarrow> running \<noteq> []) \<and> (xs_running (rx_stats st) \<longleftrightarrow> running \<noteq> [])
     \<and> (running \<noteq> [] \<longrightarrow> rx_last_command st = hd running)
     \<and> (executed \<noteq> [] \<longrightarrow> rx_initialized st)
     \<and> list_all (\<lambda>l. l \<noteq> [] \<and> length l \<le> 64 \<and> printable l \<and> offers (rx_entries st) l) executed)"

definition remexec_demo_config :: remexec_config where
  "remexec_demo_config = \<lparr>xc_output_max = 4, xc_max_entries = 16, xc_timeout_ms = 5000\<rparr>"

definition remexec_demo_service :: remexec_service where
  "remexec_demo_service = remexec_boot\<lparr>rx_initialized := True,
     rx_entries := [\<lparr>xe_command = Some ''log'', xe_help = Some ''show''\<rparr>]\<rparr>"

definition remexec_demo_shell :: "string list shell" where
  "remexec_demo_shell line w = (\<lparr>sr_writes = [''abc'', ''def''], sr_result = 0, sr_elapsed_ms = 1\<rparr>, line # w)"

section \<open>Lemmas\<close>

lemma matches_iff: "matches_or_extends t p \<longleftrightarrow> t = p \<or> (\<exists>a. t = p @ '' '' @ a)"
proof -
  have "t = p \<or> (\<exists>a. t = p @ '' '' @ a)" if m: "matches_or_extends t p"
  proof -
    have t: "t = p @ drop (length p) t"
      using m append_take_drop_id [of "length p" t] by (simp add: matches_or_extends_def)
    show ?thesis
    proof (cases "drop (length p) t")
      case Nil
      with t show ?thesis by (metis append_Nil2)
    next
      case (Cons c a)
      with m have "c = CHR '' ''" by (simp add: matches_or_extends_def Let_def)
      with t Cons show ?thesis by (metis append_Cons append_Nil)
    qed
  qed
  then show ?thesis by (auto simp: matches_or_extends_def)
qed

lemma offered_iff: "offered l entries \<noteq> None \<longleftrightarrow> offers entries l"
  by (auto simp: offered_def offers_def find_None_iff matches_iff)

lemma finish_stats [simp]:
  "xs_accepted (snd (finish_reply r s)) = xs_accepted s" "xs_refused (snd (finish_reply r s)) = xs_refused s"
  "xs_running (snd (finish_reply r s)) = xs_running s" "ry_status (fst (finish_reply r s)) = ry_status r"
  "ry_command_result (fst (finish_reply r s)) = ry_command_result r"
  by (simp_all add: finish_reply_def Let_def)

lemma refuse_effect:
  "remexec_refuse cfg status reason st = (r, st') \<Longrightarrow>
   ry_status r = status \<and> rx_entries st' = rx_entries st \<and> rx_initialized st' = rx_initialized st
   \<and> rx_last_command st' = rx_last_command st \<and> rx_executor_locked st' = rx_executor_locked st
   \<and> xs_running (rx_stats st') = xs_running (rx_stats st)
   \<and> xs_accepted (rx_stats st') = xs_accepted (rx_stats st)
   \<and> xs_refused (rx_stats st') = saturating_increment (xs_refused (rx_stats st))"
  by (auto simp: remexec_refuse_def remexec_append_def finish_reply_def Let_def split: if_splits)

lemma refused_effect:
  assumes "remexec_admit cfg line st = (Inl r, st')"
  shows "ry_status r \<notin> {KFSW_REMEXEC_OK, KFSW_REMEXEC_FAILED, KFSW_REMEXEC_TIMEOUT}
   \<and> rx_entries st' = rx_entries st \<and> rx_initialized st' = rx_initialized st
   \<and> rx_last_command st' = rx_last_command st \<and> rx_executor_locked st' = rx_executor_locked st
   \<and> xs_running (rx_stats st') = xs_running (rx_stats st)
   \<and> xs_accepted (rx_stats st') = xs_accepted (rx_stats st)
   \<and> xs_refused (rx_stats st') = saturating_increment (xs_refused (rx_stats st))"
proof -
  obtain status reason where "remexec_refuse cfg status reason st = (r, st')"
    "status \<notin> {KFSW_REMEXEC_OK, KFSW_REMEXEC_FAILED, KFSW_REMEXEC_TIMEOUT}"
    using assms
    by (auto simp: remexec_admit_def refuse_not_offered_def Let_def split: if_splits option.splits prod.splits)
  then show ?thesis using refuse_effect [of cfg status reason st r st'] by auto
qed

lemma admitted_iff: "(\<exists>st'. remexec_admit cfg (Some l) st = (Inr l, st')) \<longleftrightarrow> runnable st l"
  unfolding offered_iff [symmetric] runnable_def
  by (auto simp: remexec_admit_def Let_def remexec_sizes split: prod.splits)

lemma admitted_effect:
  assumes "remexec_admit cfg line st = (Inr l, st')"
  shows "line = Some l \<and> runnable st l
    \<and> st' = st\<lparr>rx_executor_locked := True, rx_capture := \<lparr>cap_written = 0, cap_buf = []\<rparr>,
               rx_last_command := l, rx_stats := (rx_stats st)\<lparr>xs_running := True\<rparr>\<rparr>"
  using assms unfolding runnable_def offered_iff [symmetric]
  by (auto simp: remexec_admit_def Let_def remexec_sizes strncpy_terminated_def
      split: if_splits option.splits prod.splits)

lemma complete_effect:
  assumes "remexec_complete cfg run st = (r, st')"
  shows "rx_entries st' = rx_entries st \<and> rx_initialized st' = rx_initialized st
    \<and> rx_last_command st' = rx_last_command st \<and> \<not> rx_executor_locked st' \<and> \<not> xs_running (rx_stats st')
    \<and> xs_accepted (rx_stats st') = saturating_increment (xs_accepted (rx_stats st))
    \<and> xs_refused (rx_stats st') = xs_refused (rx_stats st)
    \<and> ry_command_result r = sr_result run
    \<and> ry_status r = (if sr_elapsed_ms run > xc_timeout_ms cfg then KFSW_REMEXEC_TIMEOUT
                      else if sr_result run \<noteq> 0 then KFSW_REMEXEC_FAILED else KFSW_REMEXEC_OK)"
  using assms by (auto simp: remexec_complete_def finish_reply_def Let_def split: if_splits)

lemma capture_run:
  "length (cap_buf c) \<le> m \<Longrightarrow>
   fold (capture_write m) ws c =
     \<lparr>cap_written = cap_written c + length (concat ws), cap_buf = take m (cap_buf c @ concat ws)\<rparr>"
proof (induction ws arbitrary: c)
  case (Cons w ws)
  let ?k = "m - length (cap_buf c)"
  have k: "take (min (length w) ?k) w = take ?k w" by (simp add: min_def)
  have c1: "capture_write m w c = \<lparr>cap_written = cap_written c + length w, cap_buf = take m (cap_buf c @ w)\<rparr>"
    using Cons.prems by (simp add: capture_write_def k)
  have "take m (take m (cap_buf c @ w) @ concat ws) = take m (cap_buf c @ w @ concat ws)"
    using Cons.prems by (cases "length (cap_buf c @ w) \<le> m") auto
  then show ?case using Cons.IH [of "capture_write m w c"] by (simp add: c1)
qed simp

lemma complete_reply:
  assumes "remexec_complete cfg run st = (r, st')" and "rx_capture st = \<lparr>cap_written = 0, cap_buf = []\<rparr>"
    and "output = concat (sr_writes run)" and "NUL \<notin> set output" and "length output < 2 ^ 32"
    and "xc_output_max cfg < 65536"
  shows "ry_text r = take (xc_output_max cfg) output
    \<and> unat (ry_size r) = min (length output) (xc_output_max cfg)
    \<and> unat (ry_produced r) = length output
    \<and> unat (ry_dropped r) = length output - xc_output_max cfg
    \<and> (ry_truncated r \<longleftrightarrow> length output > xc_output_max cfg)"
proof -
  let ?m = "xc_output_max cfg"
  have c: "fold (capture_write ?m) (sr_writes run) (rx_capture st) =
      \<lparr>cap_written = length output, cap_buf = take ?m output\<rparr>"
    using capture_run [of "rx_capture st" ?m "sr_writes run"] assms(2,3) by simp
  have tw: "takeWhile (\<lambda>ch. ch \<noteq> NUL) (take ?m output) = take ?m output"
    using assms(4) by (auto simp: takeWhile_eq_all_conv dest: in_set_takeD)
  let ?n = "min (length output) ?m"
  have n: "unat (word_of_nat ?n :: u16) = ?n" "unat (ucast (word_of_nat ?n :: u16) :: u32) = ?n"
    using assms(6) by (simp_all add: unat_word_of_nat_small unsigned_ucast_eq take_bit_nat_eq_self_iff)
  have p: "unat (word_of_nat (length output) :: u32) = length output"
    using assms(5) by (simp add: unat_word_of_nat_small)
  have le: "ucast (word_of_nat ?n :: u16) \<le> (word_of_nat (length output) :: u32)"
    by (simp add: word_le_nat_alt n p)
  have d: "unat (word_of_nat (length output) - ucast (word_of_nat ?n :: u16) :: u32) = length output - ?m"
    by (simp add: unat_sub [OF le] n p)
  have z: "(word_of_nat (length output) - ucast (word_of_nat ?n :: u16) :: u32) = 0 \<longleftrightarrow> length output \<le> ?m"
    using d by (metis diff_is_0_eq unat_eq_zero)
  show ?thesis
    using assms(1) n p d z
    by (auto simp: remexec_complete_def remexec_append_def reset_reply_def finish_reply_def Let_def c tw
        min.commute split: if_splits)
qed

lemma list_local_keeps:
  "rx_entries (snd (kfsw_remexec_list_local cfg prefix st)) = rx_entries st
   \<and> rx_initialized (snd (kfsw_remexec_list_local cfg prefix st)) = rx_initialized st
   \<and> rx_last_command (snd (kfsw_remexec_list_local cfg prefix st)) = rx_last_command st
   \<and> rx_executor_locked (snd (kfsw_remexec_list_local cfg prefix st)) = rx_executor_locked st
   \<and> xs_running (rx_stats (snd (kfsw_remexec_list_local cfg prefix st))) = xs_running (rx_stats st)"
  by (auto simp: kfsw_remexec_list_local_def refuse_not_offered_def remexec_refuse_def finish_reply_def Let_def
      split: option.splits prod.splits)

lemma init_keeps:
  "(rx_initialized st \<longrightarrow> snd (kfsw_remexec_init cfg sh allowlist st) = st)
   \<and> rx_last_command (snd (kfsw_remexec_init cfg sh allowlist st)) = rx_last_command st
   \<and> rx_executor_locked (snd (kfsw_remexec_init cfg sh allowlist st)) = rx_executor_locked st
   \<and> xs_running (rx_stats (snd (kfsw_remexec_init cfg sh allowlist st))) = xs_running (rx_stats st)"
  by (auto simp: kfsw_remexec_init_def Let_def split: option.splits)

lemma remexec_reachable_inv: "remexec_reachable cfg s \<Longrightarrow> remexec_inv s"
proof (induction rule: remexec_reachable.induct)
  case boot
  show ?case by (simp add: remexec_inv_def remexec_boot_def)
next
  case (init st running executed shell_state allowlist)
  have "rx_initialized st \<longrightarrow> snd (kfsw_remexec_init cfg shell_state allowlist st) = st"
    using init_keeps by blast
  with init.IH init_keeps [of st cfg shell_state allowlist] show ?case
    by (cases "executed = []") (auto simp: remexec_inv_def)
next
  case (listing st running executed prefix)
  then show ?case using list_local_keeps [of cfg prefix st] by (auto simp: remexec_inv_def)
next
  case (refusal st running executed line r st')
  then show ?case using refused_effect [of cfg line st r st'] by (auto simp: remexec_inv_def)
next
  case (start st running executed line l st')
  then show ?case using admitted_effect [of cfg line st l st'] by (auto simp: remexec_inv_def runnable_def)
next
  case (completion st before l after executed run)
  obtain r st' where c: "remexec_complete cfg run st = (r, st')" by fastforce
  from completion.IH have "before @ after = []" by (auto simp: remexec_inv_def)
  with completion.IH complete_effect [OF c] c show ?case by (auto simp: remexec_inv_def)
qed

lemma append_text:
  assumes "length (ry_text r) = unat (ry_size r)" and "unat (ry_size r) \<le> m" and "m < 65536"
  shows "ry_text (remexec_append m t r) = take m (ry_text r @ t)"
    and "unat (ry_size (remexec_append m t r)) = length (take m (ry_text r @ t))"
proof -
  let ?k = "min (length t) (m - unat (ry_size r))"
  have k: "unat (word_of_nat ?k :: u16) = ?k" using assms(3) by (intro unat_word_of_nat_small) simp
  have s: "unat (ry_size r + word_of_nat ?k) = unat (ry_size r) + ?k"
    using assms(2,3) k by (subst unat_plus_small) auto
  have "take ?k t = take (m - unat (ry_size r)) t" by (simp add: min_def)
  then show "ry_text (remexec_append m t r) = take m (ry_text r @ t)"
    using assms(1,2) by (simp add: remexec_append_def Let_def)
  show "unat (ry_size (remexec_append m t r)) = length (take m (ry_text r @ t))"
    using assms(1,2) s by (simp add: remexec_append_def Let_def)
qed

lemma take_append_take: "take m (take m xs @ ys) = take m (xs @ ys)"
  by (cases "length xs \<le> m") auto

lemma list_entries_text:
  assumes "length (ry_text r) = unat (ry_size r)" and "unat (ry_size r) \<le> m" and "m < 65536"
  shows "ry_text (snd (list_entries m None es (k, r))) = take m (ry_text r @ concat (map (listing_line False) es))"
  using assms
proof (induction es arbitrary: k r)
  case (Cons e es)
  let ?r = "remexec_append m (listing_line False e) r"
  note a = append_text [OF Cons.prems, of "listing_line False e"]
  have "ry_text (snd (list_entries m None es (k + 1, ?r))) =
      take m (ry_text ?r @ concat (map (listing_line False) es))"
    by (rule Cons.IH) (use a Cons.prems(3) in simp_all)
  also have "\<dots> = take m (ry_text r @ concat (map (listing_line False) (e # es)))"
    by (simp only: a(1) take_append_take list.map concat.simps append_assoc)
  finally show ?case by (simp add: list_entries_def)
qed (simp add: list_entries_def)

text \<open>Discovery and permission are one list: the bare listing is the allowlist, one command a line.\<close>

lemma listing_is_allowlist:
  assumes "rx_initialized st" and "xc_output_max cfg < 65536"
    and "list_all (\<lambda>e. length (entry_command e) \<le> 64) (rx_entries st)"
  shows "ry_text (fst (kfsw_remexec_list_local cfg (Some []) st)) =
    take (xc_output_max cfg) (concat (map (\<lambda>e. entry_command e @ [CHR 0x0A]) (rx_entries st)))"
proof -
  have l: "map (listing_line False) (rx_entries st) = map (\<lambda>e. entry_command e @ [CHR 0x0A]) (rx_entries st)"
    using assms(3) by (auto simp: listing_line_def remexec_sizes list_all_iff)
  have "ry_text (snd (list_entries (xc_output_max cfg) None (rx_entries st) (0, reset_reply))) =
      take (xc_output_max cfg) (concat (map (\<lambda>e. entry_command e @ [CHR 0x0A]) (rx_entries st)))"
    using list_entries_text [of reset_reply "xc_output_max cfg" "rx_entries st" 0] assms(2) l
    by (simp add: reset_reply_def)
  then show ?thesis
    using assms(1) by (auto simp: kfsw_remexec_list_local_def finish_reply_def Let_def split: prod.splits)
qed

lemma runnable_run:
  assumes "kfsw_remexec_run_local cfg shell (Some l) (st, w) = (r, st', w')" and "runnable st l"
  shows "\<exists>st1. rx_stats st1 = (rx_stats st)\<lparr>xs_running := True\<rparr> \<and> rx_last_command st1 = l
    \<and> rx_capture st1 = \<lparr>cap_written = 0, cap_buf = []\<rparr>
    \<and> remexec_complete cfg (fst (shell l w)) st1 = (r, st') \<and> w' = snd (shell l w)"
proof -
  obtain st1 where a: "remexec_admit cfg (Some l) st = (Inr l, st1)"
    using admitted_iff [of cfg l st] assms(2) by blast
  from admitted_effect [OF a] assms(1) a show ?thesis
    by (intro exI [of _ st1]) (auto simp: kfsw_remexec_run_local_def split: prod.splits)
qed

lemma not_runnable_run:
  assumes "kfsw_remexec_run_local cfg shell (Some l) (st, w) = (r, st', w')" and "\<not> runnable st l"
  shows "remexec_admit cfg (Some l) st = (Inl r, st') \<and> w' = w"
proof -
  obtain r1 st1 where "remexec_admit cfg (Some l) st = (Inl r1, st1)"
  proof (cases "remexec_admit cfg (Some l) st")
    case (Pair x st1)
    then show ?thesis using admitted_effect [of cfg "Some l" st] assms(2) that by (cases x) auto
  qed
  with assms(1) show ?thesis by (simp add: kfsw_remexec_run_local_def)
qed

text \<open>Every reply of an execution is one the wire format carries.\<close>

lemma append_wf:
  assumes "remexec_reply_wf m r" and "m < 65536"
  shows "remexec_reply_wf m (remexec_append m t r)"
proof -
  have "length (ry_text r) = unat (ry_size r)" "unat (ry_size r) \<le> m"
    using assms(1) by (auto simp: remexec_reply_wf_def)
  from append_text [OF this assms(2), of t] show ?thesis by (simp add: remexec_reply_wf_def)
qed

lemma reset_wf: "remexec_reply_wf m (reset_reply\<lparr>ry_status := s\<rparr>)" "remexec_reply_wf m reset_reply"
  by (simp_all add: remexec_reply_wf_def reset_reply_def)

lemma finish_wf: "remexec_reply_wf m (fst (finish_reply r s)) = remexec_reply_wf m r"
  by (simp add: remexec_reply_wf_def finish_reply_def Let_def)

lemma refuse_wf:
  assumes "xc_output_max cfg < 65536"
  shows "remexec_reply_wf (xc_output_max cfg) (fst (remexec_refuse cfg status reason st))"
proof -
  let ?r = "remexec_append (xc_output_max cfg) reason (reset_reply\<lparr>ry_status := status\<rparr>)"
  have "fst (remexec_refuse cfg status reason st) = fst (finish_reply ?r (rx_stats st))"
    by (simp add: remexec_refuse_def Let_def split: prod.split)
  then show ?thesis using append_wf [OF reset_wf(1) assms] by (simp add: finish_wf)
qed

lemma complete_wf:
  assumes "xc_output_max cfg < 65536"
  shows "remexec_reply_wf (xc_output_max cfg) (fst (remexec_complete cfg run st))"
proof -
  let ?c = "fold (capture_write (xc_output_max cfg)) (sr_writes run) (rx_capture st)"
  let ?r = "remexec_append (xc_output_max cfg) (takeWhile (\<lambda>ch. ch \<noteq> NUL) (cap_buf ?c)) reset_reply"
  have "ry_text (fst (remexec_complete cfg run st)) = ry_text ?r"
    "ry_size (fst (remexec_complete cfg run st)) = ry_size ?r"
    by (simp_all add: remexec_complete_def finish_reply_def Let_def)
  moreover have "remexec_reply_wf (xc_output_max cfg) ?r" by (rule append_wf [OF reset_wf(2) assms])
  ultimately show ?thesis unfolding remexec_reply_wf_def by metis
qed

lemma admit_wf:
  assumes "xc_output_max cfg < 65536" and "remexec_admit cfg line st = (Inl r, st')"
  shows "remexec_reply_wf (xc_output_max cfg) r"
proof -
  obtain status reason where "remexec_refuse cfg status reason st = (r, st')"
    using assms(2)
    by (auto simp: remexec_admit_def refuse_not_offered_def Let_def split: if_splits option.splits prod.splits)
  then show ?thesis using refuse_wf [OF assms(1), of status reason st] by simp
qed

lemma run_wf:
  assumes "xc_output_max cfg < 65536" and "kfsw_remexec_run_local cfg shell line (st, w) = (r, st', w')"
  shows "remexec_reply_wf (xc_output_max cfg) r"
proof (cases "remexec_admit cfg line st")
  case (Pair x st1)
  then show ?thesis
    using assms complete_wf [OF assms(1), of "fst (shell (projr x) w)" st1] admit_wf [OF assms(1), of line st]
    by (cases x) (auto simp: kfsw_remexec_run_local_def split: prod.splits)
qed

section \<open>Properties\<close>

text \<open>
  C4. The allowlist is the boundary: a requested line reaches the shell exactly when the service is
  initialised, the line is not empty, at most 64 characters, all printable, equal to an allowlist command
  or that command with arguments after a space, and no other line is running. Then it is counted as
  accepted and recorded as the last command, and the reply carries the handler's result; otherwise the
  shell is not called and the refusal is counted and named.\<close>

theorem remexec_runs_iff_offered:
  assumes "kfsw_remexec_run_local cfg shell (Some l) (st, w) = (r, st', w')"
  shows "if rx_initialized st \<and> l \<noteq> [] \<and> length l \<le> 64 \<and> printable l \<and> \<not> rx_executor_locked st
            \<and> (\<exists>e \<in> set (rx_entries st). l = entry_command e \<or> (\<exists>arguments. l = entry_command e @ '' '' @ arguments))
         then w' = snd (shell l w) \<and> rx_last_command st' = l
            \<and> ry_status r \<in> {KFSW_REMEXEC_OK, KFSW_REMEXEC_FAILED, KFSW_REMEXEC_TIMEOUT}
            \<and> ry_command_result r = sr_result (fst (shell l w))
            \<and> xs_accepted (rx_stats st') = saturating_increment (xs_accepted (rx_stats st))
            \<and> xs_refused (rx_stats st') = xs_refused (rx_stats st)
         else w' = w \<and> rx_last_command st' = rx_last_command st
            \<and> ry_status r \<notin> {KFSW_REMEXEC_OK, KFSW_REMEXEC_FAILED, KFSW_REMEXEC_TIMEOUT}
            \<and> xs_accepted (rx_stats st') = xs_accepted (rx_stats st)
            \<and> xs_refused (rx_stats st') = saturating_increment (xs_refused (rx_stats st))"
proof -
  have c: "(rx_initialized st \<and> l \<noteq> [] \<and> length l \<le> 64 \<and> printable l \<and> \<not> rx_executor_locked st
      \<and> (\<exists>e \<in> set (rx_entries st). l = entry_command e \<or> (\<exists>arguments. l = entry_command e @ '' '' @ arguments)))
      = runnable st l"
    by (auto simp: runnable_def offers_def)
  show ?thesis
  proof (cases "runnable st l")
    case True
    then obtain st1 where "rx_stats st1 = (rx_stats st)\<lparr>xs_running := True\<rparr>" "rx_last_command st1 = l"
      "remexec_complete cfg (fst (shell l w)) st1 = (r, st')" "w' = snd (shell l w)"
      using runnable_run [OF assms] by blast
    with True complete_effect [of cfg "fst (shell l w)" st1 r st'] show ?thesis unfolding c by simp
  next
    case False
    with not_runnable_run [OF assms] refused_effect [of cfg "Some l" st r st'] show ?thesis
      unfolding c by simp
  qed
qed

theorem remexec_runs_iff_offered_witness:
  "snd (snd (kfsw_remexec_run_local remexec_demo_config remexec_demo_shell (Some ''log -n 3'') (remexec_demo_service, [])))
     = [''log -n 3'']
   \<and> snd (snd (kfsw_remexec_run_local remexec_demo_config remexec_demo_shell (Some ''logs'') (remexec_demo_service, [])))
     = []"
proof -
  obtain r st' w' where 1: "kfsw_remexec_run_local remexec_demo_config remexec_demo_shell (Some ''log -n 3'')
      (remexec_demo_service, []) = (r, st', w')" by (metis prod_cases3)
  obtain r2 st2 w2 where 2: "kfsw_remexec_run_local remexec_demo_config remexec_demo_shell (Some ''logs'')
      (remexec_demo_service, []) = (r2, st2, w2)" by (metis prod_cases3)
  have "w' = [''log -n 3'']" "w2 = []"
    using remexec_runs_iff_offered [OF 1] remexec_runs_iff_offered [OF 2]
    by (simp_all add: remexec_demo_service_def remexec_boot_def entry_command_def printable_def
        remexec_demo_shell_def)
  then show ?thesis by (simp add: 1 2)
qed

text \<open>
  The reply accounts for every byte: of the output a command printed, the reply carries the first
  \<open>OUTPUT_MAX\<close> bytes, says how many were printed and how many of them it dropped, and is marked truncated
  exactly when there are such; whether the output fitted does not affect the status.\<close>

theorem remexec_reply_accounts:
  assumes "kfsw_remexec_run_local cfg shell (Some l) (st, w) = (r, st', w')" and "runnable st l"
    and "output = concat (sr_writes (fst (shell l w)))" and "NUL \<notin> set output" and "length output < 2 ^ 32"
    and "xc_output_max cfg < 65536"
  shows "ry_text r = take (xc_output_max cfg) output
    \<and> unat (ry_size r) = length (ry_text r)
    \<and> unat (ry_produced r) = length output
    \<and> unat (ry_size r) + unat (ry_dropped r) = length output
    \<and> (ry_truncated r \<longleftrightarrow> length output > xc_output_max cfg)
    \<and> ry_status r = (if sr_elapsed_ms (fst (shell l w)) > xc_timeout_ms cfg then KFSW_REMEXEC_TIMEOUT
         else if sr_result (fst (shell l w)) \<noteq> 0 then KFSW_REMEXEC_FAILED else KFSW_REMEXEC_OK)"
proof -
  obtain st1 where st1: "rx_capture st1 = \<lparr>cap_written = 0, cap_buf = []\<rparr>"
    and c: "remexec_complete cfg (fst (shell l w)) st1 = (r, st')"
    using runnable_run [OF assms(1,2)] by blast
  from complete_reply [OF c st1 assms(3-6)] complete_effect [OF c] show ?thesis by auto
qed

theorem remexec_reply_accounts_witness:
  "let r = fst (kfsw_remexec_run_local remexec_demo_config remexec_demo_shell (Some ''log'') (remexec_demo_service, []))
   in ry_text r = ''abcd'' \<and> unat (ry_produced r) = 6 \<and> ry_truncated r"
proof -
  obtain r st' w' where 1: "kfsw_remexec_run_local remexec_demo_config remexec_demo_shell (Some ''log'')
      (remexec_demo_service, []) = (r, st', w')" by (metis prod_cases3)
  have "runnable remexec_demo_service ''log''"
    by (simp add: runnable_def offers_def remexec_demo_service_def remexec_boot_def entry_command_def printable_def)
  then have "ry_text r = ''abcd'' \<and> unat (ry_produced r) = 6 \<and> ry_truncated r"
    using remexec_reply_accounts [OF 1, of "''abcdef''"]
    by (simp add: remexec_demo_shell_def remexec_demo_config_def)
  then show ?thesis by (simp add: 1 Let_def)
qed

text \<open>
  C26. Under every interleaving of initialisations, listings, requests and completions at most one line is
  between admission and completion, the running flag and the last command say which, a second request in
  between is refused, and every line ever handed to the shell is one the adopted allowlist offers.\<close>

theorem remexec_reachable_exclusive:
  assumes "remexec_reachable cfg (st, running, executed)"
  shows "length running \<le> 1 \<and> (xs_running (rx_stats st) \<longleftrightarrow> running \<noteq> [])
    \<and> (running \<noteq> [] \<longrightarrow> rx_last_command st = hd running \<and> (\<exists>r st'. remexec_admit cfg line st = (Inl r, st')))
    \<and> (\<forall>l \<in> set executed. rx_initialized st \<and> printable l \<and> length l \<le> 64 \<and> offers (rx_entries st) l)"
proof -
  have inv: "remexec_inv (st, running, executed)" by (rule remexec_reachable_inv [OF assms])
  have "\<exists>r st'. remexec_admit cfg line st = (Inl r, st')" if "running \<noteq> []"
  proof (cases "remexec_admit cfg line st")
    case (Pair x st')
    then show ?thesis
      using admitted_effect [of cfg line st] inv that by (cases x) (auto simp: remexec_inv_def runnable_def)
  qed
  with inv show ?thesis by (auto simp: remexec_inv_def list_all_iff)
qed

theorem remexec_reachable_exclusive_witness:
  "let st = snd (remexec_admit remexec_demo_config (Some ''log'')
         (snd (kfsw_remexec_init remexec_demo_config \<lparr>sb_init = None, sb_start = None, sb_ready = True\<rparr>
            (Some \<lparr>xa_entries = Some [\<lparr>xe_command = Some ''log'', xe_help = Some ''show''\<rparr>], xa_count = 1\<rparr>)
            remexec_boot)))
   in xs_running (rx_stats st) \<and> rx_last_command st = ''log''
      \<and> (\<exists>r st'. remexec_admit remexec_demo_config (Some ''log'') st = (Inl r, st'))"
proof -
  let ?init = "snd (kfsw_remexec_init remexec_demo_config \<lparr>sb_init = None, sb_start = None, sb_ready = True\<rparr>
            (Some \<lparr>xa_entries = Some [\<lparr>xe_command = Some ''log'', xe_help = Some ''show''\<rparr>], xa_count = 1\<rparr>)
            remexec_boot)"
  have "rx_initialized ?init \<and> rx_entries ?init = [\<lparr>xe_command = Some ''log'', xe_help = Some ''show''\<rparr>]
      \<and> \<not> rx_executor_locked ?init"
    by (simp add: kfsw_remexec_init_def remexec_demo_config_def remexec_boot_def remexec_check_entry_def
        printable_def remexec_sizes Let_def)
  then have "runnable ?init ''log''" by (simp add: runnable_def offers_def entry_command_def printable_def)
  then obtain st where st: "remexec_admit remexec_demo_config (Some ''log'') ?init = (Inr ''log'', st)"
    using admitted_iff [of remexec_demo_config "''log''" ?init] by blast
  have "remexec_reachable remexec_demo_config (st, [''log''], [''log''])"
    by (rule remexec_reachable.start [OF remexec_reachable.init [OF remexec_reachable.boot] st])
  from remexec_reachable_exclusive [OF this, of "Some ''log''"] show ?thesis unfolding Let_def st snd_conv by simp
qed

end
