(* ===== verification/Param_Values.thy ===== *)
theory Param_Values
  imports C_Text
begin

text \<open>
  Parameter values: the value operations of \<^verbatim>\<open>src/parameter/parameter.c\<close> (from \<open>name_is_within_limit\<close> to
  \<open>read_default\<close>), the file encoding \<^verbatim>\<open>src/parameter/param_wire.c\<close>, and their types from
  \<^verbatim>\<open>include/kfsw/services/parameter.h\<close> and \<^verbatim>\<open>src/parameter/parameter_internal.h\<close>.

  A component owns the storage of its parameters and the service only has a pointer to it, so storage
  is explicit: \<open>mem\<close> gives the bytes of the object at an address, address 0 is \<open>NULL\<close>, and two
  definitions may name the same object. The callbacks of a definition act on that memory and on a
  \<open>world\<close> of the application; a validator reads them. \<open>union kfsw_param_scalar\<close> is its eight bytes, in the
  little-endian order of the targets, and the union of \<open>text\<close> and \<open>bytes\<close> in a value is the one field
  \<open>pv_data\<close>. Build options are a \<open>param_config\<close>; \<open>float_support\<close> is \<open>None\<close> without
  \<open>CONFIG_KFSW_PARAM_FLOAT\<close> and holds the conversions \<open>strtof\<close> and \<open>strtod\<close> of the C library otherwise
  (the bits of the number, the unread text, and whether \<open>errno\<close> stayed 0). Log lines are left out.

  Proved: a text is converted exactly when its number fits the type; a value read back after it was
  written is the value written; the file encoding of a value decodes to that value.
\<close>

section \<open>Types\<close>

datatype kfsw_param_type =
    KFSW_PARAM_U8 | KFSW_PARAM_U16 | KFSW_PARAM_U32 | KFSW_PARAM_U64
  | KFSW_PARAM_I8 | KFSW_PARAM_I16 | KFSW_PARAM_I32 | KFSW_PARAM_I64
  | KFSW_PARAM_X8 | KFSW_PARAM_X16 | KFSW_PARAM_X32 | KFSW_PARAM_X64
  | KFSW_PARAM_FLOAT | KFSW_PARAM_DOUBLE | KFSW_PARAM_STRING | KFSW_PARAM_DATA | KFSW_PARAM_INVALID

definition KFSW_PARAM_NAME_MAX :: nat where "KFSW_PARAM_NAME_MAX = 32"

definition KFSW_PARAM_FLAG_READ_ONLY :: u32 where "KFSW_PARAM_FLAG_READ_ONLY = 0x00000001"
definition KFSW_PARAM_FLAG_PERSISTENT :: u32 where "KFSW_PARAM_FLAG_PERSISTENT = 0x00010000"
definition KFSW_PARAM_FLAG_LIVE :: u32 where "KFSW_PARAM_FLAG_LIVE = 0x00020000"

record float_library =
  strtof :: "string \<Rightarrow> u32 \<times> string \<times> bool"
  strtod :: "string \<Rightarrow> u64 \<times> string \<times> bool"

record param_config =
  cfg_string_max :: nat
  cfg_max_definitions :: nat
  cfg_max_tables :: nat
  cfg_ulong_max :: int
  cfg_float :: "float_library option"

record kfsw_param_value =
  pv_type :: kfsw_param_type
  pv_size :: nat
  pv_scalar :: bytes
  pv_data :: bytes

record 'w param_mem =
  mem :: "nat \<Rightarrow> bytes"
  world :: 'w

record 'w kfsw_param_definition =
  pd_offset :: u8
  pd_type :: kfsw_param_type
  pd_capacity :: u16
  pd_flags :: u32
  pd_name :: "string option"
  pd_unit :: "string option"
  pd_description :: "string option"
  pd_value :: nat
  pd_default_value :: bytes
  pd_default_text :: "string option"
  pd_validate :: "(bytes \<Rightarrow> 'w param_mem \<Rightarrow> rc) option"
  pd_apply :: "(bytes \<Rightarrow> 'w param_mem \<Rightarrow> rc \<times> 'w param_mem) option"
  pd_changed :: "(bytes \<Rightarrow> 'w param_mem \<Rightarrow> 'w param_mem) option"
  pd_validate_text :: "(string \<Rightarrow> 'w param_mem \<Rightarrow> rc) option"
  pd_changed_text :: "(string \<Rightarrow> 'w param_mem \<Rightarrow> 'w param_mem) option"
  pd_validate_data :: "(bytes \<Rightarrow> 'w param_mem \<Rightarrow> rc) option"
  pd_changed_data :: "(bytes \<Rightarrow> 'w param_mem \<Rightarrow> 'w param_mem) option"
  pd_default_data :: "bytes option"
  pd_sample :: "(nat \<Rightarrow> 'w param_mem \<Rightarrow> 'w param_mem) option"

record kfsw_param_info =
  pi_node :: u16
  pi_id :: u16
  pi_table :: u8
  pi_offset :: u8
  pi_array_size :: u16
  pi_type :: kfsw_param_type
  pi_flags :: u32
  pi_table_name :: "string option"
  pi_name :: string
  pi_unit :: "string option"
  pi_description :: "string option"
  pi_read_only :: bool

record 'w kfsw_param_entry =
  en_info :: kfsw_param_info
  en_definition :: "'w kfsw_param_definition"

section \<open>Widths and texts\<close>

definition name_is_within_limit :: "string \<Rightarrow> bool" where
  "name_is_within_limit name = terminated_within (KFSW_PARAM_NAME_MAX + 1) name"

fun scalar_size :: "kfsw_param_type \<Rightarrow> nat" where
  "scalar_size KFSW_PARAM_U8 = 1"
| "scalar_size KFSW_PARAM_I8 = 1"
| "scalar_size KFSW_PARAM_X8 = 1"
| "scalar_size KFSW_PARAM_U16 = 2"
| "scalar_size KFSW_PARAM_I16 = 2"
| "scalar_size KFSW_PARAM_X16 = 2"
| "scalar_size KFSW_PARAM_U32 = 4"
| "scalar_size KFSW_PARAM_I32 = 4"
| "scalar_size KFSW_PARAM_X32 = 4"
| "scalar_size KFSW_PARAM_U64 = 8"
| "scalar_size KFSW_PARAM_I64 = 8"
| "scalar_size KFSW_PARAM_X64 = 8"
| "scalar_size KFSW_PARAM_FLOAT = 4"
| "scalar_size KFSW_PARAM_DOUBLE = 8"
| "scalar_size KFSW_PARAM_STRING = 0"
| "scalar_size KFSW_PARAM_DATA = 0"
| "scalar_size KFSW_PARAM_INVALID = 0"

definition entry_capacity :: "'w kfsw_param_entry \<Rightarrow> nat" where
  "entry_capacity entry =
     (if pi_type (en_info entry) = KFSW_PARAM_STRING \<or> pi_type (en_info entry) = KFSW_PARAM_DATA
      then unat (pi_array_size (en_info entry))
      else scalar_size (pi_type (en_info entry)))"

text \<open>The copied length and the destination afterwards; the source is the bytes from its address on.\<close>

definition copy_text :: "bytes \<Rightarrow> nat \<Rightarrow> bytes \<Rightarrow> nat \<Rightarrow> nat \<times> bytes" where
  "copy_text destination destination_size source from_size =
     (let copied = takeWhile (\<lambda>b. b \<noteq> 0) (take (min from_size (destination_size - 1)) source)
      in (length copied, copied @ 0 # drop (length copied + 1) destination))"

text \<open>The members of \<open>union kfsw_param_scalar\<close>, on its eight bytes.\<close>

definition scalar_u8 :: "bytes \<Rightarrow> u8" where
  "scalar_u8 s = s ! 0"

definition scalar_u16 :: "bytes \<Rightarrow> u16" where
  "scalar_u16 s = sys_get_be16 (rev (take 2 s))"

definition scalar_u32 :: "bytes \<Rightarrow> u32" where
  "scalar_u32 s = sys_get_be32 (rev (take 4 s))"

definition scalar_u64 :: "bytes \<Rightarrow> u64" where
  "scalar_u64 s = sys_get_be64 (rev (take 8 s))"

definition put_u8 :: "u8 \<Rightarrow> bytes \<Rightarrow> bytes" where
  "put_u8 x s = x # drop 1 s"

definition put_u16 :: "u16 \<Rightarrow> bytes \<Rightarrow> bytes" where
  "put_u16 x s = rev (sys_put_be16 x) @ drop 2 s"

definition put_u32 :: "u32 \<Rightarrow> bytes \<Rightarrow> bytes" where
  "put_u32 x s = rev (sys_put_be32 x) @ drop 4 s"

definition put_u64 :: "u64 \<Rightarrow> bytes \<Rightarrow> bytes" where
  "put_u64 x s = rev (sys_put_be64 x) @ drop 8 s"

text \<open>The text of a value, \<open>value->text\<close> as a C string.\<close>

definition value_text :: "kfsw_param_value \<Rightarrow> string" where
  "value_text v = c_string_of_bytes (pv_data v)"

text \<open>A \<open>struct kfsw_param_value\<close> cleared by \<open>memset\<close> or an initialiser, with its type and size set.\<close>

definition zero_value :: "param_config \<Rightarrow> kfsw_param_type \<Rightarrow> nat \<Rightarrow> kfsw_param_value" where
  "zero_value cfg type n =
     \<lparr>pv_type = type, pv_size = n, pv_scalar = replicate 8 0, pv_data = replicate (cfg_string_max cfg) 0\<rparr>"

section \<open>Conversion of a text\<close>

fun is_unsigned_type :: "kfsw_param_type \<Rightarrow> bool" where
  "is_unsigned_type type \<longleftrightarrow>
     type \<in> {KFSW_PARAM_U8, KFSW_PARAM_U16, KFSW_PARAM_U32, KFSW_PARAM_U64,
             KFSW_PARAM_X8, KFSW_PARAM_X16, KFSW_PARAM_X32, KFSW_PARAM_X64}"

fun is_signed_type :: "kfsw_param_type \<Rightarrow> bool" where
  "is_signed_type type \<longleftrightarrow>
     type \<in> {KFSW_PARAM_I8, KFSW_PARAM_I16, KFSW_PARAM_I32, KFSW_PARAM_I64}"

text \<open>The second switch: the number has to fit the member it is stored in.\<close>

definition store_unsigned :: "u64 \<Rightarrow> kfsw_param_value \<Rightarrow> rc \<times> kfsw_param_value" where
  "store_unsigned n v =
     (if pv_type v = KFSW_PARAM_U8 \<or> pv_type v = KFSW_PARAM_X8 then
        if n > 0xFF then (Some ERANGE, v)
        else (None, v\<lparr>pv_scalar := put_u8 (ucast n) (pv_scalar v)\<rparr>)
      else if pv_type v = KFSW_PARAM_U16 \<or> pv_type v = KFSW_PARAM_X16 then
        if n > 0xFFFF then (Some ERANGE, v)
        else (None, v\<lparr>pv_scalar := put_u16 (ucast n) (pv_scalar v)\<rparr>)
      else if pv_type v = KFSW_PARAM_U32 \<or> pv_type v = KFSW_PARAM_X32 then
        if n > 0xFFFFFFFF then (Some ERANGE, v)
        else (None, v\<lparr>pv_scalar := put_u32 (ucast n) (pv_scalar v)\<rparr>)
      else (None, v\<lparr>pv_scalar := put_u64 n (pv_scalar v)\<rparr>))"

definition store_signed :: "int \<Rightarrow> kfsw_param_value \<Rightarrow> rc \<times> kfsw_param_value" where
  "store_signed n v =
     (if pv_type v = KFSW_PARAM_I8 then
        if n < -128 \<or> n > 127 then (Some ERANGE, v)
        else (None, v\<lparr>pv_scalar := put_u8 (word_of_int n) (pv_scalar v)\<rparr>)
      else if pv_type v = KFSW_PARAM_I16 then
        if n < -32768 \<or> n > 32767 then (Some ERANGE, v)
        else (None, v\<lparr>pv_scalar := put_u16 (word_of_int n) (pv_scalar v)\<rparr>)
      else if pv_type v = KFSW_PARAM_I32 then
        if n < -2147483648 \<or> n > 2147483647 then (Some ERANGE, v)
        else (None, v\<lparr>pv_scalar := put_u32 (word_of_int n) (pv_scalar v)\<rparr>)
      else (None, v\<lparr>pv_scalar := put_u64 (word_of_int n) (pv_scalar v)\<rparr>))"

text \<open>The loop over the elements of an array; it ends because at most \<open>capacity\<close> are stored.\<close>

function parse_elements ::
  "int \<Rightarrow> nat \<Rightarrow> string \<Rightarrow> nat \<Rightarrow> bytes \<Rightarrow> rc \<times> nat \<times> bytes" where
  "parse_elements ulong_max capacity cursor count data =
     (if cursor \<noteq> [] \<and> count < capacity then
        (case c_strtoul ulong_max cursor of
           None \<Rightarrow> (Some EINVAL, count, data)
         | Some (element, rest) \<Rightarrow>
             if element > 255 then (Some EINVAL, count, data)
             else if rest = [] then
               (None, count + 1, data[count := word_of_int element])
             else if hd rest = CHR '','' then
               parse_elements ulong_max capacity (tl rest) (count + 1)
                 (data[count := word_of_int element])
             else (Some EINVAL, count + 1, data[count := word_of_int element]))
      else (None, count, data))"
  by pat_completeness auto
termination by (relation "measure (\<lambda>(u, capacity, c, count, d). capacity - count)") auto

declare parse_elements.simps [simp del]

definition parse_string :: "param_config \<Rightarrow> string \<Rightarrow> kfsw_param_value \<Rightarrow> rc \<times> kfsw_param_value" where
  "parse_string cfg text v =
     (let copied = bytes_of_string (take (cfg_string_max cfg - 1) text);
          rest = drop (length copied) (pv_data v)
      in if length text > cfg_string_max cfg - 1 then (Some EMSGSIZE, v\<lparr>pv_data := copied @ rest\<rparr>)
         else (None, v\<lparr>pv_data := copied @ 0 # tl rest, pv_size := length text + 1\<rparr>))"

definition parse_data :: "param_config \<Rightarrow> string \<Rightarrow> kfsw_param_value \<Rightarrow> rc \<times> kfsw_param_value" where
  "parse_data cfg text v =
     (case parse_elements (cfg_ulong_max cfg) (cfg_string_max cfg) text 0 (pv_data v) of
        (Some e, count, data) \<Rightarrow> (Some e, v\<lparr>pv_data := data\<rparr>)
      | (None, count, data) \<Rightarrow>
          if count = 0 then (Some EINVAL, v\<lparr>pv_data := data\<rparr>)
          else (None, v\<lparr>pv_data := data, pv_size := count\<rparr>))"

definition kfsw_param_parse_text ::
  "param_config \<Rightarrow> string \<Rightarrow> kfsw_param_value \<Rightarrow> rc \<times> kfsw_param_value" where
  "kfsw_param_parse_text cfg text v =
     (if is_unsigned_type (pv_type v) then
        if take 1 text = ''-'' then (Some ERANGE, v)
        else (case c_strtoull text of
                None \<Rightarrow> (Some EINVAL, v)
              | Some (n, rest) \<Rightarrow> if rest \<noteq> [] then (Some EINVAL, v) else store_unsigned n v)
      else if is_signed_type (pv_type v) then
        (case c_strtoll text of
           None \<Rightarrow> (Some EINVAL, v)
         | Some (n, rest) \<Rightarrow> if rest \<noteq> [] then (Some EINVAL, v) else store_signed n v)
      else
        (case (pv_type v, cfg_float cfg) of
           (KFSW_PARAM_FLOAT, Some lib) \<Rightarrow>
             (let (bits, rest, errno_is_0) = strtof lib text
              in (if errno_is_0 \<and> rest \<noteq> text \<and> rest = [] then None else Some EINVAL,
                  v\<lparr>pv_scalar := put_u32 bits (pv_scalar v)\<rparr>))
         | (KFSW_PARAM_DOUBLE, Some lib) \<Rightarrow>
             (let (bits, rest, errno_is_0) = strtod lib text
              in (if errno_is_0 \<and> rest \<noteq> text \<and> rest = [] then None else Some EINVAL,
                  v\<lparr>pv_scalar := put_u64 bits (pv_scalar v)\<rparr>))
         | (KFSW_PARAM_STRING, _) \<Rightarrow> parse_string cfg text v
         | (KFSW_PARAM_DATA, _) \<Rightarrow> parse_data cfg text v
         | _ \<Rightarrow> (Some ENOTSUP, v)))"

section \<open>Reading and writing an entry\<close>

text \<open>\<open>memcpy(address, data, length data)\<close>.\<close>

definition store_bytes :: "nat \<Rightarrow> bytes \<Rightarrow> 'w param_mem \<Rightarrow> 'w param_mem" where
  "store_bytes a data pm = pm\<lparr>mem := (mem pm)(a := data @ drop (length data) (mem pm a))\<rparr>"

definition sample_entry :: "'w kfsw_param_entry \<Rightarrow> 'w param_mem \<Rightarrow> 'w param_mem" where
  "sample_entry entry pm =
     (case pd_sample (en_definition entry) of
        None \<Rightarrow> pm
      | Some f \<Rightarrow> f (pd_value (en_definition entry)) pm)"

definition read_entry ::
  "param_config \<Rightarrow> 'w kfsw_param_entry option \<Rightarrow> dest \<Rightarrow> bool \<Rightarrow> 'w param_mem
     \<Rightarrow> (errno + kfsw_param_value) \<times> 'w param_mem" where
  "read_entry cfg entry value sample pm =
     (case entry of
        None \<Rightarrow> (Inl EINVAL, pm)
      | Some e \<Rightarrow>
          if value = Null then (Inl EINVAL, pm)
          else
            (let n = entry_capacity e; type = pi_type (en_info e)
             in if n = 0 then (Inl ENOTSUP, pm)
                else
                  (let pm' = (if sample then sample_entry e pm else pm);
                       stored = mem pm' (pd_value (en_definition e));
                       v = zero_value cfg type n
                   in if type = KFSW_PARAM_STRING then
                        (let (len, text) = copy_text (pv_data v) (cfg_string_max cfg) stored n
                         in (Inr (v\<lparr>pv_data := text, pv_size := len + 1\<rparr>), pm'))
                      else if type = KFSW_PARAM_DATA then
                        (Inr (v\<lparr>pv_data := take n stored @ drop n (pv_data v)\<rparr>), pm')
                      else (Inr (v\<lparr>pv_scalar := take n stored @ drop n (pv_scalar v)\<rparr>), pm'))))"

definition kfsw_param_read_entry ::
  "param_config \<Rightarrow> 'w kfsw_param_entry option \<Rightarrow> dest \<Rightarrow> 'w param_mem
     \<Rightarrow> (errno + kfsw_param_value) \<times> 'w param_mem" where
  "kfsw_param_read_entry cfg entry value pm = read_entry cfg entry value True pm"

definition kfsw_param_read_stored_entry ::
  "param_config \<Rightarrow> 'w kfsw_param_entry option \<Rightarrow> dest \<Rightarrow> 'w param_mem
     \<Rightarrow> (errno + kfsw_param_value) \<times> 'w param_mem" where
  "kfsw_param_read_stored_entry cfg entry value pm = read_entry cfg entry value False pm"

definition kfsw_param_validate_entry ::
  "'w kfsw_param_entry option \<Rightarrow> kfsw_param_value option \<Rightarrow> 'w param_mem \<Rightarrow> rc" where
  "kfsw_param_validate_entry entry value pm =
     (case (entry, value) of
        (Some e, Some v) \<Rightarrow>
          (let n = entry_capacity e; d = en_definition e; type = pi_type (en_info e)
           in if n = 0 then Some ENOTSUP
              else if pv_type v \<noteq> type then Some EMSGSIZE
              else if type = KFSW_PARAM_STRING then
                if pv_size v = 0 \<or> pv_size v > n then Some EMSGSIZE
                else (case pd_validate_text d of None \<Rightarrow> None | Some f \<Rightarrow> f (value_text v) pm)
              else if type = KFSW_PARAM_DATA then
                if pv_size v \<noteq> n then Some EMSGSIZE
                else (case pd_validate_data d of
                        None \<Rightarrow> None | Some f \<Rightarrow> f (take (pv_size v) (pv_data v)) pm)
              else if pv_size v \<noteq> n then Some EMSGSIZE
              else (case pd_validate d of None \<Rightarrow> None | Some f \<Rightarrow> f (pv_scalar v) pm))
      | _ \<Rightarrow> Some EINVAL)"

definition kfsw_param_write_entry ::
  "bool \<Rightarrow> 'w kfsw_param_entry \<Rightarrow> bytes \<Rightarrow> 'w param_mem \<Rightarrow> rc \<times> 'w param_mem" where
  "kfsw_param_write_entry initialized entry value pm =
     (let d = en_definition entry;
          (result, pm1) =
            (case pd_apply d of
               None \<Rightarrow> (None, pm)
             | Some f \<Rightarrow> if initialized then f value pm else (None, pm))
      in case result of
           Some e \<Rightarrow> (Some e, pm1)
         | None \<Rightarrow>
             (let pm2 = store_bytes (pd_value d) (take (scalar_size (pi_type (en_info entry))) value) pm1
              in (None, case pd_changed d of None \<Rightarrow> pm2 | Some f \<Rightarrow> f value pm2)))"

definition kfsw_param_write_data_entry ::
  "'w kfsw_param_entry \<Rightarrow> bytes \<Rightarrow> nat \<Rightarrow> 'w param_mem \<Rightarrow> 'w param_mem" where
  "kfsw_param_write_data_entry entry data n pm =
     (let d = en_definition entry; pm1 = store_bytes (pd_value d) (take n data) pm
      in case pd_changed_data d of
           None \<Rightarrow> pm1
         | Some f \<Rightarrow> f (take n (mem pm1 (pd_value d))) pm1)"

definition kfsw_param_write_text_entry ::
  "'w kfsw_param_entry \<Rightarrow> bytes \<Rightarrow> 'w param_mem \<Rightarrow> 'w param_mem" where
  "kfsw_param_write_text_entry entry text pm =
     (let d = en_definition entry; n = unat (pi_array_size (en_info entry));
          pm1 = pm\<lparr>mem := (mem pm)(pd_value d := snd (copy_text (mem pm (pd_value d)) n text n))\<rparr>
      in case pd_changed_text d of
           None \<Rightarrow> pm1
         | Some f \<Rightarrow> f (c_string_of_bytes (mem pm1 (pd_value d))) pm1)"

definition read_default :: "param_config \<Rightarrow> 'w kfsw_param_entry \<Rightarrow> kfsw_param_value" where
  "read_default cfg entry =
     (let d = en_definition entry; type = pi_type (en_info entry);
          v = zero_value cfg type (entry_capacity entry)
      in if type = KFSW_PARAM_DATA then
           (case pd_default_data d of
              None \<Rightarrow> v
            | Some data \<Rightarrow> v\<lparr>pv_data := take (pv_size v) data @ drop (pv_size v) (pv_data v)\<rparr>)
         else if type = KFSW_PARAM_STRING then
           (let text = (case pd_default_text d of None \<Rightarrow> [] | Some t \<Rightarrow> t);
                (len, data) = copy_text (pv_data v) (cfg_string_max cfg) (bytes_of_string text @ [0])
                  (unat (pi_array_size (en_info entry)))
            in v\<lparr>pv_data := data, pv_size := len + 1\<rparr>)
         else v\<lparr>pv_scalar := pd_default_value d\<rparr>)"

definition notify_changed ::
  "'w kfsw_param_entry \<Rightarrow> kfsw_param_value \<Rightarrow> 'w param_mem \<Rightarrow> 'w param_mem" where
  "notify_changed entry v pm =
     (let d = en_definition entry; type = pi_type (en_info entry)
      in if type = KFSW_PARAM_STRING then
           (case pd_changed_text d of None \<Rightarrow> pm | Some f \<Rightarrow> f (value_text v) pm)
         else if type = KFSW_PARAM_DATA then
           (case pd_changed_data d of None \<Rightarrow> pm | Some f \<Rightarrow> f (take (pv_size v) (pv_data v)) pm)
         else (case pd_changed d of None \<Rightarrow> pm | Some f \<Rightarrow> f (pv_scalar v) pm))"

section \<open>The file encoding\<close>

definition KFSW_PARAM_WIRE_U8 :: u8 where "KFSW_PARAM_WIRE_U8 = 1"
definition KFSW_PARAM_WIRE_U32 :: u8 where "KFSW_PARAM_WIRE_U32 = 2"
definition KFSW_PARAM_WIRE_I32 :: u8 where "KFSW_PARAM_WIRE_I32 = 3"
definition KFSW_PARAM_WIRE_FLOAT :: u8 where "KFSW_PARAM_WIRE_FLOAT = 4"
definition KFSW_PARAM_WIRE_U16 :: u8 where "KFSW_PARAM_WIRE_U16 = 5"
definition KFSW_PARAM_WIRE_I16 :: u8 where "KFSW_PARAM_WIRE_I16 = 6"
definition KFSW_PARAM_WIRE_STRING :: u8 where "KFSW_PARAM_WIRE_STRING = 7"
definition KFSW_PARAM_WIRE_DATA :: u8 where "KFSW_PARAM_WIRE_DATA = 8"

definition kfsw_param_wire_type_of :: "'w kfsw_param_entry \<Rightarrow> errno + (u8 \<times> u16)" where
  "kfsw_param_wire_type_of entry =
     (case pi_type (en_info entry) of
        KFSW_PARAM_U8 \<Rightarrow> Inr (KFSW_PARAM_WIRE_U8, 1)
      | KFSW_PARAM_X8 \<Rightarrow> Inr (KFSW_PARAM_WIRE_U8, 1)
      | KFSW_PARAM_U16 \<Rightarrow> Inr (KFSW_PARAM_WIRE_U16, 2)
      | KFSW_PARAM_X16 \<Rightarrow> Inr (KFSW_PARAM_WIRE_U16, 2)
      | KFSW_PARAM_I16 \<Rightarrow> Inr (KFSW_PARAM_WIRE_I16, 2)
      | KFSW_PARAM_U32 \<Rightarrow> Inr (KFSW_PARAM_WIRE_U32, 4)
      | KFSW_PARAM_X32 \<Rightarrow> Inr (KFSW_PARAM_WIRE_U32, 4)
      | KFSW_PARAM_I32 \<Rightarrow> Inr (KFSW_PARAM_WIRE_I32, 4)
      | KFSW_PARAM_FLOAT \<Rightarrow> Inr (KFSW_PARAM_WIRE_FLOAT, 4)
      | KFSW_PARAM_DATA \<Rightarrow> Inr (KFSW_PARAM_WIRE_DATA, pi_array_size (en_info entry))
      | KFSW_PARAM_STRING \<Rightarrow> Inr (KFSW_PARAM_WIRE_STRING, 0)
      | _ \<Rightarrow> Inl ENOTSUP)"

text \<open>The switch of the encoder: the bytes written to the output; \<open>written\<close> is their number.\<close>

definition encode_payload :: "u8 \<Rightarrow> u16 \<Rightarrow> kfsw_param_value \<Rightarrow> errno + bytes" where
  "encode_payload type value_size v =
     (if type = KFSW_PARAM_WIRE_U8 then Inr [scalar_u8 (pv_scalar v)]
      else if type = KFSW_PARAM_WIRE_U16 \<or> type = KFSW_PARAM_WIRE_I16 then
        Inr (sys_put_be16 (scalar_u16 (pv_scalar v)))
      else if type = KFSW_PARAM_WIRE_U32 \<or> type = KFSW_PARAM_WIRE_I32 \<or> type = KFSW_PARAM_WIRE_FLOAT then
        Inr (sys_put_be32 (scalar_u32 (pv_scalar v)))
      else if type = KFSW_PARAM_WIRE_STRING \<or> type = KFSW_PARAM_WIRE_DATA then
        Inr (take (unat value_size) (pv_data v))
      else Inl ENOTSUP)"

definition kfsw_param_wire_encode ::
  "param_config \<Rightarrow> 'w kfsw_param_entry \<Rightarrow> nat \<Rightarrow> 'w param_mem \<Rightarrow> (errno + bytes) \<times> 'w param_mem" where
  "kfsw_param_wire_encode cfg entry output_size pm =
     (case kfsw_param_wire_type_of entry of
        Inl e \<Rightarrow> (Inl e, pm)
      | Inr (type, value_size) \<Rightarrow>
          (case kfsw_param_read_entry cfg (Some entry) Dest pm of
             (Inl e, pm') \<Rightarrow> (Inl e, pm')
           | (Inr v, pm') \<Rightarrow>
               (let value_size' =
                      (if type = KFSW_PARAM_WIRE_STRING then word_of_nat (pv_size v) else value_size)
                in if output_size < unat value_size' then (Inl ENOSPC, pm')
                   else (encode_payload type value_size' v, pm'))))"

text \<open>The switch of the decoder, on a value whose type code and width were checked.\<close>

definition decode_payload ::
  "param_config \<Rightarrow> 'w kfsw_param_entry \<Rightarrow> u8 \<Rightarrow> bytes \<Rightarrow> u16 \<Rightarrow> kfsw_param_value
     \<Rightarrow> errno + kfsw_param_value" where
  "decode_payload cfg entry type value value_size v =
     (if type = KFSW_PARAM_WIRE_U8 then Inr (v\<lparr>pv_scalar := put_u8 (value ! 0) (pv_scalar v)\<rparr>)
      else if type = KFSW_PARAM_WIRE_U16 \<or> type = KFSW_PARAM_WIRE_I16 then
        Inr (v\<lparr>pv_scalar := put_u16 (sys_get_be16 value) (pv_scalar v)\<rparr>)
      else if type = KFSW_PARAM_WIRE_U32 \<or> type = KFSW_PARAM_WIRE_I32 \<or> type = KFSW_PARAM_WIRE_FLOAT then
        Inr (v\<lparr>pv_scalar := put_u32 (sys_get_be32 value) (pv_scalar v)\<rparr>)
      else if type = KFSW_PARAM_WIRE_DATA then
        if value_size = 0 \<or> value_size \<noteq> pi_array_size (en_info entry)
           \<or> unat value_size > cfg_string_max cfg
        then Inl EBADMSG
        else Inr (v\<lparr>pv_data := take (unat value_size) value @ drop (unat value_size) (pv_data v)\<rparr>)
      else if type = KFSW_PARAM_WIRE_STRING then
        if value_size = 0 \<or> unat value_size > cfg_string_max cfg \<or> value ! (unat value_size - 1) \<noteq> 0
        then Inl EBADMSG
        else Inr (v\<lparr>pv_data := take (unat value_size) value @ drop (unat value_size) (pv_data v)\<rparr>)
      else Inl ENOTSUP)"

definition kfsw_param_wire_decode ::
  "param_config \<Rightarrow> 'w kfsw_param_entry \<Rightarrow> u8 \<Rightarrow> bytes \<Rightarrow> u16 \<Rightarrow> 'w param_mem
     \<Rightarrow> errno + kfsw_param_value" where
  "kfsw_param_wire_decode cfg entry type value value_size pm =
     (case kfsw_param_wire_type_of entry of
        Inl e \<Rightarrow> Inl e
      | Inr (expected_type, expected_size) \<Rightarrow>
          if type \<noteq> expected_type then Inl EBADMSG
          else if expected_size \<noteq> 0 \<and> value_size \<noteq> expected_size then Inl EBADMSG
          else
            (case decode_payload cfg entry type value value_size
                (zero_value cfg (pi_type (en_info entry)) (unat value_size)) of
               Inl e \<Rightarrow> Inl e
             | Inr v \<Rightarrow>
                 (case kfsw_param_validate_entry (Some entry) (Some v) pm of
                    Some e \<Rightarrow> Inl e
                  | None \<Rightarrow> Inr v)))"

definition kfsw_param_wire_apply ::
  "bool \<Rightarrow> 'w kfsw_param_entry \<Rightarrow> kfsw_param_value \<Rightarrow> 'w param_mem \<Rightarrow> rc \<times> 'w param_mem" where
  "kfsw_param_wire_apply initialized entry decoded pm =
     (if pv_type decoded = KFSW_PARAM_STRING then
        (None, kfsw_param_write_text_entry entry (pv_data decoded) pm)
      else if pv_type decoded = KFSW_PARAM_DATA then
        (None, kfsw_param_write_data_entry entry (pv_data decoded) (pv_size decoded) pm)
      else kfsw_param_write_entry initialized entry (pv_scalar decoded) pm)"

definition kfsw_param_write_default ::
  "param_config \<Rightarrow> bool \<Rightarrow> 'w kfsw_param_entry \<Rightarrow> 'w param_mem \<Rightarrow> rc \<times> 'w param_mem" where
  "kfsw_param_write_default cfg initialized entry pm =
     (let v = read_default cfg entry
      in case (if initialized then kfsw_param_validate_entry (Some entry) (Some v) pm else None) of
           Some e \<Rightarrow> (Some e, pm)
         | None \<Rightarrow> kfsw_param_wire_apply initialized entry v pm)"

section \<open>Specification vocabulary\<close>

text \<open>The integer a scalar holds when it is read through the member of its type.\<close>

definition scalar_int :: "kfsw_param_type \<Rightarrow> bytes \<Rightarrow> int" where
  "scalar_int type s =
     (if is_signed_type type then
        if scalar_size type = 1 then sint (scalar_u8 s)
        else if scalar_size type = 2 then sint (scalar_u16 s)
        else if scalar_size type = 4 then sint (scalar_u32 s)
        else sint (scalar_u64 s)
      else if scalar_size type = 1 then uint (scalar_u8 s)
      else if scalar_size type = 2 then uint (scalar_u16 s)
      else if scalar_size type = 4 then uint (scalar_u32 s)
      else uint (scalar_u64 s))"

definition type_min :: "kfsw_param_type \<Rightarrow> int" where
  "type_min type = (if is_signed_type type then - (2 ^ (8 * scalar_size type - 1)) else 0)"

definition type_max :: "kfsw_param_type \<Rightarrow> int" where
  "type_max type =
     (if is_signed_type type then 2 ^ (8 * scalar_size type - 1) - 1 else 2 ^ (8 * scalar_size type) - 1)"

text \<open>A number stored in the member of an integer type.\<close>

definition put_member :: "kfsw_param_type \<Rightarrow> int \<Rightarrow> bytes \<Rightarrow> bytes" where
  "put_member type i s =
     (if scalar_size type = 1 then put_u8 (word_of_int i) s
      else if scalar_size type = 2 then put_u16 (word_of_int i) s
      else if scalar_size type = 4 then put_u32 (word_of_int i) s
      else put_u64 (word_of_int i) s)"

text \<open>What a value carries: the bytes of its scalar, its array, or its text.\<close>

definition value_payload :: "kfsw_param_value \<Rightarrow> bytes" where
  "value_payload v =
     (if pv_type v = KFSW_PARAM_STRING then takeWhile (\<lambda>b. b \<noteq> 0) (pv_data v)
      else if pv_type v = KFSW_PARAM_DATA then take (pv_size v) (pv_data v)
      else take (scalar_size (pv_type v)) (pv_scalar v))"

text \<open>A value whose buffers have their sizes and whose text is terminated within its size.\<close>

definition value_formed :: "param_config \<Rightarrow> kfsw_param_value \<Rightarrow> bool" where
  "value_formed cfg v \<longleftrightarrow>
     length (pv_scalar v) = 8 \<and> length (pv_data v) = cfg_string_max cfg
     \<and> (pv_type v = KFSW_PARAM_STRING \<longrightarrow> 0 \<in> set (take (pv_size v) (pv_data v)))"

text \<open>What registration guarantees of the shape of an entry, and that its storage has that shape.\<close>

definition entry_formed :: "param_config \<Rightarrow> 'w kfsw_param_entry \<Rightarrow> bool" where
  "entry_formed cfg e \<longleftrightarrow>
     0 < entry_capacity e \<and> pd_value (en_definition e) \<noteq> 0
     \<and> pd_type (en_definition e) = pi_type (en_info e)
     \<and> (pi_type (en_info e) = KFSW_PARAM_STRING \<or> pi_type (en_info e) = KFSW_PARAM_DATA \<longrightarrow>
          entry_capacity e \<le> cfg_string_max cfg)"

definition stored_formed :: "'w kfsw_param_entry \<Rightarrow> 'w param_mem \<Rightarrow> bool" where
  "stored_formed e pm \<longleftrightarrow>
     (let s = mem pm (pd_value (en_definition e))
      in length s = entry_capacity e \<and> (pi_type (en_info e) = KFSW_PARAM_STRING \<longrightarrow> 0 \<in> set s))"

text \<open>The bytes an entry's storage carries.\<close>

definition stored_payload :: "'w kfsw_param_entry \<Rightarrow> 'w param_mem \<Rightarrow> bytes" where
  "stored_payload e pm =
     (let s = mem pm (pd_value (en_definition e))
      in if pi_type (en_info e) = KFSW_PARAM_STRING then takeWhile (\<lambda>b. b \<noteq> 0) s else s)"

text \<open>The value an entry's storage stands for.\<close>

definition entry_value :: "param_config \<Rightarrow> 'w kfsw_param_entry \<Rightarrow> 'w param_mem \<Rightarrow> kfsw_param_value" where
  "entry_value cfg e pm =
     (let p = stored_payload e pm; v = zero_value cfg (pi_type (en_info e)) (entry_capacity e)
      in if pi_type (en_info e) = KFSW_PARAM_STRING then
           v\<lparr>pv_data := p @ 0 # drop (length p + 1) (pv_data v), pv_size := length p + 1\<rparr>
         else if pi_type (en_info e) = KFSW_PARAM_DATA then
           v\<lparr>pv_data := p @ drop (length p) (pv_data v)\<rparr>
         else v\<lparr>pv_scalar := p @ drop (length p) (pv_scalar v)\<rparr>)"

text \<open>Its bytes in a file: the text with its terminator, the array, or the scalar most significant byte first.\<close>

definition file_bytes :: "'w kfsw_param_entry \<Rightarrow> 'w param_mem \<Rightarrow> bytes" where
  "file_bytes e pm =
     (let p = stored_payload e pm
      in if pi_type (en_info e) = KFSW_PARAM_STRING then p @ [0]
         else if pi_type (en_info e) = KFSW_PARAM_DATA then p
         else rev p)"

text \<open>The contents of an entry's storage after a value was written over \<open>s\<close>.\<close>

definition written_bytes :: "'w kfsw_param_entry \<Rightarrow> kfsw_param_value \<Rightarrow> bytes \<Rightarrow> bytes" where
  "written_bytes e v s =
     (if pv_type v = KFSW_PARAM_STRING then
        snd (copy_text s (unat (pi_array_size (en_info e))) (pv_data v) (unat (pi_array_size (en_info e))))
      else
        (let data = (if pv_type v = KFSW_PARAM_DATA then take (pv_size v) (pv_data v)
                     else take (scalar_size (pv_type v)) (pv_scalar v))
         in data @ drop (length data) s))"

text \<open>A build with short strings and no floats, and one string setting of eight bytes.\<close>

definition demo_param_config :: param_config where
  "demo_param_config = \<lparr>cfg_string_max = 8, cfg_max_definitions = 4, cfg_max_tables = 2,
     cfg_ulong_max = 4294967295, cfg_float = None\<rparr>"

definition demo_definition :: "kfsw_param_type \<Rightarrow> u16 \<Rightarrow> nat \<Rightarrow> unit kfsw_param_definition" where
  "demo_definition type capacity address =
     \<lparr>pd_offset = 0, pd_type = type, pd_capacity = capacity, pd_flags = KFSW_PARAM_FLAG_PERSISTENT,
      pd_name = Some ''name'', pd_unit = None, pd_description = None, pd_value = address,
      pd_default_value = replicate 8 0, pd_default_text = None, pd_validate = None, pd_apply = None,
      pd_changed = None, pd_validate_text = None, pd_changed_text = None, pd_validate_data = None,
      pd_changed_data = None, pd_default_data = None, pd_sample = None\<rparr>"

definition demo_param_entry :: "unit kfsw_param_entry" where
  "demo_param_entry =
     \<lparr>en_info = \<lparr>pi_node = 0, pi_id = 0x1900, pi_table = 25, pi_offset = 0, pi_array_size = 8,
        pi_type = KFSW_PARAM_STRING, pi_flags = KFSW_PARAM_FLAG_PERSISTENT, pi_table_name = Some ''demo'',
        pi_name = ''name'', pi_unit = None, pi_description = None, pi_read_only = False\<rparr>,
      en_definition = demo_definition KFSW_PARAM_STRING 8 1\<rparr>"

definition demo_mem :: "unit param_mem" where
  "demo_mem = \<lparr>mem = (\<lambda>a. [0x6F, 0x6E, 0, 0, 0, 0, 0, 0]), world = ()\<rparr>"

text \<open>Callbacks that leave the storage of the parameters alone.\<close>

definition quiet_definition :: "'w kfsw_param_definition \<Rightarrow> bool" where
  "quiet_definition d \<longleftrightarrow>
     (\<forall>f. pd_sample d = Some f \<longrightarrow> (\<forall>a pm. mem (f a pm) = mem pm))
     \<and> (\<forall>f. pd_apply d = Some f \<longrightarrow> (\<forall>x pm. mem (snd (f x pm)) = mem pm))
     \<and> (\<forall>f. pd_changed d = Some f \<longrightarrow> (\<forall>x pm. mem (f x pm) = mem pm))
     \<and> (\<forall>f. pd_changed_text d = Some f \<longrightarrow> (\<forall>x pm. mem (f x pm) = mem pm))
     \<and> (\<forall>f. pd_changed_data d = Some f \<longrightarrow> (\<forall>x pm. mem (f x pm) = mem pm))"

definition quiet_entry :: "'w kfsw_param_entry \<Rightarrow> bool" where
  "quiet_entry e \<longleftrightarrow> quiet_definition (en_definition e)"

section \<open>Lemmas on scalars\<close>

lemma scalar_put [simp]:
  "scalar_u8 (put_u8 a s) = a" "scalar_u16 (put_u16 b s) = b"
  "scalar_u32 (put_u32 c s) = c" "scalar_u64 (put_u64 d s) = d"
  by (simp_all add: scalar_u8_def put_u8_def scalar_u16_def put_u16_def scalar_u32_def put_u32_def
      scalar_u64_def put_u64_def)

lemma length_put_scalar [simp]:
  "length s = 8 \<Longrightarrow> length (put_u8 a s) = 8" "length s = 8 \<Longrightarrow> length (put_u16 b s) = 8"
  "length s = 8 \<Longrightarrow> length (put_u32 c s) = 8" "length s = 8 \<Longrightarrow> length (put_u64 d s) = 8"
  by (simp_all add: put_u8_def put_u16_def put_u32_def put_u64_def)

lemma take_put_scalar [simp]:
  "take 1 (put_u8 a s) = [a]" "take 2 (put_u16 b s) = rev (sys_put_be16 b)"
  "take 4 (put_u32 c s) = rev (sys_put_be32 c)"
  by (simp_all add: put_u8_def put_u16_def put_u32_def)

lemma put_scalar_value:
  assumes "length s = 8"
  shows "[scalar_u8 s] = take 1 s" "rev (sys_put_be16 (scalar_u16 s)) = take 2 s"
    "rev (sys_put_be32 (scalar_u32 s)) = take 4 s"
  using list_ge(4) [of s] assms
  by (auto simp: scalar_u8_def scalar_u16_def scalar_u32_def)

lemma scalar_type_cases:
  assumes "is_unsigned_type t \<or> is_signed_type t"
  shows "scalar_size t = 1 \<or> scalar_size t = 2 \<or> scalar_size t = 4 \<or> scalar_size t = 8"
  using assms by auto

section \<open>Lemmas on the conversion\<close>

lemma c_strtoull_decimal:
  "c_strtoull (decimal n) = (if n < 2 ^ 64 then Some (word_of_nat n, []) else None)"
  by (simp add: c_strtoull_def c_integer_decimal)

lemma c_strtoll_decimal:
  "c_strtoll (signed_decimal i) = (if - (2 ^ 63) \<le> i \<and> i < 2 ^ 63 then Some (i, []) else None)"
  using c_integer_decimal [of "nat i"] c_integer_decimal [of "nat (- i)"]
  by (simp add: c_strtoll_def signed_decimal_def)

lemma take_1_decimal: "take 1 (decimal n) \<noteq> ''-''"
proof -
  obtain c r where cr: "decimal n = c # r" using decimal_digits [of n] by (cases "decimal n") auto
  with decimal_digits [of n] show ?thesis by auto
qed

lemma parse_unsigned_decimal:
  assumes t: "is_unsigned_type (pv_type v)"
  shows "kfsw_param_parse_text cfg (signed_decimal i) v =
    (if i < 0 then (Some ERANGE, v)
     else if 2 ^ 64 \<le> i then (Some EINVAL, v)
     else store_unsigned (word_of_int i) v)"
proof (cases "i < 0")
  case True
  with t show ?thesis by (simp add: kfsw_param_parse_text_def signed_decimal_def del: is_unsigned_type.simps)
next
  case False
  then have "kfsw_param_parse_text cfg (signed_decimal i) v =
      (case c_strtoull (decimal (nat i)) of
         None \<Rightarrow> (Some EINVAL, v)
       | Some (n, rest) \<Rightarrow> if rest \<noteq> [] then (Some EINVAL, v) else store_unsigned n v)"
    using t take_1_decimal [of "nat i"]
    by (simp add: kfsw_param_parse_text_def signed_decimal_def del: is_unsigned_type.simps)
  with False show ?thesis by (simp add: c_strtoull_decimal nat_less_iff)
qed

lemma parse_signed_decimal:
  assumes t: "is_signed_type (pv_type v)"
  shows "kfsw_param_parse_text cfg (signed_decimal i) v =
    (if i < - (2 ^ 63) \<or> 2 ^ 63 \<le> i then (Some EINVAL, v) else store_signed i v)"
  using t by (auto simp: kfsw_param_parse_text_def c_strtoll_decimal)

lemma uint_u64: "0 \<le> i \<Longrightarrow> i < 2 ^ 64 \<Longrightarrow> uint (word_of_int i :: u64) = i"
  by (simp add: unsigned_of_int take_bit_int_eq_self)

lemma u64_greater:
  assumes "0 \<le> i" and "i < 2 ^ 64"
  shows "(0xFF < (word_of_int i :: u64)) = (255 < i)" "(0xFFFF < (word_of_int i :: u64)) = (65535 < i)"
    "(0xFFFFFFFF < (word_of_int i :: u64)) = (4294967295 < i)"
  using assms by (simp_all add: word_less_def uint_u64)

lemma sint_narrow:
  assumes "- (2 ^ (LENGTH('a) - 1)) \<le> i" and "i < 2 ^ (LENGTH('a) - 1)"
  shows "sint (word_of_int i :: 'a::len word) = i"
  using assms by (simp add: signed_of_int signed_take_bit_int_eq_self)

text \<open>A converted number that fits is stored in the member of the type; one that does not is refused.\<close>

lemma ucast_of_int_u64:
  "ucast (word_of_int i :: u64) = (word_of_int i :: u8)"
  "ucast (word_of_int i :: u64) = (word_of_int i :: u16)"
  "ucast (word_of_int i :: u64) = (word_of_int i :: u32)"
  by (rule bit_word_eqI, simp add: bit_simps)+

lemma store_unsigned_exact:
  assumes t: "is_unsigned_type (pv_type v)" and i: "0 \<le> i" "i < 2 ^ 64"
  shows "store_unsigned (word_of_int i) v =
    (if i \<le> type_max (pv_type v) then (None, v\<lparr>pv_scalar := put_member (pv_type v) i (pv_scalar v)\<rparr>)
     else (Some ERANGE, v))"
  using t i
  by (cases "pv_type v") (simp_all add: store_unsigned_def put_member_def type_max_def u64_greater
      ucast_of_int_u64)

lemma store_signed_exact:
  assumes t: "is_signed_type (pv_type v)" and i: "- (2 ^ 63) \<le> i" "i < 2 ^ 63"
  shows "store_signed i v =
    (if type_min (pv_type v) \<le> i \<and> i \<le> type_max (pv_type v)
     then (None, v\<lparr>pv_scalar := put_member (pv_type v) i (pv_scalar v)\<rparr>)
     else (Some ERANGE, v))"
  using t i
  by (cases "pv_type v") (simp_all add: store_signed_def put_member_def type_max_def type_min_def)

lemma scalar_int_put_member:
  assumes t: "is_unsigned_type type \<or> is_signed_type type" and i: "type_min type \<le> i" "i \<le> type_max type"
  shows "scalar_int type (put_member type i s) = i"
  using t i
  by (cases type) (simp_all add: scalar_int_def put_member_def type_min_def type_max_def sint_narrow
      unsigned_of_int take_bit_int_eq_self)

text \<open>Texts are converted exactly when their number fits the type.\<close>

lemma parse_decimal_exact:
  assumes "is_unsigned_type (pv_type v) \<or> is_signed_type (pv_type v)"
  shows "let r = kfsw_param_parse_text cfg (signed_decimal i) v
    in if type_min (pv_type v) \<le> i \<and> i \<le> type_max (pv_type v)
       then r = (None, v\<lparr>pv_scalar := put_member (pv_type v) i (pv_scalar v)\<rparr>)
       else fst r \<in> {Some ERANGE, Some EINVAL} \<and> snd r = v"
  using assms
proof
  assume t: "is_unsigned_type (pv_type v)"
  then have m: "type_min (pv_type v) = 0 \<and> type_max (pv_type v) < 2 ^ 64"
    by (cases "pv_type v") (simp_all add: type_min_def type_max_def)
  show ?thesis
  proof (cases "0 \<le> i \<and> i < 2 ^ 64")
    case True
    with parse_unsigned_decimal [OF t, of cfg i] store_unsigned_exact [OF t, of i] m
    show ?thesis by (simp add: Let_def)
  next
    case False
    with parse_unsigned_decimal [OF t, of cfg i] m show ?thesis by (auto simp: Let_def)
  qed
next
  assume t: "is_signed_type (pv_type v)"
  then have m: "- (2 ^ 63) \<le> type_min (pv_type v) \<and> type_max (pv_type v) < 2 ^ 63"
    by (cases "pv_type v") (simp_all add: type_min_def type_max_def)
  show ?thesis
  proof (cases "- (2 ^ 63) \<le> i \<and> i < 2 ^ 63")
    case True
    with parse_signed_decimal [OF t, of cfg i] store_signed_exact [OF t, of i]
    show ?thesis by (simp add: Let_def)
  next
    case False
    with parse_signed_decimal [OF t, of cfg i] m show ?thesis by (auto simp: Let_def)
  qed
qed

section \<open>Lemmas on copied texts\<close>

lemma takeWhile_copied: "takeWhile (\<lambda>b. b \<noteq> 0) (takeWhile (\<lambda>b. b \<noteq> 0) xs @ 0 # ys) = takeWhile (\<lambda>b. b \<noteq> (0 :: u8)) xs"
  by (induction xs) auto

lemma takeWhile_of_take: "takeWhile P (take m xs) = take m (takeWhile P xs)"
  by (induction xs arbitrary: m) (auto simp: take_Cons split: nat.splits)

lemma length_takeWhile_before: "x \<in> set ys \<Longrightarrow> length (takeWhile (\<lambda>b. b \<noteq> x) ys) < length ys"
  by (induction ys) auto

lemma terminated_in_take:
  assumes "x \<in> set (take n xs)"
  shows "length (takeWhile (\<lambda>b. b \<noteq> x) xs) < n"
proof -
  have "takeWhile (\<lambda>b. b \<noteq> x) xs = takeWhile (\<lambda>b. b \<noteq> x) (take n xs)"
    using takeWhile_append1 [of x "take n xs" "\<lambda>b. b \<noteq> x" "drop n xs"] assms by simp
  with length_takeWhile_before [OF assms] show ?thesis by simp
qed

lemma copy_text_payload:
  assumes "0 \<in> set source" and "length (takeWhile (\<lambda>b. b \<noteq> 0) source) < n"
    and "length (takeWhile (\<lambda>b. b \<noteq> 0) source) \<le> m"
  shows "copy_text destination n source m =
    (let p = takeWhile (\<lambda>b. b \<noteq> 0) source in (length p, p @ 0 # drop (length p + 1) destination))"
  using assms by (simp add: copy_text_def Let_def takeWhile_of_take)

lemma length_copy_text:
  assumes "0 < n" and "length destination = n"
  shows "length (snd (copy_text destination n source m)) = n" "fst (copy_text destination n source m) < n"
proof -
  have "length (takeWhile (\<lambda>b. b \<noteq> 0) (take (min m (n - 1)) source)) \<le> n - 1"
    by (metis length_take length_takeWhile_le min.bounded_iff)
  with assms show "length (snd (copy_text destination n source m)) = n"
    "fst (copy_text destination n source m) < n"
    by (simp_all add: copy_text_def Let_def)
qed

section \<open>Lemmas on entries\<close>

lemma quiet_mem:
  assumes "quiet_entry e"
  shows "mem (sample_entry e pm) = mem pm"
    "pd_apply (en_definition e) = Some f \<Longrightarrow> f x pm = (r, pm') \<Longrightarrow> mem pm' = mem pm"
    "pd_changed (en_definition e) = Some g \<Longrightarrow> mem (g x pm) = mem pm"
    "pd_changed_text (en_definition e) = Some h \<Longrightarrow> mem (h y pm) = mem pm"
    "pd_changed_data (en_definition e) = Some k \<Longrightarrow> mem (k z pm) = mem pm"
  using assms unfolding quiet_entry_def quiet_definition_def sample_entry_def
  by (auto split: option.splits) (metis snd_conv)+

text \<open>What a successful write leaves in storage; nothing else of the memory changes.\<close>

lemma write_entry_mem:
  assumes quiet: "quiet_entry e"
    and ok: "kfsw_param_write_entry initialized e value pm = (None, pm')"
  shows "mem pm' = mem (store_bytes (pd_value (en_definition e))
    (take (scalar_size (pi_type (en_info e))) value) pm)"
proof -
  define r where "r = (case pd_apply (en_definition e) of
      None \<Rightarrow> (None, pm) | Some f \<Rightarrow> if initialized then f value pm else (None, pm))"
  obtain result pm1 where r1: "r = (result, pm1)" by (cases r)
  then have m1: "mem pm1 = mem pm"
    using quiet_mem(2) [OF quiet] by (auto simp: r_def split: option.splits if_splits)
  show ?thesis
  proof (cases result)
    case None
    with ok r1 m1 show ?thesis
      using quiet_mem(3) [OF quiet]
      by (auto simp: kfsw_param_write_entry_def r_def [symmetric] store_bytes_def Let_def split: option.splits)
  next
    case (Some err)
    with ok r1 show ?thesis by (simp add: kfsw_param_write_entry_def r_def [symmetric] Let_def)
  qed
qed

lemma apply_mem:
  assumes quiet: "quiet_entry e" and type: "pv_type v = pi_type (en_info e)"
    and ok: "kfsw_param_wire_apply initialized e v pm = (None, pm')"
  shows "mem pm' = (mem pm)(pd_value (en_definition e) := written_bytes e v (mem pm (pd_value (en_definition e))))"
proof (cases "pv_type v = KFSW_PARAM_STRING \<or> pv_type v = KFSW_PARAM_DATA")
  case True
  then show ?thesis
    using ok quiet_mem(4,5) [OF quiet]
    by (auto simp: kfsw_param_wire_apply_def kfsw_param_write_text_entry_def store_bytes_def
        kfsw_param_write_data_entry_def written_bytes_def Let_def split: option.splits)
next
  case False
  then have "kfsw_param_write_entry initialized e (pv_scalar v) pm = (None, pm')"
    using ok by (simp add: kfsw_param_wire_apply_def)
  from write_entry_mem [OF quiet this] False type show ?thesis
    by (simp add: store_bytes_def written_bytes_def Let_def)
qed

text \<open>A validated value has the type of its entry and a size that fits.\<close>

lemma validate_shape:
  assumes "kfsw_param_validate_entry (Some e) (Some v) pm = None"
  shows "pv_type v = pi_type (en_info e)" "0 < entry_capacity e"
    "pv_type v = KFSW_PARAM_STRING \<Longrightarrow> 0 < pv_size v \<and> pv_size v \<le> entry_capacity e"
    "pv_type v \<noteq> KFSW_PARAM_STRING \<Longrightarrow> pv_size v = entry_capacity e"
  using assms by (auto simp: kfsw_param_validate_entry_def Let_def split: if_splits)

lemma written_payload:
  assumes formed: "value_formed cfg v" "entry_formed cfg e" "stored_formed e pm"
    and valid: "kfsw_param_validate_entry (Some e) (Some v) pm0 = None"
    and m: "mem pm' (pd_value (en_definition e)) = written_bytes e v (mem pm (pd_value (en_definition e)))"
  shows "stored_formed e pm'" "stored_payload e pm' = value_payload v"
proof -
  note shape = validate_shape [OF valid]
  consider (string) "pv_type v = KFSW_PARAM_STRING" | (data) "pv_type v = KFSW_PARAM_DATA"
    | (scalar) "pv_type v \<noteq> KFSW_PARAM_STRING" "pv_type v \<noteq> KFSW_PARAM_DATA" by auto
  then have "stored_formed e pm' \<and> stored_payload e pm' = value_payload v"
  proof cases
    case string
    have n: "entry_capacity e = unat (pi_array_size (en_info e))"
      using string shape(1) by (simp add: entry_capacity_def)
    have z: "0 \<in> set (pv_data v)" "length (takeWhile (\<lambda>b. b \<noteq> 0) (pv_data v)) < entry_capacity e"
      using formed(1) string shape(3) terminated_in_take [of 0 "pv_size v" "pv_data v"]
      by (auto simp: value_formed_def dest: in_set_takeD)
    then have "mem pm' (pd_value (en_definition e)) = (let p = takeWhile (\<lambda>b. b \<noteq> 0) (pv_data v)
        in p @ 0 # drop (length p + 1) (mem pm (pd_value (en_definition e))))"
      using copy_text_payload [of "pv_data v" "entry_capacity e" "entry_capacity e"] m string n
      by (simp add: written_bytes_def Let_def)
    with string z formed(3) shape(1) show ?thesis
      by (simp add: stored_formed_def stored_payload_def value_payload_def Let_def takeWhile_copied)
  next
    case data
    with formed shape m show ?thesis
      by (simp add: stored_formed_def stored_payload_def value_payload_def written_bytes_def Let_def
          value_formed_def entry_formed_def)
  next
    case scalar
    then have n: "entry_capacity e = scalar_size (pv_type v)" "scalar_size (pv_type v) \<le> 8"
      using shape(1) by (auto simp: entry_capacity_def) (cases "pv_type v"; simp)
    with scalar formed shape m show ?thesis
      by (simp add: stored_formed_def stored_payload_def value_payload_def written_bytes_def Let_def
          value_formed_def entry_formed_def)
  qed
  then show "stored_formed e pm'" "stored_payload e pm' = value_payload v" by simp_all
qed

text \<open>The shape of what well-formed storage carries.\<close>

lemma payload_shape:
  assumes formed: "entry_formed cfg e" "stored_formed e pm"
  shows "pi_type (en_info e) = KFSW_PARAM_STRING \<Longrightarrow>
      length (stored_payload e pm) < entry_capacity e \<and> 0 \<notin> set (stored_payload e pm)"
    "pi_type (en_info e) \<noteq> KFSW_PARAM_STRING \<Longrightarrow> length (stored_payload e pm) = entry_capacity e"
    "pi_type (en_info e) = KFSW_PARAM_STRING \<or> pi_type (en_info e) = KFSW_PARAM_DATA \<Longrightarrow>
      entry_capacity e \<le> cfg_string_max cfg"
    "pi_type (en_info e) \<noteq> KFSW_PARAM_STRING \<Longrightarrow> pi_type (en_info e) \<noteq> KFSW_PARAM_DATA \<Longrightarrow>
      entry_capacity e = scalar_size (pi_type (en_info e)) \<and> entry_capacity e \<le> 8"
proof -
  show "pi_type (en_info e) = KFSW_PARAM_STRING \<Longrightarrow>
      length (stored_payload e pm) < entry_capacity e \<and> 0 \<notin> set (stored_payload e pm)"
    using formed(2) length_takeWhile_before [of 0 "mem pm (pd_value (en_definition e))"]
    by (auto simp: stored_formed_def stored_payload_def Let_def dest: set_takeWhileD)
  have "scalar_size t \<le> 8" for t by (cases t) simp_all
  then show "pi_type (en_info e) \<noteq> KFSW_PARAM_STRING \<Longrightarrow> pi_type (en_info e) \<noteq> KFSW_PARAM_DATA \<Longrightarrow>
      entry_capacity e = scalar_size (pi_type (en_info e)) \<and> entry_capacity e \<le> 8"
    by (simp add: entry_capacity_def)
qed (use formed in \<open>auto simp: stored_formed_def stored_payload_def entry_formed_def Let_def\<close>)

lemma takeWhile_terminated: "0 \<notin> set p \<Longrightarrow> takeWhile (\<lambda>b. b \<noteq> (0 :: u8)) (p @ 0 # r) = p"
  by (induction p) auto

lemma entry_value_facts:
  assumes formed: "entry_formed cfg e" "stored_formed e pm"
  shows "value_formed cfg (entry_value cfg e pm)" "pv_type (entry_value cfg e pm) = pi_type (en_info e)"
    "value_payload (entry_value cfg e pm) = stored_payload e pm"
    "pi_type (en_info e) \<noteq> KFSW_PARAM_STRING \<Longrightarrow> pv_size (entry_value cfg e pm) = entry_capacity e"
    "pi_type (en_info e) = KFSW_PARAM_STRING \<Longrightarrow>
       pv_size (entry_value cfg e pm) = length (stored_payload e pm) + 1"
proof -
  note shape = payload_shape [OF formed]
  consider (string) "pi_type (en_info e) = KFSW_PARAM_STRING" | (data) "pi_type (en_info e) = KFSW_PARAM_DATA"
    | (scalar) "pi_type (en_info e) \<noteq> KFSW_PARAM_STRING" "pi_type (en_info e) \<noteq> KFSW_PARAM_DATA" by auto
  then have "value_formed cfg (entry_value cfg e pm) \<and>
      value_payload (entry_value cfg e pm) = stored_payload e pm"
  proof cases
    case string
    with shape(1,3) show ?thesis
      by (simp add: entry_value_def zero_value_def value_formed_def value_payload_def Let_def
          takeWhile_terminated)
  next
    case data
    with shape(2,3) show ?thesis
      by (simp add: entry_value_def zero_value_def value_formed_def value_payload_def Let_def)
  next
    case scalar
    with shape(2,4) show ?thesis
      by (simp add: entry_value_def zero_value_def value_formed_def value_payload_def Let_def)
  qed
  then show "value_formed cfg (entry_value cfg e pm)"
    "value_payload (entry_value cfg e pm) = stored_payload e pm" by simp_all
qed (simp_all add: entry_value_def zero_value_def Let_def)

text \<open>Reading an entry gives the value its storage stands for.\<close>

lemma read_entry_stored:
  assumes formed: "entry_formed cfg e" "stored_formed e pm" and quiet: "quiet_entry e"
  shows "read_entry cfg (Some e) Dest sample pm =
    (Inr (entry_value cfg e pm), if sample then sample_entry e pm else pm)"
proof -
  define pm' where "pm' = (if sample then sample_entry e pm else pm)"
  have m: "mem pm' = mem pm" using quiet_mem(1) [OF quiet] by (simp add: pm'_def)
  have n0: "0 < entry_capacity e" and a: "length (mem pm (pd_value (en_definition e))) = entry_capacity e"
    using formed by (simp_all add: entry_formed_def stored_formed_def Let_def)
  note shape = payload_shape [OF formed]
  show ?thesis
  proof (cases "pi_type (en_info e) = KFSW_PARAM_STRING")
    case True
    let ?s = "mem pm (pd_value (en_definition e))"
    have "0 \<in> set ?s" using formed(2) True by (simp add: stored_formed_def Let_def)
    from copy_text_payload [OF this, of "cfg_string_max cfg" "entry_capacity e"] True shape n0 m
    show ?thesis
      by (simp add: read_entry_def entry_value_def Let_def pm'_def [symmetric] zero_value_def
          stored_payload_def)
  next
    case False
    with n0 m a show ?thesis
      by (simp add: read_entry_def Let_def pm'_def [symmetric] zero_value_def entry_value_def
          stored_payload_def)
  qed
qed

section \<open>Lemmas on the file encoding\<close>

lemma wire_sizes:
  assumes "kfsw_param_wire_type_of e = Inr (type, n)"
  shows "pi_type (en_info e) = KFSW_PARAM_STRING \<Longrightarrow> type = KFSW_PARAM_WIRE_STRING \<and> n = 0"
    "pi_type (en_info e) \<noteq> KFSW_PARAM_STRING \<Longrightarrow> type \<noteq> KFSW_PARAM_WIRE_STRING \<and> unat n = entry_capacity e"
    "pi_type (en_info e) = KFSW_PARAM_DATA \<Longrightarrow> type = KFSW_PARAM_WIRE_DATA \<and> n = pi_array_size (en_info e)"
  using assms
  by (auto simp: kfsw_param_wire_type_of_def entry_capacity_def KFSW_PARAM_WIRE_STRING_def
      KFSW_PARAM_WIRE_U8_def KFSW_PARAM_WIRE_U16_def KFSW_PARAM_WIRE_I16_def KFSW_PARAM_WIRE_U32_def
      KFSW_PARAM_WIRE_I32_def KFSW_PARAM_WIRE_FLOAT_def KFSW_PARAM_WIRE_DATA_def
      split: kfsw_param_type.splits)

lemmas wire_type_codes = KFSW_PARAM_WIRE_STRING_def KFSW_PARAM_WIRE_U8_def KFSW_PARAM_WIRE_U16_def
  KFSW_PARAM_WIRE_I16_def KFSW_PARAM_WIRE_U32_def KFSW_PARAM_WIRE_I32_def KFSW_PARAM_WIRE_FLOAT_def
  KFSW_PARAM_WIRE_DATA_def

lemma scalar_of_payload:
  "length p = 1 \<Longrightarrow> [scalar_u8 (p @ r)] = rev p"
  "length p = 2 \<Longrightarrow> sys_put_be16 (scalar_u16 (p @ r)) = rev p"
  "length p = 4 \<Longrightarrow> sys_put_be32 (scalar_u32 (p @ r)) = rev p"
  by (auto simp: length_Suc_conv eval_nat_numeral scalar_u8_def scalar_u16_def scalar_u32_def)

lemma payload_of_scalar:
  "length p = 1 \<Longrightarrow> put_u8 ((rev p @ x) ! 0) s = p @ drop 1 s"
  "length p = 2 \<Longrightarrow> put_u16 (sys_get_be16 (rev p @ x)) s = p @ drop 2 s"
  "length p = 4 \<Longrightarrow> put_u32 (sys_get_be32 (rev p @ x)) s = p @ drop 4 s"
  by (auto simp: length_Suc_conv eval_nat_numeral put_u8_def put_u16_def put_u32_def)

lemma encode_payload_value:
  assumes formed: "entry_formed cfg e" "stored_formed e pm"
    and type: "kfsw_param_wire_type_of e = Inr (type, n)"
    and size: "pi_type (en_info e) = KFSW_PARAM_STRING \<Longrightarrow> unat n' = length (stored_payload e pm) + 1"
      "pi_type (en_info e) \<noteq> KFSW_PARAM_STRING \<Longrightarrow> n' = n"
  shows "encode_payload type n' (entry_value cfg e pm) = Inr (file_bytes e pm)"
proof -
  note shape = payload_shape [OF formed] and sizes = wire_sizes [OF type]
  consider (string) "pi_type (en_info e) = KFSW_PARAM_STRING" | (data) "pi_type (en_info e) = KFSW_PARAM_DATA"
    | (scalar) "pi_type (en_info e) \<noteq> KFSW_PARAM_STRING" "pi_type (en_info e) \<noteq> KFSW_PARAM_DATA" by auto
  then show ?thesis
  proof cases
    case string
    with sizes size show ?thesis
      by (simp add: encode_payload_def entry_value_def file_bytes_def Let_def wire_type_codes)
  next
    case data
    with sizes size shape show ?thesis
      by (simp add: encode_payload_def entry_value_def file_bytes_def Let_def wire_type_codes)
  next
    case scalar
    then have v: "pv_scalar (entry_value cfg e pm) = stored_payload e pm @ drop (entry_capacity e) (replicate 8 0)"
      using shape by (simp add: entry_value_def Let_def zero_value_def)
    from scalar shape(2,4) have "length (stored_payload e pm) = scalar_size (pi_type (en_info e))" by simp
    with scalar type v show ?thesis
      by (cases "pi_type (en_info e)")
        (auto simp: kfsw_param_wire_type_of_def encode_payload_def file_bytes_def Let_def wire_type_codes
          scalar_of_payload simp del: drop_replicate)
  qed
qed

lemma decode_payload_value:
  assumes formed: "entry_formed cfg e" "stored_formed e pm"
    and type: "kfsw_param_wire_type_of e = Inr (type, n)"
    and size: "unat n' = length (file_bytes e pm)"
  shows "decode_payload cfg e type (file_bytes e pm @ rest) n'
      (zero_value cfg (pi_type (en_info e)) (unat n')) = Inr (entry_value cfg e pm)"
proof -
  note shape = payload_shape [OF formed] and sizes = wire_sizes [OF type]
  have cap: "0 < entry_capacity e" using formed(1) by (simp add: entry_formed_def)
  consider (string) "pi_type (en_info e) = KFSW_PARAM_STRING" | (data) "pi_type (en_info e) = KFSW_PARAM_DATA"
    | (scalar) "pi_type (en_info e) \<noteq> KFSW_PARAM_STRING" "pi_type (en_info e) \<noteq> KFSW_PARAM_DATA" by auto
  then show ?thesis
  proof cases
    case string
    then have b: "file_bytes e pm = stored_payload e pm @ [0]" by (simp add: file_bytes_def Let_def)
    with size have "n' \<noteq> 0" by (auto simp: unat_eq_zero)
    with string sizes size shape b show ?thesis
      by (simp add: decode_payload_def entry_value_def zero_value_def Let_def wire_type_codes nth_append)
  next
    case data
    then have b: "file_bytes e pm = stored_payload e pm" "entry_capacity e = unat (pi_array_size (en_info e))"
      by (simp_all add: file_bytes_def Let_def entry_capacity_def)
    with data size shape(2) have n: "n' = pi_array_size (en_info e)" by (simp add: word_unat_eq_iff)
    with b cap have "n' \<noteq> 0" by (auto simp: unat_eq_zero)
    with data sizes size shape b n show ?thesis
      by (simp add: decode_payload_def entry_value_def zero_value_def Let_def wire_type_codes)
  next
    case scalar
    then have b: "file_bytes e pm = rev (stored_payload e pm)" by (simp add: file_bytes_def Let_def)
    from scalar shape(2,4) have l: "length (stored_payload e pm) = scalar_size (pi_type (en_info e))"
      and c: "entry_capacity e = scalar_size (pi_type (en_info e))" by simp_all
    from scalar type l c size show ?thesis
      by (cases "pi_type (en_info e)")
        (auto simp: b kfsw_param_wire_type_of_def decode_payload_def entry_value_def zero_value_def Let_def
          wire_type_codes payload_of_scalar simp del: drop_replicate)
  qed
qed

lemma length_file_bytes:
  assumes formed: "entry_formed cfg e" "stored_formed e pm"
  shows "length (file_bytes e pm) \<le> entry_capacity e" "0 < length (file_bytes e pm)"
    "pi_type (en_info e) = KFSW_PARAM_STRING \<Longrightarrow> length (file_bytes e pm) = length (stored_payload e pm) + 1"
    "pi_type (en_info e) \<noteq> KFSW_PARAM_STRING \<Longrightarrow> length (file_bytes e pm) = entry_capacity e"
    "length (file_bytes e pm) < 65536"
proof -
  note shape = payload_shape [OF formed]
  have cap: "0 < entry_capacity e" using formed(1) by (simp add: entry_formed_def)
  show s: "pi_type (en_info e) = KFSW_PARAM_STRING \<Longrightarrow> length (file_bytes e pm) = length (stored_payload e pm) + 1"
    by (simp add: file_bytes_def Let_def)
  show n: "pi_type (en_info e) \<noteq> KFSW_PARAM_STRING \<Longrightarrow> length (file_bytes e pm) = entry_capacity e"
    using shape(2) by (simp add: file_bytes_def Let_def)
  from s n shape cap show le: "length (file_bytes e pm) \<le> entry_capacity e"
    and "0 < length (file_bytes e pm)"
    by (cases "pi_type (en_info e) = KFSW_PARAM_STRING"; simp)+
  have "entry_capacity e < 65536"
    using unat_u16_bound [of "pi_array_size (en_info e)"] shape(4)
    by (auto simp: entry_capacity_def)
  with le show "length (file_bytes e pm) < 65536" by simp
qed

lemma wire_encode_stored:
  assumes formed: "entry_formed cfg e" "stored_formed e pm" and quiet: "quiet_entry e"
    and type: "kfsw_param_wire_type_of e = Inr (type, n)" and room: "length (file_bytes e pm) \<le> output_size"
  shows "kfsw_param_wire_encode cfg e output_size pm = (Inr (file_bytes e pm), sample_entry e pm)"
proof -
  note sizes = wire_sizes [OF type] and len = length_file_bytes [OF formed]
  define n' where "n' = (if type = KFSW_PARAM_WIRE_STRING then word_of_nat (pv_size (entry_value cfg e pm)) else n)"
  have s: "pi_type (en_info e) = KFSW_PARAM_STRING \<Longrightarrow> unat n' = length (stored_payload e pm) + 1"
    and d: "pi_type (en_info e) \<noteq> KFSW_PARAM_STRING \<Longrightarrow> n' = n"
  proof -
    assume t: "pi_type (en_info e) = KFSW_PARAM_STRING"
    have "unat (word_of_nat (length (stored_payload e pm) + 1) :: u16) = length (stored_payload e pm) + 1"
      using len(3) [OF t] len(5) by (intro unat_word_of_nat_small) simp
    with t show "unat n' = length (stored_payload e pm) + 1"
      using sizes(1) entry_value_facts(5) [OF formed] by (simp add: n'_def)
  next
    assume "pi_type (en_info e) \<noteq> KFSW_PARAM_STRING"
    with sizes(2) show "n' = n" by (simp add: n'_def)
  qed
  have "unat n' = length (file_bytes e pm)"
    using s d sizes(2) len(3,4) by (cases "pi_type (en_info e) = KFSW_PARAM_STRING") simp_all
  with room encode_payload_value [OF formed type s d] show ?thesis
    by (simp add: kfsw_param_wire_encode_def type kfsw_param_read_entry_def
        read_entry_stored [OF formed quiet] Let_def n'_def [symmetric])
qed

lemma wire_decode_stored:
  assumes formed: "entry_formed cfg e" "stored_formed e pm"
    and type: "kfsw_param_wire_type_of e = Inr (type, n)" and size: "unat n' = length (file_bytes e pm)"
  shows "kfsw_param_wire_decode cfg e type (file_bytes e pm @ rest) n' pm' =
    (case kfsw_param_validate_entry (Some e) (Some (entry_value cfg e pm)) pm' of
       Some err \<Rightarrow> Inl err
     | None \<Rightarrow> Inr (entry_value cfg e pm))"
proof -
  have "n \<noteq> 0 \<longrightarrow> n' = n"
    using wire_sizes [OF type] length_file_bytes(4) [OF formed] size
    by (cases "pi_type (en_info e) = KFSW_PARAM_STRING") (auto simp: word_unat_eq_iff)
  then show ?thesis
    by (auto simp: kfsw_param_wire_decode_def type decode_payload_value [OF formed type size])
qed

section \<open>Properties\<close>

text \<open>
  C36. The conversion of a decimal number is exact: it succeeds precisely when the number is in the
  range of the parameter's integer type, the scalar then reads back as that number and nothing else of
  the value changed; otherwise the result is \<open>-ERANGE\<close> or \<open>-EINVAL\<close> and the value is untouched.
\<close>

theorem param_parse_bounds:
  assumes "is_unsigned_type (pv_type v) \<or> is_signed_type (pv_type v)"
  shows "let r = kfsw_param_parse_text cfg (signed_decimal i) v
    in (fst r = None \<longleftrightarrow> type_min (pv_type v) \<le> i \<and> i \<le> type_max (pv_type v))
       \<and> (fst r = None \<longrightarrow> scalar_int (pv_type v) (pv_scalar (snd r)) = i
            \<and> (snd r)\<lparr>pv_scalar := pv_scalar v\<rparr> = v)
       \<and> (fst r \<noteq> None \<longrightarrow> fst r \<in> {Some ERANGE, Some EINVAL} \<and> snd r = v)"
  using parse_decimal_exact [OF assms, of cfg i] scalar_int_put_member [OF assms, of i "pv_scalar v"]
  by (auto simp: Let_def split: if_splits)

theorem param_parse_bounds_witness:
  "let v = zero_value demo_param_config KFSW_PARAM_I16 2;
       low = kfsw_param_parse_text demo_param_config (signed_decimal (- 32768)) v;
       high = kfsw_param_parse_text demo_param_config (signed_decimal 32768) v
   in fst low = None \<and> scalar_int KFSW_PARAM_I16 (pv_scalar (snd low)) = - 32768
      \<and> fst high \<noteq> None \<and> snd high = v"
proof -
  let ?v = "zero_value demo_param_config KFSW_PARAM_I16 2"
  have t: "is_unsigned_type (pv_type ?v) \<or> is_signed_type (pv_type ?v)" and p: "pv_type ?v = KFSW_PARAM_I16"
    by (simp_all add: zero_value_def)
  note b = param_parse_bounds [OF t, of demo_param_config, unfolded Let_def p]
  show ?thesis
    using b [of "- 32768"] b [of 32768] by (simp add: Let_def type_min_def type_max_def)
qed

text \<open>
  The file encoding of a stored value decodes to the value the parameter reads as. For every
  registered parameter of a type the files carry, with storage of its declared shape and callbacks that
  leave storage alone, encoding writes at most the declared capacity, changes nothing but what sampling
  changes, and decoding those bytes, whatever follows them, gives back exactly that value, or the error
  of the parameter's own validator.
\<close>

theorem param_wire_round_trip:
  assumes "entry_formed cfg e" and "stored_formed e pm" and "quiet_entry e"
    and "kfsw_param_wire_type_of e = Inr (type, n)" and "entry_capacity e \<le> output_size"
  shows "\<exists>b v. kfsw_param_wire_encode cfg e output_size pm = (Inr b, sample_entry e pm)
    \<and> length b \<le> entry_capacity e
    \<and> kfsw_param_read_entry cfg (Some e) Dest pm = (Inr v, sample_entry e pm)
    \<and> value_payload v = stored_payload e pm
    \<and> (\<forall>rest pm'. kfsw_param_wire_decode cfg e type (b @ rest) (word_of_nat (length b)) pm' =
         (case kfsw_param_validate_entry (Some e) (Some v) pm' of Some err \<Rightarrow> Inl err | None \<Rightarrow> Inr v))"
proof (intro exI conjI allI)
  note len = length_file_bytes [OF assms(1,2)]
  show "kfsw_param_wire_encode cfg e output_size pm = (Inr (file_bytes e pm), sample_entry e pm)"
    by (rule wire_encode_stored [OF assms(1-4)]) (use len(1) assms(5) in linarith)
  show "length (file_bytes e pm) \<le> entry_capacity e" by (rule len(1))
  show "kfsw_param_read_entry cfg (Some e) Dest pm = (Inr (entry_value cfg e pm), sample_entry e pm)"
    by (simp add: kfsw_param_read_entry_def read_entry_stored [OF assms(1-3)])
  show "value_payload (entry_value cfg e pm) = stored_payload e pm"
    by (rule entry_value_facts(3) [OF assms(1,2)])
  show "kfsw_param_wire_decode cfg e type (file_bytes e pm @ rest) (word_of_nat (length (file_bytes e pm))) pm' =
      (case kfsw_param_validate_entry (Some e) (Some (entry_value cfg e pm)) pm' of
         Some err \<Rightarrow> Inl err | None \<Rightarrow> Inr (entry_value cfg e pm))" for rest pm'
    by (rule wire_decode_stored [OF assms(1,2,4)]) (use len(5) in \<open>simp add: unat_word_of_nat_small\<close>)
qed

theorem param_wire_round_trip_witness:
  "\<exists>b v. kfsw_param_wire_encode demo_param_config demo_param_entry 8 demo_mem = (Inr b, sample_entry demo_param_entry demo_mem)
    \<and> value_payload v = [0x6F, 0x6E]
    \<and> kfsw_param_wire_decode demo_param_config demo_param_entry KFSW_PARAM_WIRE_STRING b (word_of_nat (length b))
        demo_mem = Inr v"
proof -
  have f: "entry_formed demo_param_config demo_param_entry" "stored_formed demo_param_entry demo_mem" "quiet_entry demo_param_entry"
    by (simp_all add: entry_formed_def stored_formed_def quiet_entry_def quiet_definition_def
        entry_capacity_def demo_param_entry_def
        demo_definition_def demo_param_config_def demo_mem_def)
  have t: "kfsw_param_wire_type_of demo_param_entry = Inr (KFSW_PARAM_WIRE_STRING, 0)" "entry_capacity demo_param_entry \<le> 8"
    by (simp_all add: kfsw_param_wire_type_of_def demo_param_entry_def entry_capacity_def)
  from param_wire_round_trip [OF f t] obtain b v where
    1: "kfsw_param_wire_encode demo_param_config demo_param_entry 8 demo_mem = (Inr b, sample_entry demo_param_entry demo_mem)"
    and 2: "value_payload v = stored_payload demo_param_entry demo_mem"
    and 3: "kfsw_param_read_entry demo_param_config (Some demo_param_entry) Dest demo_mem =
      (Inr v, sample_entry demo_param_entry demo_mem)"
    and 4: "\<forall>rest pm'. kfsw_param_wire_decode demo_param_config demo_param_entry KFSW_PARAM_WIRE_STRING (b @ rest)
        (word_of_nat (length b)) pm' =
      (case kfsw_param_validate_entry (Some demo_param_entry) (Some v) pm' of Some err \<Rightarrow> Inl err | None \<Rightarrow> Inr v)"
    by blast
  have v: "v = entry_value demo_param_config demo_param_entry demo_mem"
    using 3 by (simp add: kfsw_param_read_entry_def read_entry_stored [OF f])
  have "kfsw_param_validate_entry (Some demo_param_entry) (Some v) demo_mem = None"
    unfolding v by (simp add: kfsw_param_validate_entry_def demo_param_entry_def demo_definition_def
        entry_capacity_def entry_value_def stored_payload_def demo_mem_def zero_value_def Let_def)
  with 4 [rule_format, of "[]" demo_mem] 1 2 show ?thesis
    by (intro exI [of _ b] exI [of _ v])
      (simp add: stored_payload_def demo_param_entry_def demo_definition_def demo_mem_def)
qed

end
