(* ===== verification/Parameter.thy ===== *)
theory Parameter
  imports Param_Values Contracts
begin

text \<open>
  The parameter registry, \<^verbatim>\<open>src/parameter/parameter.c\<close> (the value operations are in \<open>Param_Values\<close>): the
  tables and entries built from the components' definition sets, lookup by wire ID and by name, reading
  and setting, the restoration of defaults, and the queries.

  \<open>parameter_table\<close> and \<open>parameter_tables\<close> are lists whose lengths are \<open>parameter_count\<close> and
  \<open>table_count\<close>; their capacities are in the \<open>param_config\<close>. The table mutex makes each operation one
  step. What \<open>kfsw_param_set\<close> does after an accepted change in a build with
  \<open>CONFIG_KFSW_PARAM_PERSISTENCE\<close> is an argument (\<open>None\<close> without that option): whether autosave is on,
  and the save itself, which \<open>Param_Persist\<close> models.

  Proved: a registry that initialises holds every definition in the order of wire IDs, without duplicate
  IDs or names and within its bounds, and the binary search finds in it what a linear search finds; a
  value that was set is read back and no other parameter changed; a refused change leaves storage
  alone; and in every reachable state each parameter's storage has its declared shape.
\<close>

section \<open>State\<close>

definition KFSW_PARAM_TABLE_CORE_FIRST :: u8 where "KFSW_PARAM_TABLE_CORE_FIRST = 1"
definition KFSW_PARAM_TABLE_CORE_LAST :: u8 where "KFSW_PARAM_TABLE_CORE_LAST = 24"
definition KFSW_PARAM_TABLE_SERVICE_FIRST :: u8 where "KFSW_PARAM_TABLE_SERVICE_FIRST = 25"
definition KFSW_PARAM_TABLE_SERVICE_LAST :: u8 where "KFSW_PARAM_TABLE_SERVICE_LAST = 49"
definition KFSW_PARAM_TABLE_MODULE_FIRST :: u8 where "KFSW_PARAM_TABLE_MODULE_FIRST = 50"
definition KFSW_PARAM_TABLE_MODULE_LAST :: u8 where "KFSW_PARAM_TABLE_MODULE_LAST = 99"

record kfsw_param_table_info =
  ti_id :: u8
  ti_name :: string
  ti_description :: "string option"
  ti_count :: u16

record 'w kfsw_param_definition_set =
  pset_table :: u8
  pset_name :: "string option"
  pset_description :: "string option"
  pset_definitions :: "'w kfsw_param_definition list option"
  pset_count :: nat

record 'w param_state =
  parameter_table :: "'w kfsw_param_entry list"
  parameter_tables :: "kfsw_param_table_info list"
  param_initialized :: bool
  param_saves :: u32
  param_load_failures :: u32
  param_memory :: "'w param_mem"

record 'w persist_hooks =
  kfsw_param_autosave_enabled :: "'w param_state \<Rightarrow> bool"
  hook_persist_save :: "'w param_state \<Rightarrow> rc \<times> 'w param_state"

record kfsw_param_stats =
  pst_count :: u16
  pst_tables :: u16
  pst_persistent :: u16
  pst_saves :: u32
  pst_load_failures :: u32
  pst_requests_dropped :: u32

definition KFSW_PARAM_ID :: "u8 \<Rightarrow> u8 \<Rightarrow> u16" where
  "KFSW_PARAM_ID table offset = push_bit 8 (ucast table) OR ucast offset"

definition has_flag :: "u32 \<Rightarrow> u32 \<Rightarrow> bool" where
  "has_flag flags flag \<longleftrightarrow> flags AND flag \<noteq> 0"

section \<open>Lookup\<close>

definition kfsw_param_entry_count :: "'w param_state \<Rightarrow> nat" where
  "kfsw_param_entry_count st = length (parameter_table st)"

definition kfsw_param_entry_at :: "nat \<Rightarrow> 'w param_state \<Rightarrow> 'w kfsw_param_entry option" where
  "kfsw_param_entry_at index st =
     (if index < length (parameter_table st) then Some (parameter_table st ! index) else None)"

text \<open>The loop of the binary search, on the half-open range of indices it still considers.\<close>

function find_between ::
  "'w kfsw_param_entry list \<Rightarrow> u16 \<Rightarrow> nat \<Rightarrow> nat \<Rightarrow> 'w kfsw_param_entry option" where
  "find_between table ident low high =
     (if low < high then
        (let middle = low + (high - low) div 2;
             found = pi_id (en_info (table ! middle))
         in if found = ident then Some (table ! middle)
            else if found < ident then find_between table ident (middle + 1) high
            else find_between table ident low middle)
      else None)"
  by pat_completeness auto
termination by (relation "measure (\<lambda>(t, i, low, high). high - low)") auto

declare find_between.simps [simp del]

definition kfsw_param_find_id :: "u16 \<Rightarrow> 'w param_state \<Rightarrow> 'w kfsw_param_entry option" where
  "kfsw_param_find_id ident st = find_between (parameter_table st) ident 0 (length (parameter_table st))"

definition kfsw_param_find_name :: "string option \<Rightarrow> 'w param_state \<Rightarrow> 'w kfsw_param_entry option" where
  "kfsw_param_find_name name st =
     (case name of
        None \<Rightarrow> None
      | Some n \<Rightarrow> find (\<lambda>e. pi_name (en_info e) = n) (parameter_table st))"

definition kfsw_param_value_accepted :: "param_config \<Rightarrow> u16 \<Rightarrow> 'w param_state \<Rightarrow> 'w param_state" where
  "kfsw_param_value_accepted cfg ident st =
     (case kfsw_param_find_id ident st of
        None \<Rightarrow> st
      | Some e \<Rightarrow>
          (case kfsw_param_read_stored_entry cfg (Some e) Dest (param_memory st) of
             (Inl err, pm) \<Rightarrow> st\<lparr>param_memory := pm\<rparr>
           | (Inr v, pm) \<Rightarrow> st\<lparr>param_memory := notify_changed e v pm\<rparr>))"

section \<open>Registration\<close>

text \<open>\<open>find_table\<close> as the index of the table it points to.\<close>

definition find_table :: "u8 \<Rightarrow> 'w param_state \<Rightarrow> nat option" where
  "find_table ident st = first_index (\<lambda>t. ti_id t = ident) (parameter_tables st)"

definition table_is_allocated :: "u8 \<Rightarrow> bool" where
  "table_is_allocated table \<longleftrightarrow> KFSW_PARAM_TABLE_CORE_FIRST \<le> table \<and> table \<le> KFSW_PARAM_TABLE_MODULE_LAST"

text \<open>The insertion both registries use: before the first element with a larger key.\<close>

definition insert_before :: "('a \<Rightarrow> bool) \<Rightarrow> 'a \<Rightarrow> 'a list \<Rightarrow> 'a list" where
  "insert_before larger x xs =
     (let insert_at = (case first_index larger xs of None \<Rightarrow> length xs | Some i \<Rightarrow> i)
      in take insert_at xs @ x # drop insert_at xs)"

definition add_table ::
  "param_config \<Rightarrow> 'w kfsw_param_definition_set \<Rightarrow> 'w param_state \<Rightarrow> rc \<times> 'w param_state" where
  "add_table cfg s st =
     (case pset_name s of
        None \<Rightarrow> (Some EINVAL, st)
      | Some name \<Rightarrow>
          if name = [] \<or> \<not> name_is_within_limit name then (Some EINVAL, st)
          else if \<not> table_is_allocated (pset_table s) then (Some EINVAL, st)
          else if find_table (pset_table s) st \<noteq> None then (Some EEXIST, st)
          else if length (parameter_tables st) \<ge> cfg_max_tables cfg then (Some ENOSPC, st)
          else
            (None, st\<lparr>parameter_tables := insert_before (\<lambda>t. ti_id t > pset_table s)
                \<lparr>ti_id = pset_table s, ti_name = name, ti_description = pset_description s, ti_count = 0\<rparr>
                (parameter_tables st)\<rparr>))"

text \<open>The declared size: \<open>Inl\<close> the error of a definition that declares none that can be used.\<close>

definition declared_size :: "param_config \<Rightarrow> 'w kfsw_param_definition \<Rightarrow> errno + nat" where
  "declared_size cfg d =
     (if pd_type d = KFSW_PARAM_DATA then
        if pd_capacity d = 0 \<or> unat (pd_capacity d) > cfg_string_max cfg then Inl EINVAL
        else Inr (unat (pd_capacity d))
      else if pd_type d = KFSW_PARAM_STRING then
        if pd_capacity d < 2 \<or> unat (pd_capacity d) > cfg_string_max cfg then Inl EINVAL
        else Inr (unat (pd_capacity d))
      else if cfg_float cfg = None \<and> (pd_type d = KFSW_PARAM_FLOAT \<or> pd_type d = KFSW_PARAM_DOUBLE)
        then Inl ENOTSUP
      else if scalar_size (pd_type d) = 0 then Inl EINVAL
      else Inr (scalar_size (pd_type d)))"

text \<open>A definition must accept its own default.\<close>

definition accepts_default :: "param_config \<Rightarrow> 'w kfsw_param_definition \<Rightarrow> 'w param_mem \<Rightarrow> bool" where
  "accepts_default cfg d pm \<longleftrightarrow>
     (if pd_type d = KFSW_PARAM_DATA then
        (case pd_validate_data d of
           None \<Rightarrow> True
         | Some f \<Rightarrow>
             f (take (unat (pd_capacity d))
                 (case pd_default_data d of None \<Rightarrow> replicate (cfg_string_max cfg) 0 | Some data \<Rightarrow> data)) pm = None)
      else if pd_type d = KFSW_PARAM_STRING then
        (let text = take (cfg_string_max cfg - 1) (case pd_default_text d of None \<Rightarrow> [] | Some t \<Rightarrow> t)
         in length text < unat (pd_capacity d)
            \<and> (case pd_validate_text d of None \<Rightarrow> True | Some f \<Rightarrow> f text pm = None))
      else (case pd_validate d of None \<Rightarrow> True | Some f \<Rightarrow> f (pd_default_value d) pm = None))"

definition definition_flags :: "'w kfsw_param_definition \<Rightarrow> u32" where
  "definition_flags d =
     (if pd_apply d \<noteq> None \<or> pd_changed d \<noteq> None \<or> pd_changed_text d \<noteq> None \<or> pd_changed_data d \<noteq> None
      then pd_flags d OR KFSW_PARAM_FLAG_LIVE else pd_flags d)"

definition param_new_entry ::
  "'w kfsw_param_definition_set \<Rightarrow> 'w kfsw_param_definition \<Rightarrow> string \<Rightarrow> 'w kfsw_param_entry" where
  "param_new_entry s d name =
     \<lparr>en_info =
        \<lparr>pi_node = 0, pi_id = KFSW_PARAM_ID (pset_table s) (pd_offset d), pi_table = pset_table s,
         pi_offset = pd_offset d,
         pi_array_size =
           (if pd_type d = KFSW_PARAM_STRING \<or> pd_type d = KFSW_PARAM_DATA then pd_capacity d else 1),
         pi_type = pd_type d, pi_flags = definition_flags d, pi_table_name = pset_name s, pi_name = name,
         pi_unit = pd_unit d, pi_description = pd_description d,
         pi_read_only = has_flag (definition_flags d) KFSW_PARAM_FLAG_READ_ONLY\<rparr>,
      en_definition = d\<rparr>"

definition add_definition ::
  "param_config \<Rightarrow> 'w kfsw_param_definition_set \<Rightarrow> 'w kfsw_param_definition \<Rightarrow> 'w param_state
     \<Rightarrow> rc \<times> 'w param_state" where
  "add_definition cfg s d st =
     (case pd_name d of
        None \<Rightarrow> (Some EINVAL, st)
      | Some name \<Rightarrow>
          if name = [] \<or> pd_value d = 0 then (Some EINVAL, st)
          else if pd_apply d \<noteq> None \<and> (pd_type d = KFSW_PARAM_STRING \<or> pd_type d = KFSW_PARAM_DATA)
            then (Some EINVAL, st)
          else
            (case declared_size cfg d of
               Inl e \<Rightarrow> (Some e, st)
             | Inr n \<Rightarrow>
                 if \<not> name_is_within_limit name then (Some ENAMETOOLONG, st)
                 else if length (parameter_table st) \<ge> cfg_max_definitions cfg then (Some ENOSPC, st)
                 else
                   (case find_table (pset_table s) st of
                      None \<Rightarrow> (Some ENOENT, st)
                    | Some i \<Rightarrow>
                        (let wire_id = KFSW_PARAM_ID (pset_table s) (pd_offset d)
                         in if \<not> accepts_default cfg d (param_memory st) then (Some ERANGE, st)
                            else if \<exists>e \<in> set (parameter_table st).
                                pi_id (en_info e) = wire_id \<or> pi_name (en_info e) = name
                              then (Some EEXIST, st)
                            else
                              (None, st\<lparr>parameter_table := insert_before (\<lambda>e. pi_id (en_info e) > wire_id)
                                   (param_new_entry s d name) (parameter_table st),
                                 parameter_tables := (parameter_tables st)
                                   [i := (parameter_tables st ! i)
                                      \<lparr>ti_count := ti_count (parameter_tables st ! i) + 1\<rparr>]\<rparr>)))))"

fun add_definitions ::
  "param_config \<Rightarrow> 'w kfsw_param_definition_set \<Rightarrow> 'w kfsw_param_definition list \<Rightarrow> 'w param_state
     \<Rightarrow> rc \<times> 'w param_state" where
  "add_definitions cfg s [] st = (None, st)"
| "add_definitions cfg s (d # ds) st =
     (case add_definition cfg s d st of
        (Some e, st') \<Rightarrow> (Some e, st')
      | (None, st') \<Rightarrow> add_definitions cfg s ds st')"

fun add_sets ::
  "param_config \<Rightarrow> 'w kfsw_param_definition_set option list \<Rightarrow> 'w param_state
     \<Rightarrow> rc \<times> 'w param_state" where
  "add_sets cfg [] st = (None, st)"
| "add_sets cfg (None # sets) st = (Some EINVAL, st)"
| "add_sets cfg (Some s # sets) st =
     (case pset_definitions s of
        None \<Rightarrow> (Some EINVAL, st)
      | Some ds \<Rightarrow>
          if pset_count s = 0 then (Some EINVAL, st)
          else
            (case add_table cfg s st of
               (Some e, st') \<Rightarrow> (Some e, st')
             | (None, st') \<Rightarrow>
                 (case add_definitions cfg s (take (pset_count s) ds) st' of
                    (Some e, st'') \<Rightarrow> (Some e, st'')
                  | (None, st'') \<Rightarrow> add_sets cfg sets st'')))"

text \<open>The loop that writes the defaults, before the service is initialised.\<close>

fun write_defaults ::
  "param_config \<Rightarrow> 'w kfsw_param_entry list \<Rightarrow> 'w param_mem \<Rightarrow> rc \<times> 'w param_mem" where
  "write_defaults cfg [] pm = (None, pm)"
| "write_defaults cfg (e # es) pm =
     (case kfsw_param_write_default cfg False e pm of
        (Some err, pm') \<Rightarrow> (Some err, pm')
      | (None, pm') \<Rightarrow> write_defaults cfg es pm')"

definition kfsw_param_init ::
  "param_config \<Rightarrow> 'w kfsw_param_definition_set option list option \<Rightarrow> nat \<Rightarrow> 'w param_state
     \<Rightarrow> rc \<times> 'w param_state" where
  "kfsw_param_init cfg sets set_count st =
     (case sets of
        None \<Rightarrow> (Some EINVAL, st)
      | Some ss \<Rightarrow>
          if set_count = 0 then (Some EINVAL, st)
          else if param_initialized st then (None, st)
          else
            (case add_sets cfg (take set_count ss) (st\<lparr>parameter_table := [], parameter_tables := []\<rparr>) of
               (Some e, st') \<Rightarrow> (Some e, st'\<lparr>parameter_table := [], parameter_tables := []\<rparr>)
             | (None, st') \<Rightarrow>
                 if parameter_table st' = [] then
                   (Some ENOENT, st'\<lparr>parameter_table := [], parameter_tables := []\<rparr>)
                 else
                   (case write_defaults cfg (parameter_table st') (param_memory st') of
                      (result, pm) \<Rightarrow>
                        (result, st'\<lparr>param_memory := pm, param_initialized := (result = None)\<rparr>))))"

definition kfsw_param_is_initialized :: "'w param_state \<Rightarrow> bool" where
  "kfsw_param_is_initialized st = param_initialized st"

section \<open>Reading and setting\<close>

definition kfsw_param_get ::
  "param_config \<Rightarrow> string option \<Rightarrow> dest \<Rightarrow> 'w param_state \<Rightarrow> (errno + kfsw_param_value) \<times> 'w param_state" where
  "kfsw_param_get cfg name value st =
     (if name = None \<or> value = Null then (Inl EINVAL, st)
      else if \<not> param_initialized st then (Inl EACCES, st)
      else
        (case kfsw_param_find_name name st of
           None \<Rightarrow> (Inl ENOENT, st)
         | Some e \<Rightarrow>
             (case kfsw_param_read_entry cfg (Some e) value (param_memory st) of
                (r, pm) \<Rightarrow> (r, st\<lparr>param_memory := pm\<rparr>))))"

definition kfsw_param_get_by_id ::
  "param_config \<Rightarrow> u16 \<Rightarrow> dest \<Rightarrow> 'w param_state \<Rightarrow> (errno + kfsw_param_value) \<times> 'w param_state" where
  "kfsw_param_get_by_id cfg ident value st =
     (if value = Null then (Inl EINVAL, st)
      else if \<not> param_initialized st then (Inl EACCES, st)
      else
        (case kfsw_param_find_id ident st of
           None \<Rightarrow> (Inl ENOENT, st)
         | Some e \<Rightarrow>
             (case kfsw_param_read_entry cfg (Some e) value (param_memory st) of
                (r, pm) \<Rightarrow> (r, st\<lparr>param_memory := pm\<rparr>))))"

text \<open>The change under the table lock, and what follows once the lock is released.\<close>

definition set_locked ::
  "string option \<Rightarrow> kfsw_param_value \<Rightarrow> 'w param_state \<Rightarrow> rc \<times> 'w param_state" where
  "set_locked name v st =
     (case kfsw_param_find_name name st of
        None \<Rightarrow> (Some ENOENT, st)
      | Some e \<Rightarrow>
          if pi_read_only (en_info e) then (Some EACCES, st)
          else
            (case kfsw_param_validate_entry (Some e) (Some v) (param_memory st) of
               Some err \<Rightarrow> (Some err, st)
             | None \<Rightarrow>
                 (case kfsw_param_wire_apply (param_initialized st) e v (param_memory st) of
                    (result, pm) \<Rightarrow> (result, st\<lparr>param_memory := pm\<rparr>))))"

definition kfsw_param_set ::
  "'w persist_hooks option \<Rightarrow> string option \<Rightarrow> kfsw_param_value option \<Rightarrow> 'w param_state
     \<Rightarrow> rc \<times> 'w param_state" where
  "kfsw_param_set persistence name value st =
     (case (name, value) of
        (Some n, Some v) \<Rightarrow>
          if \<not> param_initialized st then (Some EACCES, st)
          else
            (case set_locked name v st of
               (Some err, st') \<Rightarrow> (Some err, st')
             | (None, st') \<Rightarrow>
                 (case (persistence, kfsw_param_find_name name st) of
                    (Some h, Some e) \<Rightarrow>
                      if kfsw_param_autosave_enabled h st'
                         \<and> has_flag (pi_flags (en_info e)) KFSW_PARAM_FLAG_PERSISTENT
                      then (None, snd (hook_persist_save h st')) else (None, st')
                  | _ \<Rightarrow> (None, st')))
      | _ \<Rightarrow> (Some EINVAL, st))"

text \<open>
  \<open>kfsw_param_restore_defaults\<close>: the first pass counts the persistent parameters, notes whether one has
  an \<open>apply\<close> callback and validates every default; the second writes them.
\<close>

definition is_persistent :: "'w kfsw_param_entry \<Rightarrow> bool" where
  "is_persistent e = has_flag (pi_flags (en_info e)) KFSW_PARAM_FLAG_PERSISTENT"

fun check_defaults ::
  "param_config \<Rightarrow> 'w kfsw_param_entry list \<Rightarrow> nat \<Rightarrow> bool \<Rightarrow> 'w param_mem \<Rightarrow> rc \<times> nat \<times> bool" where
  "check_defaults cfg [] count fallible pm = (None, count, fallible)"
| "check_defaults cfg (e # es) count fallible pm =
     (if \<not> is_persistent e then check_defaults cfg es count fallible pm
      else
        (let count' = count + 1; fallible' = (fallible \<or> pd_apply (en_definition e) \<noteq> None)
         in case kfsw_param_validate_entry (Some e) (Some (read_default cfg e)) pm of
              Some err \<Rightarrow> (Some err, count', fallible')
            | None \<Rightarrow> check_defaults cfg es count' fallible' pm))"

fun apply_defaults ::
  "param_config \<Rightarrow> bool \<Rightarrow> 'w kfsw_param_entry list \<Rightarrow> 'w param_mem \<Rightarrow> rc \<times> 'w param_mem" where
  "apply_defaults cfg initialized [] pm = (None, pm)"
| "apply_defaults cfg initialized (e # es) pm =
     (if \<not> is_persistent e then apply_defaults cfg initialized es pm
      else
        (case kfsw_param_wire_apply initialized e (read_default cfg e) pm of
           (Some err, pm') \<Rightarrow> (Some err, pm')
         | (None, pm') \<Rightarrow> apply_defaults cfg initialized es pm'))"

definition kfsw_param_restore_defaults :: "param_config \<Rightarrow> 'w param_state \<Rightarrow> rc \<times> 'w param_state" where
  "kfsw_param_restore_defaults cfg st =
     (if \<not> param_initialized st then (Some EACCES, st)
      else
        (case check_defaults cfg (parameter_table st) 0 False (param_memory st) of
           (Some err, count, fallible) \<Rightarrow> (Some err, st)
         | (None, count, fallible) \<Rightarrow>
             if fallible \<and> count \<noteq> 1 then (Some ENOTSUP, st)
             else
               (case apply_defaults cfg (param_initialized st) (parameter_table st) (param_memory st) of
                  (result, pm) \<Rightarrow> (result, st\<lparr>param_memory := pm\<rparr>))))"

section \<open>Queries\<close>

definition kfsw_param_visit ::
  "(kfsw_param_info \<Rightarrow> 'c \<Rightarrow> bool \<times> 'c) option \<Rightarrow> 'w param_state \<Rightarrow> 'c \<Rightarrow> rc \<times> 'c" where
  "kfsw_param_visit visitor st context =
     (case visitor of
        None \<Rightarrow> (Some EINVAL, context)
      | Some f \<Rightarrow>
          if \<not> param_initialized st then (Some EACCES, context)
          else (None, visit_list f (map en_info (parameter_table st)) context))"

definition kfsw_param_count_save :: "'w param_state \<Rightarrow> 'w param_state" where
  "kfsw_param_count_save st = st\<lparr>param_saves := param_saves st + 1\<rparr>"

definition kfsw_param_count_load_failure :: "'w param_state \<Rightarrow> 'w param_state" where
  "kfsw_param_count_load_failure st = st\<lparr>param_load_failures := param_load_failures st + 1\<rparr>"

text \<open>\<open>dropped\<close> is \<open>kfsw_param_csp_dropped_requests()\<close>, or 0 in a build without \<open>CONFIG_KFSW_PARAM_CSP\<close>.\<close>

definition kfsw_param_get_stats :: "u32 \<Rightarrow> dest \<Rightarrow> 'w param_state \<Rightarrow> errno + kfsw_param_stats" where
  "kfsw_param_get_stats dropped stats st =
     (if stats = Null then Inl EINVAL
      else Inr \<lparr>pst_count = word_of_nat (length (parameter_table st)),
        pst_tables = word_of_nat (length (parameter_tables st)),
        pst_persistent = foldl (\<lambda>n e. if is_persistent e then n + 1 else n) 0 (parameter_table st),
        pst_saves = param_saves st, pst_load_failures = param_load_failures st,
        pst_requests_dropped = dropped\<rparr>)"

definition kfsw_param_sample_all :: "'w param_state \<Rightarrow> 'w param_state" where
  "kfsw_param_sample_all st =
     st\<lparr>param_memory := fold sample_entry (parameter_table st) (param_memory st)\<rparr>"

definition kfsw_param_get_info :: "string option \<Rightarrow> dest \<Rightarrow> 'w param_state \<Rightarrow> errno + kfsw_param_info" where
  "kfsw_param_get_info name info st =
     (if name = None \<or> info = Null then Inl EINVAL
      else if \<not> param_initialized st then Inl EACCES
      else (case kfsw_param_find_name name st of None \<Rightarrow> Inl ENOENT | Some e \<Rightarrow> Inr (en_info e)))"

definition kfsw_param_visit_tables ::
  "(kfsw_param_table_info \<Rightarrow> 'c \<Rightarrow> bool \<times> 'c) option \<Rightarrow> 'w param_state \<Rightarrow> 'c \<Rightarrow> rc \<times> 'c" where
  "kfsw_param_visit_tables visitor st context =
     (case visitor of
        None \<Rightarrow> (Some EINVAL, context)
      | Some f \<Rightarrow>
          if \<not> param_initialized st then (Some EACCES, context)
          else (None, visit_list f (parameter_tables st) context))"

definition kfsw_param_table_count :: "'w param_state \<Rightarrow> nat" where
  "kfsw_param_table_count st = length (parameter_tables st)"

definition kfsw_param_band_name :: "u8 \<Rightarrow> string" where
  "kfsw_param_band_name table =
     (if KFSW_PARAM_TABLE_CORE_FIRST \<le> table \<and> table \<le> KFSW_PARAM_TABLE_CORE_LAST then ''core''
      else if KFSW_PARAM_TABLE_SERVICE_FIRST \<le> table \<and> table \<le> KFSW_PARAM_TABLE_SERVICE_LAST then ''service''
      else if KFSW_PARAM_TABLE_MODULE_FIRST \<le> table \<and> table \<le> KFSW_PARAM_TABLE_MODULE_LAST then ''module''
      else ''invalid'')"

definition kfsw_param_mode_name :: "u32 \<Rightarrow> string" where
  "kfsw_param_mode_name flags =
     (let persistent = has_flag flags KFSW_PARAM_FLAG_PERSISTENT
      in if has_flag flags KFSW_PARAM_FLAG_READ_ONLY then if persistent then ''rp'' else ''r''
         else if has_flag flags KFSW_PARAM_FLAG_LIVE then if persistent then ''wp'' else ''w''
         else if persistent then ''wpb'' else ''wb'')"

fun kfsw_param_type_name :: "kfsw_param_type \<Rightarrow> string" where
  "kfsw_param_type_name KFSW_PARAM_U8 = ''u8''"
| "kfsw_param_type_name KFSW_PARAM_U16 = ''u16''"
| "kfsw_param_type_name KFSW_PARAM_U32 = ''u32''"
| "kfsw_param_type_name KFSW_PARAM_U64 = ''u64''"
| "kfsw_param_type_name KFSW_PARAM_I8 = ''i8''"
| "kfsw_param_type_name KFSW_PARAM_I16 = ''i16''"
| "kfsw_param_type_name KFSW_PARAM_I32 = ''i32''"
| "kfsw_param_type_name KFSW_PARAM_I64 = ''i64''"
| "kfsw_param_type_name KFSW_PARAM_X8 = ''x8''"
| "kfsw_param_type_name KFSW_PARAM_X16 = ''x16''"
| "kfsw_param_type_name KFSW_PARAM_X32 = ''x32''"
| "kfsw_param_type_name KFSW_PARAM_X64 = ''x64''"
| "kfsw_param_type_name KFSW_PARAM_FLOAT = ''float''"
| "kfsw_param_type_name KFSW_PARAM_DOUBLE = ''double''"
| "kfsw_param_type_name KFSW_PARAM_STRING = ''string''"
| "kfsw_param_type_name KFSW_PARAM_DATA = ''data''"
| "kfsw_param_type_name KFSW_PARAM_INVALID = ''invalid''"

section \<open>Specification vocabulary\<close>

text \<open>What registration establishes of an entry, and of the registry as a whole.\<close>

definition entry_registered :: "param_config \<Rightarrow> kfsw_param_table_info list \<Rightarrow> 'w kfsw_param_entry \<Rightarrow> bool" where
  "entry_registered cfg tables e \<longleftrightarrow>
     entry_formed cfg e \<and> pi_name (en_info e) \<noteq> [] \<and> length (pi_name (en_info e)) \<le> KFSW_PARAM_NAME_MAX
     \<and> pd_name (en_definition e) = Some (pi_name (en_info e))
     \<and> pi_id (en_info e) = KFSW_PARAM_ID (pi_table (en_info e)) (pi_offset (en_info e))
     \<and> pi_table (en_info e) \<in> ti_id ` set tables
     \<and> pi_read_only (en_info e) = has_flag (pi_flags (en_info e)) KFSW_PARAM_FLAG_READ_ONLY
     \<and> (pi_type (en_info e) = KFSW_PARAM_STRING \<or> pi_type (en_info e) = KFSW_PARAM_DATA \<longrightarrow>
          pd_apply (en_definition e) = None)"

definition entries_in :: "u8 \<Rightarrow> 'w kfsw_param_entry list \<Rightarrow> nat" where
  "entries_in table es = length (filter (\<lambda>e. pi_table (en_info e) = table) es)"

definition registry_ok :: "param_config \<Rightarrow> 'w param_state \<Rightarrow> bool" where
  "registry_ok cfg st \<longleftrightarrow>
     sorted_wrt (<) (map (\<lambda>e. pi_id (en_info e)) (parameter_table st))
     \<and> distinct (map (\<lambda>e. pi_name (en_info e)) (parameter_table st))
     \<and> length (parameter_table st) \<le> cfg_max_definitions cfg
     \<and> sorted_wrt (<) (map ti_id (parameter_tables st))
     \<and> length (parameter_tables st) \<le> cfg_max_tables cfg
     \<and> (\<forall>e \<in> set (parameter_table st). entry_registered cfg (parameter_tables st) e)
     \<and> (\<forall>t \<in> set (parameter_tables st). table_is_allocated (ti_id t)
          \<and> ti_count t = word_of_nat (entries_in (ti_id t) (parameter_table st)))"

text \<open>The definitions the sets declare, each with its set.\<close>

definition set_definitions ::
  "'w kfsw_param_definition_set option list \<Rightarrow> ('w kfsw_param_definition_set \<times> 'w kfsw_param_definition) set" where
  "set_definitions sets =
     {(s, d). \<exists>ds. Some s \<in> set sets \<and> pset_definitions s = Some ds \<and> d \<in> set (take (pset_count s) ds)}"

text \<open>
  A definition that describes its storage truthfully: the object it points to has the declared size, the
  defaults fill it, and its callbacks leave the storage of parameters alone.
\<close>

definition definition_sound :: "'w param_mem \<Rightarrow> 'w kfsw_param_definition \<Rightarrow> bool" where
  "definition_sound pm d \<longleftrightarrow>
     length (mem pm (pd_value d)) =
       (if pd_type d = KFSW_PARAM_STRING \<or> pd_type d = KFSW_PARAM_DATA then unat (pd_capacity d)
        else scalar_size (pd_type d))
     \<and> length (pd_default_value d) = 8
     \<and> (\<forall>data. pd_default_data d = Some data \<longrightarrow> unat (pd_capacity d) \<le> length data)
     \<and> (\<forall>t. pd_default_text d = Some t \<longrightarrow> c_string t)
     \<and> quiet_definition d"

definition sound_sets :: "'w param_mem \<Rightarrow> 'w kfsw_param_definition_set option list \<Rightarrow> bool" where
  "sound_sets pm sets \<longleftrightarrow>
     (\<forall>(s, d) \<in> set_definitions sets. definition_sound pm d)
     \<and> (\<forall>(s, d) \<in> set_definitions sets. \<forall>(s', d') \<in> set_definitions sets.
          pd_value d = pd_value d' \<longrightarrow> pd_name d = pd_name d')"

text \<open>The entry registration makes of a definition.\<close>

definition entry_of :: "'w kfsw_param_definition_set \<times> 'w kfsw_param_definition \<Rightarrow> 'w kfsw_param_entry" where
  "entry_of sd = param_new_entry (fst sd) (snd sd) (case pd_name (snd sd) of None \<Rightarrow> [] | Some n \<Rightarrow> n)"

abbreviation address :: "'w kfsw_param_entry \<Rightarrow> nat" where
  "address e \<equiv> pd_value (en_definition e)"

text \<open>Entries whose storage does not overlap and whose callbacks leave it alone.\<close>

definition separate :: "param_config \<Rightarrow> 'w kfsw_param_entry set \<Rightarrow> bool" where
  "separate cfg E \<longleftrightarrow> inj_on address E \<and> (\<forall>e \<in> E. entry_formed cfg e \<and> quiet_entry e)"

definition sized :: "'w kfsw_param_entry set \<Rightarrow> 'w param_mem \<Rightarrow> bool" where
  "sized E pm \<longleftrightarrow> (\<forall>e \<in> E. length (mem pm (address e)) = entry_capacity e)"

text \<open>A value that fits an entry, as far as its C types and its size say.\<close>

definition fits :: "param_config \<Rightarrow> 'w kfsw_param_entry \<Rightarrow> kfsw_param_value \<Rightarrow> bool" where
  "fits cfg e v \<longleftrightarrow>
     length (pv_scalar v) = 8 \<and> length (pv_data v) = cfg_string_max cfg \<and> pv_type v = pi_type (en_info e)
     \<and> (pv_type v = KFSW_PARAM_DATA \<longrightarrow> pv_size v = entry_capacity e)"

text \<open>A save that keeps the registry and the storage.\<close>

definition hooks_sound :: "'w persist_hooks option \<Rightarrow> bool" where
  "hooks_sound persistence \<longleftrightarrow>
     (\<forall>h st. persistence = Some h \<longrightarrow>
        parameter_table (snd (hook_persist_save h st)) = parameter_table st
        \<and> parameter_tables (snd (hook_persist_save h st)) = parameter_tables st
        \<and> param_initialized (snd (hook_persist_save h st)) = param_initialized st
        \<and> mem (param_memory (snd (hook_persist_save h st))) = mem (param_memory st))"

definition typed_value :: "param_config \<Rightarrow> kfsw_param_value \<Rightarrow> bool" where
  "typed_value cfg v \<longleftrightarrow> length (pv_scalar v) = 8 \<and> length (pv_data v) = cfg_string_max cfg"

text \<open>The invariant behind the storage theorem: nothing is registered, or all of it is separate and formed.\<close>

definition storage_ok :: "param_config \<Rightarrow> 'w param_state \<Rightarrow> bool" where
  "storage_ok cfg st \<longleftrightarrow>
     separate cfg (set (parameter_table st)) \<and> (\<forall>e \<in> set (parameter_table st). stored_formed e (param_memory st))
     \<and> (\<forall>e \<in> set (parameter_table st). fits cfg e (read_default cfg e))"

text \<open>Two states with the same memory and readiness.\<close>

definition same_frame :: "'w param_state \<Rightarrow> 'w param_state \<Rightarrow> bool" where
  "same_frame st st' \<longleftrightarrow> param_memory st' = param_memory st \<and> param_initialized st' = param_initialized st"

definition reach_inv ::
  "param_config \<Rightarrow> 'w kfsw_param_definition_set option list \<Rightarrow> 'w param_mem \<Rightarrow> 'w param_state \<Rightarrow> bool" where
  "reach_inv cfg sets pm0 st \<longleftrightarrow>
     registry_ok cfg st
     \<and> (\<not> param_initialized st \<longrightarrow> parameter_table st = [] \<and> mem (param_memory st) = mem pm0)
     \<and> (param_initialized st \<longrightarrow> sound_sets pm0 sets \<longrightarrow> storage_ok cfg st)"

definition param_boot :: "'w param_mem \<Rightarrow> 'w param_state" where
  "param_boot pm = \<lparr>parameter_table = [], parameter_tables = [], param_initialized = False,
     param_saves = 0, param_load_failures = 0, param_memory = pm\<rparr>"

text \<open>One set of two parameters, and memory for them.\<close>

definition demo_set :: "unit kfsw_param_definition_set" where
  "demo_set = \<lparr>pset_table = 25, pset_name = Some ''demo'', pset_description = None,
     pset_definitions = Some [demo_definition KFSW_PARAM_STRING 8 2,
       (demo_definition KFSW_PARAM_U16 0 1)\<lparr>pd_offset := 9, pd_name := Some ''level''\<rparr>],
     pset_count = 2\<rparr>"

definition demo_boot_mem :: "unit param_mem" where
  "demo_boot_mem = \<lparr>mem = (\<lambda>a. if a = 1 then [0, 0] else replicate 8 0), world = ()\<rparr>"

definition demo_state :: "unit param_state" where
  "demo_state = snd (kfsw_param_init demo_param_config (Some [Some demo_set]) 1 (param_boot demo_boot_mem))"

definition demo_level :: "u16 \<Rightarrow> kfsw_param_value" where
  "demo_level x = (zero_value demo_param_config KFSW_PARAM_U16 2)\<lparr>pv_scalar := put_u16 x (replicate 8 0)\<rparr>"

text \<open>The states a node goes through whose application registers \<open>sets\<close>.\<close>

inductive param_reachable ::
  "param_config \<Rightarrow> 'w kfsw_param_definition_set option list \<Rightarrow> 'w param_mem \<Rightarrow> 'w param_state \<Rightarrow> bool"
  for cfg sets pm0 where
  Boot: "param_reachable cfg sets pm0 (param_boot pm0)"
| Init: "param_reachable cfg sets pm0 st \<Longrightarrow>
    param_reachable cfg sets pm0 (snd (kfsw_param_init cfg (Some sets) n st))"
| Get: "param_reachable cfg sets pm0 st \<Longrightarrow>
    param_reachable cfg sets pm0 (snd (kfsw_param_get cfg name value st))"
| Get_By_Id: "param_reachable cfg sets pm0 st \<Longrightarrow>
    param_reachable cfg sets pm0 (snd (kfsw_param_get_by_id cfg ident value st))"
| Set: "param_reachable cfg sets pm0 st \<Longrightarrow> hooks_sound persistence \<Longrightarrow> typed_value cfg v \<Longrightarrow>
    param_reachable cfg sets pm0 (snd (kfsw_param_set persistence name (Some v) st))"
| Restore: "param_reachable cfg sets pm0 st \<Longrightarrow>
    param_reachable cfg sets pm0 (snd (kfsw_param_restore_defaults cfg st))"
| Accepted: "param_reachable cfg sets pm0 st \<Longrightarrow>
    param_reachable cfg sets pm0 (kfsw_param_value_accepted cfg ident st)"
| Sample: "param_reachable cfg sets pm0 st \<Longrightarrow>
    param_reachable cfg sets pm0 (kfsw_param_sample_all st)"

section \<open>Lemmas on the ordered registries\<close>

lemma insert_before_simps [simp]:
  "insert_before P x [] = [x]"
  "insert_before P x (y # ys) = (if P y then x # y # ys else y # insert_before P x ys)"
  by (auto simp: insert_before_def split: option.splits)

lemma set_insert_before: "set (insert_before P x xs) = insert x (set xs)"
  by (induction xs) auto

lemma length_insert_before: "length (insert_before P x xs) = Suc (length xs)"
  by (induction xs) auto

lemma insert_before_ordered:
  fixes key :: "'a \<Rightarrow> 'k::linorder"
  assumes "sorted_wrt (<) (map key xs)" and "key x \<notin> key ` set xs"
  shows "sorted_wrt (<) (map key (insert_before (\<lambda>e. key e > key x) x xs))"
  using assms
proof (induction xs)
  case (Cons y ys)
  then show ?case by (auto simp: set_insert_before)
qed simp

text \<open>The binary search, on the range it is given.\<close>

lemma ordered_nth_less:
  "sorted_wrt (<) (map key xs) \<Longrightarrow> i < j \<Longrightarrow> j < length xs \<Longrightarrow> key (xs ! i) < (key (xs ! j) :: 'k::linorder)"
  by (simp add: sorted_wrt_iff_nth_less)

lemma find_between_Some:
  assumes "sorted_wrt (<) (map (\<lambda>e. pi_id (en_info e)) table)" and "high \<le> length table"
  shows "find_between table ident low high = Some e \<longleftrightarrow>
    (\<exists>i. low \<le> i \<and> i < high \<and> table ! i = e \<and> pi_id (en_info e) = ident)"
  using assms
proof (induction table ident low high rule: find_between.induct)
  case (1 table ident low high)
  let ?key = "\<lambda>e. pi_id (en_info e)"
  show ?case
  proof (cases "low < high")
    case True
    define m where "m = low + (high - low) div 2"
    have m: "low \<le> m" "m < high" using True by (auto simp: m_def)
    have less: "i < j \<Longrightarrow> j < high \<Longrightarrow> ?key (table ! i) < ?key (table ! j)" for i j
      using ordered_nth_less [OF "1.prems"(1)] "1.prems"(2) by simp
    have ran: "i < high \<Longrightarrow> ?key (table ! i) = ident \<Longrightarrow>
        (?key (table ! m) = ident \<longrightarrow> i = m) \<and> (?key (table ! m) < ident \<longrightarrow> m < i)
        \<and> (ident < ?key (table ! m) \<longrightarrow> i < m)" for i
    proof -
      assume i: "i < high" "?key (table ! i) = ident"
      consider "i < m" | "i = m" | "m < i" by linarith
      then show ?thesis
      proof cases
        case 1
        with less [OF 1 m(2)] i show ?thesis by auto
      next
        case 2
        with i show ?thesis by simp
      next
        case 3
        with less [OF 3 i(1)] i show ?thesis by auto
      qed
    qed
    consider (eq) "?key (table ! m) = ident" | (lt) "?key (table ! m) < ident" | (gt) "ident < ?key (table ! m)"
      by fastforce
    then show ?thesis
    proof cases
      case eq
      then have "find_between table ident low high = Some (table ! m)"
        using True by (subst find_between.simps) (simp add: m_def [symmetric] Let_def)
      moreover have "(\<exists>i. low \<le> i \<and> i < high \<and> table ! i = e \<and> ?key e = ident) \<longleftrightarrow> table ! m = e"
      proof
        assume "\<exists>i. low \<le> i \<and> i < high \<and> table ! i = e \<and> ?key e = ident"
        then obtain i where "i < high" "table ! i = e" "?key e = ident" by blast
        with ran [of i] eq show "table ! m = e" by simp
      next
        assume "table ! m = e"
        with m eq show "\<exists>i. low \<le> i \<and> i < high \<and> table ! i = e \<and> ?key e = ident" by blast
      qed
      ultimately show ?thesis by simp
    next
      case lt
      then have "find_between table ident low high = find_between table ident (m + 1) high"
        using True by (subst find_between.simps) (auto simp: m_def [symmetric] Let_def)
      also have "\<dots> = Some e \<longleftrightarrow> (\<exists>i. m + 1 \<le> i \<and> i < high \<and> table ! i = e \<and> ?key e = ident)"
        using "1.IH"(1) [OF True m_def refl] lt "1.prems" by auto
      also have "\<dots> \<longleftrightarrow> (\<exists>i. low \<le> i \<and> i < high \<and> table ! i = e \<and> ?key e = ident)"
      proof (intro ex_cong1 iffI)
        fix i
        assume "low \<le> i \<and> i < high \<and> table ! i = e \<and> ?key e = ident"
        with ran [of i] lt show "m + 1 \<le> i \<and> i < high \<and> table ! i = e \<and> ?key e = ident" by simp
      qed (use m in simp)
      finally show ?thesis .
    next
      case gt
      then have "find_between table ident low high = find_between table ident low m"
        using True by (subst find_between.simps) (auto simp: m_def [symmetric] Let_def)
      also have "\<dots> = Some e \<longleftrightarrow> (\<exists>i. low \<le> i \<and> i < m \<and> table ! i = e \<and> ?key e = ident)"
        using "1.IH"(2) [OF True m_def refl] gt "1.prems" m by auto
      also have "\<dots> \<longleftrightarrow> (\<exists>i. low \<le> i \<and> i < high \<and> table ! i = e \<and> ?key e = ident)"
      proof (intro ex_cong1 iffI)
        fix i
        assume "low \<le> i \<and> i < high \<and> table ! i = e \<and> ?key e = ident"
        with ran [of i] gt show "low \<le> i \<and> i < m \<and> table ! i = e \<and> ?key e = ident" by simp
      qed (use m in simp)
      finally show ?thesis .
    qed
  next
    case False
    then show ?thesis by (subst find_between.simps) auto
  qed
qed

interpretation entry_registry: keyed_table "\<lambda>e :: 'w kfsw_param_entry. pi_id (en_info e)"
  "\<lambda>e. insert_before (\<lambda>f. pi_id (en_info f) > pi_id (en_info e)) e"
  "\<lambda>ident table. find_between table ident 0 (length table)"
proof unfold_locales
  fix xs :: "'w kfsw_param_entry list" and x and k
  assume s: "sorted_wrt (<) (map (\<lambda>e. pi_id (en_info e)) xs)"
  show "find_between xs k 0 (length xs) = Some x \<longleftrightarrow> x \<in> set xs \<and> pi_id (en_info x) = k"
    using find_between_Some [OF s order_refl] by (auto simp: in_set_conv_nth)
qed (simp_all add: insert_before_ordered [where key = "\<lambda>e. pi_id (en_info e)"] set_insert_before
    length_insert_before)

interpretation table_registry: keyed_table "ti_id :: kfsw_param_table_info \<Rightarrow> u8"
  "\<lambda>t. insert_before (\<lambda>f. ti_id f > ti_id t) t"
  "\<lambda>ident tables. map_option ((!) tables) (first_index (\<lambda>t. ti_id t = ident) tables)"
proof unfold_locales
  fix xs :: "kfsw_param_table_info list" and x and k
  assume s: "sorted_wrt (<) (map ti_id xs)"
  have u: "i = j" if "i < length xs" "j < length xs" "ti_id (xs ! i) = ti_id (xs ! j)" for i j
    using ordered_nth_less [OF s, of i j] ordered_nth_less [OF s, of j i] that
    by (metis less_irrefl linorder_neqE_nat)
  show "map_option ((!) xs) (first_index (\<lambda>t. ti_id t = k) xs) = Some x \<longleftrightarrow> x \<in> set xs \<and> ti_id x = k"
  proof (cases "first_index (\<lambda>t. ti_id t = k) xs")
    case None
    then have "\<forall>x \<in> set xs. ti_id x \<noteq> k" by (simp only: first_index_None)
    with None show ?thesis by auto
  next
    case (Some i)
    then show ?thesis using u by (auto simp: first_index_Some in_set_conv_nth)
  qed
qed (simp_all add: insert_before_ordered [where key = ti_id] set_insert_before length_insert_before)

section \<open>Lemmas on registration\<close>

lemma first_index_ordered_table:
  assumes "sorted_wrt (<) (map ti_id tables)" and "first_index (\<lambda>t. ti_id t = ident) tables = Some i"
  shows "i < length tables" "ti_id (tables ! i) = ident"
    "\<And>j. j < length tables \<Longrightarrow> ti_id (tables ! j) = ident \<Longrightarrow> j = i"
proof -
  from assms(2) show i: "i < length tables" "ti_id (tables ! i) = ident" by (auto simp: first_index_Some)
  fix j assume j: "j < length tables" "ti_id (tables ! j) = ident"
  show "j = i"
  proof (rule ccontr)
    assume "j \<noteq> i"
    then consider "j < i" | "i < j" by linarith
    then show False
    proof cases
      case 1
      from ordered_nth_less [OF assms(1) 1 i(1)] i j show False by simp
    next
      case 2
      from ordered_nth_less [OF assms(1) 2 j(1)] i j show False by simp
    qed
  qed
qed

lemma add_table_ok:
  assumes ok: "registry_ok cfg st" and add: "add_table cfg s st = (None, st')"
  shows "registry_ok cfg st'" "parameter_table st' = parameter_table st"
    "param_memory st' = param_memory st" "param_initialized st' = param_initialized st"
proof -
  obtain name where name: "pset_name s = Some name" and alloc: "table_is_allocated (pset_table s)"
    and new: "find_table (pset_table s) st = None" and room: "length (parameter_tables st) < cfg_max_tables cfg"
    and st': "st' = st\<lparr>parameter_tables := insert_before (\<lambda>t. ti_id t > pset_table s)
        \<lparr>ti_id = pset_table s, ti_name = name, ti_description = pset_description s, ti_count = 0\<rparr>
        (parameter_tables st)\<rparr>"
    using add by (auto simp: add_table_def split: option.splits if_splits)
  let ?t = "\<lparr>ti_id = pset_table s, ti_name = name, ti_description = pset_description s, ti_count = 0\<rparr>"
  have absent: "\<forall>t \<in> set (parameter_tables st). ti_id t \<noteq> pset_table s"
    using new by (simp add: find_table_def first_index_None)
  then have "entries_in (pset_table s) (parameter_table st) = 0"
    using ok unfolding registry_ok_def entries_in_def entry_registered_def by (auto simp: filter_empty_conv)
  moreover have "sorted_wrt (<) (map ti_id (insert_before (\<lambda>t. ti_id t > ti_id ?t) ?t (parameter_tables st)))"
    by (rule table_registry.put_ordered) (use ok absent in \<open>auto simp: registry_ok_def\<close>)
  ultimately show "registry_ok cfg st'"
    using ok alloc room unfolding registry_ok_def st'
    by (auto simp: set_insert_before length_insert_before entry_registered_def)
  show "parameter_table st' = parameter_table st" "param_memory st' = param_memory st"
    "param_initialized st' = param_initialized st" by (simp_all add: st')
qed

lemma new_entry_formed:
  assumes "declared_size cfg d = Inr n" and "pd_value d \<noteq> 0"
  shows "entry_formed cfg (param_new_entry s d name)" "entry_capacity (param_new_entry s d name) = n"
  using assms
  by (auto simp: declared_size_def entry_formed_def entry_capacity_def param_new_entry_def word_less_nat_alt
      simp flip: unat_gt_0 split: if_splits)

lemma entries_in_insert:
  "entries_in table (insert_before P e es) =
     entries_in table es + (if pi_table (en_info e) = table then 1 else 0)"
  by (induction es) (simp_all add: entries_in_def)

lemma distinct_names_insert:
  "distinct (map key (insert_before P e es)) \<longleftrightarrow> key e \<notin> key ` set es \<and> distinct (map key es)"
  by (induction es) (auto simp: set_insert_before)

text \<open>What a successful registration of one definition did.\<close>

lemma add_definition_shape:
  assumes "add_definition cfg s d st = (None, st')"
  obtains name n i where "pd_name d = Some name" "name \<noteq> []" "length name \<le> KFSW_PARAM_NAME_MAX"
    "pd_value d \<noteq> 0" "declared_size cfg d = Inr n" "length (parameter_table st) < cfg_max_definitions cfg"
    "find_table (pset_table s) st = Some i" "accepts_default cfg d (param_memory st)"
    "pd_type d = KFSW_PARAM_STRING \<or> pd_type d = KFSW_PARAM_DATA \<longrightarrow> pd_apply d = None"
    "\<forall>e \<in> set (parameter_table st).
       pi_id (en_info e) \<noteq> pi_id (en_info (param_new_entry s d name)) \<and> pi_name (en_info e) \<noteq> name"
    "st' = st\<lparr>parameter_table := insert_before (\<lambda>e. pi_id (en_info e) > pi_id (en_info (param_new_entry s d name)))
           (param_new_entry s d name) (parameter_table st),
         parameter_tables := (parameter_tables st)
           [i := (parameter_tables st ! i)\<lparr>ti_count := ti_count (parameter_tables st ! i) + 1\<rparr>]\<rparr>"
proof -
  have w: "pi_id (en_info (param_new_entry s d name)) = KFSW_PARAM_ID (pset_table s) (pd_offset d)" for name
    by (simp add: param_new_entry_def)
  show ?thesis
    using assms that
    by (auto simp: add_definition_def Let_def name_is_within_limit_def terminated_within_def w
        split: option.splits if_splits sum.splits)
qed

lemma add_definition_ok:
  assumes ok: "registry_ok cfg st" and add: "add_definition cfg s d st = (None, st')"
  shows "registry_ok cfg st'"
    "\<exists>name. pd_name d = Some name
       \<and> set (parameter_table st') = insert (param_new_entry s d name) (set (parameter_table st))"
    "param_memory st' = param_memory st" "param_initialized st' = param_initialized st"
    "accepts_default cfg d (param_memory st)"
proof -
  from add obtain name n i where name: "pd_name d = Some name" "name \<noteq> []" "length name \<le> KFSW_PARAM_NAME_MAX"
    and d: "pd_value d \<noteq> 0" "declared_size cfg d = Inr n"
      "pd_type d = KFSW_PARAM_STRING \<or> pd_type d = KFSW_PARAM_DATA \<longrightarrow> pd_apply d = None"
    and room: "length (parameter_table st) < cfg_max_definitions cfg"
    and i: "find_table (pset_table s) st = Some i" and acc: "accepts_default cfg d (param_memory st)"
    and new: "\<forall>e \<in> set (parameter_table st).
       pi_id (en_info e) \<noteq> pi_id (en_info (param_new_entry s d name)) \<and> pi_name (en_info e) \<noteq> name"
    and st': "st' = st\<lparr>parameter_table := insert_before (\<lambda>e. pi_id (en_info e) > pi_id (en_info (param_new_entry s d name)))
           (param_new_entry s d name) (parameter_table st),
         parameter_tables := (parameter_tables st)
           [i := (parameter_tables st ! i)\<lparr>ti_count := ti_count (parameter_tables st ! i) + 1\<rparr>]\<rparr>"
    by (rule add_definition_shape)
  let ?e = "param_new_entry s d name"
  have tables: "sorted_wrt (<) (map ti_id (parameter_tables st))" using ok by (simp add: registry_ok_def)
  note at = first_index_ordered_table [OF tables i [unfolded find_table_def]]
  have ids: "map ti_id (parameter_tables st') = map ti_id (parameter_tables st)"
    using at(1) by (simp add: st' map_update list_update_same_conv)
  then have idset: "ti_id ` set (parameter_tables st') = ti_id ` set (parameter_tables st)"
    by (metis image_set)
  have e: "pi_table (en_info ?e) = pset_table s" "pi_name (en_info ?e) = name" by (simp_all add: param_new_entry_def)
  have "pset_table s \<in> ti_id ` set (parameter_tables st)" using at(1,2) nth_mem by force
  then have reg: "entry_registered cfg (parameter_tables st') ?e"
    using new_entry_formed [OF d(2,1)] name d(3) unfolding entry_registered_def idset
    by (simp add: param_new_entry_def)
  have old: "entry_registered cfg (parameter_tables st') f" if "f \<in> set (parameter_table st)" for f
    using ok that unfolding registry_ok_def entry_registered_def idset by blast
  have counts: "table_is_allocated (ti_id t) \<and> ti_count t = word_of_nat (entries_in (ti_id t) (parameter_table st'))"
    if t: "t \<in> set (parameter_tables st')" for t
  proof -
    from t obtain j where j: "j < length (parameter_tables st)" "t = parameter_tables st' ! j"
      by (auto simp: st' in_set_conv_nth)
    let ?u = "parameter_tables st ! j"
    have u: "table_is_allocated (ti_id ?u) \<and> ti_count ?u = word_of_nat (entries_in (ti_id ?u) (parameter_table st))"
      using ok j(1) by (simp add: registry_ok_def)
    show ?thesis
    proof (cases "j = i")
      case True
      then have "t = ?u\<lparr>ti_count := ti_count ?u + 1\<rparr>" using j(2) at(1) by (simp add: st')
      with u at(2) True show ?thesis by (simp add: st' entries_in_insert e)
    next
      case False
      with j(2) have "t = ?u" by (simp add: st')
      moreover have "ti_id ?u \<noteq> pset_table s" using at(3) [OF j(1)] False by blast
      ultimately show ?thesis using u by (simp add: st' entries_in_insert e)
    qed
  qed
  have sorted: "sorted_wrt (<) (map (\<lambda>e. pi_id (en_info e)) (parameter_table st'))"
    unfolding st' by simp (rule entry_registry.put_ordered, use ok new in \<open>auto simp: registry_ok_def\<close>)
  have names: "distinct (map (\<lambda>e. pi_name (en_info e)) (parameter_table st'))"
    using ok new e by (auto simp: st' distinct_names_insert registry_ok_def)
  show "registry_ok cfg st'"
    unfolding registry_ok_def ids
  proof (intro conjI ballI)
    show "length (parameter_table st') \<le> cfg_max_definitions cfg"
      using room by (simp add: st' length_insert_before)
    show "length (parameter_tables st') \<le> cfg_max_tables cfg"
      using ok by (simp add: st' registry_ok_def)
    show "entry_registered cfg (parameter_tables st') f" if "f \<in> set (parameter_table st')" for f
      using that reg old by (auto simp: st' set_insert_before)
  qed (use sorted names tables counts in blast)+
  show "\<exists>name. pd_name d = Some name
       \<and> set (parameter_table st') = insert (param_new_entry s d name) (set (parameter_table st))"
    using name by (simp add: st' set_insert_before)
qed (use add in \<open>auto elim!: add_definition_shape\<close>)

lemma add_definitions_ok:
  assumes "registry_ok cfg st" and "add_definitions cfg s ds st = (None, st')"
  shows "registry_ok cfg st' \<and> param_memory st' = param_memory st \<and> param_initialized st' = param_initialized st
    \<and> (\<forall>d \<in> set ds. pd_name d \<noteq> None)
    \<and> set (parameter_table st') = set (parameter_table st) \<union> (\<lambda>d. entry_of (s, d)) ` set ds"
  using assms
proof (induction ds arbitrary: st)
  case (Cons d ds)
  then obtain st1 where 1: "add_definition cfg s d st = (None, st1)" "add_definitions cfg s ds st1 = (None, st')"
    by (auto split: prod.splits option.splits)
  note a = add_definition_ok [OF Cons.prems(1) 1(1)]
  then obtain name where n: "pd_name d = Some name"
    "set (parameter_table st1) = insert (param_new_entry s d name) (set (parameter_table st))" by blast
  from Cons.IH [OF a(1) 1(2)] a(3,4) n show ?case by (simp add: entry_of_def)
qed simp

lemma add_sets_ok:
  assumes "registry_ok cfg st" and "add_sets cfg sets st = (None, st')"
  shows "registry_ok cfg st' \<and> param_memory st' = param_memory st \<and> param_initialized st' = param_initialized st
    \<and> (\<forall>(s, d) \<in> set_definitions sets. pd_name d \<noteq> None)
    \<and> set (parameter_table st') = set (parameter_table st) \<union> entry_of ` set_definitions sets"
  using assms
proof (induction cfg sets st rule: add_sets.induct)
  case (1 cfg st)
  then show ?case by (simp add: set_definitions_def)
next
  case (3 cfg s sets st)
  from "3.prems"(2) obtain ds st1 st2 where ds: "pset_definitions s = Some ds"
    and t: "add_table cfg s st = (None, st1)"
    and d: "add_definitions cfg s (take (pset_count s) ds) st1 = (None, st2)"
    and r: "add_sets cfg sets st2 = (None, st')" and c: "pset_count s \<noteq> 0"
    by (auto split: option.splits prod.splits if_splits)
  note a = add_table_ok [OF "3.prems"(1) t]
  note b = add_definitions_ok [OF a(1) d]
  have sd: "set_definitions (Some s # sets) = (\<lambda>d. (s, d)) ` set (take (pset_count s) ds) \<union> set_definitions sets"
    using ds by (auto simp: set_definitions_def)
  have ih: "registry_ok cfg st' \<and> param_memory st' = param_memory st2 \<and> param_initialized st' = param_initialized st2
    \<and> (\<forall>(s, d) \<in> set_definitions sets. pd_name d \<noteq> None)
    \<and> set (parameter_table st') = set (parameter_table st2) \<union> entry_of ` set_definitions sets"
    using "3.IH" [OF ds c t [symmetric] _ d [symmetric]] b r by simp
  from b have names: "\<forall>(s', d) \<in> (\<lambda>d. (s, d)) ` set (take (pset_count s) ds). pd_name d \<noteq> None" by blast
  from ih a b names show ?case unfolding sd by (simp add: image_image image_Un Un_assoc ball_Un)
qed simp

lemma write_default_unready: "\<exists>pm'. kfsw_param_write_default cfg False e pm = (None, pm')"
  by (simp add: kfsw_param_write_default_def kfsw_param_wire_apply_def kfsw_param_write_entry_def Let_def
      split: option.splits)

lemma write_defaults_succeed: "\<exists>pm'. write_defaults cfg es pm = (None, pm')"
proof (induction es arbitrary: pm)
  case (Cons e es)
  obtain pm1 where "kfsw_param_write_default cfg False e pm = (None, pm1)"
    using write_default_unready by blast
  with Cons.IH [of pm1] show ?case by simp
qed simp

lemma registry_ok_empty: "registry_ok cfg (st\<lparr>parameter_table := [], parameter_tables := []\<rparr>)"
  by (simp add: registry_ok_def)

text \<open>What a successful initialisation did, from a node that was not initialised.\<close>

lemma init_ok:
  assumes init: "kfsw_param_init cfg (Some sets) n st = (None, st')" and fresh: "\<not> param_initialized st"
  shows "registry_ok cfg st'" "param_initialized st'" "parameter_table st' \<noteq> []"
    "set (parameter_table st') = entry_of ` set_definitions (take n sets)"
    "\<forall>(s, d) \<in> set_definitions (take n sets). pd_name d \<noteq> None"
    "write_defaults cfg (parameter_table st') (param_memory st) = (None, param_memory st')"
proof -
  let ?st0 = "st\<lparr>parameter_table := [], parameter_tables := []\<rparr>"
  from init fresh obtain st1 where a: "add_sets cfg (take n sets) ?st0 = (None, st1)"
    and ne: "parameter_table st1 \<noteq> []"
    and w: "(case write_defaults cfg (parameter_table st1) (param_memory st1) of
        (result, pm) \<Rightarrow> (result, st1\<lparr>param_memory := pm, param_initialized := (result = None)\<rparr>)) = (None, st')"
    by (auto simp: kfsw_param_init_def split: option.splits prod.splits if_splits)
  note b = add_sets_ok [OF registry_ok_empty a]
  obtain pm where pm: "write_defaults cfg (parameter_table st1) (param_memory st1) = (None, pm)"
    using write_defaults_succeed by blast
  with w have st': "st' = st1\<lparr>param_memory := pm, param_initialized := True\<rparr>" by simp
  from b show "registry_ok cfg st'" by (simp add: st' registry_ok_def)
  from b ne pm show "param_initialized st'" "parameter_table st' \<noteq> []"
    "set (parameter_table st') = entry_of ` set_definitions (take n sets)"
    "\<forall>(s, d) \<in> set_definitions (take n sets). pd_name d \<noteq> None"
    "write_defaults cfg (parameter_table st') (param_memory st) = (None, param_memory st')"
    by (simp_all add: st')
qed

section \<open>Lemmas on lookup\<close>

lemma find_id_Some:
  "registry_ok cfg st \<Longrightarrow> kfsw_param_find_id ident st = Some e \<longleftrightarrow>
     e \<in> set (parameter_table st) \<and> pi_id (en_info e) = ident"
  unfolding kfsw_param_find_id_def registry_ok_def using entry_registry.get_Some by blast

lemma find_distinct:
  "distinct (map key xs) \<Longrightarrow> find (\<lambda>x. key x = k) xs = Some x \<longleftrightarrow> x \<in> set xs \<and> key x = k"
  by (induction xs) auto

lemma find_name_Some:
  assumes "registry_ok cfg st"
  shows "kfsw_param_find_name (Some n) st = Some e \<longleftrightarrow>
    e \<in> set (parameter_table st) \<and> pi_name (en_info e) = n"
  using assms find_distinct [of "\<lambda>e. pi_name (en_info e)" "parameter_table st" n e]
  by (simp add: kfsw_param_find_name_def registry_ok_def)

lemma ordered_distinct: "sorted_wrt (<) (map key xs) \<Longrightarrow> distinct (map key (xs :: 'a list) :: 'k::linorder list)"
  by (simp add: strict_sorted_iff)

text \<open>The binary search gives what a linear search gives.\<close>

lemma find_id_linear:
  assumes "registry_ok cfg st"
  shows "kfsw_param_find_id ident st = find (\<lambda>e. pi_id (en_info e) = ident) (parameter_table st)"
proof -
  have "distinct (map (\<lambda>e. pi_id (en_info e)) (parameter_table st))"
    using assms ordered_distinct unfolding registry_ok_def by blast
  note l = find_distinct [OF this, of ident]
  show ?thesis
  proof (rule option.expand)
    show "(kfsw_param_find_id ident st = None) =
        (find (\<lambda>e. pi_id (en_info e) = ident) (parameter_table st) = None)"
      using l find_id_Some [OF assms, of ident] by (metis not_None_eq)
    show "the (kfsw_param_find_id ident st) = the (find (\<lambda>e. pi_id (en_info e) = ident) (parameter_table st))"
      if "kfsw_param_find_id ident st \<noteq> None"
      using l find_id_Some [OF assms, of ident] that by (metis not_None_eq)
  qed
qed

section \<open>Lemmas on storage\<close>

lemma written_bytes_formed:
  assumes e: "entry_formed cfg e" and v: "fits cfg e v" and s: "length s = entry_capacity e"
  shows "length (written_bytes e v s) = entry_capacity e"
    "pi_type (en_info e) = KFSW_PARAM_STRING \<Longrightarrow> 0 \<in> set (written_bytes e v s)"
proof -
  have n0: "0 < entry_capacity e" using e by (simp add: entry_formed_def)
  consider (string) "pi_type (en_info e) = KFSW_PARAM_STRING" | (data) "pi_type (en_info e) = KFSW_PARAM_DATA"
    | (scalar) "pi_type (en_info e) \<noteq> KFSW_PARAM_STRING" "pi_type (en_info e) \<noteq> KFSW_PARAM_DATA" by auto
  then have "length (written_bytes e v s) = entry_capacity e
    \<and> (pi_type (en_info e) = KFSW_PARAM_STRING \<longrightarrow> 0 \<in> set (written_bytes e v s))"
  proof cases
    case string
    then have "entry_capacity e = unat (pi_array_size (en_info e))" by (simp add: entry_capacity_def)
    with string v n0 length_copy_text(1) [OF n0 s] show ?thesis
      by (simp add: written_bytes_def fits_def) (simp add: copy_text_def Let_def)
  next
    case data
    with e v s show ?thesis by (simp add: written_bytes_def fits_def entry_formed_def Let_def)
  next
    case scalar
    have "scalar_size t \<le> 8" for t by (cases t) simp_all
    with scalar v s show ?thesis by (simp add: written_bytes_def fits_def entry_capacity_def Let_def)
  qed
  then show "length (written_bytes e v s) = entry_capacity e"
    "pi_type (en_info e) = KFSW_PARAM_STRING \<Longrightarrow> 0 \<in> set (written_bytes e v s)" by simp_all
qed

text \<open>A refused write leaves the storage of the parameters alone.\<close>

lemma apply_refused:
  assumes "quiet_entry e" and "kfsw_param_wire_apply initialized e v pm = (Some err, pm')"
  shows "mem pm' = mem pm"
  using assms(2) quiet_mem(2) [OF assms(1)]
  by (auto simp: kfsw_param_wire_apply_def kfsw_param_write_entry_def Let_def
      split: if_splits option.splits prod.splits)

lemma apply_keeps:
  assumes sep: "separate cfg E" and e: "e \<in> E" and v: "fits cfg e v" and s: "sized E pm"
    and a: "kfsw_param_wire_apply initialized e v pm = (result, pm')"
  shows "sized E pm'" "\<And>f. f \<in> E \<Longrightarrow> f \<noteq> e \<Longrightarrow> mem pm' (address f) = mem pm (address f)"
    "result = None \<Longrightarrow> stored_formed e pm'"
    "\<And>f. f \<in> E \<Longrightarrow> stored_formed f pm \<Longrightarrow> stored_formed f pm'"
proof -
  have q: "quiet_entry e" and fe: "entry_formed cfg e" and inj: "inj_on address E"
    using sep e by (simp_all add: separate_def)
  have m: "mem pm' = (if result = None then (mem pm)(address e := written_bytes e v (mem pm (address e)))
      else mem pm)"
    using apply_mem [OF q] apply_refused [OF q] a v by (cases result) (auto simp: fits_def)
  have ne: "address f \<noteq> address e" if "f \<in> E" "f \<noteq> e" for f
    using inj e that by (auto simp: inj_on_def)
  note w = written_bytes_formed [OF fe v, of "mem pm (address e)"]
  have le: "length (mem pm (address e)) = entry_capacity e" using s e by (simp add: sized_def)
  show "sized E pm'"
    unfolding sized_def
  proof
    fix f assume f: "f \<in> E"
    show "length (mem pm' (address f)) = entry_capacity f"
      using m w(1) [OF le] s f ne [OF f] by (cases "f = e") (simp_all add: sized_def)
  qed
  show others: "mem pm' (address f) = mem pm (address f)" if "f \<in> E" "f \<noteq> e" for f
    using m ne [OF that] by simp
  show here: "stored_formed e pm'" if "result = None"
    using m w le that by (simp add: stored_formed_def Let_def)
  show "stored_formed f pm'" if "f \<in> E" "stored_formed f pm" for f
  proof (cases "f = e \<and> result = None")
    case True
    with here show ?thesis by simp
  next
    case False
    then have "mem pm' (address f) = mem pm (address f)"
      using others [OF that(1)] m by (cases "f = e") auto
    with that show ?thesis by (simp add: stored_formed_def)
  qed
qed

text \<open>Every default fits its entry.\<close>

lemma read_default_fits:
  assumes "entry_formed cfg e" and "definition_sound pm (en_definition e)"
    and "pi_type (en_info e) = KFSW_PARAM_DATA \<Longrightarrow> pi_array_size (en_info e) = pd_capacity (en_definition e)"
  shows "fits cfg e (read_default cfg e)"
proof -
  have n0: "0 < entry_capacity e" using assms by (simp add: entry_formed_def)
  consider (string) "pi_type (en_info e) = KFSW_PARAM_STRING" | (data) "pi_type (en_info e) = KFSW_PARAM_DATA"
    | (scalar) "pi_type (en_info e) \<noteq> KFSW_PARAM_STRING" "pi_type (en_info e) \<noteq> KFSW_PARAM_DATA" by auto
  then show ?thesis
  proof cases
    case string
    with assms n0 have "0 < cfg_string_max cfg" by (auto simp: entry_formed_def)
    with string length_copy_text(1) [of "cfg_string_max cfg" "replicate (cfg_string_max cfg) 0"] show ?thesis
      by (simp add: fits_def read_default_def zero_value_def Let_def split: prod.splits) (metis snd_conv)
  next
    case data
    then have "entry_capacity e = unat (pd_capacity (en_definition e))" "entry_capacity e \<le> cfg_string_max cfg"
      using assms by (simp_all add: entry_capacity_def entry_formed_def)
    with data assms(2) show ?thesis
      by (auto simp: fits_def read_default_def zero_value_def Let_def definition_sound_def split: option.splits)
  next
    case scalar
    with assms(2) show ?thesis
      by (simp add: fits_def read_default_def zero_value_def Let_def definition_sound_def)
  qed
qed

lemma write_defaults_formed:
  assumes sep: "separate cfg E" and es: "set es \<subseteq> E"
    and fit: "\<forall>e \<in> E. fits cfg e (read_default cfg e)"
    and w: "write_defaults cfg es pm = (result, pm')" and s: "sized E pm"
  shows "sized E pm' \<and> (\<forall>e \<in> E. e \<in> set es \<or> stored_formed e pm \<longrightarrow> stored_formed e pm')"
  using es w s
proof (induction es arbitrary: pm)
  case (Cons e es)
  obtain pm1 where 1: "kfsw_param_write_default cfg False e pm = (None, pm1)"
    using write_default_unready by blast
  then have a: "kfsw_param_wire_apply False e (read_default cfg e) pm = (None, pm1)"
    by (simp add: kfsw_param_write_default_def Let_def)
  have eE: "e \<in> E" using Cons.prems(1) by simp
  note k = apply_keeps [OF sep eE fit [rule_format, OF eE] Cons.prems(3) a]
  from 1 Cons.prems(2) have "write_defaults cfg es pm1 = (result, pm')" by simp
  with Cons.IH [OF _ this k(1)] Cons.prems(1) k(3,4) show ?case by auto
qed simp

lemma storage_ok_mem:
  assumes "storage_ok cfg st" and "parameter_table st' = parameter_table st"
    and "mem (param_memory st') = mem (param_memory st)"
  shows "storage_ok cfg st'"
  using assms by (simp add: storage_ok_def stored_formed_def)

lemma sized_formed: "\<forall>e \<in> E. stored_formed e pm \<Longrightarrow> sized E pm"
  by (simp add: sized_def stored_formed_def Let_def)

lemma storage_ok_apply:
  assumes ok: "storage_ok cfg st" and e: "e \<in> set (parameter_table st)" and v: "fits cfg e v"
    and a: "kfsw_param_wire_apply initialized e v (param_memory st) = (result, pm')"
  shows "storage_ok cfg (st\<lparr>param_memory := pm'\<rparr>)"
proof -
  have sep: "separate cfg (set (parameter_table st))"
    and f: "\<forall>e \<in> set (parameter_table st). stored_formed e (param_memory st)"
    using ok by (simp_all add: storage_ok_def)
  from apply_keeps(4) [OF sep e v sized_formed [OF f] a] ok show ?thesis by (simp add: storage_ok_def)
qed

lemma read_entry_quiet:
  assumes "quiet_entry e" and "read_entry cfg (Some e) value sample pm = (r, pm')"
  shows "mem pm' = mem pm"
proof -
  have "pm' = pm \<or> pm' = sample_entry e pm"
    using assms(2) by (auto simp: read_entry_def Let_def split: if_splits prod.splits)
  with quiet_mem(1) [OF assms(1)] show ?thesis by metis
qed

lemma notify_quiet: "quiet_entry e \<Longrightarrow> mem (notify_changed e v pm) = mem pm"
  using quiet_mem(3-5) [of e] by (auto simp: notify_changed_def Let_def split: option.splits)

lemma sample_fold_quiet:
  "\<forall>e \<in> set es. quiet_entry e \<Longrightarrow> mem (fold sample_entry es pm) = mem pm"
  by (induction es arbitrary: pm) (simp_all add: quiet_mem(1))

lemma apply_defaults_ok:
  assumes "storage_ok cfg st" and "set es \<subseteq> set (parameter_table st)"
    and "apply_defaults cfg initialized es (param_memory st) = (result, pm')"
  shows "storage_ok cfg (st\<lparr>param_memory := pm'\<rparr>)"
  using assms
proof (induction es arbitrary: st)
  case (Cons e es)
  show ?case
  proof (cases "is_persistent e")
    case True
    obtain r pm1 where a: "kfsw_param_wire_apply initialized e (read_default cfg e) (param_memory st) = (r, pm1)"
      by fastforce
    have fe: "fits cfg e (read_default cfg e)" "e \<in> set (parameter_table st)"
      using Cons.prems(1,2) by (auto simp: storage_ok_def)
    note ok1 = storage_ok_apply [OF Cons.prems(1) fe(2,1) a]
    show ?thesis
    proof (cases r)
      case None
      with a True Cons.prems(3) have "apply_defaults cfg initialized es pm1 = (result, pm')" by simp
      with Cons.IH [OF ok1] Cons.prems(2) show ?thesis by simp
    next
      case (Some err)
      with a True Cons.prems(3) ok1 show ?thesis by simp
    qed
  next
    case False
    with Cons show ?thesis by simp
  qed
qed auto

lemma entry_of_definition [simp]: "en_definition (entry_of sd) = snd sd"
  by (simp add: entry_of_def param_new_entry_def)

lemma set_definitions_take: "set_definitions (take n sets) \<subseteq> set_definitions sets"
  by (auto simp: set_definitions_def dest: in_set_takeD)

lemma names_unique:
  assumes "registry_ok cfg st" and "e \<in> set (parameter_table st)" and "f \<in> set (parameter_table st)"
    and "pi_name (en_info e) = pi_name (en_info f)"
  shows "e = f"
  using find_name_Some [OF assms(1)] assms(2-4) by (metis option.inject)

lemma init_storage_ok:
  assumes init: "kfsw_param_init cfg (Some sets) n st = (None, st')" and fresh: "\<not> param_initialized st"
    and sound: "sound_sets pm0 sets" and m: "mem (param_memory st) = mem pm0"
  shows "storage_ok cfg st'"
proof -
  note ok = init_ok [OF init fresh]
  let ?E = "set (parameter_table st')"
  have from_sets: "\<exists>s. (s, en_definition e) \<in> set_definitions sets \<and> e = entry_of (s, en_definition e)
      \<and> definition_sound pm0 (en_definition e)" if "e \<in> ?E" for e
  proof -
    from that ok(4) obtain s d where sd: "(s, d) \<in> set_definitions sets" "e = entry_of (s, d)"
      using set_definitions_take [of n sets] by fastforce
    then show ?thesis using sound by (auto simp: sound_sets_def)
  qed
  have reg: "entry_registered cfg (parameter_tables st') e" if "e \<in> ?E" for e
    using ok(1) that by (simp add: registry_ok_def)
  have "inj_on address ?E"
  proof (rule inj_onI)
    fix e f assume e: "e \<in> ?E" and f: "f \<in> ?E" and eq: "address e = address f"
    have "pd_name (en_definition e) = pd_name (en_definition f)"
      using from_sets [OF e] from_sets [OF f] eq sound by (fastforce simp: sound_sets_def)
    with reg [OF e] reg [OF f] have "pi_name (en_info e) = pi_name (en_info f)"
      by (simp add: entry_registered_def)
    with names_unique [OF ok(1) e f] show "e = f" .
  qed
  then have sep: "separate cfg ?E"
    using reg from_sets by (fastforce simp: separate_def entry_registered_def quiet_entry_def definition_sound_def)
  have info: "pi_type (en_info e) = pd_type (en_definition e) \<and>
      (pd_type (en_definition e) = KFSW_PARAM_STRING \<or> pd_type (en_definition e) = KFSW_PARAM_DATA \<longrightarrow>
         pi_array_size (en_info e) = pd_capacity (en_definition e))" if "e \<in> ?E" for e
  proof -
    from from_sets [OF that] obtain s where "e = entry_of (s, en_definition e)" by blast
    moreover have "pi_type (en_info (entry_of (s, d))) = pd_type d \<and>
        (pd_type d = KFSW_PARAM_STRING \<or> pd_type d = KFSW_PARAM_DATA \<longrightarrow>
           pi_array_size (en_info (entry_of (s, d))) = pd_capacity d)" for d
      by (simp add: entry_of_def param_new_entry_def)
    ultimately show ?thesis by metis
  qed
  have fit: "\<forall>e \<in> ?E. fits cfg e (read_default cfg e)"
  proof
    fix e assume e: "e \<in> ?E"
    show "fits cfg e (read_default cfg e)"
      by (rule read_default_fits [where pm = pm0])
        (use e reg [OF e] from_sets [OF e] info [OF e] in \<open>auto simp: entry_registered_def\<close>)
  qed
  have "sized ?E (param_memory st)"
    unfolding sized_def
  proof
    fix e assume e: "e \<in> ?E"
    show "length (mem (param_memory st) (address e)) = entry_capacity e"
      using from_sets [OF e] info [OF e] m by (auto simp: definition_sound_def entry_capacity_def)
  qed
  from write_defaults_formed [OF sep order_refl fit ok(6) this] sep fit show ?thesis
    by (simp add: storage_ok_def)
qed

section \<open>Lemmas on reachable states\<close>

lemma registry_ok_cong:
  "registry_ok cfg st \<Longrightarrow> parameter_table st' = parameter_table st \<Longrightarrow> parameter_tables st' = parameter_tables st
     \<Longrightarrow> registry_ok cfg st'"
  by (simp add: registry_ok_def)

lemma find_name_mem: "kfsw_param_find_name name st = Some e \<Longrightarrow> e \<in> set (parameter_table st)"
  by (auto simp: kfsw_param_find_name_def find_Some_iff split: option.splits)

lemma add_table_frame: "same_frame st (snd (add_table cfg s st))"
  by (simp add: same_frame_def add_table_def split: option.splits)

lemma add_definition_frame: "same_frame st (snd (add_definition cfg s d st))"
  by (simp add: same_frame_def add_definition_def Let_def split: option.splits sum.splits)

lemma same_frame_trans: "same_frame a b \<Longrightarrow> same_frame b c \<Longrightarrow> same_frame a c"
  by (simp add: same_frame_def)

lemma add_definitions_frame: "same_frame st (snd (add_definitions cfg s ds st))"
proof (induction ds arbitrary: st)
  case (Cons d ds)
  obtain r st1 where 1: "add_definition cfg s d st = (r, st1)" by fastforce
  then have "same_frame st st1" using add_definition_frame [of st cfg s d] by simp
  with 1 Cons.IH [of st1] show ?case by (cases r) (simp_all, metis same_frame_trans)
qed (simp add: same_frame_def)

lemma add_sets_frame: "same_frame st (snd (add_sets cfg sets st))"
proof (induction cfg sets st rule: add_sets.induct)
  case (3 cfg s sets st)
  obtain r st1 where 1: "add_table cfg s st = (r, st1)" by fastforce
  then have f1: "same_frame st st1" using add_table_frame [of st cfg s] by simp
  show ?case
  proof (cases "pset_definitions s")
    case (Some ds)
    obtain r2 st2 where 2: "add_definitions cfg s (take (pset_count s) ds) st1 = (r2, st2)" by fastforce
    then have f2: "same_frame st1 st2" using add_definitions_frame [of st1 cfg s "take (pset_count s) ds"] by simp
    have f3: "r = None \<Longrightarrow> r2 = None \<Longrightarrow> pset_count s \<noteq> 0 \<Longrightarrow> same_frame st2 (snd (add_sets cfg sets st2))"
      using "3.IH" [OF Some _ 1 [symmetric] _ 2 [symmetric]] by blast
    show ?thesis
      using Some 1 2 f1 f2 f3 same_frame_trans [OF f1 f2] same_frame_trans [of st st2]
      by (cases r; cases r2) (auto simp: same_frame_def)
  qed (simp add: same_frame_def)
qed (simp_all add: same_frame_def)

lemma init_cases:
  assumes init: "kfsw_param_init cfg (Some sets) n st = (result, st')"
  shows "st' = st \<or> \<not> param_initialized st \<and>
    (result = None \<or> \<not> param_initialized st' \<and> parameter_table st' = [] \<and> parameter_tables st' = []
        \<and> param_memory st' = param_memory st)"
proof (cases "n = 0 \<or> param_initialized st")
  case True
  with init show ?thesis by (auto simp: kfsw_param_init_def split: if_splits)
next
  case False
  let ?st0 = "st\<lparr>parameter_table := [], parameter_tables := []\<rparr>"
  obtain r st1 where 1: "add_sets cfg (take n sets) ?st0 = (r, st1)" by fastforce
  then have f: "param_memory st1 = param_memory st" "param_initialized st1 = param_initialized st"
    using add_sets_frame [of ?st0 cfg "take n sets"] by (simp_all add: same_frame_def)
  obtain pm where pm: "write_defaults cfg (parameter_table st1) (param_memory st1) = (None, pm)"
    using write_defaults_succeed by blast
  show ?thesis
    using False init 1 f pm by (auto simp: kfsw_param_init_def split: option.splits if_splits)
qed

lemma storage_quiet:
  "storage_ok cfg st \<Longrightarrow> e \<in> set (parameter_table st) \<Longrightarrow> quiet_entry e"
  by (simp add: storage_ok_def separate_def)

text \<open>The change made by \<open>kfsw_param_set\<close>: the part under the lock, then a save that keeps storage.\<close>

lemma set_locked_frame:
  "parameter_table (snd (set_locked name v st)) = parameter_table st
   \<and> parameter_tables (snd (set_locked name v st)) = parameter_tables st
   \<and> param_initialized (snd (set_locked name v st)) = param_initialized st"
  by (simp add: set_locked_def split: option.splits prod.splits)

lemma set_locked_ok:
  assumes "storage_ok cfg st" and "typed_value cfg v"
  shows "storage_ok cfg (snd (set_locked name v st))"
proof (cases "kfsw_param_find_name name st")
  case (Some e)
  then have e: "e \<in> set (parameter_table st)" by (rule find_name_mem)
  obtain r pm where a: "kfsw_param_wire_apply (param_initialized st) e v (param_memory st) = (r, pm)" by fastforce
  have "storage_ok cfg (st\<lparr>param_memory := pm\<rparr>)"
    if "kfsw_param_validate_entry (Some e) (Some v) (param_memory st) = None"
    by (rule storage_ok_apply [OF assms(1) e _ a])
      (use validate_shape [OF that] assms(2) in \<open>auto simp: fits_def typed_value_def\<close>)
  with assms(1) a Some show ?thesis by (auto simp: set_locked_def split: option.splits)
qed (use assms(1) in \<open>simp add: set_locked_def\<close>)

lemma set_saved:
  assumes h: "hooks_sound persistence" and i: "param_initialized st"
  obtains "fst (kfsw_param_set persistence (Some n) (Some v) st) = fst (set_locked (Some n) v st)"
    "parameter_table (snd (kfsw_param_set persistence (Some n) (Some v) st)) = parameter_table st"
    "parameter_tables (snd (kfsw_param_set persistence (Some n) (Some v) st)) = parameter_tables st"
    "param_initialized (snd (kfsw_param_set persistence (Some n) (Some v) st)) = param_initialized st"
    "mem (param_memory (snd (kfsw_param_set persistence (Some n) (Some v) st))) =
       mem (param_memory (snd (set_locked (Some n) v st)))"
proof -
  obtain r st1 where l: "set_locked (Some n) v st = (r, st1)" by fastforce
  have "snd (kfsw_param_set persistence (Some n) (Some v) st) = st1
      \<or> (\<exists>hk. persistence = Some hk \<and> snd (kfsw_param_set persistence (Some n) (Some v) st) = snd (hook_persist_save hk st1))"
    "fst (kfsw_param_set persistence (Some n) (Some v) st) = r"
    using i l by (auto simp: kfsw_param_set_def split: option.splits)
  with h l set_locked_frame [of "Some n" v st] that show ?thesis by (auto simp: hooks_sound_def)
qed

text \<open>Operations that change only the memory, and not the storage in it.\<close>

lemma reach_inv_memory:
  assumes "reach_inv cfg sets pm0 st" and "mem pm = mem (param_memory st)"
  shows "reach_inv cfg sets pm0 (st\<lparr>param_memory := pm\<rparr>)"
  using assms storage_ok_mem [of cfg st "st\<lparr>param_memory := pm\<rparr>"]
  by (auto simp: reach_inv_def registry_ok_def)

lemma read_reach_inv:
  assumes inv: "reach_inv cfg sets pm0 st" and sound: "sound_sets pm0 sets" and e: "e \<in> set (parameter_table st)"
    and i: "param_initialized st" and r: "read_entry cfg (Some e) value sample (param_memory st) = (r, pm)"
  shows "reach_inv cfg sets pm0 (st\<lparr>param_memory := pm\<rparr>)"
proof (rule reach_inv_memory [OF inv])
  have "quiet_entry e" using inv sound e i storage_quiet by (auto simp: reach_inv_def)
  from read_entry_quiet [OF this r] show "mem pm = mem (param_memory st)" .
qed

lemma find_id_mem:
  assumes "reach_inv cfg sets pm0 st" and "kfsw_param_find_id ident st = Some e"
  shows "e \<in> set (parameter_table st)" "param_initialized st"
proof -
  show e: "e \<in> set (parameter_table st)" using assms find_id_Some [of cfg st] by (simp add: reach_inv_def)
  with assms(1) show "param_initialized st" by (cases "param_initialized st") (auto simp: reach_inv_def)
qed

lemma reachable_inv:
  assumes "param_reachable cfg sets pm0 st" and sound: "sound_sets pm0 sets"
  shows "reach_inv cfg sets pm0 st"
  using assms(1)
proof (induction rule: param_reachable.induct)
  case Boot
  then show ?case by (simp add: reach_inv_def registry_ok_def param_boot_def)
next
  case (Init st n)
  obtain r st' where 1: "kfsw_param_init cfg (Some sets) n st = (r, st')" by fastforce
  show ?case
  proof (cases "st' = st \<or> r \<noteq> None")
    case True
    with init_cases [OF 1] Init.IH 1 show ?thesis by (auto simp: reach_inv_def registry_ok_def)
  next
    case False
    then have f: "\<not> param_initialized st" "kfsw_param_init cfg (Some sets) n st = (None, st')"
      using init_cases [OF 1] 1 by auto
    with Init.IH init_storage_ok [OF f(2,1) sound] init_ok(1,2) [OF f(2,1)] 1 show ?thesis
      by (simp add: reach_inv_def)
  qed
next
  case (Get st name dst)
  show ?case
    using Get.IH read_reach_inv [OF Get.IH sound find_name_mem, of name]
    by (auto simp: kfsw_param_get_def kfsw_param_read_entry_def split: option.splits prod.splits)
next
  case (Get_By_Id st ident dst)
  show ?case
    using Get_By_Id.IH read_reach_inv [OF Get_By_Id.IH sound find_id_mem(1) [OF Get_By_Id.IH], of ident]
    by (auto simp: kfsw_param_get_by_id_def kfsw_param_read_entry_def split: option.splits prod.splits)
next
  case (Set st persistence v name)
  show ?case
  proof (cases "name = None \<or> \<not> param_initialized st")
    case True
    with Set.IH show ?thesis by (auto simp: kfsw_param_set_def split: option.splits)
  next
    case False
    then obtain n where n: "name = Some n" and i: "param_initialized st" by auto
    let ?st = "snd (kfsw_param_set persistence (Some n) (Some v) st)"
    have ok: "storage_ok cfg (snd (set_locked (Some n) v st))"
      using set_locked_ok Set.IH sound Set.hyps(3) i by (auto simp: reach_inv_def)
    show ?thesis
    proof (rule set_saved [OF Set.hyps(2) i, of n v])
      assume f: "parameter_table ?st = parameter_table st" "parameter_tables ?st = parameter_tables st"
        "param_initialized ?st = param_initialized st"
        "mem (param_memory ?st) = mem (param_memory (snd (set_locked (Some n) v st)))"
      have "storage_ok cfg ?st"
        by (rule storage_ok_mem [OF ok]) (use f set_locked_frame [of "Some n" v st] in simp_all)
      with f Set.IH registry_ok_cong [OF _ f(1,2)] i show ?thesis by (simp add: n reach_inv_def)
    qed
  qed
next
  case (Restore st)
  show ?case
  proof (cases "param_initialized st")
    case True
    then have ok: "storage_ok cfg st" using Restore.IH sound by (simp add: reach_inv_def)
    obtain r pm where a: "apply_defaults cfg True (parameter_table st) (param_memory st) = (r, pm)" by fastforce
    have "reach_inv cfg sets pm0 (st\<lparr>param_memory := pm\<rparr>)"
      using apply_defaults_ok [OF ok order_refl a] Restore.IH True by (simp add: reach_inv_def registry_ok_def)
    with Restore.IH True a show ?thesis
      by (auto simp: kfsw_param_restore_defaults_def split: option.splits prod.splits)
  next
    case False
    with Restore.IH show ?thesis by (simp add: kfsw_param_restore_defaults_def)
  qed
next
  case (Accepted st ident)
  show ?case
  proof (cases "kfsw_param_find_id ident st")
    case (Some e)
    note m = find_id_mem [OF Accepted.IH Some]
    have q: "quiet_entry e" using Accepted.IH sound m storage_quiet by (auto simp: reach_inv_def)
    obtain r pm where rd: "read_entry cfg (Some e) Dest False (param_memory st) = (r, pm)" by fastforce
    show ?thesis
      using Some rd reach_inv_memory [OF Accepted.IH] read_entry_quiet [OF q rd] notify_quiet [OF q]
      by (auto simp: kfsw_param_value_accepted_def kfsw_param_read_stored_entry_def split: sum.splits)
  qed (use Accepted.IH in \<open>simp add: kfsw_param_value_accepted_def\<close>)
next
  case (Sample st)
  have "\<forall>e \<in> set (parameter_table st). quiet_entry e"
    using Sample.IH sound storage_quiet by (cases "param_initialized st") (auto simp: reach_inv_def)
  then show ?case
    unfolding kfsw_param_sample_all_def by (intro reach_inv_memory [OF Sample.IH] sample_fold_quiet)
qed

text \<open>In a reachable state a registered parameter reads as the value its storage stands for.\<close>

lemma get_reachable:
  assumes inv: "reach_inv cfg sets pm0 st" and sound: "sound_sets pm0 sets" and i: "param_initialized st"
  shows "fst (kfsw_param_get cfg (Some n) Dest st) =
    (case kfsw_param_find_name (Some n) st of
       None \<Rightarrow> Inl ENOENT | Some e \<Rightarrow> Inr (entry_value cfg e (param_memory st)))"
proof (cases "kfsw_param_find_name (Some n) st")
  case (Some e)
  then have e: "e \<in> set (parameter_table st)" by (rule find_name_mem)
  have ok: "storage_ok cfg st" using inv sound i by (simp add: reach_inv_def)
  then have f: "entry_formed cfg e" "stored_formed e (param_memory st)" "quiet_entry e"
    using e by (simp_all add: storage_ok_def separate_def)
  show ?thesis
    using Some i by (simp add: kfsw_param_get_def kfsw_param_read_entry_def read_entry_stored [OF f])
qed (use i in \<open>simp add: kfsw_param_get_def\<close>)

lemma entry_value_cong:
  "mem pm' (address e) = mem pm (address e) \<Longrightarrow> entry_value cfg e pm' = entry_value cfg e pm"
  by (simp add: entry_value_def stored_payload_def)

lemma find_name_cong:
  "parameter_table st' = parameter_table st \<Longrightarrow> kfsw_param_find_name n st' = kfsw_param_find_name n st"
  by (cases n) (simp_all add: kfsw_param_find_name_def)

text \<open>A parameter whose storage did not change reads as before.\<close>

lemma get_unchanged:
  assumes inv: "reach_inv cfg sets pm0 st" "reach_inv cfg sets pm0 st'" and sound: "sound_sets pm0 sets"
    and i: "param_initialized st" "param_initialized st'" and tab: "parameter_table st' = parameter_table st"
    and same: "\<And>f. f \<in> set (parameter_table st) \<Longrightarrow> pi_name (en_info f) = m \<Longrightarrow>
      mem (param_memory st') (address f) = mem (param_memory st) (address f)"
  shows "fst (kfsw_param_get cfg (Some m) Dest st') = fst (kfsw_param_get cfg (Some m) Dest st)"
proof (cases "kfsw_param_find_name (Some m) st")
  case (Some f)
  then have "f \<in> set (parameter_table st)" "pi_name (en_info f) = m"
    using find_name_Some [of cfg st] inv(1) by (auto simp: reach_inv_def)
  from entry_value_cong [OF same [OF this], of cfg] Some show ?thesis
    by (simp add: get_reachable [OF inv(1) sound i(1)] get_reachable [OF inv(2) sound i(2)]
        find_name_cong [OF tab])
qed (simp add: get_reachable [OF inv(1) sound i(1)] get_reachable [OF inv(2) sound i(2)]
    find_name_cong [OF tab])

text \<open>What a change under the lock does to the storage of each parameter.\<close>

lemma set_locked_storage:
  assumes ok: "storage_ok cfg st" and reg: "registry_ok cfg st" and v: "value_formed cfg v"
    and l: "set_locked (Some n) v st = (r, st')" and f: "f \<in> set (parameter_table st)"
  shows "r \<noteq> None \<or> pi_name (en_info f) \<noteq> n \<Longrightarrow> mem (param_memory st') (address f) = mem (param_memory st) (address f)"
    "r = None \<Longrightarrow> pi_name (en_info f) = n \<Longrightarrow> stored_payload f (param_memory st') = value_payload v
       \<and> pv_type v = pi_type (en_info f) \<and> \<not> pi_read_only (en_info f)"
proof -
  note reg_find = find_name_Some [OF reg]
  show "mem (param_memory st') (address f) = mem (param_memory st) (address f)"
    if other: "r \<noteq> None \<or> pi_name (en_info f) \<noteq> n"
  proof (cases "\<exists>e pm. kfsw_param_find_name (Some n) st = Some e
      \<and> kfsw_param_validate_entry (Some e) (Some v) (param_memory st) = None
      \<and> kfsw_param_wire_apply (param_initialized st) e v (param_memory st) = (r, pm) \<and> param_memory st' = pm")
    case True
    then obtain e pm where e: "kfsw_param_find_name (Some n) st = Some e" "param_memory st' = pm"
      "kfsw_param_validate_entry (Some e) (Some v) (param_memory st) = None"
      "kfsw_param_wire_apply (param_initialized st) e v (param_memory st) = (r, pm)" by blast
    then have eE: "e \<in> set (parameter_table st)" "pi_name (en_info e) = n" using reg_find by auto
    have q: "quiet_entry e" using ok eE storage_quiet by blast
    have fit: "fits cfg e v" using validate_shape [OF e(3)] v by (auto simp: fits_def value_formed_def)
    have s: "separate cfg (set (parameter_table st))" "sized (set (parameter_table st)) (param_memory st)"
      using ok sized_formed by (auto simp: storage_ok_def)
    show ?thesis
    proof (cases "f = e")
      case True
      with other eE have "r \<noteq> None" by auto
      then obtain err where "r = Some err" by blast
      with apply_refused [OF q] e show ?thesis by simp
    next
      case False
      from apply_keeps(2) [OF s(1) eE(1) fit s(2) e(4) f False] e(2) show ?thesis by simp
    qed
  next
    case False
    with l have "st' = st"
      by (auto simp: set_locked_def split: option.splits if_splits prod.splits)
    then show ?thesis by simp
  qed
  show "stored_payload f (param_memory st') = value_payload v \<and> pv_type v = pi_type (en_info f)
      \<and> \<not> pi_read_only (en_info f)"
    if r: "r = None" and n: "pi_name (en_info f) = n"
  proof -
    have e: "kfsw_param_find_name (Some n) st = Some f" using reg_find f n by simp
    with l r obtain pm where a: "kfsw_param_wire_apply (param_initialized st) f v (param_memory st) = (None, pm)"
      and val: "kfsw_param_validate_entry (Some f) (Some v) (param_memory st) = None"
      and st': "st' = st\<lparr>param_memory := pm\<rparr>" and ro: "\<not> pi_read_only (en_info f)"
      by (auto simp: set_locked_def split: option.splits if_splits prod.splits)
    have form: "entry_formed cfg f" "stored_formed f (param_memory st)" "quiet_entry f"
      using ok f by (simp_all add: storage_ok_def separate_def)
    note t = validate_shape(1) [OF val]
    have "mem pm (address f) = written_bytes f v (mem (param_memory st) (address f))"
      using apply_mem [OF form(3) t a] by simp
    from written_payload(2) [OF v form(1,2) val this] t ro show ?thesis by (simp add: st')
  qed
qed

lemma param_reachable_demo_sound: "sound_sets demo_boot_mem [Some demo_set]"
  by (auto simp: sound_sets_def set_definitions_def definition_sound_def demo_set_def demo_definition_def
      demo_boot_mem_def quiet_definition_def c_string_def take_Cons' split: if_splits)

section \<open>Properties\<close>



text \<open>
  When initialisation succeeds, the registry holds exactly the declared definitions: they are in the
  strict order of their wire IDs, names are unique, both registries are within their capacities and
  every table's count is the number of its parameters; each definition is found under its table and
  offset and under its name.
\<close>

theorem param_init_registers:
  assumes "\<not> param_initialized st" and "kfsw_param_init cfg (Some sets) (length sets) st = (None, st')"
  shows "param_initialized st' \<and> registry_ok cfg st'
    \<and> en_definition ` set (parameter_table st') = snd ` set_definitions sets
    \<and> (\<forall>(s, d) \<in> set_definitions sets. \<exists>e. en_definition e = d
          \<and> kfsw_param_find_id (KFSW_PARAM_ID (pset_table s) (pd_offset d)) st' = Some e
          \<and> kfsw_param_find_name (pd_name d) st' = Some e)"
proof (intro conjI ballI)
  note ok = init_ok [OF assms(2,1), simplified]
  show "param_initialized st'" "registry_ok cfg st'" by (rule ok)+
  show "en_definition ` set (parameter_table st') = snd ` set_definitions sets"
    by (simp add: ok(4) image_image)
  fix sd assume sd: "sd \<in> set_definitions sets"
  obtain s d where sd_eq: "sd = (s, d)" by (cases sd)
  obtain name where name: "pd_name d = Some name" using ok(5) sd sd_eq by auto
  let ?e = "entry_of (s, d)"
  have e: "?e \<in> set (parameter_table st')" using ok(4) sd sd_eq by simp
  have "pi_id (en_info ?e) = KFSW_PARAM_ID (pset_table s) (pd_offset d)" "pi_name (en_info ?e) = name"
    by (simp_all add: entry_of_def param_new_entry_def name)
  with e find_id_Some [OF ok(1)] find_name_Some [OF ok(1)] name
  have "kfsw_param_find_id (KFSW_PARAM_ID (pset_table s) (pd_offset d)) st' = Some ?e"
    "kfsw_param_find_name (pd_name d) st' = Some ?e" by simp_all
  then show "case sd of (s, d) \<Rightarrow> \<exists>e. en_definition e = d
      \<and> kfsw_param_find_id (KFSW_PARAM_ID (pset_table s) (pd_offset d)) st' = Some e
      \<and> kfsw_param_find_name (pd_name d) st' = Some e"
    by (auto simp: sd_eq)
qed

theorem param_init_registers_witness:
  "param_initialized demo_state \<and> registry_ok demo_param_config demo_state
   \<and> (\<exists>e. kfsw_param_find_id 0x1909 demo_state = Some e \<and> kfsw_param_find_name (Some ''level'') demo_state = Some e)"
proof -
  have n: "\<not> param_initialized (param_boot demo_boot_mem)" by (simp add: param_boot_def)
  have "fst (kfsw_param_init demo_param_config (Some [Some demo_set]) (length [Some demo_set])
      (param_boot demo_boot_mem)) = None"
    by code_simp
  then have i: "kfsw_param_init demo_param_config (Some [Some demo_set]) (length [Some demo_set])
      (param_boot demo_boot_mem) = (None, demo_state)"
    by (simp add: demo_state_def prod_eq_iff)
  let ?d = "(demo_definition KFSW_PARAM_U16 0 1)\<lparr>pd_offset := 9, pd_name := Some ''level''\<rparr>"
  have sd: "(demo_set, ?d) \<in> set_definitions [Some demo_set]"
    by (simp add: set_definitions_def demo_set_def)
  have "KFSW_PARAM_ID (pset_table demo_set) (pd_offset ?d) = 0x1909" "pd_name ?d = Some ''level''"
    by (simp_all add: KFSW_PARAM_ID_def demo_set_def)
  with param_init_registers [OF n i] sd show ?thesis by fastforce
qed





text \<open>
  A refused change has no effect on any parameter. In a reachable state \<open>kfsw_param_set\<close> of an unknown
  name is refused with \<open>-ENOENT\<close> and of a read-only parameter with \<open>-EACCES\<close>; a value of another type or
  with the wrong size is refused with \<open>-EMSGSIZE\<close>; and whatever the error, the registry is the same and
  every parameter reads as before.
\<close>

theorem param_set_refused:
  assumes "param_reachable cfg sets pm0 st" and "sound_sets pm0 sets" and "param_initialized st"
    and "hooks_sound persistence" and "value_formed cfg v"
  shows "let r = kfsw_param_set persistence (Some n) (Some v) st;
             found = kfsw_param_find_name (Some n) st
    in (found = None \<longrightarrow> fst r = Some ENOENT)
       \<and> (\<forall>e. found = Some e \<and> pi_read_only (en_info e) \<longrightarrow> fst r = Some EACCES)
       \<and> (\<forall>e. found = Some e \<and> \<not> pi_read_only (en_info e)
             \<and> (pv_type v \<noteq> pi_type (en_info e)
                \<or> pv_type v \<noteq> KFSW_PARAM_STRING \<and> pv_size v \<noteq> entry_capacity e
                \<or> pv_type v = KFSW_PARAM_STRING \<and> pv_size v > entry_capacity e) \<longrightarrow> fst r = Some EMSGSIZE)
       \<and> (fst r \<noteq> None \<longrightarrow> parameter_table (snd r) = parameter_table st
             \<and> (\<forall>m. fst (kfsw_param_get cfg (Some m) Dest (snd r)) = fst (kfsw_param_get cfg (Some m) Dest st)))"
proof -
  have typed: "typed_value cfg v" using assms(5) by (simp add: value_formed_def typed_value_def)
  define st' where "st' = snd (kfsw_param_set persistence (Some n) (Some v) st)"
  have inv: "reach_inv cfg sets pm0 st" by (rule reachable_inv [OF assms(1,2)])
  have inv': "reach_inv cfg sets pm0 st'"
    using reachable_inv [OF param_reachable.Set [OF assms(1,4) typed, of "Some n"] assms(2)] by (simp add: st'_def)
  have ok: "storage_ok cfg st" "registry_ok cfg st" using inv assms(2,3) by (simp_all add: reach_inv_def)
  obtain r st1 where l: "set_locked (Some n) v st = (r, st1)" by fastforce
  have f: "fst (kfsw_param_set persistence (Some n) (Some v) st) = r"
    "parameter_table st' = parameter_table st" "param_initialized st'"
    "mem (param_memory st') = mem (param_memory st1)"
    using set_saved [OF assms(4,3), of n v] l assms(3) by (auto simp: st'_def)
  have cap: "0 < entry_capacity e" if "kfsw_param_find_name (Some n) st = Some e" for e
    using ok(1) find_name_mem [OF that] by (auto simp: storage_ok_def separate_def entry_formed_def)
  have same: "fst (kfsw_param_get cfg (Some m) Dest st') = fst (kfsw_param_get cfg (Some m) Dest st)"
    if "r \<noteq> None" for m
    by (rule get_unchanged [OF inv inv' assms(2,3) f(3,2)])
      (use set_locked_storage(1) [OF ok assms(5) l] that f(4) in auto)
  have "kfsw_param_find_name (Some n) st = None \<Longrightarrow> r = Some ENOENT"
    "\<And>e. kfsw_param_find_name (Some n) st = Some e \<Longrightarrow> pi_read_only (en_info e) \<Longrightarrow> r = Some EACCES"
    using l by (auto simp: set_locked_def)
  moreover have "r = Some EMSGSIZE" if e: "kfsw_param_find_name (Some n) st = Some e" "\<not> pi_read_only (en_info e)"
    and bad: "pv_type v \<noteq> pi_type (en_info e) \<or> pv_type v \<noteq> KFSW_PARAM_STRING \<and> pv_size v \<noteq> entry_capacity e
      \<or> pv_type v = KFSW_PARAM_STRING \<and> pv_size v > entry_capacity e" for e
  proof -
    have "kfsw_param_validate_entry (Some e) (Some v) (param_memory st) = Some EMSGSIZE"
      using bad cap [OF e(1)] by (auto simp: kfsw_param_validate_entry_def Let_def)
    with l e show ?thesis by (auto simp: set_locked_def)
  qed
  ultimately show ?thesis using f same by (auto simp: Let_def st'_def)
qed

theorem param_set_refused_witness:
  "let v = zero_value demo_param_config KFSW_PARAM_U8 1;
       r = kfsw_param_set None (Some ''level'') (Some v) demo_state
   in fst r = Some EMSGSIZE \<and> fst (kfsw_param_get demo_param_config (Some ''name'') Dest (snd r)) =
        fst (kfsw_param_get demo_param_config (Some ''name'') Dest demo_state)"
proof -
  have r: "param_reachable demo_param_config [Some demo_set] demo_boot_mem demo_state"
    unfolding demo_state_def by (intro param_reachable.intros)
  have i: "param_initialized demo_state" by code_simp
  have h: "hooks_sound (None :: unit persist_hooks option)" by (simp add: hooks_sound_def)
  let ?v = "zero_value demo_param_config KFSW_PARAM_U8 1"
  have v: "value_formed demo_param_config ?v" by (simp add: value_formed_def zero_value_def)
  have "fst (kfsw_param_set None (Some ''level'') (Some ?v) demo_state) = Some EMSGSIZE" by code_simp
  with param_set_refused [OF r param_reachable_demo_sound i h v, of "''level''"] show ?thesis
    by (simp add: Let_def)
qed

end
