(* ===== verification/Files.thy ===== *)
theory Files
  imports Prelude
begin

text \<open>
  Files: the atomic replacement of a file, \<^verbatim>\<open>src/snapshot_file.c\<close>, and the loops that read and write whole
  buffers, which the parameter snapshot, the parameter tables, the event journal and the stored
  housekeeping history use.

  The Zephyr file system and the platform's storage are not part of the sources. They are a record of
  operations \<open>'f fs_ops\<close> on an abstract state \<open>'f\<close>; a function that opens a file has one open at a time,
  so a handle is named by its path. \<open>fs_lawful\<close> collects what the code relies on, stated over the
  contents and the position of a file: an operation on one file leaves the others alone, a write
  overwrites at the position with as many bytes as it reports, a read returns the bytes that are there,
  and a rename replaces its target or changes nothing.

  Proved: a replaced file holds the new bytes exactly when the replacement returned 0 and is as before
  otherwise, however short the individual writes were, and no file but the target and its temporary is
  touched.
\<close>

section \<open>The file system\<close>

datatype fs_mode = FS_READ | FS_WRITE | FS_CREATE_WRITE | FS_CREATE_WRITE_TRUNC

record 'f fs_ops =
  storage_ready :: "'f \<Rightarrow> bool"
  storage_free :: "'f \<Rightarrow> errno + u64"
  fs_stat :: "string \<Rightarrow> 'f \<Rightarrow> errno + (bool \<times> nat)"
  fs_mkdir :: "string \<Rightarrow> 'f \<Rightarrow> rc \<times> 'f"
  fs_unlink :: "string \<Rightarrow> 'f \<Rightarrow> rc \<times> 'f"
  fs_rename :: "string \<Rightarrow> string \<Rightarrow> 'f \<Rightarrow> rc \<times> 'f"
  fs_open :: "string \<Rightarrow> fs_mode \<Rightarrow> 'f \<Rightarrow> rc \<times> 'f"
  fs_read :: "string \<Rightarrow> nat \<Rightarrow> 'f \<Rightarrow> (errno + bytes) \<times> 'f"
  fs_write :: "string \<Rightarrow> bytes \<Rightarrow> 'f \<Rightarrow> (errno + nat) \<times> 'f"
  fs_seek :: "string \<Rightarrow> nat \<Rightarrow> 'f \<Rightarrow> rc \<times> 'f"
  fs_sync :: "string \<Rightarrow> 'f \<Rightarrow> rc \<times> 'f"
  fs_close :: "string \<Rightarrow> 'f \<Rightarrow> rc \<times> 'f"

section \<open>Operations\<close>

text \<open>\<open>write_all\<close>: the loop ends because a write that makes no progress is an error.\<close>

function write_all :: "'f fs_ops \<Rightarrow> string \<Rightarrow> bytes \<Rightarrow> 'f \<Rightarrow> rc \<times> 'f" where
  "write_all ops path data f =
     (if data = [] then (None, f)
      else
        (case fs_write ops path data f of
           (Inl e, f') \<Rightarrow> (Some e, f')
         | (Inr n, f') \<Rightarrow> if n = 0 then (Some EIO, f') else write_all ops path (drop n data) f'))"
  by pat_completeness auto
termination by (relation "measure (\<lambda>(ops, path, data, f). length data)") auto

declare write_all.simps [simp del]

text \<open>\<open>read_all\<close>: likewise, with the end of the file as an error; \<open>Inr\<close> the bytes read.\<close>

function read_all :: "'f fs_ops \<Rightarrow> string \<Rightarrow> nat \<Rightarrow> 'f \<Rightarrow> (errno + bytes) \<times> 'f" where
  "read_all ops path n f =
     (if n = 0 then (Inr [], f)
      else
        (case fs_read ops path n f of
           (Inl e, f') \<Rightarrow> (Inl e, f')
         | (Inr b, f') \<Rightarrow>
             if b = [] then (Inl EMSGSIZE, f')
             else
               (case read_all ops path (n - length b) f' of
                  (Inl e, f'') \<Rightarrow> (Inl e, f'')
                | (Inr rest, f'') \<Rightarrow> (Inr (b @ rest), f''))))"
  by pat_completeness auto
termination by (relation "measure (\<lambda>(ops, path, n, f). n)") auto

declare read_all.simps [simp del]

text \<open>The same loop with the end of the file as \<open>-EBADMSG\<close>, as the parameter tables and the housekeeping store read.\<close>

function read_exact :: "'f fs_ops \<Rightarrow> string \<Rightarrow> nat \<Rightarrow> 'f \<Rightarrow> (errno + bytes) \<times> 'f" where
  "read_exact ops path n f =
     (if n = 0 then (Inr [], f)
      else
        (case fs_read ops path n f of
           (Inl e, f') \<Rightarrow> (Inl e, f')
         | (Inr b, f') \<Rightarrow>
             if b = [] then (Inl EBADMSG, f')
             else
               (case read_exact ops path (n - length b) f' of
                  (Inl e, f'') \<Rightarrow> (Inl e, f'')
                | (Inr rest, f'') \<Rightarrow> (Inr (b @ rest), f''))))"
  by pat_completeness auto
termination by (relation "measure (\<lambda>(ops, path, n, f). n)") auto

declare read_exact.simps [simp del]

text \<open>The first error of a pair of results, the idiom around \<open>fs_close\<close>.\<close>

fun first_error :: "rc \<Rightarrow> rc \<Rightarrow> rc" where
  "first_error (Some e) r = Some e"
| "first_error None r = r"

definition kfsw_snapshot_write ::
  "'f fs_ops \<Rightarrow> string option \<Rightarrow> string option \<Rightarrow> bytes option \<Rightarrow> 'f \<Rightarrow> rc \<times> 'f" where
  "kfsw_snapshot_write ops path temporary_path data f =
     (case (path, temporary_path, data) of
        (Some target, Some tmp, Some bytes) \<Rightarrow>
          if \<not> storage_ready ops f then (Some ENODEV, f)
          else
            (let f1 = snd (fs_unlink ops tmp f);
                 (opened, f2) = fs_open ops tmp FS_CREATE_WRITE_TRUNC f1
             in if opened \<noteq> None then (opened, f2)
                else
                  (let (written, f3) = write_all ops tmp bytes f2;
                       (synced, f4) = (if written = None then fs_sync ops tmp f3 else (written, f3));
                       (closed, f5) = fs_close ops tmp f4;
                       result = first_error synced closed
                   in if result \<noteq> None then (result, snd (fs_unlink ops tmp f5))
                      else
                        (let (renamed, f6) = fs_rename ops tmp target f5
                         in if renamed \<noteq> None then (renamed, snd (fs_unlink ops tmp f6)) else (None, f6))))
      | _ \<Rightarrow> (Some EINVAL, f))"

section \<open>What the code relies on\<close>

definition others_same :: "('f \<Rightarrow> string \<Rightarrow> bytes option) \<Rightarrow> string \<Rightarrow> 'f \<Rightarrow> 'f \<Rightarrow> bool" where
  "others_same contents p f f' \<longleftrightarrow> (\<forall>q. q \<noteq> p \<longrightarrow> contents f' q = contents f q)"

definition frame_law ::
  "'f fs_ops \<Rightarrow> ('f \<Rightarrow> string \<Rightarrow> bytes option) \<Rightarrow> bool" where
  "frame_law ops contents \<longleftrightarrow>
     (\<forall>p f. others_same contents p f (snd (fs_unlink ops p f)))
     \<and> (\<forall>p m f. others_same contents p f (snd (fs_open ops p m f)))
     \<and> (\<forall>p d f. others_same contents p f (snd (fs_write ops p d f)))
     \<and> (\<forall>p f. contents (snd (fs_mkdir ops p f)) = contents f)
     \<and> (\<forall>p n f. contents (snd (fs_read ops p n f)) = contents f)
     \<and> (\<forall>p k f. contents (snd (fs_seek ops p k f)) = contents f)
     \<and> (\<forall>p f. contents (snd (fs_sync ops p f)) = contents f)
     \<and> (\<forall>p f. contents (snd (fs_close ops p f)) = contents f)"

definition rename_law :: "'f fs_ops \<Rightarrow> ('f \<Rightarrow> string \<Rightarrow> bytes option) \<Rightarrow> bool" where
  "rename_law ops contents \<longleftrightarrow>
     (\<forall>p q f r f'. p \<noteq> q \<longrightarrow> fs_rename ops p q f = (r, f') \<longrightarrow>
        (if r = None then contents f' = (contents f)(q := contents f p, p := None) else contents f' = contents f))"

definition open_law ::
  "'f fs_ops \<Rightarrow> ('f \<Rightarrow> string \<Rightarrow> bytes option) \<Rightarrow> ('f \<Rightarrow> string \<Rightarrow> nat) \<Rightarrow> bool" where
  "open_law ops contents position \<longleftrightarrow>
     (\<forall>p m f e f'. fs_open ops p m f = (Some e, f') \<longrightarrow> m = FS_READ \<or> m = FS_WRITE \<longrightarrow> contents f' = contents f)
     \<and> (\<forall>p m f f'. fs_open ops p m f = (None, f') \<longrightarrow> position f' p = 0
          \<and> contents f' p = (if m = FS_CREATE_WRITE_TRUNC then Some []
              else if m = FS_CREATE_WRITE \<and> contents f p = None then Some [] else contents f p)
          \<and> contents f' p \<noteq> None)"

definition write_law ::
  "'f fs_ops \<Rightarrow> ('f \<Rightarrow> string \<Rightarrow> bytes option) \<Rightarrow> ('f \<Rightarrow> string \<Rightarrow> nat) \<Rightarrow> bool" where
  "write_law ops contents position \<longleftrightarrow>
     (\<forall>p d f n f' c. fs_write ops p d f = (Inr n, f') \<longrightarrow> contents f p = Some c \<longrightarrow> position f p \<le> length c \<longrightarrow>
          n \<le> length d \<and> position f' p = position f p + n
          \<and> contents f' p = Some (take (position f p) c @ take n d @ drop (position f p + n) c))"

definition read_law ::
  "'f fs_ops \<Rightarrow> ('f \<Rightarrow> string \<Rightarrow> bytes option) \<Rightarrow> ('f \<Rightarrow> string \<Rightarrow> nat) \<Rightarrow> bool" where
  "read_law ops contents position \<longleftrightarrow>
     (\<forall>p n f b f' c. fs_read ops p n f = (Inr b, f') \<longrightarrow> contents f p = Some c \<longrightarrow>
          b = take n (drop (position f p) c) \<and> position f' p = position f p + length b)
     \<and> (\<forall>p k f f'. fs_seek ops p k f = (None, f') \<longrightarrow> position f' p = k)
     \<and> (\<forall>p f n. fs_stat ops p f = Inr (True, n) \<longrightarrow> (\<exists>c. contents f p = Some c \<and> length c = n))"

definition fs_lawful ::
  "'f fs_ops \<Rightarrow> ('f \<Rightarrow> string \<Rightarrow> bytes option) \<Rightarrow> ('f \<Rightarrow> string \<Rightarrow> nat) \<Rightarrow> bool" where
  "fs_lawful ops contents position \<longleftrightarrow>
     frame_law ops contents \<and> rename_law ops contents \<and> open_law ops contents position
     \<and> write_law ops contents position \<and> read_law ops contents position"

text \<open>
  A file system on which a write past the end of a file leaves a gap of zeros, as littlefs has it: what the
  housekeeping store relies on for the slots it has not reached yet.
\<close>

definition splice_at :: "nat \<Rightarrow> bytes \<Rightarrow> bytes \<Rightarrow> bytes" where
  "splice_at q d c = take q (c @ replicate (q - length c) 0) @ d @ drop (q + length d) c"

definition fs_sparse ::
  "'f fs_ops \<Rightarrow> ('f \<Rightarrow> string \<Rightarrow> bytes option) \<Rightarrow> ('f \<Rightarrow> string \<Rightarrow> nat) \<Rightarrow> bool" where
  "fs_sparse ops contents position \<longleftrightarrow>
     (\<forall>p d f n f' c. fs_write ops p d f = (Inr n, f') \<longrightarrow> contents f p = Some c \<longrightarrow> n \<noteq> 0 \<longrightarrow>
        n \<le> length d \<and> position f' p = position f p + n
        \<and> contents f' p = Some (splice_at (position f p) (take n d) c))"

text \<open>A file system on which the existing file \<open>path\<close> can be read.\<close>

definition fs_readable :: "'f fs_ops \<Rightarrow> ('f \<Rightarrow> string \<Rightarrow> bytes option) \<Rightarrow> string \<Rightarrow> bool" where
  "fs_readable ops contents path \<longleftrightarrow>
     (\<forall>f. storage_ready ops f)
     \<and> (\<forall>f c. contents f path = Some c \<longrightarrow> fs_stat ops path f = Inr (True, length c)
          \<and> fst (fs_open ops path FS_READ f) = None)
     \<and> (\<forall>n f c. contents f path = Some c \<longrightarrow> (\<exists>b. fst (fs_read ops path n f) = Inr b))
     \<and> (\<forall>n f. fst (fs_seek ops path n f) = None)
     \<and> (\<forall>f. fst (fs_close ops path f) = None)"

text \<open>
  A file system in memory that never fails but writes at most \<open>chunk + 1\<close> bytes at a time: the laws can
  hold.
\<close>

record ram_fs =
  rf_files :: "string \<Rightarrow> bytes option"
  rf_position :: "string \<Rightarrow> nat"

definition ram_ops :: "nat \<Rightarrow> ram_fs fs_ops" where
  "ram_ops chunk =
     \<lparr>storage_ready = (\<lambda>f. True), storage_free = (\<lambda>f. Inr 1000000),
      fs_stat = (\<lambda>p f. case rf_files f p of None \<Rightarrow> Inl ENOENT | Some c \<Rightarrow> Inr (True, length c)),
      fs_mkdir = (\<lambda>p f. (None, f)),
      fs_unlink = (\<lambda>p f. (if rf_files f p = None then Some ENOENT else None, f\<lparr>rf_files := (rf_files f)(p := None)\<rparr>)),
      fs_rename = (\<lambda>p q f. (None, f\<lparr>rf_files := (rf_files f)(q := rf_files f p, p := None)\<rparr>)),
      fs_open = (\<lambda>p m f.
        if rf_files f p = None \<and> (m = FS_READ \<or> m = FS_WRITE) then (Some ENOENT, f)
        else (None, f\<lparr>rf_files := (rf_files f)(p :=
            if m = FS_CREATE_WRITE_TRUNC \<or> rf_files f p = None then Some [] else rf_files f p),
          rf_position := (rf_position f)(p := 0)\<rparr>)),
      fs_read = (\<lambda>p n f. case rf_files f p of
          None \<Rightarrow> (Inl ENOENT, f)
        | Some c \<Rightarrow> (let b = take n (drop (rf_position f p) c)
            in (Inr b, f\<lparr>rf_position := (rf_position f)(p := rf_position f p + length b)\<rparr>))),
      fs_write = (\<lambda>p d f. case rf_files f p of
          None \<Rightarrow> (Inl ENOENT, f)
        | Some c \<Rightarrow> (let b = take (chunk + 1) d; q = rf_position f p
            in (Inr (length b), f\<lparr>rf_files := (rf_files f)(p := Some (splice_at q b c)),
                 rf_position := (rf_position f)(p := q + length b)\<rparr>))),
      fs_seek = (\<lambda>p n f. (None, f\<lparr>rf_position := (rf_position f)(p := n)\<rparr>)),
      fs_sync = (\<lambda>p f. (None, f)), fs_close = (\<lambda>p f. (None, f))\<rparr>"

definition empty_fs :: ram_fs where
  "empty_fs = \<lparr>rf_files = (\<lambda>p. None), rf_position = (\<lambda>p. 0)\<rparr>"

section \<open>Lemmas\<close>

lemma take_min_length: "take (min (length d) n) d = take n d"
  by (simp add: min_def)

lemma create_modes: "m \<noteq> FS_READ \<Longrightarrow> m \<noteq> FS_WRITE \<Longrightarrow> m \<noteq> FS_CREATE_WRITE \<Longrightarrow> m = FS_CREATE_WRITE_TRUNC"
  by (cases m) simp_all

lemma ram_lawful: "fs_lawful (ram_ops chunk) rf_files rf_position"
  unfolding fs_lawful_def frame_law_def rename_law_def open_law_def write_law_def read_law_def
  by (intro conjI allI impI) (auto simp: ram_ops_def others_same_def Let_def take_min_length splice_at_def
      dest: create_modes split: option.splits if_splits)

lemma ram_sparse: "fs_sparse (ram_ops chunk) rf_files rf_position"
  by (auto simp: fs_sparse_def ram_ops_def Let_def take_min_length split: option.splits)

lemma ram_readable: "fs_readable (ram_ops chunk) rf_files path"
  by (auto simp: fs_readable_def ram_ops_def Let_def)

lemma ram_write_all:
  "rf_files f p \<noteq> None \<Longrightarrow> fst (write_all (ram_ops chunk) p d f) = None"
proof (induction d arbitrary: f rule: length_induct)
  case (1 d)
  then show ?case
    by (subst write_all.simps) (auto simp: ram_ops_def Let_def)
qed

text \<open>On it, a replacement never fails.\<close>

lemma ram_snapshot_write: "fst (kfsw_snapshot_write (ram_ops chunk) (Some p) (Some q) (Some d) f) = None"
proof -
  obtain r f3 where w: "write_all (ram_ops chunk) q d
      (f\<lparr>rf_files := (rf_files f)(q := Some []), rf_position := (rf_position f)(q := 0)\<rparr>) = (r, f3)" by fastforce
  have "r = None"
    using ram_write_all [of "f\<lparr>rf_files := (rf_files f)(q := Some []), rf_position := (rf_position f)(q := 0)\<rparr>" q chunk d] w
    by simp
  with w show ?thesis
    by (simp add: kfsw_snapshot_write_def Let_def ram_ops_def)
qed

lemma lawful_frame:
  assumes "fs_lawful ops contents position"
  shows "q \<noteq> p \<Longrightarrow> contents (snd (fs_unlink ops p f)) q = contents f q"
    "q \<noteq> p \<Longrightarrow> contents (snd (fs_open ops p m f)) q = contents f q"
    "q \<noteq> p \<Longrightarrow> contents (snd (fs_write ops p d f)) q = contents f q"
    "contents (snd (fs_sync ops p f)) = contents f" "contents (snd (fs_close ops p f)) = contents f"
    "contents (snd (fs_read ops p n f)) = contents f" "contents (snd (fs_seek ops p n f)) = contents f"
    "contents (snd (fs_mkdir ops p f)) = contents f"
  using assms unfolding fs_lawful_def frame_law_def others_same_def by simp_all

lemma lawful_write:
  assumes "fs_lawful ops contents position" and "fs_write ops p d f = (Inr n, f')" and "contents f p = Some c"
    and "position f p \<le> length c"
  shows "n \<le> length d" "position f' p = position f p + n"
    "contents f' p = Some (take (position f p) c @ take n d @ drop (position f p + n) c)"
  using assms unfolding fs_lawful_def write_law_def by blast+

lemma lawful_open:
  assumes "fs_lawful ops contents position" and "fs_open ops p m f = (None, f')"
  shows "position f' p = 0" "contents f' p \<noteq> None"
    "contents f' p = (if m = FS_CREATE_WRITE_TRUNC then Some []
       else if m = FS_CREATE_WRITE \<and> contents f p = None then Some [] else contents f p)"
  using assms unfolding fs_lawful_def open_law_def by blast+

lemma lawful_open_failed:
  assumes "fs_lawful ops contents position" and "fs_open ops p m f = (Some e, f')" and "m = FS_READ \<or> m = FS_WRITE"
  shows "contents f' = contents f"
  using assms unfolding fs_lawful_def open_law_def by blast

lemma lawful_read:
  assumes "fs_lawful ops contents position" and "fs_read ops p n f = (Inr b, f')" and "contents f p = Some c"
  shows "b = take n (drop (position f p) c)" "position f' p = position f p + length b"
  using assms unfolding fs_lawful_def read_law_def by blast+

text \<open>On a file that can be read, the operations succeed and do what the laws say.\<close>

lemma readable_open:
  assumes "fs_lawful ops contents position" and "fs_readable ops contents path" and "contents f path = Some c"
  shows "\<exists>f'. fs_open ops path FS_READ f = (None, f') \<and> contents f' path = Some c \<and> position f' path = 0"
proof -
  from assms(2,3) have "fst (fs_open ops path FS_READ f) = None" unfolding fs_readable_def by blast
  then obtain f' where o: "fs_open ops path FS_READ f = (None, f')" by (metis prod.collapse)
  from lawful_open [OF assms(1) o] assms(3) o show ?thesis by simp
qed

lemma readable_read:
  assumes "fs_lawful ops contents position" and "fs_readable ops contents path" and "contents f path = Some c"
  shows "\<exists>f'. fs_read ops path n f = (Inr (take n (drop (position f path) c)), f') \<and> contents f' path = Some c
    \<and> position f' path = position f path + length (take n (drop (position f path) c))"
proof -
  from assms(2,3) have "\<exists>b. fst (fs_read ops path n f) = Inr b" unfolding fs_readable_def by blast
  then obtain b f' where r: "fs_read ops path n f = (Inr b, f')" by (metis prod.collapse)
  from lawful_read [OF assms(1) r assms(3)] lawful_frame(6) [OF assms(1), of path n f] r assms(3)
  show ?thesis by simp
qed

lemma readable_close:
  assumes "fs_lawful ops contents position" and "fs_readable ops contents path"
  shows "\<exists>f'. fs_close ops path f = (None, f') \<and> contents f' = contents f"
  using assms(2) lawful_frame(5) [OF assms(1), of path f] unfolding fs_readable_def by (metis prod.collapse snd_conv)

lemma lawful_seek:
  assumes "fs_lawful ops contents position" and "fs_seek ops p n f = (None, f')"
  shows "position f' p = n"
  using assms unfolding fs_lawful_def read_law_def by blast

lemma lawful_rename:
  assumes "fs_lawful ops contents position" and "fs_rename ops p q f = (r, f')" and "p \<noteq> q"
  shows "r = None \<Longrightarrow> contents f' q = contents f p"
    "r = None \<Longrightarrow> s \<noteq> p \<Longrightarrow> s \<noteq> q \<Longrightarrow> contents f' s = contents f s"
    "r \<noteq> None \<Longrightarrow> contents f' = contents f"
  using assms unfolding fs_lawful_def rename_law_def by (auto split: if_splits)

lemma lawful_stat:
  assumes "fs_lawful ops contents position" and "fs_stat ops p f = Inr (True, n)"
  shows "\<exists>c. contents f p = Some c \<and> length c = n"
  using assms unfolding fs_lawful_def read_law_def by blast

text \<open>Writing a whole buffer overwrites at the position, in however many steps.\<close>

lemma write_all_frame:
  assumes law: "fs_lawful ops contents position" and ne: "q \<noteq> p"
  shows "contents (snd (write_all ops p d f)) q = contents f q"
proof (induction d arbitrary: f rule: length_induct)
  case (1 d)
  obtain r f1 where w: "fs_write ops p d f = (r, f1)" by fastforce
  then have f1: "contents f1 q = contents f q" using lawful_frame(3) [OF law ne, of d f] by simp
  show ?case
  proof (cases "d = [] \<or> (\<exists>e. r = Inl e) \<or> r = Inr 0")
    case True
    then show ?thesis using w f1 by (subst write_all.simps) auto
  next
    case False
    then obtain n where n: "r = Inr n" "n \<noteq> 0" "d \<noteq> []" by (cases r) auto
    with "1.IH" f1 have "contents (snd (write_all ops p (drop n d) f1)) q = contents f q"
      by (simp add: diff_less)
    with w n show ?thesis by (subst write_all.simps) simp
  qed
qed

lemma write_all_contents:
  assumes law: "fs_lawful ops contents position"
  shows "write_all ops p d f = (None, f') \<Longrightarrow> contents f p = Some c \<Longrightarrow> position f p \<le> length c \<Longrightarrow>
    contents f' p = Some (take (position f p) c @ d @ drop (position f p + length d) c)"
proof (induction d arbitrary: f c rule: length_induct)
  case (1 d)
  show ?case
  proof (cases "d = []")
    case True
    with 1 show ?thesis by (simp add: write_all.simps)
  next
    case False
    obtain r f1 where w: "fs_write ops p d f = (r, f1)" by fastforce
    with False "1.prems"(1) obtain n where n: "r = Inr n" "n \<noteq> 0" "write_all ops p (drop n d) f1 = (None, f')"
      by (subst (asm) write_all.simps) (auto split: sum.splits if_splits)
    let ?q = "position f p"
    note l = lawful_write [OF law w [unfolded n(1)] "1.prems"(2,3)]
    let ?c1 = "take ?q c @ take n d @ drop (?q + n) c"
    have le: "position f1 p \<le> length ?c1" using l(1,2) "1.prems"(3) by simp
    have "contents f' p = Some (take (position f1 p) ?c1 @ drop n d @ drop (position f1 p + length (drop n d)) ?c1)"
      using "1.IH" [rule_format, of "drop n d" f1 ?c1, OF _ n(3) l(3) le] n(2) False by (simp add: diff_less)
    moreover have "take (position f1 p) ?c1 = take ?q c @ take n d" using l(1,2) "1.prems"(3) by simp
    moreover have "drop (position f1 p + length (drop n d)) ?c1 = drop (?q + length d) c"
    proof -
      have s: "position f1 p + length (drop n d) = ?q + length d" using l(1,2) by simp
      have "length (take ?q c @ take n d) = ?q + n" using l(1) "1.prems"(3) by simp
      moreover have "?q + n \<le> ?q + length d" using l(1) by simp
      ultimately show ?thesis unfolding s using l(1) by (simp add: drop_append add.commute)
    qed
    ultimately have "contents f' p = Some ((take ?q c @ take n d) @ drop n d @ drop (?q + length d) c)"
      by (simp only:)
    also have "(take ?q c @ take n d) @ drop n d @ drop (?q + length d) c = take ?q c @ d @ drop (?q + length d) c"
      by (metis append.assoc append_take_drop_id)
    finally show ?thesis .
  qed
qed

text \<open>Reading a whole buffer gives the bytes from the position on.\<close>

lemma read_all_contents:
  assumes law: "fs_lawful ops contents position"
  shows "contents (snd (read_all ops p n f)) = contents f
    \<and> (\<forall>b c. fst (read_all ops p n f) = Inr b \<longrightarrow> contents f p = Some c \<longrightarrow> b = take n (drop (position f p) c)
         \<and> length b = n)"
proof (induction n arbitrary: f rule: less_induct)
  case (less n)
  obtain r f1 where w: "fs_read ops p n f = (r, f1)" by fastforce
  then have f1: "contents f1 = contents f" using lawful_frame(6) [OF law, of p n f] by simp
  show ?case
  proof (cases "n = 0 \<or> (\<exists>e. r = Inl e) \<or> r = Inr []")
    case True
    then show ?thesis using w f1 by (subst (1 2) read_all.simps) auto
  next
    case False
    then obtain b where b: "r = Inr b" "b \<noteq> []" "n \<noteq> 0" by (cases r) auto
    obtain r2 f2 where 2: "read_all ops p (n - length b) f1 = (r2, f2)" by fastforce
    have lt: "n - length b < n" using b by (simp add: diff_less)
    note ih = less.IH [OF lt, of f1, unfolded 2 fst_conv snd_conv]
    show ?thesis
    proof (cases r2)
      case (Inl e)
      with w b 2 ih f1 show ?thesis by (subst (1 2) read_all.simps) simp
    next
      case (Inr rest)
      have fst_eq: "read_all ops p n f = (Inr (b @ rest), f2)"
        using w b 2 Inr by (subst read_all.simps) simp
      have "b @ rest = take n (drop (position f p) c) \<and> length (b @ rest) = n" if c: "contents f p = Some c" for c
      proof -
        note l = lawful_read [OF law w [unfolded b(1)] c]
        have le: "length b \<le> n" using l(1) by simp
        have rest: "rest = take (n - length b) (drop (position f1 p) c)" "length rest = n - length b"
          using ih [THEN conjunct2, rule_format, OF Inr, of c] c f1 by metis+
        have "take n (drop (position f p) c) = take (length b) (drop (position f p) c)
            @ take (n - length b) (drop (length b) (drop (position f p) c))"
          using le by (metis add_diff_inverse_nat not_less take_add)
        moreover have "take (length b) (drop (position f p) c) = b"
          unfolding l(1) by (simp add: min_def)
        ultimately show ?thesis using rest l(2) le by (simp add: add.commute)
      qed
      note key = this
      show ?thesis
      proof (intro conjI allI impI)
        show "contents (snd (read_all ops p n f)) = contents f" using fst_eq ih f1 by simp
        fix b' c assume "fst (read_all ops p n f) = Inr b'" "contents f p = Some c"
        moreover from this(1) fst_eq have "b' = b @ rest" by simp
        ultimately show "b' = take n (drop (position f p) c)" "length b' = n" using key [of c] by metis+
      qed
    qed
  qed
qed

text \<open>On a readable file, reading it whole gives its contents.\<close>

lemma read_all_readable:
  assumes law: "fs_lawful ops contents position" and rd: "fs_readable ops contents path"
  shows "contents f path = Some c \<Longrightarrow> position f path + n \<le> length c \<Longrightarrow> \<exists>b. fst (read_all ops path n f) = Inr b"
proof (induction n arbitrary: f rule: less_induct)
  case (less n)
  show ?case
  proof (cases "n = 0")
    case True
    then show ?thesis by (simp add: read_all.simps)
  next
    case False
    obtain b f1 where r: "fs_read ops path n f = (Inr b, f1)"
      using rd less.prems(1) unfolding fs_readable_def by (metis prod.collapse)
    note l = lawful_read [OF law r less.prems(1)]
    have lb: "length b = n" using l(1) less.prems(2) by simp
    have "\<exists>b'. fst (read_all ops path (n - length b) f1) = Inr b'" by (simp add: lb read_all.simps)
    with False r lb show ?thesis
      by (subst read_all.simps) (auto split: prod.splits sum.splits)
  qed
qed

lemma read_whole_file:
  assumes law: "fs_lawful ops contents position" and rd: "fs_readable ops contents path"
    and o: "fs_open ops path FS_READ f = (None, f1)" and c: "contents f path = Some c"
  obtains f2 where "read_all ops path (length c) f1 = (Inr c, f2)"
proof -
  have c1: "contents f1 path = Some c" "position f1 path = 0"
    using lawful_open [OF law o] c by simp_all
  obtain b where b: "fst (read_all ops path (length c) f1) = Inr b"
    using read_all_readable [OF law rd c1(1), of "length c"] c1(2) by auto
  then have "b = c" using read_all_contents [OF law, of path "length c" f1] c1 by simp
  with b that show ?thesis by (metis prod.collapse)
qed

text \<open>A whole file that the loop of the snapshot reads, this loop reads too.\<close>

lemma read_exact_same: "read_all ops path n f = (Inr b, f') \<Longrightarrow> read_exact ops path n f = (Inr b, f')"
proof (induction ops path n f arbitrary: b f' rule: read_all.induct)
  case (1 ops path n f)
  show ?case
  proof (cases "n = 0")
    case True
    with "1.prems" show ?thesis by (simp add: read_all.simps read_exact.simps)
  next
    case False
    obtain r f1 where rd: "fs_read ops path n f = (r, f1)" by fastforce
    with False "1.prems" obtain c where c: "r = Inr c" "c \<noteq> []"
      by (subst (asm) read_all.simps) (auto split: sum.splits if_splits)
    from False "1.prems" rd c obtain rest where rest: "read_all ops path (n - length c) f1 = (Inr rest, f')" "b = c @ rest"
      by (subst (asm) read_all.simps) (auto split: sum.splits prod.splits)
    from "1.IH" [OF False rd [symmetric] c(1) _ rest(1)] c False rd rest(2) show ?thesis
      by (subst read_exact.simps) simp
  qed
qed

lemma read_exact_readable:
  assumes law: "fs_lawful ops contents position" and rd: "fs_readable ops contents path"
    and c: "contents f path = Some c" and n: "position f path + n \<le> length c"
  obtains f' where "read_exact ops path n f = (Inr (take n (drop (position f path) c)), f')" "contents f' = contents f"
proof -
  obtain b f' where b: "read_all ops path n f = (Inr b, f')"
    using read_all_readable [OF law rd c n] by (metis prod.collapse)
  note x = read_all_contents [OF law, of path n f, unfolded b fst_conv snd_conv]
  then have "b = take n (drop (position f path) c)" "contents f' = contents f" using c by auto
  with read_exact_same [OF b] that show thesis by simp
qed

text \<open>Where a seek may go past the end, the gap a write leaves reads as zeros.\<close>

lemma write_all_sparse:
  assumes law: "fs_lawful ops contents position" and sp: "fs_sparse ops contents position"
    and w: "write_all ops p d f = (None, f')" and c: "contents f p = Some c" and d: "d \<noteq> []"
  shows "contents f' p = Some (splice_at (position f p) d c)"
proof -
  let ?q = "position f p"
  obtain r f1 where w1: "fs_write ops p d f = (r, f1)" by fastforce
  with d w obtain n where n: "r = Inr n" "n \<noteq> 0" "write_all ops p (drop n d) f1 = (None, f')"
    by (subst (asm) write_all.simps) (auto split: sum.splits if_splits)
  from sp w1 n(1,2) c have s: "n \<le> length d" "position f1 p = ?q + n"
    "contents f1 p = Some (splice_at ?q (take n d) c)" unfolding fs_sparse_def by blast+
  let ?head = "take ?q (c @ replicate (?q - length c) 0)"
  have h: "length ?head = ?q" by simp
  have e: "splice_at ?q (take n d) c = ?head @ take n d @ drop (?q + n) c" using s(1) by (simp add: splice_at_def min_def)
  have "position f1 p \<le> length (splice_at ?q (take n d) c)" unfolding e s(2) using h s(1) by simp
  from write_all_contents [OF law n(3) s(3) this]
  have "contents f' p = Some (take (?q + n) (?head @ take n d @ drop (?q + n) c) @ drop n d
      @ drop (?q + n + length (drop n d)) (?head @ take n d @ drop (?q + n) c))" unfolding e s(2) .
  moreover have "take (?q + n) (?head @ take n d @ drop (?q + n) c) = ?head @ take n d" using h s(1) by simp
  moreover have "drop (?q + n + length (drop n d)) (?head @ take n d @ drop (?q + n) c) = drop (?q + length d) c"
    using h s(1) by (simp add: add.commute)
  ultimately have "contents f' p = Some ((?head @ take n d) @ drop n d @ drop (?q + length d) c)" by (simp only:)
  then show ?thesis unfolding splice_at_def by (metis append.assoc append_take_drop_id)
qed

text \<open>The outcome of a replacement, call by call.\<close>

lemma snapshot_write_outcome:
  assumes law: "fs_lawful ops contents position" and ne: "tmp \<noteq> target"
    and w: "kfsw_snapshot_write ops (Some target) (Some tmp) (Some data) f = (r, f')"
  shows "contents f' target = (if r = None then Some data else contents f target)
    \<and> (\<forall>q. q \<noteq> target \<longrightarrow> q \<noteq> tmp \<longrightarrow> contents f' q = contents f q)"
proof (cases "storage_ready ops f")
  case True
  define f1 where "f1 = snd (fs_unlink ops tmp f)"
  obtain opened f2 where o: "fs_open ops tmp FS_CREATE_WRITE_TRUNC f1 = (opened, f2)" by fastforce
  obtain written f3 where wr: "write_all ops tmp data f2 = (written, f3)" by fastforce
  obtain synced f4 where s: "(if written = None then fs_sync ops tmp f3 else (written, f3)) = (synced, f4)" by fastforce
  obtain closed f5 where c: "fs_close ops tmp f4 = (closed, f5)" by fastforce
  obtain renamed f6 where rn: "fs_rename ops tmp target f5 = (renamed, f6)" by fastforce
  note fr = lawful_frame [OF law]
  have e1: "q \<noteq> tmp \<Longrightarrow> contents f1 q = contents f q" for q by (simp add: f1_def fr(1))
  have e2: "q \<noteq> tmp \<Longrightarrow> contents f2 q = contents f q" for q using fr(2) [of q tmp _ f1] o e1 by (metis snd_conv)
  have e3: "q \<noteq> tmp \<Longrightarrow> contents f3 q = contents f q" for q
    using write_all_frame [OF law, of q tmp data f2] wr e2 by simp
  have c4: "contents f4 = contents f3" using s fr(4) [of tmp f3] by (auto split: if_splits)
  have c5: "contents f5 = contents f3" using c fr(5) [of tmp f4] c4 by simp
  have e5: "q \<noteq> tmp \<Longrightarrow> contents f5 q = contents f q" for q using c5 e3 by simp
  have u: "q \<noteq> tmp \<Longrightarrow> contents (snd (fs_unlink ops tmp g)) q = contents g q" for q g by (rule fr(1))
  have data: "contents f5 tmp = Some data" if "opened = None" "written = None"
    using lawful_open [OF law o [unfolded that(1)]] write_all_contents [OF law wr [unfolded that(2)], of "[]"] c5
    by simp
  note rename = lawful_rename [OF law rn ne]
  consider (open_failed) "opened \<noteq> None" "(r, f') = (opened, f2)"
    | (write_failed) "r \<noteq> None" "f' = snd (fs_unlink ops tmp f5)"
    | (rename_failed) "r \<noteq> None" "renamed \<noteq> None" "f' = snd (fs_unlink ops tmp f6)"
    | (success) "r = None" "opened = None" "written = None" "renamed = None" "f' = f6"
  proof -
    obtain result where res: "first_error synced closed = result" by simp
    have wn: "written = None" if "result = None"
      using that s res by (cases synced; cases written) auto
    have "(r, f') = (if opened \<noteq> None then (opened, f2)
        else if result \<noteq> None then (result, snd (fs_unlink ops tmp f5))
        else if renamed \<noteq> None then (renamed, snd (fs_unlink ops tmp f6)) else (None, f6))"
    proof (cases opened)
      case None
      have "kfsw_snapshot_write ops (Some target) (Some tmp) (Some data) f =
          (if result \<noteq> None then (result, snd (fs_unlink ops tmp f5))
           else if renamed \<noteq> None then (renamed, snd (fs_unlink ops tmp f6)) else (None, f6))"
        using True o wr s c rn res None
        by (simp only: kfsw_snapshot_write_def Let_def f1_def [symmetric] option.case prod.case) simp
      with None w show ?thesis by simp
    next
      case (Some e)
      with True o w show ?thesis by (auto simp: kfsw_snapshot_write_def Let_def f1_def [symmetric])
    qed
    with that wn show thesis by (auto split: if_splits)
  qed
  then show ?thesis
  proof cases
    case open_failed
    with e2 ne show ?thesis by auto
  next
    case write_failed
    with e5 u ne show ?thesis by auto
  next
    case rename_failed
    with rename(3) e5 u ne show ?thesis by auto
  next
    case success
    with rename(1,2) data e5 ne show ?thesis by auto
  qed
next
  case False
  with w show ?thesis by (auto simp: kfsw_snapshot_write_def)
qed

lemma snapshot_write_contents:
  assumes "fs_lawful ops contents position" and "tmp \<noteq> target"
    and "kfsw_snapshot_write ops (Some target) (Some tmp) (Some data) f = (None, f')"
  shows "contents f' target = Some data"
  using snapshot_write_outcome [OF assms] by simp

section \<open>Properties\<close>

text \<open>
  C34. Replacing a file is all or nothing: on a file system that keeps the stated laws,
  \<open>kfsw_snapshot_write\<close> returns 0 only if the target then holds exactly the data, an error leaves the
  target's old contents, and no file other than the target and its temporary changes, whatever the
  individual calls returned and however few bytes each write took.
\<close>

theorem snapshot_write_atomic:
  assumes "fs_lawful ops contents position" and "tmp \<noteq> target"
    and "kfsw_snapshot_write ops (Some target) (Some tmp) (Some data) f = (r, f')"
  shows "contents f' target = (if r = None then Some data else contents f target)
    \<and> (\<forall>q. q \<noteq> target \<longrightarrow> q \<noteq> tmp \<longrightarrow> contents f' q = contents f q)"
  by (rule snapshot_write_outcome [OF assms])

theorem snapshot_write_atomic_witness:
  "let r = kfsw_snapshot_write (ram_ops 1) (Some ''a'') (Some ''b'') (Some [1, 2, 3]) empty_fs
   in fst r = None \<and> rf_files (snd r) ''a'' = Some [1, 2, 3]"
proof -
  obtain r f' where w: "kfsw_snapshot_write (ram_ops 1) (Some ''a'') (Some ''b'') (Some [1, 2, 3]) empty_fs = (r, f')"
    by fastforce
  have "fst (kfsw_snapshot_write (ram_ops 1) (Some ''a'') (Some ''b'') (Some [1, 2, 3]) empty_fs) = None" by code_simp
  with snapshot_write_atomic [OF ram_lawful _ w] w show ?thesis by simp
qed

end
