(* ===== verification/Param_Persist.thy ===== *)
theory Param_Persist
  imports Parameter Files
begin

text \<open>
  The persistent parameter snapshot, \<^verbatim>\<open>src/parameter/parameter_persistence.c\<close> with the budget of
  \<^verbatim>\<open>src/parameter/parameter_budget.h\<close>: one file that holds every persistent parameter with its name, type
  and value, written as a whole and checked as a whole before any of it is applied.

  The static buffer \<open>snapshot\<close> is the list of its used bytes. A node (\<open>persist_node\<close>) is the parameter
  service, the files and the two statics of this file. The CRC and the file system are parameters;
  \<open>mount\<close> is \<open>KFSW_STORAGE_MOUNT_POINT\<close>.

  Proved: a snapshot that was saved loads on the same build and restores every persistent parameter to
  the value it had; a load that returns an error changed no parameter.
\<close>

section \<open>Layout\<close>

definition KFSW_PARAM_PERSIST_MAX_BYTES :: nat where "KFSW_PARAM_PERSIST_MAX_BYTES = 2048"
definition KFSW_PARAM_PERSIST_MAX_ENTRY_COUNT :: u16 where "KFSW_PARAM_PERSIST_MAX_ENTRY_COUNT = 64"
definition KFSW_PARAM_PERSIST_MAGIC :: bytes where "KFSW_PARAM_PERSIST_MAGIC = [0x4B, 0x50, 0x41, 0x52]"
definition KFSW_PARAM_PERSIST_VERSION :: u16 where "KFSW_PARAM_PERSIST_VERSION = 1"
definition KFSW_PARAM_PERSIST_HEADER_SIZE :: nat where "KFSW_PARAM_PERSIST_HEADER_SIZE = 20"
definition KFSW_PARAM_PERSIST_CRC_OFFSET :: nat where "KFSW_PARAM_PERSIST_CRC_OFFSET = 16"
definition KFSW_PARAM_PERSIST_ENTRY_HEADER_SIZE :: nat where "KFSW_PARAM_PERSIST_ENTRY_HEADER_SIZE = 4"

definition KFSW_PARAM_PERSIST_DIRECTORY :: "string \<Rightarrow> string" where
  "KFSW_PARAM_PERSIST_DIRECTORY mount = mount @ ''/params''"

definition KFSW_PARAM_PERSIST_PATH :: "string \<Rightarrow> string" where
  "KFSW_PARAM_PERSIST_PATH mount = KFSW_PARAM_PERSIST_DIRECTORY mount @ ''/parameters.dat''"

definition KFSW_PARAM_PERSIST_TEMP_PATH :: "string \<Rightarrow> string" where
  "KFSW_PARAM_PERSIST_TEMP_PATH mount = KFSW_PARAM_PERSIST_DIRECTORY mount @ ''/parameters.tmp''"

record persist_entry =
  pe_name :: bytes
  pe_value :: bytes
  pe_value_size :: u16
  pe_name_size :: u8
  pe_type :: u8

record ('w, 'f) persist_node =
  pn_param :: "'w param_state"
  pn_files :: 'f
  pn_snapshot_bytes :: u32
  pn_warned :: bool

section \<open>Building a snapshot\<close>

definition bounded_string_length :: "string \<Rightarrow> nat \<Rightarrow> nat" where
  "bounded_string_length s maximum = min (length s) maximum"

text \<open>The loop over the entries: the bytes after the header and their number of entries so far.\<close>

fun build_entries ::
  "param_config \<Rightarrow> 'w kfsw_param_entry list \<Rightarrow> bytes \<Rightarrow> u16 \<Rightarrow> 'w param_mem
     \<Rightarrow> (errno + bytes \<times> u16) \<times> 'w param_mem" where
  "build_entries cfg [] payload count pm = (Inr (payload, count), pm)"
| "build_entries cfg (e # es) payload count pm =
     (if pi_node (en_info e) \<noteq> 0 \<or> \<not> has_flag (pi_flags (en_info e)) KFSW_PARAM_FLAG_PERSISTENT
      then build_entries cfg es payload count pm
      else
        (let name_size = bounded_string_length (pi_name (en_info e)) (KFSW_PARAM_NAME_MAX + 1)
         in if name_size = 0 \<or> name_size > KFSW_PARAM_NAME_MAX then (Inl ENAMETOOLONG, pm)
            else
              (case kfsw_param_wire_type_of e of
                 Inl err \<Rightarrow> build_entries cfg es payload count pm
               | Inr (type, wire_size) \<Rightarrow>
                   (let value_size =
                          (if pi_type (en_info e) = KFSW_PARAM_STRING \<or> pi_type (en_info e) = KFSW_PARAM_DATA
                           then unat (pi_array_size (en_info e)) else unat wire_size);
                        offset = KFSW_PARAM_PERSIST_HEADER_SIZE + length payload
                    in if count \<ge> KFSW_PARAM_PERSIST_MAX_ENTRY_COUNT
                          \<or> offset + KFSW_PARAM_PERSIST_ENTRY_HEADER_SIZE + name_size + value_size
                              > KFSW_PARAM_PERSIST_MAX_BYTES
                       then (Inl E2BIG, pm)
                       else
                         (case kfsw_param_wire_encode cfg e
                             (KFSW_PARAM_PERSIST_MAX_BYTES
                               - (offset + KFSW_PARAM_PERSIST_ENTRY_HEADER_SIZE + name_size)) pm of
                            (Inl err, pm') \<Rightarrow> (Inl err, pm')
                          | (Inr encoded, pm') \<Rightarrow>
                              build_entries cfg es
                                (payload @ [word_of_nat name_size, type]
                                  @ sys_put_be16 (word_of_nat (length encoded))
                                  @ take name_size (bytes_of_string (pi_name (en_info e))) @ encoded)
                                (count + 1) pm')))))"

definition snapshot_header :: "nat \<Rightarrow> u16 \<Rightarrow> u32 \<Rightarrow> bytes" where
  "snapshot_header payload_size count crc =
     KFSW_PARAM_PERSIST_MAGIC @ sys_put_be16 KFSW_PARAM_PERSIST_VERSION
       @ sys_put_be16 (word_of_nat KFSW_PARAM_PERSIST_HEADER_SIZE) @ sys_put_be32 (word_of_nat payload_size)
       @ sys_put_be16 count @ sys_put_be16 0 @ sys_put_be32 crc"

definition build_snapshot ::
  "(bytes \<Rightarrow> u32) \<Rightarrow> param_config \<Rightarrow> 'w param_state \<Rightarrow> (errno + bytes) \<times> 'w param_state" where
  "build_snapshot crc32_ieee cfg st =
     (case build_entries cfg (parameter_table st) [] 0 (param_memory st) of
        (Inl e, pm) \<Rightarrow> (Inl e, st\<lparr>param_memory := pm\<rparr>)
      | (Inr (payload, count), pm) \<Rightarrow>
          (let crc = crc32_ieee (snapshot_header (length payload) count 0 @ payload)
           in (Inr (snapshot_header (length payload) count crc @ payload), st\<lparr>param_memory := pm\<rparr>)))"

definition kfsw_param_persist_bytes :: "('w, 'f) persist_node \<Rightarrow> u32" where
  "kfsw_param_persist_bytes nd = pn_snapshot_bytes nd"

definition kfsw_param_persist_max_bytes :: u32 where
  "kfsw_param_persist_max_bytes = word_of_nat KFSW_PARAM_PERSIST_MAX_BYTES"

definition check_budget :: "'f fs_ops \<Rightarrow> nat \<Rightarrow> 'f \<Rightarrow> rc" where
  "check_budget ops snapshot_size f =
     (if snapshot_size > KFSW_PARAM_PERSIST_MAX_BYTES then Some EFBIG
      else
        (case storage_free ops f of
           Inl e \<Rightarrow> None
         | Inr free_bytes \<Rightarrow> if snapshot_size > unat free_bytes then Some ENOSPC else None))"

section \<open>Checking a snapshot\<close>

text \<open>The longest value, \<open>KFSW_PARAM_PERSIST_MAX_VALUE_SIZE\<close>, is the longest string of the build.\<close>

definition next_entry :: "param_config \<Rightarrow> bytes \<Rightarrow> nat \<Rightarrow> errno + (persist_entry \<times> nat)" where
  "next_entry cfg data offset =
     (if offset + KFSW_PARAM_PERSIST_ENTRY_HEADER_SIZE > length data then Inl EBADMSG
      else
        (let name_size = data ! offset;
             type = data ! (offset + 1);
             value_size = sys_get_be16 (drop (offset + 2) data);
             start = offset + KFSW_PARAM_PERSIST_ENTRY_HEADER_SIZE;
             entry_size = unat name_size + unat value_size
         in if name_size = 0 \<or> unat name_size > KFSW_PARAM_NAME_MAX \<or> value_size = 0
               \<or> unat value_size > cfg_string_max cfg \<or> start + entry_size > length data
            then Inl EBADMSG
            else Inr (\<lparr>pe_name = take (unat name_size) (drop start data),
                       pe_value = drop (start + unat name_size) data, pe_value_size = value_size,
                       pe_name_size = name_size, pe_type = type\<rparr>,
                      start + entry_size)))"

fun check_snapshot_entries :: "param_config \<Rightarrow> bytes \<Rightarrow> nat \<Rightarrow> nat \<Rightarrow> rc" where
  "check_snapshot_entries cfg data 0 offset = (if offset = length data then None else Some EBADMSG)"
| "check_snapshot_entries cfg data (Suc n) offset =
     (case next_entry cfg data offset of
        Inl e \<Rightarrow> Some e
      | Inr (entry, offset') \<Rightarrow> check_snapshot_entries cfg data n offset')"

definition validate_snapshot :: "(bytes \<Rightarrow> u32) \<Rightarrow> param_config \<Rightarrow> bytes \<Rightarrow> errno + u16" where
  "validate_snapshot crc32_ieee cfg data =
     (if length data < KFSW_PARAM_PERSIST_HEADER_SIZE then Inl EMSGSIZE
      else if take 4 data \<noteq> KFSW_PARAM_PERSIST_MAGIC then Inl EBADMSG
      else if sys_get_be16 (drop 4 data) \<noteq> KFSW_PARAM_PERSIST_VERSION then Inl EPROTONOSUPPORT
      else if sys_get_be16 (drop 6 data) \<noteq> word_of_nat KFSW_PARAM_PERSIST_HEADER_SIZE
              \<or> sys_get_be16 (drop 14 data) \<noteq> 0
        then Inl EBADMSG
      else
        (let payload_size = sys_get_be32 (drop 8 data); entry_count = sys_get_be16 (drop 12 data)
         in if unat payload_size \<noteq> length data - KFSW_PARAM_PERSIST_HEADER_SIZE
               \<or> entry_count > KFSW_PARAM_PERSIST_MAX_ENTRY_COUNT
            then Inl EMSGSIZE
            else if crc32_ieee (take KFSW_PARAM_PERSIST_CRC_OFFSET data @ sys_put_be32 0
                   @ drop KFSW_PARAM_PERSIST_HEADER_SIZE data)
                 \<noteq> sys_get_be32 (drop KFSW_PARAM_PERSIST_CRC_OFFSET data)
              then Inl EBADMSG
            else
              (case check_snapshot_entries cfg data (unat entry_count) KFSW_PARAM_PERSIST_HEADER_SIZE of
                 Some e \<Rightarrow> Inl e
               | None \<Rightarrow> Inr entry_count)))"

section \<open>Applying a snapshot\<close>

definition entry_matches :: "'w kfsw_param_entry \<Rightarrow> persist_entry \<Rightarrow> bool" where
  "entry_matches param_entry entry =
     (case kfsw_param_wire_type_of param_entry of
        Inl e \<Rightarrow> False
      | Inr (type, value_size) \<Rightarrow>
          type = pe_type entry
          \<and> (if type = KFSW_PARAM_WIRE_STRING then pe_value_size entry \<le> pi_array_size (en_info param_entry)
             else value_size = pe_value_size entry))"

fun walk_entries ::
  "param_config \<Rightarrow> bytes \<Rightarrow> u16 \<Rightarrow> bool \<Rightarrow> nat \<Rightarrow> nat \<Rightarrow> 'w param_state \<Rightarrow> rc \<times> 'w param_state" where
  "walk_entries cfg data entry_count do_apply 0 offset st = (None, st)"
| "walk_entries cfg data entry_count do_apply (Suc n) offset st =
     (case next_entry cfg data offset of
        Inl e \<Rightarrow> (Some e, st)
      | Inr (entry, offset') \<Rightarrow>
          (case kfsw_param_find_name (Some (c_string_of_bytes (pe_name entry))) st of
             None \<Rightarrow> walk_entries cfg data entry_count do_apply n offset' st
           | Some param_entry \<Rightarrow>
               if \<not> has_flag (pi_flags (en_info param_entry)) KFSW_PARAM_FLAG_PERSISTENT
               then walk_entries cfg data entry_count do_apply n offset' st
               else if \<not> entry_matches param_entry entry
               then walk_entries cfg data entry_count do_apply n offset' st
               else if pd_apply (en_definition param_entry) \<noteq> None \<and> entry_count \<noteq> 1
               then (Some ENOTSUP, st)
               else
                 (case kfsw_param_wire_decode cfg param_entry (pe_type entry) (pe_value entry)
                     (pe_value_size entry) (param_memory st) of
                    Inl e \<Rightarrow> walk_entries cfg data entry_count do_apply n offset' st
                  | Inr v \<Rightarrow>
                      if do_apply then
                        (case kfsw_param_wire_apply (param_initialized st) param_entry v (param_memory st) of
                           (Some e, pm) \<Rightarrow> (Some e, st\<lparr>param_memory := pm\<rparr>)
                         | (None, pm) \<Rightarrow>
                             walk_entries cfg data entry_count do_apply n offset' (st\<lparr>param_memory := pm\<rparr>))
                      else walk_entries cfg data entry_count do_apply n offset' st)))"

definition walk_snapshot ::
  "param_config \<Rightarrow> bytes \<Rightarrow> u16 \<Rightarrow> bool \<Rightarrow> 'w param_state \<Rightarrow> rc \<times> 'w param_state" where
  "walk_snapshot cfg data entry_count do_apply st =
     walk_entries cfg data entry_count do_apply (unat entry_count) KFSW_PARAM_PERSIST_HEADER_SIZE st"

definition apply_snapshot ::
  "param_config \<Rightarrow> bytes \<Rightarrow> u16 \<Rightarrow> 'w param_state \<Rightarrow> rc \<times> 'w param_state" where
  "apply_snapshot cfg data entry_count st =
     (case walk_snapshot cfg data entry_count False st of
        (Some e, st') \<Rightarrow> (Some e, st')
      | (None, st') \<Rightarrow> walk_snapshot cfg data entry_count True st')"

section \<open>Saving, loading and clearing\<close>

definition persist_save ::
  "(bytes \<Rightarrow> u32) \<Rightarrow> 'f fs_ops \<Rightarrow> string \<Rightarrow> param_config \<Rightarrow> ('w, 'f) persist_node
     \<Rightarrow> rc \<times> ('w, 'f) persist_node" where
  "persist_save crc32_ieee ops mount cfg nd =
     (if \<not> param_initialized (pn_param nd) \<or> \<not> storage_ready ops (pn_files nd) then (Some EACCES, nd)
      else
        (case build_snapshot crc32_ieee cfg (pn_param nd) of
           (Inl e, st) \<Rightarrow> (Some e, nd\<lparr>pn_param := st\<rparr>)
         | (Inr data, st) \<Rightarrow>
             (let nd1 = nd\<lparr>pn_param := st, pn_snapshot_bytes := word_of_nat (length data)\<rparr>;
                  (made, f1) = fs_mkdir ops (KFSW_PARAM_PERSIST_DIRECTORY mount) (pn_files nd1)
              in if made \<noteq> None \<and> made \<noteq> Some EEXIST then (made, nd1\<lparr>pn_files := f1\<rparr>)
                 else
                   (case check_budget ops (length data) f1 of
                      Some e \<Rightarrow> (Some e, nd1\<lparr>pn_files := f1\<rparr>)
                    | None \<Rightarrow>
                        (case kfsw_snapshot_write ops (Some (KFSW_PARAM_PERSIST_PATH mount))
                            (Some (KFSW_PARAM_PERSIST_TEMP_PATH mount)) (Some data) f1 of
                           (result, f2) \<Rightarrow> (result, nd1\<lparr>pn_files := f2\<rparr>))))))"

text \<open>The part of \<open>persist_load\<close> on the file that \<open>fs_stat\<close> found, of \<open>size\<close> bytes.\<close>

definition load_file ::
  "(bytes \<Rightarrow> u32) \<Rightarrow> 'f fs_ops \<Rightarrow> string \<Rightarrow> param_config \<Rightarrow> nat \<Rightarrow> ('w, 'f) persist_node
     \<Rightarrow> rc \<times> ('w, 'f) persist_node" where
  "load_file crc32_ieee ops path cfg n nd =
     (case fs_open ops path FS_READ (pn_files nd) of
        (Some e, f1) \<Rightarrow> (Some e, nd\<lparr>pn_files := f1\<rparr>)
      | (None, f1) \<Rightarrow>
          (case read_all ops path n f1 of
             (contents, f2) \<Rightarrow>
               (case fs_close ops path f2 of
                  (closed, f3) \<Rightarrow>
                    (let nd1 = nd\<lparr>pn_files := f3\<rparr>
                     in case contents of
                          Inl e \<Rightarrow> (Some e, nd1)
                        | Inr data \<Rightarrow>
                            if closed \<noteq> None then (closed, nd1)
                            else
                              (case validate_snapshot crc32_ieee cfg data of
                                 Inl e \<Rightarrow> (Some e, nd1)
                               | Inr entry_count \<Rightarrow>
                                   (case apply_snapshot cfg data entry_count (pn_param nd1) of
                                      (Some e, st) \<Rightarrow> (Some e, nd1\<lparr>pn_param := st\<rparr>)
                                    | (None, st) \<Rightarrow>
                                        (None, nd1\<lparr>pn_param := st,
                                           pn_snapshot_bytes := word_of_nat n\<rparr>)))))))"

definition persist_load ::
  "(bytes \<Rightarrow> u32) \<Rightarrow> 'f fs_ops \<Rightarrow> string \<Rightarrow> param_config \<Rightarrow> ('w, 'f) persist_node
     \<Rightarrow> rc \<times> ('w, 'f) persist_node" where
  "persist_load crc32_ieee ops mount cfg nd =
     (if \<not> param_initialized (pn_param nd) \<or> \<not> storage_ready ops (pn_files nd) then (Some EACCES, nd)
      else
        (let f1 = snd (fs_unlink ops (KFSW_PARAM_PERSIST_TEMP_PATH mount) (pn_files nd));
             nd1 = nd\<lparr>pn_files := f1\<rparr>
         in case fs_stat ops (KFSW_PARAM_PERSIST_PATH mount) f1 of
              Inl e \<Rightarrow> (Some e, nd1)
            | Inr (is_file, n) \<Rightarrow>
                if \<not> is_file \<or> n < KFSW_PARAM_PERSIST_HEADER_SIZE \<or> n > KFSW_PARAM_PERSIST_MAX_BYTES
                then (Some EMSGSIZE, nd1)
                else load_file crc32_ieee ops (KFSW_PARAM_PERSIST_PATH mount) cfg n nd1))"

definition kfsw_param_persist_clear ::
  "'f fs_ops \<Rightarrow> string \<Rightarrow> ('w, 'f) persist_node \<Rightarrow> rc \<times> ('w, 'f) persist_node" where
  "kfsw_param_persist_clear ops mount nd =
     (if \<not> param_initialized (pn_param nd) \<or> \<not> storage_ready ops (pn_files nd) then (Some EACCES, nd)
      else
        (let (active_result, f1) = fs_unlink ops (KFSW_PARAM_PERSIST_PATH mount) (pn_files nd);
             (temp_result, f2) = fs_unlink ops (KFSW_PARAM_PERSIST_TEMP_PATH mount) f1;
             nd' = nd\<lparr>pn_files := f2\<rparr>
         in if active_result \<noteq> None \<and> active_result \<noteq> Some ENOENT then (active_result, nd')
            else if temp_result = None \<or> temp_result = Some ENOENT then (None, nd')
            else (temp_result, nd')))"

text \<open>\<open>save_warn\<close> is \<open>CONFIG_KFSW_PARAM_PERSIST_SAVE_WARN\<close>; 0 leaves the warning out of the build.\<close>

definition warn_about_wear :: "u32 \<Rightarrow> ('w, 'f) persist_node \<Rightarrow> ('w, 'f) persist_node" where
  "warn_about_wear save_warn nd =
     (if save_warn = 0 \<or> pn_warned nd then nd
      else
        (case kfsw_param_get_stats 0 Dest (pn_param nd) of
           Inl e \<Rightarrow> nd
         | Inr stats \<Rightarrow> if pst_saves stats < save_warn then nd else nd\<lparr>pn_warned := True\<rparr>))"

definition kfsw_param_persist_save ::
  "(bytes \<Rightarrow> u32) \<Rightarrow> 'f fs_ops \<Rightarrow> string \<Rightarrow> u32 \<Rightarrow> param_config \<Rightarrow> ('w, 'f) persist_node
     \<Rightarrow> rc \<times> ('w, 'f) persist_node" where
  "kfsw_param_persist_save crc32_ieee ops mount save_warn cfg nd =
     (case persist_save crc32_ieee ops mount cfg nd of
        (Some e, nd') \<Rightarrow> (Some e, nd')
      | (None, nd') \<Rightarrow>
          (None, warn_about_wear save_warn (nd'\<lparr>pn_param := kfsw_param_count_save (pn_param nd')\<rparr>)))"

definition kfsw_param_persist_table_count :: "u8 \<Rightarrow> dest \<Rightarrow> 'w param_state \<Rightarrow> errno + u16" where
  "kfsw_param_persist_table_count table count st =
     (if count = Null then Inl EINVAL
      else
        (let mine = filter (\<lambda>e. (ucast (drop_bit 8 (pi_id (en_info e))) :: u8) = table) (parameter_table st)
         in if mine = [] then Inl ENOENT
            else Inr (foldl (\<lambda>n e. if is_persistent e then n + 1 else n) 0 mine)))"

definition kfsw_param_persist_load ::
  "(bytes \<Rightarrow> u32) \<Rightarrow> 'f fs_ops \<Rightarrow> string \<Rightarrow> param_config \<Rightarrow> ('w, 'f) persist_node
     \<Rightarrow> rc \<times> ('w, 'f) persist_node" where
  "kfsw_param_persist_load crc32_ieee ops mount cfg nd =
     (case persist_load crc32_ieee ops mount cfg nd of
        (result, nd') \<Rightarrow>
          if result \<noteq> None \<and> result \<noteq> Some ENOENT
          then (result, nd'\<lparr>pn_param := kfsw_param_count_load_failure (pn_param nd')\<rparr>)
          else (result, nd'))"

section \<open>Specification vocabulary\<close>

text \<open>The entries a snapshot holds, and the bytes of one of them.\<close>

definition saved :: "'w kfsw_param_entry \<Rightarrow> bool" where
  "saved e \<longleftrightarrow> pi_node (en_info e) = 0 \<and> is_persistent e \<and> ok (kfsw_param_wire_type_of e) \<noteq> None"

definition wire_type :: "'w kfsw_param_entry \<Rightarrow> u8" where
  "wire_type e = (case kfsw_param_wire_type_of e of Inl err \<Rightarrow> 0 | Inr (type, n) \<Rightarrow> type)"

definition snapshot_entry_bytes :: "'w param_mem \<Rightarrow> 'w kfsw_param_entry \<Rightarrow> bytes" where
  "snapshot_entry_bytes pm e =
     [word_of_nat (length (pi_name (en_info e))), wire_type e] @ sys_put_be16 (word_of_nat (length (file_bytes e pm)))
       @ bytes_of_string (pi_name (en_info e)) @ file_bytes e pm"

text \<open>Validators that accept what is stored, whatever else they look at.\<close>

definition accepts_stored :: "param_config \<Rightarrow> 'w kfsw_param_entry \<Rightarrow> 'w param_mem \<Rightarrow> bool" where
  "accepts_stored cfg e pm \<longleftrightarrow>
     (\<forall>pm'. kfsw_param_validate_entry (Some e) (Some (entry_value cfg e pm)) pm' = None)"

text \<open>A registry whose storage is sound and whose names are C strings.\<close>

definition param_ready :: "param_config \<Rightarrow> 'w param_state \<Rightarrow> bool" where
  "param_ready cfg st \<longleftrightarrow>
     param_initialized st \<and> registry_ok cfg st \<and> storage_ok cfg st
     \<and> (\<forall>e \<in> set (parameter_table st). c_string (pi_name (en_info e)))"

text \<open>
  The entries \<open>L\<close> of a snapshot taken from memory \<open>pm\<close>, for a node that is ready: registered there, saved,
  well formed in both memories, accepted by their validators and without an \<open>apply\<close> callback.
\<close>

definition loadable :: "param_config \<Rightarrow> 'w param_mem \<Rightarrow> 'w kfsw_param_entry list \<Rightarrow> 'w param_state \<Rightarrow> bool" where
  "loadable cfg pm L st \<longleftrightarrow>
     8 \<le> cfg_string_max cfg \<and> param_ready cfg st
     \<and> (\<forall>e \<in> set L. e \<in> set (parameter_table st) \<and> saved e \<and> stored_formed e pm \<and> accepts_stored cfg e pm
          \<and> pd_apply (en_definition e) = None)"

text \<open>One persistent string and one persistent number, on a file system in memory.\<close>

definition demo_crc :: "bytes \<Rightarrow> u32" where
  "demo_crc b = (if b = [] then 0 else 7)"

definition demo_node :: "unit param_state \<Rightarrow> ram_fs \<Rightarrow> (unit, ram_fs) persist_node" where
  "demo_node st f = \<lparr>pn_param = st, pn_files = f, pn_snapshot_bytes = 0, pn_warned = False\<rparr>"

definition demo_set_state :: "unit param_state" where
  "demo_set_state = snd (kfsw_param_set None (Some ''level'') (Some (demo_level 700)) demo_state)"

definition demo_saved_node :: "(unit, ram_fs) persist_node" where
  "demo_saved_node = snd (kfsw_param_persist_save demo_crc (ram_ops 99) ''/k'' 0 demo_param_config
     (demo_node demo_set_state empty_fs))"

section \<open>Lemmas on one entry\<close>

lemma wire_type_Inr:
  assumes "saved e"
  obtains n where "kfsw_param_wire_type_of e = Inr (wire_type e, n)"
  using assms by (auto simp: saved_def wire_type_def split: sum.splits prod.splits)

lemma next_entry_bytes:
  assumes form: "entry_formed cfg e" "stored_formed e pm" and max: "entry_capacity e \<le> cfg_string_max cfg"
    and name: "0 < length (pi_name (en_info e))" "length (pi_name (en_info e)) \<le> KFSW_PARAM_NAME_MAX"
    and data: "data = pre @ snapshot_entry_bytes pm e @ rest"
  shows "next_entry cfg data (length pre) =
    Inr (\<lparr>pe_name = bytes_of_string (pi_name (en_info e)), pe_value = file_bytes e pm @ rest,
          pe_value_size = word_of_nat (length (file_bytes e pm)),
          pe_name_size = word_of_nat (length (pi_name (en_info e))), pe_type = wire_type e\<rparr>,
         length pre + length (snapshot_entry_bytes pm e))"
proof -
  note len = length_file_bytes [OF form]
  let ?n = "length (pi_name (en_info e))"
  have n8: "unat (word_of_nat ?n :: u8) = ?n" using name by (intro unat_word_of_nat_small) (simp add: KFSW_PARAM_NAME_MAX_def)
  have v16: "unat (word_of_nat (length (file_bytes e pm)) :: u16) = length (file_bytes e pm)"
    using len(5) by (intro unat_word_of_nat_small) simp
  have nz: "(word_of_nat ?n :: u8) \<noteq> 0" "(word_of_nat (length (file_bytes e pm)) :: u16) \<noteq> 0"
    using n8 v16 name(1) len(2) by (metis less_irrefl unat_0)+
  have d0: "drop (length pre) data = snapshot_entry_bytes pm e @ rest" by (simp add: data)
  have at: "data ! length pre = word_of_nat ?n" "data ! (length pre + 1) = wire_type e"
    by (simp_all add: data snapshot_entry_bytes_def nth_append)
  have d2: "drop (length pre + 2) data = sys_put_be16 (word_of_nat (length (file_bytes e pm)))
      @ bytes_of_string (pi_name (en_info e)) @ file_bytes e pm @ rest"
    by (simp add: data snapshot_entry_bytes_def)
  have d4: "drop (length pre + 4) data = bytes_of_string (pi_name (en_info e)) @ file_bytes e pm @ rest"
    by (simp add: data snapshot_entry_bytes_def)
  have d5: "drop (length pre + 4 + ?n) data = file_bytes e pm @ rest"
    by (metis append_eq_conv_conj d4 drop_drop add.commute length_map)
  have ln: "length data = length pre + 4 + ?n + length (file_bytes e pm) + length rest"
    by (simp add: data snapshot_entry_bytes_def)
  have le: "length (file_bytes e pm) \<le> cfg_string_max cfg" using len(1) max by simp
  show ?thesis
    using name nz at(2) d2
    by (simp add: next_entry_def KFSW_PARAM_PERSIST_ENTRY_HEADER_SIZE_def Let_def at(1) d4 d5 ln le n8 v16
        snapshot_entry_bytes_def not_less del: word_of_nat_eq_0_iff)
qed

lemma file_bytes_cong: "mem pm' = mem pm \<Longrightarrow> file_bytes e pm' = file_bytes e pm"
  by (simp add: file_bytes_def stored_payload_def)

lemma entry_bytes_cong: "mem pm' = mem pm \<Longrightarrow> snapshot_entry_bytes pm' = snapshot_entry_bytes pm"
  by (rule ext) (simp add: snapshot_entry_bytes_def file_bytes_cong [of pm' pm])

lemma entry_value_mem: "mem pm' = mem pm \<Longrightarrow> entry_value cfg e pm' = entry_value cfg e pm"
  by (simp add: entry_value_def stored_payload_def)

text \<open>What registration gives for every entry of a ready registry.\<close>

lemma ready_entry:
  assumes "param_ready cfg st" and "e \<in> set (parameter_table st)"
  shows "entry_formed cfg e" "stored_formed e (param_memory st)" "quiet_entry e"
    "0 < length (pi_name (en_info e))" "length (pi_name (en_info e)) \<le> KFSW_PARAM_NAME_MAX"
    "c_string (pi_name (en_info e))"
  using assms
  by (simp_all add: param_ready_def storage_ok_def separate_def registry_ok_def entry_registered_def)

lemma capacity_fits:
  assumes "entry_formed cfg e" and "8 \<le> cfg_string_max cfg"
  shows "entry_capacity e \<le> cfg_string_max cfg"
proof -
  have "scalar_size t \<le> 8" for t by (cases t) simp_all
  then have "entry_capacity e \<le> 8 \<or> entry_capacity e \<le> cfg_string_max cfg"
    using assms(1) by (auto simp: entry_formed_def entry_capacity_def)
  with assms(2) show ?thesis by auto
qed

text \<open>The loop of the builder appends the bytes of the saved entries.\<close>

lemma build_entries_bytes:
  assumes "\<forall>e \<in> set es. entry_formed cfg e \<and> stored_formed e pm \<and> quiet_entry e
      \<and> 0 < length (pi_name (en_info e)) \<and> length (pi_name (en_info e)) \<le> KFSW_PARAM_NAME_MAX"
    and "build_entries cfg es payload count pm = (Inr (payload', count'), pm')" and "unat count \<le> 64"
    and "KFSW_PARAM_PERSIST_HEADER_SIZE + length payload \<le> KFSW_PARAM_PERSIST_MAX_BYTES"
  shows "mem pm' = mem pm \<and> payload' = payload @ concat (map (snapshot_entry_bytes pm) (filter saved es))
    \<and> unat count' = unat count + length (filter saved es) \<and> unat count' \<le> 64
    \<and> KFSW_PARAM_PERSIST_HEADER_SIZE + length payload' \<le> KFSW_PARAM_PERSIST_MAX_BYTES"
  using assms
proof (induction es arbitrary: payload count pm)
  case (Cons e es)
  have form: "entry_formed cfg e" "stored_formed e pm" "quiet_entry e"
    and name: "0 < length (pi_name (en_info e))" "length (pi_name (en_info e)) \<le> KFSW_PARAM_NAME_MAX"
    using Cons.prems(1) by auto
  have bl: "bounded_string_length (pi_name (en_info e)) (KFSW_PARAM_NAME_MAX + 1) = length (pi_name (en_info e))"
    using name by (simp add: bounded_string_length_def)
  show ?case
  proof (cases "saved e")
    case False
    then have "build_entries cfg (e # es) payload count pm = build_entries cfg es payload count pm"
      using bl name by (auto simp: saved_def is_persistent_def ok_None split: sum.splits)
    with Cons.prems(2) have b: "build_entries cfg es payload count pm = (Inr (payload', count'), pm')" by simp
    have "\<forall>f \<in> set es. entry_formed cfg f \<and> stored_formed f pm \<and> quiet_entry f
        \<and> 0 < length (pi_name (en_info f)) \<and> length (pi_name (en_info f)) \<le> KFSW_PARAM_NAME_MAX"
      using Cons.prems(1) by simp
    note ih = Cons.IH [OF this b Cons.prems(3,4)]
    have f: "filter saved (e # es) = filter saved es" using False by simp
    show ?thesis unfolding f by (rule ih)
  next
    case True
    then obtain n where t: "kfsw_param_wire_type_of e = Inr (wire_type e, n)" by (rule wire_type_Inr)
    have here: "pi_node (en_info e) = 0" "has_flag (pi_flags (en_info e)) KFSW_PARAM_FLAG_PERSISTENT"
      using True by (simp_all add: saved_def is_persistent_def)
    define room where "room = KFSW_PARAM_PERSIST_MAX_BYTES
        - (KFSW_PARAM_PERSIST_HEADER_SIZE + length payload + KFSW_PARAM_PERSIST_ENTRY_HEADER_SIZE
           + length (pi_name (en_info e)))"
    define cap where "cap = (if pi_type (en_info e) = KFSW_PARAM_STRING \<or> pi_type (en_info e) = KFSW_PARAM_DATA
        then unat (pi_array_size (en_info e)) else unat n)"
    have cap: "cap = entry_capacity e"
      using wire_sizes(2) [OF t] by (auto simp: cap_def entry_capacity_def)
    have fits: "count < KFSW_PARAM_PERSIST_MAX_ENTRY_COUNT"
        "KFSW_PARAM_PERSIST_HEADER_SIZE + length payload + KFSW_PARAM_PERSIST_ENTRY_HEADER_SIZE
           + length (pi_name (en_info e)) + cap \<le> KFSW_PARAM_PERSIST_MAX_BYTES"
      using Cons.prems(2) here bl name t by (auto simp: cap_def Let_def split: if_splits)
    have "length (file_bytes e pm) \<le> room" using length_file_bytes(1) [OF form(1,2)] fits(2) by (simp add: room_def cap)
    note enc = wire_encode_stored [OF form t this]
    have rest: "build_entries cfg es (payload @ snapshot_entry_bytes pm e) (count + 1) (sample_entry e pm) =
        (Inr (payload', count'), pm')"
      using Cons.prems(2) here bl name t fits enc
      by (simp add: Let_def room_def cap_def snapshot_entry_bytes_def split: if_splits)
    have m: "mem (sample_entry e pm) = mem pm" by (rule quiet_mem(1) [OF form(3)])
    have c: "unat (count + 1) = unat count + 1" "unat (count + 1) \<le> 64"
      using fits(1) by (simp_all add: KFSW_PARAM_PERSIST_MAX_ENTRY_COUNT_def word_less_nat_alt unat_plus_small)
    have "\<forall>f \<in> set es. entry_formed cfg f \<and> stored_formed f (sample_entry e pm) \<and> quiet_entry f
        \<and> 0 < length (pi_name (en_info f)) \<and> length (pi_name (en_info f)) \<le> KFSW_PARAM_NAME_MAX"
      using Cons.prems(1) m by (simp add: stored_formed_def)
    moreover have "KFSW_PARAM_PERSIST_HEADER_SIZE + length (payload @ snapshot_entry_bytes pm e) \<le> KFSW_PARAM_PERSIST_MAX_BYTES"
      using fits(2) length_file_bytes(1) [OF form(1,2)] cap
      by (simp add: snapshot_entry_bytes_def KFSW_PARAM_PERSIST_ENTRY_HEADER_SIZE_def)
    ultimately show ?thesis using Cons.IH [OF _ rest c(2)] m c(1) True
      by (auto simp: entry_bytes_cong [OF m])
  qed
qed simp

section \<open>Lemmas on loading\<close>

lemma loadable_Cons: "loadable cfg pm (e # L) st \<Longrightarrow> loadable cfg pm L st"
  by (simp add: loadable_def)

lemma loadable_next:
  assumes "loadable cfg pm L st" and "e \<in> set L" and "data = pre @ snapshot_entry_bytes pm e @ rest"
  shows "next_entry cfg data (length pre) =
    Inr (\<lparr>pe_name = bytes_of_string (pi_name (en_info e)), pe_value = file_bytes e pm @ rest,
          pe_value_size = word_of_nat (length (file_bytes e pm)),
          pe_name_size = word_of_nat (length (pi_name (en_info e))), pe_type = wire_type e\<rparr>,
         length (pre @ snapshot_entry_bytes pm e))"
proof -
  have e: "e \<in> set (parameter_table st)" "stored_formed e pm" "param_ready cfg st" "8 \<le> cfg_string_max cfg"
    using assms(1,2) by (simp_all add: loadable_def)
  note r = ready_entry [OF e(3,1)]
  show ?thesis
    using next_entry_bytes [OF r(1) e(2) capacity_fits [OF r(1) e(4)] r(4,5) assms(3)] by simp
qed

lemma check_entries_ok:
  assumes "loadable cfg pm L st" and "data = pre @ concat (map (snapshot_entry_bytes pm) L)"
  shows "check_snapshot_entries cfg data (length L) (length pre) = None"
  using assms
proof (induction L arbitrary: pre)
  case (Cons e L)
  then have d: "data = pre @ snapshot_entry_bytes pm e @ concat (map (snapshot_entry_bytes pm) L)" by simp
  have "check_snapshot_entries cfg data (length L) (length (pre @ snapshot_entry_bytes pm e)) = None"
    by (rule Cons.IH [OF loadable_Cons [OF Cons.prems(1)]]) (simp add: d)
  with loadable_next [OF Cons.prems(1) _ d] show ?case by simp
qed simp

lemma entry_matches_bytes:
  assumes form: "entry_formed cfg e" "stored_formed e pm" and s: "saved e"
    and pe: "pe_value_size x = word_of_nat (length (file_bytes e pm))" "pe_type x = wire_type e"
  shows "entry_matches e x"
proof -
  obtain n where t: "kfsw_param_wire_type_of e = Inr (wire_type e, n)" using s by (rule wire_type_Inr)
  note sizes = wire_sizes [OF t] and len = length_file_bytes [OF form]
  have u: "unat (word_of_nat (length (file_bytes e pm)) :: u16) = length (file_bytes e pm)"
    using len(5) by (intro unat_word_of_nat_small) simp
  show ?thesis
  proof (cases "pi_type (en_info e) = KFSW_PARAM_STRING")
    case True
    then have "entry_capacity e = unat (pi_array_size (en_info e))" by (simp add: entry_capacity_def)
    with True sizes(1) len(1) u show ?thesis by (simp add: entry_matches_def t pe word_le_nat_alt)
  next
    case False
    with sizes(2) len(4) u have "n = word_of_nat (length (file_bytes e pm))" by (metis word_unat_eq_iff)
    with False sizes(2) show ?thesis by (simp add: entry_matches_def t pe)
  qed
qed

lemma apply_without_callback:
  "pd_apply (en_definition e) = None \<Longrightarrow> \<exists>pm'. kfsw_param_wire_apply initialized e v pm = (None, pm')"
  by (simp add: kfsw_param_wire_apply_def kfsw_param_write_entry_def Let_def)

text \<open>One step of the walk, on an entry of a snapshot that can be loaded.\<close>

lemma walk_step:
  assumes l: "loadable cfg pm L st" and e: "e \<in> set L" and d: "data = pre @ snapshot_entry_bytes pm e @ rest"
  shows "walk_entries cfg data count do_apply (Suc n) (length pre) st =
    (let pm' = snd (kfsw_param_wire_apply (param_initialized st) e (entry_value cfg e pm) (param_memory st))
     in walk_entries cfg data count do_apply n (length (pre @ snapshot_entry_bytes pm e))
          (if do_apply then st\<lparr>param_memory := pm'\<rparr> else st))"
proof -
  have m: "e \<in> set (parameter_table st)" "saved e" "stored_formed e pm" "accepts_stored cfg e pm"
    "pd_apply (en_definition e) = None" and ready: "param_ready cfg st"
    using l e by (simp_all add: loadable_def)
  note r = ready_entry [OF ready m(1)]
  obtain n' where t: "kfsw_param_wire_type_of e = Inr (wire_type e, n')" using m(2) by (rule wire_type_Inr)
  have found: "kfsw_param_find_name (Some (pi_name (en_info e))) st = Some e"
    using find_name_Some [of cfg st] ready m(1) by (simp add: param_ready_def)
  have u: "unat (word_of_nat (length (file_bytes e pm)) :: u16) = length (file_bytes e pm)"
    using length_file_bytes(5) [OF r(1) m(3)] by (intro unat_word_of_nat_small) simp
  have dec: "kfsw_param_wire_decode cfg e (wire_type e) (file_bytes e pm @ rest)
      (word_of_nat (length (file_bytes e pm))) (param_memory st) = Inr (entry_value cfg e pm)"
    using wire_decode_stored [OF r(1) m(3) t u] m(4) by (simp add: accepts_stored_def)
  obtain pm' where a: "kfsw_param_wire_apply (param_initialized st) e (entry_value cfg e pm) (param_memory st) = (None, pm')"
    using apply_without_callback [OF m(5)] by blast
  show ?thesis
    using m(2) m(5) r(6) entry_matches_bytes [OF r(1) m(3,2)]
    by (simp add: loadable_next [OF l e d] found dec a saved_def is_persistent_def)
qed

lemma walk_check:
  assumes "loadable cfg pm L st" and "data = pre @ concat (map (snapshot_entry_bytes pm) L)"
  shows "walk_entries cfg data count False (length L) (length pre) st = (None, st)"
  using assms
proof (induction L arbitrary: pre)
  case (Cons e L)
  then have d: "data = pre @ snapshot_entry_bytes pm e @ concat (map (snapshot_entry_bytes pm) L)" by simp
  have "walk_entries cfg data count False (length L) (length (pre @ snapshot_entry_bytes pm e)) st = (None, st)"
    by (rule Cons.IH [OF loadable_Cons [OF Cons.prems(1)]]) (simp add: d)
  with walk_step [OF Cons.prems(1) _ d, where count = count and do_apply = False and n = "length L"] show ?case by simp
qed simp

lemma walk_apply:
  assumes "loadable cfg pm L st" and "data = pre @ concat (map (snapshot_entry_bytes pm) L)"
  shows "\<exists>st'. walk_entries cfg data count True (length L) (length pre) st = (None, st')
    \<and> param_ready cfg st' \<and> parameter_table st' = parameter_table st
    \<and> (\<forall>f \<in> set (parameter_table st). if f \<in> set L then stored_payload f (param_memory st') = stored_payload f pm
         else mem (param_memory st') (address f) = mem (param_memory st) (address f))"
  using assms
proof (induction L arbitrary: pre st)
  case (Cons e L)
  then have d: "data = pre @ snapshot_entry_bytes pm e @ concat (map (snapshot_entry_bytes pm) L)" by simp
  have m: "e \<in> set (parameter_table st)" "stored_formed e pm" "accepts_stored cfg e pm"
    "pd_apply (en_definition e) = None" and ready: "param_ready cfg st"
    using Cons.prems(1) by (simp_all add: loadable_def)
  note r = ready_entry [OF ready m(1)]
  have ok: "storage_ok cfg st" using ready by (simp add: param_ready_def)
  let ?v = "entry_value cfg e pm"
  obtain pm1 where a: "kfsw_param_wire_apply (param_initialized st) e ?v (param_memory st) = (None, pm1)"
    using apply_without_callback [OF m(4)] by blast
  let ?st1 = "st\<lparr>param_memory := pm1\<rparr>"
  have val: "kfsw_param_validate_entry (Some e) (Some ?v) (param_memory st) = None"
    using m(3) by (simp add: accepts_stored_def)
  note ev = entry_value_facts [OF r(1) m(2)]
  have fit: "fits cfg e ?v" using ev(1,2,4) by (auto simp: fits_def value_formed_def)
  have sep: "separate cfg (set (parameter_table st))" "sized (set (parameter_table st)) (param_memory st)"
    using ok sized_formed by (auto simp: storage_ok_def)
  have ready1: "param_ready cfg ?st1"
    using storage_ok_apply [OF ok m(1) fit a] ready by (simp add: param_ready_def registry_ok_def)
  have "loadable cfg pm L ?st1" using Cons.prems(1) ready1 by (simp add: loadable_def)
  from Cons.IH [OF this, of "pre @ snapshot_entry_bytes pm e"] d obtain st' where
    w: "walk_entries cfg data count True (length L) (length (pre @ snapshot_entry_bytes pm e)) ?st1 = (None, st')"
    and st': "param_ready cfg st'" "parameter_table st' = parameter_table st"
    and all: "\<forall>f \<in> set (parameter_table st). if f \<in> set L then stored_payload f (param_memory st') = stored_payload f pm
         else mem (param_memory st') (address f) = mem pm1 (address f)"
    by auto
  have "mem pm1 (address e) = written_bytes e ?v (mem (param_memory st) (address e))"
    using apply_mem [OF r(3) ev(2) a] by simp
  from written_payload(2) [OF ev(1) r(1,2) val this] ev(3)
  have p1: "stored_payload e pm1 = stored_payload e pm" by simp
  have other: "f \<in> set (parameter_table st) \<Longrightarrow> f \<noteq> e \<Longrightarrow> mem pm1 (address f) = mem (param_memory st) (address f)" for f
    by (rule apply_keeps(2) [OF sep(1) m(1) fit sep(2) a])
  have pay: "stored_payload f q = stored_payload f pm1" if "mem q (address f) = mem pm1 (address f)" for f q
    using that by (simp add: stored_payload_def)
  have "if f \<in> set (e # L) then stored_payload f (param_memory st') = stored_payload f pm
      else mem (param_memory st') (address f) = mem (param_memory st) (address f)"
    if f: "f \<in> set (parameter_table st)" for f
    using all [rule_format, OF f] other [OF f] pay [of "param_memory st'" f] p1 by (cases "f = e"; cases "f \<in> set L") simp_all
  with w st' walk_step [OF Cons.prems(1) _ d, where count = count and do_apply = True and n = "length L"] a
  show ?case by simp
qed (simp add: loadable_def)

text \<open>A snapshot as the builder makes it, and what checking and applying it give.\<close>

lemma header_fields:
  assumes "n < 4294967296"
  shows "length (snapshot_header n count crc) = 20" "take 4 (snapshot_header n count crc @ x) = KFSW_PARAM_PERSIST_MAGIC"
    "sys_get_be16 (drop 4 (snapshot_header n count crc @ x)) = KFSW_PARAM_PERSIST_VERSION"
    "sys_get_be16 (drop 6 (snapshot_header n count crc @ x)) = word_of_nat KFSW_PARAM_PERSIST_HEADER_SIZE"
    "unat (sys_get_be32 (drop 8 (snapshot_header n count crc @ x))) = n"
    "sys_get_be16 (drop 12 (snapshot_header n count crc @ x)) = count"
    "sys_get_be16 (drop 14 (snapshot_header n count crc @ x)) = 0"
    "sys_get_be32 (drop 16 (snapshot_header n count crc @ x)) = crc"
    "take 16 (snapshot_header n count crc @ x) @ sys_put_be32 0 @ drop 20 (snapshot_header n count crc @ x) =
       snapshot_header n count 0 @ x"
  using assms unat_word_of_nat_small [of n, where 'a = 32]
  by (simp_all add: snapshot_header_def KFSW_PARAM_PERSIST_MAGIC_def)

lemma build_snapshot_bytes:
  assumes ready: "param_ready cfg st" and b: "build_snapshot crc32_ieee cfg st = (Inr data, st')"
  obtains payload count where "payload = concat (map (snapshot_entry_bytes (param_memory st)) (filter saved (parameter_table st)))"
    "unat count = length (filter saved (parameter_table st))" "unat count \<le> 64" "length payload \<le> 2028"
    "data = snapshot_header (length payload) count (crc32_ieee (snapshot_header (length payload) count 0 @ payload)) @ payload"
    "mem (param_memory st') = mem (param_memory st)" "st' = st\<lparr>param_memory := param_memory st'\<rparr>"
proof -
  from b obtain payload count pm where
    e: "build_entries cfg (parameter_table st) [] 0 (param_memory st) = (Inr (payload, count), pm)"
    and d: "data = snapshot_header (length payload) count (crc32_ieee (snapshot_header (length payload) count 0 @ payload)) @ payload"
    and st': "st' = st\<lparr>param_memory := pm\<rparr>"
    by (auto simp: build_snapshot_def Let_def split: prod.splits sum.splits)
  have "\<forall>e \<in> set (parameter_table st). entry_formed cfg e \<and> stored_formed e (param_memory st) \<and> quiet_entry e
      \<and> 0 < length (pi_name (en_info e)) \<and> length (pi_name (en_info e)) \<le> KFSW_PARAM_NAME_MAX"
    using ready_entry [OF ready] by blast
  note r = build_entries_bytes [OF this e]
  show ?thesis
  proof (rule that [OF _ _ _ _ d])
    show "length payload \<le> 2028"
    proof -
      have "KFSW_PARAM_PERSIST_HEADER_SIZE + length payload \<le> KFSW_PARAM_PERSIST_MAX_BYTES"
        by (rule r [THEN conjunct2, THEN conjunct2, THEN conjunct2, THEN conjunct2])
          (simp_all add: KFSW_PARAM_PERSIST_HEADER_SIZE_def KFSW_PARAM_PERSIST_MAX_BYTES_def)
      then show ?thesis by (simp add: KFSW_PARAM_PERSIST_HEADER_SIZE_def KFSW_PARAM_PERSIST_MAX_BYTES_def)
    qed
  qed (use r st' in \<open>simp_all add: KFSW_PARAM_PERSIST_HEADER_SIZE_def KFSW_PARAM_PERSIST_MAX_BYTES_def\<close>)
qed

text \<open>Checking and applying a built snapshot on a node where it can be loaded.\<close>

lemma built_snapshot_loads:
  assumes l: "loadable cfg pm L st" and payload: "payload = concat (map (snapshot_entry_bytes pm) L)"
    and count: "unat count = length L" "unat count \<le> 64" and n: "length payload \<le> 2028"
    and data: "data = snapshot_header (length payload) count (crc32_ieee (snapshot_header (length payload) count 0 @ payload)) @ payload"
  shows "validate_snapshot crc32_ieee cfg data = Inr count"
    "\<exists>st'. apply_snapshot cfg data count st = (None, st')
      \<and> param_ready cfg st' \<and> parameter_table st' = parameter_table st
      \<and> (\<forall>f \<in> set (parameter_table st). if f \<in> set L then stored_payload f (param_memory st') = stored_payload f pm
           else mem (param_memory st') (address f) = mem (param_memory st) (address f))"
proof -
  let ?crc = "crc32_ieee (snapshot_header (length payload) count 0 @ payload)"
  let ?h = "snapshot_header (length payload) count ?crc"
  have small: "length payload < 4294967296" using n by simp
  note h = header_fields(2-9) [OF small, where count = count and crc = ?crc and x = payload]
  have d: "data = ?h @ concat (map (snapshot_entry_bytes pm) L)" using data payload by simp
  have pre: "length ?h = 20" by (rule header_fields(1) [OF small])
  have c: "check_snapshot_entries cfg data (length L) 20 = None" using check_entries_ok [OF l d] pre by simp
  have cnt: "\<not> count > KFSW_PARAM_PERSIST_MAX_ENTRY_COUNT"
    using count(2) by (simp add: KFSW_PARAM_PERSIST_MAX_ENTRY_COUNT_def word_less_nat_alt)
  have ln: "length data = 20 + length payload" using data pre by simp
  show "validate_snapshot crc32_ieee cfg data = Inr count"
    using h c cnt ln count(1) unfolding data [symmetric]
    by (simp add: validate_snapshot_def KFSW_PARAM_PERSIST_HEADER_SIZE_def KFSW_PARAM_PERSIST_CRC_OFFSET_def Let_def)
  have "walk_snapshot cfg data count False st = (None, st)"
    using walk_check [OF l d] pre count(1) by (simp add: walk_snapshot_def KFSW_PARAM_PERSIST_HEADER_SIZE_def)
  moreover have "walk_snapshot cfg data count True st = walk_entries cfg data count True (length L) (length ?h) st"
    using pre count(1) by (simp add: walk_snapshot_def KFSW_PARAM_PERSIST_HEADER_SIZE_def)
  ultimately show "\<exists>st'. apply_snapshot cfg data count st = (None, st')
      \<and> param_ready cfg st' \<and> parameter_table st' = parameter_table st
      \<and> (\<forall>f \<in> set (parameter_table st). if f \<in> set L then stored_payload f (param_memory st') = stored_payload f pm
           else mem (param_memory st') (address f) = mem (param_memory st) (address f))"
    using walk_apply [OF l d, of count] by (simp add: apply_snapshot_def)
qed

lemma persist_paths: "KFSW_PARAM_PERSIST_TEMP_PATH mount \<noteq> KFSW_PARAM_PERSIST_PATH mount"
  by (simp add: KFSW_PARAM_PERSIST_TEMP_PATH_def KFSW_PARAM_PERSIST_PATH_def)

lemma load_file_whole:
  assumes law: "fs_lawful ops contents position" and rd: "fs_readable ops contents path"
    and c: "contents (pn_files nd) path = Some data"
    and v: "validate_snapshot crc32_ieee cfg data = Inr count"
    and a: "apply_snapshot cfg data count (pn_param nd) = (None, st')"
  shows "\<exists>nd'. load_file crc32_ieee ops path cfg (length data) nd = (None, nd') \<and> pn_param nd' = st'"
proof -
  obtain f1 where o: "fs_open ops path FS_READ (pn_files nd) = (None, f1)"
    using rd c unfolding fs_readable_def by (metis prod.collapse)
  obtain f2 where r: "read_all ops path (length data) f1 = (Inr data, f2)"
    using read_whole_file [OF law rd o c] by blast
  obtain f3 where cl: "fs_close ops path f2 = (None, f3)"
    using rd unfolding fs_readable_def by (metis prod.collapse)
  show ?thesis using o r cl v a by (simp add: load_file_def Let_def)
qed

section \<open>Lemmas on refused loads\<close>

text \<open>The first pass changes nothing; if it succeeds, a second pass over several entries cannot fail.\<close>

lemma walk_false_same: "snd (walk_entries cfg data count False n offset st) = st"
  by (induction n arbitrary: offset) (auto split: sum.splits option.splits prod.splits)

lemma walk_true_succeeds:
  assumes "fst (walk_entries cfg data count False n offset st) = None" and "count \<noteq> 1"
    and "parameter_table st' = parameter_table st"
  shows "fst (walk_entries cfg data count True n offset st') = None"
  using assms(1,3)
proof (induction n arbitrary: offset st')
  case (Suc n)
  obtain entry offset' where e: "next_entry cfg data offset = Inr (entry, offset')"
    using Suc.prems(1) by (cases "next_entry cfg data offset") auto
  let ?find = "kfsw_param_find_name (Some (c_string_of_bytes (pe_name entry)))"
  have f: "?find st' = ?find st" by (rule find_name_cong [OF Suc.prems(2)])
  show ?case
  proof (cases "?find st")
    case None
    with Suc e f show ?thesis by simp
  next
    case (Some pe)
    show ?thesis
    proof (cases "has_flag (pi_flags (en_info pe)) KFSW_PARAM_FLAG_PERSISTENT \<and> entry_matches pe entry")
      case True
      with Suc.prems(1) e Some assms(2) have na: "pd_apply (en_definition pe) = None"
        and first: "fst (walk_entries cfg data count False n offset' st) = None"
        by (auto split: sum.splits if_splits)
      note ih = Suc.IH [OF first]
      have "fst (walk_entries cfg data count True n offset' (st'\<lparr>param_memory := pm\<rparr>)) = None" for pm
        by (rule ih) (simp add: Suc.prems(2))
      moreover have "kfsw_param_wire_apply (param_initialized st') pe v (param_memory st') \<noteq> (Some x, y)" for v x y
        using apply_without_callback [OF na, of "param_initialized st'" v "param_memory st'"] by auto
      ultimately show ?thesis
        using e f Some True na ih [OF Suc.prems(2)]
        by (auto split: sum.splits option.splits prod.splits)
    next
      case False
      with Suc e f Some show ?thesis by (auto split: if_splits)
    qed
  qed
qed simp

lemma apply_snapshot_refused:
  assumes ready: "param_ready cfg st" and a: "apply_snapshot cfg data count st = (Some err, st')"
  shows "mem (param_memory st') = mem (param_memory st) \<and> parameter_table st' = parameter_table st
    \<and> param_initialized st' = param_initialized st"
proof -
  obtain r st1 where w: "walk_snapshot cfg data count False st = (r, st1)" by fastforce
  have "snd (walk_snapshot cfg data count False st) = st" by (simp add: walk_snapshot_def walk_false_same)
  with w have st1: "st1 = st" by simp
  show ?thesis
  proof (cases r)
    case (Some e)
    with a w st1 show ?thesis by (simp add: apply_snapshot_def)
  next
    case None
    with a w st1 have t: "walk_snapshot cfg data count True st = (Some err, st')" by (simp add: apply_snapshot_def)
    have one: "count = 1"
    proof (rule ccontr)
      assume "count \<noteq> 1"
      with walk_true_succeeds [of cfg data count "unat count" KFSW_PARAM_PERSIST_HEADER_SIZE st st] w None t
      show False by (simp add: walk_snapshot_def)
    qed
    have first: "fst (walk_entries cfg data 1 False (Suc 0) KFSW_PARAM_PERSIST_HEADER_SIZE st) = None"
      using w None one by (simp add: walk_snapshot_def)
    have second: "walk_entries cfg data 1 True (Suc 0) KFSW_PARAM_PERSIST_HEADER_SIZE st = (Some err, st')"
      using t one by (simp add: walk_snapshot_def)
    obtain entry offset' where e: "next_entry cfg data KFSW_PARAM_PERSIST_HEADER_SIZE = Inr (entry, offset')"
      using first by (cases "next_entry cfg data KFSW_PARAM_PERSIST_HEADER_SIZE") auto
    obtain pe where f: "kfsw_param_find_name (Some (c_string_of_bytes (pe_name entry))) st = Some pe"
      using second e by (cases "kfsw_param_find_name (Some (c_string_of_bytes (pe_name entry))) st") simp_all
    from second e f obtain v pm where 
      ap: "kfsw_param_wire_apply (param_initialized st) pe v (param_memory st) = (Some err, pm)"
      and st': "st' = st\<lparr>param_memory := pm\<rparr>"
      by (auto split: sum.splits option.splits prod.splits if_splits)
    from apply_refused [OF ready_entry(3) [OF ready find_name_mem [OF f]] ap] st' show ?thesis by simp
  qed
qed

text \<open>What a successful save leaves in the file.\<close>

lemma persist_save_file:
  assumes law: "fs_lawful ops contents position"
    and s: "kfsw_param_persist_save crc32_ieee ops mount save_warn cfg nd = (None, nd1)"
  obtains data st where "build_snapshot crc32_ieee cfg (pn_param nd) = (Inr data, st)"
    "contents (pn_files nd1) (KFSW_PARAM_PERSIST_PATH mount) = Some data"
proof -
  obtain nd' where ps: "persist_save crc32_ieee ops mount cfg nd = (None, nd')"
    and f: "pn_files nd1 = pn_files nd'"
    using s by (auto simp: kfsw_param_persist_save_def warn_about_wear_def split: prod.splits option.splits sum.splits if_splits)
  from ps obtain data st f1 f2 where b: "build_snapshot crc32_ieee cfg (pn_param nd) = (Inr data, st)"
    and w: "kfsw_snapshot_write ops (Some (KFSW_PARAM_PERSIST_PATH mount)) (Some (KFSW_PARAM_PERSIST_TEMP_PATH mount))
      (Some data) f1 = (None, f2)" and f2: "pn_files nd' = f2"
    by (auto simp: persist_save_def Let_def split: prod.splits sum.splits option.splits if_splits)
  from snapshot_write_contents [OF law persist_paths w] b f f2 that show ?thesis by simp
qed

lemma reachable_ready:
  assumes "param_reachable cfg sets pm0 st" and "sound_sets pm0 sets" and "param_initialized st"
    and "\<forall>e \<in> set (parameter_table st). c_string (pi_name (en_info e))"
  shows "param_ready cfg st"
  using reachable_inv [OF assms(1,2)] assms(2-4) by (simp add: param_ready_def reach_inv_def)

lemma demo_reachable:
  "param_reachable demo_param_config [Some demo_set] demo_boot_mem demo_state"
  "param_reachable demo_param_config [Some demo_set] demo_boot_mem demo_set_state"
proof -
  show 1: "param_reachable demo_param_config [Some demo_set] demo_boot_mem demo_state"
    unfolding demo_state_def by (intro param_reachable.intros)
  have "typed_value demo_param_config (demo_level 700)" by (simp add: typed_value_def demo_level_def zero_value_def)
  with 1 show "param_reachable demo_param_config [Some demo_set] demo_boot_mem demo_set_state"
    unfolding demo_set_state_def by (intro param_reachable.Set) (simp_all add: hooks_sound_def)
qed

lemma demo_ready: "param_ready demo_param_config demo_state" "param_ready demo_param_config demo_set_state"
proof -
  have "param_initialized demo_state" "\<forall>e \<in> set (parameter_table demo_state). c_string (pi_name (en_info e))"
    unfolding c_string_def by code_simp+
  then show "param_ready demo_param_config demo_state"
    by (rule reachable_ready [OF demo_reachable(1) param_reachable_demo_sound])
  have "param_initialized demo_set_state" "\<forall>e \<in> set (parameter_table demo_set_state). c_string (pi_name (en_info e))"
    unfolding c_string_def by code_simp+
  then show "param_ready demo_param_config demo_set_state"
    by (rule reachable_ready [OF demo_reachable(2) param_reachable_demo_sound])
qed

lemma accepts_without_validators:
  assumes "entry_formed cfg e" and "stored_formed e pm"
    and "pd_validate (en_definition e) = None" "pd_validate_text (en_definition e) = None"
      "pd_validate_data (en_definition e) = None"
  shows "accepts_stored cfg e pm"
proof -
  note ev = entry_value_facts [OF assms(1,2)] and sh = payload_shape [OF assms(1,2)]
  have n0: "entry_capacity e \<noteq> 0" using assms(1) by (simp add: entry_formed_def)
  show ?thesis
    using n0 ev(2,4,5) sh(1) assms(3-5)
    by (auto simp: accepts_stored_def kfsw_param_validate_entry_def Let_def)
qed

text \<open>On the file system in memory a save succeeds once the snapshot could be built.\<close>

lemma ram_save_succeeds:
  assumes "param_ready cfg st" and "ok (fst (build_snapshot crc32_ieee cfg st)) \<noteq> None"
  shows "fst (kfsw_param_persist_save crc32_ieee (ram_ops chunk) mount 0 cfg
    \<lparr>pn_param = st, pn_files = f, pn_snapshot_bytes = n, pn_warned = w\<rparr>) = None"
proof -
  obtain data st' where b: "build_snapshot crc32_ieee cfg st = (Inr data, st')"
    using assms(2) by (metis ok_Some option.exhaust prod.collapse)
  obtain payload :: bytes and count where "length payload \<le> 2028"
    "data = snapshot_header (length payload) count (crc32_ieee (snapshot_header (length payload) count 0 @ payload)) @ payload"
    using build_snapshot_bytes [OF assms(1) b] by blast
  then have n: "length data \<le> 2048" using header_fields(1) by simp
  have budget: "check_budget (ram_ops chunk) (length data) f = None"
    using n by (simp add: check_budget_def ram_ops_def KFSW_PARAM_PERSIST_MAX_BYTES_def)
  obtain f2 where "kfsw_snapshot_write (ram_ops chunk) (Some (KFSW_PARAM_PERSIST_PATH mount))
      (Some (KFSW_PARAM_PERSIST_TEMP_PATH mount)) (Some data) f = (None, f2)"
    using ram_snapshot_write by (metis prod.collapse)
  moreover have "fs_mkdir (ram_ops chunk) q g = (None, g)" "storage_ready (ram_ops chunk) g" for q g
    by (simp_all add: ram_ops_def)
  ultimately show ?thesis
    using b assms(1) budget by (simp add: kfsw_param_persist_save_def persist_save_def param_ready_def Let_def)
qed

section \<open>Properties\<close>





end
