(* ===== verification/Fbo_Schedule.thy ===== *)
theory Fbo_Schedule
  imports Command_Csp Contracts "HOL-Library.Signed_Division"
begin

text \<open>
  Time-tagged releases (\<^verbatim>\<open>src/fbo/fbo_schedule.c\<close>, \<^verbatim>\<open>src/fbo/fbo_clock.c\<close>, \<open>kfsw_fbo_note\<close> of \<^verbatim>\<open>src/fbo/fbo.c\<close>).

  \<open>schedule_state\<close> holds the file's static variables, the ones inside \<open>check_step\<close> included. The command
  handlers a release runs work on a world of which the queue is a part, as handlers may schedule, cancel
  and clear themselves. An operation under the queue lock is one state transformer; a release is three
  of them, as the lock is dropped while the command runs. Clock readings are arguments (\<open>None\<close> is a wall
  clock that is not set); 64-bit times are \<open>int\<close>, within the range where the code does not overflow.

  Proved: a sweep releases exactly the due entries inside the latency buffer, earliest due time first and
  at most a burst of them, and marks the later ones overdue; an accepted entry is in the queue as asked
  and the same content is not accepted twice while it is live; and under every interleaving with other
  threads' operations each accepted entry starts at most once. The last section shows a cancellation
  that reports success for an entry that is started afterwards.
\<close>

section \<open>Types\<close>

definition KFSW_FBO_SCHEDULE_DELAY_MAX_S :: int where "KFSW_FBO_SCHEDULE_DELAY_MAX_S = 604800"
definition KFSW_FBO_SCHEDULE_LATENCY_MAX_S :: u32 where "KFSW_FBO_SCHEDULE_LATENCY_MAX_S = 3600"
definition KFSW_FBO_SCHEDULE_LINE_MAX :: nat where "KFSW_FBO_SCHEDULE_LINE_MAX = 80"

definition KFSW_FBO_EVENT_RELEASED :: u16 where "KFSW_FBO_EVENT_RELEASED = 4"
definition KFSW_FBO_EVENT_OVERDUE :: u16 where "KFSW_FBO_EVENT_OVERDUE = 5"
definition KFSW_FBO_EVENT_CLOCK_STEP :: u16 where "KFSW_FBO_EVENT_CLOCK_STEP = 6"

datatype kfsw_fbo_time_kind = KFSW_FBO_TIME_RELATIVE | KFSW_FBO_TIME_ABSOLUTE

fun time_kind_value :: "kfsw_fbo_time_kind \<Rightarrow> u8" where
  "time_kind_value KFSW_FBO_TIME_RELATIVE = 0"
| "time_kind_value KFSW_FBO_TIME_ABSOLUTE = 1"

datatype kfsw_fbo_entry_status =
    KFSW_FBO_ENTRY_SCHEDULED | KFSW_FBO_ENTRY_RUNNING | KFSW_FBO_ENTRY_COMPLETED
  | KFSW_FBO_ENTRY_FAILED | KFSW_FBO_ENTRY_OVERDUE | KFSW_FBO_ENTRY_CANCELLED

record kfsw_fbo_schedule_entry =
  se_line :: string
  se_due_utc :: int
  se_released_utc :: int
  se_delay_s :: u32
  se_remaining_s :: u32
  se_content_hash :: u32
  se_result :: rc
  se_node :: u16
  se_index :: u16
  se_command_id :: u16
  se_kind :: kfsw_fbo_time_kind
  se_status :: kfsw_fbo_entry_status
  se_command_status :: u8

record slot =
  sl_entry :: kfsw_fbo_schedule_entry
  sl_due_uptime_ms :: int
  sl_used :: bool

record schedule_state =
  sch_slots :: "slot list"
  sch_latency_s :: u32
  sch_releases :: u32
  sch_refusals :: u32
  sch_overdues :: u32
  sch_clock_steps :: u32
  sch_last_error :: rc
  sch_last_utc :: int
  sch_last_mono :: int
  sch_have_last :: bool

record kfsw_fbo_schedule_status =
  ss_hash :: u32
  ss_releases :: u32
  ss_refusals :: u32
  ss_overdues :: u32
  ss_clock_steps :: u32
  ss_latency_s :: u32
  ss_next_due_utc :: int
  ss_next_due_s :: u32
  ss_capacity :: u16
  ss_entries :: u16
  ss_scheduled :: u16
  ss_running :: u16
  ss_completed :: u16
  ss_failed :: u16
  ss_overdue :: u16
  ss_cancelled :: u16
  ss_clock_set :: bool
  ss_last_error :: rc

text \<open>The world of the handlers, and the state a release works on.\<close>

record 'v fbo_world =
  fw_schedule :: schedule_state
  fw_other :: 'v

record ('v, 'n) fbo_node =
  fn_request_id :: u16
  fn_system :: "'v fbo_world system"
  fn_net :: 'n

text \<open>
  What the code depends on: the limits of \<open>long\<close>, the CRC functions, the build's configuration, and the
  command service with its registry, thread, time and link.
\<close>

record ('v, 'n) fbo_env =
  fb_ulong_max :: int
  fb_long_max :: int
  fb_crc32 :: "bytes \<Rightarrow> u32"
  fb_crc32_resume :: "u32 \<Rightarrow> bytes \<Rightarrow> u32"
  fb_command_csp :: bool
  fb_command_retry :: bool
  fb_burst :: nat
  fb_step_ms :: int
  fb_client :: "'v fbo_world client_env"
  fb_link :: "'n csp_link"

definition fb_registry :: "('v, 'n) fbo_env \<Rightarrow> 'v fbo_world registry_state" where
  "fb_registry env = env_registry (cl_env (fb_client env))"

definition fb_now_us :: "('v, 'n) fbo_env \<Rightarrow> u64" where
  "fb_now_us env = env_now_us (cl_env (fb_client env))"

definition node_schedule :: "('v, 'n) fbo_node \<Rightarrow> schedule_state" where
  "node_schedule nd = fw_schedule (sys_world (fn_system nd))"

definition with_schedule :: "(schedule_state \<Rightarrow> schedule_state) \<Rightarrow> ('v, 'n) fbo_node \<Rightarrow> ('v, 'n) fbo_node" where
  "with_schedule f nd = nd\<lparr>fn_system := (fn_system nd)\<lparr>sys_world :=
     (sys_world (fn_system nd))\<lparr>fw_schedule := f (fw_schedule (sys_world (fn_system nd)))\<rparr>\<rparr>\<rparr>"

definition with_events :: "(event_state \<Rightarrow> event_state) \<Rightarrow> ('v, 'n) fbo_node \<Rightarrow> ('v, 'n) fbo_node" where
  "with_events f nd = nd\<lparr>fn_system := (fn_system nd)\<lparr>sys_event := f (sys_event (fn_system nd))\<rparr>\<rparr>"

definition zero_entry :: kfsw_fbo_schedule_entry where
  "zero_entry = \<lparr>se_line = [], se_due_utc = 0, se_released_utc = 0, se_delay_s = 0, se_remaining_s = 0,
     se_content_hash = 0, se_result = None, se_node = 0, se_index = 0, se_command_id = 0,
     se_kind = KFSW_FBO_TIME_RELATIVE, se_status = KFSW_FBO_ENTRY_SCHEDULED, se_command_status = 0\<rparr>"

definition zero_slot :: slot where
  "zero_slot = \<lparr>sl_entry = zero_entry, sl_due_uptime_ms = 0, sl_used = False\<rparr>"

definition zero_result :: kfsw_command_result where
  "zero_result = \<lparr>rs_status = KFSW_COMMAND_OK, rs_detail = []\<rparr>"

definition kfsw_fbo_note :: "u64 \<Rightarrow> u16 \<Rightarrow> kfsw_event_severity \<Rightarrow> u16 \<Rightarrow> event_state \<Rightarrow> event_state" where
  "kfsw_fbo_note now ident severity detail =
     kfsw_event_emit \<lparr>rq_source = source_value KFSW_EVENT_SOURCE_FBO, rq_id = ident,
       rq_severity = severity_value severity, rq_payload = Some (sys_put_be16 detail),
       rq_payload_size = 2, rq_now_us = now\<rparr>"

text \<open>The clock: CSP's when the build has it (\<open>None\<close> while it is not set), else the platform's.\<close>

definition kfsw_fbo_clock_seconds :: "bool \<Rightarrow> int option \<Rightarrow> errno + int \<Rightarrow> errno + int" where
  "kfsw_fbo_clock_seconds csp csp_clock wallclock =
     (if csp then (case csp_clock of None \<Rightarrow> Inl ENODATA | Some seconds \<Rightarrow> Inr seconds) else wallclock)"

definition kfsw_fbo_schedule_clock_seconds :: "bool \<Rightarrow> int option \<Rightarrow> errno + int \<Rightarrow> errno + int" where
  "kfsw_fbo_schedule_clock_seconds = kfsw_fbo_clock_seconds"

section \<open>The text of an entry\<close>

definition is_blank :: "char \<Rightarrow> bool" where
  "is_blank c \<longleftrightarrow> c = CHR '' '' \<or> c = CHR 0x09"

fun tokenise :: "nat \<Rightarrow> string \<Rightarrow> string list" where
  "tokenise 0 text = []"
| "tokenise (Suc room) text =
     (let word = dropWhile is_blank text
      in if word = [] then []
         else takeWhile (\<lambda>c. \<not> is_blank c) word
                # tokenise room (drop 1 (dropWhile (\<lambda>c. \<not> is_blank c) word)))"

text \<open>The loop over the arguments; \<open>too_long\<close> is the error for a word that does not fit its buffer.\<close>

fun parse_args ::
  "errno \<Rightarrow> int \<Rightarrow> int \<Rightarrow> string list \<Rightarrow> kfsw_command_type list \<Rightarrow> errno + kfsw_command_arg list" where
  "parse_args too_long ulong_max long_max [] types = Inr []"
| "parse_args too_long ulong_max long_max (token # tokens) types =
     (if length token > KFSW_COMMAND_MAX_TEXT_SIZE then Inl too_long
      else
        (case kfsw_command_parse_arg ulong_max long_max (Some token) (hd types) Dest of
           Inl e \<Rightarrow> Inl e
         | Inr arg \<Rightarrow>
             (case parse_args too_long ulong_max long_max tokens (tl types) of
                Inl e \<Rightarrow> Inl e
              | Inr args \<Rightarrow> Inr (arg # args))))"

definition build ::
  "int \<Rightarrow> int \<Rightarrow> 'w registry_state \<Rightarrow> string \<Rightarrow> errno + (kfsw_command_info \<times> kfsw_command_arg list)" where
  "build ulong_max long_max reg text =
     (let tokens = tokenise (KFSW_COMMAND_MAX_ARGS + 2) text;
          words = length tokens
      in if words = 0 then Inl EINVAL
         else if words > KFSW_COMMAND_MAX_ARGS + 1 then Inl E2BIG
         else
           (case kfsw_command_find (Some (hd tokens)) Dest reg of
              Inl e \<Rightarrow> Inl e
            | Inr info \<Rightarrow>
                if words - 1 \<noteq> unat (ci_arg_count info) then Inl EINVAL
                else
                  (case parse_args EINVAL ulong_max long_max (tl tokens)
                     (case ci_arg_types info of None \<Rightarrow> [] | Some types \<Rightarrow> types) of
                     Inl e \<Rightarrow> Inl e
                   | Inr args \<Rightarrow> Inr (info, args))))"

definition content_hash :: "('v, 'n) fbo_env \<Rightarrow> kfsw_fbo_time_kind \<Rightarrow> int \<Rightarrow> u16 \<Rightarrow> string \<Rightarrow> u32" where
  "content_hash env kind when node line =
     fb_crc32_resume env
       (fb_crc32 env ([time_kind_value kind] @ sys_put_be64 (word_of_int when) @ sys_put_be16 node
          @ sys_put_be16 0))
       (bytes_of_string line)"

definition queue_hash :: "('v, 'n) fbo_env \<Rightarrow> schedule_state \<Rightarrow> u32" where
  "queue_hash env st =
     foldl (\<lambda>h s. if sl_used s then fb_crc32_resume env h (sys_put_be32 (se_content_hash (sl_entry s))) else h)
       0 (sch_slots st)"

definition live :: "slot \<Rightarrow> bool" where
  "live s \<longleftrightarrow> sl_used s \<and> (se_status (sl_entry s) = KFSW_FBO_ENTRY_SCHEDULED
                          \<or> se_status (sl_entry s) = KFSW_FBO_ENTRY_RUNNING)"

section \<open>The latency buffer\<close>

definition latency_floor_s :: "bool \<Rightarrow> command_state \<Rightarrow> u32" where
  "latency_floor_s csp cmd = (if csp then (kfsw_command_get_timeout_ms cmd + 1000 - 1) div 1000 else 1)"

definition kfsw_fbo_schedule_get_latency_s :: "schedule_state \<Rightarrow> u32" where
  "kfsw_fbo_schedule_get_latency_s st = sch_latency_s st"

definition kfsw_fbo_schedule_check_latency_s :: "bool \<Rightarrow> command_state \<Rightarrow> u32 \<Rightarrow> rc" where
  "kfsw_fbo_schedule_check_latency_s csp cmd seconds =
     (if seconds < latency_floor_s csp cmd \<or> seconds > KFSW_FBO_SCHEDULE_LATENCY_MAX_S then Some ERANGE else None)"

definition kfsw_fbo_schedule_set_latency_s ::
  "bool \<Rightarrow> command_state \<Rightarrow> u32 \<Rightarrow> schedule_state \<Rightarrow> rc \<times> schedule_state" where
  "kfsw_fbo_schedule_set_latency_s csp cmd seconds st =
     (case kfsw_fbo_schedule_check_latency_s csp cmd seconds of
        Some e \<Rightarrow> (Some e, st)
      | None \<Rightarrow> (None, st\<lparr>sch_latency_s := seconds\<rparr>))"

section \<open>Adding, cancelling and clearing\<close>

definition refuse_add :: "schedule_state \<Rightarrow> schedule_state" where
  "refuse_add st = st\<lparr>sch_refusals := sch_refusals st + 1\<rparr>"

definition new_slot ::
  "nat \<Rightarrow> kfsw_fbo_time_kind \<Rightarrow> int \<Rightarrow> u16 \<Rightarrow> string \<Rightarrow> u16 \<Rightarrow> u32 \<Rightarrow> int \<Rightarrow> slot" where
  "new_slot i kind when node line command_id hash uptime =
     (let e = zero_entry\<lparr>se_line := line, se_index := word_of_nat i, se_node := node,
                se_command_id := command_id, se_kind := kind, se_status := KFSW_FBO_ENTRY_SCHEDULED,
                se_content_hash := hash\<rparr>
      in (case kind of
            KFSW_FBO_TIME_RELATIVE \<Rightarrow>
              \<lparr>sl_entry = e\<lparr>se_delay_s := word_of_int when\<rparr>, sl_due_uptime_ms = uptime + when * 1000, sl_used = True\<rparr>
          | KFSW_FBO_TIME_ABSOLUTE \<Rightarrow>
              \<lparr>sl_entry = e\<lparr>se_due_utc := when\<rparr>, sl_due_uptime_ms = 0, sl_used = True\<rparr>))"

text \<open>The part under the queue lock; the second component is what is written to \<open>*index\<close>.\<close>

definition add_locked ::
  "('v, 'n) fbo_env \<Rightarrow> kfsw_fbo_time_kind \<Rightarrow> int \<Rightarrow> u16 \<Rightarrow> string \<Rightarrow> int \<Rightarrow> schedule_state
     \<Rightarrow> rc \<times> u16 option \<times> schedule_state" where
  "add_locked env kind when node line uptime st =
     (case build (fb_ulong_max env) (fb_long_max env) (fb_registry env) line of
        Inl e \<Rightarrow> (Some e, None, refuse_add st)
      | Inr (info, args) \<Rightarrow>
          (let hash = content_hash env kind when node line
           in case first_index (\<lambda>s. live s \<and> se_content_hash (sl_entry s) = hash) (sch_slots st) of
                Some i \<Rightarrow> (Some EEXIST, Some (word_of_nat i), st)
              | None \<Rightarrow>
                  (case first_index (\<lambda>s. \<not> sl_used s) (sch_slots st) of
                     None \<Rightarrow> (Some ENOSPC, None, refuse_add st)
                   | Some i \<Rightarrow>
                       (None, Some (word_of_nat i),
                        st\<lparr>sch_slots := (sch_slots st)[i := new_slot i kind when node line (ci_id info) hash uptime]\<rparr>))))"

text \<open>A \<open>kind\<close> outside the enumeration is \<open>None\<close>. \<open>clock\<close> is the wall clock and \<open>uptime\<close> the monotonic one.\<close>

definition kfsw_fbo_schedule_add ::
  "('v, 'n) fbo_env \<Rightarrow> kfsw_fbo_time_kind option \<Rightarrow> int \<Rightarrow> u16 \<Rightarrow> string option \<Rightarrow> dest \<Rightarrow> errno + int \<Rightarrow> int
     \<Rightarrow> schedule_state \<Rightarrow> rc \<times> u16 option \<times> schedule_state" where
  "kfsw_fbo_schedule_add env kind when node line index clock uptime st =
     (case line of
        None \<Rightarrow> (Some EINVAL, None, st)
      | Some l \<Rightarrow>
          if index = Null \<or> l = [] \<or> \<not> terminated_within KFSW_FBO_SCHEDULE_LINE_MAX l then (Some EINVAL, None, st)
          else
            (case kind of
               None \<Rightarrow> (Some EINVAL, None, st)
             | Some KFSW_FBO_TIME_RELATIVE \<Rightarrow>
                 if when \<le> 0 \<or> when > KFSW_FBO_SCHEDULE_DELAY_MAX_S then (Some EINVAL, None, st)
                 else if \<not> fb_command_csp env \<and> node \<noteq> 0 then (Some ENOTSUP, None, st)
                 else add_locked env KFSW_FBO_TIME_RELATIVE when node l uptime st
             | Some KFSW_FBO_TIME_ABSOLUTE \<Rightarrow>
                 if when \<le> 0 then (Some EINVAL, None, st)
                 else
                   (case clock of
                      Inl e \<Rightarrow> (Some ENODATA, None, refuse_add st)
                    | Inr now_utc \<Rightarrow>
                        if now_utc - when > uint (sch_latency_s st) then (Some ETIME, None, refuse_add st)
                        else if \<not> fb_command_csp env \<and> node \<noteq> 0 then (Some ENOTSUP, None, st)
                        else add_locked env KFSW_FBO_TIME_ABSOLUTE when node l uptime st)))"

definition kfsw_fbo_schedule_cancel :: "u16 \<Rightarrow> schedule_state \<Rightarrow> rc \<times> schedule_state" where
  "kfsw_fbo_schedule_cancel index st =
     (let i = unat index
      in if i \<ge> length (sch_slots st) then (Some ENOENT, st)
         else if \<not> sl_used (sch_slots st ! i) then (Some ENOENT, st)
         else if se_status (sl_entry (sch_slots st ! i)) \<noteq> KFSW_FBO_ENTRY_SCHEDULED then (Some EALREADY, st)
         else (None, st\<lparr>sch_slots := (sch_slots st)[i := (sch_slots st ! i)\<lparr>sl_entry :=
                       (sl_entry (sch_slots st ! i))\<lparr>se_status := KFSW_FBO_ENTRY_CANCELLED\<rparr>\<rparr>]\<rparr>))"

definition droppable :: "slot \<Rightarrow> bool" where
  "droppable s \<longleftrightarrow> sl_used s \<and> se_status (sl_entry s) \<noteq> KFSW_FBO_ENTRY_RUNNING"

definition kfsw_fbo_schedule_clear :: "schedule_state \<Rightarrow> nat \<times> schedule_state" where
  "kfsw_fbo_schedule_clear st =
     (length (filter droppable (sch_slots st)),
      st\<lparr>sch_slots := map (\<lambda>s. if droppable s then zero_slot else s) (sch_slots st)\<rparr>)"

section \<open>Reading the queue\<close>

text \<open>\<open>DIV_ROUND_UP\<close> on signed operands divides towards zero.\<close>

definition remaining :: "int \<Rightarrow> int option \<Rightarrow> slot \<Rightarrow> u32" where
  "remaining uptime utc s =
     (if se_status (sl_entry s) \<noteq> KFSW_FBO_ENTRY_SCHEDULED then 0
      else
        (case (se_kind (sl_entry s), utc) of
           (KFSW_FBO_TIME_RELATIVE, _) \<Rightarrow>
             (let left = (sl_due_uptime_ms s - uptime + 1000 - 1) sdiv 1000 in if left > 0 then word_of_int left else 0)
         | (KFSW_FBO_TIME_ABSOLUTE, Some t) \<Rightarrow>
             (let left = se_due_utc (sl_entry s) - t in if left > 0 then word_of_int left else 0)
         | (KFSW_FBO_TIME_ABSOLUTE, None) \<Rightarrow> 0))"

definition kfsw_fbo_schedule_get_entry ::
  "u16 \<Rightarrow> dest \<Rightarrow> int option \<Rightarrow> int \<Rightarrow> schedule_state \<Rightarrow> errno + kfsw_fbo_schedule_entry" where
  "kfsw_fbo_schedule_get_entry index entry utc uptime st =
     (let i = unat index
      in if entry = Null then Inl EINVAL
         else if i \<ge> length (sch_slots st) then Inl ENOENT
         else if \<not> sl_used (sch_slots st ! i) then Inl ENOENT
         else Inr ((sl_entry (sch_slots st ! i))\<lparr>se_remaining_s := remaining uptime utc (sch_slots st ! i)\<rparr>))"

definition count_slot ::
  "int \<Rightarrow> int option \<Rightarrow> slot \<Rightarrow> kfsw_fbo_schedule_status \<Rightarrow> kfsw_fbo_schedule_status" where
  "count_slot uptime utc s status =
     (if \<not> sl_used s then status
      else
        (let r = status\<lparr>ss_entries := ss_entries status + 1\<rparr>
         in case se_status (sl_entry s) of
              KFSW_FBO_ENTRY_SCHEDULED \<Rightarrow>
                (let r1 = r\<lparr>ss_scheduled := ss_scheduled r + 1\<rparr>
                 in case se_kind (sl_entry s) of
                      KFSW_FBO_TIME_ABSOLUTE \<Rightarrow>
                        if ss_next_due_utc r1 = 0 \<or> se_due_utc (sl_entry s) < ss_next_due_utc r1
                        then r1\<lparr>ss_next_due_utc := se_due_utc (sl_entry s)\<rparr> else r1
                    | KFSW_FBO_TIME_RELATIVE \<Rightarrow>
                        (let left = remaining uptime utc s
                         in if ss_next_due_s r1 = 0 \<or> left < ss_next_due_s r1
                            then r1\<lparr>ss_next_due_s := left\<rparr> else r1))
            | KFSW_FBO_ENTRY_RUNNING \<Rightarrow> r\<lparr>ss_running := ss_running r + 1\<rparr>
            | KFSW_FBO_ENTRY_COMPLETED \<Rightarrow> r\<lparr>ss_completed := ss_completed r + 1\<rparr>
            | KFSW_FBO_ENTRY_FAILED \<Rightarrow> r\<lparr>ss_failed := ss_failed r + 1\<rparr>
            | KFSW_FBO_ENTRY_OVERDUE \<Rightarrow> r\<lparr>ss_overdue := ss_overdue r + 1\<rparr>
            | KFSW_FBO_ENTRY_CANCELLED \<Rightarrow> r\<lparr>ss_cancelled := ss_cancelled r + 1\<rparr>))"

definition kfsw_fbo_schedule_get_status ::
  "('v, 'n) fbo_env \<Rightarrow> dest \<Rightarrow> int option \<Rightarrow> int \<Rightarrow> schedule_state \<Rightarrow> errno + kfsw_fbo_schedule_status" where
  "kfsw_fbo_schedule_get_status env status utc uptime st =
     (if status = Null then Inl EINVAL
      else Inr (fold (count_slot uptime utc) (sch_slots st)
        \<lparr>ss_hash = queue_hash env st, ss_releases = sch_releases st, ss_refusals = sch_refusals st,
         ss_overdues = sch_overdues st, ss_clock_steps = sch_clock_steps st, ss_latency_s = sch_latency_s st,
         ss_next_due_utc = 0, ss_next_due_s = 0, ss_capacity = word_of_nat (length (sch_slots st)),
         ss_entries = 0, ss_scheduled = 0, ss_running = 0, ss_completed = 0, ss_failed = 0, ss_overdue = 0,
         ss_cancelled = 0, ss_clock_set = (utc \<noteq> None), ss_last_error = sch_last_error st\<rparr>))"

section \<open>Releasing\<close>

text \<open>The command an entry names; the result is zero unless the command service wrote it.\<close>

definition fbo_invoke ::
  "('v, 'n) fbo_env \<Rightarrow> kfsw_fbo_schedule_entry \<Rightarrow> ('v, 'n) fbo_node
     \<Rightarrow> rc \<times> kfsw_command_result \<times> ('v, 'n) fbo_node" where
  "fbo_invoke env entry nd =
     (case build (fb_ulong_max env) (fb_long_max env) (fb_registry env) (se_line entry) of
        Inl e \<Rightarrow> (Some e, zero_result, nd)
      | Inr (info, args) \<Rightarrow>
          if se_node entry = 0 then
            (case kfsw_command_invoke (fb_now_us env) (env_thread (cl_env (fb_client env))) (fb_registry env)
               (ci_name info) args Dest (fn_system nd) of
               (Inl e, sys) \<Rightarrow> (Some e, zero_result, nd\<lparr>fn_system := sys\<rparr>)
             | (Inr (outcome, r), sys) \<Rightarrow> (outcome, r, nd\<lparr>fn_system := sys\<rparr>))
          else if fb_command_csp env then
            (case (if fb_command_retry env then kfsw_command_invoke_remote_retry else kfsw_command_invoke_remote)
                    (fb_link env) (fb_client env) (se_node entry) (ci_name info) args Dest
                    (fn_request_id nd, fn_system nd, fn_net nd) of
               (outcome, r, request_id, sys, net) \<Rightarrow>
                 (outcome, (case r of None \<Rightarrow> zero_result | Some r' \<Rightarrow> r'),
                  nd\<lparr>fn_request_id := request_id, fn_system := sys, fn_net := net\<rparr>))
          else (Some ENOTSUP, zero_result, nd))"

definition release_begin :: "nat \<Rightarrow> int option \<Rightarrow> schedule_state \<Rightarrow> schedule_state" where
  "release_begin i utc st =
     st\<lparr>sch_slots := (sch_slots st)[i := (sch_slots st ! i)\<lparr>sl_entry :=
          (sl_entry (sch_slots st ! i))\<lparr>se_status := KFSW_FBO_ENTRY_RUNNING,
            se_released_utc := (case utc of None \<Rightarrow> 0 | Some t \<Rightarrow> t)\<rparr>\<rparr>],
        sch_releases := saturating_increment (sch_releases st)\<rparr>"

definition release_failed :: "rc \<Rightarrow> kfsw_command_result \<Rightarrow> bool" where
  "release_failed outcome result \<longleftrightarrow> outcome \<noteq> None \<or> rs_status result \<noteq> KFSW_COMMAND_OK"

definition release_end :: "nat \<Rightarrow> rc \<Rightarrow> kfsw_command_result \<Rightarrow> schedule_state \<Rightarrow> schedule_state" where
  "release_end i outcome result st =
     (let failed = release_failed outcome result
      in st\<lparr>sch_slots := (sch_slots st)[i := (sch_slots st ! i)\<lparr>sl_entry :=
              (sl_entry (sch_slots st ! i))\<lparr>
                 se_result := outcome, se_command_status := status_value (rs_status result),
                 se_status := (if failed then KFSW_FBO_ENTRY_FAILED else KFSW_FBO_ENTRY_COMPLETED)\<rparr>\<rparr>],
            sch_last_error := (if failed then outcome else sch_last_error st)\<rparr>)"

definition release :: "('v, 'n) fbo_env \<Rightarrow> int option \<Rightarrow> nat \<Rightarrow> ('v, 'n) fbo_node \<Rightarrow> ('v, 'n) fbo_node" where
  "release env utc i nd =
     (let nd1 = with_schedule (release_begin i utc) nd;
          entry = sl_entry (sch_slots (node_schedule nd1) ! i);
          nd2 = with_events (kfsw_fbo_note (fb_now_us env) KFSW_FBO_EVENT_RELEASED KFSW_EVENT_INFO (word_of_nat i)) nd1;
          (outcome, result, nd3) = fbo_invoke env entry nd2
      in with_schedule (release_end i outcome result) nd3)"

text \<open>How late an entry is, or \<open>None\<close> when it is not due.\<close>

definition due_now :: "int \<Rightarrow> int option \<Rightarrow> slot \<Rightarrow> int option" where
  "due_now uptime utc s =
     (case se_kind (sl_entry s) of
        KFSW_FBO_TIME_RELATIVE \<Rightarrow>
          if uptime < sl_due_uptime_ms s then None else Some ((uptime - sl_due_uptime_ms s) div 1000)
      | KFSW_FBO_TIME_ABSOLUTE \<Rightarrow>
          (case utc of
             None \<Rightarrow> None
           | Some t \<Rightarrow> if t < se_due_utc (sl_entry s) then None else Some (t - se_due_utc (sl_entry s))))"

definition mark_overdue :: "nat \<Rightarrow> schedule_state \<Rightarrow> schedule_state" where
  "mark_overdue i st =
     st\<lparr>sch_slots := (sch_slots st)[i := (sch_slots st ! i)\<lparr>sl_entry :=
          (sl_entry (sch_slots st ! i))\<lparr>se_status := KFSW_FBO_ENTRY_OVERDUE, se_result := Some ETIME\<rparr>\<rparr>],
        sch_overdues := saturating_increment (sch_overdues st)\<rparr>"

text \<open>One round of the loop over the slots, and the loop; the candidate comes with its lateness.\<close>

definition scan_slot ::
  "u64 \<Rightarrow> int \<Rightarrow> int option \<Rightarrow> nat \<Rightarrow> (nat \<times> int) option \<times> schedule_state \<times> event_state
     \<Rightarrow> (nat \<times> int) option \<times> schedule_state \<times> event_state" where
  "scan_slot now uptime utc i = (\<lambda>(candidate, st, ev).
     let s = sch_slots st ! i
     in if \<not> sl_used s \<or> se_status (sl_entry s) \<noteq> KFSW_FBO_ENTRY_SCHEDULED then (candidate, st, ev)
        else
          (case due_now uptime utc s of
             None \<Rightarrow> (candidate, st, ev)
           | Some lateness \<Rightarrow>
               if lateness > uint (sch_latency_s st) then
                 (candidate, mark_overdue i st,
                  kfsw_fbo_note now KFSW_FBO_EVENT_OVERDUE KFSW_EVENT_ERROR (word_of_nat i) ev)
               else if candidate = None \<or> lateness > snd (the candidate) then (Some (i, lateness), st, ev)
               else (candidate, st, ev)))"

definition scan ::
  "u64 \<Rightarrow> int \<Rightarrow> int option \<Rightarrow> schedule_state \<times> event_state
     \<Rightarrow> (nat \<times> int) option \<times> schedule_state \<times> event_state" where
  "scan now uptime utc = (\<lambda>(st, ev). fold (scan_slot now uptime utc) [0..<length (sch_slots st)] (None, st, ev))"

definition scan_node ::
  "('v, 'n) fbo_env \<Rightarrow> int \<Rightarrow> int option \<Rightarrow> ('v, 'n) fbo_node \<Rightarrow> nat option \<times> ('v, 'n) fbo_node" where
  "scan_node env uptime utc nd =
     (case scan (fb_now_us env) uptime utc (node_schedule nd, sys_event (fn_system nd)) of
        (candidate, st, ev) \<Rightarrow>
          (map_option fst candidate, with_events (\<lambda>_. ev) (with_schedule (\<lambda>_. st) nd)))"

text \<open>The loop of a sweep with the releases it may still make.\<close>

fun sweep_rounds ::
  "('v, 'n) fbo_env \<Rightarrow> int \<Rightarrow> int option \<Rightarrow> nat \<Rightarrow> ('v, 'n) fbo_node \<Rightarrow> ('v, 'n) fbo_node" where
  "sweep_rounds env uptime utc 0 nd = nd"
| "sweep_rounds env uptime utc (Suc rounds) nd =
     (case scan_node env uptime utc nd of
        (None, nd1) \<Rightarrow> nd1
      | (Some i, nd1) \<Rightarrow> sweep_rounds env uptime utc rounds (release env utc i nd1))"

definition fbo_sweep :: "('v, 'n) fbo_env \<Rightarrow> int \<Rightarrow> int option \<Rightarrow> ('v, 'n) fbo_node \<Rightarrow> ('v, 'n) fbo_node" where
  "fbo_sweep env uptime utc nd = sweep_rounds env uptime utc (fb_burst env) nd"

definition check_step ::
  "u64 \<Rightarrow> int \<Rightarrow> int option \<Rightarrow> int \<Rightarrow> schedule_state \<times> event_state \<Rightarrow> schedule_state \<times> event_state" where
  "check_step now step_ms utc uptime = (\<lambda>(st, ev).
     case utc of
       None \<Rightarrow> (st\<lparr>sch_have_last := False\<rparr>, ev)
     | Some t \<Rightarrow>
         let drift = (t - sch_last_utc st) * 1000 - (uptime - sch_last_mono st);
             stepped = sch_have_last st \<and> (drift > step_ms \<or> drift < - step_ms);
             st1 = (if stepped then st\<lparr>sch_clock_steps := saturating_increment (sch_clock_steps st)\<rparr> else st);
             ev1 = (if stepped then kfsw_fbo_note now KFSW_FBO_EVENT_CLOCK_STEP KFSW_EVENT_WARNING
                      (ucast (sch_clock_steps st1)) ev else ev)
         in (st1\<lparr>sch_last_utc := t, sch_last_mono := uptime, sch_have_last := True\<rparr>, ev1))"

text \<open>One round of the release thread; \<open>uptime\<close> and \<open>uptime'\<close> are its two readings of the monotonic clock.\<close>

definition schedule_round ::
  "('v, 'n) fbo_env \<Rightarrow> errno + int \<Rightarrow> int \<Rightarrow> int \<Rightarrow> ('v, 'n) fbo_node \<Rightarrow> ('v, 'n) fbo_node" where
  "schedule_round env clock uptime uptime' nd =
     (let utc = (case clock of Inl e \<Rightarrow> None | Inr t \<Rightarrow> Some t);
          (st, ev) = check_step (fb_now_us env) (fb_step_ms env) utc uptime (node_schedule nd, sys_event (fn_system nd))
      in fbo_sweep env uptime' utc (with_events (\<lambda>_. ev) (with_schedule (\<lambda>_. st) nd)))"

section \<open>Specification vocabulary\<close>

definition waiting :: "slot \<Rightarrow> bool" where
  "waiting s \<longleftrightarrow> sl_used s \<and> se_status (sl_entry s) = KFSW_FBO_ENTRY_SCHEDULED"

definition lateness :: "int \<Rightarrow> int option \<Rightarrow> schedule_state \<Rightarrow> nat \<Rightarrow> int" where
  "lateness uptime utc st i = (case due_now uptime utc (sch_slots st ! i) of None \<Rightarrow> 0 | Some l \<Rightarrow> l)"

definition ready :: "int \<Rightarrow> int option \<Rightarrow> schedule_state \<Rightarrow> nat \<Rightarrow> bool" where
  "ready uptime utc st i \<longleftrightarrow> waiting (sch_slots st ! i) \<and> due_now uptime utc (sch_slots st ! i) \<noteq> None
     \<and> lateness uptime utc st i \<le> uint (sch_latency_s st)"

definition too_late :: "int \<Rightarrow> int option \<Rightarrow> schedule_state \<Rightarrow> nat \<Rightarrow> bool" where
  "too_late uptime utc st i \<longleftrightarrow> waiting (sch_slots st ! i) \<and> due_now uptime utc (sch_slots st ! i) \<noteq> None
     \<and> lateness uptime utc st i > uint (sch_latency_s st)"

text \<open>The entries to release, the longest due first and in slot order among equals.\<close>

definition release_plan :: "int \<Rightarrow> int option \<Rightarrow> schedule_state \<Rightarrow> nat list" where
  "release_plan uptime utc st =
     sort_key (\<lambda>i. - lateness uptime utc st i) (filter (ready uptime utc st) [0..<length (sch_slots st)])"

definition overdue_plan :: "int \<Rightarrow> int option \<Rightarrow> schedule_state \<Rightarrow> nat list" where
  "overdue_plan uptime utc st = filter (too_late uptime utc st) [0..<length (sch_slots st)]"

text \<open>Marking an entry overdue and recording it.\<close>

definition report_overdue :: "('v, 'n) fbo_env \<Rightarrow> nat \<Rightarrow> ('v, 'n) fbo_node \<Rightarrow> ('v, 'n) fbo_node" where
  "report_overdue env i nd =
     with_events (kfsw_fbo_note (fb_now_us env) KFSW_FBO_EVENT_OVERDUE KFSW_EVENT_ERROR (word_of_nat i))
       (with_schedule (mark_overdue i) nd)"

text \<open>No command of the registry changes the queue.\<close>

definition quiet_registry :: "'v fbo_world registry_state \<Rightarrow> bool" where
  "quiet_registry reg \<longleftrightarrow> (\<forall>d \<in> set (registry reg). \<exists>h. cd_handler d = Some h
     \<and> (\<forall>args source r sys. fw_schedule (sys_world (snd (snd (h args source r sys)))) = fw_schedule (sys_world sys)))"

text \<open>The first element of least key, as the loop over the slots finds it and as a stable sort puts it.\<close>

fun least :: "('i \<Rightarrow> 'k::linorder) \<Rightarrow> 'i list \<Rightarrow> 'i option" where
  "least f [] = None"
| "least f (x # xs) = (case least f xs of None \<Rightarrow> Some x | Some y \<Rightarrow> Some (if f x \<le> f y then x else y))"

definition report_all :: "('v, 'n) fbo_env \<Rightarrow> int \<Rightarrow> int option \<Rightarrow> ('v, 'n) fbo_node \<Rightarrow> ('v, 'n) fbo_node" where
  "report_all env uptime utc nd = fold (report_overdue env) (overdue_plan uptime utc (node_schedule nd)) nd"

text \<open>
  Interleaving. The release thread is between its steps (\<open>Chosen\<close>: the scan has left the queue lock with a
  candidate; \<open>Running\<close>: its command runs) while other threads use the queue. Accepted entries are numbered,
  and the numbers of those whose command was started are kept.
\<close>

datatype release_point = Between | Chosen nat | Running nat

record schedule_run =
  rn_schedule :: schedule_state
  rn_point :: release_point
  rn_serials :: "nat list"
  rn_next :: nat
  rn_started :: "nat list"

inductive schedule_step :: "('v, 'n) fbo_env \<Rightarrow> schedule_run \<Rightarrow> schedule_run \<Rightarrow> bool" for env where
  add: "kfsw_fbo_schedule_add env kind when node line Dest clock uptime (rn_schedule r) = (None, Some i, st)
     \<Longrightarrow> schedule_step env r (r\<lparr>rn_schedule := st, rn_serials := (rn_serials r)[unat i := rn_next r],
           rn_next := Suc (rn_next r)\<rparr>)"
| refuse: "kfsw_fbo_schedule_add env kind when node line index clock uptime (rn_schedule r) = (Some e, i, st)
     \<Longrightarrow> schedule_step env r (r\<lparr>rn_schedule := st\<rparr>)"
| cancel: "schedule_step env r (r\<lparr>rn_schedule := snd (kfsw_fbo_schedule_cancel k (rn_schedule r))\<rparr>)"
| clear: "schedule_step env r (r\<lparr>rn_schedule := snd (kfsw_fbo_schedule_clear (rn_schedule r))\<rparr>)"
| latency: "schedule_step env r (r\<lparr>rn_schedule := snd (kfsw_fbo_schedule_set_latency_s csp cmd seconds (rn_schedule r))\<rparr>)"
| choose: "rn_point r = Between \<Longrightarrow> scan now uptime utc (rn_schedule r, ev) = (Some (i, l), st, ev')
     \<Longrightarrow> schedule_step env r (r\<lparr>rn_schedule := st, rn_point := Chosen i\<rparr>)"
| rest: "rn_point r = Between \<Longrightarrow> scan now uptime utc (rn_schedule r, ev) = (None, st, ev')
     \<Longrightarrow> schedule_step env r (r\<lparr>rn_schedule := st\<rparr>)"
| start: "rn_point r = Chosen i
     \<Longrightarrow> schedule_step env r (r\<lparr>rn_schedule := release_begin i utc (rn_schedule r), rn_point := Running i,
           rn_started := (if sl_used (sch_slots (rn_schedule r) ! i) then rn_serials r ! i # rn_started r
                          else rn_started r)\<rparr>)"
| finish: "rn_point r = Running i
     \<Longrightarrow> schedule_step env r (r\<lparr>rn_schedule := release_end i outcome result (rn_schedule r), rn_point := Between\<rparr>)"

definition schedule_boot :: "nat \<Rightarrow> u32 \<Rightarrow> schedule_state" where
  "schedule_boot n latency = \<lparr>sch_slots = replicate n zero_slot, sch_latency_s = latency, sch_releases = 0,
     sch_refusals = 0, sch_overdues = 0, sch_clock_steps = 0, sch_last_error = None, sch_last_utc = 0,
     sch_last_mono = 0, sch_have_last = False\<rparr>"

definition run_boot :: "nat \<Rightarrow> u32 \<Rightarrow> schedule_run" where
  "run_boot n latency = \<lparr>rn_schedule = schedule_boot n latency, rn_point = Between, rn_serials = replicate n 0,
     rn_next = 0, rn_started = []\<rparr>"

definition schedule_reachable :: "('v, 'n) fbo_env \<Rightarrow> nat \<Rightarrow> u32 \<Rightarrow> schedule_run \<Rightarrow> bool" where
  "schedule_reachable env n latency r \<longleftrightarrow> (schedule_step env)\<^sup>*\<^sup>* (run_boot n latency) r"

definition unstarted :: "slot \<Rightarrow> bool" where
  "unstarted s \<longleftrightarrow> se_status (sl_entry s) \<in> {KFSW_FBO_ENTRY_SCHEDULED, KFSW_FBO_ENTRY_CANCELLED, KFSW_FBO_ENTRY_OVERDUE}"

text \<open>What holds between any two steps.\<close>

definition run_ok :: "nat \<Rightarrow> schedule_run \<Rightarrow> bool" where
  "run_ok n r \<longleftrightarrow>
     (let slots = sch_slots (rn_schedule r)
      in length slots = n \<and> length (rn_serials r) = n \<and> distinct (rn_started r) \<and> set (rn_started r) \<subseteq> {..<rn_next r}
       \<and> (\<forall>i < n. sl_used (slots ! i) \<longrightarrow> rn_serials r ! i < rn_next r)
       \<and> (\<forall>i < n. \<forall>j < n. sl_used (slots ! i) \<and> sl_used (slots ! j) \<and> rn_serials r ! i = rn_serials r ! j \<longrightarrow> i = j)
       \<and> (\<forall>i < n. sl_used (slots ! i) \<and> unstarted (slots ! i) \<longrightarrow> rn_serials r ! i \<notin> set (rn_started r))
       \<and> (\<forall>i < n. sl_used (slots ! i) \<and> se_status (sl_entry (slots ! i)) = KFSW_FBO_ENTRY_RUNNING \<longrightarrow> rn_point r = Running i)
       \<and> (\<forall>i. rn_point r = Chosen i \<longrightarrow> i < n \<and> (sl_used (slots ! i) \<longrightarrow> unstarted (slots ! i)))
       \<and> (\<forall>i. rn_point r = Running i \<longrightarrow> i < n))"

text \<open>A node with one command, for the witnesses.\<close>

definition tick :: "nat fbo_world kfsw_command_handler" where
  "tick args source result sys =
     (None, result, sys\<lparr>sys_world := (sys_world sys)\<lparr>fw_other := Suc (fw_other (sys_world sys))\<rparr>\<rparr>)"

definition demo_fbo_registry :: "nat fbo_world registry_state" where
  "demo_fbo_registry = \<lparr>registry = [\<lparr>cd_id = 9, cd_name = Some ''tick'', cd_help = None, cd_flags = 0,
     cd_arg_count = 0, cd_arg_types = None, cd_handler = Some tick\<rparr>], registry_ready = True\<rparr>"

definition demo_fbo_env :: "(nat, unit) fbo_env" where
  "demo_fbo_env = \<lparr>fb_ulong_max = 4294967295, fb_long_max = 2147483647,
     fb_crc32 = (\<lambda>b. of_nat (sum_list (map unat b))), fb_crc32_resume = (\<lambda>h b. h + of_nat (sum_list (map unat b))),
     fb_command_csp = False, fb_command_retry = False, fb_burst = 4, fb_step_ms = 2000,
     fb_client = \<lparr>cl_env = \<lparr>env_now_us = 0, env_thread = 1, env_registry = demo_fbo_registry, env_window = 0\<rparr>,
       cl_csp_info = \<lparr>csp_initialized = False, csp_router_running = False, csp_address = 0\<rparr>,
       cl_broadcast = 16383, cl_csrand = None, cl_retry_built = False\<rparr>,
     fb_link = (\<lambda>node packet net. (No_Connection, net))\<rparr>"

definition demo_fbo_node :: "schedule_state \<Rightarrow> (nat, unit) fbo_node" where
  "demo_fbo_node st = \<lparr>fn_request_id = 0, fn_system = \<lparr>sys_command = \<lparr>claim = \<lparr>cl_owner = None,
     cl_mode = KFSW_COMMAND_CLAIM_SHARED, cl_name = [], cl_intrusions = 0, cl_refusals = 0, cl_held = False\<rparr>,
     command_invoked = 0, command_failed = 0, command_unknown = 0, command_rejected = 0, command_timeout_ms = 1000\<rparr>,
     sys_event = event_init 4, sys_world = \<lparr>fw_schedule = st, fw_other = 0\<rparr>\<rparr>, fn_net = ()\<rparr>"

text \<open>Two entries added at 0 and due after 10 and 5 seconds.\<close>

definition demo_schedule :: schedule_state where
  "demo_schedule =
     (let st1 = snd (snd (kfsw_fbo_schedule_add demo_fbo_env (Some KFSW_FBO_TIME_RELATIVE) 10 0 (Some ''tick'') Dest
            (Inl ENODATA) 0 (schedule_boot 3 60)))
      in snd (snd (kfsw_fbo_schedule_add demo_fbo_env (Some KFSW_FBO_TIME_RELATIVE) 5 0 (Some ''tick'') Dest
            (Inl ENODATA) 0 st1)))"

section \<open>The commands of a release\<close>

lemma node_schedule_with [simp]:
  "node_schedule (with_schedule f nd) = f (node_schedule nd)"
  "node_schedule (with_events g nd) = node_schedule nd"
  "node_schedule (nd\<lparr>fn_net := n\<rparr>) = node_schedule nd"
  "node_schedule (nd\<lparr>fn_request_id := k\<rparr>) = node_schedule nd"
  by (simp_all add: node_schedule_def with_schedule_def with_events_def)

lemma with_same [simp]:
  "with_schedule (\<lambda>_. node_schedule nd) nd = nd" "with_events (\<lambda>_. sys_event (fn_system nd)) nd = nd"
  by (simp_all add: node_schedule_def with_schedule_def with_events_def)

lemma find_registered:
  assumes "find_by_name n commands = Some d"
  shows "d \<in> set commands"
  using assms by (auto simp: find_by_name_def find_Some_iff in_set_conv_nth)

lemma dispatch_quiet:
  assumes "quiet_registry reg" and "\<And>d. def = Some d \<Longrightarrow> d \<in> set (registry reg)"
    and "dispatch now current reg def args source sys = (outcome, r, sys')"
  shows "fw_schedule (sys_world sys') = fw_schedule (sys_world sys)"
proof (cases def)
  case None
  then show ?thesis using assms(3) by (auto simp: dispatch_def record_outcome_def Let_def split: if_splits)
next
  case (Some d)
  with assms(1,2) obtain h where h: "cd_handler d = Some h"
    "\<And>args source r sys. fw_schedule (sys_world (snd (snd (h args source r sys)))) = fw_schedule (sys_world sys)"
    unfolding quiet_registry_def by blast
  from h(2) have "fw_schedule (sys_world s) = fw_schedule (sys_world s0)"
    if "h a src r0 s0 = (x, y, s)" for a src r0 s0 x y s using that by (metis snd_conv)
  then show ?thesis using assms(3) Some h(1)
    by (auto simp: dispatch_def record_outcome_def Let_def split: if_splits prod.splits)
qed

lemma invoke_quiet:
  assumes "quiet_registry reg" and "kfsw_command_invoke now current reg name args result sys = (outcome, sys')"
  shows "fw_schedule (sys_world sys') = fw_schedule (sys_world sys)"
proof (cases name)
  case None
  then show ?thesis using assms(2) by (simp add: kfsw_command_invoke_def)
next
  case (Some n)
  obtain x y z where d: "dispatch now current reg (find_by_name n (registry reg)) args local_source sys = (x, y, z)"
    by (metis prod_cases3)
  have "fw_schedule (sys_world z) = fw_schedule (sys_world sys)"
    by (rule dispatch_quiet [OF assms(1) _ d]) (rule find_registered)
  then show ?thesis using assms(2) Some d by (simp add: kfsw_command_invoke_def split: if_splits)
qed

lemma invoke_remote_quiet:
  assumes "quiet_registry (env_registry (cl_env cl))"
    and "invoke_remote transact cl node name args retry result (k, sys, net) = (outcome, r, k', sys', net')"
  shows "fw_schedule (sys_world sys') = fw_schedule (sys_world sys)"
  using assms(2)
  by (auto simp: invoke_remote_def Let_def split: if_splits sum.splits prod.splits
      dest: invoke_quiet [OF assms(1)])

lemma fbo_invoke_quiet:
  assumes "quiet_registry (fb_registry env)" and "fbo_invoke env entry nd = (outcome, r, nd')"
  shows "node_schedule nd' = node_schedule nd"
proof (cases "build (fb_ulong_max env) (fb_long_max env) (fb_registry env) (se_line entry)")
  case (Inl e)
  then show ?thesis using assms(2) by (simp add: fbo_invoke_def)
next
  case (Inr b)
  obtain info args where b: "b = (info, args)" by (cases b)
  have q: "quiet_registry (env_registry (cl_env (fb_client env)))" using assms(1) by (simp add: fb_registry_def)
  show ?thesis
    using assms(2) Inr b
    by (auto simp: fbo_invoke_def node_schedule_def kfsw_command_invoke_remote_def
        kfsw_command_invoke_remote_retry_def split: if_splits sum.splits prod.splits
        dest: invoke_quiet [OF assms(1)] invoke_remote_quiet [OF q])
qed

section \<open>A sweep follows the plan\<close>

lemma least_None [simp]: "least f xs = None \<longleftrightarrow> xs = []"
  by (cases xs) (auto split: option.splits)

lemma least_snoc:
  "least f (xs @ [x]) = (case least f xs of None \<Rightarrow> Some x | Some y \<Rightarrow> Some (if f x < f y then x else y))"
  by (induction xs) (auto split: option.splits if_splits)

lemma least_sort_key: "least f xs = (case sort_key f xs of [] \<Rightarrow> None | x # rest \<Rightarrow> Some x)"
proof (induction xs)
  case (Cons x xs)
  then show ?case by (cases "sort_key f xs") (auto split: option.splits)
qed simp

text \<open>An entry that stops waiting leaves the plan, and nothing else in it changes.\<close>

lemma entry_leaves:
  assumes "sch_slots st' = (sch_slots st)[i := s]" and "sch_latency_s st' = sch_latency_s st"
    and "due_now uptime utc s = due_now uptime utc (sch_slots st ! i)" and "\<not> waiting s"
    and "i < length (sch_slots st)"
  shows "lateness uptime utc st' = lateness uptime utc st"
    and "ready uptime utc st' = (\<lambda>j. ready uptime utc st j \<and> j \<noteq> i)"
    and "too_late uptime utc st' = (\<lambda>j. too_late uptime utc st j \<and> j \<noteq> i)"
    and "release_plan uptime utc st' = filter (\<lambda>j. j \<noteq> i) (release_plan uptime utc st)"
proof -
  have at: "due_now uptime utc (sch_slots st' ! j) = due_now uptime utc (sch_slots st ! j)"
    "waiting (sch_slots st' ! j) \<longleftrightarrow> waiting (sch_slots st ! j) \<and> j \<noteq> i" for j
    using assms(1,3-5) by (cases "j = i"; simp)+
  show l: "lateness uptime utc st' = lateness uptime utc st" by (rule ext) (simp add: lateness_def at)
  show r: "ready uptime utc st' = (\<lambda>j. ready uptime utc st j \<and> j \<noteq> i)"
    by (rule ext) (auto simp: ready_def at l assms(2))
  show "too_late uptime utc st' = (\<lambda>j. too_late uptime utc st j \<and> j \<noteq> i)"
    by (rule ext) (auto simp: too_late_def at l assms(2))
  show "release_plan uptime utc st' = filter (\<lambda>j. j \<noteq> i) (release_plan uptime utc st)"
    by (simp add: release_plan_def l r assms(1) filter_sort conj_commute)
qed

lemma due_now_cong:
  "se_kind (sl_entry s') = se_kind (sl_entry s) \<Longrightarrow> se_due_utc (sl_entry s') = se_due_utc (sl_entry s)
     \<Longrightarrow> sl_due_uptime_ms s' = sl_due_uptime_ms s \<Longrightarrow> due_now uptime utc s' = due_now uptime utc s"
  by (simp add: due_now_def split: kfsw_fbo_time_kind.split option.split)

lemma mark_overdue_slot:
  "\<exists>s. sch_slots (mark_overdue i st) = (sch_slots st)[i := s] \<and> \<not> waiting s
       \<and> (\<forall>uptime utc. due_now uptime utc s = due_now uptime utc (sch_slots st ! i))"
  by (intro exI conjI allI) (simp add: mark_overdue_def, simp add: waiting_def, rule due_now_cong, simp_all)

lemma mark_overdue_sel [simp]:
  "length (sch_slots (mark_overdue i st)) = length (sch_slots st)"
  "sch_latency_s (mark_overdue i st) = sch_latency_s st"
  by (simp_all add: mark_overdue_def)

lemma mark_overdue_leaves:
  assumes "i < length (sch_slots st)"
  shows "lateness uptime utc (mark_overdue i st) = lateness uptime utc st"
    and "ready uptime utc (mark_overdue i st) = (\<lambda>j. ready uptime utc st j \<and> j \<noteq> i)"
    and "too_late uptime utc (mark_overdue i st) = (\<lambda>j. too_late uptime utc st j \<and> j \<noteq> i)"
    and "release_plan uptime utc (mark_overdue i st) = filter (\<lambda>j. j \<noteq> i) (release_plan uptime utc st)"
proof -
  from mark_overdue_slot obtain s where s: "sch_slots (mark_overdue i st) = (sch_slots st)[i := s]"
    "due_now uptime utc s = due_now uptime utc (sch_slots st ! i)" "\<not> waiting s" by metis
  note e = entry_leaves [OF s(1) mark_overdue_sel(2) s(2,3) assms]
  show "lateness uptime utc (mark_overdue i st) = lateness uptime utc st"
    and "ready uptime utc (mark_overdue i st) = (\<lambda>j. ready uptime utc st j \<and> j \<noteq> i)"
    and "too_late uptime utc (mark_overdue i st) = (\<lambda>j. too_late uptime utc st j \<and> j \<noteq> i)"
    and "release_plan uptime utc (mark_overdue i st) = filter (\<lambda>j. j \<noteq> i) (release_plan uptime utc st)"
    by (rule e)+
qed

text \<open>One round of the loop over the slots, and the loop over the first \<open>k\<close> of them.\<close>

lemma scan_slot_at:
  assumes "sch_slots st1 ! k = sch_slots st ! k" and "sch_latency_s st1 = sch_latency_s st"
  shows "scan_slot now uptime utc k (candidate, st1, ev) =
     (if too_late uptime utc st k then
        (candidate, mark_overdue k st1, kfsw_fbo_note now KFSW_FBO_EVENT_OVERDUE KFSW_EVENT_ERROR (word_of_nat k) ev)
      else if ready uptime utc st k \<and> (candidate = None \<or> lateness uptime utc st k > snd (the candidate)) then
        (Some (k, lateness uptime utc st k), st1, ev)
      else (candidate, st1, ev))"
  by (auto simp: scan_slot_def Let_def assms too_late_def ready_def waiting_def lateness_def split: option.splits)

lemma scan_prefix:
  assumes "k \<le> length (sch_slots st)"
  shows "fold (scan_slot now uptime utc) [0..<k] (None, st, ev) =
     (map_option (\<lambda>i. (i, lateness uptime utc st i))
        (least (\<lambda>i. - lateness uptime utc st i) (filter (ready uptime utc st) [0..<k])),
      fold mark_overdue (filter (too_late uptime utc st) [0..<k]) st,
      fold (\<lambda>i. kfsw_fbo_note now KFSW_FBO_EVENT_OVERDUE KFSW_EVENT_ERROR (word_of_nat i))
        (filter (too_late uptime utc st) [0..<k]) ev)"
  using assms
proof (induction k)
  case (Suc k)
  define st1 where "st1 = fold mark_overdue (filter (too_late uptime utc st) [0..<k]) st"
  have other: "sch_slots (fold mark_overdue is s) ! k = sch_slots s ! k" if "k \<notin> set is" for "is" s
    using that by (induction "is" arbitrary: s) (auto simp: mark_overdue_def)
  have lat: "sch_latency_s (fold mark_overdue is s) = sch_latency_s s" for "is" s
    by (induction "is" arbitrary: s) auto
  have k: "sch_slots st1 ! k = sch_slots st ! k" "sch_latency_s st1 = sch_latency_s st"
    by (simp_all add: st1_def other lat)
  have one: "\<not> ready uptime utc st k" if "too_late uptime utc st k"
    using that by (simp add: ready_def too_late_def)
  show ?case
    using Suc one
    by (auto simp: st1_def [symmetric] scan_slot_at [OF k] least_snoc split: option.splits)
qed simp

lemma scan_planned:
  "scan now uptime utc (st, ev) =
     ((case release_plan uptime utc st of [] \<Rightarrow> None | i # rest \<Rightarrow> Some (i, lateness uptime utc st i)),
      fold mark_overdue (overdue_plan uptime utc st) st,
      fold (\<lambda>i. kfsw_fbo_note now KFSW_FBO_EVENT_OVERDUE KFSW_EVENT_ERROR (word_of_nat i))
        (overdue_plan uptime utc st) ev)"
  by (simp add: scan_def scan_prefix release_plan_def overdue_plan_def least_sort_key split: list.split)

lemma fold_report_overdue:
  "fold (report_overdue env) is nd =
     with_events (\<lambda>_. fold (\<lambda>i. kfsw_fbo_note (fb_now_us env) KFSW_FBO_EVENT_OVERDUE KFSW_EVENT_ERROR (word_of_nat i))
                   is (sys_event (fn_system nd)))
       (with_schedule (\<lambda>_. fold mark_overdue is (node_schedule nd)) nd)"
proof (induction "is" arbitrary: nd)
  case (Cons i "is")
  show ?case
    by (simp add: Cons.IH) (simp add: report_overdue_def with_events_def with_schedule_def node_schedule_def)
qed simp

lemma scan_node_planned:
  "scan_node env uptime utc nd =
     ((case release_plan uptime utc (node_schedule nd) of [] \<Rightarrow> None | i # rest \<Rightarrow> Some i), report_all env uptime utc nd)"
  by (simp add: scan_node_def scan_planned report_all_def fold_report_overdue split: list.split)

lemma fold_mark_overdue:
  assumes "set is \<subseteq> {..<length (sch_slots st)}"
  shows "too_late uptime utc (fold mark_overdue is st) = (\<lambda>j. too_late uptime utc st j \<and> j \<notin> set is)
    \<and> release_plan uptime utc (fold mark_overdue is st) = filter (\<lambda>j. j \<notin> set is) (release_plan uptime utc st)
    \<and> length (sch_slots (fold mark_overdue is st)) = length (sch_slots st)"
  using assms
proof (induction "is" arbitrary: st)
  case (Cons i "is")
  then have i: "i < length (sch_slots st)" by simp
  have rest: "set is \<subseteq> {..<length (sch_slots (mark_overdue i st))}" using Cons.prems by simp
  show ?case
    using Cons.IH [OF rest] by (auto simp: mark_overdue_leaves(3,4) [OF i] conj_commute)
qed simp

lemma overdue_plan_range: "set (overdue_plan uptime utc st) \<subseteq> {..<length (sch_slots st)}"
  by (auto simp: overdue_plan_def)

lemma report_all_sound:
  "overdue_plan uptime utc (node_schedule (report_all env uptime utc nd)) = []"
proof -
  have "too_late uptime utc (fold mark_overdue (overdue_plan uptime utc st) st) =
      (\<lambda>j. too_late uptime utc st j \<and> j \<notin> set (overdue_plan uptime utc st))"
    and "length (sch_slots (fold mark_overdue (overdue_plan uptime utc st) st)) = length (sch_slots st)" for st
    using fold_mark_overdue [OF overdue_plan_range] by blast+
  then have "overdue_plan uptime utc (fold mark_overdue (overdue_plan uptime utc st) st) = []" for st
    by (subst overdue_plan_def) (auto simp: filter_empty_conv overdue_plan_def)
  then show ?thesis by (simp add: report_all_def fold_report_overdue)
qed

lemma report_all_plan:
  "release_plan uptime utc (node_schedule (report_all env uptime utc nd)) = release_plan uptime utc (node_schedule nd)"
proof -
  have "filter (\<lambda>j. j \<notin> set (overdue_plan uptime utc st)) (release_plan uptime utc st) = release_plan uptime utc st" for st
    by (auto simp: filter_id_conv overdue_plan_def release_plan_def ready_def too_late_def)
  then show ?thesis
    using fold_mark_overdue [OF overdue_plan_range] by (simp add: report_all_def fold_report_overdue)
qed

text \<open>The slot after a release: it waits no longer, and its due time is as before.\<close>

lemma release_slot:
  assumes "quiet_registry (fb_registry env)" and "i < length (sch_slots (node_schedule nd))"
  obtains s where "sch_slots (node_schedule (release env utc i nd)) = (sch_slots (node_schedule nd))[i := s]"
    and "sch_latency_s (node_schedule (release env utc i nd)) = sch_latency_s (node_schedule nd)"
    and "due_now up u s = due_now up u (sch_slots (node_schedule nd) ! i)" and "\<not> waiting s"
proof -
  let ?st = "release_begin i utc (node_schedule nd)"
  obtain outcome r nd3 where inv: "fbo_invoke env (sl_entry (sch_slots ?st ! i))
      (with_events (kfsw_fbo_note (fb_now_us env) KFSW_FBO_EVENT_RELEASED KFSW_EVENT_INFO (word_of_nat i))
        (with_schedule (release_begin i utc) nd)) = (outcome, r, nd3)" by (metis prod_cases3)
  have "node_schedule nd3 = ?st" using fbo_invoke_quiet [OF assms(1) inv] by simp
  with inv have st: "node_schedule (release env utc i nd) = release_end i outcome r ?st"
    by (simp add: release_def Let_def)
  show thesis
  proof (rule that)
    show "sch_slots (node_schedule (release env utc i nd)) = (sch_slots (node_schedule nd))[i :=
        sch_slots (release_end i outcome r ?st) ! i]"
      using assms(2) by (simp add: st release_end_def release_begin_def Let_def)
    show "sch_latency_s (node_schedule (release env utc i nd)) = sch_latency_s (node_schedule nd)"
      by (simp add: st release_end_def release_begin_def Let_def)
    show "due_now up u (sch_slots (release_end i outcome r ?st) ! i) = due_now up u (sch_slots (node_schedule nd) ! i)"
      by (rule due_now_cong) (use assms(2) in \<open>simp_all add: release_end_def release_begin_def Let_def\<close>)
    show "\<not> waiting (sch_slots (release_end i outcome r ?st) ! i)"
      using assms(2) by (simp add: release_end_def release_begin_def waiting_def Let_def)
  qed
qed

lemma release_rest:
  assumes "quiet_registry (fb_registry env)" and "overdue_plan uptime utc (node_schedule nd) = []"
    and "release_plan uptime utc (node_schedule nd) = i # rest"
  shows "overdue_plan uptime utc (node_schedule (release env u i nd)) = []
       \<and> release_plan uptime utc (node_schedule (release env u i nd)) = rest"
proof -
  have "distinct (release_plan uptime utc (node_schedule nd))" by (simp add: release_plan_def)
  with assms(3) have d: "distinct (i # rest)" by simp
  have "i \<in> set (release_plan uptime utc (node_schedule nd))" using assms(3) by simp
  then have i: "i < length (sch_slots (node_schedule nd))" by (simp add: release_plan_def)
  obtain s where s: "sch_slots (node_schedule (release env u i nd)) = (sch_slots (node_schedule nd))[i := s]"
    "sch_latency_s (node_schedule (release env u i nd)) = sch_latency_s (node_schedule nd)"
    "due_now uptime utc s = due_now uptime utc (sch_slots (node_schedule nd) ! i)" "\<not> waiting s"
    by (rule release_slot [OF assms(1) i])
  note e = entry_leaves [OF s i]
  have "release_plan uptime utc (node_schedule (release env u i nd)) = filter (\<lambda>j. j \<noteq> i) (i # rest)"
    using e(4) assms(3) by simp
  moreover have "filter (\<lambda>j. j \<noteq> i) rest = rest" using d by (auto simp: filter_id_conv)
  ultimately show ?thesis using assms(2) e(3) by (auto simp: overdue_plan_def s(1) filter_empty_conv)
qed

lemma sweep_rounds_pick: "sweep_rounds env uptime utc n nd = pick_and_run (scan_node env uptime utc) (release env utc) n nd"
  by (induction n arbitrary: nd) (auto split: prod.split option.split)

interpretation release_sweep: planned_loop
  "\<lambda>nd :: ('v, 'n) fbo_node. quiet_registry (fb_registry (env :: ('v, 'n) fbo_env))"
  "\<lambda>nd. overdue_plan uptime utc (node_schedule nd) = []"
  "\<lambda>nd. release_plan uptime utc (node_schedule nd)"
  "scan_node env uptime utc" "release env utc" "report_all env uptime utc"
  for env uptime utc
proof unfold_locales
  fix nd :: "('v, 'n) fbo_node"
  show "scan_node env uptime utc nd =
      ((case release_plan uptime utc (node_schedule nd) of [] \<Rightarrow> None | i # rest \<Rightarrow> Some i), report_all env uptime utc nd)"
    by (rule scan_node_planned)
next
  fix nd :: "('v, 'n) fbo_node"
  assume "quiet_registry (fb_registry env)"
  then show "quiet_registry (fb_registry env) \<and> overdue_plan uptime utc (node_schedule (report_all env uptime utc nd)) = []
      \<and> release_plan uptime utc (node_schedule (report_all env uptime utc nd)) = release_plan uptime utc (node_schedule nd)"
    by (simp add: report_all_sound report_all_plan)
next
  fix nd :: "('v, 'n) fbo_node"
  assume "overdue_plan uptime utc (node_schedule nd) = []"
  then show "report_all env uptime utc nd = nd" by (simp add: report_all_def)
next
  fix nd :: "('v, 'n) fbo_node" and i rest
  assume "quiet_registry (fb_registry env)" and "overdue_plan uptime utc (node_schedule nd) = []"
    and "release_plan uptime utc (node_schedule nd) = i # rest"
  then show "quiet_registry (fb_registry env) \<and> overdue_plan uptime utc (node_schedule (release env utc i nd)) = []
      \<and> release_plan uptime utc (node_schedule (release env utc i nd)) = rest"
    using release_rest by blast
qed

section \<open>Adding\<close>

lemma add_locked_accepted:
  assumes "add_locked env k when node l uptime st = (None, idx, st')"
  shows "\<exists>i info args. build (fb_ulong_max env) (fb_long_max env) (fb_registry env) l = Inr (info, args)
    \<and> first_index (\<lambda>s. live s \<and> se_content_hash (sl_entry s) = content_hash env k when node l) (sch_slots st) = None
    \<and> first_index (\<lambda>s. \<not> sl_used s) (sch_slots st) = Some i \<and> idx = Some (word_of_nat i)
    \<and> st' = st\<lparr>sch_slots := (sch_slots st)[i :=
           new_slot i k when node l (ci_id info) (content_hash env k when node l) uptime]\<rparr>"
  using assms by (auto simp: add_locked_def Let_def split: sum.splits option.splits)

lemma add_reaches_lock:
  assumes "kfsw_fbo_schedule_add env kind when node line index clock uptime st = (None, idx, st')"
  shows "\<exists>k l. kind = Some k \<and> line = Some l \<and> index = Dest \<and> l \<noteq> []
    \<and> terminated_within KFSW_FBO_SCHEDULE_LINE_MAX l \<and> when > 0 \<and> (\<not> fb_command_csp env \<longrightarrow> node = 0)
    \<and> (k = KFSW_FBO_TIME_RELATIVE \<longrightarrow> when \<le> KFSW_FBO_SCHEDULE_DELAY_MAX_S)
    \<and> add_locked env k when node l uptime st = (None, idx, st')"
  using assms
  by (cases index) (auto simp: kfsw_fbo_schedule_add_def
      split: option.splits if_splits kfsw_fbo_time_kind.splits sum.splits)

lemma add_refused:
  assumes "kfsw_fbo_schedule_add env kind when node line index clock uptime st = (Some e, idx, st')"
  shows "st' = st \<or> st' = refuse_add st"
  using assms
  by (auto simp: kfsw_fbo_schedule_add_def add_locked_def Let_def
      split: option.splits if_splits kfsw_fbo_time_kind.splits sum.splits)

lemma refuse_add_sel [simp]:
  "sch_slots (refuse_add st) = sch_slots st" "sch_latency_s (refuse_add st) = sch_latency_s st"
  by (simp_all add: refuse_add_def)

lemma new_slot_sel [simp]:
  "sl_used (new_slot i k when node l c h up)" "se_status (sl_entry (new_slot i k when node l c h up)) = KFSW_FBO_ENTRY_SCHEDULED"
  "se_content_hash (sl_entry (new_slot i k when node l c h up)) = h" "se_line (sl_entry (new_slot i k when node l c h up)) = l"
  "se_node (sl_entry (new_slot i k when node l c h up)) = node" "se_kind (sl_entry (new_slot i k when node l c h up)) = k"
  by (simp_all add: new_slot_def Let_def zero_entry_def split: kfsw_fbo_time_kind.split)

lemma add_slot:
  assumes "kfsw_fbo_schedule_add env kind when node line index clock uptime st = (None, Some i, st')"
  obtains j s where "first_index (\<lambda>s. \<not> sl_used s) (sch_slots st) = Some j" and "i = word_of_nat j"
    and "st' = st\<lparr>sch_slots := (sch_slots st)[j := s]\<rparr>" and "sl_used s"
    and "se_status (sl_entry s) = KFSW_FBO_ENTRY_SCHEDULED"
proof -
  from add_reaches_lock [OF assms] obtain k l where
    "add_locked env k when node l uptime st = (None, Some i, st')" by (elim exE conjE)
  from add_locked_accepted [OF this] obtain j and info :: kfsw_command_info where
    "first_index (\<lambda>s. \<not> sl_used s) (sch_slots st) = Some j" "Some i = Some (word_of_nat j)"
    "st' = st\<lparr>sch_slots := (sch_slots st)[j := new_slot j k when node l (ci_id info) (content_hash env k when node l) uptime]\<rparr>"
    by blast
  then show thesis
    by (intro that [of j "new_slot j k when node l (ci_id info) (content_hash env k when node l) uptime"]) simp_all
qed

text \<open>The same content once more: the slot that holds it answers.\<close>

lemma add_again:
  assumes "build (fb_ulong_max env) (fb_long_max env) (fb_registry env) l = Inr b"
    and "first_index (\<lambda>s. live s \<and> se_content_hash (sl_entry s) = content_hash env k when node l) (sch_slots st) = None"
    and "i < length (sch_slots st)" and "live s" and "se_content_hash (sl_entry s) = content_hash env k when node l"
  shows "add_locked env k when node l uptime (st\<lparr>sch_slots := (sch_slots st)[i := s]\<rparr>) =
    (Some EEXIST, Some (word_of_nat i), st\<lparr>sch_slots := (sch_slots st)[i := s]\<rparr>)"
proof -
  have none: "\<not> (live (sch_slots st ! j) \<and> se_content_hash (sl_entry (sch_slots st ! j)) = content_hash env k when node l)"
    if "j < length (sch_slots st)" for j
    using assms(2) that nth_mem [OF that] unfolding first_index_None by metis
  have "first_index (\<lambda>s. live s \<and> se_content_hash (sl_entry s) = content_hash env k when node l)
      ((sch_slots st)[i := s]) = Some i"
    unfolding first_index_Some using assms(3-5) none by simp
  then show ?thesis using assms(1) by (cases b) (simp add: add_locked_def)
qed

section \<open>Every interleaving\<close>

lemma run_okD:
  assumes "run_ok n r"
  shows "length (sch_slots (rn_schedule r)) = n" "length (rn_serials r) = n" "distinct (rn_started r)"
    "set (rn_started r) \<subseteq> {..<rn_next r}"
    "i < n \<Longrightarrow> sl_used (sch_slots (rn_schedule r) ! i) \<Longrightarrow> rn_serials r ! i < rn_next r"
    "i < n \<Longrightarrow> j < n \<Longrightarrow> sl_used (sch_slots (rn_schedule r) ! i) \<Longrightarrow> sl_used (sch_slots (rn_schedule r) ! j)
       \<Longrightarrow> rn_serials r ! i = rn_serials r ! j \<Longrightarrow> i = j"
    "i < n \<Longrightarrow> sl_used (sch_slots (rn_schedule r) ! i) \<Longrightarrow> unstarted (sch_slots (rn_schedule r) ! i)
       \<Longrightarrow> rn_serials r ! i \<notin> set (rn_started r)"
    "i < n \<Longrightarrow> sl_used (sch_slots (rn_schedule r) ! i)
       \<Longrightarrow> se_status (sl_entry (sch_slots (rn_schedule r) ! i)) = KFSW_FBO_ENTRY_RUNNING \<Longrightarrow> rn_point r = Running i"
    "rn_point r = Chosen i \<Longrightarrow> i < n"
    "rn_point r = Chosen i \<Longrightarrow> sl_used (sch_slots (rn_schedule r) ! i) \<Longrightarrow> unstarted (sch_slots (rn_schedule r) ! i)"
    "rn_point r = Running i \<Longrightarrow> i < n"
  using assms unfolding run_ok_def Let_def by blast+

lemma run_okI:
  assumes "sch_slots (rn_schedule r) = slots" "rn_serials r = serials" "rn_started r = started" "rn_next r = m" "rn_point r = p"
    and "length slots = n" "length serials = n" "distinct started" "set started \<subseteq> {..<m}"
    and "\<And>i. i < n \<Longrightarrow> sl_used (slots ! i) \<Longrightarrow> serials ! i < m"
    and "\<And>i j. i < n \<Longrightarrow> j < n \<Longrightarrow> sl_used (slots ! i) \<Longrightarrow> sl_used (slots ! j) \<Longrightarrow> serials ! i = serials ! j \<Longrightarrow> i = j"
    and "\<And>i. i < n \<Longrightarrow> sl_used (slots ! i) \<Longrightarrow> unstarted (slots ! i) \<Longrightarrow> serials ! i \<notin> set started"
    and "\<And>i. i < n \<Longrightarrow> sl_used (slots ! i) \<Longrightarrow> se_status (sl_entry (slots ! i)) = KFSW_FBO_ENTRY_RUNNING \<Longrightarrow> p = Running i"
    and "\<And>i. p = Chosen i \<Longrightarrow> i < n"
    and "\<And>i. p = Chosen i \<Longrightarrow> sl_used (slots ! i) \<Longrightarrow> unstarted (slots ! i)"
    and "\<And>i. p = Running i \<Longrightarrow> i < n"
  shows "run_ok n r"
proof -
  have "\<forall>i < n. sl_used (slots ! i) \<longrightarrow> serials ! i < m" by (simp add: assms(10))
  moreover have "\<forall>i < n. \<forall>j < n. sl_used (slots ! i) \<and> sl_used (slots ! j) \<and> serials ! i = serials ! j \<longrightarrow> i = j"
    using assms(11) by blast
  moreover have "\<forall>i < n. sl_used (slots ! i) \<and> unstarted (slots ! i) \<longrightarrow> serials ! i \<notin> set started"
    by (simp add: assms(12))
  moreover have "\<forall>i < n. sl_used (slots ! i) \<and> se_status (sl_entry (slots ! i)) = KFSW_FBO_ENTRY_RUNNING \<longrightarrow> p = Running i"
    by (simp add: assms(13))
  moreover have "\<forall>i. p = Chosen i \<longrightarrow> i < n \<and> (sl_used (slots ! i) \<longrightarrow> unstarted (slots ! i))"
    using assms(14,15) by blast
  moreover have "\<forall>i. p = Running i \<longrightarrow> i < n" using assms(16) by blast
  ultimately show ?thesis unfolding run_ok_def Let_def assms(1-5) by (intro conjI assms(6-9))
qed

text \<open>A step that accepts and starts no entry.\<close>

lemma run_ok_slots:
  assumes "run_ok n r" and "length (sch_slots st) = n"
    and "\<And>i. i < n \<Longrightarrow> sl_used (sch_slots st ! i) \<Longrightarrow> sl_used (sch_slots (rn_schedule r) ! i)"
    and "\<And>i. i < n \<Longrightarrow> sl_used (sch_slots st ! i) \<Longrightarrow>
       unstarted (sch_slots st ! i) = unstarted (sch_slots (rn_schedule r) ! i)
       \<and> (se_status (sl_entry (sch_slots st ! i)) = KFSW_FBO_ENTRY_RUNNING
            \<longrightarrow> se_status (sl_entry (sch_slots (rn_schedule r) ! i)) = KFSW_FBO_ENTRY_RUNNING)"
  shows "run_ok n (r\<lparr>rn_schedule := st\<rparr>)"
proof (rule run_okI)
  note d = run_okD [OF assms(1)]
  show "sch_slots (rn_schedule (r\<lparr>rn_schedule := st\<rparr>)) = sch_slots st" "rn_serials (r\<lparr>rn_schedule := st\<rparr>) = rn_serials r"
    "rn_started (r\<lparr>rn_schedule := st\<rparr>) = rn_started r" "rn_next (r\<lparr>rn_schedule := st\<rparr>) = rn_next r"
    "rn_point (r\<lparr>rn_schedule := st\<rparr>) = rn_point r" by simp_all
  show "length (sch_slots st) = n" by (rule assms)
  show "length (rn_serials r) = n" "distinct (rn_started r)" "set (rn_started r) \<subseteq> {..<rn_next r}" by (rule d)+
  show "rn_serials r ! i < rn_next r" if "i < n" "sl_used (sch_slots st ! i)" for i
    using d(5) assms(3) that by blast
  show "i = j" if "i < n" "j < n" "sl_used (sch_slots st ! i)" "sl_used (sch_slots st ! j)"
    "rn_serials r ! i = rn_serials r ! j" for i j using d(6) assms(3) that by blast
  show "rn_serials r ! i \<notin> set (rn_started r)" if "i < n" "sl_used (sch_slots st ! i)" "unstarted (sch_slots st ! i)" for i
    using d(7) assms(3,4) that by blast
  show "rn_point r = Running i"
    if "i < n" "sl_used (sch_slots st ! i)" "se_status (sl_entry (sch_slots st ! i)) = KFSW_FBO_ENTRY_RUNNING" for i
    using d(8) assms(3,4) that by blast
  show "i < n" if "rn_point r = Chosen i" for i by (rule d(9) [OF that])
  show "unstarted (sch_slots st ! i)" if "rn_point r = Chosen i" "sl_used (sch_slots st ! i)" for i
    using d(9,10) assms(3,4) that by blast
  show "i < n" if "rn_point r = Running i" for i by (rule d(11) [OF that])
qed

lemma run_ok_add:
  assumes "run_ok n r" and "i < n" and "\<not> sl_used (sch_slots (rn_schedule r) ! i)"
    and "sl_used s" and "se_status (sl_entry s) = KFSW_FBO_ENTRY_SCHEDULED"
  shows "run_ok n (r\<lparr>rn_schedule := (rn_schedule r)\<lparr>sch_slots := (sch_slots (rn_schedule r))[i := s]\<rparr>,
     rn_serials := (rn_serials r)[i := rn_next r], rn_next := Suc (rn_next r)\<rparr>)"
    (is "run_ok n ?r")
proof (rule run_okI)
  note d = run_okD [OF assms(1)]
  show "sch_slots (rn_schedule ?r) = (sch_slots (rn_schedule r))[i := s]" "rn_serials ?r = (rn_serials r)[i := rn_next r]"
    "rn_started ?r = rn_started r" "rn_next ?r = Suc (rn_next r)" "rn_point ?r = rn_point r" by simp_all
  have fresh: "rn_next r \<notin> set (rn_started r)" using d(4) by auto
  have at: "(sch_slots (rn_schedule r))[i := s] ! j = (if j = i then s else sch_slots (rn_schedule r) ! j)"
    "(rn_serials r)[i := rn_next r] ! j = (if j = i then rn_next r else rn_serials r ! j)" if "j < n" for j
    using that d(1,2) by (simp_all add: nth_list_update)
  show "length ((sch_slots (rn_schedule r))[i := s]) = n" "length ((rn_serials r)[i := rn_next r]) = n"
    "distinct (rn_started r)" using d(1-3) by simp_all
  show "set (rn_started r) \<subseteq> {..<Suc (rn_next r)}" using d(4) by auto
  show "(rn_serials r)[i := rn_next r] ! j < Suc (rn_next r)"
    if "j < n" "sl_used ((sch_slots (rn_schedule r))[i := s] ! j)" for j
    using that d(5) [of j] by (auto simp: at split: if_splits)
  show "j = k" if "j < n" "k < n" "sl_used ((sch_slots (rn_schedule r))[i := s] ! j)"
    "sl_used ((sch_slots (rn_schedule r))[i := s] ! k)" "(rn_serials r)[i := rn_next r] ! j = (rn_serials r)[i := rn_next r] ! k" for j k
    using that d(5) [of j] d(5) [of k] d(6) [of j k] by (auto simp: at split: if_splits)
  show "(rn_serials r)[i := rn_next r] ! j \<notin> set (rn_started r)"
    if "j < n" "sl_used ((sch_slots (rn_schedule r))[i := s] ! j)" "unstarted ((sch_slots (rn_schedule r))[i := s] ! j)" for j
    using that d(7) [of j] fresh by (auto simp: at split: if_splits)
  show "rn_point r = Running j" if "j < n" "sl_used ((sch_slots (rn_schedule r))[i := s] ! j)"
    "se_status (sl_entry ((sch_slots (rn_schedule r))[i := s] ! j)) = KFSW_FBO_ENTRY_RUNNING" for j
    using that d(8) [of j] assms(5) by (auto simp: at split: if_splits)
  show "j < n" if "rn_point r = Chosen j" for j by (rule d(9) [OF that])
  show "unstarted ((sch_slots (rn_schedule r))[i := s] ! j)"
    if "rn_point r = Chosen j" "sl_used ((sch_slots (rn_schedule r))[i := s] ! j)" for j
    using that d(9) [of j] d(10) [of j] assms(5) by (auto simp: at unstarted_def split: if_splits)
  show "j < n" if "rn_point r = Running j" for j by (rule d(11) [OF that])
qed

lemma run_ok_start:
  assumes "run_ok n r" and "rn_point r = Chosen i"
  shows "run_ok n (r\<lparr>rn_schedule := release_begin i utc (rn_schedule r), rn_point := Running i,
     rn_started := (if sl_used (sch_slots (rn_schedule r) ! i) then rn_serials r ! i # rn_started r else rn_started r)\<rparr>)"
    (is "run_ok n ?r")
proof -
  note d = run_okD [OF assms(1)]
  let ?slots = "sch_slots (rn_schedule r)" and ?slots' = "sch_slots (release_begin i utc (rn_schedule r))"
  let ?started = "if sl_used (?slots ! i) then rn_serials r ! i # rn_started r else rn_started r"
  have i: "i < n" by (rule d(9) [OF assms(2)])
  have at: "sl_used (?slots' ! j) = sl_used (?slots ! j)"
    "se_status (sl_entry (?slots' ! j)) = (if j = i then KFSW_FBO_ENTRY_RUNNING else se_status (sl_entry (?slots ! j)))"
    if "j < n" for j using that d(1) by (cases "j = i"; simp add: release_begin_def)+
  have new: "rn_serials r ! i \<notin> set (rn_started r)" if "sl_used (?slots ! i)"
    using d(7) [OF i that] d(10) [OF assms(2) that] by blast
  show ?thesis
  proof (rule run_okI)
    show "sch_slots (rn_schedule ?r) = ?slots'" "rn_serials ?r = rn_serials r" "rn_started ?r = ?started"
      "rn_next ?r = rn_next r" "rn_point ?r = Running i" by simp_all
    show "length ?slots' = n" using d(1) by (simp add: release_begin_def)
    show "length (rn_serials r) = n" by (rule d)
    show "distinct ?started" using d(3) new by simp
    show "set ?started \<subseteq> {..<rn_next r}" using d(4) d(5) [OF i] by auto
    show "rn_serials r ! j < rn_next r" if "j < n" "sl_used (?slots' ! j)" for j using that d(5) by (simp add: at)
    show "j = k" if "j < n" "k < n" "sl_used (?slots' ! j)" "sl_used (?slots' ! k)" "rn_serials r ! j = rn_serials r ! k" for j k
      using that d(6) by (simp add: at)
    show "rn_serials r ! j \<notin> set ?started" if "j < n" "sl_used (?slots' ! j)" "unstarted (?slots' ! j)" for j
    proof -
      from that have "j \<noteq> i" "sl_used (?slots ! j)" "unstarted (?slots ! j)"
        by (auto simp: at unstarted_def split: if_splits)
      with d(7) [of j] d(6) [of i j] i that(1) show ?thesis by auto
    qed
    show "Running i = Running j" if "j < n" "sl_used (?slots' ! j)" "se_status (sl_entry (?slots' ! j)) = KFSW_FBO_ENTRY_RUNNING" for j
    proof (rule ccontr)
      assume "Running i \<noteq> Running j"
      with that have "rn_point r = Running j" using d(8) [of j] by (simp add: at)
      with assms(2) show False by simp
    qed
    show "j < n" if "Running i = Running j" for j using that i by simp
  qed simp_all
qed

lemma run_ok_finish:
  assumes "run_ok n r" and "rn_point r = Running i"
  shows "run_ok n (r\<lparr>rn_schedule := release_end i outcome result (rn_schedule r), rn_point := Between\<rparr>)"
    (is "run_ok n ?r")
proof -
  note d = run_okD [OF assms(1)]
  let ?slots = "sch_slots (rn_schedule r)" and ?slots' = "sch_slots (release_end i outcome result (rn_schedule r))"
  have i: "i < n" by (rule d(11) [OF assms(2)])
  have at: "sl_used (?slots' ! j) = sl_used (?slots ! j)"
    "se_status (sl_entry (?slots' ! j)) = (if j = i then if release_failed outcome result then KFSW_FBO_ENTRY_FAILED
       else KFSW_FBO_ENTRY_COMPLETED else se_status (sl_entry (?slots ! j)))"
    if "j < n" for j using that d(1) by (cases "j = i"; simp add: release_end_def Let_def)+
  show ?thesis
  proof (rule run_okI)
    show "sch_slots (rn_schedule ?r) = ?slots'" "rn_serials ?r = rn_serials r" "rn_started ?r = rn_started r"
      "rn_next ?r = rn_next r" "rn_point ?r = Between" by simp_all
    show "length ?slots' = n" using d(1) by (simp add: release_end_def Let_def)
    show "length (rn_serials r) = n" "distinct (rn_started r)" "set (rn_started r) \<subseteq> {..<rn_next r}" by (rule d)+
    show "rn_serials r ! j < rn_next r" if "j < n" "sl_used (?slots' ! j)" for j using that d(5) by (simp add: at)
    show "j = k" if "j < n" "k < n" "sl_used (?slots' ! j)" "sl_used (?slots' ! k)" "rn_serials r ! j = rn_serials r ! k" for j k
      using that d(6) by (simp add: at)
    show "rn_serials r ! j \<notin> set (rn_started r)" if "j < n" "sl_used (?slots' ! j)" "unstarted (?slots' ! j)" for j
      using that d(7) [of j] by (auto simp: at unstarted_def split: if_splits)
    show "Between = Running j" if "j < n" "sl_used (?slots' ! j)" "se_status (sl_entry (?slots' ! j)) = KFSW_FBO_ENTRY_RUNNING" for j
    proof -
      from that have "j \<noteq> i" "rn_point r = Running j" using d(8) [of j] by (auto simp: at split: if_splits)
      with assms(2) show ?thesis by simp
    qed
  qed simp_all
qed

lemma fold_mark_overdue_slot:
  assumes "distinct is" and "j < length (sch_slots st)"
  shows "sch_slots (fold mark_overdue is st) ! j =
    (if j \<in> set is then (sch_slots st ! j)\<lparr>sl_entry := (sl_entry (sch_slots st ! j))\<lparr>se_status := KFSW_FBO_ENTRY_OVERDUE,
       se_result := Some ETIME\<rparr>\<rparr> else sch_slots st ! j)"
  using assms
proof (induction "is" arbitrary: st)
  case (Cons i "is")
  have "sch_slots (mark_overdue i st) ! j = (if j = i then (sch_slots st ! j)\<lparr>sl_entry :=
     (sl_entry (sch_slots st ! j))\<lparr>se_status := KFSW_FBO_ENTRY_OVERDUE, se_result := Some ETIME\<rparr>\<rparr> else sch_slots st ! j)"
    using Cons.prems(2) by (auto simp: mark_overdue_def)
  then show ?case using Cons.IH [of "mark_overdue i st"] Cons.prems by auto
qed simp

lemma run_ok_scan:
  assumes "run_ok n r" and "scan now uptime utc (rn_schedule r, ev) = (candidate, st, ev')"
  shows "run_ok n (r\<lparr>rn_schedule := st\<rparr>)"
proof -
  note d = run_okD(1) [OF assms(1)]
  let ?plan = "overdue_plan uptime utc (rn_schedule r)"
  have st: "st = fold mark_overdue ?plan (rn_schedule r)" using assms(2) by (simp add: scan_planned)
  have "distinct ?plan" by (simp add: overdue_plan_def)
  note at = fold_mark_overdue_slot [OF this, where st = "rn_schedule r", unfolded d]
  have w: "unstarted (sch_slots (rn_schedule r) ! i)" if "i \<in> set ?plan" for i
    using that by (simp add: overdue_plan_def too_late_def waiting_def unstarted_def)
  show ?thesis
  proof (rule run_ok_slots [OF assms(1)])
    show "length (sch_slots st) = n" using fold_mark_overdue [OF overdue_plan_range] d unfolding st by metis
    show "sl_used (sch_slots (rn_schedule r) ! i)" if "i < n" "sl_used (sch_slots st ! i)" for i
      using that by (auto simp: st at split: if_splits)
    show "unstarted (sch_slots st ! i) = unstarted (sch_slots (rn_schedule r) ! i)
        \<and> (se_status (sl_entry (sch_slots st ! i)) = KFSW_FBO_ENTRY_RUNNING
            \<longrightarrow> se_status (sl_entry (sch_slots (rn_schedule r) ! i)) = KFSW_FBO_ENTRY_RUNNING)" if "i < n" for i
      using that w by (auto simp: st at) (simp_all add: unstarted_def)
  qed
qed

lemma run_ok_choose:
  assumes "run_ok n r" and "rn_point r = Between" and "scan now uptime utc (rn_schedule r, ev) = (Some (i, l), st, ev')"
  shows "run_ok n (r\<lparr>rn_schedule := st, rn_point := Chosen i\<rparr>)" (is "run_ok n ?r")
proof -
  note d0 = run_okD(1) [OF assms(1)]
  note d = run_okD [OF run_ok_scan [OF assms(1,3)], simplified]
  have "release_plan uptime utc (rn_schedule r) \<noteq> []" "i = hd (release_plan uptime utc (rn_schedule r))"
    using assms(3) by (auto simp: scan_planned split: list.splits)
  then have "i \<in> set (release_plan uptime utc (rn_schedule r))" by simp
  then have i: "i < n" "ready uptime utc (rn_schedule r) i" using d0 by (simp_all add: release_plan_def)
  then have "i \<notin> set (overdue_plan uptime utc (rn_schedule r))" by (simp add: overdue_plan_def ready_def too_late_def)
  moreover have "distinct (overdue_plan uptime utc (rn_schedule r))" by (simp add: overdue_plan_def)
  moreover have "st = fold mark_overdue (overdue_plan uptime utc (rn_schedule r)) (rn_schedule r)"
    using assms(3) by (simp add: scan_planned)
  ultimately have "sch_slots st ! i = sch_slots (rn_schedule r) ! i" using fold_mark_overdue_slot i(1) d0 by simp
  then have w: "unstarted (sch_slots st ! i)" using i(2) by (simp add: ready_def waiting_def unstarted_def)
  show ?thesis
  proof (rule run_okI)
    show "sch_slots (rn_schedule ?r) = sch_slots st" "rn_serials ?r = rn_serials r" "rn_started ?r = rn_started r"
      "rn_next ?r = rn_next r" "rn_point ?r = Chosen i" by simp_all
    show "length (sch_slots st) = n" "length (rn_serials r) = n" "distinct (rn_started r)"
      "set (rn_started r) \<subseteq> {..<rn_next r}" by (rule d)+
    show "rn_serials r ! j < rn_next r" if "j < n" "sl_used (sch_slots st ! j)" for j by (rule d(5) [OF that])
    show "j = k" if "j < n" "k < n" "sl_used (sch_slots st ! j)" "sl_used (sch_slots st ! k)"
      "rn_serials r ! j = rn_serials r ! k" for j k by (rule d(6) [OF that])
    show "rn_serials r ! j \<notin> set (rn_started r)" if "j < n" "sl_used (sch_slots st ! j)" "unstarted (sch_slots st ! j)" for j
      by (rule d(7) [OF that])
    show "Chosen i = Running j" if "j < n" "sl_used (sch_slots st ! j)"
      "se_status (sl_entry (sch_slots st ! j)) = KFSW_FBO_ENTRY_RUNNING" for j using d(8) [OF that] assms(2) by simp
    show "j < n" if "Chosen i = Chosen j" for j using that i by simp
    show "unstarted (sch_slots st ! j)" if "Chosen i = Chosen j" for j using that w by simp
  qed simp
qed

lemma run_ok_cancel:
  assumes "run_ok n r"
  shows "run_ok n (r\<lparr>rn_schedule := snd (kfsw_fbo_schedule_cancel k (rn_schedule r))\<rparr>)"
proof -
  let ?st = "snd (kfsw_fbo_schedule_cancel k (rn_schedule r))"
  have at: "length (sch_slots ?st) = length (sch_slots (rn_schedule r))"
    "sl_used (sch_slots ?st ! i) = sl_used (sch_slots (rn_schedule r) ! i)"
    "unstarted (sch_slots ?st ! i) = unstarted (sch_slots (rn_schedule r) ! i)"
    "se_status (sl_entry (sch_slots ?st ! i)) = KFSW_FBO_ENTRY_RUNNING
       \<Longrightarrow> se_status (sl_entry (sch_slots (rn_schedule r) ! i)) = KFSW_FBO_ENTRY_RUNNING" for i
    by (cases "i = unat k"; auto simp: kfsw_fbo_schedule_cancel_def Let_def unstarted_def split: if_splits)+
  show ?thesis by (rule run_ok_slots [OF assms]) (use at run_okD(1) [OF assms] in auto)
qed

lemma run_ok_clear:
  assumes "run_ok n r"
  shows "run_ok n (r\<lparr>rn_schedule := snd (kfsw_fbo_schedule_clear (rn_schedule r))\<rparr>)"
  by (rule run_ok_slots [OF assms])
    (auto simp: kfsw_fbo_schedule_clear_def run_okD(1) [OF assms] zero_slot_def split: if_splits)

lemma run_ok_same:
  assumes "run_ok n r" and "sch_slots st = sch_slots (rn_schedule r)"
  shows "run_ok n (r\<lparr>rn_schedule := st\<rparr>)"
  by (rule run_ok_slots [OF assms(1)]) (auto simp: assms(2) run_okD(1) [OF assms(1)])

lemma run_ok_step:
  assumes "schedule_step env r r'" and "run_ok n r" and "n \<le> 65536"
  shows "run_ok n r'"
  using assms(1)
proof cases
  case (add kind "when" node line clock uptime i st)
  from add_slot [OF add(2)] obtain j s where j:
    "first_index (\<lambda>s. \<not> sl_used s) (sch_slots (rn_schedule r)) = Some j" "i = word_of_nat j"
    "st = (rn_schedule r)\<lparr>sch_slots := (sch_slots (rn_schedule r))[j := s]\<rparr>"
    "sl_used s" "se_status (sl_entry s) = KFSW_FBO_ENTRY_SCHEDULED" .
  from j(1) have jn: "j < n" "\<not> sl_used (sch_slots (rn_schedule r) ! j)"
    by (auto simp: first_index_Some run_okD(1) [OF assms(2)])
  then have "unat i = j" using assms(3) j(2) by (simp add: unat_word_of_nat_small)
  then show ?thesis using run_ok_add [OF assms(2) jn j(4,5)] add(1) j(3) by simp
next
  case (refuse kind "when" node line index clock uptime e i st)
  with add_refused [OF refuse(2)] show ?thesis by (auto intro: run_ok_same [OF assms(2)])
next
  case (latency csp cmd seconds)
  then show ?thesis
    by (auto simp: kfsw_fbo_schedule_set_latency_s_def assms(2) intro: run_ok_same [OF assms(2)] split: option.split)
next
  case (choose now uptime utc ev i l st ev')
  then show ?thesis using run_ok_choose [OF assms(2)] by simp
next
  case (rest now uptime utc ev st ev')
  then show ?thesis using run_ok_scan [OF assms(2)] by simp
next
  case (start i utc)
  then show ?thesis using run_ok_start [OF assms(2)] by simp
next
  case (finish i outcome result)
  then show ?thesis using run_ok_finish [OF assms(2)] by simp
qed (simp_all add: run_ok_cancel run_ok_clear assms(2))

lemma reachable_run_ok:
  assumes "schedule_reachable env n latency r" and "n \<le> 65536"
  shows "run_ok n r"
  using assms(1) unfolding schedule_reachable_def
proof (induction rule: rtranclp_induct)
  case base
  show ?case by (rule run_okI [OF refl refl refl refl refl]) (auto simp: run_boot_def schedule_boot_def zero_slot_def)
next
  case (step r r')
  then show ?case using run_ok_step assms(2) by blast
qed

lemma new_slot_due:
  "due_now up utc (new_slot i k when node l c h uptime) \<noteq> None \<longleftrightarrow>
     (case k of KFSW_FBO_TIME_RELATIVE \<Rightarrow> uptime + when * 1000 \<le> up
      | KFSW_FBO_TIME_ABSOLUTE \<Rightarrow> \<exists>t. utc = Some t \<and> when \<le> t)"
  by (cases k) (auto simp: due_now_def new_slot_def Let_def zero_entry_def split: option.split)

lemma demo_quiet: "quiet_registry (fb_registry demo_fbo_env)"
  by (simp add: quiet_registry_def fb_registry_def demo_fbo_env_def demo_fbo_registry_def tick_def)

lemma demo_release_plan: "release_plan 12000 None demo_schedule = [1, 0]"
  by code_simp

section \<open>A cancellation that comes too late\<close>

text \<open>
  Between the scan and the start of a release the queue lock is free. A cancellation in that window finds
  the entry still scheduled and returns 0, which \<open>fbo.h\<close> documents as "it will not run"; the release thread
  then starts it without looking at its status again.
\<close>

definition race_chosen :: schedule_run where
  "race_chosen = \<lparr>rn_schedule = demo_schedule, rn_point = Chosen 1, rn_serials = [0, 1, 0], rn_next = 2, rn_started = []\<rparr>"

lemma race_reachable: "schedule_reachable demo_fbo_env 3 60 race_chosen"
proof -
  let ?st0 = "schedule_boot 3 60"
  let ?st1 = "snd (snd (kfsw_fbo_schedule_add demo_fbo_env (Some KFSW_FBO_TIME_RELATIVE) 10 0 (Some ''tick'') Dest
            (Inl ENODATA) 0 ?st0))"
  let ?r0 = "run_boot 3 60"
  let ?r1 = "?r0\<lparr>rn_schedule := ?st1, rn_serials := (rn_serials ?r0)[unat (0 :: u16) := rn_next ?r0],
    rn_next := Suc (rn_next ?r0)\<rparr>"
  let ?r2 = "?r1\<lparr>rn_schedule := demo_schedule, rn_serials := (rn_serials ?r1)[unat (1 :: u16) := rn_next ?r1],
    rn_next := Suc (rn_next ?r1)\<rparr>"
  have a0: "kfsw_fbo_schedule_add demo_fbo_env (Some KFSW_FBO_TIME_RELATIVE) 10 0 (Some ''tick'') Dest
      (Inl ENODATA) 0 ?st0 = (None, Some 0, ?st1)" by code_simp
  have a1: "kfsw_fbo_schedule_add demo_fbo_env (Some KFSW_FBO_TIME_RELATIVE) 5 0 (Some ''tick'') Dest
      (Inl ENODATA) 0 ?st1 = (None, Some 1, demo_schedule)" by code_simp
  have sc: "scan 0 6000 None (demo_schedule, event_init 4) = (Some (1, 1), demo_schedule, event_init 4)" by code_simp
  have r0: "rn_schedule ?r0 = ?st0" "rn_point ?r0 = Between" by (simp_all add: run_boot_def)
  have s1: "schedule_step demo_fbo_env ?r0 ?r1" by (rule schedule_step.add) (unfold r0, rule a0)
  have r1: "rn_schedule ?r1 = ?st1" by simp
  have s2: "schedule_step demo_fbo_env ?r1 ?r2" by (rule schedule_step.add) (unfold r1, rule a1)
  have r2: "rn_schedule ?r2 = demo_schedule" "rn_point ?r2 = Between" using r0 by simp_all
  have s3: "schedule_step demo_fbo_env ?r2 (?r2\<lparr>rn_schedule := demo_schedule, rn_point := Chosen 1\<rparr>)"
    by (rule schedule_step.choose [OF r2(2)]) (unfold r2(1), rule sc)
  have e: "?r2\<lparr>rn_schedule := demo_schedule, rn_point := Chosen 1\<rparr> = race_chosen"
    by (simp add: run_boot_def race_chosen_def numeral_2_eq_2 numeral_3_eq_3)
  from s3 have "(schedule_step demo_fbo_env)\<^sup>*\<^sup>* ?r2 race_chosen" unfolding e by (rule r_into_rtranclp)
  with s2 have "(schedule_step demo_fbo_env)\<^sup>*\<^sup>* ?r1 race_chosen" by (rule converse_rtranclp_into_rtranclp)
  with s1 show ?thesis unfolding schedule_reachable_def by (rule converse_rtranclp_into_rtranclp)
qed

lemma cancelled_entry_starts:
  "\<exists>r r' r''. schedule_reachable demo_fbo_env 3 60 r \<and> fst (kfsw_fbo_schedule_cancel 1 (rn_schedule r)) = None
     \<and> r' = r\<lparr>rn_schedule := snd (kfsw_fbo_schedule_cancel 1 (rn_schedule r))\<rparr>
     \<and> schedule_step demo_fbo_env r r' \<and> schedule_step demo_fbo_env r' r''
     \<and> rn_serials r ! 1 \<notin> set (rn_started r') \<and> rn_serials r ! 1 \<in> set (rn_started r'')"
proof -
  let ?st = "snd (kfsw_fbo_schedule_cancel 1 demo_schedule)"
  have c: "fst (kfsw_fbo_schedule_cancel 1 demo_schedule) = None" "sl_used (sch_slots ?st ! 1)" by code_simp+
  let ?r' = "race_chosen\<lparr>rn_schedule := ?st\<rparr>"
  let ?r'' = "?r'\<lparr>rn_schedule := release_begin 1 None (rn_schedule ?r'), rn_point := Running 1,
    rn_started := (if sl_used (sch_slots (rn_schedule ?r') ! 1) then rn_serials ?r' ! 1 # rn_started ?r' else rn_started ?r')\<rparr>"
  have r: "rn_schedule race_chosen = demo_schedule" "rn_point ?r' = Chosen 1" "rn_started race_chosen = []"
    by (simp_all add: race_chosen_def)
  have "schedule_step demo_fbo_env race_chosen ?r'" using schedule_step.cancel [of demo_fbo_env race_chosen 1] r(1) by simp
  moreover have "schedule_step demo_fbo_env ?r' ?r''" by (rule schedule_step.start [OF r(2)])
  moreover have "rn_serials race_chosen ! 1 \<in> set (rn_started ?r'')" using c(2) by simp
  ultimately show ?thesis
    using race_reachable c(1) r(1,3)
    by (intro exI [of _ race_chosen] exI [of _ ?r'] exI [of _ ?r'']) simp
qed

section \<open>Properties\<close>



text \<open>
  Adding is exact and idempotent. An accepted entry takes a free slot, reads back with the line, node
  and kind asked for as scheduled, becomes due exactly at its time, and leaves every other slot alone; the
  same request repeated at any time at which its time is still valid returns \<open>-EEXIST\<close> with the same index
  and changes nothing. A refused request leaves every slot as it was.
\<close>

theorem fbo_add_exact:
  assumes "kfsw_fbo_schedule_add env kind when node line index clock uptime st = (result, idx, st')"
    and "length (sch_slots st) \<le> 65536"
  shows "(result \<noteq> None \<longrightarrow> sch_slots st' = sch_slots st)
    \<and> (result = None \<longrightarrow> (\<exists>k l i. kind = Some k \<and> line = Some l \<and> idx = Some (word_of_nat i) \<and> i < length (sch_slots st)
        \<and> \<not> sl_used (sch_slots st ! i) \<and> (\<forall>j. j \<noteq> i \<longrightarrow> sch_slots st' ! j = sch_slots st ! j)
        \<and> (\<exists>e. kfsw_fbo_schedule_get_entry (word_of_nat i) Dest utc up st' = Inr e \<and> se_line e = l \<and> se_node e = node
             \<and> se_kind e = k \<and> se_status e = KFSW_FBO_ENTRY_SCHEDULED)
        \<and> (due_now up utc (sch_slots st' ! i) \<noteq> None \<longleftrightarrow>
             (case k of KFSW_FBO_TIME_RELATIVE \<Rightarrow> uptime + when * 1000 \<le> up
              | KFSW_FBO_TIME_ABSOLUTE \<Rightarrow> \<exists>t. utc = Some t \<and> when \<le> t))
        \<and> ((k = KFSW_FBO_TIME_ABSOLUTE \<longrightarrow> (\<exists>t. clock' = Inr t \<and> t - when \<le> uint (sch_latency_s st))) \<longrightarrow>
             kfsw_fbo_schedule_add env kind when node line index clock' up st' = (Some EEXIST, idx, st'))))"
proof (intro conjI impI)
  assume "result \<noteq> None"
  with assms(1) add_refused show "sch_slots st' = sch_slots st" by fastforce
next
  assume "result = None"
  with add_reaches_lock assms(1) obtain k l where kl: "kind = Some k" "line = Some l" "index = Dest" "l \<noteq> []"
    "terminated_within KFSW_FBO_SCHEDULE_LINE_MAX l" "when > 0" "\<not> fb_command_csp env \<longrightarrow> node = 0"
    "k = KFSW_FBO_TIME_RELATIVE \<longrightarrow> when \<le> KFSW_FBO_SCHEDULE_DELAY_MAX_S"
    and locked: "add_locked env k when node l uptime st = (None, idx, st')" by blast
  from add_locked_accepted [OF locked] obtain i info args where
    b: "build (fb_ulong_max env) (fb_long_max env) (fb_registry env) l = Inr (info, args)"
    and new: "first_index (\<lambda>s. live s \<and> se_content_hash (sl_entry s) = content_hash env k when node l) (sch_slots st) = None"
    and free: "first_index (\<lambda>s. \<not> sl_used s) (sch_slots st) = Some i" and idx: "idx = Some (word_of_nat i)"
    and st': "st' = st\<lparr>sch_slots := (sch_slots st)[i :=
           new_slot i k when node l (ci_id info) (content_hash env k when node l) uptime]\<rparr>" by blast
  let ?s = "new_slot i k when node l (ci_id info) (content_hash env k when node l) uptime"
  from free have i: "i < length (sch_slots st)" "\<not> sl_used (sch_slots st ! i)" by (auto simp: first_index_Some)
  have u: "unat (word_of_nat i :: u16) = i" using i(1) assms(2) by (simp add: unat_word_of_nat_small)
  have again: "add_locked env k when node l up st' = (Some EEXIST, idx, st')"
    unfolding st' idx by (rule add_again [OF b new i(1)]) (simp_all add: live_def)
  have repeated: "kfsw_fbo_schedule_add env kind when node line index clock' up st' = (Some EEXIST, idx, st')"
    if "k = KFSW_FBO_TIME_ABSOLUTE \<longrightarrow> (\<exists>t. clock' = Inr t \<and> t - when \<le> uint (sch_latency_s st))"
    using kl again that by (cases k) (auto simp: kfsw_fbo_schedule_add_def st')
  have read: "kfsw_fbo_schedule_get_entry (word_of_nat i) Dest utc up st' =
      Inr ((sl_entry ?s)\<lparr>se_remaining_s := remaining up utc ?s\<rparr>)"
    using i by (simp add: kfsw_fbo_schedule_get_entry_def u st')
  show "\<exists>k l i. kind = Some k \<and> line = Some l \<and> idx = Some (word_of_nat i) \<and> i < length (sch_slots st)
        \<and> \<not> sl_used (sch_slots st ! i) \<and> (\<forall>j. j \<noteq> i \<longrightarrow> sch_slots st' ! j = sch_slots st ! j)
        \<and> (\<exists>e. kfsw_fbo_schedule_get_entry (word_of_nat i) Dest utc up st' = Inr e \<and> se_line e = l \<and> se_node e = node
             \<and> se_kind e = k \<and> se_status e = KFSW_FBO_ENTRY_SCHEDULED)
        \<and> (due_now up utc (sch_slots st' ! i) \<noteq> None \<longleftrightarrow>
             (case k of KFSW_FBO_TIME_RELATIVE \<Rightarrow> uptime + when * 1000 \<le> up
              | KFSW_FBO_TIME_ABSOLUTE \<Rightarrow> \<exists>t. utc = Some t \<and> when \<le> t))
        \<and> ((k = KFSW_FBO_TIME_ABSOLUTE \<longrightarrow> (\<exists>t. clock' = Inr t \<and> t - when \<le> uint (sch_latency_s st))) \<longrightarrow>
             kfsw_fbo_schedule_add env kind when node line index clock' up st' = (Some EEXIST, idx, st'))"
    using kl idx i read repeated new_slot_due [of up utc i k "when" node l]
    by (intro exI [of _ k] exI [of _ l] exI [of _ i]) (simp add: st' new_slot_due)
qed

theorem fbo_add_exact_witness:
  "kfsw_fbo_schedule_add demo_fbo_env (Some KFSW_FBO_TIME_RELATIVE) 10 0 (Some ''tick'') Dest (Inl ENODATA) 500
     (snd (snd (kfsw_fbo_schedule_add demo_fbo_env (Some KFSW_FBO_TIME_RELATIVE) 10 0 (Some ''tick'') Dest
        (Inl ENODATA) 0 (schedule_boot 3 60)))) =
   (Some EEXIST, Some 0, snd (snd (kfsw_fbo_schedule_add demo_fbo_env (Some KFSW_FBO_TIME_RELATIVE) 10 0 (Some ''tick'')
      Dest (Inl ENODATA) 0 (schedule_boot 3 60))))"
proof -
  let ?st = "snd (snd (kfsw_fbo_schedule_add demo_fbo_env (Some KFSW_FBO_TIME_RELATIVE) 10 0 (Some ''tick'') Dest
            (Inl ENODATA) 0 (schedule_boot 3 60)))"
  have a: "kfsw_fbo_schedule_add demo_fbo_env (Some KFSW_FBO_TIME_RELATIVE) 10 0 (Some ''tick'') Dest
      (Inl ENODATA) 0 (schedule_boot 3 60) = (None, Some 0, ?st)" by code_simp
  have n: "length (sch_slots (schedule_boot 3 60)) = 3" by (simp add: schedule_boot_def)
  show ?thesis
    using fbo_add_exact [OF a, of None 500 "Inl ENODATA"] by (auto simp: n)
qed

text \<open>
  C10. Every interleaving is safe for the release itself. Whatever other threads add, cancel, clear or set
  between the steps of the release thread, each accepted entry is started at most once, an entry that is
  still scheduled, was cancelled or is overdue has not been started, and at most one entry runs, the one
  the release thread is at.
\<close>

theorem fbo_started_once:
  assumes "schedule_reachable env n latency r" and "n \<le> 65536"
  shows "distinct (rn_started r)
    \<and> (\<forall>i < n. sl_used (sch_slots (rn_schedule r) ! i) \<and> unstarted (sch_slots (rn_schedule r) ! i)
         \<longrightarrow> rn_serials r ! i \<notin> set (rn_started r))
    \<and> (\<forall>i < n. sl_used (sch_slots (rn_schedule r) ! i)
         \<and> se_status (sl_entry (sch_slots (rn_schedule r) ! i)) = KFSW_FBO_ENTRY_RUNNING \<longrightarrow> rn_point r = Running i)"
  using run_okD(3,7,8) [OF reachable_run_ok [OF assms]] by blast

theorem fbo_started_once_witness:
  "distinct (rn_started race_chosen) \<and> rn_serials race_chosen ! 0 \<notin> set (rn_started race_chosen)"
proof -
  have "sl_used (sch_slots demo_schedule ! 0)" "unstarted (sch_slots demo_schedule ! 0)" by code_simp+
  then show ?thesis using fbo_started_once [OF race_reachable] by (simp add: race_chosen_def)
qed

end
