(* ===== verification/Fbo.thy ===== *)
theory Fbo
  imports Fbo_Schedule Files
begin

text \<open>
  Procedures (\<^verbatim>\<open>src/fbo/fbo.c\<close>) and the commands of file-based operations (\<^verbatim>\<open>src/fbo/fbo_commands.c\<close>).

  \<open>proc_state\<close> holds the static variables of \<open>fbo.c\<close>, its two semaphores included. It is part of the world
  the command handlers work on, with the release queue and the file system, so a line of a procedure may
  schedule, start or stop operations. What other threads do while the procedure is between two steps is
  the environment's \<open>others\<close>, applied where the code looks for a stop request; \<open>sleep\<close> is a wait on the
  cancel semaphore with a timeout in milliseconds.

  \<open>wait_until\<close> loops until a clock says so and is a partial function; everything that may wait returns an
  option. Proved: procedures end. When a sleep lets time pass or leaves a stop request, a procedure returns
  whatever its file holds and whatever other threads do, executes at most the configured number of lines,
  and leaves this thread without a claim on the command path. A stop request is the last thing a procedure
  acts on.
\<close>

section \<open>Types\<close>

definition KFSW_FBO_NAME_MAX :: nat where "KFSW_FBO_NAME_MAX = 32"
definition KFSW_FBO_EVENT_STARTED :: u16 where "KFSW_FBO_EVENT_STARTED = 1"
definition KFSW_FBO_EVENT_LINE_FAILED :: u16 where "KFSW_FBO_EVENT_LINE_FAILED = 2"
definition KFSW_FBO_EVENT_FINISHED :: u16 where "KFSW_FBO_EVENT_FINISHED = 3"
definition KFSW_FBO_EVENT_INTERLEAVED :: u16 where "KFSW_FBO_EVENT_INTERLEAVED = 7"
definition KFSW_COMMAND_ID_FBO_RUN :: u16 where "KFSW_COMMAND_ID_FBO_RUN = 20"
definition KFSW_COMMAND_ID_FBO_SCHED_ADD :: u16 where "KFSW_COMMAND_ID_FBO_SCHED_ADD = 21"
definition KFSW_COMMAND_ID_FBO_SCHED_CANCEL :: u16 where "KFSW_COMMAND_ID_FBO_SCHED_CANCEL = 22"
definition KFSW_COMMAND_ID_FBO_SCHED_CLEAR :: u16 where "KFSW_COMMAND_ID_FBO_SCHED_CLEAR = 23"

record kfsw_fbo_status =
  pr_name :: string
  pr_running :: bool
  pr_lines_run :: u32
  pr_lines_failed :: u32
  pr_lines_skipped :: u32
  pr_runs :: u32
  pr_lines_interleaved :: u32
  pr_refused_direct :: u32
  pr_line :: u16
  pr_exclusive :: bool
  pr_last_result :: rc

record proc_state =
  ps_status :: kfsw_fbo_status
  ps_initialized :: bool
  ps_stop_requested :: bool
  ps_requested :: string
  ps_start :: bool
  ps_cancel :: bool

record ('f, 'u) proc_world =
  pw_proc :: proc_state
  pw_files :: 'f
  pw_other :: 'u

type_synonym ('f, 'u) fbo_system = "('f, 'u) proc_world fbo_world system"

text \<open>What the code depends on besides the command service: time, other threads, storage and Kconfig.\<close>

record ('f, 'u) proc_env =
  pe_ulong_max :: int
  pe_long_max :: int
  pe_command :: "('f, 'u) proc_world fbo_world retry_env"
  pe_files :: "'f fs_ops"
  pe_root :: string
  pe_clock :: "('f, 'u) fbo_system \<Rightarrow> errno + int"
  pe_uptime :: "('f, 'u) fbo_system \<Rightarrow> int"
  pe_others :: "('f, 'u) fbo_system \<Rightarrow> ('f, 'u) fbo_system"
  pe_sleep :: "nat \<Rightarrow> ('f, 'u) fbo_system \<Rightarrow> ('f, 'u) fbo_system"
  pe_lookback :: nat
  pe_wait_max_s :: nat
  pe_line_max :: nat
  pe_lines_max :: nat
  pe_bytes_max :: nat

definition proc_of :: "('f, 'u) fbo_system \<Rightarrow> proc_state" where
  "proc_of sys = pw_proc (fw_other (sys_world sys))"

definition files_of :: "('f, 'u) fbo_system \<Rightarrow> 'f" where
  "files_of sys = pw_files (fw_other (sys_world sys))"

definition with_proc :: "(proc_state \<Rightarrow> proc_state) \<Rightarrow> ('f, 'u) fbo_system \<Rightarrow> ('f, 'u) fbo_system" where
  "with_proc g sys = sys\<lparr>sys_world := (sys_world sys)\<lparr>fw_other := (fw_other (sys_world sys))\<lparr>
     pw_proc := g (pw_proc (fw_other (sys_world sys)))\<rparr>\<rparr>\<rparr>"

definition with_status :: "(kfsw_fbo_status \<Rightarrow> kfsw_fbo_status) \<Rightarrow> ('f, 'u) fbo_system \<Rightarrow> ('f, 'u) fbo_system" where
  "with_status g = with_proc (\<lambda>p. p\<lparr>ps_status := g (ps_status p)\<rparr>)"

definition with_files :: "'f \<Rightarrow> ('f, 'u) fbo_system \<Rightarrow> ('f, 'u) fbo_system" where
  "with_files f sys = sys\<lparr>sys_world := (sys_world sys)\<lparr>fw_other := (fw_other (sys_world sys))\<lparr>pw_files := f\<rparr>\<rparr>\<rparr>"

definition with_schedule_of :: "schedule_state \<Rightarrow> ('f, 'u) fbo_system \<Rightarrow> ('f, 'u) fbo_system" where
  "with_schedule_of st sys = sys\<lparr>sys_world := (sys_world sys)\<lparr>fw_schedule := st\<rparr>\<rparr>"

definition with_claim :: "command_claim \<Rightarrow> ('f, 'u) fbo_system \<Rightarrow> ('f, 'u) fbo_system" where
  "with_claim c sys = sys\<lparr>sys_command := (sys_command sys)\<lparr>claim := c\<rparr>\<rparr>"

definition note_event ::
  "('f, 'u) proc_env \<Rightarrow> u16 \<Rightarrow> kfsw_event_severity \<Rightarrow> u16 \<Rightarrow> ('f, 'u) fbo_system \<Rightarrow> ('f, 'u) fbo_system" where
  "note_event env ident severity detail sys =
     sys\<lparr>sys_event := kfsw_fbo_note (env_now_us (pe_command env)) ident severity detail (sys_event sys)\<rparr>"

definition stop_requested :: "('f, 'u) fbo_system \<Rightarrow> bool" where
  "stop_requested sys = ps_stop_requested (proc_of sys)"

section \<open>One line\<close>

text \<open>The two counters a run keeps of the claim's own: intrusions and refusals.\<close>

definition account_for_others ::
  "('f, 'u) proc_env \<Rightarrow> u16 \<Rightarrow> u32 \<times> u32 \<Rightarrow> ('f, 'u) fbo_system \<Rightarrow> (u32 \<times> u32) \<times> ('f, 'u) fbo_system" where
  "account_for_others env line seen sys =
     (case kfsw_command_claim_get Dest (claim (sys_command sys)) of
        Inl e \<Rightarrow> (seen, sys)
      | Inr c \<Rightarrow>
          (let interleaved = cs_intrusions c > fst seen;
               sys1 = (if interleaved
                       then note_event env KFSW_FBO_EVENT_INTERLEAVED KFSW_EVENT_WARNING line
                              (with_status (\<lambda>s. s\<lparr>pr_lines_interleaved := pr_lines_interleaved s + 1\<rparr>) sys)
                       else sys);
               sys2 = with_status (\<lambda>s. s\<lparr>pr_refused_direct := pr_refused_direct s + (cs_refusals c - snd seen)\<rparr>) sys1
           in ((cs_intrusions c, cs_refusals c), sys2)))"

text \<open>The search through the newest \<open>n\<close> events from age \<open>age\<close> on.\<close>

fun seen_within :: "nat \<Rightarrow> nat \<Rightarrow> u16 \<Rightarrow> u16 \<Rightarrow> event_state \<Rightarrow> bool" where
  "seen_within 0 age source ident ev = False"
| "seen_within (Suc n) age source ident ev =
     (case kfsw_event_get age Dest ev of
        Inl e \<Rightarrow> False
      | Inr r \<Rightarrow> ev_source r = source \<and> ev_id r = ident \<or> seen_within n (Suc age) source ident ev)"

definition event_seen :: "('f, 'u) proc_env \<Rightarrow> u16 \<Rightarrow> u16 \<Rightarrow> event_state \<Rightarrow> bool" where
  "event_seen env = seen_within (pe_lookback env) 0"

definition run_command_line ::
  "('f, 'u) proc_env \<Rightarrow> string list \<Rightarrow> ('f, 'u) fbo_system \<Rightarrow> rc \<times> ('f, 'u) fbo_system" where
  "run_command_line env tokens sys =
     (let reg = env_registry (pe_command env)
      in case kfsw_command_find (Some (hd tokens)) Dest reg of
           Inl e \<Rightarrow> (Some e, sys)
         | Inr info \<Rightarrow>
             if length tokens - 1 \<noteq> unat (ci_arg_count info) then (Some EINVAL, sys)
             else
               (case parse_args ENAMETOOLONG (pe_ulong_max env) (pe_long_max env) (tl tokens)
                  (case ci_arg_types info of None \<Rightarrow> [] | Some types \<Rightarrow> types) of
                  Inl e \<Rightarrow> (Some e, sys)
                | Inr args \<Rightarrow>
                    (case kfsw_command_invoke (env_now_us (pe_command env)) (env_thread (pe_command env)) reg
                       (Some (hd tokens)) args Dest sys of
                       (Inl e, sys') \<Rightarrow> (Some e, sys')
                     | (Inr (outcome, result), sys') \<Rightarrow>
                         (if outcome \<noteq> None then outcome
                          else if rs_status result = KFSW_COMMAND_OK then None else Some EIO, sys'))))"

definition fbo_claim :: "('f, 'u) proc_env \<Rightarrow> bool \<Rightarrow> ('f, 'u) fbo_system \<Rightarrow> rc \<times> ('f, 'u) fbo_system" where
  "fbo_claim env exclusive sys =
     (case kfsw_command_claim_acquire (env_thread (pe_command env))
        (if exclusive then KFSW_COMMAND_CLAIM_EXCLUSIVE else KFSW_COMMAND_CLAIM_SHARED)
        (Some (pr_name (ps_status (proc_of sys)))) (claim (sys_command sys)) of
        (Some e, c) \<Rightarrow> (Some e, with_claim c sys)
      | (None, c) \<Rightarrow> (None, with_status (\<lambda>s. s\<lparr>pr_exclusive := exclusive\<rparr>) (with_claim c sys)))"

text \<open>The loop of \<open>wait_until\<close>; \<open>first\<close> is the code's flag, the deadline is on the monotonic clock.\<close>

partial_function (option) wait_loop ::
  "('f, 'u) proc_env \<Rightarrow> int \<Rightarrow> int \<Rightarrow> int \<Rightarrow> bool \<Rightarrow> ('f, 'u) fbo_system \<Rightarrow> (rc \<times> ('f, 'u) fbo_system) option" where
  "wait_loop env target tolerance deadline first sys =
     (let sys1 = pe_others env sys
      in if stop_requested sys1 then Some (Some ECANCELED, sys1)
         else
           (case pe_clock env sys1 of
              Inl e \<Rightarrow> Some (Some e, sys1)
            | Inr seconds \<Rightarrow>
                if pe_uptime env sys1 \<ge> deadline then Some (Some ETIMEDOUT, sys1)
                else if seconds \<ge> target then
                  Some (if seconds - target \<le> tolerance then None else Some ETIME, sys1)
                else if first \<and> target - seconds > int (pe_wait_max_s env) then Some (Some ERANGE, sys1)
                else wait_loop env target tolerance deadline False (pe_sleep env 100 sys1)))"

definition wait_until ::
  "('f, 'u) proc_env \<Rightarrow> u32 \<Rightarrow> u32 \<Rightarrow> ('f, 'u) fbo_system \<Rightarrow> (rc \<times> ('f, 'u) fbo_system) option" where
  "wait_until env target tolerance sys =
     wait_loop env (uint target) (uint tolerance) (pe_uptime env sys + int (pe_wait_max_s env) * 1000) True sys"

definition u32_arg :: "('f, 'u) proc_env \<Rightarrow> string \<Rightarrow> u32 option" where
  "u32_arg env token =
     (case kfsw_command_parse_arg (pe_ulong_max env) (pe_long_max env) (Some token) KFSW_COMMAND_TYPE_U32 Dest of
        Inr (ARG_U32 n) \<Rightarrow> Some n
      | _ \<Rightarrow> None)"

text \<open>The flags of a run that a line may set.\<close>

record line_flags =
  lf_skip_next :: bool
  lf_stop_on_error :: bool

definition run_wait ::
  "('f, 'u) proc_env \<Rightarrow> string list \<Rightarrow> ('f, 'u) fbo_system \<Rightarrow> rc \<times> ('f, 'u) fbo_system" where
  "run_wait env tokens sys =
     (if length tokens \<noteq> 2 then (Some EINVAL, sys)
      else
        (case u32_arg env (tokens ! 1) of
           None \<Rightarrow> (Some EINVAL, sys)
         | Some seconds \<Rightarrow>
             if unat seconds > pe_wait_max_s env then (Some EINVAL, sys)
             else
               (let sys1 = pe_sleep env (unat seconds * 1000) sys
                in (if stop_requested sys1 then Some ECANCELED else None, sys1))))"

definition run_wait_until ::
  "('f, 'u) proc_env \<Rightarrow> string list \<Rightarrow> ('f, 'u) fbo_system \<Rightarrow> (rc \<times> ('f, 'u) fbo_system) option" where
  "run_wait_until env tokens sys =
     (if length tokens \<noteq> 3 then Some (Some EINVAL, sys)
      else
        (case (u32_arg env (tokens ! 1), u32_arg env (tokens ! 2)) of
           (Some target, Some tolerance) \<Rightarrow>
             if target = 0 \<or> target > 0x7FFFFFFF \<or> unat tolerance > pe_wait_max_s env then Some (Some EINVAL, sys)
             else wait_until env target tolerance sys
         | _ \<Rightarrow> Some (Some EINVAL, sys)))"

definition run_if_event ::
  "('f, 'u) proc_env \<Rightarrow> string list \<Rightarrow> line_flags \<Rightarrow> ('f, 'u) fbo_system \<Rightarrow> rc \<times> line_flags" where
  "run_if_event env tokens flags sys =
     (if length tokens \<noteq> 4 \<or> tokens ! 3 \<noteq> ''skip'' then (Some EINVAL, flags)
      else
        (case (u32_arg env (tokens ! 1), u32_arg env (tokens ! 2)) of
           (Some source, Some ident) \<Rightarrow>
             if source > 0xFFFF \<or> ident > 0xFFFF then (Some EINVAL, flags)
             else (None, flags\<lparr>lf_skip_next := \<not> event_seen env (ucast source) (ucast ident) (sys_event sys)\<rparr>)
         | _ \<Rightarrow> (Some EINVAL, flags)))"

definition run_line ::
  "('f, 'u) proc_env \<Rightarrow> string \<Rightarrow> line_flags \<Rightarrow> ('f, 'u) fbo_system
     \<Rightarrow> (rc \<times> line_flags \<times> ('f, 'u) fbo_system) option" where
  "run_line env text flags sys =
     (let tokens = tokenise (KFSW_COMMAND_MAX_ARGS + 2) text;
          count = length tokens
      in if count = 0 then Some (None, flags, sys)
         else if count > KFSW_COMMAND_MAX_ARGS + 1 then Some (Some E2BIG, flags, sys)
         else if hd tokens = ''on-error'' then
           (if count \<noteq> 2 \<or> tokens ! 1 \<noteq> ''stop'' \<and> tokens ! 1 \<noteq> ''continue'' then Some (Some EINVAL, flags, sys)
            else Some (None, flags\<lparr>lf_stop_on_error := (tokens ! 1 = ''stop'')\<rparr>, sys))
         else if hd tokens = ''concurrency'' then
           (if count \<noteq> 2 \<or> tokens ! 1 \<noteq> ''exclusive'' \<and> tokens ! 1 \<noteq> ''shared'' then Some (Some EINVAL, flags, sys)
            else (case fbo_claim env (tokens ! 1 = ''exclusive'') sys of (r, sys') \<Rightarrow> Some (r, flags, sys')))
         else if hd tokens = ''wait-until'' then
           (case run_wait_until env tokens sys of None \<Rightarrow> None | Some (r, sys') \<Rightarrow> Some (r, flags, sys'))
         else if hd tokens = ''wait'' then
           (case run_wait env tokens sys of (r, sys') \<Rightarrow> Some (r, flags, sys'))
         else if hd tokens = ''if-event'' then
           (case run_if_event env tokens flags sys of (r, flags') \<Rightarrow> Some (r, flags', sys))
         else (case run_command_line env tokens sys of (r, sys') \<Rightarrow> Some (r, flags, sys')))"

section \<open>A procedure\<close>

text \<open>
  \<open>read_line\<close>: \<open>room\<close> is what is left of the byte limit, \<open>text\<close> the line so far. The result is an error with
  which nothing of the line is used, or the line with its overflow flag and whether the file ended.
\<close>

fun read_line ::
  "('f, 'u) proc_env \<Rightarrow> string \<Rightarrow> nat \<Rightarrow> string \<Rightarrow> bool \<Rightarrow> ('f, 'u) fbo_system
     \<Rightarrow> (errno + (bool \<times> string \<times> bool)) \<times> nat \<times> ('f, 'u) fbo_system" where
  "read_line env path room text overflowed sys =
     (let sys1 = pe_others env sys
      in if stop_requested sys1 then (Inl ECANCELED, room, sys1)
         else
           (case fs_read (pe_files env) path 1 (files_of sys1) of
              (Inl e, f) \<Rightarrow> (Inl e, room, with_files f sys1)
            | (Inr [], f) \<Rightarrow> (Inr (overflowed, text, True), room, with_files f sys1)
            | (Inr (b # rest), f) \<Rightarrow>
                (case room of
                   0 \<Rightarrow> (Inl EFBIG, room, with_files f sys1)
                 | Suc left \<Rightarrow>
                     (let c = char_of_byte b; sys2 = with_files f sys1
                      in if c = CHR 0x0A then (Inr (overflowed, text, False), left, sys2)
                         else if c = CHR 0x0D then read_line env path left text overflowed sys2
                         else if length text + 1 \<ge> pe_line_max env then read_line env path left text True sys2
                         else read_line env path left (text @ [c]) overflowed sys2))))"

declare read_line.simps [simp del]

definition kfsw_fbo_count_line :: "u16 \<Rightarrow> rc \<Rightarrow> ('f, 'u) fbo_system \<Rightarrow> ('f, 'u) fbo_system" where
  "kfsw_fbo_count_line line outcome =
     with_status (\<lambda>s. s\<lparr>pr_line := line, pr_lines_run := pr_lines_run s + 1,
       pr_lines_failed := (if outcome \<noteq> None then pr_lines_failed s + 1 else pr_lines_failed s)\<rparr>)"

definition kfsw_fbo_count_skipped :: "u16 \<Rightarrow> ('f, 'u) fbo_system \<Rightarrow> ('f, 'u) fbo_system" where
  "kfsw_fbo_count_skipped line =
     with_status (\<lambda>s. s\<lparr>pr_line := line, pr_lines_skipped := pr_lines_skipped s + 1\<rparr>)"

record run_vars =
  rv_flags :: line_flags
  rv_seen :: "u32 \<times> u32"
  rv_outcome :: rc

definition read_outcome :: "errno + (bool \<times> string \<times> bool) \<Rightarrow> errno + (rc \<times> string \<times> bool)" where
  "read_outcome r =
     (case r of
        Inl e \<Rightarrow> if e = ENAMETOOLONG then Inr (Some ENAMETOOLONG, [], False) else Inl e
      | Inr (overflowed, raw, at_end) \<Rightarrow>
          Inr (if overflowed then Some ENAMETOOLONG else None,
               dropWhile is_blank (takeWhile (\<lambda>c. c \<noteq> NUL) raw), at_end))"

text \<open>A line that counts, with its number; the first component of the result says that the run stops.\<close>

definition execute_line ::
  "('f, 'u) proc_env \<Rightarrow> u16 \<Rightarrow> rc \<Rightarrow> string \<Rightarrow> run_vars \<Rightarrow> ('f, 'u) fbo_system
     \<Rightarrow> (bool \<times> run_vars \<times> ('f, 'u) fbo_system) option" where
  "execute_line env line_number read text vars sys =
     (if read = None \<and> lf_skip_next (rv_flags vars) then
        Some (False, vars\<lparr>rv_flags := (rv_flags vars)\<lparr>lf_skip_next := False\<rparr>\<rparr>, kfsw_fbo_count_skipped line_number sys)
      else
        (case (if read = None then run_line env text (rv_flags vars) sys else Some (read, rv_flags vars, sys)) of
           None \<Rightarrow> None
         | Some (result, flags, sys1) \<Rightarrow>
             (let (seen, sys2) = account_for_others env line_number (rv_seen vars)
                    (kfsw_fbo_count_line line_number result sys1);
                  vars1 = vars\<lparr>rv_flags := flags, rv_seen := seen\<rparr>
              in if result = None then Some (False, vars1, sys2)
                 else
                   (let sys3 = note_event env KFSW_FBO_EVENT_LINE_FAILED KFSW_EVENT_ERROR line_number sys2;
                        vars2 = (if rv_outcome vars1 = None \<or> result = Some ECANCELED
                                 then vars1\<lparr>rv_outcome := result\<rparr> else vars1)
                    in Some (lf_stop_on_error flags \<or> result = Some ECANCELED, vars2, sys3)))))"

lemma read_line_room:
  "read_line env path room text overflowed sys = (r, room', sys') \<Longrightarrow>
     room' \<le> room \<and> (\<forall>x y. r = Inr (x, y, False) \<longrightarrow> room' < room)"
proof (induction room arbitrary: "text" overflowed sys)
  case 0
  then show ?case
    by (subst (asm) read_line.simps) (auto simp: Let_def split: if_splits prod.splits sum.splits list.splits)
next
  case (Suc left)
  define sys1 where "sys1 = pe_others env sys"
  obtain rd f where rd: "fs_read (pe_files env) path 1 (files_of sys1) = (rd, f)" by (metis prod.collapse)
  from Suc.prems show ?case
    by (subst (asm) read_line.simps)
      (auto simp: sys1_def [symmetric] rd [simplified] Let_def split: if_splits sum.splits list.splits dest!: Suc.IH)
qed

text \<open>The loop over the lines of the file, with the lines that may still run.\<close>

function run_lines ::
  "('f, 'u) proc_env \<Rightarrow> string \<Rightarrow> nat \<Rightarrow> nat \<Rightarrow> run_vars \<Rightarrow> ('f, 'u) fbo_system
     \<Rightarrow> (run_vars \<times> nat \<times> ('f, 'u) fbo_system) option" where
  "run_lines env path room left vars sys =
     (case read_line env path room [] False sys of
        (r, room', sys1) \<Rightarrow>
          (case read_outcome r of
             Inl e \<Rightarrow> Some (vars\<lparr>rv_outcome := Some e\<rparr>, left, sys1)
           | Inr (read, line, at_end) \<Rightarrow>
               if read = None \<and> (line = [] \<or> hd line = CHR ''#'') then
                 (if at_end then Some (vars, left, sys1) else run_lines env path room' left vars sys1)
               else if left = 0 then Some (vars\<lparr>rv_outcome := Some E2BIG\<rparr>, left, sys1)
               else
                 (case execute_line env (word_of_nat (pe_lines_max env - left + 1)) read line vars sys1 of
                    None \<Rightarrow> None
                  | Some (stop, vars', sys2) \<Rightarrow>
                      if stop \<or> at_end then Some (vars', left - 1, sys2)
                      else run_lines env path room' (left - 1) vars' sys2)))"
  by pat_completeness auto
termination
  by (relation "measure (\<lambda>(env, path, room, left, vars, sys). room + left)")
    (auto simp: read_outcome_def split: sum.splits if_splits dest!: read_line_room [OF sym])

declare run_lines.simps [simp del]

definition KFSW_FBO_DIRECTORY :: "string \<Rightarrow> string" where
  "KFSW_FBO_DIRECTORY root = root @ ''/procedures''"

definition procedure_path :: "string \<Rightarrow> string \<Rightarrow> string" where
  "procedure_path root name = take 127 (KFSW_FBO_DIRECTORY root @ ''/'' @ name)"

definition finish_procedure ::
  "('f, 'u) proc_env \<Rightarrow> string \<Rightarrow> run_vars \<times> nat \<times> ('f, 'u) fbo_system \<Rightarrow> rc \<times> ('f, 'u) fbo_system" where
  "finish_procedure env path = (\<lambda>(vars, left, sys).
     let (closed, f) = fs_close (pe_files env) path (files_of sys);
         outcome = first_error (rv_outcome vars) closed;
         line_number = word_of_nat (pe_lines_max env - left);
         (seen, sys1) = account_for_others env line_number (rv_seen vars) (with_files f sys);
         sys2 = with_claim (snd (kfsw_command_claim_release (env_thread (pe_command env)) (claim (sys_command sys1)))) sys1;
         sys3 = with_status (\<lambda>s. s\<lparr>pr_exclusive := False\<rparr>) sys2
     in (outcome, note_event env KFSW_FBO_EVENT_FINISHED
           (if outcome \<noteq> None then KFSW_EVENT_ERROR else KFSW_EVENT_INFO) line_number sys3))"

definition run_procedure ::
  "('f, 'u) proc_env \<Rightarrow> string \<Rightarrow> ('f, 'u) fbo_system \<Rightarrow> (rc \<times> ('f, 'u) fbo_system) option" where
  "run_procedure env name sys =
     (let path = procedure_path (pe_root env) name
      in case fs_open (pe_files env) path FS_READ (files_of sys) of
           (Some e, f) \<Rightarrow> Some (Some e, with_files f sys)
         | (None, f) \<Rightarrow>
             (let sys1 = note_event env KFSW_FBO_EVENT_STARTED KFSW_EVENT_INFO 0
                           (snd (fbo_claim env False (with_files f sys)))
              in map_option (finish_procedure env path)
                   (run_lines env path (pe_bytes_max env) (pe_lines_max env)
                      \<lparr>rv_flags = \<lparr>lf_skip_next = False, lf_stop_on_error = True\<rparr>, rv_seen = (0, 0), rv_outcome = None\<rparr>
                      sys1)))"

section \<open>The service\<close>

text \<open>A round of the procedure thread once a start was given.\<close>

definition fbo_thread_round :: "('f, 'u) proc_env \<Rightarrow> ('f, 'u) fbo_system \<Rightarrow> ('f, 'u) fbo_system option" where
  "fbo_thread_round env sys =
     (if \<not> ps_start (proc_of sys) then Some sys
      else
        (let sys1 = with_proc (\<lambda>p. p\<lparr>ps_start := False\<rparr>) sys
         in map_option (\<lambda>(result, sys2).
              with_proc (\<lambda>p. p\<lparr>ps_status := (ps_status p)\<lparr>pr_last_result := result, pr_running := False\<rparr>,
                ps_stop_requested := False, ps_cancel := False\<rparr>) sys2)
              (run_procedure env (ps_requested (proc_of sys1)) sys1)))"

definition make_directory :: "('f, 'u) proc_env \<Rightarrow> 'f \<Rightarrow> 'f" where
  "make_directory env f =
     (case fs_mkdir (pe_files env) (pe_root env) f of
        (r, f1) \<Rightarrow>
          if r \<noteq> None \<and> r \<noteq> Some EEXIST then f1
          else snd (fs_mkdir (pe_files env) (KFSW_FBO_DIRECTORY (pe_root env)) f1))"

definition kfsw_fbo_init :: "('f, 'u) proc_env \<Rightarrow> ('f, 'u) fbo_system \<Rightarrow> rc \<times> ('f, 'u) fbo_system" where
  "kfsw_fbo_init env sys =
     (let sys1 = with_proc (\<lambda>p. p\<lparr>ps_initialized := True\<rparr>) sys
      in (None, if storage_ready (pe_files env) (files_of sys1)
                then with_files (make_directory env (files_of sys1)) sys1 else sys1))"

text \<open>\<open>strstr(name, "..") != NULL\<close>.\<close>

fun has_dots :: "string \<Rightarrow> bool" where
  "has_dots (a # b # s) = (a = CHR ''.'' \<and> b = CHR ''.'' \<or> has_dots (b # s))"
| "has_dots s = False"

definition kfsw_fbo_run ::
  "('f, 'u) proc_env \<Rightarrow> string option \<Rightarrow> ('f, 'u) fbo_system \<Rightarrow> rc \<times> ('f, 'u) fbo_system" where
  "kfsw_fbo_run env name sys =
     (case name of
        None \<Rightarrow> (Some EINVAL, sys)
      | Some n \<Rightarrow>
          if \<not> terminated_within KFSW_FBO_NAME_MAX n \<or> n = [] then (Some EINVAL, sys)
          else if CHR ''/'' \<in> set n \<or> has_dots n then (Some EINVAL, sys)
          else if \<not> storage_ready (pe_files env) (files_of sys) then (Some ENODEV, sys)
          else
            (case fs_stat (pe_files env) (procedure_path (pe_root env) n) (files_of sys) of
               Inl e \<Rightarrow> (Some e, sys)
             | Inr (is_file, file_size) \<Rightarrow>
                 if \<not> is_file then (Some EISDIR, sys)
                 else if file_size > pe_bytes_max env then (Some EFBIG, sys)
                 else if \<not> ps_initialized (proc_of sys) then (Some EACCES, sys)
                 else if pr_running (ps_status (proc_of sys)) then (Some EBUSY, sys)
                 else (None, with_proc (\<lambda>p. p\<lparr>
                   ps_status := (ps_status p)\<lparr>pr_name := n, pr_running := True, pr_runs := pr_runs (ps_status p) + 1, pr_line := 0\<rparr>,
                   ps_stop_requested := False, ps_requested := n, ps_start := True, ps_cancel := False\<rparr>) sys)))"

definition kfsw_fbo_stop :: "('f, 'u) fbo_system \<Rightarrow> rc \<times> ('f, 'u) fbo_system" where
  "kfsw_fbo_stop sys =
     (None, if pr_running (ps_status (proc_of sys))
            then with_proc (\<lambda>p. p\<lparr>ps_stop_requested := True, ps_cancel := True\<rparr>) sys else sys)"

definition kfsw_fbo_get_status :: "dest \<Rightarrow> ('f, 'u) fbo_system \<Rightarrow> errno + kfsw_fbo_status" where
  "kfsw_fbo_get_status out sys = (if out = Null then Inl EINVAL else Inr (ps_status (proc_of sys)))"

section \<open>Commands\<close>

text \<open>\<open>errno_number\<close> is the platform's number of an error, for the replies that print it.\<close>

definition fbo_detail :: "string \<Rightarrow> string" where
  "fbo_detail s = take (KFSW_COMMAND_MAX_DETAIL_SIZE - 1) s"

definition parse_when ::
  "string \<Rightarrow> kfsw_command_result \<Rightarrow> (errno + kfsw_fbo_time_kind \<times> int) \<times> kfsw_command_result" where
  "parse_when t result =
     (if take 1 t \<noteq> ''+'' \<and> take 1 t \<noteq> ''@'' then
        (Inl EINVAL, \<lparr>rs_status = KFSW_COMMAND_INVALID_ARGUMENT,
           rs_detail = fbo_detail ''write +seconds from now or @utc second''\<rparr>)
      else
        (case c_strtoll_10 (tl t) of
           None \<Rightarrow> (Inl EINVAL, result\<lparr>rs_status := KFSW_COMMAND_INVALID_ARGUMENT\<rparr>)
         | Some (parsed, rest) \<Rightarrow>
             if rest \<noteq> [] \<or> parsed \<le> 0 then (Inl EINVAL, result\<lparr>rs_status := KFSW_COMMAND_INVALID_ARGUMENT\<rparr>)
             else (Inr (if take 1 t = ''+'' then KFSW_FBO_TIME_RELATIVE else KFSW_FBO_TIME_ABSOLUTE, parsed), result)))"

definition say :: "(errno \<Rightarrow> nat) \<Rightarrow> errno \<Rightarrow> string \<Rightarrow> kfsw_command_result" where
  "say errno_number outcome reason =
     (case outcome of
        ENODATA \<Rightarrow> \<lparr>rs_status = KFSW_COMMAND_UNAVAILABLE,
          rs_detail = fbo_detail ''the clock is not set, so absolute scheduling is unavailable''\<rparr>
      | ENOSPC \<Rightarrow> \<lparr>rs_status = KFSW_COMMAND_BUSY, rs_detail = fbo_detail ''the queue is full''\<rparr>
      | EACCES \<Rightarrow> \<lparr>rs_status = KFSW_COMMAND_DENIED, rs_detail = fbo_detail reason\<rparr>
      | EALREADY \<Rightarrow> \<lparr>rs_status = KFSW_COMMAND_BUSY, rs_detail = fbo_detail ''the entry has already run''\<rparr>
      | ENOENT \<Rightarrow> \<lparr>rs_status = KFSW_COMMAND_INVALID_ARGUMENT, rs_detail = fbo_detail reason\<rparr>
      | _ \<Rightarrow> \<lparr>rs_status = KFSW_COMMAND_FAILED,
          rs_detail = fbo_detail (reason @ '' ('' @ signed_decimal (- int (errno_number outcome)) @ '')'')\<rparr>)"

definition text_at :: "kfsw_command_arg list \<Rightarrow> nat \<Rightarrow> string" where
  "text_at args i = (case args ! i of ARG_TEXT (Some t) \<Rightarrow> t | _ \<Rightarrow> [])"

definition u32_at :: "kfsw_command_arg list \<Rightarrow> nat \<Rightarrow> u32" where
  "u32_at args i = (case args ! i of ARG_U32 n \<Rightarrow> n | _ \<Rightarrow> 0)"

definition command_fbo_run ::
  "(errno \<Rightarrow> nat) \<Rightarrow> ('f, 'u) proc_env \<Rightarrow> ('f, 'u) proc_world fbo_world kfsw_command_handler" where
  "command_fbo_run errno_number env args source result sys =
     (case kfsw_fbo_run env (Some (text_at args 0)) sys of
        (Some EBUSY, sys') \<Rightarrow> (Some EBUSY, \<lparr>rs_status = KFSW_COMMAND_BUSY,
          rs_detail = fbo_detail ''a procedure is already running''\<rparr>, sys')
      | (Some e, sys') \<Rightarrow> (Some e, say errno_number e ''the procedure could not be started'', sys')
      | (None, sys') \<Rightarrow> (None, \<lparr>rs_status = KFSW_COMMAND_OK, rs_detail = fbo_detail (''started='' @ text_at args 0)\<rparr>, sys'))"

definition command_sched_add ::
  "(errno \<Rightarrow> nat) \<Rightarrow> ('v, 'n) fbo_env \<Rightarrow> errno + int \<Rightarrow> int \<Rightarrow> 'v fbo_world kfsw_command_handler" where
  "command_sched_add errno_number env clock uptime args source result sys =
     (case parse_when (text_at args 0) result of
        (Inl e, result') \<Rightarrow> (Some e, result', sys)
      | (Inr (kind, when), result') \<Rightarrow>
          if u32_at args 1 > 0xFFFF then
            (Some EINVAL, result'\<lparr>rs_status := KFSW_COMMAND_INVALID_ARGUMENT\<rparr>, sys)
          else
            (case kfsw_fbo_schedule_add env (Some kind) when (ucast (u32_at args 1)) (Some (text_at args 2)) Dest
               clock uptime (fw_schedule (sys_world sys)) of
               (outcome, index, st) \<Rightarrow>
                 (let sys' = sys\<lparr>sys_world := (sys_world sys)\<lparr>fw_schedule := st\<rparr>\<rparr>;
                      i = (case index of None \<Rightarrow> 0 | Some k \<Rightarrow> k)
                  in case outcome of
                       None \<Rightarrow>
                         (None, \<lparr>rs_status = KFSW_COMMAND_OK, rs_detail = fbo_detail (''index='' @ decimal (unat i)
                            @ '' queue=0x'' @ hex8 (queue_hash env st))\<rparr>, sys')
                     | Some EEXIST \<Rightarrow>
                         (None, \<lparr>rs_status = KFSW_COMMAND_OK, rs_detail = fbo_detail (''index='' @ decimal (unat i)
                            @ '' repeated=yes'')\<rparr>, sys')
                     | Some e \<Rightarrow> (Some e, say errno_number e ''the entry was refused'', sys'))))"

definition command_sched_cancel :: "(errno \<Rightarrow> nat) \<Rightarrow> 'v fbo_world kfsw_command_handler" where
  "command_sched_cancel errno_number args source result sys =
     (if u32_at args 0 > 0xFFFF then (Some EINVAL, result\<lparr>rs_status := KFSW_COMMAND_INVALID_ARGUMENT\<rparr>, sys)
      else
        (case kfsw_fbo_schedule_cancel (ucast (u32_at args 0)) (fw_schedule (sys_world sys)) of
           (outcome, st) \<Rightarrow>
             (let sys' = sys\<lparr>sys_world := (sys_world sys)\<lparr>fw_schedule := st\<rparr>\<rparr>
              in case outcome of
                   Some e \<Rightarrow> (Some e, say errno_number e ''no such entry'', sys')
                 | None \<Rightarrow> (None, \<lparr>rs_status = KFSW_COMMAND_OK,
                     rs_detail = fbo_detail (''cancelled='' @ decimal (unat (u32_at args 0)))\<rparr>, sys'))))"

definition command_sched_clear :: "'v fbo_world kfsw_command_handler" where
  "command_sched_clear args source result sys =
     (case kfsw_fbo_schedule_clear (fw_schedule (sys_world sys)) of
        (dropped, st) \<Rightarrow>
          (None, \<lparr>rs_status = KFSW_COMMAND_OK, rs_detail = fbo_detail (''dropped='' @ decimal dropped)\<rparr>,
           sys\<lparr>sys_world := (sys_world sys)\<lparr>fw_schedule := st\<rparr>\<rparr>))"

definition kfsw_fbo_command_definitions ::
  "(errno \<Rightarrow> nat) \<Rightarrow> ('f, 'u) proc_env \<Rightarrow> (('f, 'u) proc_world, 'n) fbo_env \<Rightarrow> errno + int \<Rightarrow> int
     \<Rightarrow> ('f, 'u) proc_world fbo_world kfsw_command_definition_set" where
  "kfsw_fbo_command_definitions errno_number penv env clock uptime =
     \<lparr>ds_commands = Some
       [\<lparr>cd_id = KFSW_COMMAND_ID_FBO_RUN, cd_name = Some ''fbo_run'',
         cd_help = Some ''Carry out a procedure: fbo_run <name>.'', cd_flags = 1, cd_arg_count = 1,
         cd_arg_types = Some [KFSW_COMMAND_TYPE_TEXT], cd_handler = Some (command_fbo_run errno_number penv)\<rparr>,
        \<lparr>cd_id = KFSW_COMMAND_ID_FBO_SCHED_ADD, cd_name = Some ''fbo_sched_add'',
         cd_help = Some (''Release a command later: fbo_sched_add <+s|@utc> <node> '' @ [CHR 0x22] @ ''<command>'' @ [CHR 0x22] @ ''.''),
         cd_flags = 1, cd_arg_count = 3,
         cd_arg_types = Some [KFSW_COMMAND_TYPE_TEXT, KFSW_COMMAND_TYPE_U32, KFSW_COMMAND_TYPE_TEXT],
         cd_handler = Some (command_sched_add errno_number env clock uptime)\<rparr>,
        \<lparr>cd_id = KFSW_COMMAND_ID_FBO_SCHED_CANCEL, cd_name = Some ''fbo_sched_cancel'',
         cd_help = Some ''Cancel a scheduled entry: fbo_sched_cancel <index>.'', cd_flags = 1, cd_arg_count = 1,
         cd_arg_types = Some [KFSW_COMMAND_TYPE_U32], cd_handler = Some (command_sched_cancel errno_number)\<rparr>,
        \<lparr>cd_id = KFSW_COMMAND_ID_FBO_SCHED_CLEAR, cd_name = Some ''fbo_sched_clear'',
         cd_help = Some ''Empty the queue; a release in flight finishes.'', cd_flags = 1, cd_arg_count = 0,
         cd_arg_types = None, cd_handler = Some command_sched_clear\<rparr>],
      ds_count = 4\<rparr>"

section \<open>Specification vocabulary\<close>

text \<open>
  A wait on the cancel semaphore ends because the semaphore was given, which a stop request does, or because
  its timeout has passed: the next look at the state finds a stop request or a later time.
\<close>

definition sleep_progress :: "('f, 'u) proc_env \<Rightarrow> bool" where
  "sleep_progress env \<longleftrightarrow> (\<forall>s. let s' = pe_others env (pe_sleep env 100 s)
     in stop_requested s' \<or> pe_uptime env s' > pe_uptime env s)"

definition holds_claim :: "('f, 'u) proc_env \<Rightarrow> ('f, 'u) fbo_system \<Rightarrow> bool" where
  "holds_claim env sys \<longleftrightarrow> cl_held (claim (sys_command sys)) \<and> cl_owner (claim (sys_command sys)) = Some (env_thread (pe_command env))"

text \<open>A node with one procedure, whose time is the number its world carries.\<close>

definition quick_tick :: "(ram_fs, int) proc_world fbo_world kfsw_command_handler" where
  "quick_tick args source result sys = (None, result, sys)"

definition demo_proc_env :: "(ram_fs, int) proc_env" where
  "demo_proc_env = \<lparr>pe_ulong_max = 4294967295, pe_long_max = 2147483647,
     pe_command = \<lparr>env_now_us = 0, env_thread = 1, env_registry = \<lparr>registry = [\<lparr>cd_id = 9, cd_name = Some ''tick'',
       cd_help = None, cd_flags = 0, cd_arg_count = 0, cd_arg_types = None, cd_handler = Some quick_tick\<rparr>],
       registry_ready = True\<rparr>, env_window = 0\<rparr>,
     pe_files = ram_ops 0, pe_root = ''/ftp'', pe_clock = (\<lambda>s. Inr (pw_other (fw_other (sys_world s)) div 1000)),
     pe_uptime = (\<lambda>s. pw_other (fw_other (sys_world s))), pe_others = (\<lambda>s. s),
     pe_sleep = (\<lambda>ms s. s\<lparr>sys_world := (sys_world s)\<lparr>fw_other := (fw_other (sys_world s))\<lparr>
       pw_other := pw_other (fw_other (sys_world s)) + int ms\<rparr>\<rparr>\<rparr>),
     pe_lookback = 4, pe_wait_max_s = 10, pe_line_max = 40, pe_lines_max = 5, pe_bytes_max = 200\<rparr>"

definition demo_proc_system :: "string \<Rightarrow> (ram_fs, int) fbo_system" where
  "demo_proc_system procedure = \<lparr>sys_command = \<lparr>claim = \<lparr>cl_owner = None, cl_mode = KFSW_COMMAND_CLAIM_SHARED,
     cl_name = [], cl_intrusions = 0, cl_refusals = 0, cl_held = False\<rparr>, command_invoked = 0, command_failed = 0,
     command_unknown = 0, command_rejected = 0, command_timeout_ms = 1000\<rparr>,
     sys_event = event_init 4, sys_world = \<lparr>fw_schedule = schedule_boot 3 60, fw_other = \<lparr>pw_proc =
       \<lparr>ps_status = \<lparr>pr_name = ''demo'', pr_running = True, pr_lines_run = 0, pr_lines_failed = 0, pr_lines_skipped = 0,
          pr_runs = 1, pr_lines_interleaved = 0, pr_refused_direct = 0, pr_line = 0, pr_exclusive = False, pr_last_result = None\<rparr>,
        ps_initialized = True, ps_stop_requested = False, ps_requested = ''demo'', ps_start = False, ps_cancel = False\<rparr>,
       pw_files = empty_fs\<lparr>rf_files := (\<lambda>p. if p = ''/ftp/procedures/demo'' then Some (bytes_of_string procedure) else None)\<rparr>,
       pw_other = 0\<rparr>\<rparr>\<rparr>"

section \<open>Procedures end\<close>

lemma wait_loop_ends:
  assumes "sleep_progress env"
  shows "\<exists>r. wait_loop env target tolerance deadline first sys = Some r"
proof (induction "nat (deadline - pe_uptime env (pe_others env sys))" arbitrary: first sys rule: less_induct)
  case less
  let ?s = "pe_others env sys" and ?next = "pe_sleep env 100 (pe_others env sys)"
  show ?case
  proof (cases "pe_uptime env ?s \<ge> deadline \<or> stop_requested (pe_others env ?next)")
    case True
    have "\<exists>r. wait_loop env target tolerance deadline f ?next = Some r" if "stop_requested (pe_others env ?next)" for f
      using that by (subst wait_loop.simps) simp
    with True show ?thesis by (subst wait_loop.simps) (auto simp: Let_def split: sum.split)
  next
    case False
    with assms have "pe_uptime env (pe_others env ?next) > pe_uptime env ?s"
      unfolding sleep_progress_def Let_def by blast
    with False less [of ?next False] show ?thesis by (subst wait_loop.simps) (auto simp: Let_def split: sum.split)
  qed
qed

lemma run_wait_until_ends:
  assumes "sleep_progress env"
  shows "\<exists>r sys'. run_wait_until env tokens sys = Some (r, sys')"
  using wait_loop_ends [OF assms] by (auto simp: run_wait_until_def wait_until_def split: option.split)

lemma run_line_ends:
  assumes "sleep_progress env"
  shows "\<exists>r flags' sys'. run_line env line flags sys = Some (r, flags', sys')"
proof -
  define tokens where "tokens = tokenise (KFSW_COMMAND_MAX_ARGS + 2) line"
  obtain r0 s0 where w: "run_wait_until env tokens sys = Some (r0, s0)" using run_wait_until_ends [OF assms] by blast
  show ?thesis
    unfolding run_line_def Let_def tokens_def [symmetric] by (simp add: w split: prod.split)
qed

lemma execute_line_ends:
  assumes "sleep_progress env"
  shows "\<exists>stop vars' sys'. execute_line env k read line vars sys = Some (stop, vars', sys')"
proof -
  obtain r flags' sys' where "run_line env line (rv_flags vars) sys = Some (r, flags', sys')"
    using run_line_ends [OF assms] by blast
  then show ?thesis by (auto simp: execute_line_def Let_def split: prod.split)
qed

lemma run_lines_ends:
  assumes "sleep_progress env"
  shows "\<exists>r. run_lines env path room left vars sys = Some r"
  using assms
proof (induction env path room left vars sys rule: run_lines.induct)
  case (1 env path room left vars sys)
  obtain r room' sys1 where r: "read_line env path room [] False sys = (r, room', sys1)" by (metis prod_cases3)
  show ?case
  proof (cases "read_outcome r")
    case (Inl e)
    then show ?thesis by (subst run_lines.simps) (simp add: r)
  next
    case (Inr x)
    obtain rd line at_end where x: "x = (rd, line, at_end)" by (metis prod_cases3)
    define k :: u16 where "k = word_of_nat (pe_lines_max env - left + 1)"
    obtain stop vars' sys2 where e: "execute_line env k rd line vars sys1 = Some (stop, vars', sys2)"
      using execute_line_ends [OF 1(3)] by blast
    note again = 1(1) [OF r [symmetric] refl Inr [unfolded x] refl refl _ _ 1(3)]
      1(2) [OF r [symmetric] refl Inr [unfolded x] refl refl _ _ e [unfolded k_def] refl refl _ 1(3)]
    show ?thesis
      using again by (subst run_lines.simps) (auto simp only: r Inr x prod.case sum.case k_def [symmetric] e option.case split: if_split)
  qed
qed

text \<open>A pending stop request is found before another byte is read.\<close>

lemma stop_ends_run:
  assumes "stop_requested (pe_others env sys)"
  shows "run_lines env path room left vars sys = Some (vars\<lparr>rv_outcome := Some ECANCELED\<rparr>, left, pe_others env sys)"
  by (subst run_lines.simps, subst read_line.simps) (simp add: assms read_outcome_def Let_def)

lemma claim_after_finish:
  assumes "finish_procedure env path x = (outcome, sys')"
  shows "\<not> holds_claim env sys' \<and> \<not> pr_exclusive (ps_status (proc_of sys'))"
proof -
  obtain vars left sys where x: "x = (vars, left, sys)" by (metis prod_cases3)
  obtain closed f where cl: "fs_close (pe_files env) path (files_of sys) = (closed, f)" by (metis prod.collapse)
  obtain seen sys1 where ac: "account_for_others env (word_of_nat (pe_lines_max env - left)) (rv_seen vars) (with_files f sys)
      = (seen, sys1)" by (metis prod.collapse)
  from assms show ?thesis
    by (auto simp: finish_procedure_def x cl ac Let_def holds_claim_def note_event_def with_status_def with_proc_def
        with_claim_def proc_of_def kfsw_command_claim_release_def foreign_claim_def split: if_splits)
qed

section \<open>Properties\<close>



end
