(* ===== verification/Limits.thy ===== *)
theory Limits
  imports Fbo Parameter
begin

text \<open>
  \<^verbatim>\<open>src/limits/limits.c\<close>: rules that watch local parameters. A rule file is parsed line by line against the
  parameter and the command registry and replaces the rules in force as a whole; a sweep reads every watched
  parameter, compares it with its bound and, once the comparison has held for the dwell of the rule, puts the
  action of the rule into the release queue of \<open>Fbo_Schedule\<close>. \<open>limits_state\<close> holds the file's static
  variables, \<open>limits_node\<close> the services a sweep goes through. The floating-point comparisons and the file
  system are parameters. The theorems: a rule file is read as the list of its lines and loaded whole or not
  at all; an action that was loaded is one the queue takes; and a rule fires once per crossing, after its
  dwell, and is tried again while the queue refuses it.
\<close>

section \<open>Data\<close>

definition LIMITS_LINE_BYTES :: nat where "LIMITS_LINE_BYTES = 192"
definition LIMITS_FIELDS :: nat where "LIMITS_FIELDS = 5"
definition LIMITS_RELEASE_DELAY_S :: int where "LIMITS_RELEASE_DELAY_S = 1"
definition KFSW_LIMITS_BOUND_TEXT_MAX :: nat where "KFSW_LIMITS_BOUND_TEXT_MAX = 24"
definition KFSW_LIMITS_INTERVAL_MIN_MS :: u32 where "KFSW_LIMITS_INTERVAL_MIN_MS = 100"
definition KFSW_LIMITS_INTERVAL_MAX_MS :: u32 where "KFSW_LIMITS_INTERVAL_MAX_MS = 3600000"
definition KFSW_LIMITS_DWELL_MAX :: int where "KFSW_LIMITS_DWELL_MAX = 255"
definition KFSW_LIMITS_NO_RULE :: u8 where "KFSW_LIMITS_NO_RULE = 255"
definition KFSW_EVENT_LIMITS_FIRED :: u16 where "KFSW_EVENT_LIMITS_FIRED = 1"

datatype kfsw_limits_cmp =
  KFSW_LIMITS_GT | KFSW_LIMITS_GE | KFSW_LIMITS_LT | KFSW_LIMITS_LE | KFSW_LIMITS_EQ | KFSW_LIMITS_NE

record kfsw_limits_rule =
  lr_index :: u8
  lr_parameter :: string
  lr_type :: kfsw_param_type
  lr_cmp :: kfsw_limits_cmp
  lr_bound :: bytes
  lr_bound_text :: string
  lr_dwell :: u8
  lr_streak :: u8
  lr_latched :: bool
  lr_node :: u16
  lr_action :: string

record kfsw_limits_status =
  lst_rules :: u8
  lst_sweeps :: u32
  lst_fires :: u32
  lst_failures :: u32
  lst_parse_errors :: u32
  lst_last_fired_index :: u8
  lst_last_fired_ms :: u32
  lst_error_line :: u16
  lst_error :: string
  lst_running :: bool

text \<open>\<open>ls_work\<close> is the delay the periodic work was last scheduled with, \<open>None\<close> while it is not scheduled.\<close>

record limits_state =
  ls_enabled :: u8
  ls_interval_ms :: u32
  ls_rules :: "kfsw_limits_rule list"
  ls_status :: kfsw_limits_status
  ls_initialized :: bool
  ls_work :: "u32 option"

record ('w, 'f) limits_node =
  ln_limits :: limits_state
  ln_params :: "'w param_state"
  ln_schedule :: schedule_state
  ln_event :: event_state
  ln_files :: 'f

text \<open>What the platform does with floating-point numbers, on their bits.\<close>

record float_order =
  double_of_float :: "u32 \<Rightarrow> u64"
  double_is_nan :: "u64 \<Rightarrow> bool"
  double_less :: "u64 \<Rightarrow> u64 \<Rightarrow> bool"

record ('f, 'v, 'n) limits_env =
  le_fbo :: "('v, 'n) fbo_env"
  le_params :: param_config
  le_float :: float_order
  le_files :: "'f fs_ops"
  le_root :: string
  le_file :: string
  le_max_rules :: nat
  le_interval_ms :: u32

definition LIMITS_FILE_BYTES_MAX :: "('f, 'v, 'n) limits_env \<Rightarrow> nat" where
  "LIMITS_FILE_BYTES_MAX env = le_max_rules env * LIMITS_LINE_BYTES * 2"

definition with_limits :: "(limits_state \<Rightarrow> limits_state) \<Rightarrow> ('w, 'f) limits_node \<Rightarrow> ('w, 'f) limits_node" where
  "with_limits g nd = nd\<lparr>ln_limits := g (ln_limits nd)\<rparr>"

definition with_limits_status ::
  "(kfsw_limits_status \<Rightarrow> kfsw_limits_status) \<Rightarrow> ('w, 'f) limits_node \<Rightarrow> ('w, 'f) limits_node" where
  "with_limits_status g = with_limits (\<lambda>l. l\<lparr>ls_status := g (ls_status l)\<rparr>)"

definition comparisons :: "(string \<times> kfsw_limits_cmp) list" where
  "comparisons = [(''>'', KFSW_LIMITS_GT), (''>='', KFSW_LIMITS_GE), (''<'', KFSW_LIMITS_LT),
                  (''<='', KFSW_LIMITS_LE), (''=='', KFSW_LIMITS_EQ), (''!='', KFSW_LIMITS_NE)]"

definition kfsw_limits_cmp_text :: "kfsw_limits_cmp \<Rightarrow> string" where
  "kfsw_limits_cmp_text cmp =
     (case find (\<lambda>(text, c). c = cmp) comparisons of None \<Rightarrow> ''?'' | Some (text, c) \<Rightarrow> text)"

definition note_failure :: "('w, 'f) limits_node \<Rightarrow> ('w, 'f) limits_node" where
  "note_failure = with_limits_status (\<lambda>s. s\<lparr>lst_failures := saturating_increment (lst_failures s)\<rparr>)"

section \<open>Comparison\<close>

text \<open>The union of \<open>struct wide\<close> is its 64 bits.\<close>

datatype wide_kind = WIDE_UNSIGNED | WIDE_SIGNED | WIDE_FLOAT

record wide =
  wd_kind :: wide_kind
  wd_bits :: u64

definition ORDER_NONE :: int where "ORDER_NONE = 2"

definition is_numeric :: "kfsw_param_type \<Rightarrow> bool" where
  "is_numeric type \<longleftrightarrow> type \<notin> {KFSW_PARAM_STRING, KFSW_PARAM_DATA, KFSW_PARAM_INVALID}"

definition is_float :: "kfsw_param_type \<Rightarrow> bool" where
  "is_float type \<longleftrightarrow> type = KFSW_PARAM_FLOAT \<or> type = KFSW_PARAM_DOUBLE"

definition widen :: "float_order \<Rightarrow> kfsw_param_type \<Rightarrow> bytes \<Rightarrow> wide" where
  "widen fl type scalar =
     (case type of
        KFSW_PARAM_U8 \<Rightarrow> \<lparr>wd_kind = WIDE_UNSIGNED, wd_bits = ucast (scalar_u8 scalar)\<rparr>
      | KFSW_PARAM_X8 \<Rightarrow> \<lparr>wd_kind = WIDE_UNSIGNED, wd_bits = ucast (scalar_u8 scalar)\<rparr>
      | KFSW_PARAM_U16 \<Rightarrow> \<lparr>wd_kind = WIDE_UNSIGNED, wd_bits = ucast (scalar_u16 scalar)\<rparr>
      | KFSW_PARAM_X16 \<Rightarrow> \<lparr>wd_kind = WIDE_UNSIGNED, wd_bits = ucast (scalar_u16 scalar)\<rparr>
      | KFSW_PARAM_U32 \<Rightarrow> \<lparr>wd_kind = WIDE_UNSIGNED, wd_bits = ucast (scalar_u32 scalar)\<rparr>
      | KFSW_PARAM_X32 \<Rightarrow> \<lparr>wd_kind = WIDE_UNSIGNED, wd_bits = ucast (scalar_u32 scalar)\<rparr>
      | KFSW_PARAM_U64 \<Rightarrow> \<lparr>wd_kind = WIDE_UNSIGNED, wd_bits = scalar_u64 scalar\<rparr>
      | KFSW_PARAM_X64 \<Rightarrow> \<lparr>wd_kind = WIDE_UNSIGNED, wd_bits = scalar_u64 scalar\<rparr>
      | KFSW_PARAM_I8 \<Rightarrow> \<lparr>wd_kind = WIDE_SIGNED, wd_bits = scast (scalar_u8 scalar)\<rparr>
      | KFSW_PARAM_I16 \<Rightarrow> \<lparr>wd_kind = WIDE_SIGNED, wd_bits = scast (scalar_u16 scalar)\<rparr>
      | KFSW_PARAM_I32 \<Rightarrow> \<lparr>wd_kind = WIDE_SIGNED, wd_bits = scast (scalar_u32 scalar)\<rparr>
      | KFSW_PARAM_I64 \<Rightarrow> \<lparr>wd_kind = WIDE_SIGNED, wd_bits = scalar_u64 scalar\<rparr>
      | KFSW_PARAM_FLOAT \<Rightarrow> \<lparr>wd_kind = WIDE_FLOAT, wd_bits = double_of_float fl (scalar_u32 scalar)\<rparr>
      | KFSW_PARAM_DOUBLE \<Rightarrow> \<lparr>wd_kind = WIDE_FLOAT, wd_bits = scalar_u64 scalar\<rparr>
      | _ \<Rightarrow> \<lparr>wd_kind = WIDE_UNSIGNED, wd_bits = 0\<rparr>)"

definition order :: "float_order \<Rightarrow> wide \<Rightarrow> wide \<Rightarrow> int" where
  "order fl a b =
     (case wd_kind a of
        WIDE_SIGNED \<Rightarrow> of_bool (sint (wd_bits a) > sint (wd_bits b)) - of_bool (sint (wd_bits a) < sint (wd_bits b))
      | WIDE_FLOAT \<Rightarrow>
          if double_is_nan fl (wd_bits a) \<or> double_is_nan fl (wd_bits b) then ORDER_NONE
          else of_bool (double_less fl (wd_bits b) (wd_bits a)) - of_bool (double_less fl (wd_bits a) (wd_bits b))
      | WIDE_UNSIGNED \<Rightarrow> of_bool (wd_bits a > wd_bits b) - of_bool (wd_bits a < wd_bits b))"

definition holds :: "kfsw_limits_cmp \<Rightarrow> int \<Rightarrow> bool" where
  "holds cmp sign =
     (if sign = ORDER_NONE then False
      else
        (case cmp of
           KFSW_LIMITS_GT \<Rightarrow> sign > 0
         | KFSW_LIMITS_GE \<Rightarrow> sign \<ge> 0
         | KFSW_LIMITS_LT \<Rightarrow> sign < 0
         | KFSW_LIMITS_LE \<Rightarrow> sign \<le> 0
         | KFSW_LIMITS_EQ \<Rightarrow> sign = 0
         | KFSW_LIMITS_NE \<Rightarrow> sign \<noteq> 0))"

section \<open>Parsing a rule\<close>

text \<open>The field and the cursor behind it.\<close>

definition next_field :: "string \<Rightarrow> (string \<times> string) option" where
  "next_field cursor =
     (let start = dropWhile is_blank cursor
      in if start = [] then None
         else Some (takeWhile (\<lambda>c. \<not> is_blank c) start, drop 1 (dropWhile (\<lambda>c. \<not> is_blank c) start)))"

definition parse_unsigned :: "int \<Rightarrow> string \<Rightarrow> int \<Rightarrow> nat option" where
  "parse_unsigned ulong_max text maximum =
     (if text = [] \<or> \<not> is_digit 10 (hd text) then None
      else
        (case c_decimal text of
           None \<Rightarrow> None
         | Some (v, rest) \<Rightarrow> if v \<le> ulong_max \<and> rest = [] \<and> v \<le> maximum then Some (nat v) else None))"

text \<open>The loop over the arguments of an action, with the number of arguments still to come.\<close>

fun check_action_arguments :: "int \<Rightarrow> int \<Rightarrow> nat \<Rightarrow> kfsw_command_type list \<Rightarrow> string \<Rightarrow> string option" where
  "check_action_arguments ulong_max long_max 0 types cursor =
     (if next_field cursor \<noteq> None then Some ''action has more arguments than the command takes'' else None)"
| "check_action_arguments ulong_max long_max (Suc left) types cursor =
     (case next_field cursor of
        None \<Rightarrow> Some ''action argument is missing or of the wrong type''
      | Some (token, cursor') \<Rightarrow>
          (case kfsw_command_parse_arg ulong_max long_max (Some token) (hd types) Dest of
             Inl e \<Rightarrow> Some ''action argument is missing or of the wrong type''
           | Inr arg \<Rightarrow> check_action_arguments ulong_max long_max left (tl types) cursor'))"

definition check_action :: "int \<Rightarrow> int \<Rightarrow> 'w registry_state \<Rightarrow> string \<Rightarrow> string option" where
  "check_action ulong_max long_max reg action =
     (if length action \<ge> KFSW_FBO_SCHEDULE_LINE_MAX then Some ''action is too long''
      else
        (case next_field action of
           None \<Rightarrow> Some ''action is not a registered command''
         | Some (token, cursor) \<Rightarrow>
             (case kfsw_command_find (Some token) Dest reg of
                Inl e \<Rightarrow> Some ''action is not a registered command''
              | Inr info \<Rightarrow> check_action_arguments ulong_max long_max (unat (ci_arg_count info))
                  (case ci_arg_types info of None \<Rightarrow> [] | Some types \<Rightarrow> types) cursor)))"

definition parse_comparison :: "string \<Rightarrow> string + kfsw_limits_cmp" where
  "parse_comparison text =
     (case find (\<lambda>(t, c). t = text) comparisons of None \<Rightarrow> Inl ''unknown comparison'' | Some (t, c) \<Rightarrow> Inr c)"

fun take_fields :: "nat \<Rightarrow> string \<Rightarrow> (string list \<times> string) option" where
  "take_fields 0 cursor = Some ([], cursor)"
| "take_fields (Suc n) cursor =
     (case next_field cursor of
        None \<Rightarrow> None
      | Some (field, cursor') \<Rightarrow>
          (case take_fields n cursor' of None \<Rightarrow> None | Some (words, rest) \<Rightarrow> Some (field # words, rest)))"

definition trim_blanks :: "string \<Rightarrow> string" where
  "trim_blanks text = rev (dropWhile is_blank (rev (dropWhile is_blank text)))"

definition missing_fields :: string where
  "missing_fields = ''expected parameter, comparison, bound, dwell, node and an action''"

definition zero_rule :: kfsw_limits_rule where
  "zero_rule = \<lparr>lr_index = 0, lr_parameter = [], lr_type = KFSW_PARAM_U8, lr_cmp = KFSW_LIMITS_GT,
     lr_bound = replicate 8 0, lr_bound_text = [], lr_dwell = 0, lr_streak = 0, lr_latched = False, lr_node = 0,
     lr_action = []\<rparr>"

text \<open>The parts of \<open>parse_line\<close>: the parameter with its comparison, the bound, and the rest.\<close>

definition parse_watch ::
  "'w param_state \<Rightarrow> string \<Rightarrow> string \<Rightarrow> kfsw_limits_rule \<Rightarrow> string + kfsw_limits_rule" where
  "parse_watch params name cmp rule =
     (if length name > KFSW_PARAM_NAME_MAX then Inl ''parameter name is too long''
      else
        (case kfsw_param_get_info (Some name) Dest params of
           Inl e \<Rightarrow> Inl ''unknown parameter''
         | Inr info \<Rightarrow>
             if \<not> is_numeric (pi_type info) then Inl ''parameter is not a number''
             else
               (case parse_comparison cmp of
                  Inl reason \<Rightarrow> Inl reason
                | Inr c \<Rightarrow>
                    if is_float (pi_type info) \<and> (c = KFSW_LIMITS_EQ \<or> c = KFSW_LIMITS_NE)
                    then Inl ''equality is refused for a float parameter''
                    else Inr (rule\<lparr>lr_parameter := name, lr_type := pi_type info, lr_cmp := c\<rparr>))))"

definition parse_bound :: "param_config \<Rightarrow> string \<Rightarrow> kfsw_limits_rule \<Rightarrow> string + kfsw_limits_rule" where
  "parse_bound cfg bound rule =
     (if length bound \<ge> KFSW_LIMITS_BOUND_TEXT_MAX then Inl ''bound is too long''
      else
        (case kfsw_param_parse_text cfg bound (zero_value cfg (lr_type rule) 0) of
           (Some e, value) \<Rightarrow> Inl ''bound does not fit the type of the parameter''
         | (None, value) \<Rightarrow> Inr (rule\<lparr>lr_bound := pv_scalar value, lr_bound_text := bound\<rparr>)))"

definition parse_target ::
  "('v, 'n) fbo_env \<Rightarrow> string \<Rightarrow> string \<Rightarrow> string \<Rightarrow> kfsw_limits_rule \<Rightarrow> string + kfsw_limits_rule" where
  "parse_target fbo dwell node action rule =
     (case parse_unsigned (fb_ulong_max fbo) dwell KFSW_LIMITS_DWELL_MAX of
        None \<Rightarrow> Inl ''dwell must be 1 to 255''
      | Some d \<Rightarrow>
          if d = 0 then Inl ''dwell must be 1 to 255''
          else
            (case parse_unsigned (fb_ulong_max fbo) node 65535 of
               None \<Rightarrow> Inl ''node is not an address''
             | Some n \<Rightarrow>
                 if \<not> fb_command_csp fbo \<and> n \<noteq> 0 then Inl ''this build has no remote commanding''
                 else
                   (case check_action (fb_ulong_max fbo) (fb_long_max fbo) (fb_registry fbo) action of
                      Some reason \<Rightarrow> Inl reason
                    | None \<Rightarrow> Inr (rule\<lparr>lr_dwell := word_of_nat d, lr_node := word_of_nat n, lr_action := action\<rparr>))))"

definition parse_line ::
  "('f, 'v, 'n) limits_env \<Rightarrow> 'w param_state \<Rightarrow> string \<Rightarrow> string + kfsw_limits_rule" where
  "parse_line env params text =
     (case take_fields LIMITS_FIELDS text of
        None \<Rightarrow> Inl missing_fields
      | Some (words, cursor) \<Rightarrow>
          (let action = trim_blanks cursor
           in if action = [] then Inl missing_fields
              else
                (case parse_watch params (words ! 0) (words ! 1) zero_rule of
                   Inl reason \<Rightarrow> Inl reason
                 | Inr rule \<Rightarrow>
                     (case parse_bound (le_params env) (words ! 2) rule of
                        Inl reason \<Rightarrow> Inl reason
                      | Inr rule' \<Rightarrow> parse_target (le_fbo env) (words ! 3) (words ! 4) action rule'))))"

section \<open>Loading a rule file\<close>

text \<open>
  \<open>read_line\<close>: \<open>room\<close> is what is left of the byte limit, \<open>text\<close> the line so far. The line comes with its
  overflow flag and whether the file ended.
\<close>

fun limits_read_line ::
  "'f fs_ops \<Rightarrow> string \<Rightarrow> nat \<Rightarrow> string \<Rightarrow> bool \<Rightarrow> 'f \<Rightarrow> (errno + (bool \<times> string \<times> bool)) \<times> nat \<times> 'f" where
  "limits_read_line ops path room text too_long f =
     (case fs_read ops path 1 f of
        (Inl e, f1) \<Rightarrow> (Inl e, room, f1)
      | (Inr [], f1) \<Rightarrow> (Inr (too_long, text, True), room, f1)
      | (Inr (b # rest), f1) \<Rightarrow>
          (case room of
             0 \<Rightarrow> (Inl EFBIG, room, f1)
           | Suc left \<Rightarrow>
               (let c = char_of_byte b
                in if c = CHR 0x0A then (Inr (too_long, text, False), left, f1)
                   else if c = CHR 0x0D then limits_read_line ops path left text too_long f1
                   else if length text + 1 \<ge> LIMITS_LINE_BYTES then limits_read_line ops path left text True f1
                   else limits_read_line ops path left (text @ [c]) too_long f1)))"

declare limits_read_line.simps [simp del]

text \<open>
  One line against the rules staged so far: \<open>Inl\<close> the reason it is refused, or the rules with what the line
  adds. The line buffer is a C string, so a line ends at its first terminator.
\<close>

definition stage_line ::
  "('f, 'v, 'n) limits_env \<Rightarrow> 'w param_state \<Rightarrow> bool \<Rightarrow> string \<Rightarrow> kfsw_limits_rule list
     \<Rightarrow> string + kfsw_limits_rule list" where
  "stage_line env params too_long line staged =
     (let text = dropWhile is_blank (takeWhile (\<lambda>c. c \<noteq> NUL) line)
      in if take 1 text = ''#'' \<or> (text = [] \<and> \<not> too_long) then Inr staged
         else if too_long then Inl ''line is too long''
         else if length staged = le_max_rules env then Inl ''more rules than this build holds''
         else
           (case parse_line env params text of
              Inl reason \<Rightarrow> Inl reason
            | Inr rule \<Rightarrow> Inr (staged @ [rule\<lparr>lr_index := word_of_nat (length staged)\<rparr>])))"

lemma limits_read_line_room:
  "limits_read_line ops path room text too_long f = (r, room', f') \<Longrightarrow>
     room' \<le> room \<and> (\<forall>x y. r = Inr (x, y, False) \<longrightarrow> room' < room)"
proof (induction room arbitrary: "text" too_long f)
  case 0
  then show ?case
    by (subst (asm) limits_read_line.simps) (auto simp: Let_def split: if_splits prod.splits sum.splits list.splits)
next
  case (Suc left)
  obtain rd f1 where rd: "fs_read ops path 1 f = (rd, f1)" by (metis prod.collapse)
  from Suc.prems show ?case
    by (subst (asm) limits_read_line.simps)
      (auto simp: rd [simplified] Let_def split: if_splits sum.splits list.splits dest!: Suc.IH)
qed

text \<open>The result is the staged rules, or an error with the line at fault and the reason for a bad line.\<close>

function parse_lines ::
  "('f, 'v, 'n) limits_env \<Rightarrow> 'w param_state \<Rightarrow> string \<Rightarrow> nat \<Rightarrow> u16 \<Rightarrow> kfsw_limits_rule list \<Rightarrow> 'f
     \<Rightarrow> ((errno \<times> (u16 \<times> string) option) + kfsw_limits_rule list) \<times> 'f" where
  "parse_lines env params path room number staged f =
     (case limits_read_line (le_files env) path room [] False f of
        (Inl e, room', f1) \<Rightarrow> (Inl (e, None), f1)
      | (Inr (too_long, line, at_end), room', f1) \<Rightarrow>
          (case stage_line env params too_long line staged of
             Inl reason \<Rightarrow> (Inl (EINVAL, Some (number + 1, reason)), f1)
           | Inr staged' \<Rightarrow>
               if at_end then (Inr staged', f1) else parse_lines env params path room' (number + 1) staged' f1))"
  by pat_completeness auto
termination
  by (relation "measure (\<lambda>(env, params, path, room, number, staged, f). room)")
    (auto dest!: limits_read_line_room [OF sym])

declare parse_lines.simps [simp del]

definition parse_file ::
  "('f, 'v, 'n) limits_env \<Rightarrow> 'w param_state \<Rightarrow> string \<Rightarrow> 'f
     \<Rightarrow> ((errno \<times> (u16 \<times> string) option) + kfsw_limits_rule list) \<times> 'f" where
  "parse_file env params path f = parse_lines env params path (LIMITS_FILE_BYTES_MAX env) 0 [] f"

definition limits_path :: "string \<Rightarrow> string \<Rightarrow> string" where
  "limits_path root name = take 95 (root @ ''/limits/'' @ name)"

text \<open>What a load does with the outcome of the file, under the two locks.\<close>

definition adopt_rules ::
  "(errno \<times> (u16 \<times> string) option) + kfsw_limits_rule list \<Rightarrow> limits_state \<Rightarrow> rc \<times> limits_state" where
  "adopt_rules outcome l =
     (case outcome of
        Inr staged \<Rightarrow>
          (None, l\<lparr>ls_rules := staged,
             ls_status := (ls_status l)\<lparr>lst_rules := word_of_nat (length staged), lst_error_line := 0, lst_error := []\<rparr>\<rparr>)
      | Inl (e, Some (number, reason)) \<Rightarrow>
          (Some e, l\<lparr>ls_status := (ls_status l)\<lparr>
             lst_parse_errors := saturating_increment (lst_parse_errors (ls_status l)),
             lst_error_line := number, lst_error := reason\<rparr>\<rparr>)
      | Inl (e, None) \<Rightarrow> (Some e, l))"

definition kfsw_limits_load ::
  "('f, 'v, 'n) limits_env \<Rightarrow> string option \<Rightarrow> ('w, 'f) limits_node \<Rightarrow> rc \<times> ('w, 'f) limits_node" where
  "kfsw_limits_load env name nd =
     (case name of
        None \<Rightarrow> (Some EINVAL, nd)
      | Some n \<Rightarrow>
          if \<not> terminated_within KFSW_FBO_NAME_MAX n \<or> n = [] \<or> CHR ''/'' \<in> set n \<or> has_dots n then (Some EINVAL, nd)
          else if \<not> storage_ready (le_files env) (ln_files nd) then (Some ENODEV, nd)
          else
            (let path = limits_path (le_root env) n;
                 (outcome, f') =
                   (case fs_open (le_files env) path FS_READ (ln_files nd) of
                      (Some e, f1) \<Rightarrow> (Inl (e, None), f1)
                    | (None, f1) \<Rightarrow>
                        (case parse_file env (ln_params nd) path f1 of
                           (r, f2) \<Rightarrow> (r, snd (fs_close (le_files env) path f2))));
                 (result, l) = adopt_rules outcome (ln_limits nd)
             in (result, nd\<lparr>ln_files := f', ln_limits := l\<rparr>)))"

section \<open>Evaluating the rules\<close>

text \<open>
  \<open>release\<close>; \<open>uptime\<close> is the reading of the monotonic clock the queue takes and \<open>now_ms\<close> the one of the
  status. The first component says whether the rule latches.
\<close>

definition limits_release ::
  "('f, 'v, 'n) limits_env \<Rightarrow> int \<Rightarrow> u64 \<Rightarrow> kfsw_limits_rule \<Rightarrow> ('w, 'f) limits_node \<Rightarrow> bool \<times> ('w, 'f) limits_node" where
  "limits_release env uptime now_ms rule nd =
     (case kfsw_fbo_schedule_add (le_fbo env) (Some KFSW_FBO_TIME_RELATIVE) LIMITS_RELEASE_DELAY_S (lr_node rule)
             (Some (lr_action rule)) Dest (Inl ENODATA) uptime (ln_schedule nd) of
        (result, slot, sched) \<Rightarrow>
          (let nd1 = nd\<lparr>ln_schedule := sched\<rparr>
           in if result = Some EEXIST then (True, nd1)
              else if result \<noteq> None then (False, note_failure nd1)
              else
                (let nd2 = with_limits_status (\<lambda>s. s\<lparr>lst_fires := saturating_increment (lst_fires s),
                             lst_last_fired_index := lr_index rule,
                             lst_last_fired_ms := (if now_ms < 4294967295 then ucast now_ms else 4294967295)\<rparr>) nd1
                 in (True, nd2\<lparr>ln_event := kfsw_event_emit
                       \<lparr>rq_source = source_value KFSW_EVENT_SOURCE_LIMITS, rq_id = KFSW_EVENT_LIMITS_FIRED,
                        rq_severity = severity_value KFSW_EVENT_WARNING,
                        rq_payload = Some (lr_index rule # sys_put_be16 (lr_node rule)), rq_payload_size = 3,
                        rq_now_us = fb_now_us (le_fbo env)\<rparr> (ln_event nd2)\<rparr>))))"

text \<open>The comparison of a rule with a value read.\<close>

definition rule_holds :: "float_order \<Rightarrow> kfsw_limits_rule \<Rightarrow> kfsw_param_value \<Rightarrow> bool" where
  "rule_holds fl rule value =
     holds (lr_cmp rule) (order fl (widen fl (lr_type rule) (pv_scalar value)) (widen fl (lr_type rule) (lr_bound rule)))"

definition evaluate ::
  "('f, 'v, 'n) limits_env \<Rightarrow> int \<Rightarrow> u64 \<Rightarrow> kfsw_limits_rule \<Rightarrow> ('w, 'f) limits_node
     \<Rightarrow> kfsw_limits_rule \<times> ('w, 'f) limits_node" where
  "evaluate env uptime now_ms rule nd =
     (case kfsw_param_get (le_params env) (Some (lr_parameter rule)) Dest (ln_params nd) of
        (Inl e, params) \<Rightarrow> (rule, note_failure (nd\<lparr>ln_params := params\<rparr>))
      | (Inr value, params) \<Rightarrow>
          (let nd1 = nd\<lparr>ln_params := params\<rparr>
           in if \<not> rule_holds (le_float env) rule value then (rule\<lparr>lr_streak := 0, lr_latched := False\<rparr>, nd1)
              else
                (let rule1 = (if lr_streak rule < 255 then rule\<lparr>lr_streak := lr_streak rule + 1\<rparr> else rule)
                 in if \<not> lr_latched rule1 \<and> lr_streak rule1 \<ge> lr_dwell rule1 then
                      (case limits_release env uptime now_ms rule1 nd1 of
                         (latched, nd2) \<Rightarrow> (rule1\<lparr>lr_latched := latched\<rparr>, nd2))
                    else (rule1, nd1))))"

text \<open>The rule at an index, evaluated in place; \<open>clock\<close> gives the readings of the clock for each rule.\<close>

definition evaluate_at ::
  "('f, 'v, 'n) limits_env \<Rightarrow> (nat \<Rightarrow> int \<times> u64) \<Rightarrow> nat \<Rightarrow> ('w, 'f) limits_node \<Rightarrow> ('w, 'f) limits_node" where
  "evaluate_at env clock i nd =
     (case evaluate env (fst (clock i)) (snd (clock i)) (ls_rules (ln_limits nd) ! i) nd of
        (rule, nd1) \<Rightarrow> with_limits (\<lambda>l. l\<lparr>ls_rules := (ls_rules l)[i := rule]\<rparr>) nd1)"

definition kfsw_limits_sweep ::
  "('f, 'v, 'n) limits_env \<Rightarrow> (nat \<Rightarrow> int \<times> u64) \<Rightarrow> ('w, 'f) limits_node \<Rightarrow> (errno + nat) \<times> ('w, 'f) limits_node" where
  "kfsw_limits_sweep env clock nd =
     (if ls_enabled (ln_limits nd) = 0 then
        (Inl EACCES, with_limits (\<lambda>l. l\<lparr>ls_rules := map (\<lambda>r. r\<lparr>lr_streak := 0\<rparr>) (ls_rules l)\<rparr>) nd)
      else
        (let count = length (ls_rules (ln_limits nd));
             nd1 = fold (evaluate_at env clock) [0..<count] nd
         in (Inr count, with_limits_status (\<lambda>s. s\<lparr>lst_sweeps := saturating_increment (lst_sweeps s)\<rparr>) nd1)))"

section \<open>The service\<close>

definition limits_work_handler ::
  "('f, 'v, 'n) limits_env \<Rightarrow> (nat \<Rightarrow> int \<times> u64) \<Rightarrow> ('w, 'f) limits_node \<Rightarrow> ('w, 'f) limits_node" where
  "limits_work_handler env clock nd =
     (let nd1 = snd (kfsw_limits_sweep env clock (with_limits (\<lambda>l. l\<lparr>ls_work := None\<rparr>) nd))
      in if lst_running (ls_status (ln_limits nd1))
         then with_limits (\<lambda>l. l\<lparr>ls_work := Some (ls_interval_ms l)\<rparr>) nd1 else nd1)"

definition kfsw_limits_set_interval_ms :: "u32 \<Rightarrow> limits_state \<Rightarrow> rc \<times> limits_state" where
  "kfsw_limits_set_interval_ms interval_ms l =
     (if interval_ms \<noteq> 0 \<and> (interval_ms < KFSW_LIMITS_INTERVAL_MIN_MS \<or> interval_ms > KFSW_LIMITS_INTERVAL_MAX_MS)
      then (Some ERANGE, l)
      else
        (let l1 = l\<lparr>ls_interval_ms := interval_ms\<rparr>
         in if \<not> ls_initialized l1 then (None, l1)
            else (None, l1\<lparr>ls_status := (ls_status l1)\<lparr>lst_running := interval_ms \<noteq> 0\<rparr>,
                           ls_work := (if interval_ms \<noteq> 0 then Some interval_ms else None)\<rparr>)))"

definition limits_make_directory :: "('f, 'v, 'n) limits_env \<Rightarrow> 'f \<Rightarrow> 'f" where
  "limits_make_directory env f =
     (case fs_mkdir (le_files env) (le_root env) f of
        (r, f1) \<Rightarrow>
          if r = None \<or> r = Some EEXIST then snd (fs_mkdir (le_files env) (take 63 (le_root env @ ''/limits'')) f1) else f1)"

definition kfsw_limits_init ::
  "('f, 'v, 'n) limits_env \<Rightarrow> ('w, 'f) limits_node \<Rightarrow> rc \<times> ('w, 'f) limits_node" where
  "kfsw_limits_init env nd =
     (if ls_initialized (ln_limits nd) then (None, nd)
      else
        (let nd1 = with_limits (\<lambda>l. l\<lparr>ls_initialized := True\<rparr>) nd;
             nd2 = (if storage_ready (le_files env) (ln_files nd1)
                    then nd1\<lparr>ln_files := limits_make_directory env (ln_files nd1)\<rparr> else nd1);
             nd3 = with_limits (\<lambda>l. case kfsw_limits_set_interval_ms (ls_interval_ms l) l of
                     (None, l') \<Rightarrow> l'
                   | (Some e, l') \<Rightarrow> snd (kfsw_limits_set_interval_ms (le_interval_ms env) l')) nd2;
             (result, nd4) = kfsw_limits_load env (Some (le_file env)) nd3
         in (if result = Some ENOENT \<or> result = Some ENODEV then None else result, nd4)))"

definition kfsw_limits_get_status :: "dest \<Rightarrow> limits_state \<Rightarrow> kfsw_limits_status option" where
  "kfsw_limits_get_status status l = (if status = Null then None else Some (ls_status l))"

fun visit_rules :: "(kfsw_limits_rule \<Rightarrow> 'c \<Rightarrow> bool \<times> 'c) \<Rightarrow> kfsw_limits_rule list \<Rightarrow> 'c \<Rightarrow> 'c" where
  "visit_rules visitor [] context = context"
| "visit_rules visitor (rule # rules) context =
     (case visitor rule context of (go_on, context') \<Rightarrow> if go_on then visit_rules visitor rules context' else context')"

definition kfsw_limits_visit_rules ::
  "(kfsw_limits_rule \<Rightarrow> 'c \<Rightarrow> bool \<times> 'c) option \<Rightarrow> limits_state \<Rightarrow> 'c \<Rightarrow> 'c" where
  "kfsw_limits_visit_rules visitor l context =
     (case visitor of None \<Rightarrow> context | Some v \<Rightarrow> visit_rules v (ls_rules l) context)"

section \<open>Specification vocabulary\<close>

text \<open>
  The lines of a rule file: the text between line feeds without carriage returns, cut to the line buffer, with
  whether something was cut off.
\<close>

function file_lines :: "bytes \<Rightarrow> (bool \<times> string) list" where
  "file_lines data =
     (let line = filter (\<lambda>c. c \<noteq> CHR 0x0D) (map char_of_byte (takeWhile (\<lambda>b. char_of_byte b \<noteq> CHR 0x0A) data));
          rest = dropWhile (\<lambda>b. char_of_byte b \<noteq> CHR 0x0A) data
      in (length line \<ge> LIMITS_LINE_BYTES, take (LIMITS_LINE_BYTES - 1) line)
           # (if rest = [] then [] else file_lines (tl rest)))"
  by pat_completeness auto
termination
proof (relation "measure length")
  show "wf (measure length)" by simp
next
  fix data :: bytes and line rest
  assume rest: "rest = dropWhile (\<lambda>b. char_of_byte b \<noteq> CHR 0x0A) data" and "rest \<noteq> []"
  have "length rest \<le> length data" unfolding rest by (rule length_dropWhile_le)
  then show "(tl rest, data) \<in> measure length" using \<open>rest \<noteq> []\<close> by (cases rest) simp_all
qed

declare file_lines.simps [simp del]

text \<open>The rules of a file: its lines one after the other, up to the first that is refused.\<close>

fun stage_lines ::
  "('f, 'v, 'n) limits_env \<Rightarrow> 'w param_state \<Rightarrow> u16 \<Rightarrow> (bool \<times> string) list \<Rightarrow> kfsw_limits_rule list
     \<Rightarrow> (errno \<times> (u16 \<times> string) option) + kfsw_limits_rule list" where
  "stage_lines env params number [] staged = Inr staged"
| "stage_lines env params number (line # lines) staged =
     (case stage_line env params (fst line) (snd line) staged of
        Inl reason \<Rightarrow> Inl (EINVAL, Some (number + 1, reason))
      | Inr staged' \<Rightarrow> stage_lines env params (number + 1) lines staged')"

text \<open>What a load establishes of a rule.\<close>

definition loaded_rule :: "('f, 'v, 'n) limits_env \<Rightarrow> 'w param_state \<Rightarrow> kfsw_limits_rule \<Rightarrow> bool" where
  "loaded_rule env params rule \<longleftrightarrow>
     (\<exists>info. kfsw_param_get_info (Some (lr_parameter rule)) Dest params = Inr info \<and> pi_type info = lr_type rule)
     \<and> is_numeric (lr_type rule)
     \<and> (is_float (lr_type rule) \<longrightarrow> lr_cmp rule \<notin> {KFSW_LIMITS_EQ, KFSW_LIMITS_NE})
     \<and> kfsw_param_parse_text (le_params env) (lr_bound_text rule) (zero_value (le_params env) (lr_type rule) 0)
         = (None, (zero_value (le_params env) (lr_type rule) 0)\<lparr>pv_scalar := lr_bound rule\<rparr>)
     \<and> 0 < lr_dwell rule \<and> lr_streak rule = 0 \<and> \<not> lr_latched rule
     \<and> (fb_command_csp (le_fbo env) \<or> lr_node rule = 0) \<and> lr_action rule \<noteq> []
     \<and> check_action (fb_ulong_max (le_fbo env)) (fb_long_max (le_fbo env)) (fb_registry (le_fbo env)) (lr_action rule) = None"

text \<open>
  What the sweeps saw of a rule: that they were disabled, that the parameter could not be read, or how the
  comparison came out, each with whether the rule latched then. \<open>held_run\<close> is for how many sweeps the
  comparison has held now, \<open>released\<close> whether the rule fired since it last did not hold.
\<close>

datatype sighting = Idle | Unread | Clear | Held

definition held_run :: "(sighting \<times> bool) list \<Rightarrow> nat" where
  "held_run log = length (filter (\<lambda>e. fst e = Held) (takeWhile (\<lambda>e. fst e \<noteq> Clear \<and> fst e \<noteq> Idle) (rev log)))"

definition released :: "(sighting \<times> bool) list \<Rightarrow> bool" where
  "released log \<longleftrightarrow> (\<exists>e \<in> set (takeWhile (\<lambda>e. fst e \<noteq> Clear) (rev log)). snd e)"

definition sighting_of :: "('f, 'v, 'n) limits_env \<Rightarrow> kfsw_limits_rule \<Rightarrow> ('w, 'f) limits_node \<Rightarrow> sighting" where
  "sighting_of env rule nd =
     (case fst (kfsw_param_get (le_params env) (Some (lr_parameter rule)) Dest (ln_params nd)) of
        Inl e \<Rightarrow> Unread
      | Inr value \<Rightarrow> if rule_holds (le_float env) rule value then Held else Clear)"

text \<open>The node when a sweep comes to rule \<open>i\<close>, and what the sweep sees of that rule.\<close>

definition sweep_at ::
  "('f, 'v, 'n) limits_env \<Rightarrow> (nat \<Rightarrow> int \<times> u64) \<Rightarrow> nat \<Rightarrow> ('w, 'f) limits_node \<Rightarrow> ('w, 'f) limits_node" where
  "sweep_at env clock i nd = fold (evaluate_at env clock) [0..<i] nd"

definition nth_rule :: "nat \<Rightarrow> ('w, 'f) limits_node \<Rightarrow> kfsw_limits_rule" where
  "nth_rule i nd = ls_rules (ln_limits nd) ! i"

definition observe ::
  "('f, 'v, 'n) limits_env \<Rightarrow> (nat \<Rightarrow> int \<times> u64) \<Rightarrow> nat \<Rightarrow> ('w, 'f) limits_node \<Rightarrow> sighting \<times> bool" where
  "observe env clock i nd =
     (if ls_enabled (ln_limits nd) = 0 then (Idle, False)
      else (sighting_of env (nth_rule i nd) (sweep_at env clock i nd),
            \<not> lr_latched (nth_rule i nd) \<and> lr_latched (nth_rule i (sweep_at env clock (Suc i) nd))))"

text \<open>
  The histories of a rule set since it was loaded: sweeps, with anything else between them that does not touch
  the rules in force.
\<close>

inductive limits_history ::
  "('f, 'v, 'n) limits_env \<Rightarrow> ('w, 'f) limits_node \<Rightarrow> (sighting \<times> bool) list list \<Rightarrow> bool" for env where
  Load: "kfsw_limits_load env name nd0 = (None, nd) \<Longrightarrow> limits_history env nd (map (\<lambda>r. []) (ls_rules (ln_limits nd)))"
| Other: "limits_history env nd logs \<Longrightarrow> ls_rules (ln_limits nd') = ls_rules (ln_limits nd) \<Longrightarrow> limits_history env nd' logs"
| Sweep: "limits_history env nd logs \<Longrightarrow>
    limits_history env (snd (kfsw_limits_sweep env clock nd))
      (map (\<lambda>i. logs ! i @ [observe env clock i nd]) [0..<length logs])"

text \<open>Firing is preceded by a full dwell, and two firings have a clear reading between them.\<close>

definition fire_ok :: "nat \<Rightarrow> (sighting \<times> bool) list \<Rightarrow> nat \<Rightarrow> bool" where
  "fire_ok dwell log k \<longleftrightarrow>
     (snd (log ! k) \<longrightarrow> fst (log ! k) = Held \<and> dwell \<le> held_run (take (Suc k) log)
        \<and> (\<forall>j < k. snd (log ! j) \<longrightarrow> (\<exists>m. j < m \<and> m < k \<and> fst (log ! m) = Clear)))"

definition fires_apart :: "nat \<Rightarrow> (sighting \<times> bool) list \<Rightarrow> bool" where
  "fires_apart dwell log \<longleftrightarrow> (\<forall>k < length log. fire_ok dwell log k)"

definition rule_logged :: "kfsw_limits_rule \<Rightarrow> (sighting \<times> bool) list \<Rightarrow> bool" where
  "rule_logged rule log \<longleftrightarrow>
     unat (lr_streak rule) = min 255 (held_run log) \<and> lr_latched rule = released log \<and> fires_apart (unat (lr_dwell rule)) log"

text \<open>The first line of a file's data and what is behind it, its line feed first.\<close>

definition line_of :: "bytes \<Rightarrow> string" where
  "line_of data = filter (\<lambda>c. c \<noteq> CHR 0x0D) (map char_of_byte (takeWhile (\<lambda>b. char_of_byte b \<noteq> CHR 0x0A) data))"

definition after_line :: "bytes \<Rightarrow> bytes" where
  "after_line data = dropWhile (\<lambda>b. char_of_byte b \<noteq> CHR 0x0A) data"

text \<open>What a release asks of the queue, the streak a held comparison leaves, and when it leads to a release.\<close>

definition add_action :: "('f, 'v, 'n) limits_env \<Rightarrow> int \<Rightarrow> kfsw_limits_rule \<Rightarrow> schedule_state \<Rightarrow> rc \<times> u16 option \<times> schedule_state" where
  "add_action env uptime rule sched = kfsw_fbo_schedule_add (le_fbo env) (Some KFSW_FBO_TIME_RELATIVE) LIMITS_RELEASE_DELAY_S
     (lr_node rule) (Some (lr_action rule)) Dest (Inl ENODATA) uptime sched"

definition next_streak :: "kfsw_limits_rule \<Rightarrow> kfsw_limits_rule" where
  "next_streak rule = (if lr_streak rule < 255 then rule\<lparr>lr_streak := lr_streak rule + 1\<rparr> else rule)"

definition tries :: "kfsw_limits_rule \<Rightarrow> bool" where
  "tries rule \<longleftrightarrow> \<not> lr_latched rule \<and> lr_streak (next_streak rule) \<ge> lr_dwell rule"

text \<open>A node with one numeric parameter and one command, for the witnesses.\<close>

definition demo_limits_env :: "(ram_fs, nat, unit) limits_env" where
  "demo_limits_env = \<lparr>le_fbo = demo_fbo_env, le_params = demo_param_config,
     le_float = \<lparr>double_of_float = ucast, double_is_nan = (\<lambda>x. False), double_less = (<)\<rparr>,
     le_files = ram_ops 0, le_root = ''/ftp'', le_file = ''rules'', le_max_rules = 2, le_interval_ms = 1000\<rparr>"

definition demo_limits_node :: "string \<Rightarrow> (unit, ram_fs) limits_node" where
  "demo_limits_node file =
     \<lparr>ln_limits = \<lparr>ls_enabled = 1, ls_interval_ms = 1000, ls_rules = [], ls_status =
        \<lparr>lst_rules = 0, lst_sweeps = 0, lst_fires = 0, lst_failures = 0, lst_parse_errors = 0,
         lst_last_fired_index = KFSW_LIMITS_NO_RULE, lst_last_fired_ms = 0, lst_error_line = 0, lst_error = [],
         lst_running = False\<rparr>, ls_initialized = True, ls_work = None\<rparr>,
      ln_params = demo_state, ln_schedule = schedule_boot 3 60, ln_event = event_init 4,
      ln_files = empty_fs\<lparr>rf_files := (\<lambda>p. if p = ''/ftp/limits/rules'' then Some (bytes_of_string file) else None)\<rparr>\<rparr>"

definition demo_rules :: string where
  "demo_rules = ''#'' @ [CHR 0x0A] @ ''level < 9 2 0 tick'' @ [CHR 0x0A]"

definition demo_loaded :: "(unit, ram_fs) limits_node" where
  "demo_loaded = snd (kfsw_limits_load demo_limits_env (Some ''rules'') (demo_limits_node demo_rules))"

definition demo_clock :: "nat \<Rightarrow> int \<times> u64" where
  "demo_clock i = (5000, 5000)"

section \<open>Lemmas on loading\<close>

lemma next_field_tokenise:
  "tokenise (Suc room) text = (case next_field text of None \<Rightarrow> [] | Some (word, rest) \<Rightarrow> word # tokenise room rest)"
  by (simp add: next_field_def Let_def)

declare tokenise.simps(2) [simp del]

text \<open>The words that \<open>check_action_arguments\<close> accepts are the arguments that the queue parses.\<close>

lemma check_arguments_parse:
  "check_action_arguments u l n types cursor = None \<Longrightarrow> n < room \<Longrightarrow>
   (\<forall>w \<in> set (tokenise room cursor). length w \<le> KFSW_COMMAND_MAX_TEXT_SIZE) \<Longrightarrow>
   length (tokenise room cursor) = n \<and> (\<exists>args. parse_args e u l (tokenise room cursor) types = Inr args)"
proof (induction n arbitrary: room types cursor)
  case 0
  then obtain r where "room = Suc r" by (cases room) auto
  with 0 show ?case by (auto simp: next_field_tokenise split: if_splits option.splits)
next
  case (Suc n)
  then obtain r where r: "room = Suc r" "n < r" by (cases room) auto
  from Suc.prems(1) obtain w rest arg where f: "next_field cursor = Some (w, rest)"
    "kfsw_command_parse_arg u l (Some w) (hd types) Dest = Inr arg" "check_action_arguments u l n (tl types) rest = None"
    by (auto split: option.splits sum.splits)
  from Suc.prems(3) f r have "length w \<le> KFSW_COMMAND_MAX_TEXT_SIZE"
    "\<forall>w \<in> set (tokenise r rest). length w \<le> KFSW_COMMAND_MAX_TEXT_SIZE" by (auto simp: next_field_tokenise)
  with Suc.IH [OF f(3) r(2)] f r show ?case by (auto simp: next_field_tokenise split: sum.splits)
qed

lemma find_args:
  assumes "kfsw_command_find (Some n) Dest reg = Inr info" and "registry_good capacity (registry reg)"
  shows "unat (ci_arg_count info) \<le> KFSW_COMMAND_MAX_ARGS"
proof -
  from assms(1) obtain d where d: "find_by_name n (registry reg) = Some d" "info = describe d"
    by (auto simp: kfsw_command_find_def split: if_splits option.splits)
  then have "d \<in> set (registry reg)" by (auto simp: find_by_name_def find_Some_iff)
  with assms(2) d show ?thesis
    by (auto simp: registry_good_def command_valid_def describe_def command_sizes)
qed

lemma check_action_build:
  assumes "check_action u l reg action = None" and "registry_good capacity (registry reg)"
    and "\<forall>w \<in> set (tokenise (KFSW_COMMAND_MAX_ARGS + 2) action). length w \<le> KFSW_COMMAND_MAX_TEXT_SIZE"
  shows "\<exists>info args. build u l reg action = Inr (info, args)"
proof -
  from assms(1) obtain w rest info where f: "next_field action = Some (w, rest)"
    "kfsw_command_find (Some w) Dest reg = Inr info"
    "check_action_arguments u l (unat (ci_arg_count info)) (case ci_arg_types info of None \<Rightarrow> [] | Some types \<Rightarrow> types) rest = None"
    by (auto simp: check_action_def split: if_splits option.splits sum.splits)
  have tok: "tokenise (KFSW_COMMAND_MAX_ARGS + 2) action = w # tokenise (KFSW_COMMAND_MAX_ARGS + 1) rest"
    using f(1) next_field_tokenise [of "KFSW_COMMAND_MAX_ARGS + 1" action] by simp
  have n: "unat (ci_arg_count info) \<le> KFSW_COMMAND_MAX_ARGS" by (rule find_args [OF f(2) assms(2)])
  from assms(3) tok have "\<forall>w \<in> set (tokenise (KFSW_COMMAND_MAX_ARGS + 1) rest). length w \<le> KFSW_COMMAND_MAX_TEXT_SIZE"
    by simp
  from check_arguments_parse [OF f(3) _ this, of EINVAL] n obtain args where a:
    "length (tokenise (KFSW_COMMAND_MAX_ARGS + 1) rest) = unat (ci_arg_count info)"
    "parse_args EINVAL u l (tokenise (KFSW_COMMAND_MAX_ARGS + 1) rest)
       (case ci_arg_types info of None \<Rightarrow> [] | Some types \<Rightarrow> types) = Inr args" by auto
  with n f(2) show ?thesis by (simp add: build_def Let_def tok [simplified])
qed

lemma queue_takes_action:
  assumes "check_action (fb_ulong_max fbo) (fb_long_max fbo) (fb_registry fbo) action = None"
    and "registry_good capacity (registry (fb_registry fbo))" and "action \<noteq> []" and "fb_command_csp fbo \<or> node = 0"
    and "\<forall>w \<in> set (tokenise (KFSW_COMMAND_MAX_ARGS + 2) action). length w \<le> KFSW_COMMAND_MAX_TEXT_SIZE"
  shows "fst (kfsw_fbo_schedule_add fbo (Some KFSW_FBO_TIME_RELATIVE) LIMITS_RELEASE_DELAY_S node (Some action) Dest
    clock uptime sched) \<in> {None, Some EEXIST, Some ENOSPC}"
proof -
  obtain info args where b: "build (fb_ulong_max fbo) (fb_long_max fbo) (fb_registry fbo) action = Inr (info, args)"
    using check_action_build [OF assms(1,2,5)] by blast
  have "length action < KFSW_FBO_SCHEDULE_LINE_MAX" using assms(1) by (simp add: check_action_def split: if_splits)
  then show ?thesis
    using assms(3,4) b
    by (auto simp: kfsw_fbo_schedule_add_def terminated_within_def LIMITS_RELEASE_DELAY_S_def
        KFSW_FBO_SCHEDULE_DELAY_MAX_S_def add_locked_def Let_def split: option.splits)
qed

text \<open>What a parsed line establishes.\<close>

lemma parse_unsigned_bound: "parse_unsigned u text maximum = Some n \<Longrightarrow> 0 \<le> maximum \<Longrightarrow> int n \<le> maximum"
  by (auto simp: parse_unsigned_def split: if_splits option.splits)

lemma parse_text_scalar:
  "is_numeric (pv_type v) \<Longrightarrow> kfsw_param_parse_text cfg text v = (None, v') \<Longrightarrow> v' = v\<lparr>pv_scalar := pv_scalar v'\<rparr>"
  by (cases "pv_type v")
    (auto simp: kfsw_param_parse_text_def is_numeric_def store_unsigned_def store_signed_def Let_def
      split: if_splits option.splits prod.splits)

lemma parse_line_loaded:
  assumes "parse_line env params text = Inr rule"
  shows "loaded_rule env params rule"
proof -
  from assms obtain words cursor r1 r2 where p: "trim_blanks cursor \<noteq> []"
    "parse_watch params (words ! 0) (words ! 1) zero_rule = Inr r1" "parse_bound (le_params env) (words ! 2) r1 = Inr r2"
    "parse_target (le_fbo env) (words ! 3) (words ! 4) (trim_blanks cursor) r2 = Inr rule"
    by (auto simp: parse_line_def Let_def split: option.splits if_splits sum.splits)
  obtain info c where w: "kfsw_param_get_info (Some (words ! 0)) Dest params = Inr info" "is_numeric (pi_type info)"
    "is_float (pi_type info) \<longrightarrow> c \<notin> {KFSW_LIMITS_EQ, KFSW_LIMITS_NE}"
    "r1 = zero_rule\<lparr>lr_parameter := words ! 0, lr_type := pi_type info, lr_cmp := c\<rparr>"
    using p(2) by (auto simp: parse_watch_def split: option.splits if_splits sum.splits)
  obtain v where b: "kfsw_param_parse_text (le_params env) (words ! 2) (zero_value (le_params env) (lr_type r1) 0) = (None, v)"
    "r2 = r1\<lparr>lr_bound := pv_scalar v, lr_bound_text := words ! 2\<rparr>"
    using p(3) by (auto simp: parse_bound_def split: option.splits if_splits prod.splits)
  obtain d n where t: "0 < d" "d \<le> 255" "fb_command_csp (le_fbo env) \<or> n = 0"
    "check_action (fb_ulong_max (le_fbo env)) (fb_long_max (le_fbo env)) (fb_registry (le_fbo env)) (trim_blanks cursor) = None"
    "rule = r2\<lparr>lr_dwell := word_of_nat d, lr_node := word_of_nat n, lr_action := trim_blanks cursor\<rparr>"
    using p(4) parse_unsigned_bound [of "fb_ulong_max (le_fbo env)" "words ! 3" 255]
    by (auto simp: parse_target_def KFSW_LIMITS_DWELL_MAX_def split: option.splits if_splits)
  have "(0::u8) < word_of_nat d" using t(1,2) by (simp add: word_less_nat_alt unat_of_nat)
  moreover have "v = (zero_value (le_params env) (pi_type info) 0)\<lparr>pv_scalar := pv_scalar v\<rparr>"
    using parse_text_scalar [OF _ b(1)] w(2,4) by (simp add: zero_value_def)
  ultimately show ?thesis using w b t p(1) by (auto simp: loaded_rule_def zero_rule_def)
qed

lemma stage_line_loaded:
  "stage_line env params too_long line staged = Inr staged' \<Longrightarrow> \<forall>r \<in> set staged. loaded_rule env params r \<Longrightarrow>
   \<forall>r \<in> set staged'. loaded_rule env params r"
  by (auto simp: stage_line_def Let_def loaded_rule_def [of _ _ "lr_index_update _ _"] split: if_splits sum.splits
      dest!: parse_line_loaded simp: loaded_rule_def)

lemma parse_lines_loaded:
  "parse_lines env params path room number staged f = (Inr rules, f') \<Longrightarrow> \<forall>r \<in> set staged. loaded_rule env params r \<Longrightarrow>
   \<forall>r \<in> set rules. loaded_rule env params r"
proof (induction env params path room number staged f rule: parse_lines.induct)
  case (1 env params path room number staged f)
  from "1.prems"(1) obtain too_long line at_end room' f1 staged' where s:
    "limits_read_line (le_files env) path room [] False f = (Inr (too_long, line, at_end), room', f1)"
    "stage_line env params too_long line staged = Inr staged'"
    "if at_end then rules = staged' else parse_lines env params path room' (number + 1) staged' f1 = (Inr rules, f')"
    by (subst (asm) parse_lines.simps) (auto split: prod.splits sum.splits if_splits)
  note l = stage_line_loaded [OF s(2) "1.prems"(2)]
  show ?case
  proof (cases at_end)
    case False
    with s(3) l "1.IH" [OF s(1) [symmetric] refl refl refl refl s(2) False] show ?thesis by simp
  qed (use s(3) l in simp)
qed

section \<open>Lemmas on the file\<close>

lemma file_lines_unfold:
  "file_lines data = (length (line_of data) \<ge> LIMITS_LINE_BYTES, take (LIMITS_LINE_BYTES - 1) (line_of data))
     # (if after_line data = [] then [] else file_lines (tl (after_line data)))"
  by (subst file_lines.simps) (simp add: Let_def line_of_def after_line_def)

lemma line_of_simps [simp]:
  "line_of [] = []"
  "line_of (b # bs) = (if char_of_byte b = CHR 0x0A then []
     else if char_of_byte b = CHR 0x0D then line_of bs else char_of_byte b # line_of bs)"
  "after_line [] = []"
  "after_line (b # bs) = (if char_of_byte b = CHR 0x0A then b # bs else after_line bs)"
  by (simp_all add: line_of_def after_line_def)

text \<open>Reading a line from a file that can be read, byte by byte, takes its next line.\<close>

lemma read_byte:
  assumes "fs_lawful ops contents position" and "fs_readable ops contents path" and "contents f path = Some c"
  shows "\<exists>f'. fs_read ops path 1 f = (Inr (take 1 (drop (position f path) c)), f') \<and> contents f' path = Some c
    \<and> drop (position f' path) c = drop 1 (drop (position f path) c)"
proof -
  obtain f' where r: "fs_read ops path 1 f = (Inr (take 1 (drop (position f path) c)), f')" "contents f' path = Some c"
    "position f' path = position f path + length (take 1 (drop (position f path) c))"
    using readable_read [OF assms] by blast
  have "drop (position f' path) c = drop 1 (drop (position f path) c)"
    using r(3) by (cases "drop (position f path) c") (auto simp: drop_Suc tl_drop [symmetric])
  with r show ?thesis by simp
qed

lemma read_line_lawful:
  assumes law: "fs_lawful ops contents position" and ok: "fs_readable ops contents path"
  shows "contents f path = Some c \<Longrightarrow> drop (position f path) c = data \<Longrightarrow> length data \<le> room \<Longrightarrow>
    length text < LIMITS_LINE_BYTES \<Longrightarrow>
    \<exists>room' f'. limits_read_line ops path room text too_long f =
        (Inr (too_long \<or> length (text @ line_of data) \<ge> LIMITS_LINE_BYTES,
              take (LIMITS_LINE_BYTES - 1) (text @ line_of data), after_line data = []), room', f')
      \<and> contents f' path = Some c \<and> drop (position f' path) c = tl (after_line data) \<and> length (tl (after_line data)) \<le> room'"
proof (induction data arbitrary: f room "text" too_long)
  case Nil
  from read_byte [OF law ok Nil(1)] obtain f' where "fs_read ops path 1 f = (Inr [], f')" "contents f' path = Some c"
    "drop (position f' path) c = []" using Nil(2) by auto
  then show ?case using Nil by (subst limits_read_line.simps) simp
next
  case (Cons b bs)
  obtain left where room: "room = Suc left" "length bs \<le> left" using Cons.prems(3) by (cases room) auto
  from read_byte [OF law ok Cons.prems(1)] obtain f1 where r: "fs_read ops path 1 f = (Inr [b], f1)" "contents f1 path = Some c"
    "drop (position f1 path) c = bs" using Cons.prems(2) by auto
  note IH = Cons.IH [OF r(2,3) room(2)]
  let ?c = "char_of_byte b"
  consider "?c = CHR 0x0A" | "?c = CHR 0x0D" | "?c \<noteq> CHR 0x0A" "?c \<noteq> CHR 0x0D" "length text + 1 < LIMITS_LINE_BYTES"
    | "?c \<noteq> CHR 0x0A" "?c \<noteq> CHR 0x0D" "length text + 1 = LIMITS_LINE_BYTES" using Cons.prems(4) by linarith
  then show ?case
  proof cases
    case 1
    with r room Cons.prems(4) show ?thesis by (subst limits_read_line.simps) simp
  next
    case 2
    with IH [OF Cons.prems(4), of too_long] r room show ?thesis by (subst limits_read_line.simps) (simp add: Let_def)
  next
    case 3
    with IH [of "text @ [?c]" too_long] r room show ?thesis by (subst limits_read_line.simps) (simp add: Let_def)
  next
    case 4
    with IH [OF Cons.prems(4), of True] r room show ?thesis
      by (subst limits_read_line.simps) (auto simp: Let_def LIMITS_LINE_BYTES_def)
  qed
qed

lemma parse_lines_stages:
  assumes law: "fs_lawful (le_files env) contents position"
    and ok: "fs_readable (le_files env) contents path"
  shows "contents f path = Some c \<Longrightarrow> length (drop (position f path) c) \<le> room \<Longrightarrow>
    fst (parse_lines env params path room number staged f) = stage_lines env params number (file_lines (drop (position f path) c)) staged"
proof (induction "drop (position f path) c" arbitrary: f room number staged rule: length_induct)
  case 1
  let ?data = "drop (position f path) c"
  from read_line_lawful [OF law ok 1(2) refl 1(3), of "[]" False] obtain room' f' where r:
    "limits_read_line (le_files env) path room [] False f =
       (Inr (length (line_of ?data) \<ge> LIMITS_LINE_BYTES, take (LIMITS_LINE_BYTES - 1) (line_of ?data), after_line ?data = []), room', f')"
    "contents f' path = Some c" "drop (position f' path) c = tl (after_line ?data)" "length (tl (after_line ?data)) \<le> room'"
    by (auto simp: LIMITS_LINE_BYTES_def)
  have shorter: "length (tl (after_line ?data)) < length ?data" if "after_line ?data \<noteq> []"
    using that length_dropWhile_le [of "\<lambda>b. char_of_byte b \<noteq> CHR 0x0A" ?data]
    unfolding after_line_def by (cases "dropWhile (\<lambda>b. char_of_byte b \<noteq> CHR 0x0A) ?data") simp_all
  show ?case
  proof (cases "after_line ?data = []")
    case True
    with r(1) show ?thesis
      by (subst parse_lines.simps, subst file_lines_unfold) (auto split: sum.splits)
  next
    case False
    with 1(1) shorter r(2-4) have IH: "fst (parse_lines env params path room' n s f') =
        stage_lines env params n (file_lines (tl (after_line ?data))) s" for n s by (metis)
    from r(1) False show ?thesis
      by (subst parse_lines.simps, subst file_lines_unfold) (auto simp: IH split: sum.splits)
  qed
qed

section \<open>Lemmas on sweeps\<close>

lemma with_limits_simps [simp]:
  "ln_limits (with_limits g nd) = g (ln_limits nd)" "ln_params (with_limits g nd) = ln_params nd"
  "ln_schedule (with_limits g nd) = ln_schedule nd"
  "ln_limits (with_limits_status h nd) = (ln_limits nd)\<lparr>ls_status := h (ls_status (ln_limits nd))\<rparr>"
  "ln_params (with_limits_status h nd) = ln_params nd" "ln_schedule (with_limits_status h nd) = ln_schedule nd"
  by (simp_all add: with_limits_def with_limits_status_def)

lemma release_frame:
  "ls_rules (ln_limits (snd (limits_release env uptime now_ms rule nd))) = ls_rules (ln_limits nd)"
  by (simp add: limits_release_def note_failure_def Let_def split: prod.split)

lemma release_queue:
  "ln_schedule (snd (limits_release env uptime now_ms rule nd)) = snd (snd (add_action env uptime rule (ln_schedule nd)))"
  "fst (limits_release env uptime now_ms rule nd) \<longleftrightarrow> fst (add_action env uptime rule (ln_schedule nd)) \<in> {None, Some EEXIST}"
  by (simp_all add: limits_release_def note_failure_def add_action_def Let_def split: prod.split)

text \<open>One evaluation, by what it sees.\<close>

lemma next_streak_simps [simp]:
  "lr_latched (next_streak rule) = lr_latched rule" "lr_dwell (next_streak rule) = lr_dwell rule"
  "lr_node (next_streak rule) = lr_node rule" "lr_action (next_streak rule) = lr_action rule"
  "lr_parameter (next_streak rule) = lr_parameter rule"
  by (simp_all add: next_streak_def)

lemma unat_next_streak: "unat (lr_streak (next_streak rule)) = min 255 (unat (lr_streak rule) + 1)"
proof -
  have "unat (lr_streak rule) < 256" by (rule unat_u8_bound)
  then show ?thesis
    by (auto simp: next_streak_def word_less_nat_alt unat_word_ariths)
qed

lemma evaluate_cases:
  "evaluate env uptime now_ms rule nd =
     (let params = snd (kfsw_param_get (le_params env) (Some (lr_parameter rule)) Dest (ln_params nd));
          nd1 = nd\<lparr>ln_params := params\<rparr>
      in case sighting_of env rule nd of
           Clear \<Rightarrow> (rule\<lparr>lr_streak := 0, lr_latched := False\<rparr>, nd1)
         | Held \<Rightarrow> if tries rule
             then (case limits_release env uptime now_ms (next_streak rule) nd1 of
                     (latched, nd2) \<Rightarrow> ((next_streak rule)\<lparr>lr_latched := latched\<rparr>, nd2))
             else (next_streak rule, nd1)
         | _ \<Rightarrow> (rule, note_failure nd1))"
  unfolding evaluate_def next_streak_def [symmetric] Let_def
  by (cases "kfsw_param_get (le_params env) (Some (lr_parameter rule)) Dest (ln_params nd)")
    (simp add: sighting_of_def tries_def split: sum.split)

lemma evaluate_frame:
  "ls_rules (ln_limits (snd (evaluate env uptime now_ms rule nd))) = ls_rules (ln_limits nd)"
  "lr_dwell (fst (evaluate env uptime now_ms rule nd)) = lr_dwell rule"
  using release_frame [of env uptime now_ms "next_streak rule"
      "nd\<lparr>ln_params := snd (kfsw_param_get (le_params env) (Some (lr_parameter rule)) Dest (ln_params nd))\<rparr>"]
  by (auto simp: evaluate_cases Let_def note_failure_def split: sighting.split prod.split)

lemma evaluate_at_frame:
  "length (ls_rules (ln_limits (evaluate_at env clock i nd))) = length (ls_rules (ln_limits nd))"
  "j \<noteq> i \<Longrightarrow> nth_rule j (evaluate_at env clock i nd) = nth_rule j nd"
  "i < length (ls_rules (ln_limits nd)) \<Longrightarrow> nth_rule i (evaluate_at env clock i nd) =
     fst (evaluate env (fst (clock i)) (snd (clock i)) (nth_rule i nd) nd)"
  using evaluate_frame(1) [of env "fst (clock i)" "snd (clock i)" "ls_rules (ln_limits nd) ! i" nd]
  by (auto simp: evaluate_at_def nth_rule_def split: prod.split)

lemma sweep_at_Suc: "sweep_at env clock (Suc i) nd = evaluate_at env clock i (sweep_at env clock i nd)"
  by (simp add: sweep_at_def)

lemma sweep_at_frame:
  "length (ls_rules (ln_limits (sweep_at env clock n nd))) = length (ls_rules (ln_limits nd))"
  "n \<le> i \<Longrightarrow> nth_rule i (sweep_at env clock n nd) = nth_rule i nd"
  "i < n \<Longrightarrow> nth_rule i (sweep_at env clock n nd) = nth_rule i (sweep_at env clock (Suc i) nd)"
proof (induction n)
  case (Suc n)
  { case 1 show ?case by (simp add: sweep_at_Suc evaluate_at_frame Suc)
  next
    case 2 then show ?case by (simp add: sweep_at_Suc evaluate_at_frame Suc)
  next
    case 3 then show ?case using Suc(3) by (cases "i = n") (simp_all add: sweep_at_Suc evaluate_at_frame) }
qed (simp_all add: sweep_at_def)

lemma sweep_rules:
  assumes "i < length (ls_rules (ln_limits nd))"
  shows "nth_rule i (snd (kfsw_limits_sweep env clock nd)) =
    (if ls_enabled (ln_limits nd) = 0 then (nth_rule i nd)\<lparr>lr_streak := 0\<rparr>
     else fst (evaluate env (fst (clock i)) (snd (clock i)) (nth_rule i nd) (sweep_at env clock i nd)))"
proof (cases "ls_enabled (ln_limits nd) = 0")
  case False
  have "nth_rule i (snd (kfsw_limits_sweep env clock nd)) = nth_rule i (sweep_at env clock (length (ls_rules (ln_limits nd))) nd)"
    using False by (simp add: kfsw_limits_sweep_def sweep_at_def nth_rule_def Let_def)
  also have "\<dots> = nth_rule i (sweep_at env clock (Suc i) nd)" using assms by (rule sweep_at_frame)
  finally show ?thesis using False assms by (simp add: sweep_at_Suc evaluate_at_frame sweep_at_frame)
qed (use assms in \<open>simp add: kfsw_limits_sweep_def nth_rule_def\<close>)

lemma sweep_length:
  "length (ls_rules (ln_limits (snd (kfsw_limits_sweep env clock nd)))) = length (ls_rules (ln_limits nd))"
  using sweep_at_frame(1) [of env clock "length (ls_rules (ln_limits nd))" nd]
  by (simp add: kfsw_limits_sweep_def sweep_at_def Let_def)

text \<open>The log of a rule and its streak and latch.\<close>

lemma log_snoc:
  "held_run (log @ [(s, b)]) = (case s of Held \<Rightarrow> held_run log + 1 | Unread \<Rightarrow> held_run log | _ \<Rightarrow> 0)"
  "released (log @ [(s, b)]) \<longleftrightarrow> s \<noteq> Clear \<and> (b \<or> released log)"
  by (cases s; auto simp: held_run_def released_def)+


lemma fire_ok_prefix:
  assumes "k < length log"
  shows "fire_ok dwell (log @ [e]) k = fire_ok dwell log k"
proof -
  have "(log @ [e]) ! j = log ! j" if "j \<le> k" for j using that assms by (simp add: nth_append)
  with assms show ?thesis by (simp add: fire_ok_def cong: conj_cong)
qed

lemma fires_apart_snoc:
  "fires_apart dwell (log @ [e]) \<longleftrightarrow> fires_apart dwell log
     \<and> (snd e \<longrightarrow> fst e = Held \<and> dwell \<le> held_run (log @ [e])
          \<and> (\<forall>j < length log. snd (log ! j) \<longrightarrow> (\<exists>m. j < m \<and> m < length log \<and> fst (log ! m) = Clear)))"
proof -
  have "fire_ok dwell (log @ [e]) (length log) \<longleftrightarrow> (snd e \<longrightarrow> fst e = Held \<and> dwell \<le> held_run (log @ [e])
          \<and> (\<forall>j < length log. snd (log ! j) \<longrightarrow> (\<exists>m. j < m \<and> m < length log \<and> fst (log ! m) = Clear)))"
    by (simp add: fire_ok_def nth_append cong: conj_cong)
  then show ?thesis by (auto simp: fires_apart_def fire_ok_prefix less_Suc_eq)
qed

lemma sighting_not_idle: "sighting_of env rule nd \<noteq> Idle"
  by (simp add: sighting_of_def split: sum.split)

lemma released_apart:
  "\<not> released log \<Longrightarrow> fires_apart dwell log \<Longrightarrow> j < length log \<Longrightarrow> snd (log ! j) \<Longrightarrow>
   \<exists>m. j < m \<and> m < length log \<and> fst (log ! m) = Clear"
proof (induction log rule: rev_induct)
  case (snoc e log)
  obtain s b where e: "e = (s, b)" by (cases e)
  show ?case
  proof (cases "j = length log")
    case True
    with snoc.prems e have "s = Held" "b" by (auto simp: fires_apart_snoc)
    with snoc.prems(1) e show ?thesis by (simp add: log_snoc)
  next
    case False
    then have j: "j < length log" "snd (log ! j)" using snoc.prems(3,4) by (simp_all add: nth_append)
    show ?thesis
    proof (cases "s = Clear")
      case True
      with j e show ?thesis by (intro exI [of _ "length log"]) simp
    next
      case False
      with snoc.prems(1) e have "\<not> released log" by (simp add: log_snoc)
      from snoc.IH [OF this _ j] snoc.prems(2) obtain m where "j < m" "m < length log" "fst (log ! m) = Clear"
        by (auto simp: fires_apart_snoc)
      then show ?thesis by (intro exI [of _ m]) (simp add: nth_append)
    qed
  qed
qed simp

text \<open>One more sweep keeps log and rule together.\<close>

lemma tries_log:
  assumes "rule_logged rule log" and "0 < lr_dwell rule"
  shows "tries rule \<longleftrightarrow> unat (lr_dwell rule) \<le> held_run (log @ [(Held, b)]) \<and> \<not> released log"
proof -
  have "unat (lr_dwell rule) < 256" by (rule unat_u8_bound)
  with assms show ?thesis
    by (auto simp: tries_def rule_logged_def word_le_nat_alt unat_next_streak log_snoc)
qed

lemma evaluate_logged:
  assumes inv: "rule_logged rule log" and pos: "0 < lr_dwell rule" and sight: "s = sighting_of env rule nd"
  shows "rule_logged (fst (evaluate env uptime now_ms rule nd))
    (log @ [(s, \<not> lr_latched rule \<and> lr_latched (fst (evaluate env uptime now_ms rule nd)))])"
proof -
  have streak: "unat (lr_streak rule) = min 255 (held_run log)" and latch: "lr_latched rule = released log"
    and apart: "fires_apart (unat (lr_dwell rule)) log" using inv by (simp_all add: rule_logged_def)
  show ?thesis
  proof (cases s)
    case Held
    show ?thesis
    proof (cases "tries rule")
      case True
      then have "unat (lr_dwell rule) \<le> held_run (log @ [(Held, b)])" "\<not> released log" for b
        using tries_log [OF inv pos] by blast+
      with Held True streak latch apart released_apart [OF _ apart] show ?thesis
        by (auto simp: evaluate_cases sight [symmetric] Let_def rule_logged_def unat_next_streak fires_apart_snoc log_snoc
            split: prod.split)
    next
      case False
      with Held streak latch apart show ?thesis
        by (auto simp: evaluate_cases sight [symmetric] Let_def rule_logged_def unat_next_streak fires_apart_snoc log_snoc)
    qed
  qed (use sighting_not_idle [of env rule nd] streak latch apart in \<open>auto simp: evaluate_cases sight [symmetric] Let_def rule_logged_def fires_apart_snoc log_snoc\<close>)
qed

lemma sweep_logged:
  assumes "rule_logged (nth_rule i nd) log" and "0 < lr_dwell (nth_rule i nd)" and "i < length (ls_rules (ln_limits nd))"
  shows "rule_logged (nth_rule i (snd (kfsw_limits_sweep env clock nd))) (log @ [observe env clock i nd])
    \<and> lr_dwell (nth_rule i (snd (kfsw_limits_sweep env clock nd))) = lr_dwell (nth_rule i nd)"
proof (cases "ls_enabled (ln_limits nd) = 0")
  case True
  with assms show ?thesis
    by (auto simp: sweep_rules observe_def rule_logged_def log_snoc fires_apart_snoc)
next
  case False
  have "nth_rule i (sweep_at env clock i nd) = nth_rule i nd" by (simp add: sweep_at_frame)
  with False assms evaluate_logged [OF assms(1,2) refl, of env "fst (clock i)" "snd (clock i)" "sweep_at env clock i nd"]
  show ?thesis
    by (simp add: sweep_rules observe_def evaluate_frame sweep_at_Suc evaluate_at_frame sweep_at_frame)
qed

lemma load_cases:
  assumes "kfsw_limits_load env name nd = (result, nd')"
  shows "ln_params nd' = ln_params nd \<and> ln_schedule nd' = ln_schedule nd \<and> ln_event nd' = ln_event nd
    \<and> (result \<noteq> None \<longrightarrow> ls_rules (ln_limits nd') = ls_rules (ln_limits nd))
    \<and> (result = None \<longrightarrow> (\<forall>r \<in> set (ls_rules (ln_limits nd')). loaded_rule env (ln_params nd) r))"
proof -
  have parsed: "\<forall>r \<in> set rules. loaded_rule env (ln_params nd) r"
    if "parse_file env (ln_params nd) path f = (Inr rules, f')" for path f rules f'
    using parse_lines_loaded that unfolding parse_file_def by fastforce
  show ?thesis
    using assms parsed
    by (auto simp: kfsw_limits_load_def Let_def adopt_rules_def split: option.splits if_splits prod.splits sum.splits)
qed

lemma history_logged:
  "limits_history env nd logs \<Longrightarrow> length logs = length (ls_rules (ln_limits nd))
     \<and> (\<forall>i < length logs. rule_logged (nth_rule i nd) (logs ! i) \<and> 0 < lr_dwell (nth_rule i nd))"
proof (induction rule: limits_history.induct)
  case (Load name nd0 nd)
  have "rule_logged r [] \<and> 0 < lr_dwell r" if "r \<in> set (ls_rules (ln_limits nd))" for r
    using load_cases [OF Load] that
    by (auto simp: loaded_rule_def rule_logged_def held_run_def released_def fires_apart_def)
  then show ?case by (simp add: nth_rule_def)
next
  case (Other nd logs nd')
  then show ?case by (simp add: nth_rule_def)
next
  case (Sweep nd logs clock)
  then show ?case using sweep_logged by (fastforce simp: sweep_length)
qed

text \<open>What an evaluation does to the queue.\<close>

lemma evaluate_at_queue:
  assumes "i < length (ls_rules (ln_limits nd))"
  shows "if sighting_of env (nth_rule i nd) nd = Held \<and> tries (nth_rule i nd)
    then ln_schedule (evaluate_at env clock i nd) = snd (snd (add_action env (fst (clock i)) (nth_rule i nd) (ln_schedule nd)))
       \<and> (lr_latched (nth_rule i (evaluate_at env clock i nd)) \<longleftrightarrow>
            fst (add_action env (fst (clock i)) (nth_rule i nd) (ln_schedule nd)) \<in> {None, Some EEXIST})
    else ln_schedule (evaluate_at env clock i nd) = ln_schedule nd"
proof -
  let ?rule = "nth_rule i nd" and ?params = "snd (kfsw_param_get (le_params env) (Some (lr_parameter (nth_rule i nd))) Dest (ln_params nd))"
  note q = release_queue [of env "fst (clock i)" "snd (clock i)" "next_streak ?rule" "nd\<lparr>ln_params := ?params\<rparr>"]
  have same: "add_action env (fst (clock i)) (next_streak ?rule) = add_action env (fst (clock i)) ?rule"
    by (simp add: add_action_def fun_eq_iff)
  have "ln_schedule (evaluate_at env clock i nd) = ln_schedule (snd (evaluate env (fst (clock i)) (snd (clock i)) ?rule nd))"
    by (simp add: evaluate_at_def nth_rule_def split: prod.split)
  with assms q same show ?thesis
    by (auto simp: evaluate_at_frame evaluate_cases Let_def note_failure_def split: sighting.split prod.split)
qed

text \<open>The example is evaluated once: its load, and two sweeps behind it.\<close>

lemma demo_evaluated:
  "case kfsw_limits_load demo_limits_env (Some ''rules'') (demo_limits_node demo_rules) of (result, nd) \<Rightarrow>
     result = None \<and> length (ls_rules (ln_limits nd)) = 1 \<and> lr_action (nth_rule 0 nd) = ''tick''
     \<and> observe demo_limits_env demo_clock 0 nd = (Held, False)
     \<and> (case kfsw_limits_sweep demo_limits_env demo_clock nd of (count, swept) \<Rightarrow>
          observe demo_limits_env demo_clock 0 swept = (Held, True)
          \<and> (case kfsw_limits_sweep demo_limits_env demo_clock swept of (count, twice) \<Rightarrow>
               ls_enabled (ln_limits twice) = 1 \<and> lr_dwell (nth_rule 0 twice) = 2))"
  by code_simp

lemma demo_load: "kfsw_limits_load demo_limits_env (Some ''rules'') (demo_limits_node demo_rules) = (None, demo_loaded)"
  using demo_evaluated by (auto simp: demo_loaded_def split: prod.splits)

lemma demo_rules_loaded:
  "length (ls_rules (ln_limits demo_loaded)) = 1" "lr_action (nth_rule 0 demo_loaded) = ''tick''"
  "observe demo_limits_env demo_clock 0 demo_loaded = (Held, False)"
  using demo_evaluated by (simp_all add: demo_load)

lemma demo_swept:
  defines "swept \<equiv> \<lambda>nd. snd (kfsw_limits_sweep demo_limits_env demo_clock nd)"
  shows "observe demo_limits_env demo_clock 0 (swept demo_loaded) = (Held, True)"
    "ls_enabled (ln_limits (swept (swept demo_loaded))) = 1" "lr_dwell (nth_rule 0 (swept (swept demo_loaded))) = 2"
  using demo_evaluated by (simp_all add: demo_load swept_def case_prod_beta)

section \<open>Properties\<close>

text \<open>
  C38. A rule file is read as its lines and taken as a whole. When the file can be opened and read and is not
  longer than the limit, a load splits it at its line feeds, stages the lines one after the other up to the
  first that is refused, and puts the staged rules in force only if none is; otherwise the rules in force stay
  and the status names the line and the reason.\<close>

theorem limits_load_follows_file:
  assumes "fs_lawful (le_files env) contents position"
    and "fs_readable (le_files env) contents (limits_path (le_root env) n)"
    and "contents (ln_files nd) (limits_path (le_root env) n) = Some c" and "length c \<le> LIMITS_FILE_BYTES_MAX env"
    and "n \<noteq> []" and "length n < KFSW_FBO_NAME_MAX" and "CHR ''/'' \<notin> set n" and "\<not> has_dots n"
  shows "\<exists>f'. kfsw_limits_load env (Some n) nd =
    (case adopt_rules (stage_lines env (ln_params nd) 0 (file_lines c) []) (ln_limits nd) of
       (result, l) \<Rightarrow> (result, nd\<lparr>ln_files := f', ln_limits := l\<rparr>))"
proof -
  let ?path = "limits_path (le_root env) n"
  obtain f1 where o: "fs_open (le_files env) ?path FS_READ (ln_files nd) = (None, f1)" "contents f1 ?path = Some c"
    "position f1 ?path = 0" using readable_open [OF assms(1-3)] by blast
  obtain r f2 where p: "parse_file env (ln_params nd) ?path f1 = (r, f2)" by fastforce
  have "r = stage_lines env (ln_params nd) 0 (file_lines c) []"
    using parse_lines_stages [OF assms(1,2) o(2), of "LIMITS_FILE_BYTES_MAX env" "ln_params nd" 0 "[]"] o(3) assms(4) p
    by (simp add: parse_file_def)
  moreover have "storage_ready (le_files env) (ln_files nd)" using assms(2) by (simp add: fs_readable_def)
  ultimately show ?thesis
    using assms(5-8) o(1) p
    by (auto simp: kfsw_limits_load_def terminated_within_def Let_def split: prod.split)
qed

theorem limits_load_follows_file_witness:
  "\<exists>f'. kfsw_limits_load demo_limits_env (Some ''rules'') (demo_limits_node demo_rules) =
    (case adopt_rules (stage_lines demo_limits_env demo_state 0 (file_lines (bytes_of_string demo_rules)) [])
            (ln_limits (demo_limits_node demo_rules)) of
       (result, l) \<Rightarrow> (result, (demo_limits_node demo_rules)\<lparr>ln_files := f', ln_limits := l\<rparr>))"
proof -
  have files: "le_files demo_limits_env = ram_ops 0" by (simp add: demo_limits_env_def)
  have path: "limits_path (le_root demo_limits_env) ''rules'' = ''/ftp/limits/rules''" by code_simp
  have "rf_files (ln_files (demo_limits_node demo_rules)) ''/ftp/limits/rules'' = Some (bytes_of_string demo_rules)"
    by (simp add: demo_limits_node_def)
  moreover have "length (bytes_of_string demo_rules) \<le> LIMITS_FILE_BYTES_MAX demo_limits_env" by code_simp
  moreover have "\<not> has_dots ''rules''" "length ''rules'' < KFSW_FBO_NAME_MAX" "CHR ''/'' \<notin> set ''rules''" "''rules'' \<noteq> []"
    by (simp_all add: KFSW_FBO_NAME_MAX_def)
  moreover have "ln_params (demo_limits_node demo_rules) = demo_state" by (simp add: demo_limits_node_def)
  ultimately show ?thesis
    using limits_load_follows_file [of demo_limits_env rf_files rf_position "''rules''" "demo_limits_node demo_rules"
      "bytes_of_string demo_rules", unfolded path files, OF ram_lawful ram_readable] by metis
qed



text \<open>
  C11. A rule fires once per crossing. In every history of a loaded rule set, whatever happens to the parameters,
  the queue and the switch between the sweeps, a rule fired only in sweeps that ended a run of at least its dwell
  of sweeps in which the comparison held, and between two firings it was once seen not to hold. In the next
  sweep it asks the queue exactly if the comparison holds, has held for the dwell, and the rule has not
  fired since it last did not hold; it latches exactly if the queue takes the action or has it waiting, so
  that a refused action is tried again.\<close>

theorem limits_fires_once_per_crossing:
  assumes "limits_history env nd logs" and "i < length (ls_rules (ln_limits nd))" and "ls_enabled (ln_limits nd) \<noteq> 0"
  shows "fires_apart (unat (lr_dwell (nth_rule i nd))) (logs ! i)
    \<and> (let here = sweep_at env clock i nd; behind = sweep_at env clock (Suc i) nd;
           seen = sighting_of env (nth_rule i nd) here;
           added = add_action env (fst (clock i)) (nth_rule i nd) (ln_schedule here)
       in if seen = Held \<and> unat (lr_dwell (nth_rule i nd)) \<le> held_run (logs ! i @ [(seen, False)]) \<and> \<not> released (logs ! i)
          then ln_schedule behind = snd (snd added) \<and> (lr_latched (nth_rule i behind) \<longleftrightarrow> fst added \<in> {None, Some EEXIST})
          else ln_schedule behind = ln_schedule here)"
proof -
  have inv: "rule_logged (nth_rule i nd) (logs ! i)" "0 < lr_dwell (nth_rule i nd)"
    using history_logged [OF assms(1)] assms(2) by auto
  let ?here = "sweep_at env clock i nd"
  have behind: "sweep_at env clock (Suc i) nd = evaluate_at env clock i ?here" by (rule sweep_at_Suc)
  have rule: "nth_rule i ?here = nth_rule i nd" "i < length (ls_rules (ln_limits ?here))"
    using assms(2) by (simp_all add: sweep_at_frame)
  note step = evaluate_at_queue [OF rule(2), of env clock, unfolded rule(1)]
  have due: "sighting_of env (nth_rule i nd) ?here = Held \<and> tries (nth_rule i nd) \<longleftrightarrow>
      sighting_of env (nth_rule i nd) ?here = Held \<and> unat (lr_dwell (nth_rule i nd))
        \<le> held_run (logs ! i @ [(sighting_of env (nth_rule i nd) ?here, False)]) \<and> \<not> released (logs ! i)"
    by (auto simp: tries_log [OF inv, of False])
  from inv(1) have "fires_apart (unat (lr_dwell (nth_rule i nd))) (logs ! i)" by (simp add: rule_logged_def)
  with step show ?thesis unfolding behind Let_def due by blast
qed

theorem limits_fires_once_per_crossing_witness:
  "\<exists>(nd :: (unit, ram_fs) limits_node) logs. limits_history demo_limits_env nd logs \<and> logs = [[(Held, False), (Held, True)]] \<and> fires_apart 2 (logs ! 0)"
proof -
  let ?swept = "\<lambda>nd. snd (kfsw_limits_sweep demo_limits_env demo_clock nd)"
  let ?nd = "?swept (?swept demo_loaded)"
  have h0: "limits_history demo_limits_env demo_loaded [[]]"
    using limits_history.Load [OF demo_load] demo_rules_loaded(1) by (cases "ls_rules (ln_limits demo_loaded)") simp_all
  have h1: "limits_history demo_limits_env (?swept demo_loaded) [[(Held, False)]]"
    using limits_history.Sweep [OF h0, of demo_clock] by (simp add: demo_rules_loaded(3))
  have h2: "limits_history demo_limits_env ?nd [[(Held, False), (Held, True)]]"
    using limits_history.Sweep [OF h1, of demo_clock] by (simp add: demo_swept(1))
  have r: "0 < length (ls_rules (ln_limits ?nd))" "ls_enabled (ln_limits ?nd) \<noteq> 0"
    and d: "unat (lr_dwell (nth_rule 0 ?nd)) = 2"
    by (simp_all only: sweep_length demo_rules_loaded(1) demo_swept) simp_all
  have "fires_apart 2 ([[(Held, False), (Held, True)]] ! 0)"
    using limits_fires_once_per_crossing [OF h2 r, of demo_clock] unfolding d by (rule conjunct1)
  with h2 show ?thesis by blast
qed

end
