(* ===== verification/Journal.thy ===== *)
theory Journal
  imports Event Files Contracts
begin

text \<open>
  The event journal: \<^verbatim>\<open>src/journal/journal_store.c\<close>, a file of fixed-size records with a checksum each, addressed by
  their sequence numbers as a ring, and \<^verbatim>\<open>src/journal/journal.c\<close>, the queue in front of it, its writer and the
  reads. \<open>journal_store\<close> is \<open>struct kfsw_journal_store\<close>, \<open>journal_state\<close> the static variables of
  \<^verbatim>\<open>journal.c\<close> with the file system. The theorems: a record read from its bytes is the record that was encoded; an
  appended record is what a read returns and what is found after a reset, with everything else that was on
  the file; and a flush moves the queued events to the file in their order, none lost and none twice, also
  when it fails.
\<close>

section \<open>Data\<close>

definition KFSW_JOURNAL_PATH :: string where "KFSW_JOURNAL_PATH = ''/kfsw/journal.bin''"
definition KFSW_JOURNAL_HEADER_SIZE :: nat where "KFSW_JOURNAL_HEADER_SIZE = 16"
definition KFSW_JOURNAL_RECORD_SIZE :: nat where "KFSW_JOURNAL_RECORD_SIZE = 72"

lemmas journal_sizes = KFSW_JOURNAL_HEADER_SIZE_def KFSW_JOURNAL_RECORD_SIZE_def

record kfsw_journal_record =
  jr_sequence :: u64
  jr_boot :: u64
  jr_utc_seconds :: int
  jr_utc_valid :: bool
  jr_event :: kfsw_event_record

record kfsw_journal_stats =
  jst_held :: u16
  jst_queued :: u16
  jst_dropped :: u32
  jst_errors :: u32
  jst_corrupt :: u32
  jst_last_error :: rc
  jst_ready :: bool

record journal_store =
  js_sequences :: "u64 list"
  js_next_sequence :: u64
  js_highest_boot :: u64
  js_held :: u16
  js_corrupt :: u32
  js_ready :: bool

text \<open>The configuration: the file system, the CRC of the platform and the Kconfig values.\<close>

record 'f journal_env =
  je_files :: "'f fs_ops"
  je_crc32 :: "bytes \<Rightarrow> u32"
  je_capacity :: nat
  je_queue_depth :: nat
  je_min_severity :: u8

section \<open>Records\<close>

definition close_file :: "'f fs_ops \<Rightarrow> rc \<Rightarrow> 'f \<Rightarrow> rc \<times> 'f" where
  "close_file ops result f = (case fs_close ops KFSW_JOURNAL_PATH f of (closed, f1) \<Rightarrow> (first_error result closed, f1))"

text \<open>The first 68 bytes of a record; a payload size above the payload is refused before.\<close>

definition journal_body :: "kfsw_journal_record \<Rightarrow> bytes" where
  "journal_body r =
     (let e = jr_event r; n = unat (ev_payload_size e)
      in bytes_of_string ''KFE1'' @ [1, of_bool (jr_utc_valid r)] @ sys_put_be16 72
           @ sys_put_be64 (jr_sequence r) @ sys_put_be64 (jr_boot r) @ sys_put_be64 (ev_monotonic_us e)
           @ sys_put_be64 (word_of_int (jr_utc_seconds r)) @ sys_put_be32 (ev_sequence e)
           @ sys_put_be16 (ev_source e) @ sys_put_be16 (ev_id e) @ [ev_severity e, ev_payload_size e, 0, 0]
           @ take n (ev_payload e) @ replicate (KFSW_EVENT_MAX_PAYLOAD_SIZE - n) 0)"

definition journal_encode :: "(bytes \<Rightarrow> u32) \<Rightarrow> kfsw_journal_record \<Rightarrow> bytes" where
  "journal_encode crc32 r = journal_body r @ sys_put_be32 (crc32 (journal_body r))"

definition journal_decode :: "(bytes \<Rightarrow> u32) \<Rightarrow> bytes \<Rightarrow> errno + kfsw_journal_record" where
  "journal_decode crc32 b =
     (if take 4 b \<noteq> bytes_of_string ''KFE1'' \<or> b ! 4 \<noteq> 1 \<or> b ! 5 > 1 \<or> sys_get_be16 (drop 6 b) \<noteq> 72
         \<or> sys_get_be32 (drop 68 b) \<noteq> crc32 (take 68 b)
         \<or> int (unat (sys_get_be16 (drop 44 b))) < source_value KFSW_EVENT_SOURCE_BOOT
         \<or> int (unat (sys_get_be16 (drop 44 b))) > source_value KFSW_EVENT_SOURCE_RESMON
         \<or> int (unat (b ! 48)) > severity_value KFSW_EVENT_CRITICAL
         \<or> unat (b ! 49) > KFSW_EVENT_MAX_PAYLOAD_SIZE \<or> b ! 50 \<noteq> 0 \<or> b ! 51 \<noteq> 0
      then Inl EBADMSG
      else
        (let sequence = sys_get_be64 (drop 8 b); boot = sys_get_be64 (drop 16 b); n = unat (b ! 49)
         in if sequence = 0 \<or> sequence = - 1 \<or> boot = 0 \<or> boot = - 1 then Inl EBADMSG
            else Inr \<lparr>jr_sequence = sequence, jr_boot = boot, jr_utc_seconds = sint (sys_get_be64 (drop 32 b)),
              jr_utc_valid = (b ! 5 \<noteq> 0),
              jr_event = \<lparr>ev_monotonic_us = sys_get_be64 (drop 24 b), ev_sequence = sys_get_be32 (drop 40 b),
                ev_source = sys_get_be16 (drop 44 b), ev_id = sys_get_be16 (drop 46 b), ev_severity = b ! 48,
                ev_payload_size = b ! 49,
                ev_payload = take n (drop 52 b) @ replicate (KFSW_EVENT_MAX_PAYLOAD_SIZE - n) 0\<rparr>\<rparr>))"

section \<open>The store\<close>

definition zero_store :: "nat \<Rightarrow> journal_store" where
  "zero_store capacity = \<lparr>js_sequences = replicate capacity 0, js_next_sequence = 1, js_highest_boot = 0, js_held = 0,
     js_corrupt = 0, js_ready = False\<rparr>"

definition journal_slot :: "journal_store \<Rightarrow> u64 \<Rightarrow> nat" where
  "journal_slot store sequence = unat (sequence - 1) mod length (js_sequences store)"

definition slot_offset :: "nat \<Rightarrow> nat" where
  "slot_offset slot = KFSW_JOURNAL_HEADER_SIZE + slot * KFSW_JOURNAL_RECORD_SIZE"

definition journal_header :: "'f journal_env \<Rightarrow> bytes" where
  "journal_header env =
     (let h = bytes_of_string ''KFJ1'' @ [1, 0] @ sys_put_be16 72 @ sys_put_be32 (of_nat (je_capacity env))
      in h @ sys_put_be32 (je_crc32 env h))"

definition header_valid :: "'f journal_env \<Rightarrow> bytes \<Rightarrow> bool" where
  "header_valid env h \<longleftrightarrow>
     length h = KFSW_JOURNAL_HEADER_SIZE \<and> take 4 h = bytes_of_string ''KFJ1'' \<and> h ! 4 = 1 \<and> h ! 5 = 0
     \<and> sys_get_be16 (drop 6 h) = 72 \<and> sys_get_be32 (drop 8 h) = of_nat (je_capacity env)
     \<and> sys_get_be32 (drop 12 h) = je_crc32 env (take 12 h)"

definition note_record :: "nat \<Rightarrow> kfsw_journal_record \<Rightarrow> journal_store \<Rightarrow> journal_store" where
  "note_record slot r store =
     store\<lparr>js_sequences := (js_sequences store)[slot := jr_sequence r],
           js_next_sequence := max (js_next_sequence store) (jr_sequence r + 1),
           js_highest_boot := max (js_highest_boot store) (jr_boot r)\<rparr>"

definition scan_record :: "'f journal_env \<Rightarrow> nat \<Rightarrow> bytes \<Rightarrow> journal_store \<Rightarrow> journal_store" where
  "scan_record env i b store =
     (case journal_decode (je_crc32 env) b of
        Inl e \<Rightarrow> store\<lparr>js_corrupt := js_corrupt store + 1\<rparr>
      | Inr r \<Rightarrow>
          if journal_slot store (jr_sequence r) \<noteq> i then store\<lparr>js_corrupt := js_corrupt store + 1\<rparr>
          else (note_record i r store)\<lparr>js_held := js_held store + 1\<rparr>)"

fun scan_records :: "'f journal_env \<Rightarrow> nat list \<Rightarrow> journal_store \<Rightarrow> 'f \<Rightarrow> rc \<times> journal_store \<times> 'f" where
  "scan_records env [] store f = (None, store, f)"
| "scan_records env (i # is) store f =
     (case fs_read (je_files env) KFSW_JOURNAL_PATH KFSW_JOURNAL_RECORD_SIZE f of
        (Inl e, f1) \<Rightarrow> (Some e, store, f1)
      | (Inr b, f1) \<Rightarrow>
          if b = [] then (None, store, f1)
          else if length b \<noteq> KFSW_JOURNAL_RECORD_SIZE then (None, store\<lparr>js_corrupt := js_corrupt store + 1\<rparr>, f1)
          else scan_records env is (scan_record env i b store) f1)"

text \<open>The two ends of opening: a new file, and one that is there.\<close>

definition create_store :: "'f journal_env \<Rightarrow> journal_store \<Rightarrow> 'f \<Rightarrow> rc \<times> journal_store \<times> 'f" where
  "create_store env store f =
     (case fs_open (je_files env) KFSW_JOURNAL_PATH FS_CREATE_WRITE f of
        (Some e, f1) \<Rightarrow> (Some e, store, f1)
      | (None, f1) \<Rightarrow>
          (let (written, f2) = write_all (je_files env) KFSW_JOURNAL_PATH (journal_header env) f1;
               (synced, f3) = (if written = None then fs_sync (je_files env) KFSW_JOURNAL_PATH f2 else (written, f2));
               (result, f4) = close_file (je_files env) synced f3;
               f5 = (if result \<noteq> None then snd (fs_unlink (je_files env) KFSW_JOURNAL_PATH f4) else f4)
           in (result, store\<lparr>js_ready := result = None\<rparr>, f5)))"

definition load_store :: "'f journal_env \<Rightarrow> journal_store \<Rightarrow> 'f \<Rightarrow> rc \<times> journal_store \<times> 'f" where
  "load_store env store f =
     (case fs_open (je_files env) KFSW_JOURNAL_PATH FS_READ f of
        (Some e, f1) \<Rightarrow> (Some e, store, f1)
      | (None, f1) \<Rightarrow>
          (case fs_read (je_files env) KFSW_JOURNAL_PATH KFSW_JOURNAL_HEADER_SIZE f1 of
             (Inl e, f2) \<Rightarrow> (case close_file (je_files env) (Some e) f2 of (result, f3) \<Rightarrow> (result, store, f3))
           | (Inr header, f2) \<Rightarrow>
               if \<not> header_valid env header
               then (case close_file (je_files env) (Some EBADMSG) f2 of (result, f3) \<Rightarrow> (result, store, f3))
               else
                 (case scan_records env [0..<length (js_sequences store)] store f2 of
                    (Some e, store', f3) \<Rightarrow>
                      (case close_file (je_files env) (Some e) f3 of (result, f4) \<Rightarrow> (result, store', f4))
                  | (None, store', f3) \<Rightarrow>
                      (case close_file (je_files env) None f3 of
                         (result, f4) \<Rightarrow> (result, store'\<lparr>js_ready := result = None\<rparr>, f4)))))"

definition kfsw_journal_store_open :: "'f journal_env \<Rightarrow> 'f \<Rightarrow> rc \<times> journal_store \<times> 'f" where
  "kfsw_journal_store_open env f =
     (let store = zero_store (je_capacity env)
      in if \<not> storage_ready (je_files env) f then (Some ENODEV, store, f)
         else
           (case fs_stat (je_files env) KFSW_JOURNAL_PATH f of
              Inl e \<Rightarrow> if e = ENOENT then create_store env store f else (Some e, store, f)
            | Inr (is_file, file_size) \<Rightarrow>
                if \<not> is_file \<or> file_size > KFSW_JOURNAL_HEADER_SIZE + je_capacity env * KFSW_JOURNAL_RECORD_SIZE
                then (Some EFBIG, store, f)
                else load_store env store f))"

text \<open>Writing the bytes of a record into its slot.\<close>

definition write_slot :: "'f journal_env \<Rightarrow> nat \<Rightarrow> bytes \<Rightarrow> 'f \<Rightarrow> rc \<times> 'f" where
  "write_slot env slot b f =
     (case fs_open (je_files env) KFSW_JOURNAL_PATH FS_WRITE f of
        (Some e, f1) \<Rightarrow> (Some e, f1)
      | (None, f1) \<Rightarrow>
          (let (sought, f2) = fs_seek (je_files env) KFSW_JOURNAL_PATH (slot_offset slot) f1;
               (written, f3) = (if sought = None then write_all (je_files env) KFSW_JOURNAL_PATH b f2 else (sought, f2));
               (synced, f4) = (if written = None then fs_sync (je_files env) KFSW_JOURNAL_PATH f3 else (written, f3))
           in close_file (je_files env) synced f4))"

text \<open>The record comes back with the sequence number it was given.\<close>

definition kfsw_journal_store_append ::
  "'f journal_env \<Rightarrow> kfsw_journal_record \<Rightarrow> journal_store \<Rightarrow> 'f
     \<Rightarrow> rc \<times> kfsw_journal_record \<times> journal_store \<times> 'f" where
  "kfsw_journal_store_append env r store f =
     (if \<not> js_ready store \<or> \<not> storage_ready (je_files env) f then (Some ENODEV, r, store, f)
      else if jr_boot r = 0 \<or> jr_boot r = - 1 \<or> unat (ev_payload_size (jr_event r)) > KFSW_EVENT_MAX_PAYLOAD_SIZE
              \<or> int (unat (ev_severity (jr_event r))) > severity_value KFSW_EVENT_CRITICAL
      then (Some EINVAL, r, store, f)
      else
        (let r1 = (if jr_sequence r = 0 then r\<lparr>jr_sequence := js_next_sequence store\<rparr> else r)
         in if jr_sequence r1 = - 1 \<or> jr_sequence r1 > js_next_sequence store then (Some EOVERFLOW, r1, store, f)
            else
              (let slot = journal_slot store (jr_sequence r1)
               in if js_sequences store ! slot > jr_sequence r1 then (Some ESTALE, r1, store, f)
                  else
                    (case write_slot env slot (journal_encode (je_crc32 env) r1) f of
                       (Some e, f1) \<Rightarrow> (Some e, r1, store\<lparr>js_ready := False\<rparr>, f1)
                     | (None, f1) \<Rightarrow>
                         (None, r1, (note_record slot r1 store)\<lparr>js_held :=
                            (if js_sequences store ! slot = 0 then js_held store + 1 else js_held store)\<rparr>, f1)))))"

text \<open>The greatest sequence number below a ceiling with its slot, and the loop over the ranks.\<close>

definition newest_below :: "u64 list \<Rightarrow> u64 \<Rightarrow> nat \<Rightarrow> u64 \<times> nat" where
  "newest_below sequences ceiling slot =
     fold (\<lambda>i (sequence, s). if sequences ! i > sequence \<and> sequences ! i < ceiling then (sequences ! i, i)
                             else (sequence, s)) [0..<length sequences] (0, slot)"

fun find_rank :: "u64 list \<Rightarrow> nat \<Rightarrow> u64 \<Rightarrow> nat \<Rightarrow> u64 \<times> nat" where
  "find_rank sequences 0 ceiling slot = newest_below sequences ceiling slot"
| "find_rank sequences (Suc age) ceiling slot =
     (case newest_below sequences ceiling slot of (sequence, s) \<Rightarrow> find_rank sequences age sequence s)"

definition kfsw_journal_store_get ::
  "'f journal_env \<Rightarrow> nat \<Rightarrow> journal_store \<Rightarrow> 'f \<Rightarrow> (errno + kfsw_journal_record) \<times> 'f" where
  "kfsw_journal_store_get env age store f =
     (if \<not> js_ready store then (Inl ENODEV, f)
      else if age \<ge> unat (js_held store) then (Inl ENOENT, f)
      else
        (let (sequence, slot) = find_rank (js_sequences store) age (- 1) 0
         in case fs_open (je_files env) KFSW_JOURNAL_PATH FS_READ f of
              (Some e, f1) \<Rightarrow> (Inl e, f1)
            | (None, f1) \<Rightarrow>
                (let (outcome, f3) =
                   (case fs_seek (je_files env) KFSW_JOURNAL_PATH (slot_offset slot) f1 of
                      (Some e, f2) \<Rightarrow> (Inl e, f2)
                    | (None, f2) \<Rightarrow>
                        (case fs_read (je_files env) KFSW_JOURNAL_PATH KFSW_JOURNAL_RECORD_SIZE f2 of
                           (Inl e, f3) \<Rightarrow> (Inl e, f3)
                         | (Inr b, f3) \<Rightarrow>
                             (if length b \<noteq> KFSW_JOURNAL_RECORD_SIZE then Inl EBADMSG
                              else (case journal_decode (je_crc32 env) b of
                                      Inl e \<Rightarrow> Inl e
                                    | Inr r \<Rightarrow> if jr_sequence r \<noteq> sequence then Inl EBADMSG else Inr r), f3)));
                     (result, f4) = close_file (je_files env) (case outcome of Inl e \<Rightarrow> Some e | Inr r \<Rightarrow> None) f3
                 in (case (result, outcome) of (None, Inr r) \<Rightarrow> Inr r | (Some e, _) \<Rightarrow> Inl e | (None, Inl e) \<Rightarrow> Inl e, f4))))"

section \<open>The service\<close>

text \<open>
  The message queue is a list, oldest first, of at most \<open>je_queue_depth\<close> events; \<open>jn_boot_seen\<close> has the
  bits of \<open>boot_seen\<close> that are set.
\<close>

record 'f journal_state =
  jn_events :: "kfsw_event_record list"
  jn_store :: journal_store
  jn_pending :: kfsw_journal_record
  jn_have_pending :: bool
  jn_started :: bool
  jn_boot :: u64
  jn_dropped :: u32
  jn_boot_seen :: "nat set"
  jn_errors :: u32
  jn_last_error :: rc
  jn_files :: 'f

definition zero_event :: kfsw_event_record where
  "zero_event = \<lparr>ev_monotonic_us = 0, ev_sequence = 0, ev_source = 0, ev_id = 0, ev_severity = 0, ev_payload_size = 0,
     ev_payload = replicate KFSW_EVENT_MAX_PAYLOAD_SIZE 0\<rparr>"

definition zero_record :: kfsw_journal_record where
  "zero_record = \<lparr>jr_sequence = 0, jr_boot = 0, jr_utc_seconds = 0, jr_utc_valid = False, jr_event = zero_event\<rparr>"

definition open_store :: "'f journal_env \<Rightarrow> 'f journal_state \<Rightarrow> rc \<times> 'f journal_state" where
  "open_store env st =
     (if js_ready (jn_store st) \<and> storage_ready (je_files env) (jn_files st) then (None, st)
      else
        (case kfsw_journal_store_open env (jn_files st) of
           (result, store, f) \<Rightarrow>
             (let st1 = st\<lparr>jn_store := store, jn_files := f\<rparr>
              in if result = None \<and> jn_boot st1 = 0 then
                   if js_highest_boot store \<ge> - 2 then (Some EOVERFLOW, st1\<lparr>jn_store := store\<lparr>js_ready := False\<rparr>\<rparr>)
                   else (None, st1\<lparr>jn_boot := js_highest_boot store + 1\<rparr>)
                 else (result, st1))))"

text \<open>\<open>KFSW_EVENT_BOOT_READY\<close> and \<open>KFSW_EVENT_BOOT_LASTWORDS\<close>: the boot reports taken once per boot.\<close>

definition boot_bit :: "kfsw_event_record \<Rightarrow> nat option" where
  "boot_bit e =
     (if int (unat (ev_source e)) = source_value KFSW_EVENT_SOURCE_BOOT \<and> (ev_id e = 1 \<or> ev_id e = 2)
      then Some (unat (ev_id e) - 1) else None)"

definition journal_selects :: "'f journal_env \<Rightarrow> kfsw_event_record \<Rightarrow> 'f journal_state \<Rightarrow> bool" where
  "journal_selects env e st \<longleftrightarrow>
     (if int (unat (ev_source e)) = source_value KFSW_EVENT_SOURCE_BOOT
      then (case boot_bit e of None \<Rightarrow> True | Some n \<Rightarrow> n \<notin> jn_boot_seen st)
      else ev_severity e \<ge> je_min_severity env)"

definition event_refused :: "kfsw_event_record \<Rightarrow> bool" where
  "event_refused e \<longleftrightarrow>
     unat (ev_payload_size e) > KFSW_EVENT_MAX_PAYLOAD_SIZE \<or> int (unat (ev_severity e)) > severity_value KFSW_EVENT_CRITICAL
     \<or> int (unat (ev_source e)) < source_value KFSW_EVENT_SOURCE_BOOT
     \<or> int (unat (ev_source e)) > source_value KFSW_EVENT_SOURCE_RESMON"

definition kfsw_journal_submit :: "'f journal_env \<Rightarrow> kfsw_event_record option \<Rightarrow> 'f journal_state \<Rightarrow> 'f journal_state" where
  "kfsw_journal_submit env event st =
     (case event of
        None \<Rightarrow> st
      | Some e \<Rightarrow>
          if event_refused e then st\<lparr>jn_dropped := jn_dropped st + 1\<rparr>
          else if \<not> journal_selects env e st then st
          else if length (jn_events st) \<ge> je_queue_depth env then st\<lparr>jn_dropped := jn_dropped st + 1\<rparr>
          else st\<lparr>jn_events := jn_events st @ [e],
                  jn_boot_seen := (case boot_bit e of None \<Rightarrow> jn_boot_seen st | Some n \<Rightarrow> insert n (jn_boot_seen st))\<rparr>)"

text \<open>The clock as the build has it: that of CSP, \<open>None\<close> while it is not set, or the platform's.\<close>

definition timestamp :: "bool \<Rightarrow> int option \<Rightarrow> errno + int \<Rightarrow> kfsw_journal_record \<Rightarrow> kfsw_journal_record" where
  "timestamp csp csp_clock wall r =
     (let seconds = (if csp then csp_clock else (case wall of Inl e \<Rightarrow> None | Inr s \<Rightarrow> if s > 0 then Some s else None))
      in r\<lparr>jr_utc_valid := seconds \<noteq> None, jr_utc_seconds := (case seconds of None \<Rightarrow> 0 | Some s \<Rightarrow> s)\<rparr>)"

text \<open>Taking the next event of the queue when nothing is pending; \<open>stamp\<close> sets the time of a record.\<close>

definition take_pending ::
  "(kfsw_journal_record \<Rightarrow> kfsw_journal_record) \<Rightarrow> 'f journal_state \<Rightarrow> bool \<times> 'f journal_state" where
  "take_pending stamp st =
     (if jn_have_pending st then (True, st)
      else
        (case jn_events st of
           [] \<Rightarrow> (False, st\<lparr>jn_pending := zero_record\<rparr>)
         | e # es \<Rightarrow> (True, st\<lparr>jn_events := es, jn_have_pending := True,
             jn_pending := stamp (zero_record\<lparr>jr_event := e, jr_boot := jn_boot st\<rparr>)\<rparr>)))"

text \<open>The loop of a flush; \<open>stamps\<close> are the readings of the clock in its rounds.\<close>

fun flush_loop ::
  "'f journal_env \<Rightarrow> (nat \<Rightarrow> kfsw_journal_record \<Rightarrow> kfsw_journal_record) \<Rightarrow> nat \<Rightarrow> 'f journal_state \<Rightarrow> rc \<times> 'f journal_state" where
  "flush_loop env stamps 0 st = (None, st)"
| "flush_loop env stamps (Suc left) st =
     (case take_pending (stamps left) st of
        (False, st1) \<Rightarrow> (None, st1)
      | (True, st1) \<Rightarrow>
          (case kfsw_journal_store_append env (jn_pending st1) (jn_store st1) (jn_files st1) of
             (result, r, store, f) \<Rightarrow>
               (let st2 = st1\<lparr>jn_pending := r, jn_store := store, jn_files := f\<rparr>
                in case result of
                     Some e \<Rightarrow> (Some e, st2)
                   | None \<Rightarrow> flush_loop env stamps left (st2\<lparr>jn_have_pending := False\<rparr>))))"

definition kfsw_journal_flush ::
  "'f journal_env \<Rightarrow> (nat \<Rightarrow> kfsw_journal_record \<Rightarrow> kfsw_journal_record) \<Rightarrow> 'f journal_state \<Rightarrow> rc \<times> 'f journal_state" where
  "kfsw_journal_flush env stamps st =
     (if \<not> jn_started st then (Some EACCES, st)
      else
        (let (opened, st1) = open_store env st;
             (result, st2) = (if opened = None then flush_loop env stamps (je_queue_depth env) st1 else (opened, st1))
         in (result, st2\<lparr>jn_last_error := result,
               jn_errors := (if result \<noteq> None then jn_errors st2 + 1 else jn_errors st2)\<rparr>)))"

definition kfsw_journal_start :: "'f journal_env \<Rightarrow> 'f journal_state \<Rightarrow> rc \<times> 'f journal_state" where
  "kfsw_journal_start env st =
     (if jn_started st then (jn_last_error st, st)
      else
        (case open_store env (st\<lparr>jn_started := True\<rparr>) of
           (result, st1) \<Rightarrow>
             (result, st1\<lparr>jn_last_error := result,
                jn_errors := (if result \<noteq> None then jn_errors st1 + 1 else jn_errors st1)\<rparr>)))"

definition kfsw_journal_get ::
  "'f journal_env \<Rightarrow> u16 \<Rightarrow> dest \<Rightarrow> 'f journal_state \<Rightarrow> (errno + kfsw_journal_record) \<times> 'f journal_state" where
  "kfsw_journal_get env age record st =
     (if record = Null then (Inl EINVAL, st)
      else (case kfsw_journal_store_get env (unat age) (jn_store st) (jn_files st) of
              (r, f) \<Rightarrow> (r, st\<lparr>jn_files := f\<rparr>)))"

definition kfsw_journal_get_stats :: "dest \<Rightarrow> 'f journal_state \<Rightarrow> kfsw_journal_stats option" where
  "kfsw_journal_get_stats stats st =
     (if stats = Null then None
      else Some \<lparr>jst_held = js_held (jn_store st),
        jst_queued = word_of_nat (length (jn_events st) + (if jn_have_pending st then 1 else 0)),
        jst_dropped = jn_dropped st, jst_errors = jn_errors st, jst_corrupt = js_corrupt (jn_store st),
        jst_last_error = jn_last_error st, jst_ready = js_ready (jn_store st)\<rparr>)"

section \<open>Specification vocabulary\<close>

text \<open>The records that can be read back.\<close>

definition event_formed :: "kfsw_event_record \<Rightarrow> bool" where
  "event_formed e \<longleftrightarrow> \<not> event_refused e
     \<and> (\<exists>p. ev_payload e = p @ replicate (KFSW_EVENT_MAX_PAYLOAD_SIZE - length p) 0 \<and> length p = unat (ev_payload_size e))"

definition journal_wf :: "kfsw_journal_record \<Rightarrow> bool" where
  "journal_wf r \<longleftrightarrow> jr_sequence r \<noteq> 0 \<and> jr_sequence r \<noteq> - 1 \<and> jr_boot r \<noteq> 0 \<and> jr_boot r \<noteq> - 1
     \<and> - (2 ^ 63) \<le> jr_utc_seconds r \<and> jr_utc_seconds r < 2 ^ 63 \<and> event_formed (jr_event r)"

text \<open>
  The record in a slot of a file: complete, accepted by \<open>journal_decode\<close> and in the slot of its sequence
  number. \<open>journal_ok\<close> says that a store describes the file \<open>c\<close>.
\<close>

definition slot_bytes :: "bytes \<Rightarrow> nat \<Rightarrow> bytes" where
  "slot_bytes c i = take KFSW_JOURNAL_RECORD_SIZE (drop (slot_offset i) c)"

definition record_at :: "'f journal_env \<Rightarrow> bytes \<Rightarrow> nat \<Rightarrow> kfsw_journal_record option" where
  "record_at env c i =
     (if length (slot_bytes c i) \<noteq> KFSW_JOURNAL_RECORD_SIZE then None
      else
        (case journal_decode (je_crc32 env) (slot_bytes c i) of
           Inl e \<Rightarrow> None
         | Inr r \<Rightarrow> if unat (jr_sequence r - 1) mod je_capacity env = i then Some r else None))"

definition sequence_at :: "'f journal_env \<Rightarrow> bytes \<Rightarrow> nat \<Rightarrow> u64" where
  "sequence_at env c i = (case record_at env c i of None \<Rightarrow> 0 | Some r \<Rightarrow> jr_sequence r)"

definition next_of :: "u64 list \<Rightarrow> u64" where
  "next_of sequences = fold (\<lambda>s m. max m (s + 1)) sequences 1"

definition held_of :: "u64 list \<Rightarrow> nat" where
  "held_of sequences = length (filter (\<lambda>s. s \<noteq> 0) sequences)"

definition journal_ok :: "'f journal_env \<Rightarrow> bytes \<Rightarrow> journal_store \<Rightarrow> bool" where
  "journal_ok env c store \<longleftrightarrow>
     header_valid env (take KFSW_JOURNAL_HEADER_SIZE c)
     \<and> length c \<le> KFSW_JOURNAL_HEADER_SIZE + je_capacity env * KFSW_JOURNAL_RECORD_SIZE
     \<and> js_sequences store = map (sequence_at env c) [0..<je_capacity env]
     \<and> js_next_sequence store = next_of (js_sequences store)
     \<and> js_held store = word_of_nat (held_of (js_sequences store))"

text \<open>A file with one slot overwritten, a store after scanning from slot \<open>i\<close> on, and sequence numbers in order.\<close>

definition splice :: "nat \<Rightarrow> bytes \<Rightarrow> bytes \<Rightarrow> bytes" where
  "splice s b c = take (slot_offset s) c @ b @ drop (slot_offset s + length b) c"

definition scanned :: "'f journal_env \<Rightarrow> bytes \<Rightarrow> nat \<Rightarrow> journal_store \<Rightarrow> journal_store \<Rightarrow> bool" where
  "scanned env c i store store' \<longleftrightarrow>
     (let found = map (sequence_at env c) [i..<je_capacity env]
      in js_sequences store' = take i (js_sequences store) @ found
         \<and> js_next_sequence store' = fold (\<lambda>s m. max m (s + 1)) found (js_next_sequence store)
         \<and> js_held store' = js_held store + word_of_nat (held_of found))"

definition below :: "u64 list \<Rightarrow> u64 \<Rightarrow> u64 set" where
  "below xs ceiling = {x \<in> set xs. x \<noteq> 0 \<and> x < ceiling}"

definition newest_first :: "u64 list \<Rightarrow> u64 list" where
  "newest_first xs = rev (sorted_list_of_set (set xs - {0}))"

text \<open>The events a journal still holds for the file, and appending a list of records.\<close>

definition queued :: "'f journal_state \<Rightarrow> kfsw_event_record list" where
  "queued st = (if jn_have_pending st then [jr_event (jn_pending st)] else []) @ jn_events st"

fun append_all :: "'f journal_env \<Rightarrow> kfsw_journal_record list \<Rightarrow> journal_store \<times> 'f \<Rightarrow> (journal_store \<times> 'f) option" where
  "append_all env [] s = Some s"
| "append_all env (r # rs) s =
     (case kfsw_journal_store_append env r (fst s) (snd s) of
        (None, r1, store, f) \<Rightarrow> append_all env rs (store, f)
      | (Some e, r1, store, f) \<Rightarrow> None)"

text \<open>A journal of eight slots and an event, for the witnesses.\<close>

definition demo_journal_env :: "ram_fs journal_env" where
  "demo_journal_env = \<lparr>je_files = ram_ops 9, je_crc32 = (\<lambda>b. of_nat (length b)), je_capacity = 8, je_queue_depth = 4,
     je_min_severity = 1\<rparr>"

definition demo_event :: kfsw_event_record where
  "demo_event = zero_event\<lparr>ev_source := 3, ev_id := 9, ev_severity := 2\<rparr>"

definition demo_journal_files :: ram_fs where
  "demo_journal_files = empty_fs\<lparr>rf_files := (\<lambda>p. if p = KFSW_JOURNAL_PATH then Some (journal_header demo_journal_env) else None)\<rparr>"

definition demo_store :: journal_store where
  "demo_store = (zero_store 8)\<lparr>js_ready := True\<rparr>"

definition demo_record :: kfsw_journal_record where
  "demo_record = zero_record\<lparr>jr_boot := 1, jr_event := demo_event\<rparr>"

definition demo_journal :: "ram_fs journal_state" where
  "demo_journal = \<lparr>jn_events = [demo_event, demo_event], jn_store = demo_store, jn_pending = zero_record, jn_have_pending = False,
     jn_started = True, jn_boot = 1, jn_dropped = 0, jn_boot_seen = {}, jn_errors = 0, jn_last_error = None,
     jn_files = demo_journal_files\<rparr>"

section \<open>Lemmas on records\<close>

lemma formed_payload:
  assumes "event_formed e"
  shows "unat (ev_payload_size e) \<le> 16" "length (ev_payload e) = 16"
    "take (unat (ev_payload_size e)) (ev_payload e) @ replicate (16 - unat (ev_payload_size e)) 0 = ev_payload e"
  using assms by (auto simp: event_formed_def event_refused_def KFSW_EVENT_MAX_PAYLOAD_SIZE_def)

lemma body_length: "event_formed (jr_event r) \<Longrightarrow> length (journal_body r) = 68"
  using formed_payload [of "jr_event r"]
  by (simp add: journal_body_def Let_def KFSW_EVENT_MAX_PAYLOAD_SIZE_def)

lemma encode_length: "event_formed (jr_event r) \<Longrightarrow> length (journal_encode crc32 r) = KFSW_JOURNAL_RECORD_SIZE"
  by (simp add: journal_encode_def body_length journal_sizes)

lemma body_layout:
  assumes "event_formed (jr_event r)"
  shows "take 4 (journal_body r) = bytes_of_string ''KFE1''" "journal_body r ! 4 = 1"
    "journal_body r ! 5 = of_bool (jr_utc_valid r)" "sys_get_be16 (drop 6 (journal_body r) @ x) = 72"
    "sys_get_be64 (drop 8 (journal_body r) @ x) = jr_sequence r" "sys_get_be64 (drop 16 (journal_body r) @ x) = jr_boot r"
    "sys_get_be64 (drop 24 (journal_body r) @ x) = ev_monotonic_us (jr_event r)"
    "sys_get_be64 (drop 32 (journal_body r) @ x) = word_of_int (jr_utc_seconds r)"
    "sys_get_be32 (drop 40 (journal_body r) @ x) = ev_sequence (jr_event r)"
    "sys_get_be16 (drop 44 (journal_body r) @ x) = ev_source (jr_event r)"
    "sys_get_be16 (drop 46 (journal_body r) @ x) = ev_id (jr_event r)"
    "journal_body r ! 48 = ev_severity (jr_event r)" "journal_body r ! 49 = ev_payload_size (jr_event r)"
    "journal_body r ! 50 = 0" "journal_body r ! 51 = 0" "drop 52 (journal_body r) = ev_payload (jr_event r)"
  using formed_payload [OF assms]
  by (simp_all add: journal_body_def Let_def nth_append KFSW_EVENT_MAX_PAYLOAD_SIZE_def)

lemma decode_encode:
  assumes "journal_wf r"
  shows "journal_decode crc32 (journal_encode crc32 r) = Inr r"
proof -
  have e: "event_formed (jr_event r)" using assms by (simp add: journal_wf_def)
  note l = body_layout [OF e] and n = body_length [OF e] and p = formed_payload [OF e]
  have utc: "sint (word_of_int (jr_utc_seconds r) :: u64) = jr_utc_seconds r"
    using assms by (simp add: journal_wf_def signed_of_int signed_take_bit_int_eq_self)
  have nth: "(journal_body r @ x) ! k = journal_body r ! k" if "k < 68" for k x using that n by (simp add: nth_append)
  show ?thesis
    using assms utc p
    by (auto simp: journal_decode_def journal_encode_def l n nth journal_wf_def event_formed_def event_refused_def
        Let_def KFSW_EVENT_MAX_PAYLOAD_SIZE_def intro!: kfsw_journal_record.equality kfsw_event_record.equality)
qed

lemma decode_wf:
  assumes "journal_decode crc32 b = Inr r" and "length b = KFSW_JOURNAL_RECORD_SIZE"
  shows "journal_wf r"
proof -
  define u :: u64 where "u = sys_get_be64 (drop 32 b)"
  have "- (2 ^ 63) \<le> sint u" "sint u < 2 ^ 63" using sint_greater_eq [of u] sint_less [of u] by simp_all
  with assms show ?thesis
    by (auto simp: journal_decode_def Let_def u_def [symmetric] journal_wf_def event_formed_def event_refused_def
        journal_sizes KFSW_EVENT_MAX_PAYLOAD_SIZE_def split: if_splits intro!: exI [of _ "take (unat (b ! 49)) (drop 52 b)"])
qed

interpretation journal_codec: wire_codec
  "\<lambda>r. Some (journal_encode crc32 r)" "\<lambda>b. ok (journal_decode crc32 b)" journal_wf for crc32
  by unfold_locales (auto simp: decode_encode)

section \<open>Lemmas on the file\<close>

lemma slot_offset_Suc: "slot_offset (Suc i) = slot_offset i + KFSW_JOURNAL_RECORD_SIZE"
  by (simp add: slot_offset_def)

lemma slot_offset_mono: "i < j \<Longrightarrow> slot_offset i + KFSW_JOURNAL_RECORD_SIZE \<le> slot_offset j"
  by (simp add: slot_offset_def journal_sizes)

text \<open>Overwriting one slot leaves the others.\<close>

lemma splice_slot:
  assumes "slot_offset s \<le> length c" and "length b = KFSW_JOURNAL_RECORD_SIZE"
  shows "slot_bytes (splice s b c) s = b" "i \<noteq> s \<Longrightarrow> slot_bytes (splice s b c) i = slot_bytes c i"
    "take KFSW_JOURNAL_HEADER_SIZE (splice s b c) = take KFSW_JOURNAL_HEADER_SIZE c"
    "length (splice s b c) = max (length c) (slot_offset s + KFSW_JOURNAL_RECORD_SIZE)"
proof -
  show "slot_bytes (splice s b c) s = b" using assms by (simp add: slot_bytes_def splice_def)
  show "take KFSW_JOURNAL_HEADER_SIZE (splice s b c) = take KFSW_JOURNAL_HEADER_SIZE c"
    using assms by (simp add: splice_def slot_offset_def min_def)
  show "length (splice s b c) = max (length c) (slot_offset s + KFSW_JOURNAL_RECORD_SIZE)"
    using assms by (simp add: splice_def)
  show "slot_bytes (splice s b c) i = slot_bytes c i" if "i \<noteq> s"
  proof (cases "i < s")
    case True
    then obtain d where "slot_offset s = slot_offset i + KFSW_JOURNAL_RECORD_SIZE + d"
      using slot_offset_mono nat_le_iff_add by metis
    with assms(1) show ?thesis by (auto simp: slot_bytes_def splice_def drop_take)
  next
    case False
    with that slot_offset_mono [of s i] obtain d where d: "slot_offset i = slot_offset s + KFSW_JOURNAL_RECORD_SIZE + d"
      by (metis linorder_neqE_nat nat_le_iff_add)
    with assms show ?thesis by (simp add: slot_bytes_def splice_def add.commute add.left_commute)
  qed
qed

lemma splice_record:
  assumes "slot_offset s \<le> length c" and "journal_wf r" and "unat (jr_sequence r - 1) mod je_capacity env = s"
  shows "record_at env (splice s (journal_encode (je_crc32 env) r) c) i = (if i = s then Some r else record_at env c i)"
proof -
  have e: "event_formed (jr_event r)" using assms(2) by (simp add: journal_wf_def)
  note s = splice_slot [OF assms(1) encode_length [OF e, of "je_crc32 env"]]
  show ?thesis
    using assms(3) s(1) s(2) [of i] encode_length [OF e] decode_encode [OF assms(2), of "je_crc32 env"]
    by (cases "i = s") (simp_all add: record_at_def)
qed

lemma write_slot_splices:
  assumes law: "fs_lawful (je_files env) contents position" and c: "contents f KFSW_JOURNAL_PATH = Some c"
    and w: "write_slot env s b f = (None, f')" and gap: "slot_offset s \<le> length c"
  shows "contents f' KFSW_JOURNAL_PATH = Some (splice s b c)"
    "q \<noteq> KFSW_JOURNAL_PATH \<Longrightarrow> contents f' q = contents f q"
proof -
  let ?p = KFSW_JOURNAL_PATH and ?ops = "je_files env"
  obtain f1 where o: "fs_open ?ops ?p FS_WRITE f = (None, f1)"
    using w by (auto simp: write_slot_def split: prod.splits option.splits)
  obtain sought f2 where k: "fs_seek ?ops ?p (slot_offset s) f1 = (sought, f2)" by fastforce
  obtain written f3 where a: "(if sought = None then write_all ?ops ?p b f2 else (sought, f2)) = (written, f3)" by fastforce
  obtain synced f4 where y: "(if written = None then fs_sync ?ops ?p f3 else (written, f3)) = (synced, f4)" by fastforce
  obtain closed f5 where z: "fs_close ?ops ?p f4 = (closed, f5)" by fastforce
  have "first_error synced closed = None" and f': "f' = f5"
    using w by (simp_all add: write_slot_def o k a y close_file_def z Let_def)
  then have "synced = None" by (cases synced) simp_all
  with y have "written = None" by (auto split: if_splits)
  with a have "sought = None" by (auto split: if_splits)
  with a \<open>written = None\<close> have a': "write_all ?ops ?p b f2 = (None, f3)" by simp
  have y': "fs_sync ?ops ?p f3 = (None, f4)" using y \<open>written = None\<close> \<open>synced = None\<close> by simp
  have c1: "contents f1 ?p = Some c" using lawful_open(3) [OF law o] c by simp
  have k': "fs_seek ?ops ?p (slot_offset s) f1 = (None, f2)" using k \<open>sought = None\<close> by simp
  have c2: "contents f2 = contents f1" using lawful_frame(7) [OF law, of ?p "slot_offset s" f1] k' by simp
  have c45: "contents f5 = contents f3"
    using lawful_frame(4) [OF law, of ?p f3] lawful_frame(5) [OF law, of ?p f4] y' z by simp
  have "contents f3 ?p = Some (take (slot_offset s) c @ b @ drop (slot_offset s + length b) c)"
    using write_all_contents [OF law a'] c1 c2 gap lawful_seek [OF law k'] by simp
  then show "contents f' ?p = Some (splice s b c)" by (simp add: f' c45 splice_def)
  show "contents f' q = contents f q" if "q \<noteq> ?p"
    using write_all_frame [OF law that, of b f2] lawful_frame(2) [OF law that, of FS_WRITE f] a' o c2 c45 f' by simp
qed

text \<open>The counters of a store after one more record.\<close>

lemma next_of_Max: "next_of xs = Max (insert 1 ((\<lambda>s. s + 1) ` set xs))"
proof -
  have "fold (\<lambda>s m. max m (s + 1)) xs n = Max (insert n ((\<lambda>s. s + 1) ` set xs))" for n :: u64
  proof (induction xs arbitrary: n)
    case (Cons x xs)
    then show ?case by (cases "xs = []") (simp_all add: max.left_commute max.commute max.assoc)
  qed simp
  then show ?thesis by (simp add: next_of_def)
qed

lemma next_of_le_iff: "next_of xs \<le> n \<longleftrightarrow> 1 \<le> n \<and> (\<forall>x \<in> set xs. x + 1 \<le> n)"
  by (simp add: next_of_Max)

lemma plus_one_mono: "x \<le> y \<Longrightarrow> y \<noteq> - 1 \<Longrightarrow> x + 1 \<le> y + (1 :: u64)"
proof -
  assume "x \<le> y" "y \<noteq> - 1"
  have "unat (- 1 :: u64) = 2 ^ 64 - 1" by (simp add: unsigned_minus_1_eq_mask mask_eq_exp_minus_1)
  with \<open>y \<noteq> - 1\<close> have "unat y \<noteq> 2 ^ 64 - 1" by (metis word_unat_eq_iff)
  moreover have "unat y < 2 ^ 64" using unsigned_less [of y, where 'a = nat] by simp
  ultimately have "unat y + 1 < 2 ^ 64" by simp
  with \<open>x \<le> y\<close> show ?thesis by (simp add: word_le_nat_alt unat_word_ariths)
qed

lemma next_of_update:
  assumes "i < length xs" and "xs ! i \<le> n" and "n \<noteq> - 1"
  shows "next_of (xs[i := n]) = max (next_of xs) (n + 1)"
proof (rule antisym)
  have old: "x + 1 \<le> next_of xs" "1 \<le> next_of xs" if "x \<in> set xs" for x
    using next_of_le_iff [of xs "next_of xs"] that by simp_all
  then have "1 \<le> next_of xs" using assms(1) nth_mem by blast
  moreover have "x + 1 \<le> max (next_of xs) (n + 1)" if "x \<in> set (xs[i := n])" for x
  proof -
    from that set_update_subset_insert [of xs i n] have "x = n \<or> x \<in> set xs" by blast
    then show ?thesis using old(1) by (auto simp: le_max_iff_disj)
  qed
  moreover have "1 \<le> max (next_of xs) (n + 1)" using calculation(1) by (simp add: le_max_iff_disj)
  ultimately show "next_of (xs[i := n]) \<le> max (next_of xs) (n + 1)"
    unfolding next_of_le_iff by blast
  have new: "x + 1 \<le> next_of (xs[i := n])" if "x \<in> set (xs[i := n])" for x
    using next_of_le_iff [of "xs[i := n]" "next_of (xs[i := n])"] that by simp
  have here: "n + 1 \<le> next_of (xs[i := n])" using new set_update_memI [OF assms(1)] by blast
  have "x + 1 \<le> next_of (xs[i := n])" if "x \<in> set xs" for x
  proof -
    from that obtain j where j: "j < length xs" "x = xs ! j" by (auto simp: in_set_conv_nth)
    show ?thesis
    proof (cases "j = i")
      case True
      with j have "x + 1 \<le> n + 1" using plus_one_mono [OF assms(2,3)] by simp
      then show ?thesis using here by (rule order_trans)
    next
      case False
      with j have "xs[i := n] ! j = x" by simp
      moreover have "xs[i := n] ! j \<in> set (xs[i := n])" using j by (intro nth_mem) simp
      ultimately show ?thesis using new by simp
    qed
  qed
  moreover have "1 \<le> next_of (xs[i := n])" using next_of_le_iff [of "xs[i := n]" "next_of (xs[i := n])"] by simp
  ultimately show "max (next_of xs) (n + 1) \<le> next_of (xs[i := n])" using here by (simp add: next_of_le_iff)
qed

lemma held_of_update:
  assumes "i < length xs" and "n \<noteq> 0"
  shows "held_of (xs[i := n]) = held_of xs + (if xs ! i = 0 then 1 else 0)"
proof -
  have "xs = take i xs @ xs ! i # drop (Suc i) xs" using assms(1) by (simp add: id_take_nth_drop)
  moreover have "xs[i := n] = take i xs @ n # drop (Suc i) xs" using assms(1) by (simp add: upd_conv_take_nth_drop)
  ultimately have "held_of (xs[i := n]) = held_of (take i xs @ n # drop (Suc i) xs)"
    "held_of xs = held_of (take i xs @ xs ! i # drop (Suc i) xs)" by simp_all
  with assms(2) show ?thesis by (simp add: held_of_def)
qed

text \<open>What an append that returns 0 did.\<close>

lemma append_cases:
  assumes "kfsw_journal_store_append env r store f = (None, r1, store', f')"
  shows "r1 = (if jr_sequence r = 0 then r\<lparr>jr_sequence := js_next_sequence store\<rparr> else r)"
    "jr_sequence r1 \<noteq> - 1" "jr_sequence r1 \<le> js_next_sequence store" "jr_boot r1 \<noteq> 0" "jr_boot r1 \<noteq> - 1"
    "js_sequences store ! journal_slot store (jr_sequence r1) \<le> jr_sequence r1"
    "write_slot env (journal_slot store (jr_sequence r1)) (journal_encode (je_crc32 env) r1) f = (None, f')"
    "store' = (note_record (journal_slot store (jr_sequence r1)) r1 store)\<lparr>js_held :=
       (if js_sequences store ! journal_slot store (jr_sequence r1) = 0 then js_held store + 1 else js_held store)\<rparr>"
  using assms unfolding kfsw_journal_store_append_def Let_def
  by (auto simp: not_less split: if_splits prod.splits option.splits)

lemma append_durable:
  assumes law: "fs_lawful (je_files env) contents position" and c: "contents f KFSW_JOURNAL_PATH = Some c"
    and ok: "journal_ok env c store" and cap: "0 < je_capacity env"
    and a: "kfsw_journal_store_append env r store f = (None, r1, store', f')"
    and gap: "slot_offset (journal_slot store (jr_sequence r1)) \<le> length c"
    and formed: "event_formed (jr_event r)" and utc: "- (2 ^ 63) \<le> jr_utc_seconds r" "jr_utc_seconds r < 2 ^ 63"
  shows "\<exists>c'. contents f' KFSW_JOURNAL_PATH = Some c' \<and> journal_ok env c' store'
    \<and> (\<forall>i. record_at env c' i = (if i = journal_slot store (jr_sequence r1) then Some r1 else record_at env c i))"
proof -
  note x = append_cases [OF a]
  let ?s = "journal_slot store (jr_sequence r1)" and ?b = "journal_encode (je_crc32 env) r1"
  have len: "length (js_sequences store) = je_capacity env" using ok by (simp add: journal_ok_def)
  have s: "?s < je_capacity env" "?s < length (js_sequences store)" "unat (jr_sequence r1 - 1) mod je_capacity env = ?s"
    using cap len by (simp_all add: journal_slot_def)
  have first: "1 \<le> js_next_sequence store"
    using ok next_of_le_iff [of "js_sequences store" "js_next_sequence store"] by (simp add: journal_ok_def)
  then have nz: "jr_sequence r1 \<noteq> 0" using x(1) by (auto simp: word_le_nat_alt)
  have wf: "journal_wf r1" using x(1,2,4,5) nz formed utc by (auto simp: journal_wf_def)
  then have e: "event_formed (jr_event r1)" by (simp add: journal_wf_def)
  let ?c = "splice ?s ?b c"
  have c': "contents f' KFSW_JOURNAL_PATH = Some ?c" by (rule write_slot_splices(1) [OF law c x(7) gap])
  note rec = splice_record [OF gap wf s(3)]
  note sp = splice_slot [OF gap encode_length [OF e, of "je_crc32 env"]]
  have "js_sequences store' = map (sequence_at env ?c) [0..<je_capacity env]"
  proof (rule nth_equalityI)
    show "length (js_sequences store') = length (map (sequence_at env ?c) [0..<je_capacity env])"
      using x(8) len by (simp add: note_record_def)
    fix i assume "i < length (js_sequences store')"
    then have i: "i < je_capacity env" using x(8) len by (simp add: note_record_def)
    then have "js_sequences store ! i = sequence_at env c i" using ok by (simp add: journal_ok_def)
    then show "js_sequences store' ! i = map (sequence_at env ?c) [0..<je_capacity env] ! i"
      using x(8) i s(2) len rec [of i] by (cases "i = ?s") (simp_all add: note_record_def sequence_at_def)
  qed
  moreover have "js_next_sequence store' = next_of (js_sequences store')"
    using x(8) ok next_of_update [OF s(2) x(6,2)] by (simp add: note_record_def journal_ok_def)
  moreover have "js_held store' = word_of_nat (held_of (js_sequences store'))"
    using x(8) ok held_of_update [OF s(2) nz] by (simp add: note_record_def journal_ok_def)
  moreover have "length ?c \<le> KFSW_JOURNAL_HEADER_SIZE + je_capacity env * KFSW_JOURNAL_RECORD_SIZE"
    using sp(4) ok s(1) slot_offset_mono [of ?s "je_capacity env"] by (simp add: journal_ok_def slot_offset_def)
  ultimately have "journal_ok env ?c store'" using sp(3) ok by (simp add: journal_ok_def)
  with c' rec show ?thesis by blast
qed

text \<open>Scanning a file establishes \<open>journal_ok\<close>.\<close>

lemma slot_beyond:
  assumes "length (slot_bytes c i) \<noteq> KFSW_JOURNAL_RECORD_SIZE" and "i \<le> j"
  shows "record_at env c j = None"
proof -
  have "length c < slot_offset i + KFSW_JOURNAL_RECORD_SIZE"
    using assms(1) by (auto simp: slot_bytes_def min_def split: if_splits)
  moreover have "slot_offset i \<le> slot_offset j" using assms(2) by (simp add: slot_offset_def)
  ultimately have "length (slot_bytes c j) < KFSW_JOURNAL_RECORD_SIZE"
    by (simp add: slot_bytes_def KFSW_JOURNAL_RECORD_SIZE_def)
  then show ?thesis by (simp add: record_at_def)
qed

lemma fold_next_zeros: "1 \<le> m \<Longrightarrow> \<forall>s \<in> set xs. s = 0 \<Longrightarrow> fold (\<lambda>s m. max m (s + 1)) xs m = (m :: u64)"
  by (induction xs) (simp_all add: max_absorb1)

lemma scanned_none:
  assumes "\<forall>j. i \<le> j \<longrightarrow> record_at env c j = None" and "1 \<le> js_next_sequence store"
    and "length (js_sequences store) = je_capacity env" and "\<forall>s \<in> set (drop i (js_sequences store)). s = 0"
    and "js_sequences store' = js_sequences store" and "js_next_sequence store' = js_next_sequence store"
    and "js_held store' = js_held store"
  shows "scanned env c i store store'"
proof -
  have found: "map (sequence_at env c) [i..<je_capacity env] = replicate (je_capacity env - i) 0"
    using assms(1) by (auto intro!: nth_equalityI simp: sequence_at_def)
  have "drop i (js_sequences store) = replicate (je_capacity env - i) 0"
    using assms(3,4) by (intro replicate_eqI) simp_all
  then have "js_sequences store = take i (js_sequences store) @ replicate (je_capacity env - i) 0"
    by (metis append_take_drop_id)
  moreover have "fold (\<lambda>s m. max m (s + 1)) (replicate (je_capacity env - i) 0) (js_next_sequence store) = js_next_sequence store"
    by (rule fold_next_zeros [OF assms(2)]) simp
  ultimately show ?thesis
    using assms(5-7) unfolding scanned_def found Let_def by (simp add: held_of_def)
qed

lemma scan_record_step:
  assumes "length (slot_bytes c i) = KFSW_JOURNAL_RECORD_SIZE" and "length (js_sequences store) = je_capacity env"
    and "js_sequences store ! i = 0" and "i < je_capacity env" and "1 \<le> js_next_sequence store"
  shows "js_sequences (scan_record env i (slot_bytes c i) store) = (js_sequences store)[i := sequence_at env c i]"
    "js_next_sequence (scan_record env i (slot_bytes c i) store) = max (js_next_sequence store) (sequence_at env c i + 1)"
    "js_held (scan_record env i (slot_bytes c i) store) = js_held store + word_of_nat (held_of [sequence_at env c i])"
proof -
  have same: "(js_sequences store)[i := 0] = js_sequences store" using assms(3) by (metis list_update_id)
  have "jr_sequence r \<noteq> 0" if "record_at env c i = Some r" for r
    using that decode_wf by (auto simp: record_at_def journal_wf_def split: if_splits sum.splits)
  then show "js_sequences (scan_record env i (slot_bytes c i) store) = (js_sequences store)[i := sequence_at env c i]"
    "js_next_sequence (scan_record env i (slot_bytes c i) store) = max (js_next_sequence store) (sequence_at env c i + 1)"
    "js_held (scan_record env i (slot_bytes c i) store) = js_held store + word_of_nat (held_of [sequence_at env c i])"
    using assms(1,2,5) same
    by (auto simp: scan_record_def sequence_at_def record_at_def note_record_def journal_slot_def held_of_def max_absorb1
        split: sum.splits)
qed

lemma scan_records_scanned:
  assumes law: "fs_lawful (je_files env) contents position" and rd: "fs_readable (je_files env) contents KFSW_JOURNAL_PATH"
  shows "contents f KFSW_JOURNAL_PATH = Some c \<Longrightarrow> position f KFSW_JOURNAL_PATH = slot_offset i \<Longrightarrow>
    length (js_sequences store) = je_capacity env \<Longrightarrow> \<forall>s \<in> set (drop i (js_sequences store)). s = 0 \<Longrightarrow>
    1 \<le> js_next_sequence store \<Longrightarrow>
    \<exists>store' f'. scan_records env [i..<je_capacity env] store f = (None, store', f')
      \<and> contents f' KFSW_JOURNAL_PATH = Some c \<and> scanned env c i store store'"
proof (induction "je_capacity env - i" arbitrary: i store f)
  case 0
  then have "[i..<je_capacity env] = []" by simp
  then show ?case using 0 by (simp add: scanned_def held_of_def)
next
  case (Suc k)
  then have i: "i < je_capacity env" "[i..<je_capacity env] = i # [Suc i..<je_capacity env]"
    by (simp_all add: upt_conv_Cons)
  obtain f1 where r: "fs_read (je_files env) KFSW_JOURNAL_PATH KFSW_JOURNAL_RECORD_SIZE f = (Inr (slot_bytes c i), f1)"
    "contents f1 KFSW_JOURNAL_PATH = Some c" "position f1 KFSW_JOURNAL_PATH = slot_offset i + length (slot_bytes c i)"
    using readable_read [OF law rd Suc.prems(1), of KFSW_JOURNAL_RECORD_SIZE] Suc.prems(2) unfolding slot_bytes_def by auto
  show ?case
  proof (cases "length (slot_bytes c i) = KFSW_JOURNAL_RECORD_SIZE")
    case False
    then have none: "\<forall>j. i \<le> j \<longrightarrow> record_at env c j = None" using slot_beyond by blast
    show ?thesis
    proof (cases "slot_bytes c i = []")
      case True
      with i(2) r scanned_none [OF none Suc.prems(5,3,4), of store] show ?thesis by simp
    next
      case empty: False
      with False i(2) r scanned_none [OF none Suc.prems(5,3,4), of "store\<lparr>js_corrupt := js_corrupt store + 1\<rparr>"]
      show ?thesis by simp
    qed
  next
    case True
    let ?store = "scan_record env i (slot_bytes c i) store"
    have "js_sequences store ! i = 0"
      using Suc.prems(3,4) i(1) by (metis Cons_nth_drop_Suc list.set_intros(1))
    note st = scan_record_step [OF True Suc.prems(3) this i(1) Suc.prems(5)]
    have "\<forall>s \<in> set (drop (Suc i) (js_sequences ?store)). s = 0"
      using Suc.prems(4) st(1) set_drop_subset_set_drop [of i "Suc i" "js_sequences store"] by auto
    moreover have "k = je_capacity env - Suc i" using Suc.hyps(2) by simp
    moreover have "length (js_sequences ?store) = je_capacity env" "1 \<le> js_next_sequence ?store"
      using st Suc.prems(3,5) by (simp_all add: le_max_iff_disj)
    moreover have "position f1 KFSW_JOURNAL_PATH = slot_offset (Suc i)" using r(3) True by (simp add: slot_offset_Suc)
    ultimately obtain store' f' where s: "scan_records env [Suc i..<je_capacity env] ?store f1 = (None, store', f')"
      "contents f' KFSW_JOURNAL_PATH = Some c" "scanned env c (Suc i) ?store store'"
      using Suc.hyps(1) [of "Suc i" f1 ?store] r(2) by blast
    have "scanned env c i store store'"
      using s(3) st i Suc.prems(3) by (simp add: scanned_def Let_def take_Suc_conv_app_nth held_of_def)
    moreover have "slot_bytes c i \<noteq> []" using True by (auto simp: journal_sizes)
    ultimately show ?thesis using i(2) r(1) True s(1,2) by simp
  qed
qed

lemma open_ok:
  assumes law: "fs_lawful (je_files env) contents position" and rd: "fs_readable (je_files env) contents KFSW_JOURNAL_PATH"
    and c: "contents f KFSW_JOURNAL_PATH = Some c" and h: "header_valid env (take KFSW_JOURNAL_HEADER_SIZE c)"
    and size: "length c \<le> KFSW_JOURNAL_HEADER_SIZE + je_capacity env * KFSW_JOURNAL_RECORD_SIZE"
  shows "\<exists>store f'. kfsw_journal_store_open env f = (None, store, f') \<and> js_ready store \<and> journal_ok env c store
    \<and> contents f' KFSW_JOURNAL_PATH = Some c"
proof -
  let ?p = KFSW_JOURNAL_PATH and ?zero = "zero_store (je_capacity env)"
  obtain f1 where o: "fs_open (je_files env) ?p FS_READ f = (None, f1)" "contents f1 ?p = Some c" "position f1 ?p = 0"
    using readable_open [OF law rd c] by blast
  have hl: "length (take KFSW_JOURNAL_HEADER_SIZE c) = KFSW_JOURNAL_HEADER_SIZE" using h by (simp add: header_valid_def)
  obtain f2 where r: "fs_read (je_files env) ?p KFSW_JOURNAL_HEADER_SIZE f1 = (Inr (take KFSW_JOURNAL_HEADER_SIZE c), f2)"
    "contents f2 ?p = Some c" "position f2 ?p = KFSW_JOURNAL_HEADER_SIZE"
    using readable_read [OF law rd o(2), of KFSW_JOURNAL_HEADER_SIZE] o(3) hl by auto
  obtain store f3 where s: "scan_records env [0..<je_capacity env] ?zero f2 = (None, store, f3)" "contents f3 ?p = Some c"
    "scanned env c 0 ?zero store"
    using scan_records_scanned [OF law rd r(2), of 0 ?zero] r(3) by (auto simp: slot_offset_def zero_store_def)
  obtain f4 where k: "fs_close (je_files env) ?p f3 = (None, f4)" "contents f4 = contents f3"
    using readable_close [OF law rd] by blast
  have "storage_ready (je_files env) f" "fs_stat (je_files env) ?p f = Inr (True, length c)"
    using rd c unfolding fs_readable_def by blast+
  moreover have "length (js_sequences ?zero) = je_capacity env" by (simp add: zero_store_def)
  ultimately have "kfsw_journal_store_open env f = (None, store\<lparr>js_ready := True\<rparr>, f4)"
    using size o(1) r(1) s(1) k(1) h by (simp add: kfsw_journal_store_open_def load_store_def close_file_def Let_def)
  moreover have "journal_ok env c (store\<lparr>js_ready := True\<rparr>)"
    using s(3) h size by (simp add: journal_ok_def scanned_def zero_store_def Let_def next_of_def)
  ultimately show ?thesis using k(2) s(2) by auto
qed

section \<open>Lemmas on reading by age\<close>

lemma newest_below_fold:
  fixes xs :: "u64 list"
  assumes "n \<le> length xs"
    and "fold (\<lambda>i (sequence, s). if xs ! i > sequence \<and> xs ! i < ceiling then (xs ! i, i) else (sequence, s)) [0..<n] (0, slot) = (m, i)"
  shows "(\<forall>j < n. xs ! j < ceiling \<longrightarrow> xs ! j \<le> m) \<and> (m = 0 \<or> i < n \<and> xs ! i = m \<and> m < ceiling)"
  using assms
proof (induction n arbitrary: m i)
  case (Suc n)
  obtain m' i' where f: "fold (\<lambda>i (sequence, s). if xs ! i > sequence \<and> xs ! i < ceiling then (xs ! i, i) else (sequence, s))
      [0..<n] (0, slot) = (m', i')" by fastforce
  from Suc.IH [OF _ f] Suc.prems(1) have IH: "\<forall>j < n. xs ! j < ceiling \<longrightarrow> xs ! j \<le> m'"
    "m' = 0 \<or> i' < n \<and> xs ! i' = m' \<and> m' < ceiling" by auto
  from Suc.prems(2) f have "(m, i) = (if xs ! n > m' \<and> xs ! n < ceiling then (xs ! n, n) else (m', i'))" by simp
  with IH show ?case by (cases "xs ! n > m' \<and> xs ! n < ceiling") (auto simp: less_Suc_eq not_less intro: order.trans less_imp_le)
qed simp

lemma newest_below_spec:
  assumes "below xs ceiling \<noteq> {}"
  shows "\<exists>i < length xs. newest_below xs ceiling slot = (Max (below xs ceiling), i) \<and> xs ! i = Max (below xs ceiling)"
proof -
  obtain m i where f: "newest_below xs ceiling slot = (m, i)" by (metis surj_pair)
  note spec = newest_below_fold [OF order.refl f [unfolded newest_below_def]]
  have upper: "x \<le> m" if "x \<in> below xs ceiling" for x
    using that spec by (auto simp: below_def in_set_conv_nth)
  with assms have "m \<noteq> 0" using below_def by fastforce
  with spec have "m \<in> below xs ceiling" "i < length xs" "xs ! i = m" by (auto simp: below_def)
  moreover from this upper have "Max (below xs ceiling) = m" by (intro Max_eqI) (simp_all add: below_def)
  ultimately show ?thesis using f by auto
qed

lemma sorted_list_Max:
  fixes S :: "u64 set"
  assumes "finite S" and "S \<noteq> {}"
  shows "sorted_list_of_set S = sorted_list_of_set (S - {Max S}) @ [Max S]"
proof (rule sorted_distinct_set_unique)
  show "sorted (sorted_list_of_set (S - {Max S}) @ [Max S])"
    using assms by (auto simp: sorted_append)
  show "distinct (sorted_list_of_set (S - {Max S}) @ [Max S])" using assms by simp
  show "set (sorted_list_of_set S) = set (sorted_list_of_set (S - {Max S}) @ [Max S])"
    using assms Max_in [OF assms] by (simp add: insert_absorb)
qed simp_all

lemma find_rank_spec:
  "age < card (below xs ceiling) \<Longrightarrow>
   \<exists>i < length xs. find_rank xs age ceiling slot = (rev (sorted_list_of_set (below xs ceiling)) ! age, i)
     \<and> xs ! i = rev (sorted_list_of_set (below xs ceiling)) ! age"
proof (induction age arbitrary: ceiling slot)
  case 0
  have fin: "finite (below xs ceiling)" by (simp add: below_def)
  from 0 have ne: "below xs ceiling \<noteq> {}" by auto
  with newest_below_spec [OF ne, of slot] show ?case by (simp add: sorted_list_Max [OF fin ne])
next
  case (Suc age)
  let ?B = "below xs ceiling"
  have fin: "finite ?B" by (simp add: below_def)
  from Suc.prems have ne: "?B \<noteq> {}" by auto
  have rest: "below xs (Max ?B) = ?B - {Max ?B}"
    using Max_in [OF fin ne] Max_ge [OF fin] by (auto simp: below_def less_le)
  obtain i where i: "newest_below xs ceiling slot = (Max ?B, i)" using newest_below_spec [OF ne] by blast
  have "age < card (below xs (Max ?B))" using Suc.prems fin Max_in [OF fin ne] by (simp add: rest)
  from Suc.IH [OF this, of i] i show ?case
    by (simp add: rest sorted_list_Max [OF fin ne] nth_append)
qed

text \<open>The sequence numbers on a file are in their slots, so none is there twice.\<close>

lemma sequence_at_slot:
  assumes "sequence_at env c i = s" and "s \<noteq> 0"
  shows "\<exists>r. record_at env c i = Some r \<and> jr_sequence r = s" "unat (s - 1) mod je_capacity env = i" "s \<noteq> - 1"
proof -
  from assms obtain r where r: "record_at env c i = Some r" "jr_sequence r = s"
    by (auto simp: sequence_at_def split: option.splits)
  then show "\<exists>r. record_at env c i = Some r \<and> jr_sequence r = s" by blast
  from r show "unat (s - 1) mod je_capacity env = i" by (auto simp: record_at_def split: if_splits sum.splits)
  from r decode_wf [of "je_crc32 env" "slot_bytes c i" r] show "s \<noteq> - 1"
    by (auto simp: record_at_def journal_wf_def split: if_splits sum.splits)
qed

lemma held_card:
  assumes "xs = map (sequence_at env c) [0..<n]"
  shows "card (set xs - {0}) = held_of xs" "below xs (- 1) = set xs - {0}"
proof -
  have "distinct (filter (\<lambda>s. s \<noteq> 0) xs)"
  proof -
    have "inj_on (sequence_at env c) (set (filter (\<lambda>i. sequence_at env c i \<noteq> 0) [0..<n]))"
      using sequence_at_slot(2) [OF refl, of env c] by (intro inj_onI) (simp, metis)
    then have "distinct (map (sequence_at env c) (filter (\<lambda>i. sequence_at env c i \<noteq> 0) [0..<n]))"
      by (simp add: distinct_map)
    then show ?thesis by (simp add: assms filter_map comp_def)
  qed
  from distinct_card [OF this] show "card (set xs - {0}) = held_of xs"
    by (simp add: held_of_def set_diff_eq)
  have "x \<noteq> - 1" if "x \<in> set xs" "x \<noteq> 0" for x using that sequence_at_slot(3) by (auto simp: assms)
  then show "below xs (- 1) = set xs - {0}" by (auto simp: below_def word_order.not_eq_extremum)
qed

lemma get_newest:
  assumes law: "fs_lawful (je_files env) contents position" and rd: "fs_readable (je_files env) contents KFSW_JOURNAL_PATH"
    and c: "contents f KFSW_JOURNAL_PATH = Some c" and ok: "journal_ok env c store" and ready: "js_ready store"
    and cap: "je_capacity env < 65536" and age: "age < held_of (js_sequences store)"
  shows "\<exists>i r f'. kfsw_journal_store_get env age store f = (Inr r, f') \<and> record_at env c i = Some r
    \<and> jr_sequence r = newest_first (js_sequences store) ! age"
proof -
  let ?xs = "js_sequences store" and ?p = KFSW_JOURNAL_PATH
  have xs: "?xs = map (sequence_at env c) [0..<je_capacity env]" using ok by (simp add: journal_ok_def)
  have "held_of ?xs \<le> length ?xs" by (simp add: held_of_def)
  then have "held_of ?xs < 65536" using cap by (simp add: xs)
  then have held: "unat (js_held store) = held_of ?xs" using ok by (simp add: journal_ok_def unat_of_nat)
  obtain i where i: "i < length ?xs" "find_rank ?xs age (- 1) 0 = (newest_first ?xs ! age, i)" "?xs ! i = newest_first ?xs ! age"
    using find_rank_spec [of age ?xs "- 1" 0] held_card [OF xs] age by (auto simp: newest_first_def)
  have "newest_first ?xs ! age \<in> set (newest_first ?xs)"
    using age held_card(1) [OF xs] by (intro nth_mem) (simp add: newest_first_def)
  then have nz: "newest_first ?xs ! age \<noteq> 0" by (simp add: newest_first_def)
  have "sequence_at env c i = newest_first ?xs ! age" using i(1,3) by (simp add: xs)
  from sequence_at_slot(1) [OF this nz] obtain r where r: "record_at env c i = Some r" "jr_sequence r = newest_first ?xs ! age"
    by blast
  then have dec: "journal_decode (je_crc32 env) (slot_bytes c i) = Inr r" "length (slot_bytes c i) = KFSW_JOURNAL_RECORD_SIZE"
    by (auto simp: record_at_def split: if_splits sum.splits)
  obtain f1 where o: "fs_open (je_files env) ?p FS_READ f = (None, f1)" "contents f1 ?p = Some c"
    using readable_open [OF law rd c] by blast
  have "fst (fs_seek (je_files env) ?p (slot_offset i) f1) = None" using rd by (simp add: fs_readable_def)
  then obtain f2 where k: "fs_seek (je_files env) ?p (slot_offset i) f1 = (None, f2)" by (metis prod.collapse)
  have c2: "contents f2 ?p = Some c" "position f2 ?p = slot_offset i"
    using lawful_frame(7) [OF law, of ?p "slot_offset i" f1] lawful_seek [OF law k] k o(2) by simp_all
  obtain f3 where rd3: "fs_read (je_files env) ?p KFSW_JOURNAL_RECORD_SIZE f2 = (Inr (slot_bytes c i), f3)"
    using readable_read [OF law rd c2(1), of KFSW_JOURNAL_RECORD_SIZE] c2(2) unfolding slot_bytes_def by auto
  obtain f4 where z: "fs_close (je_files env) ?p f3 = (None, f4)" using readable_close [OF law rd] by blast
  have "kfsw_journal_store_get env age store f = (Inr r, f4)"
    using ready age i(2) o(1) k rd3 z dec r(2)
    by (simp add: kfsw_journal_store_get_def held close_file_def Let_def)
  with r show ?thesis by blast
qed

section \<open>Lemmas on flushing\<close>

lemma append_event:
  assumes "kfsw_journal_store_append env r store f = (result, r1, store', f')"
  shows "jr_event r1 = jr_event r"
  using assms by (auto simp: kfsw_journal_store_append_def Let_def split: if_splits prod.splits option.splits)

lemma take_pending_cases:
  assumes "take_pending stamp st = (found, st1)" and "\<And>r. jr_event (stamp r) = jr_event r"
  shows "queued st1 = queued st" "jn_store st1 = jn_store st" "jn_files st1 = jn_files st"
    "found \<longleftrightarrow> queued st \<noteq> []" "jn_have_pending st1 = found"
  using assms by (auto simp: take_pending_def queued_def split: if_splits list.splits)

lemma flush_loop_in_order:
  assumes "\<And>k r. jr_event (stamps k r) = jr_event r"
  shows "flush_loop env stamps n st = (result, st') \<Longrightarrow>
    \<exists>w mid. queued st = map jr_event w @ queued st' \<and> append_all env w (jn_store st, jn_files st) = Some mid
      \<and> (case result of
           None \<Rightarrow> mid = (jn_store st', jn_files st') \<and> length w = min n (length (queued st))
         | Some e \<Rightarrow> jn_have_pending st' \<and>
             (\<exists>r. kfsw_journal_store_append env r (fst mid) (snd mid) = (Some e, jn_pending st', jn_store st', jn_files st')))"
proof (induction n arbitrary: st)
  case 0
  then show ?case by (intro exI [of _ "[]"]) simp
next
  case (Suc n)
  obtain found st1 where t: "take_pending (stamps n) st = (found, st1)" by fastforce
  note p = take_pending_cases [OF t assms]
  show ?case
  proof (cases found)
    case False
    with Suc.prems t have "result = None" "st' = st1" by auto
    with p False show ?thesis by (intro exI [of _ "[]"]) simp
  next
    case True
    obtain res r1 store f where a: "kfsw_journal_store_append env (jn_pending st1) (jn_store st1) (jn_files st1) = (res, r1, store, f)"
      by (metis prod_cases4)
    let ?st2 = "st1\<lparr>jn_pending := r1, jn_store := store, jn_files := f\<rparr>"
    have q: "queued st = jr_event (jn_pending st1) # jn_events st1" using p(1,5) True by (simp add: queued_def)
    note e = append_event [OF a]
    show ?thesis
    proof (cases res)
      case (Some err)
      with Suc.prems t True a have "result = Some err" "st' = ?st2" by simp_all
      with q e p(2,3,5) True a Some show ?thesis
        by (intro exI [of _ "[]"] exI [of _ "(jn_store st, jn_files st)"]) (auto simp: queued_def)
    next
      case None
      let ?st3 = "?st2\<lparr>jn_have_pending := False\<rparr>"
      have "flush_loop env stamps n ?st3 = (result, st')" using Suc.prems t True a None by simp
      from Suc.IH [OF this] obtain w mid where w: "queued ?st3 = map jr_event w @ queued st'"
        "append_all env w (jn_store ?st3, jn_files ?st3) = Some mid"
        "case result of
           None \<Rightarrow> mid = (jn_store st', jn_files st') \<and> length w = min n (length (queued ?st3))
         | Some e \<Rightarrow> jn_have_pending st' \<and>
             (\<exists>r. kfsw_journal_store_append env r (fst mid) (snd mid) = (Some e, jn_pending st', jn_store st', jn_files st'))"
        by blast
      have "queued ?st3 = jn_events st1" by (simp add: queued_def)
      with w q p(2,3) a None show ?thesis
        by (intro exI [of _ "jn_pending st1 # w"] exI [of _ mid]) (auto split: option.splits)
    qed
  qed
qed

lemma open_store_queue:
  "open_store env st = (result, st') \<Longrightarrow> queued st' = queued st \<and> jn_started st' = jn_started st"
  by (auto simp: open_store_def queued_def Let_def split: if_splits prod.splits)

text \<open>A new journal describes its file, which has the header only.\<close>

lemma header_length [simp]: "length (journal_header env) = KFSW_JOURNAL_HEADER_SIZE"
  by (simp add: journal_header_def Let_def journal_sizes)

lemma new_journal_ok: "journal_ok env (journal_header env) ((zero_store (je_capacity env))\<lparr>js_ready := b\<rparr>)"
proof -
  have "header_valid env (journal_header env)"
    by (simp add: header_valid_def) (simp add: journal_header_def Let_def)
  moreover have "slot_bytes (journal_header env) i = []" for i by (simp add: slot_bytes_def slot_offset_def)
  then have "sequence_at env (journal_header env) i = 0" for i by (simp add: sequence_at_def record_at_def journal_sizes)
  then have "map (sequence_at env (journal_header env)) [0..<je_capacity env] = replicate (je_capacity env) 0"
    by (intro nth_equalityI) simp_all
  ultimately show ?thesis
    using fold_next_zeros [of 1 "replicate (je_capacity env) 0"]
    by (simp add: journal_ok_def zero_store_def next_of_def held_of_def)
qed

section \<open>Properties\<close>

text \<open>
  C13. The journal survives a reset. When a store describes its file and a record with a well-formed event was
  appended into it or right behind it, the file holds that record in its slot and every other record it held;
  opening the same file again succeeds, finds the same sequence numbers and the same next one, and reading by age
  returns the records of the file in the order of their sequence numbers, newest first.\<close>

theorem journal_survives_reset:
  assumes "fs_lawful (je_files env) contents position" and "fs_readable (je_files env) contents KFSW_JOURNAL_PATH"
    and "0 < je_capacity env" and "je_capacity env < 65536"
    and "contents f KFSW_JOURNAL_PATH = Some c" and "journal_ok env c store"
    and "kfsw_journal_store_append env r store f = (None, r1, store', f')"
    and "slot_offset (journal_slot store (jr_sequence r1)) \<le> length c"
    and "event_formed (jr_event r)" and "- (2 ^ 63) \<le> jr_utc_seconds r" and "jr_utc_seconds r < 2 ^ 63"
    and "contents f2 KFSW_JOURNAL_PATH = contents f' KFSW_JOURNAL_PATH"
  shows "\<exists>c' store2 f3. contents f' KFSW_JOURNAL_PATH = Some c' \<and> journal_ok env c' store'
    \<and> (\<forall>i. record_at env c' i = (if i = journal_slot store (jr_sequence r1) then Some r1 else record_at env c i))
    \<and> kfsw_journal_store_open env f2 = (None, store2, f3)
    \<and> js_sequences store2 = js_sequences store' \<and> js_next_sequence store2 = js_next_sequence store'
    \<and> (\<forall>age < held_of (js_sequences store'). \<exists>i q f4. kfsw_journal_store_get env age store2 f3 = (Inr q, f4)
         \<and> record_at env c' i = Some q \<and> jr_sequence q = newest_first (js_sequences store') ! age)"
proof -
  from append_durable [OF assms(1,5,6,3,7-11)] obtain c' where c': "contents f' KFSW_JOURNAL_PATH = Some c'"
    "journal_ok env c' store'"
    "\<forall>i. record_at env c' i = (if i = journal_slot store (jr_sequence r1) then Some r1 else record_at env c i)" by blast
  have "contents f2 KFSW_JOURNAL_PATH = Some c'" using assms(12) c'(1) by simp
  from open_ok [OF assms(1,2) this] c'(2) obtain store2 f3 where o: "kfsw_journal_store_open env f2 = (None, store2, f3)"
    "js_ready store2" "journal_ok env c' store2" "contents f3 KFSW_JOURNAL_PATH = Some c'"
    by (auto simp: journal_ok_def)
  have same: "js_sequences store2 = js_sequences store'" "js_next_sequence store2 = js_next_sequence store'"
    using c'(2) o(3) by (simp_all add: journal_ok_def)
  note g = get_newest [OF assms(1,2) o(4,3,2) assms(4), unfolded same]
  show ?thesis using c' o(1) same g by blast
qed

theorem journal_survives_reset_witness:
  "\<exists>r1 store' f' store2 f3 q f4. kfsw_journal_store_append demo_journal_env demo_record demo_store demo_journal_files = (None, r1, store', f')
     \<and> kfsw_journal_store_open demo_journal_env f' = (None, store2, f3)
     \<and> kfsw_journal_store_get demo_journal_env 0 store2 f3 = (Inr q, f4) \<and> jr_sequence q = newest_first (js_sequences store') ! 0"
proof -
  let ?append = "kfsw_journal_store_append demo_journal_env demo_record demo_store demo_journal_files"
  obtain r1 store' f' where a: "?append = (fst ?append, r1, store', f')" by (metis prod.collapse)
  have "fst ?append = None" by code_simp
  with a have a: "?append = (None, r1, store', f')" by simp
  have "held_of (js_sequences (fst (snd (snd ?append)))) = 1" by code_simp
  with a have held: "0 < held_of (js_sequences store')" by simp
  have env: "je_files demo_journal_env = ram_ops 9" "je_capacity demo_journal_env = 8" by (simp_all add: demo_journal_env_def)
  have data: "rf_files demo_journal_files KFSW_JOURNAL_PATH = Some (journal_header demo_journal_env)"
    by (simp add: demo_journal_files_def)
  have ok: "journal_ok demo_journal_env (journal_header demo_journal_env) demo_store"
    using new_journal_ok [of demo_journal_env True] by (simp add: demo_store_def env)
  have seq: "jr_sequence r1 = 1" using append_cases(1) [OF a] by (simp add: demo_record_def zero_record_def demo_store_def zero_store_def)
  have gap: "slot_offset (journal_slot demo_store (jr_sequence r1)) \<le> length (journal_header demo_journal_env)"
    by (simp add: seq journal_slot_def slot_offset_def)
  have formed: "event_formed (jr_event demo_record)"
    by (auto simp: demo_record_def demo_event_def zero_event_def event_formed_def event_refused_def)
  show ?thesis
    using journal_survives_reset [of demo_journal_env rf_files rf_position demo_journal_files _ demo_store demo_record r1 store' f' f',
        unfolded env, OF ram_lawful ram_readable _ _ data ok a gap formed] a held
    by (simp add: demo_record_def zero_record_def) blast
qed

text \<open>
  A flush keeps the order and loses nothing. The events waiting before a flush are those it appended, in
  order, followed by those still waiting; a flush that returns 0 appended as many as the depth of the queue allows,
  and one that fails keeps the event at which the store failed as the next to be written.\<close>

theorem journal_flush_in_order:
  assumes "kfsw_journal_flush env stamps st = (result, st')" and "jn_started st"
    and "\<And>k r. jr_event (stamps k r) = jr_event r"
  shows "\<exists>w. queued st = map jr_event w @ queued st'
    \<and> (case open_store env st of
         (Some e, st1) \<Rightarrow> w = [] \<and> result = Some e
       | (None, st1) \<Rightarrow> (\<exists>mid. append_all env w (jn_store st1, jn_files st1) = Some mid
           \<and> (case result of
                None \<Rightarrow> mid = (jn_store st', jn_files st') \<and> length w = min (je_queue_depth env) (length (queued st))
              | Some e \<Rightarrow> jn_have_pending st' \<and>
                  (\<exists>r. kfsw_journal_store_append env r (fst mid) (snd mid) = (Some e, jn_pending st', jn_store st', jn_files st')))))"
proof -
  obtain opened st1 where o: "open_store env st = (opened, st1)" by fastforce
  note q = open_store_queue [OF o]
  obtain res st2 where l: "(if opened = None then flush_loop env stamps (je_queue_depth env) st1 else (opened, st1)) = (res, st2)"
    by fastforce
  have r: "result = res" and s: "queued st' = queued st2" "jn_store st' = jn_store st2" "jn_files st' = jn_files st2"
    "jn_have_pending st' = jn_have_pending st2" "jn_pending st' = jn_pending st2"
    using assms(1,2) l by (auto simp: kfsw_journal_flush_def o Let_def queued_def)
  show ?thesis
  proof (cases opened)
    case None
    with l have "flush_loop env stamps (je_queue_depth env) st1 = (res, st2)" by simp
    from flush_loop_in_order [OF assms(3) this, unfolded conjunct1 [OF q]] show ?thesis
      unfolding o None prod.case option.case r s by blast
  next
    case (Some e)
    with l have "res = Some e" "st2 = st1" by simp_all
    with q r s show ?thesis by (intro exI [of _ "[]"]) (simp add: o Some)
  qed
qed

theorem journal_flush_in_order_witness:
  "\<exists>(w :: kfsw_journal_record list) st'. kfsw_journal_flush demo_journal_env (\<lambda>k. timestamp True None (Inl ENODATA)) demo_journal = (None, st')
     \<and> queued demo_journal = map jr_event w @ queued st' \<and> length w = 2"
proof -
  let ?flush = "kfsw_journal_flush demo_journal_env (\<lambda>k. timestamp True None (Inl ENODATA)) demo_journal"
  have "fst ?flush = None" by code_simp
  then have f: "?flush = (None, snd ?flush)" by (metis prod.collapse)
  have "jn_started demo_journal" and depth: "min (je_queue_depth demo_journal_env) (length (queued demo_journal)) = 2"
    and o: "open_store demo_journal_env demo_journal = (None, demo_journal)"
    by (simp_all add: demo_journal_def demo_journal_env_def queued_def open_store_def demo_store_def ram_ops_def)
  have stamp: "jr_event (timestamp True None (Inl ENODATA) r) = jr_event r" for r by (simp add: timestamp_def Let_def)
  have "\<exists>w :: kfsw_journal_record list. queued demo_journal = map jr_event w @ queued (snd ?flush) \<and> length w = 2"
    using journal_flush_in_order [OF f \<open>jn_started demo_journal\<close> stamp] unfolding o prod.case option.case depth by blast
  with f show ?thesis by blast
qed

end
