(* ===== verification/Scrub.thy ===== *)
theory Scrub
  imports Event Contracts
begin

text \<open>
  The image scrub, \<^verbatim>\<open>src/scrub/scrub.c\<close>: the resident images are read in pieces, their CRC is compared with a
  reference that was learned on command, and a region that no longer matches is counted and reported once.
  \<open>scrub_state\<close> holds the file's static variables; the flash, the CRC and the clock are parameters. The theorems:
  a measurement is the CRC of exactly the bytes the image header declares, and a region that was learned
  is found unchanged or changed as the flash says, each change counted once (an interpretation of
  \<open>crossing_latch\<close>).
\<close>

section \<open>Data\<close>

definition KFSW_EVENT_SCRUB_MISMATCH :: u16 where "KFSW_EVENT_SCRUB_MISMATCH = 1"
definition SCRUB_CHUNK :: nat where "SCRUB_CHUNK = 256"
definition IMAGE_HEADER_MAGIC :: u32 where "IMAGE_HEADER_MAGIC = 0x96f3b83d"
definition IMAGE_HEADER_SIZE_AT :: nat where "IMAGE_HEADER_SIZE_AT = 8"
definition IMAGE_SIZE_AT :: nat where "IMAGE_SIZE_AT = 12"
definition IMAGE_HEADER_READ :: nat where "IMAGE_HEADER_READ = 16"

datatype kfsw_scrub_region = KFSW_SCRUB_SLOT0 | KFSW_SCRUB_SLOT1 | KFSW_SCRUB_GOLDEN

fun region_value :: "kfsw_scrub_region \<Rightarrow> u8" where
  "region_value KFSW_SCRUB_SLOT0 = 0"
| "region_value KFSW_SCRUB_SLOT1 = 1"
| "region_value KFSW_SCRUB_GOLDEN = 2"

datatype kfsw_scrub_state =
  KFSW_SCRUB_EMPTY | KFSW_SCRUB_UNKNOWN | KFSW_SCRUB_OK | KFSW_SCRUB_MISMATCH | KFSW_SCRUB_UNREADABLE | KFSW_SCRUB_ABSENT

record kfsw_scrub_result =
  sr_id :: kfsw_scrub_region
  sr_state :: kfsw_scrub_state
  sr_bytes :: u32
  sr_reference :: u32
  sr_measured :: u32

record kfsw_scrub_status =
  ss_regions :: u8
  ss_sweeps :: u32
  ss_mismatches :: u32
  ss_last_sweep_ms :: u32
  ss_running :: bool

text \<open>\<open>sc_work\<close>: the periodic work is scheduled.\<close>

record scrub_state =
  sc_status :: kfsw_scrub_status
  sc_results :: "kfsw_scrub_region \<Rightarrow> kfsw_scrub_result"
  kfsw_scrub_references :: "kfsw_scrub_region \<Rightarrow> u32"
  sc_mismatching :: "kfsw_scrub_region \<Rightarrow> bool"
  sc_work :: bool

text \<open>
  One partition as the flash map gives it: whether it opens, its size, and what a read of some bytes at an offset
  returns. \<open>None\<close> stands for a partition the build does not have.
\<close>

record flash_area =
  fa_opens :: bool
  fa_size :: u32
  flash_area_read :: "u32 \<Rightarrow> u32 \<Rightarrow> bytes option"

record scrub_env =
  se_area :: "kfsw_scrub_region \<Rightarrow> flash_area option"
  se_slot_write_offset :: u32
  se_crc32_update :: "u32 \<Rightarrow> bytes \<Rightarrow> u32"

text \<open>The static variables before the first sweep.\<close>

definition scrub_boot :: "scrub_env \<Rightarrow> scrub_state" where
  "scrub_boot env =
     \<lparr>sc_status = \<lparr>ss_regions = (if Option.is_none (se_area env KFSW_SCRUB_SLOT0) then 0 else 1)
          + (if Option.is_none (se_area env KFSW_SCRUB_SLOT1) then 0 else 1) + (if Option.is_none (se_area env KFSW_SCRUB_GOLDEN) then 0 else 1),
        ss_sweeps = 0, ss_mismatches = 0, ss_last_sweep_ms = 0, ss_running = False\<rparr>,
      sc_results = (\<lambda>r. \<lparr>sr_id = r, sr_state = (if Option.is_none (se_area env r) then KFSW_SCRUB_ABSENT else KFSW_SCRUB_UNKNOWN),
        sr_bytes = 0, sr_reference = 0, sr_measured = 0\<rparr>),
      kfsw_scrub_references = (\<lambda>r. 0), sc_mismatching = (\<lambda>r. False), sc_work = False\<rparr>"

section \<open>Measuring\<close>

text \<open>The regions' \<open>image_offset\<close>: \<open>at_fwu_write_offset\<close> for the secondary slot, \<open>at_partition_start\<close> for the others.\<close>

fun image_offset :: "scrub_env \<Rightarrow> kfsw_scrub_region \<Rightarrow> u32" where
  "image_offset env KFSW_SCRUB_SLOT0 = 0"
| "image_offset env KFSW_SCRUB_SLOT1 = se_slot_write_offset env"
| "image_offset env KFSW_SCRUB_GOLDEN = 0"

text \<open>\<open>sys_get_le16\<close> and \<open>sys_get_le32\<close>.\<close>

definition sys_get_le16 :: "bytes \<Rightarrow> u16" where "sys_get_le16 b = sys_get_be16 (rev (take 2 b))"
definition sys_get_le32 :: "bytes \<Rightarrow> u32" where "sys_get_le32 b = sys_get_be32 (rev (take 4 b))"

definition image_length :: "flash_area \<Rightarrow> u32 \<Rightarrow> errno + u32" where
  "image_length area offset =
     (case flash_area_read area offset (word_of_nat IMAGE_HEADER_READ) of
        None \<Rightarrow> Inl EIO
      | Some header \<Rightarrow>
          if sys_get_le32 header \<noteq> IMAGE_HEADER_MAGIC then Inl ENOENT
          else
            (let header_size = ucast (sys_get_le16 (drop IMAGE_HEADER_SIZE_AT header)) :: u32;
                 image_size = sys_get_le32 (drop IMAGE_SIZE_AT header);
                 len = header_size + image_size
             in if header_size = 0 \<or> image_size = 0 then Inl ENOENT
                else if len > fa_size area - offset then Inl ENOENT
                else Inr len))"

text \<open>The loop over the chunks, with what is done of the length.\<close>

function measure_loop :: "scrub_env \<Rightarrow> flash_area \<Rightarrow> u32 \<Rightarrow> nat \<Rightarrow> nat \<Rightarrow> u32 \<Rightarrow> rc \<times> u32" where
  "measure_loop env area offset len progress crc =
     (if progress < len then
        (let span = min SCRUB_CHUNK (len - progress)
         in case flash_area_read area (offset + word_of_nat progress) (word_of_nat span) of
              None \<Rightarrow> (Some EIO, crc)
            | Some chunk \<Rightarrow> measure_loop env area offset len (progress + span) (se_crc32_update env crc chunk))
      else (None, crc))"
  by pat_completeness auto
termination
  by (relation "measure (\<lambda>(env, area, offset, len, progress, crc). len - progress)") (auto simp: SCRUB_CHUNK_def)

declare measure_loop.simps [simp del]

text \<open>
  The result, the bytes swept and their CRC. A read that fails half way leaves the CRC of the bytes before it in the
  caller's variable, which starts at zero.
\<close>

definition scrub_measure :: "scrub_env \<Rightarrow> flash_area \<Rightarrow> u32 \<Rightarrow> rc \<times> u32 \<times> u32" where
  "scrub_measure env area offset =
     (if \<not> fa_opens area then (Some EIO, 0, 0)
      else
        (case image_length area offset of
           Inl e \<Rightarrow> (Some e, 0, 0)
         | Inr len \<Rightarrow>
             (case measure_loop env area offset (unat len) 0 0 of
                (Some e, crc) \<Rightarrow> (Some e, 0, crc)
              | (None, crc) \<Rightarrow> (None, len, crc))))"

section \<open>Sweeping\<close>

definition scrub_record ::
  "kfsw_scrub_region \<Rightarrow> kfsw_scrub_state \<Rightarrow> u32 \<Rightarrow> u32 \<Rightarrow> scrub_state \<Rightarrow> scrub_state" where
  "scrub_record region state bytes measured st =
     st\<lparr>sc_results := (sc_results st)(region := (sc_results st region)\<lparr>sr_state := state, sr_bytes := bytes,
          sr_measured := measured, sr_reference := kfsw_scrub_references st region\<rparr>)\<rparr>"

text \<open>The state a measurement leads to.\<close>

definition verdict :: "rc \<Rightarrow> u32 \<Rightarrow> u32 \<Rightarrow> kfsw_scrub_state" where
  "verdict result reference measured =
     (if result = Some ENOENT then KFSW_SCRUB_EMPTY
      else if result \<noteq> None then KFSW_SCRUB_UNREADABLE
      else if reference = 0 then KFSW_SCRUB_UNKNOWN
      else if reference = measured then KFSW_SCRUB_OK
      else KFSW_SCRUB_MISMATCH)"

definition scrub_event :: "u64 \<Rightarrow> kfsw_scrub_region \<Rightarrow> u32 \<Rightarrow> event_request" where
  "scrub_event now region measured =
     \<lparr>rq_source = source_value KFSW_EVENT_SOURCE_SCRUB, rq_id = KFSW_EVENT_SCRUB_MISMATCH,
      rq_severity = severity_value KFSW_EVENT_ERROR, rq_payload = Some (region_value region # sys_put_be32 measured),
      rq_payload_size = 5, rq_now_us = now\<rparr>"

text \<open>What a mismatch does under the lock: it is counted and reported when it is new.\<close>

definition note_mismatch :: "u64 \<Rightarrow> kfsw_scrub_region \<Rightarrow> u32 \<Rightarrow> scrub_state \<times> event_state \<Rightarrow> scrub_state \<times> event_state" where
  "note_mismatch now region measured = (\<lambda>(st, ev).
     if sc_mismatching st region then (st, ev)
     else
       (st\<lparr>sc_mismatching := (sc_mismatching st)(region := True),
           sc_status := (sc_status st)\<lparr>ss_mismatches := saturating_increment (ss_mismatches (sc_status st))\<rparr>\<rparr>,
        kfsw_event_emit (scrub_event now region measured) ev))"

definition sweep_one ::
  "scrub_env \<Rightarrow> u64 \<Rightarrow> kfsw_scrub_region \<Rightarrow> scrub_state \<times> event_state \<Rightarrow> rc \<times> scrub_state \<times> event_state" where
  "sweep_one env now region = (\<lambda>(st, ev).
     case se_area env region of
       None \<Rightarrow> (Some ENODEV, scrub_record region KFSW_SCRUB_ABSENT 0 0 st, ev)
     | Some area \<Rightarrow>
         (case scrub_measure env area (image_offset env region) of
            (result, bytes, measured) \<Rightarrow>
              (let state = verdict result (kfsw_scrub_references st region) measured;
                   st1 = scrub_record region state bytes measured st
               in (None, if state = KFSW_SCRUB_MISMATCH then note_mismatch now region measured (st1, ev)
                         else (st1\<lparr>sc_mismatching := (sc_mismatching st1)(region := False)\<rparr>, ev)))))"

text \<open>A region outside the enumeration is \<open>None\<close>.\<close>

definition kfsw_scrub_sweep_region ::
  "scrub_env \<Rightarrow> u64 \<Rightarrow> kfsw_scrub_region option \<Rightarrow> scrub_state \<times> event_state \<Rightarrow> rc \<times> scrub_state \<times> event_state" where
  "kfsw_scrub_sweep_region env now region s =
     (case region of None \<Rightarrow> (Some EINVAL, s) | Some r \<Rightarrow> sweep_one env now r s)"

definition scrub_regions :: "kfsw_scrub_region list" where
  "scrub_regions = [KFSW_SCRUB_SLOT0, KFSW_SCRUB_SLOT1, KFSW_SCRUB_GOLDEN]"

fun sweep_regions ::
  "scrub_env \<Rightarrow> u64 \<Rightarrow> kfsw_scrub_region list \<Rightarrow> nat \<Rightarrow> scrub_state \<times> event_state \<Rightarrow> nat \<times> scrub_state \<times> event_state" where
  "sweep_regions env now [] swept s = (swept, s)"
| "sweep_regions env now (r # rs) swept s =
     (case sweep_one env now r s of
        (result, s') \<Rightarrow> sweep_regions env now rs (if result = None then Suc swept else swept) s')"

definition kfsw_scrub_sweep ::
  "scrub_env \<Rightarrow> u64 \<Rightarrow> u32 \<Rightarrow> scrub_state \<times> event_state \<Rightarrow> nat \<times> scrub_state \<times> event_state" where
  "kfsw_scrub_sweep env now uptime_ms s =
     (case sweep_regions env now scrub_regions 0 s of
        (swept, st, ev) \<Rightarrow>
          (swept, st\<lparr>sc_status := (sc_status st)\<lparr>ss_sweeps := saturating_increment (ss_sweeps (sc_status st)),
             ss_last_sweep_ms := uptime_ms\<rparr>\<rparr>, ev))"

text \<open>
  \<open>persist\<close> is the outcome of \<open>kfsw_param_persist_save\<close> on the state with the new reference, \<open>None\<close> in a build
  without persistence.
\<close>

definition kfsw_scrub_learn ::
  "scrub_env \<Rightarrow> u64 \<Rightarrow> (scrub_state \<Rightarrow> rc) option \<Rightarrow> kfsw_scrub_region option \<Rightarrow> scrub_state \<times> event_state
     \<Rightarrow> rc \<times> scrub_state \<times> event_state" where
  "kfsw_scrub_learn env now persist region s =
     (case region of
        None \<Rightarrow> (Some EINVAL, s)
      | Some r \<Rightarrow>
          (case sweep_one env now r s of
             (Some e, s1) \<Rightarrow> (Some e, s1)
           | (None, st, ev) \<Rightarrow>
               if sr_state (sc_results st r) = KFSW_SCRUB_EMPTY then (Some ENOENT, st, ev)
               else if sr_state (sc_results st r) = KFSW_SCRUB_UNREADABLE then (Some EIO, st, ev)
               else
                 (let measured = sr_measured (sc_results st r);
                      st1 = st\<lparr>kfsw_scrub_references := (kfsw_scrub_references st)(r := measured),
                               sc_results := (sc_results st)(r := (sc_results st r)\<lparr>sr_reference := measured, sr_state := KFSW_SCRUB_OK\<rparr>),
                               sc_mismatching := (sc_mismatching st)(r := False)\<rparr>
                  in case persist of
                       None \<Rightarrow> (None, st1, ev)
                     | Some save \<Rightarrow> (if save st1 \<noteq> None then Some EIO else None, st1, ev))))"

section \<open>The service\<close>

definition scrub_work_handler :: "scrub_env \<Rightarrow> u64 \<Rightarrow> u32 \<Rightarrow> scrub_state \<times> event_state \<Rightarrow> scrub_state \<times> event_state" where
  "scrub_work_handler env now uptime_ms s =
     (case kfsw_scrub_sweep env now uptime_ms s of
        (swept, st, ev) \<Rightarrow> (st\<lparr>sc_work := ss_running (sc_status st)\<rparr>, ev))"

definition kfsw_scrub_start ::
  "scrub_env \<Rightarrow> u64 \<Rightarrow> u32 \<Rightarrow> scrub_state \<times> event_state \<Rightarrow> rc \<times> scrub_state \<times> event_state" where
  "kfsw_scrub_start env now uptime_ms = (\<lambda>(st, ev).
     if ss_running (sc_status st) then (Some EALREADY, st, ev)
     else
       (case kfsw_scrub_sweep env now uptime_ms (st\<lparr>sc_status := (sc_status st)\<lparr>ss_running := True\<rparr>\<rparr>, ev) of
          (swept, st1, ev1) \<Rightarrow> (None, st1\<lparr>sc_work := True\<rparr>, ev1)))"

definition kfsw_scrub_stop :: "scrub_state \<Rightarrow> rc \<times> scrub_state" where
  "kfsw_scrub_stop st =
     (if \<not> ss_running (sc_status st) then (Some EALREADY, st)
      else (None, st\<lparr>sc_status := (sc_status st)\<lparr>ss_running := False\<rparr>, sc_work := False\<rparr>))"

definition kfsw_scrub_get_status :: "dest \<Rightarrow> scrub_state \<Rightarrow> kfsw_scrub_status option" where
  "kfsw_scrub_get_status status st = (if status = Null then None else Some (sc_status st))"

fun region_name :: "kfsw_scrub_region \<Rightarrow> string" where
  "region_name KFSW_SCRUB_SLOT0 = ''slot0''"
| "region_name KFSW_SCRUB_SLOT1 = ''slot1''"
| "region_name KFSW_SCRUB_GOLDEN = ''golden''"

text \<open>A result comes with the name of its region.\<close>

definition kfsw_scrub_get_result ::
  "kfsw_scrub_region option \<Rightarrow> dest \<Rightarrow> scrub_state \<Rightarrow> errno + (string \<times> kfsw_scrub_result)" where
  "kfsw_scrub_get_result region result st =
     (case region of
        None \<Rightarrow> Inl EINVAL
      | Some r \<Rightarrow> if result = Null then Inl EINVAL else Inr (region_name r, sc_results st r))"

fun visit_regions ::
  "(string \<times> kfsw_scrub_result \<Rightarrow> 'c \<Rightarrow> bool \<times> 'c) \<Rightarrow> kfsw_scrub_region list \<Rightarrow> scrub_state \<Rightarrow> 'c \<Rightarrow> 'c" where
  "visit_regions visitor [] st context = context"
| "visit_regions visitor (r # rs) st context =
     (case visitor (region_name r, sc_results st r) context of
        (go_on, context') \<Rightarrow> if go_on then visit_regions visitor rs st context' else context')"

definition kfsw_scrub_visit_regions ::
  "(string \<times> kfsw_scrub_result \<Rightarrow> 'c \<Rightarrow> bool \<times> 'c) option \<Rightarrow> scrub_state \<Rightarrow> 'c \<Rightarrow> 'c" where
  "kfsw_scrub_visit_regions visitor st context =
     (case visitor of None \<Rightarrow> context | Some v \<Rightarrow> visit_regions v scrub_regions st context)"

section \<open>The contract: flash, CRC and images\<close>

text \<open>
  What the service relies on: a partition that opens and reads back its \<open>content\<close>, and a CRC that can be
  computed piece by piece.
\<close>

definition flash_holds :: "bytes \<Rightarrow> flash_area \<Rightarrow> bool" where
  "flash_holds content area \<longleftrightarrow> fa_opens area \<and> unat (fa_size area) = length content
     \<and> (\<forall>offset n. unat offset + unat n \<le> length content
          \<longrightarrow> flash_area_read area offset n = Some (take (unat n) (drop (unat offset) content)))"

definition crc_in_pieces :: "(u32 \<Rightarrow> bytes \<Rightarrow> u32) \<Rightarrow> bool" where
  "crc_in_pieces update \<longleftrightarrow> (\<forall>h. update h [] = h) \<and> (\<forall>h a b. update (update h a) b = update h (a @ b))"

text \<open>The image a header declares at an offset: header and body, \<open>None\<close> where there is no image.\<close>

definition declared_image :: "bytes \<Rightarrow> u32 \<Rightarrow> bytes option" where
  "declared_image content offset =
     (let header = drop (unat offset) content;
          header_size = ucast (sys_get_le16 (drop IMAGE_HEADER_SIZE_AT header)) :: u32;
          image_size = sys_get_le32 (drop IMAGE_SIZE_AT header);
          len = unat (header_size + image_size)
      in if sys_get_le32 header = IMAGE_HEADER_MAGIC \<and> header_size \<noteq> 0 \<and> image_size \<noteq> 0 \<and> unat offset + len \<le> length content
         then Some (take len header) else None)"

text \<open>What the sweep of a region holding \<open>content\<close> should conclude.\<close>

definition scrub_spec :: "(u32 \<Rightarrow> bytes \<Rightarrow> u32) \<Rightarrow> bytes \<Rightarrow> u32 \<Rightarrow> u32 \<Rightarrow> kfsw_scrub_state" where
  "scrub_spec update content offset reference =
     (case declared_image content offset of
        None \<Rightarrow> KFSW_SCRUB_EMPTY
      | Some img \<Rightarrow> if reference = 0 then KFSW_SCRUB_UNKNOWN
          else if reference = update 0 img then KFSW_SCRUB_OK else KFSW_SCRUB_MISMATCH)"

text \<open>Whether a sweep of a region ends in a mismatch, for what it reads from the environment and the references.\<close>

definition differs :: "scrub_env \<Rightarrow> (kfsw_scrub_region \<Rightarrow> u32) \<Rightarrow> kfsw_scrub_region \<Rightarrow> bool" where
  "differs env references region =
     (case se_area env region of
        None \<Rightarrow> False
      | Some area \<Rightarrow>
          (case scrub_measure env area (image_offset env region) of
             (result, bytes, measured) \<Rightarrow> verdict result (references region) measured = KFSW_SCRUB_MISMATCH))"

text \<open>The sweep of one region as a step on the state, for an environment and a time.\<close>

definition present :: "kfsw_scrub_region \<Rightarrow> scrub_env \<times> u64 \<Rightarrow> bool" where
  "present region i \<longleftrightarrow> \<not> Option.is_none (se_area (fst i) region)"

definition sweep_state ::
  "kfsw_scrub_region \<Rightarrow> scrub_env \<times> u64 \<Rightarrow> scrub_state \<times> event_state \<Rightarrow> scrub_state \<times> event_state" where
  "sweep_state region i s = snd (sweep_one (fst i) (snd i) region s)"

text \<open>One periodic sweep of all regions as a step: the environment, the time and the uptime.\<close>

definition scrub_pass :: "scrub_env \<times> u64 \<times> u32 \<Rightarrow> scrub_state \<times> event_state \<Rightarrow> scrub_state \<times> event_state" where
  "scrub_pass i s = (case i of (env, now, uptime_ms) \<Rightarrow> scrub_work_handler env now uptime_ms s)"

text \<open>The changes of one region over a run of sweeps, and those of all regions.\<close>

definition region_changes :: "kfsw_scrub_region \<Rightarrow> scrub_state \<Rightarrow> (scrub_env \<times> u64 \<times> u32) list \<Rightarrow> nat" where
  "region_changes region st inputs =
     crossings (sc_mismatching st region)
       (map (\<lambda>i. differs (fst i) (kfsw_scrub_references st) region)
          (filter (\<lambda>i. present region (fst i, fst (snd i))) inputs))"

definition scrub_changes :: "scrub_state \<Rightarrow> (scrub_env \<times> u64 \<times> u32) list \<Rightarrow> nat" where
  "scrub_changes st inputs = sum_list (map (\<lambda>r. region_changes r st inputs) scrub_regions)"

text \<open>A region that the sweep finds changed and that was not known to be.\<close>

definition fresh :: "scrub_env \<times> u64 \<Rightarrow> scrub_state \<Rightarrow> kfsw_scrub_region \<Rightarrow> bool" where
  "fresh i st r \<longleftrightarrow> present r i \<and> differs (fst i) (kfsw_scrub_references st) r \<and> \<not> sc_mismatching st r"

text \<open>What a sweep of a region relies on: its partition reads back \<open>content\<close>, and a header fits where the image starts.\<close>

definition region_holds :: "scrub_env \<Rightarrow> kfsw_scrub_region \<Rightarrow> bytes \<Rightarrow> bool" where
  "region_holds env region content \<longleftrightarrow>
     crc_in_pieces (se_crc32_update env)
     \<and> (\<exists>area. se_area env region = Some area \<and> flash_holds content area)
     \<and> unat (image_offset env region) + IMAGE_HEADER_READ \<le> length content"

text \<open>A partition in memory, and a checksum that adds up the bytes.\<close>

definition ram_area :: "bytes \<Rightarrow> flash_area" where
  "ram_area content = \<lparr>fa_opens = True, fa_size = word_of_nat (length content),
     flash_area_read = (\<lambda>offset n. if unat offset + unat n \<le> length content
       then Some (take (unat n) (drop (unat offset) content)) else None)\<rparr>"

definition demo_scrub_env :: "bytes \<Rightarrow> scrub_env" where
  "demo_scrub_env content = \<lparr>se_area = (\<lambda>r. if r = KFSW_SCRUB_GOLDEN then Some (ram_area content) else None),
     se_slot_write_offset = 0, se_crc32_update = (\<lambda>h b. h + sum_list (map ucast b))\<rparr>"

definition demo_image :: "u8 \<Rightarrow> bytes" where
  "demo_image b = [0x3d, 0xb8, 0xf3, 0x96, 0, 0, 0, 0, 16, 0, 0, 0, 4, 0, 0, 0, 1, 2, b, 4, 0xff, 0xff]"

section \<open>A measurement is the CRC of the image\<close>

lemma take_take_drop_append:
  "n \<le> m \<Longrightarrow> take n (drop k xs) @ take (m - n) (drop (k + n) xs) = take m (drop k xs)"
  by (metis add.commute drop_drop le_add_diff_inverse take_add)

lemma flash_read:
  "flash_holds content area \<Longrightarrow> unat offset + unat n \<le> length content \<Longrightarrow>
   flash_area_read area offset n = Some (take (unat n) (drop (unat offset) content))"
  by (simp add: flash_holds_def)

lemma flash_size:
  assumes "flash_holds content area"
  shows "length content < 4294967296"
  using assms unat_u32_bound [of "fa_size area"] by (simp add: flash_holds_def)

lemma flash_read_at:
  assumes "flash_holds content area" and "unat offset + k + n \<le> length content"
  shows "flash_area_read area (offset + word_of_nat k) (word_of_nat n) = Some (take n (drop (unat offset + k) content))"
proof -
  have small: "length content < 4294967296" using flash_size [OF assms(1)] .
  have k: "unat (word_of_nat k :: u32) = k" and n: "unat (word_of_nat n :: u32) = n"
    using assms(2) small by (simp_all add: unat_word_of_nat_small)
  then have "unat (offset + word_of_nat k) = unat offset + k"
    using assms(2) small by (simp add: unat_plus_small)
  with n show ?thesis using flash_read [OF assms(1), of "offset + word_of_nat k" "word_of_nat n"] assms(2) by simp
qed

lemma measure_loop_exact:
  assumes "flash_holds content area" and "crc_in_pieces (se_crc32_update env)"
    and "progress \<le> len" and "unat offset + len \<le> length content"
  shows "measure_loop env area offset len progress crc =
      (None, se_crc32_update env crc (take (len - progress) (drop (unat offset + progress) content)))"
  using assms(3)
proof (induction "len - progress" arbitrary: progress crc rule: less_induct)
  case less
  show ?case
  proof (cases "progress < len")
    case True
    define span where "span = min SCRUB_CHUNK (len - progress)"
    have span: "0 < span" "span \<le> len - progress" using True by (simp_all add: span_def SCRUB_CHUNK_def)
    then have read: "flash_area_read area (offset + word_of_nat progress) (word_of_nat span) =
        Some (take span (drop (unat offset + progress) content))"
      using flash_read_at [OF assms(1), of offset progress span] assms(4) less.prems by simp
    have "measure_loop env area offset len progress crc =
        measure_loop env area offset len (progress + span)
          (se_crc32_update env crc (take span (drop (unat offset + progress) content)))"
      by (subst measure_loop.simps) (use True read in \<open>simp add: span_def Let_def\<close>)
    also have "\<dots> = (None, se_crc32_update env (se_crc32_update env crc (take span (drop (unat offset + progress) content)))
        (take (len - (progress + span)) (drop (unat offset + (progress + span)) content)))"
      using span True by (intro less.hyps) simp_all
    also have "\<dots> = (None, se_crc32_update env crc (take (len - progress) (drop (unat offset + progress) content)))"
      using take_take_drop_append [OF span(2), of "unat offset + progress" content] assms(2)
      by (simp add: crc_in_pieces_def add.assoc)
    finally show ?thesis .
  next
    case False
    with less.prems assms(2) show ?thesis by (simp add: measure_loop.simps crc_in_pieces_def)
  qed
qed

text \<open>
  The length check of \<open>image_length\<close> is exact where the image starts inside the partition and a header fits behind
  that point.
\<close>

lemma le_take:
  "2 \<le> n \<Longrightarrow> sys_get_le16 (take n b) = sys_get_le16 b" "4 \<le> n \<Longrightarrow> sys_get_le32 (take n b) = sys_get_le32 b"
  by (simp_all add: sys_get_le16_def sys_get_le32_def min_def)

lemma image_length_exact:
  assumes "flash_holds content area" and "unat offset + IMAGE_HEADER_READ \<le> length content"
  shows "image_length area offset =
    (case declared_image content offset of None \<Rightarrow> Inl ENOENT | Some img \<Rightarrow> Inr (word_of_nat (length img)))"
proof -
  let ?h = "drop (unat offset) content"
  have read: "flash_area_read area offset (word_of_nat IMAGE_HEADER_READ) = Some (take IMAGE_HEADER_READ ?h)"
    using flash_read_at [OF assms(1), of offset 0 IMAGE_HEADER_READ] assms(2) by simp
  have header: "sys_get_le32 (take IMAGE_HEADER_READ ?h) = sys_get_le32 ?h"
    "sys_get_le16 (drop IMAGE_HEADER_SIZE_AT (take IMAGE_HEADER_READ ?h)) = sys_get_le16 (drop IMAGE_HEADER_SIZE_AT ?h)"
    "sys_get_le32 (drop IMAGE_SIZE_AT (take IMAGE_HEADER_READ ?h)) = sys_get_le32 (drop IMAGE_SIZE_AT ?h)"
    by (simp_all add: drop_take le_take IMAGE_HEADER_READ_def IMAGE_HEADER_SIZE_AT_def IMAGE_SIZE_AT_def)
  have room: "w > fa_size area - offset \<longleftrightarrow> \<not> unat offset + unat w \<le> length content" for w :: u32
  proof -
    have "unat (fa_size area - offset) = length content - unat offset"
      using assms by (simp add: flash_holds_def unat_sub word_le_nat_alt)
    then show ?thesis using assms(2) by (auto simp: word_less_nat_alt)
  qed
  have len: "length (take (unat w) ?h) = unat w" if "unat offset + unat w \<le> length content" for w :: u32
    using that by simp
  show ?thesis
    by (auto simp: image_length_def declared_image_def read header room len Let_def simp del: length_take)
qed

lemma scrub_measure_exact:
  assumes "flash_holds content area" and "crc_in_pieces (se_crc32_update env)"
    and "unat offset + IMAGE_HEADER_READ \<le> length content"
  shows "scrub_measure env area offset =
    (case declared_image content offset of
       None \<Rightarrow> (Some ENOENT, 0, 0)
     | Some img \<Rightarrow> (None, word_of_nat (length img), se_crc32_update env 0 img))"
proof (cases "declared_image content offset")
  case None
  then show ?thesis using image_length_exact [OF assms(1,3)] assms(1) by (simp add: scrub_measure_def flash_holds_def)
next
  case (Some img)
  then have img: "img = take (length img) (drop (unat offset) content)" "unat offset + length img \<le> length content"
    by (auto simp: declared_image_def Let_def split: if_splits)
  have "unat (word_of_nat (length img) :: u32) = length img"
    using img(2) flash_size [OF assms(1)] by (simp add: unat_word_of_nat_small)
  then have "measure_loop env area offset (unat (word_of_nat (length img) :: u32)) 0 0 = (None, se_crc32_update env 0 img)"
    using measure_loop_exact [OF assms(1,2), of 0 "length img" offset 0] img by simp
  then show ?thesis
    using Some image_length_exact [OF assms(1,3)] assms(1) by (simp add: scrub_measure_def flash_holds_def)
qed

section \<open>What a sweep does to a region\<close>

text \<open>The event service does not know the source of the scrub and refuses its events.\<close>

lemma mismatch_refused: "emit_refused (scrub_event now region measured)"
  by (simp add: emit_refused_def scrub_event_def source_is_known_def)

text \<open>The region that is swept: its result, its latch, the counter and the record; nothing else changes.\<close>

lemma sweep_one_absent:
  "se_area env r = None \<Longrightarrow> sweep_one env now r (st, ev) = (Some ENODEV, scrub_record r KFSW_SCRUB_ABSENT 0 0 st, ev)"
  by (simp add: sweep_one_def)

lemma sweep_one_frame:
  "kfsw_scrub_references (fst (sweep_state r i s)) = kfsw_scrub_references (fst s)"
  "sc_mismatching (fst (sweep_state r i s)) =
     (sc_mismatching (fst s))(r := if present r i then differs (fst i) (kfsw_scrub_references (fst s)) r else sc_mismatching (fst s) r)"
  by (cases s; cases i;
      auto simp: sweep_state_def sweep_one_def note_mismatch_def scrub_record_def differs_def present_def Let_def fun_eq_iff
        split: option.splits prod.splits)+

lemma sweep_one_counts:
  "unat (ss_mismatches (sc_status (fst (sweep_state r i s)))) =
     (if present r i \<and> differs (fst i) (kfsw_scrub_references (fst s)) r \<and> \<not> sc_mismatching (fst s) r
      then min (unat (ss_mismatches (sc_status (fst s))) + 1) 4294967295 else unat (ss_mismatches (sc_status (fst s))))"
  "event_contents (snd (sweep_state r i s)) = event_contents (snd s)"
  "rejected_count (snd (sweep_state r i s)) = rejected_count (snd s) +
     (if present r i \<and> differs (fst i) (kfsw_scrub_references (fst s)) r \<and> \<not> sc_mismatching (fst s) r then 1 else 0)"
  by (cases s; cases i;
      auto simp: sweep_state_def sweep_one_def note_mismatch_def scrub_record_def differs_def present_def Let_def
        unat_saturating_increment kfsw_event_emit_def mismatch_refused
        split: option.splits prod.splits)+

interpretation scrub_latch: crossing_latch "sweep_state r" "present r"
  "\<lambda>i s. differs (fst i) (kfsw_scrub_references (fst s)) r" "\<lambda>s. sc_mismatching (fst s) r"
  "\<lambda>s. unat (ss_mismatches (sc_status (fst s)))" 4294967295 for r
proof unfold_locales
  fix i j s
  show "unat (ss_mismatches (sc_status (fst s))) \<le> 4294967295"
    using unat_u32_bound [of "ss_mismatches (sc_status (fst s))"] by simp
qed (simp_all add: sweep_one_frame sweep_one_counts)

section \<open>Runs of sweeps\<close>

text \<open>A sweep of some regions, each once, is the sweep of each of them from the same latches.\<close>

lemma sweep_regions_state:
  "snd (sweep_regions env now rs n s) = fold (\<lambda>r. sweep_state r (env, now)) rs s"
  by (induction rs arbitrary: n s) (auto simp: sweep_state_def split: prod.splits)

lemma fresh_step: "r \<noteq> q \<Longrightarrow> fresh i (fst (sweep_state q i s)) r = fresh i (fst s) r"
  by (simp add: fresh_def sweep_one_frame)

lemma sweep_fold:
  assumes "distinct rs"
  shows "kfsw_scrub_references (fst (fold (\<lambda>r. sweep_state r i) rs s)) = kfsw_scrub_references (fst s)"
    "sc_mismatching (fst (fold (\<lambda>r. sweep_state r i) rs s)) r =
       (if r \<in> set rs \<and> present r i then differs (fst i) (kfsw_scrub_references (fst s)) r else sc_mismatching (fst s) r)"
    "unat (ss_mismatches (sc_status (fst (fold (\<lambda>r. sweep_state r i) rs s)))) =
       min (unat (ss_mismatches (sc_status (fst s))) + length (filter (fresh i (fst s)) rs)) 4294967295"
    "event_contents (snd (fold (\<lambda>r. sweep_state r i) rs s)) = event_contents (snd s)"
    "rejected_count (snd (fold (\<lambda>r. sweep_state r i) rs s)) =
       rejected_count (snd s) + word_of_nat (length (filter (fresh i (fst s)) rs))"
  using assms
proof (induction rs arbitrary: s)
  case Nil
  { case 3
    show ?case using scrub_latch.count_limit [of s] by simp }
next
  case (Cons q rs)
  have same: "filter (fresh i (fst (sweep_state q i s))) rs = filter (fresh i (fst s)) rs" if "distinct (q # rs)" for s
    by (intro filter_cong refl) (use that in \<open>metis distinct.simps(2) fresh_step\<close>)
  { case 1 then show ?case using Cons.IH(1) [of "sweep_state q i s"] by (simp add: sweep_one_frame)
  next case 2 then show ?case using Cons.IH(2) [of "sweep_state q i s"] by (auto simp: sweep_one_frame)
  next case 3 then show ?case
      using Cons.IH(3) [of "sweep_state q i s"] same [of s] by (auto simp: sweep_one_counts(1) fresh_def [of i "fst s" q] min_def)
  next case 4 then show ?case using Cons.IH(4) [of "sweep_state q i s"] by (simp add: sweep_one_counts)
  next case 5 then show ?case
      using Cons.IH(5) [of "sweep_state q i s"] same [of s] by (auto simp: sweep_one_counts(3) fresh_def [of i "fst s" q]) }
qed (simp_all)

lemma pass_state:
  "scrub_pass (env, now, uptime_ms) s = (st', ev') \<Longrightarrow>
   let t = fold (\<lambda>r. sweep_state r (env, now)) scrub_regions s
   in kfsw_scrub_references st' = kfsw_scrub_references (fst t) \<and> sc_mismatching st' = sc_mismatching (fst t)
      \<and> ss_mismatches (sc_status st') = ss_mismatches (sc_status (fst t)) \<and> sc_results st' = sc_results (fst t) \<and> ev' = snd t"
  using sweep_regions_state [of env now scrub_regions 0 s]
  by (auto simp: scrub_pass_def scrub_work_handler_def kfsw_scrub_sweep_def Let_def split: prod.splits)

lemma every_region: "distinct scrub_regions" "r \<in> set scrub_regions"
  by (simp add: scrub_regions_def) (cases r; simp add: scrub_regions_def)

lemma pass_frame:
  "kfsw_scrub_references (fst (scrub_pass i s)) = kfsw_scrub_references (fst s)"
  "sc_mismatching (fst (scrub_pass i s)) r = (if present r (fst i, fst (snd i))
     then differs (fst i) (kfsw_scrub_references (fst s)) r else sc_mismatching (fst s) r)"
  "unat (ss_mismatches (sc_status (fst (scrub_pass i s)))) =
     min (unat (ss_mismatches (sc_status (fst s))) + length (filter (fresh (fst i, fst (snd i)) (fst s)) scrub_regions)) 4294967295"
  "event_contents (snd (scrub_pass i s)) = event_contents (snd s)"
  "rejected_count (snd (scrub_pass i s)) =
     rejected_count (snd s) + word_of_nat (length (filter (fresh (fst i, fst (snd i)) (fst s)) scrub_regions))"
proof -
  obtain env now up where i: "i = (env, now, up)" by (cases i)
  note p = pass_state [of env now up s "fst (scrub_pass i s)" "snd (scrub_pass i s)", unfolded Let_def]
  note f = sweep_fold [OF every_region(1), of "(env, now)" s]
  show "kfsw_scrub_references (fst (scrub_pass i s)) = kfsw_scrub_references (fst s)"
    "sc_mismatching (fst (scrub_pass i s)) r = (if present r (fst i, fst (snd i))
       then differs (fst i) (kfsw_scrub_references (fst s)) r else sc_mismatching (fst s) r)"
    "unat (ss_mismatches (sc_status (fst (scrub_pass i s)))) =
       min (unat (ss_mismatches (sc_status (fst s))) + length (filter (fresh (fst i, fst (snd i)) (fst s)) scrub_regions)) 4294967295"
    "event_contents (snd (scrub_pass i s)) = event_contents (snd s)"
    "rejected_count (snd (scrub_pass i s)) =
       rejected_count (snd s) + word_of_nat (length (filter (fresh (fst i, fst (snd i)) (fst s)) scrub_regions))"
    using p f every_region(2) [of r] by (simp_all add: i)
qed

lemma changes_Cons:
  "scrub_changes (fst s) (i # inputs) =
     length (filter (fresh (fst i, fst (snd i)) (fst s)) scrub_regions) + scrub_changes (fst (scrub_pass i s)) inputs"
proof -
  have "region_changes r (fst s) (i # inputs) =
      (if fresh (fst i, fst (snd i)) (fst s) r then 1 else 0) + region_changes r (fst (scrub_pass i s)) inputs" for r
    by (simp add: region_changes_def pass_frame fresh_def)
  then show ?thesis by (simp add: scrub_changes_def scrub_regions_def)
qed

lemma run_changes:
  "unat (ss_mismatches (sc_status (fst (fold scrub_pass inputs s)))) =
     min (unat (ss_mismatches (sc_status (fst s))) + scrub_changes (fst s) inputs) 4294967295"
  "rejected_count (snd (fold scrub_pass inputs s)) = rejected_count (snd s) + word_of_nat (scrub_changes (fst s) inputs)"
  "event_contents (snd (fold scrub_pass inputs s)) = event_contents (snd s)"
proof (induction inputs arbitrary: s)
  case Nil
  have none: "scrub_changes (fst s) [] = 0" for s :: "scrub_state \<times> event_state" by (simp add: scrub_changes_def region_changes_def scrub_regions_def)
  { case 1 show ?case using none scrub_latch.count_limit [of s] by simp
  next case 2 show ?case using none by simp }
next
  case (Cons i inputs)
  { case 1 show ?case
      unfolding changes_Cons fold_simps Cons.IH(1) [of "scrub_pass i s"] pass_frame(3)
      by (simp add: min_def)
  next case 2 show ?case
      unfolding changes_Cons fold_simps Cons.IH(2) [of "scrub_pass i s"] pass_frame(5) by simp
  next case 3 show ?case unfolding fold_simps Cons.IH(3) [of "scrub_pass i s"] pass_frame(4) by (rule refl) }
qed (simp_all)

section \<open>What a sweep and a learned reference say\<close>

lemma sweep_one_spec:
  assumes "region_holds env r content"
  shows "\<exists>st' ev'. sweep_one env now r (st, ev) = (None, st', ev')
    \<and> sr_state (sc_results st' r) = scrub_spec (se_crc32_update env) content (image_offset env r) (kfsw_scrub_references st r)
    \<and> sr_measured (sc_results st' r) =
        (case declared_image content (image_offset env r) of None \<Rightarrow> 0 | Some img \<Rightarrow> se_crc32_update env 0 img)
    \<and> sr_bytes (sc_results st' r) =
        (case declared_image content (image_offset env r) of None \<Rightarrow> 0 | Some img \<Rightarrow> word_of_nat (length img))
    \<and> kfsw_scrub_references st' = kfsw_scrub_references st"
proof -
  obtain area where a: "se_area env r = Some area" and f: "flash_holds content area"
    and c: "crc_in_pieces (se_crc32_update env)"
    and h: "unat (image_offset env r) + IMAGE_HEADER_READ \<le> length content"
    using assms by (auto simp: region_holds_def)
  note m = scrub_measure_exact [OF f c h]
  show ?thesis
    using a by (cases "declared_image content (image_offset env r)")
      (auto simp: sweep_one_def m verdict_def scrub_spec_def scrub_record_def note_mismatch_def Let_def)
qed

lemma ram_area_holds: "length content < 4294967296 \<Longrightarrow> flash_holds content (ram_area content)"
  by (simp add: flash_holds_def ram_area_def unat_word_of_nat_small)

lemma demo_region_holds: "region_holds (demo_scrub_env (demo_image b)) KFSW_SCRUB_GOLDEN (demo_image b)"
  using ram_area_holds [of "demo_image b"]
  by (simp add: region_holds_def demo_scrub_env_def crc_in_pieces_def IMAGE_HEADER_READ_def demo_image_def add.assoc)

section \<open>Properties\<close>



text \<open>
  The mismatch counter counts changes and not sweeps: over any run of periodic sweeps it grows, up to its
  maximum, by the number of times a region was found to differ from its reference when the sweep before had not
  found it so; sweeps in a build without the region do not count. The event that is emitted for each change is refused by the event
  service, which does not know the source: the event record stays as it is and only its counter of refusals grows.
\<close>

theorem scrub_counts_changes:
  "let final = fold scrub_pass inputs (st, ev)
   in unat (ss_mismatches (sc_status (fst final))) = min (unat (ss_mismatches (sc_status st)) + scrub_changes st inputs) 4294967295
      \<and> rejected_count (snd final) = rejected_count ev + word_of_nat (scrub_changes st inputs)
      \<and> event_contents (snd final) = event_contents ev"
  using run_changes [of inputs "(st, ev)"] by (simp add: Let_def)

end
