(* ===== verification/Table.thy ===== *)
theory Table
  imports Param_Persist Event
begin

text \<open>
  Parameter tables as files, \<^verbatim>\<open>src/table/table.c\<close>: a file that carries values of one table is checked completely
  before any of it is applied, the values it replaces are kept so that it can be undone, and the values a table has
  can be written out as such a file.

  A node (\<open>table_node\<close>) is the parameter service, the files, the event record and the static variables of this
  file; the buffers \<open>image\<close>, \<open>pending\<close> and \<open>decoded\<close> live within one call and are values of the model.

  Proved: a load that fails leaves every parameter and the undo values as they were; a load that succeeds can be undone, which
  puts every parameter back; and a file that was dumped loads and restores the table.
\<close>

section \<open>Data\<close>

definition KFSW_TABLE_MAGIC :: bytes where "KFSW_TABLE_MAGIC = [0x4B, 0x54, 0x42, 0x4C]"
definition KFSW_TABLE_VERSION :: u16 where "KFSW_TABLE_VERSION = 1"
definition KFSW_TABLE_HEADER_SIZE :: nat where "KFSW_TABLE_HEADER_SIZE = 20"
definition KFSW_TABLE_CRC_OFFSET :: nat where "KFSW_TABLE_CRC_OFFSET = 16"
definition KFSW_TABLE_ENTRY_HEADER_SIZE :: nat where "KFSW_TABLE_ENTRY_HEADER_SIZE = 4"
definition KFSW_TABLE_TEMPORARY_SUFFIX :: string where "KFSW_TABLE_TEMPORARY_SUFFIX = ''.part''"
definition KFSW_TABLE_PATH_SIZE :: nat where "KFSW_TABLE_PATH_SIZE = 64"
definition KFSW_TABLE_DIRECTORY :: string where "KFSW_TABLE_DIRECTORY = ''/kfsw/tables''"

datatype kfsw_table_event = KFSW_EVENT_TABLE_REJECTED | KFSW_EVENT_TABLE_LOADED | KFSW_EVENT_TABLE_REVERTED

fun table_event_value :: "kfsw_table_event \<Rightarrow> u16" where
  "table_event_value KFSW_EVENT_TABLE_REJECTED = 1"
| "table_event_value KFSW_EVENT_TABLE_LOADED = 2"
| "table_event_value KFSW_EVENT_TABLE_REVERTED = 3"

datatype kfsw_table_state = KFSW_TABLE_EMPTY | KFSW_TABLE_LOADED | KFSW_TABLE_REVERTED

record kfsw_table_report =
  tr_table :: u8
  tr_entries :: u16
  tr_accepted :: u16
  tr_failed_entry :: u16
  tr_failed_offset :: u8
  tr_reason :: rc

record kfsw_table_status =
  ts_state :: kfsw_table_state
  ts_table :: u8
  ts_entries :: u16
  ts_loads :: u32
  ts_rejections :: u32
  ts_reverts :: u32
  ts_path :: string

text \<open>One entry as it sits in the file; \<open>fe_value\<close> points into the image, so it is the rest of it from the value on.\<close>

record file_entry =
  fe_value :: bytes
  fe_value_size :: u16
  fe_offset :: u8
  fe_type :: u8

text \<open>\<open>tb_saved\<close> is \<open>saved\<close> up to \<open>saved_count\<close>.\<close>

record table_state =
  tb_saved :: "(u16 \<times> kfsw_param_value) list"
  tb_status :: kfsw_table_status

record ('w, 'f) table_node =
  tn_param :: "'w param_state"
  tn_files :: 'f
  tn_table :: table_state
  tn_events :: event_state

text \<open>
  The build and its libraries: \<open>KFSW_TABLE_MAX_ENTRIES\<close>, the parameter configuration, whose longest string is
  \<open>KFSW_PARAM_WIRE_MAX_VALUE_SIZE\<close>, the CRC and the file system.
\<close>

record 'f table_env =
  te_max_entries :: nat
  te_config :: param_config
  te_crc32_ieee :: "bytes \<Rightarrow> u32"
  te_files :: "'f fs_ops"

definition KFSW_TABLE_MAX_BYTES :: "'f table_env \<Rightarrow> nat" where
  "KFSW_TABLE_MAX_BYTES env =
     KFSW_TABLE_HEADER_SIZE + te_max_entries env * (KFSW_TABLE_ENTRY_HEADER_SIZE + cfg_string_max (te_config env))"

definition table_boot :: table_state where
  "table_boot = \<lparr>tb_saved = [], tb_status = \<lparr>ts_state = KFSW_TABLE_EMPTY, ts_table = 0, ts_entries = 0, ts_loads = 0,
     ts_rejections = 0, ts_reverts = 0, ts_path = []\<rparr>\<rparr>"

definition empty_report :: kfsw_table_report where
  "empty_report = \<lparr>tr_table = 0, tr_entries = 0, tr_accepted = 0, tr_failed_entry = 0, tr_failed_offset = 0, tr_reason = None\<rparr>"

definition report_event ::
  "kfsw_table_event \<Rightarrow> u8 \<Rightarrow> u16 \<Rightarrow> u64 \<Rightarrow> event_state \<Rightarrow> event_state" where
  "report_event event table entries now =
     kfsw_event_emit \<lparr>rq_source = source_value KFSW_EVENT_SOURCE_TABLE, rq_id = table_event_value event,
       rq_severity = severity_value (if event = KFSW_EVENT_TABLE_LOADED then KFSW_EVENT_INFO else KFSW_EVENT_WARNING),
       rq_payload = Some (table # sys_put_be16 entries), rq_payload_size = 3, rq_now_us = now\<rparr>"

section \<open>Reading a file\<close>

definition read_image :: "'f table_env \<Rightarrow> string \<Rightarrow> 'f \<Rightarrow> (errno + bytes) \<times> 'f" where
  "read_image env path f =
     (case fs_stat (te_files env) path f of
        Inl e \<Rightarrow> (Inl e, f)
      | Inr (is_file, n) \<Rightarrow>
          if \<not> is_file then (Inl EBADMSG, f)
          else if n < KFSW_TABLE_HEADER_SIZE then (Inl EBADMSG, f)
          else if n > KFSW_TABLE_MAX_BYTES env then (Inl EFBIG, f)
          else
            (case fs_open (te_files env) path FS_READ f of
               (Some e, f1) \<Rightarrow> (Inl e, f1)
             | (None, f1) \<Rightarrow>
                 (case read_exact (te_files env) path n f1 of
                    (contents, f2) \<Rightarrow>
                      (case fs_close (te_files env) path f2 of
                         (closed, f3) \<Rightarrow>
                           (case contents of
                              Inl e \<Rightarrow> (Inl e, f3)
                            | Inr data \<Rightarrow> (case closed of Some e \<Rightarrow> (Inl e, f3) | None \<Rightarrow> (Inr data, f3)))))))"

text \<open>\<open>Inr\<close> the entry count and the table.\<close>

definition validate_header :: "'f table_env \<Rightarrow> bytes \<Rightarrow> errno + (u16 \<times> u8)" where
  "validate_header env data =
     (if take 4 data \<noteq> KFSW_TABLE_MAGIC then Inl EBADMSG
      else if sys_get_be16 (drop 4 data) \<noteq> KFSW_TABLE_VERSION then Inl ENOTSUP
      else if sys_get_be16 (drop 6 data) \<noteq> word_of_nat KFSW_TABLE_HEADER_SIZE then Inl EBADMSG
      else if sys_get_be32 (drop 8 data) \<noteq> word_of_nat (length data - KFSW_TABLE_HEADER_SIZE) then Inl EBADMSG
      else
        (let entry_count = sys_get_be16 (drop 12 data); table = data ! 14
         in if entry_count = 0 \<or> unat entry_count > te_max_entries env then Inl EBADMSG
            else if table < KFSW_PARAM_TABLE_CORE_FIRST \<or> table > KFSW_PARAM_TABLE_MODULE_LAST then Inl EBADMSG
            else if te_crc32_ieee env (take KFSW_TABLE_CRC_OFFSET data @ sys_put_be32 0 @ drop KFSW_TABLE_HEADER_SIZE data)
                 \<noteq> sys_get_be32 (drop KFSW_TABLE_CRC_OFFSET data)
            then Inl EBADMSG
            else Inr (entry_count, table)))"

definition table_next_entry :: "'f table_env \<Rightarrow> bytes \<Rightarrow> nat \<Rightarrow> errno + (file_entry \<times> nat)" where
  "table_next_entry env data offset =
     (if offset + KFSW_TABLE_ENTRY_HEADER_SIZE > length data then Inl EBADMSG
      else
        (let value_size = sys_get_be16 (drop (offset + 2) data);
             start = offset + KFSW_TABLE_ENTRY_HEADER_SIZE
         in if value_size = 0 \<or> unat value_size > cfg_string_max (te_config env)
               \<or> start + unat value_size > length data
            then Inl EBADMSG
            else Inr (\<lparr>fe_value = drop start data, fe_value_size = value_size, fe_offset = data ! offset,
                       fe_type = data ! (offset + 1)\<rparr>,
                      start + unat value_size)))"

text \<open>
  The body of the loop after the entry was read: its parameter and its value, or the reason it is refused.
  \<open>seen\<close> are the offsets of the entries before it.
\<close>

definition check_entry ::
  "'f table_env \<Rightarrow> u16 \<Rightarrow> u8 \<Rightarrow> u8 list \<Rightarrow> file_entry \<Rightarrow> 'w param_state \<Rightarrow> errno + ('w kfsw_param_entry \<times> kfsw_param_value)" where
  "check_entry env entry_count table seen entry st =
     (if fe_offset entry \<in> set seen then Inl EEXIST
      else
        (case kfsw_param_find_id (KFSW_PARAM_ID table (fe_offset entry)) st of
           None \<Rightarrow> Inl ENXIO
         | Some param_entry \<Rightarrow>
             if pi_read_only (en_info param_entry) then Inl EROFS
             else if \<not> Option.is_none (pd_apply (en_definition param_entry)) \<and> entry_count \<noteq> 1 then Inl ENOTSUP
             else
               (case kfsw_param_wire_decode (te_config env) param_entry (fe_type entry) (fe_value entry)
                   (fe_value_size entry) (param_memory st) of
                  Inl e \<Rightarrow> Inl e
                | Inr v \<Rightarrow> Inr (param_entry, v))))"

text \<open>
  The loop, with the entries left, the offset in the file, the offsets seen and the values kept so far; it gives the result, the report and the
  values kept (\<open>entries\<close> and \<open>decoded\<close>).
\<close>

fun table_check_entries ::
  "'f table_env \<Rightarrow> bytes \<Rightarrow> u16 \<Rightarrow> u8 \<Rightarrow> 'w param_state \<Rightarrow> nat \<Rightarrow> nat \<Rightarrow> u8 list
     \<Rightarrow> ('w kfsw_param_entry \<times> kfsw_param_value) list \<Rightarrow> kfsw_table_report
     \<Rightarrow> rc \<times> kfsw_table_report \<times> ('w kfsw_param_entry \<times> kfsw_param_value) list" where
  "table_check_entries env data entry_count table st 0 offset seen kept report =
     (if offset \<noteq> length data then (Some EBADMSG, report\<lparr>tr_reason := Some EBADMSG\<rparr>, kept)
      else (None, report\<lparr>tr_failed_entry := 0, tr_failed_offset := 0, tr_reason := None\<rparr>, kept))"
| "table_check_entries env data entry_count table st (Suc n) offset seen kept report =
     (case table_next_entry env data offset of
        Inl e \<Rightarrow> (Some EBADMSG, report\<lparr>tr_failed_entry := word_of_nat (length seen) + 1, tr_reason := Some e\<rparr>, kept)
      | Inr (entry, offset') \<Rightarrow>
          (let report1 = report\<lparr>tr_failed_entry := word_of_nat (length seen) + 1, tr_failed_offset := fe_offset entry\<rparr>
           in case check_entry env entry_count table seen entry st of
                Inl e \<Rightarrow> (Some EBADMSG, report1\<lparr>tr_reason := Some e\<rparr>, kept)
              | Inr found \<Rightarrow>
                  table_check_entries env data entry_count table st n offset' (seen @ [fe_offset entry]) (kept @ [found])
                    (report1\<lparr>tr_accepted := tr_accepted report1 + 1\<rparr>)))"

definition path_usable :: "string option \<Rightarrow> bool" where
  "path_usable path = (case path of None \<Rightarrow> False | Some p \<Rightarrow> p \<noteq> [] \<and> length p < KFSW_TABLE_PATH_SIZE)"

text \<open>\<open>prepare\<close>: the image, its entry count and its table.\<close>

definition prepare ::
  "'f table_env \<Rightarrow> string option \<Rightarrow> ('w, 'f) table_node \<Rightarrow> (errno + bytes \<times> u16 \<times> u8) \<times> ('w, 'f) table_node" where
  "prepare env path nd =
     (if \<not> path_usable path then (Inl EINVAL, nd)
      else if \<not> kfsw_param_is_initialized (tn_param nd) then (Inl EACCES, nd)
      else if \<not> storage_ready (te_files env) (tn_files nd) then (Inl ENODEV, nd)
      else
        (case read_image env (the path) (tn_files nd) of
           (Inl e, f) \<Rightarrow> (Inl e, nd\<lparr>tn_files := f\<rparr>)
         | (Inr data, f) \<Rightarrow>
             (case validate_header env data of
                Inl e \<Rightarrow> (Inl e, nd\<lparr>tn_files := f\<rparr>)
              | Inr (entry_count, table) \<Rightarrow> (Inr (data, entry_count, table), nd\<lparr>tn_files := f\<rparr>))))"

definition examine ::
  "'f table_env \<Rightarrow> string option \<Rightarrow> ('w, 'f) table_node
     \<Rightarrow> (rc \<times> kfsw_table_report \<times> ('w kfsw_param_entry \<times> kfsw_param_value) list) \<times> ('w, 'f) table_node" where
  "examine env path nd =
     (case prepare env path nd of
        (Inl e, nd1) \<Rightarrow> ((Some e, empty_report\<lparr>tr_reason := Some e\<rparr>, []), nd1)
      | (Inr (data, entry_count, table), nd1) \<Rightarrow>
          (table_check_entries env data entry_count table (tn_param nd1) (unat entry_count) KFSW_TABLE_HEADER_SIZE [] []
             (empty_report\<lparr>tr_table := table, tr_entries := entry_count\<rparr>), nd1))"

section \<open>The operations\<close>

text \<open>The report that is written where the caller asked for it.\<close>

fun report_out :: "dest \<Rightarrow> 'a \<Rightarrow> 'a option" where
  "report_out Null r = None"
| "report_out Dest r = Some r"

definition kfsw_table_validate ::
  "'f table_env \<Rightarrow> string option \<Rightarrow> dest \<Rightarrow> ('w, 'f) table_node
     \<Rightarrow> rc \<times> kfsw_table_report option \<times> ('w, 'f) table_node" where
  "kfsw_table_validate env path report nd =
     (case examine env path nd of ((result, found, kept), nd1) \<Rightarrow> (result, report_out report found, nd1))"

text \<open>The first loop of a load, the values that are about to be replaced; \<open>Inl\<close> the index that failed and why.\<close>

fun read_replaced ::
  "param_config \<Rightarrow> ('w kfsw_param_entry \<times> kfsw_param_value) list \<Rightarrow> (u16 \<times> kfsw_param_value) list \<Rightarrow> 'w param_mem
     \<Rightarrow> (nat \<times> errno) + (u16 \<times> kfsw_param_value) list" where
  "read_replaced cfg [] pending pm = Inr pending"
| "read_replaced cfg ((e, v) # kept) pending pm =
     (case kfsw_param_read_stored_entry cfg (Some e) Dest pm of
        (Inl err, pm') \<Rightarrow> Inl (length pending, err)
      | (Inr old, pm') \<Rightarrow> read_replaced cfg kept (pending @ [(pi_id (en_info e), old)]) pm)"

text \<open>The second loop, the writes; \<open>index\<close> counts those done.\<close>

fun apply_values ::
  "bool \<Rightarrow> ('w kfsw_param_entry \<times> kfsw_param_value) list \<Rightarrow> nat \<Rightarrow> 'w param_mem
     \<Rightarrow> (nat \<times> errno) option \<times> 'w param_mem" where
  "apply_values initialized [] index pm = (None, pm)"
| "apply_values initialized ((e, v) # kept) index pm =
     (case kfsw_param_wire_apply initialized e v pm of
        (Some err, pm') \<Rightarrow> (Some (index, err), pm')
      | (None, pm') \<Rightarrow> apply_values initialized kept (index + 1) pm')"

definition reject_load ::
  "dest \<Rightarrow> u64 \<Rightarrow> errno \<Rightarrow> kfsw_table_report \<Rightarrow> ('w, 'f) table_node \<Rightarrow> rc \<times> kfsw_table_report option \<times> ('w, 'f) table_node" where
  "reject_load report now e found nd =
     (let local = (if tr_reason found = None then found\<lparr>tr_reason := Some e\<rparr> else found);
          status = tb_status (tn_table nd)
      in (Some e, report_out report local,
          nd\<lparr>tn_table := (tn_table nd)\<lparr>tb_status := status\<lparr>ts_rejections := saturating_increment (ts_rejections status)\<rparr>\<rparr>,
             tn_events := report_event KFSW_EVENT_TABLE_REJECTED (tr_table local) (tr_entries local) now (tn_events nd)\<rparr>))"

definition fail_at :: "nat \<Rightarrow> ('w kfsw_param_entry \<times> kfsw_param_value) list \<Rightarrow> kfsw_table_report \<Rightarrow> kfsw_table_report" where
  "fail_at index kept found =
     found\<lparr>tr_failed_entry := word_of_nat (index + 1), tr_failed_offset := pi_offset (en_info (fst (kept ! index)))\<rparr>"

definition kfsw_table_load ::
  "'f table_env \<Rightarrow> u64 \<Rightarrow> string option \<Rightarrow> dest \<Rightarrow> ('w, 'f) table_node
     \<Rightarrow> rc \<times> kfsw_table_report option \<times> ('w, 'f) table_node" where
  "kfsw_table_load env now path report nd =
     (case examine env path nd of
        ((Some e, found, kept), nd1) \<Rightarrow> reject_load report now e found nd1
      | ((None, found, kept), nd1) \<Rightarrow>
          (case read_replaced (te_config env) kept [] (param_memory (tn_param nd1)) of
             Inl (index, e) \<Rightarrow> reject_load report now e (fail_at index kept found) nd1
           | Inr pending \<Rightarrow>
               (case apply_values (param_initialized (tn_param nd1)) kept 0 (param_memory (tn_param nd1)) of
                  (Some (index, e), pm) \<Rightarrow>
                    reject_load report now e (fail_at index kept found) (nd1\<lparr>tn_param := (tn_param nd1)\<lparr>param_memory := pm\<rparr>\<rparr>)
                | (None, pm) \<Rightarrow>
                    (let status = tb_status (tn_table nd1)
                     in (None, report_out report found,
                         nd1\<lparr>tn_param := (tn_param nd1)\<lparr>param_memory := pm\<rparr>,
                             tn_table := \<lparr>tb_saved = pending, tb_status = status\<lparr>ts_state := KFSW_TABLE_LOADED,
                               ts_table := tr_table found, ts_entries := tr_entries found,
                               ts_loads := saturating_increment (ts_loads status),
                               ts_path := strncpy_terminated KFSW_TABLE_PATH_SIZE (the path)\<rparr>\<rparr>,
                             tn_events := report_event KFSW_EVENT_TABLE_LOADED (tr_table found) (tr_entries found) now
                               (tn_events nd1)\<rparr>)))))"

text \<open>
  The two loops of \<open>kfsw_table_revert\<close>: the check of the values that were kept, which gives their parameters (the
  second loop looks them up again, in the same registry), and the writes.
\<close>

fun check_saved ::
  "'w param_state \<Rightarrow> nat \<Rightarrow> (u16 \<times> kfsw_param_value) list \<Rightarrow> errno + ('w kfsw_param_entry \<times> kfsw_param_value) list" where
  "check_saved st count [] = Inr []"
| "check_saved st count ((ident, v) # rest) =
     (case kfsw_param_find_id ident st of
        None \<Rightarrow> Inl ENOENT
      | Some e \<Rightarrow>
          if \<not> Option.is_none (pd_apply (en_definition e)) \<and> count \<noteq> 1 then Inl ENOTSUP
          else
            (case kfsw_param_validate_entry (Some e) (Some v) (param_memory st) of
               Some err \<Rightarrow> Inl err
             | None \<Rightarrow> (case check_saved st count rest of Inl err \<Rightarrow> Inl err | Inr es \<Rightarrow> Inr ((e, v) # es))))"

definition kfsw_table_revert :: "u64 \<Rightarrow> ('w, 'f) table_node \<Rightarrow> rc \<times> ('w, 'f) table_node" where
  "kfsw_table_revert now nd =
     (let t = tn_table nd; status = tb_status t; st = tn_param nd
      in if \<not> kfsw_param_is_initialized st then (Some EACCES, nd)
         else if ts_state status \<noteq> KFSW_TABLE_LOADED \<or> tb_saved t = [] then (Some ENOENT, nd)
         else
           (case check_saved st (length (tb_saved t)) (tb_saved t) of
              Inl e \<Rightarrow> (Some e, nd)
            | Inr es \<Rightarrow>
                (case apply_values (param_initialized st) es 0 (param_memory st) of
                   (Some (index, e), pm) \<Rightarrow> (Some e, nd\<lparr>tn_param := st\<lparr>param_memory := pm\<rparr>\<rparr>)
                 | (None, pm) \<Rightarrow>
                     (None, nd\<lparr>tn_param := st\<lparr>param_memory := pm\<rparr>,
                               tn_table := \<lparr>tb_saved = [], tb_status = status\<lparr>ts_state := KFSW_TABLE_REVERTED,
                                 ts_reverts := saturating_increment (ts_reverts status)\<rparr>\<rparr>,
                               tn_events := report_event KFSW_EVENT_TABLE_REVERTED (ts_table status)
                                 (word_of_nat (length es)) now (tn_events nd)\<rparr>))))"

text \<open>The loop of a dump: the bytes behind the header and the number of entries in them so far.\<close>

fun dump_entries ::
  "'f table_env \<Rightarrow> u8 \<Rightarrow> 'w kfsw_param_entry list \<Rightarrow> bytes \<Rightarrow> nat \<Rightarrow> 'w param_mem
     \<Rightarrow> (errno + bytes \<times> nat) \<times> 'w param_mem" where
  "dump_entries env table [] payload count pm = (Inr (payload, count), pm)"
| "dump_entries env table (e # es) payload count pm =
     (if pi_table (en_info e) \<noteq> table \<or> pi_read_only (en_info e) then dump_entries env table es payload count pm
      else
        (case kfsw_param_wire_type_of e of
           Inl err \<Rightarrow> dump_entries env table es payload count pm
         | Inr (type, value_size) \<Rightarrow>
             if count = te_max_entries env then (Inl E2BIG, pm)
             else
               (case kfsw_param_wire_encode (te_config env) e
                   (KFSW_TABLE_MAX_BYTES env - (KFSW_TABLE_HEADER_SIZE + length payload) - KFSW_TABLE_ENTRY_HEADER_SIZE) pm of
                  (Inl err, pm') \<Rightarrow> (Inl E2BIG, pm')
                | (Inr encoded, pm') \<Rightarrow>
                    dump_entries env table es
                      (payload @ [pi_offset (en_info e), type] @ sys_put_be16 (word_of_nat (length encoded)) @ encoded)
                      (count + 1) pm')))"

definition table_header :: "nat \<Rightarrow> nat \<Rightarrow> u8 \<Rightarrow> u32 \<Rightarrow> bytes" where
  "table_header payload_size count table crc =
     KFSW_TABLE_MAGIC @ sys_put_be16 KFSW_TABLE_VERSION @ sys_put_be16 (word_of_nat KFSW_TABLE_HEADER_SIZE)
       @ sys_put_be32 (word_of_nat payload_size) @ sys_put_be16 (word_of_nat count) @ [table, 0] @ sys_put_be32 crc"

text \<open>The entries written come with success; the caller's counter is set from them where there is one.\<close>

definition kfsw_table_dump ::
  "'f table_env \<Rightarrow> u8 \<Rightarrow> string option \<Rightarrow> dest \<Rightarrow> ('w, 'f) table_node \<Rightarrow> rc \<times> u16 option \<times> ('w, 'f) table_node" where
  "kfsw_table_dump env table path entries nd =
     (if \<not> path_usable path then (Some EINVAL, None, nd)
      else if table < KFSW_PARAM_TABLE_CORE_FIRST \<or> table > KFSW_PARAM_TABLE_MODULE_LAST then (Some EINVAL, None, nd)
      else if \<not> kfsw_param_is_initialized (tn_param nd) then (Some EACCES, None, nd)
      else if \<not> storage_ready (te_files env) (tn_files nd) then (Some ENODEV, None, nd)
      else
        (case dump_entries env table (parameter_table (tn_param nd)) [] 0 (param_memory (tn_param nd)) of
           (Inl e, pm) \<Rightarrow> (Some e, None, nd\<lparr>tn_param := (tn_param nd)\<lparr>param_memory := pm\<rparr>\<rparr>)
         | (Inr (payload, count), pm) \<Rightarrow>
             (let nd1 = nd\<lparr>tn_param := (tn_param nd)\<lparr>param_memory := pm\<rparr>\<rparr>
              in if count = 0 then (Some ENOENT, None, nd1)
                 else
                   (let crc = te_crc32_ieee env (table_header (length payload) count table 0 @ payload);
                        data = table_header (length payload) count table crc @ payload;
                        (made, f1) = fs_mkdir (te_files env) KFSW_TABLE_DIRECTORY (tn_files nd1)
                    in if made \<noteq> None \<and> made \<noteq> Some EEXIST then (made, None, nd1\<lparr>tn_files := f1\<rparr>)
                       else
                         (case kfsw_snapshot_write (te_files env) path (Some (the path @ KFSW_TABLE_TEMPORARY_SUFFIX)) (Some data) f1 of
                            (Some e, f2) \<Rightarrow> (Some e, None, nd1\<lparr>tn_files := f2\<rparr>)
                          | (None, f2) \<Rightarrow> (None, report_out entries (word_of_nat count), nd1\<lparr>tn_files := f2\<rparr>))))))"

definition kfsw_table_get_status :: "dest \<Rightarrow> ('w, 'f) table_node \<Rightarrow> errno + kfsw_table_status" where
  "kfsw_table_get_status out nd = (if out = Null then Inl EINVAL else Inr (tb_status (tn_table nd)))"

text \<open>A state outside the enumeration is \<open>None\<close>.\<close>

fun kfsw_table_state_name :: "kfsw_table_state option \<Rightarrow> string" where
  "kfsw_table_state_name (Some KFSW_TABLE_EMPTY) = ''empty''"
| "kfsw_table_state_name (Some KFSW_TABLE_LOADED) = ''loaded''"
| "kfsw_table_state_name (Some KFSW_TABLE_REVERTED) = ''reverted''"
| "kfsw_table_state_name None = ''unknown''"

section \<open>Specification vocabulary\<close>

text \<open>
  What a load is about to write: distinct registered and writable parameters with values that fit, and a parameter with an \<open>apply\<close>
  callback, the only kind of write that can fail, stands alone.
\<close>

definition plan_item :: "param_config \<Rightarrow> nat \<Rightarrow> 'w param_state \<Rightarrow> 'w kfsw_param_entry \<times> kfsw_param_value \<Rightarrow> bool" where
  "plan_item cfg count st = (\<lambda>(e, v). e \<in> set (parameter_table st) \<and> fits cfg e v \<and> \<not> pi_read_only (en_info e)
     \<and> (count \<noteq> 1 \<longrightarrow> pd_apply (en_definition e) = None))"

definition plan_ok :: "param_config \<Rightarrow> 'w param_state \<Rightarrow> ('w kfsw_param_entry \<times> kfsw_param_value) list \<Rightarrow> bool" where
  "plan_ok cfg st kept \<longleftrightarrow> kept \<noteq> [] \<and> distinct (map fst kept) \<and> list_all (plan_item cfg (length kept) st) kept"

text \<open>The parameters of a table that a dump writes, and the bytes of one of them.\<close>

definition dumped :: "u8 \<Rightarrow> 'w kfsw_param_entry \<Rightarrow> bool" where
  "dumped table e \<longleftrightarrow> pi_table (en_info e) = table \<and> \<not> pi_read_only (en_info e) \<and> ok (kfsw_param_wire_type_of e) \<noteq> None"

definition table_entry_bytes :: "'w param_mem \<Rightarrow> 'w kfsw_param_entry \<Rightarrow> bytes" where
  "table_entry_bytes pm e =
     [pi_offset (en_info e), wire_type e] @ sys_put_be16 (word_of_nat (length (file_bytes e pm))) @ file_bytes e pm"

text \<open>
  The entries \<open>L\<close> of a file that was dumped from memory \<open>pm\<close>, for a node that is ready: registered there, dumped, well
  formed in the memory they come from, accepted by their validators, and with an \<open>apply\<close> callback only on its own.
\<close>

definition table_loadable ::
  "param_config \<Rightarrow> u16 \<Rightarrow> u8 \<Rightarrow> 'w param_mem \<Rightarrow> 'w kfsw_param_entry list \<Rightarrow> 'w param_state \<Rightarrow> bool" where
  "table_loadable cfg count table pm L st \<longleftrightarrow>
     8 \<le> cfg_string_max cfg \<and> param_ready cfg st \<and> distinct (map (\<lambda>e. pi_offset (en_info e)) L)
     \<and> (\<forall>e \<in> set L. e \<in> set (parameter_table st) \<and> dumped table e \<and> stored_formed e pm \<and> accepts_stored cfg e pm
          \<and> (count \<noteq> 1 \<longrightarrow> pd_apply (en_definition e) = None))"

text \<open>The value each parameter has can be written again: its validator accepts it and its \<open>apply\<close> callback takes it.\<close>

definition rewritable :: "param_config \<Rightarrow> 'w param_state \<Rightarrow> 'w kfsw_param_entry \<Rightarrow> bool" where
  "rewritable cfg st e \<longleftrightarrow> accepts_stored cfg e (param_memory st)
     \<and> (\<forall>f pm. pd_apply (en_definition e) = Some f \<longrightarrow> fst (f (pv_scalar (entry_value cfg e (param_memory st))) pm) = None)"

text \<open>A parameter that takes every value of its type.\<close>

definition free_of_checks :: "'w kfsw_param_entry \<Rightarrow> bool" where
  "free_of_checks e \<longleftrightarrow> Option.is_none (pd_apply (en_definition e)) \<and> Option.is_none (pd_validate (en_definition e))
     \<and> Option.is_none (pd_validate_text (en_definition e)) \<and> Option.is_none (pd_validate_data (en_definition e))"

text \<open>A node with the two parameters of the demonstration, and files it dumped.\<close>

definition demo_table_env :: "ram_fs table_env" where
  "demo_table_env = \<lparr>te_max_entries = 4, te_config = demo_param_config, te_crc32_ieee = demo_crc, te_files = ram_ops 99\<rparr>"

definition demo_table_node :: "unit param_state \<Rightarrow> ram_fs \<Rightarrow> (unit, ram_fs) table_node" where
  "demo_table_node st f = \<lparr>tn_param = st, tn_files = f, tn_table = table_boot, tn_events = event_init 2\<rparr>"

definition demo_dumped :: "rc \<times> u16 option \<times> (unit, ram_fs) table_node" where
  "demo_dumped = kfsw_table_dump demo_table_env 25 (Some ''/t'') Dest (demo_table_node demo_set_state empty_fs)"

section \<open>Lemmas on checking\<close>

lemma ucast_param_id: "ucast (KFSW_PARAM_ID table offset) = offset"
  by (rule bit_word_eqI) (simp add: KFSW_PARAM_ID_def bit_simps)

lemma decode_fits:
  assumes "kfsw_param_wire_decode cfg e type value n pm = Inr v" and "unat n \<le> length value"
  shows "fits cfg e v"
proof -
  let ?z = "zero_value cfg (pi_type (en_info e)) (unat n)"
  obtain expected m where t: "kfsw_param_wire_type_of e = Inr (type, m)"
    and d: "decode_payload cfg e type value n ?z = Inr v"
    using assms(1) by (auto simp: kfsw_param_wire_decode_def split: sum.splits prod.splits if_splits option.splits)
  have z: "length (pv_scalar ?z) = 8" "length (pv_data ?z) = cfg_string_max cfg" "pv_type ?z = pi_type (en_info e)"
    "pv_size ?z = unat n" by (simp_all add: zero_value_def)
  have v: "length (pv_scalar v) = 8" "length (pv_data v) = cfg_string_max cfg" "pv_type v = pi_type (en_info e)"
    "pv_size v = unat n" "type = KFSW_PARAM_WIRE_DATA \<Longrightarrow> n = pi_array_size (en_info e)"
    using d z assms(2) by (auto simp: decode_payload_def wire_type_codes split: if_splits)
  have "pi_type (en_info e) = KFSW_PARAM_DATA \<Longrightarrow> type = KFSW_PARAM_WIRE_DATA"
    using wire_sizes(3) [OF t] by simp
  with v show ?thesis by (auto simp: fits_def entry_capacity_def)
qed

lemma next_entry_room: "table_next_entry env data offset = Inr (entry, offset') \<Longrightarrow> unat (fe_value_size entry) \<le> length (fe_value entry)"
  by (auto simp: table_next_entry_def Let_def split: if_splits)

lemma check_entry_plan:
  assumes "registry_ok (te_config env) st" and "check_entry env count table seen entry st = Inr (e, v)"
    and "unat (fe_value_size entry) \<le> length (fe_value entry)"
  shows "plan_item (te_config env) (unat count) st (e, v)" "fe_offset entry \<notin> set seen"
    "pi_id (en_info e) = KFSW_PARAM_ID table (fe_offset entry)"
proof -
  have f: "kfsw_param_find_id (KFSW_PARAM_ID table (fe_offset entry)) st = Some e"
    and d: "kfsw_param_wire_decode (te_config env) e (fe_type entry) (fe_value entry) (fe_value_size entry) (param_memory st) = Inr v"
    and a: "pd_apply (en_definition e) = None \<or> count = 1" "\<not> pi_read_only (en_info e)"
    and s: "fe_offset entry \<notin> set seen"
    using assms(2) by (auto simp: check_entry_def Option.is_none_def split: if_splits option.splits sum.splits)
  show "plan_item (te_config env) (unat count) st (e, v)"
    using find_id_Some [OF assms(1)] f decode_fits [OF d assms(3)] a by (auto simp: plan_item_def)
  show "fe_offset entry \<notin> set seen" by (rule s)
  show "pi_id (en_info e) = KFSW_PARAM_ID table (fe_offset entry)" using find_id_Some [OF assms(1)] f by simp
qed

lemma check_entries_plan:
  assumes "registry_ok (te_config env) st"
    and "table_check_entries env data count table st n offset seen kept report = (None, report', kept')"
    and "map (\<lambda>(e, v). pi_id (en_info e)) kept = map (KFSW_PARAM_ID table) seen" and "distinct seen"
    and "list_all (plan_item (te_config env) (unat count) st) kept"
  shows "length kept' = length kept + n \<and> distinct (map fst kept') \<and> list_all (plan_item (te_config env) (unat count) st) kept'"
  using assms(2-)
proof (induction n arbitrary: offset seen kept report)
  case 0
  have "inj (KFSW_PARAM_ID table)" by (metis injI ucast_param_id)
  then have "distinct (map (KFSW_PARAM_ID table) seen)" using 0(3) by (simp add: distinct_map inj_on_def inj_def)
  moreover have "map (\<lambda>(e, v). pi_id (en_info e)) kept = map (\<lambda>e. pi_id (en_info e)) (map fst kept)"
    by (simp add: case_prod_unfold)
  ultimately have "distinct (map fst kept)" using 0(2) by (metis distinct_map)
  with 0 show ?case by (auto split: if_splits)
next
  case (Suc n)
  obtain entry offset' where e: "table_next_entry env data offset = Inr (entry, offset')"
    using Suc.prems(1) by (cases "table_next_entry env data offset") auto
  obtain p v where c: "check_entry env count table seen entry st = Inr (p, v)"
    using Suc.prems(1) e by (cases "check_entry env count table seen entry st") (auto simp: Let_def)
  note plan = check_entry_plan [OF assms(1) c next_entry_room [OF e]]
  from Suc.prems(1) e c obtain report1 where
    "table_check_entries env data count table st n offset' (seen @ [fe_offset entry]) (kept @ [(p, v)]) report1 = (None, report', kept')"
    by (auto simp: Let_def)
  from Suc.IH [OF this] plan Suc.prems(2-4) show ?case by simp
qed

lemma examine_plan:
  assumes "registry_ok (te_config env) (tn_param nd)" and "examine env path nd = ((None, found, kept), nd1)"
  shows "plan_ok (te_config env) (tn_param nd1) kept"
    "nd1 = nd\<lparr>tn_files := tn_files nd1\<rparr>"
proof -
  obtain data count table where p: "prepare env path nd = (Inr (data, count, table), nd1)"
    and c: "table_check_entries env data count table (tn_param nd1) (unat count) KFSW_TABLE_HEADER_SIZE [] []
      (empty_report\<lparr>tr_table := table, tr_entries := count\<rparr>) = (None, found, kept)"
    using assms(2) by (auto simp: examine_def split: prod.splits sum.splits)
  show same: "nd1 = nd\<lparr>tn_files := tn_files nd1\<rparr>"
    using p by (auto simp: prepare_def split: if_splits prod.splits sum.splits)
  have count: "count \<noteq> 0"
    using p by (auto simp: prepare_def validate_header_def Let_def split: if_splits prod.splits sum.splits)
  have st: "tn_param nd1 = tn_param nd" using same by (metis table_node.select_convs(1) table_node.surjective table_node.update_convs(2))
  from check_entries_plan [OF assms(1) c [unfolded st]] have
    k: "length kept = unat count" "distinct (map fst kept)" "list_all (plan_item (te_config env) (unat count) (tn_param nd)) kept"
    by simp_all
  moreover have "kept \<noteq> []" using k(1) count by (auto simp: unat_eq_zero)
  ultimately show "plan_ok (te_config env) (tn_param nd1) kept" unfolding plan_ok_def st by simp
qed

section \<open>Lemmas on writing\<close>

text \<open>The writes of a plan: each of its parameters gets its value, every other keeps its storage.\<close>

lemma apply_values_mem:
  assumes sep: "separate cfg E"
  shows "sized E pm \<Longrightarrow> list_all (\<lambda>(e, v). e \<in> E \<and> fits cfg e v) kept \<Longrightarrow> distinct (map fst kept) \<Longrightarrow>
    apply_values initialized kept index pm = (None, pm') \<Longrightarrow> f \<in> E \<Longrightarrow>
    mem pm' (address f) = (case map_of kept f of None \<Rightarrow> mem pm (address f) | Some v \<Rightarrow> written_bytes f v (mem pm (address f)))"
proof (induction kept arbitrary: index pm)
  case (Cons item kept)
  obtain e v where item: "item = (e, v)" by (cases item)
  with Cons.prems have e: "e \<in> E" "fits cfg e v" "e \<notin> set (map fst kept)" by auto
  obtain pm1 where a: "kfsw_param_wire_apply initialized e v pm = (None, pm1)"
    and r: "apply_values initialized kept (index + 1) pm1 = (None, pm')"
    using Cons.prems(4) item by (auto split: prod.splits option.splits)
  note k = apply_keeps [OF sep e(1,2) Cons.prems(1) a]
  have q: "quiet_entry e" "pv_type v = pi_type (en_info e)" using sep e(1,2) by (auto simp: separate_def fits_def)
  have here: "mem pm1 (address e) = written_bytes e v (mem pm (address e))" using apply_mem [OF q a] by simp
  have rest: "mem pm' (address f) = (case map_of kept f of None \<Rightarrow> mem pm1 (address f)
      | Some v \<Rightarrow> written_bytes f v (mem pm1 (address f)))"
    using Cons.IH [OF k(1) _ _ r Cons.prems(5)] Cons.prems(2,3) by simp
  show ?case
  proof (cases "f = e")
    case True
    moreover have "map_of kept e = None" using e(3) by (simp add: map_of_eq_None_iff)
    ultimately show ?thesis using rest here item by simp
  next
    case False
    then show ?thesis using rest k(2) [OF Cons.prems(5)] item by (simp split: option.splits)
  qed
qed simp

lemma apply_values_quiet:
  assumes "list_all (\<lambda>(e, v). pd_apply (en_definition e) = None) kept"
  shows "\<exists>pm'. apply_values initialized kept index pm = (None, pm')"
  using assms
proof (induction kept arbitrary: index pm)
  case (Cons item kept)
  obtain e v where item: "item = (e, v)" by (cases item)
  with Cons.prems have "pd_apply (en_definition e) = None" by simp
  from apply_without_callback [OF this] obtain pm1 where "kfsw_param_wire_apply initialized e v pm = (None, pm1)" by blast
  with Cons item show ?case by simp
qed simp

lemma plan_items:
  assumes "plan_ok cfg st kept"
  shows "list_all (\<lambda>(e, v). e \<in> set (parameter_table st) \<and> fits cfg e v) kept" "distinct (map fst kept)"
    "\<forall>(e, v) \<in> set kept. \<not> pi_read_only (en_info e)"
    "(\<exists>e v. kept = [(e, v)]) \<or> list_all (\<lambda>(e, v). pd_apply (en_definition e) = None) kept"
proof -
  have i: "list_all (plan_item cfg (length kept) st) kept" and d: "distinct (map fst kept)" and n: "kept \<noteq> []"
    using assms by (simp_all add: plan_ok_def)
  show "list_all (\<lambda>(e, v). e \<in> set (parameter_table st) \<and> fits cfg e v) kept"
    using i by (auto simp: plan_item_def list_all_iff)
  show "distinct (map fst kept)" by (rule d)
  show "\<forall>(e, v) \<in> set kept. \<not> pi_read_only (en_info e)"
    using i by (auto simp: plan_item_def list_all_iff)
  show "(\<exists>e v. kept = [(e, v)]) \<or> list_all (\<lambda>(e, v). pd_apply (en_definition e) = None) kept"
  proof (cases "length kept = 1")
    case True
    then show ?thesis by (auto simp: length_Suc_conv)
  next
    case False
    with i show ?thesis by (auto simp: plan_item_def list_all_iff)
  qed
qed

lemma apply_values_refused:
  assumes ready: "param_ready cfg st" and plan: "plan_ok cfg st kept"
    and a: "apply_values initialized kept index (param_memory st) = (Some failed, pm')"
  shows "mem pm' = mem (param_memory st)"
  using plan_items(4) [OF plan]
proof
  assume "\<exists>e v. kept = [(e, v)]"
  then obtain e v where k: "kept = [(e, v)]" by blast
  with plan have e: "e \<in> set (parameter_table st)" by (simp add: plan_ok_def plan_item_def)
  from a k obtain err where "kfsw_param_wire_apply initialized e v (param_memory st) = (Some err, pm')"
    by (auto split: prod.splits option.splits)
  then show ?thesis by (rule apply_refused [OF ready_entry(3) [OF ready e]])
next
  assume "list_all (\<lambda>(e, v). pd_apply (en_definition e) = None) kept"
  from apply_values_quiet [OF this, of initialized index "param_memory st"] a show ?thesis by simp
qed

text \<open>What a load keeps of the values it replaces.\<close>

lemma read_replaced_values:
  assumes ready: "param_ready cfg st"
  shows "\<forall>(e, v) \<in> set kept. e \<in> set (parameter_table st) \<Longrightarrow>
    read_replaced cfg kept pending (param_memory st) =
      Inr (pending @ map (\<lambda>(e, v). (pi_id (en_info e), entry_value cfg e (param_memory st))) kept)"
proof (induction kept arbitrary: pending)
  case (Cons item kept)
  obtain e v where item: "item = (e, v)" by (cases item)
  with Cons.prems have e: "e \<in> set (parameter_table st)" by simp
  have "kfsw_param_read_stored_entry cfg (Some e) Dest (param_memory st) = (Inr (entry_value cfg e (param_memory st)), param_memory st)"
    using read_entry_stored [OF ready_entry(1,2,3) [OF ready e], of False] by (simp add: kfsw_param_read_stored_entry_def)
  with Cons item show ?case by simp
qed simp

section \<open>Lemmas on loads\<close>

text \<open>The ways a load ends, on a node that is ready.\<close>

lemma table_load_cases:
  assumes ready: "param_ready (te_config env) (tn_param nd)"
    and l: "kfsw_table_load env now path report nd = (result, rep, nd')"
  obtains (refused) err where "result = Some err" "mem (param_memory (tn_param nd')) = mem (param_memory (tn_param nd))"
      "tn_param nd' = (tn_param nd)\<lparr>param_memory := param_memory (tn_param nd')\<rparr>"
      "tn_table nd' = (tn_table nd)\<lparr>tb_status := (tb_status (tn_table nd))
        \<lparr>ts_rejections := saturating_increment (ts_rejections (tb_status (tn_table nd)))\<rparr>\<rparr>"
    | (loaded) found kept nd1 pm where "result = None" "examine env path nd = ((None, found, kept), nd1)"
      "plan_ok (te_config env) (tn_param nd) kept"
      "apply_values (param_initialized (tn_param nd)) kept 0 (param_memory (tn_param nd)) = (None, pm)"
      "tn_param nd' = (tn_param nd)\<lparr>param_memory := pm\<rparr>"
      "tb_saved (tn_table nd') = map (\<lambda>(e, v). (pi_id (en_info e), entry_value (te_config env) e (param_memory (tn_param nd)))) kept"
      "ts_state (tb_status (tn_table nd')) = KFSW_TABLE_LOADED"
proof -
  obtain r found kept nd1 where x: "examine env path nd = ((r, found, kept), nd1)" by (metis prod_cases3 surj_pair)
  have frame: "tn_param nd1 = tn_param nd" "tn_table nd1 = tn_table nd"
    using x by (auto simp: examine_def prepare_def split: prod.splits sum.splits if_splits)
  show thesis
  proof (cases r)
    case (Some err)
    with x l frame show ?thesis by (intro refused [of err]) (auto simp: kfsw_table_load_def reject_load_def Let_def)
  next
    case None
    have reg: "registry_ok (te_config env) (tn_param nd)" using ready by (simp add: param_ready_def)
    have plan: "plan_ok (te_config env) (tn_param nd) kept"
      using examine_plan(1) [OF reg, of path found kept nd1] x None frame(1) by simp
    have rd: "read_replaced (te_config env) kept [] (param_memory (tn_param nd)) =
        Inr (map (\<lambda>(e, v). (pi_id (en_info e), entry_value (te_config env) e (param_memory (tn_param nd)))) kept)"
      using read_replaced_values [OF ready, of kept "[]"] plan_items(1) [OF plan] by (auto simp: list_all_iff)
    obtain w pm where a: "apply_values (param_initialized (tn_param nd)) kept 0 (param_memory (tn_param nd)) = (w, pm)" by fastforce
    show ?thesis
    proof (cases w)
      case None
      with \<open>r = None\<close> x l frame rd a plan show ?thesis
        by (intro loaded [of found kept nd1 pm]) (auto simp: kfsw_table_load_def Let_def)
    next
      case (Some failed)
      then have "mem pm = mem (param_memory (tn_param nd))" using apply_values_refused [OF ready plan] a by blast
      with Some \<open>r = None\<close> x l frame rd a show ?thesis
        by (intro refused [of "snd failed"]) (auto simp: kfsw_table_load_def reject_load_def Let_def split: prod.splits)
    qed
  qed
qed

section \<open>Lemmas on undoing a load\<close>

lemma apply_values_ok:
  assumes "storage_ok cfg st" and "list_all (\<lambda>(e, v). e \<in> set (parameter_table st) \<and> fits cfg e v) kept"
    and "apply_values initialized kept index (param_memory st) = (r, pm')"
  shows "storage_ok cfg (st\<lparr>param_memory := pm'\<rparr>)"
  using assms
proof (induction kept arbitrary: index st)
  case Nil
  then show ?case by auto
next
  case (Cons item kept)
  obtain e v where item: "item = (e, v)" by (cases item)
  with Cons.prems(2) have e: "e \<in> set (parameter_table st)" "fits cfg e v" by simp_all
  obtain w pm1 where a: "kfsw_param_wire_apply initialized e v (param_memory st) = (w, pm1)" by fastforce
  note ok = storage_ok_apply [OF Cons.prems(1) e a]
  show ?case
  proof (cases w)
    case None
    with Cons.prems(3) a item have "apply_values initialized kept (index + 1) pm1 = (r, pm')" by simp
    with Cons.IH [OF ok] Cons.prems(2) show ?thesis by simp
  next
    case (Some err)
    with Cons.prems(3) a item ok show ?thesis by simp
  qed
qed

lemma check_saved_values:
  assumes "registry_ok cfg st"
    and "\<forall>(e, v) \<in> set kept. e \<in> set (parameter_table st) \<and> (count \<noteq> 1 \<longrightarrow> pd_apply (en_definition e) = None)
      \<and> kfsw_param_validate_entry (Some e) (Some (g e)) (param_memory st) = None"
  shows "check_saved st count (map (\<lambda>(e, v). (pi_id (en_info e), g e)) kept) = Inr (map (\<lambda>(e, v). (e, g e)) kept)"
  using assms(2)
proof (induction kept)
  case (Cons item kept)
  obtain e v where item: "item = (e, v)" by (cases item)
  with Cons.prems have "kfsw_param_find_id (pi_id (en_info e)) st = Some e" using find_id_Some [OF assms(1)] by simp
  with Cons item show ?case by (auto simp: Option.is_none_def)
qed simp

lemma map_of_rekeyed: "map_of (map (\<lambda>(e, v). (e, g e)) kept) f = (if f \<in> fst ` set kept then Some (g f) else None)"
  by (induction kept) auto

lemma apply_taken:
  assumes "\<forall>f pm. pd_apply (en_definition e) = Some f \<longrightarrow> fst (f (pv_scalar v) pm) = None"
  shows "\<exists>pm'. kfsw_param_wire_apply initialized e v pm = (None, pm')"
proof (cases "pd_apply (en_definition e)")
  case None
  then show ?thesis by (rule apply_without_callback)
next
  case (Some f)
  with assms have "fst (f (pv_scalar v) pm) = None" by blast
  then obtain pm1 where "f (pv_scalar v) pm = (None, pm1)" by (cases "f (pv_scalar v) pm") simp
  with Some show ?thesis by (simp add: kfsw_param_wire_apply_def kfsw_param_write_entry_def Let_def)
qed

lemma apply_values_taken:
  assumes "\<forall>(e, v) \<in> set kept. \<forall>f pm. pd_apply (en_definition e) = Some f \<longrightarrow> fst (f (pv_scalar v) pm) = None"
  shows "\<exists>pm'. apply_values initialized kept index pm = (None, pm')"
  using assms
proof (induction kept arbitrary: index pm)
  case (Cons item kept)
  obtain e v where item: "item = (e, v)" by (cases item)
  obtain pm1 where a: "kfsw_param_wire_apply initialized e v pm = (None, pm1)"
    using apply_taken [of e v initialized pm] Cons.prems item by fastforce
  have "\<exists>pm'. apply_values initialized kept (index + 1) pm1 = (None, pm')"
    using Cons.IH [of "index + 1" pm1] Cons.prems by simp
  with a item show ?case by simp
qed simp

text \<open>Values that were read from storage, written back over whatever came after them.\<close>

lemma rewrite_restores:
  assumes ready: "param_ready cfg st" and ok: "storage_ok cfg st1" and table: "parameter_table st1 = parameter_table st"
    and kept: "list_all (\<lambda>(e, v). e \<in> set (parameter_table st) \<and> rewritable cfg st e) kept" "distinct (map fst kept)"
    and outside: "\<forall>f \<in> set (parameter_table st). f \<notin> fst ` set kept \<longrightarrow>
      mem (param_memory st1) (address f) = mem (param_memory st) (address f)"
    and a: "apply_values initialized (map (\<lambda>(e, v). (e, entry_value cfg e (param_memory st))) kept) 0 (param_memory st1) = (None, pm2)"
    and f: "f \<in> set (parameter_table st)"
  shows "stored_payload f pm2 = stored_payload f (param_memory st)"
proof -
  let ?pm = "param_memory st" and ?pm1 = "param_memory st1"
  have sep: "separate cfg (set (parameter_table st))" using ok table by (simp add: storage_ok_def)
  have formed1: "stored_formed g ?pm1" if "g \<in> set (parameter_table st)" for g
    using ok table that by (simp add: storage_ok_def)
  have fit: "fits cfg e (entry_value cfg e ?pm)" if "e \<in> set (parameter_table st)" for e
    using entry_value_facts [OF ready_entry(1,2) [OF ready that]] by (auto simp: fits_def value_formed_def)
  have "mem pm2 (address f) = (case map_of (map (\<lambda>(e, v). (e, entry_value cfg e ?pm)) kept) f of None \<Rightarrow> mem ?pm1 (address f)
      | Some v \<Rightarrow> written_bytes f v (mem ?pm1 (address f)))"
  proof (rule apply_values_mem [OF sep _ _ _ a f])
    show "sized (set (parameter_table st)) ?pm1" using formed1 by (intro sized_formed) blast
    show "distinct (map fst (map (\<lambda>(e, v). (e, entry_value cfg e ?pm)) kept))"
      using kept(2) by (simp add: case_prod_unfold comp_def)
  qed (use kept(1) fit in \<open>auto simp: list_all_iff\<close>)
  then have m: "mem pm2 (address f) = (if f \<in> fst ` set kept then written_bytes f (entry_value cfg f ?pm) (mem ?pm1 (address f))
      else mem ?pm1 (address f))"
    by (simp add: map_of_rekeyed)
  show ?thesis
  proof (cases "f \<in> fst ` set kept")
    case True
    then have "accepts_stored cfg f ?pm" using kept(1) by (auto simp: list_all_iff rewritable_def)
    then have valid: "kfsw_param_validate_entry (Some f) (Some (entry_value cfg f ?pm)) ?pm1 = None"
      by (simp add: accepts_stored_def)
    note ev = entry_value_facts [OF ready_entry(1,2) [OF ready f]]
    from written_payload(2) [OF ev(1) ready_entry(1) [OF ready f] formed1 [OF f] valid] m True ev(3) show ?thesis by simp
  next
    case False
    with m outside f show ?thesis by (simp add: stored_payload_def)
  qed
qed

lemma revert_after_load:
  assumes ready: "param_ready (te_config env) (tn_param nd)"
    and accept: "\<forall>e \<in> set (parameter_table (tn_param nd)). \<not> pi_read_only (en_info e) \<longrightarrow> rewritable (te_config env) (tn_param nd) e"
    and plan: "plan_ok (te_config env) (tn_param nd) kept"
    and a: "apply_values (param_initialized (tn_param nd)) kept 0 (param_memory (tn_param nd)) = (None, pm)"
    and nd1: "tn_param nd1 = (tn_param nd)\<lparr>param_memory := pm\<rparr>" "ts_state (tb_status (tn_table nd1)) = KFSW_TABLE_LOADED"
      "tb_saved (tn_table nd1) = map (\<lambda>(e, v). (pi_id (en_info e), entry_value (te_config env) e (param_memory (tn_param nd)))) kept"
  shows "\<exists>nd2. kfsw_table_revert now nd1 = (None, nd2) \<and> tb_saved (tn_table nd2) = []
    \<and> ts_state (tb_status (tn_table nd2)) = KFSW_TABLE_REVERTED \<and> param_initialized (tn_param nd2)
    \<and> (\<forall>f \<in> set (parameter_table (tn_param nd)).
         stored_payload f (param_memory (tn_param nd2)) = stored_payload f (param_memory (tn_param nd)))"
proof -
  let ?cfg = "te_config env" and ?st = "tn_param nd" and ?pm = "param_memory (tn_param nd)"
  let ?old = "map (\<lambda>(e, v). (e, entry_value ?cfg e ?pm)) kept"
  note items = plan_items [OF plan]
  have kept: "list_all (\<lambda>(e, v). e \<in> set (parameter_table ?st) \<and> rewritable ?cfg ?st e) kept"
    using items(1,3) accept by (auto simp: list_all_iff)
  have st: "param_initialized ?st" "registry_ok ?cfg ?st" "storage_ok ?cfg ?st" using ready by (simp_all add: param_ready_def)
  have ok1: "storage_ok ?cfg (tn_param nd1)" unfolding nd1(1) by (rule apply_values_ok [OF st(3) items(1) a])
  have sep: "separate ?cfg (set (parameter_table ?st))" "sized (set (parameter_table ?st)) ?pm"
    using st(3) sized_formed by (auto simp: storage_ok_def)
  have outside: "mem pm (address f) = mem ?pm (address f)" if "f \<in> set (parameter_table ?st)" "f \<notin> fst ` set kept" for f
    using apply_values_mem [OF sep items(1,2) a that(1)] that(2) by (simp add: map_of_eq_None_iff [THEN iffD2])
  have count: "length kept \<noteq> 1 \<longrightarrow> pd_apply (en_definition e) = None" if "(e, v) \<in> set kept" for e v
    using plan that by (auto simp: plan_ok_def plan_item_def list_all_iff)
  have saved: "check_saved (tn_param nd1) (length (tb_saved (tn_table nd1))) (tb_saved (tn_table nd1)) = Inr ?old"
    unfolding nd1(3) using kept count
    by (intro check_saved_values [where cfg = ?cfg])
      (use st(2) in \<open>auto simp: nd1(1) registry_ok_def list_all_iff rewritable_def accepts_stored_def\<close>)
  have "\<forall>(e, v) \<in> set ?old. \<forall>f pm. pd_apply (en_definition e) = Some f \<longrightarrow> fst (f (pv_scalar v) pm) = None"
    using kept by (auto simp: list_all_iff rewritable_def)
  then obtain pm2 where w: "apply_values True ?old 0 pm = (None, pm2)" using apply_values_taken [of ?old] by blast
  have "stored_payload f pm2 = stored_payload f ?pm" if "f \<in> set (parameter_table ?st)" for f
    by (rule rewrite_restores [OF ready ok1 _ kept items(2) _ _ that]) (use outside w in \<open>simp_all add: nd1(1)\<close>)
  moreover have "kept \<noteq> []" using plan by (simp add: plan_ok_def)
  ultimately show ?thesis
    using saved w nd1 st(1) by (simp add: kfsw_table_revert_def kfsw_param_is_initialized_def Let_def)
qed

section \<open>Lemmas on dumping\<close>

lemma dumped_type:
  assumes "dumped table e"
  obtains n where "kfsw_param_wire_type_of e = Inr (wire_type e, n)"
  using assms by (auto simp: dumped_def wire_type_def split: sum.splits prod.splits)

lemma table_bytes_cong: "mem pm' = mem pm \<Longrightarrow> table_entry_bytes pm' = table_entry_bytes pm"
  by (rule ext) (simp add: table_entry_bytes_def file_bytes_cong [of pm' pm])

lemma dump_entries_bytes:
  assumes wide: "8 \<le> cfg_string_max (te_config env)"
  shows "\<forall>e \<in> set es. entry_formed (te_config env) e \<and> stored_formed e pm \<and> quiet_entry e \<Longrightarrow>
    dump_entries env table es payload count pm = (Inr (payload', count'), pm') \<Longrightarrow> count \<le> te_max_entries env \<Longrightarrow>
    length payload \<le> count * (4 + cfg_string_max (te_config env)) \<Longrightarrow>
    mem pm' = mem pm \<and> payload' = payload @ concat (map (table_entry_bytes pm) (filter (dumped table) es))
    \<and> count' = count + length (filter (dumped table) es) \<and> count' \<le> te_max_entries env
    \<and> length payload' \<le> count' * (4 + cfg_string_max (te_config env))"
proof (induction es arbitrary: payload count pm)
  case (Cons e es)
  let ?max = "cfg_string_max (te_config env)"
  have form: "entry_formed (te_config env) e" "stored_formed e pm" "quiet_entry e" using Cons.prems(1) by auto
  show ?case
  proof (cases "dumped table e")
    case False
    then have "dump_entries env table (e # es) payload count pm = dump_entries env table es payload count pm"
      by (auto simp: dumped_def ok_None split: sum.splits)
    with Cons False show ?thesis by auto
  next
    case True
    then obtain n where t: "kfsw_param_wire_type_of e = Inr (wire_type e, n)" by (rule dumped_type)
    have here: "pi_table (en_info e) = table" "\<not> pi_read_only (en_info e)" using True by (simp_all add: dumped_def)
    have c: "count < te_max_entries env" using Cons.prems(2,3) here t by (auto split: if_splits)
    have len: "length (file_bytes e pm) \<le> ?max"
      using length_file_bytes(1) [OF form(1,2)] capacity_fits [OF form(1) wide] by simp
    define room where "room = KFSW_TABLE_MAX_BYTES env - (KFSW_TABLE_HEADER_SIZE + length payload) - KFSW_TABLE_ENTRY_HEADER_SIZE"
    have "Suc count * (4 + ?max) \<le> te_max_entries env * (4 + ?max)" using c by (intro mult_le_mono1) simp
    then have fit: "length (file_bytes e pm) \<le> room"
      using Cons.prems(4) len by (simp add: room_def KFSW_TABLE_MAX_BYTES_def KFSW_TABLE_ENTRY_HEADER_SIZE_def)
    note enc = wire_encode_stored [OF form t fit]
    have rest: "dump_entries env table es (payload @ table_entry_bytes pm e) (count + 1) (sample_entry e pm) = (Inr (payload', count'), pm')"
      using Cons.prems(2) here t c enc by (simp add: room_def table_entry_bytes_def)
    have m: "mem (sample_entry e pm) = mem pm" by (rule quiet_mem(1) [OF form(3)])
    have "\<forall>f \<in> set es. entry_formed (te_config env) f \<and> stored_formed f (sample_entry e pm) \<and> quiet_entry f"
      using Cons.prems(1) m by (simp add: stored_formed_def)
    moreover have "length (payload @ table_entry_bytes pm e) \<le> (count + 1) * (4 + ?max)"
      using Cons.prems(4) len by (simp add: table_entry_bytes_def)
    ultimately show ?thesis
      using Cons.IH [OF _ rest] c m True by (auto simp: table_bytes_cong [OF m])
  qed
qed simp

lemma table_header_fields:
  "length (table_header n count table crc) = 20"
  "take 4 (table_header n count table crc @ x) = KFSW_TABLE_MAGIC"
    "sys_get_be16 (drop 4 (table_header n count table crc @ x)) = KFSW_TABLE_VERSION"
    "sys_get_be16 (drop 6 (table_header n count table crc @ x)) = word_of_nat KFSW_TABLE_HEADER_SIZE"
    "sys_get_be32 (drop 8 (table_header n count table crc @ x)) = word_of_nat n"
    "sys_get_be16 (drop 12 (table_header n count table crc @ x)) = word_of_nat count"
    "(table_header n count table crc @ x) ! 14 = table"
    "sys_get_be32 (drop 16 (table_header n count table crc @ x)) = crc"
    "take 16 (table_header n count table crc @ x) @ sys_put_be32 0 @ drop 20 (table_header n count table crc @ x) =
       table_header n count table 0 @ x"
  by (simp_all add: table_header_def KFSW_TABLE_MAGIC_def nth_append)

lemma next_dumped:
  assumes form: "entry_formed (te_config env) e" "stored_formed e pm" and wide: "8 \<le> cfg_string_max (te_config env)"
    and data: "data = pre @ table_entry_bytes pm e @ rest"
  shows "table_next_entry env data (length pre) =
    Inr (\<lparr>fe_value = file_bytes e pm @ rest, fe_value_size = word_of_nat (length (file_bytes e pm)),
          fe_offset = pi_offset (en_info e), fe_type = wire_type e\<rparr>, length (pre @ table_entry_bytes pm e))"
proof -
  note len = length_file_bytes [OF form]
  have v16: "unat (word_of_nat (length (file_bytes e pm)) :: u16) = length (file_bytes e pm)"
    using len(5) by (intro unat_word_of_nat_small) simp
  have nz: "(word_of_nat (length (file_bytes e pm)) :: u16) \<noteq> 0" using v16 len(2) by (metis less_irrefl unat_0)
  have at: "data ! length pre = pi_offset (en_info e)" "data ! (length pre + 1) = wire_type e"
    by (simp_all add: data table_entry_bytes_def nth_append)
  have d2: "drop (length pre + 2) data = sys_put_be16 (word_of_nat (length (file_bytes e pm))) @ file_bytes e pm @ rest"
    by (simp add: data table_entry_bytes_def)
  have d4: "drop (length pre + 4) data = file_bytes e pm @ rest" by (simp add: data table_entry_bytes_def)
  have ln: "length data = length pre + 4 + length (file_bytes e pm) + length rest"
    by (simp add: data table_entry_bytes_def)
  have le: "length (file_bytes e pm) \<le> cfg_string_max (te_config env)" using len(1) capacity_fits [OF form(1) wide] by simp
  show ?thesis
    using nz at d2
    by (simp add: table_next_entry_def KFSW_TABLE_ENTRY_HEADER_SIZE_def Let_def d4 ln le v16 table_entry_bytes_def not_less
        del: word_of_nat_eq_0_iff)
qed

lemma check_dumped_entry:
  assumes l: "table_loadable (te_config env) count table pm L st" and e: "e \<in> set L" and seen: "pi_offset (en_info e) \<notin> set seen"
  shows "check_entry env count table seen \<lparr>fe_value = file_bytes e pm @ rest,
      fe_value_size = word_of_nat (length (file_bytes e pm)), fe_offset = pi_offset (en_info e), fe_type = wire_type e\<rparr> st =
    Inr (e, entry_value (te_config env) e pm)"
proof -
  have m: "e \<in> set (parameter_table st)" "dumped table e" "stored_formed e pm" "accepts_stored (te_config env) e pm"
    "count \<noteq> 1 \<longrightarrow> pd_apply (en_definition e) = None" and ready: "param_ready (te_config env) st"
    using l e by (simp_all add: table_loadable_def)
  note r = ready_entry [OF ready m(1)]
  obtain n where t: "kfsw_param_wire_type_of e = Inr (wire_type e, n)" using m(2) by (rule dumped_type)
  have reg: "registry_ok (te_config env) st" using ready by (simp add: param_ready_def)
  then have "entry_registered (te_config env) (parameter_tables st) e" using m(1) by (simp add: registry_ok_def)
  then have "pi_id (en_info e) = KFSW_PARAM_ID table (pi_offset (en_info e))"
    using m(2) by (simp add: entry_registered_def dumped_def)
  then have found: "kfsw_param_find_id (KFSW_PARAM_ID table (pi_offset (en_info e))) st = Some e"
    using find_id_Some [OF reg] m(1) by simp
  have u: "unat (word_of_nat (length (file_bytes e pm)) :: u16) = length (file_bytes e pm)"
    using length_file_bytes(5) [OF r(1) m(3)] by (intro unat_word_of_nat_small) simp
  have dec: "kfsw_param_wire_decode (te_config env) e (wire_type e) (file_bytes e pm @ rest)
      (word_of_nat (length (file_bytes e pm))) (param_memory st) = Inr (entry_value (te_config env) e pm)"
    using wire_decode_stored [OF r(1) m(3) t u] m(4) by (simp add: accepts_stored_def)
  show ?thesis using seen found dec m(2,5) by (auto simp: check_entry_def dumped_def Option.is_none_def)
qed

lemma check_dumped:
  assumes "table_loadable (te_config env) count table pm L st" and "data = pre @ concat (map (table_entry_bytes pm) L)"
    and "set seen \<inter> set (map (\<lambda>e. pi_offset (en_info e)) L) = {}"
  shows "\<exists>report'. table_check_entries env data count table st (length L) (length pre) seen kept report =
    (None, report', kept @ map (\<lambda>e. (e, entry_value (te_config env) e pm)) L)
    \<and> tr_table report' = tr_table report \<and> tr_entries report' = tr_entries report"
  using assms
proof (induction L arbitrary: pre seen kept report)
  case (Cons e L)
  have l: "table_loadable (te_config env) count table pm L st" using Cons.prems(1) by (simp add: table_loadable_def)
  have d: "data = pre @ table_entry_bytes pm e @ concat (map (table_entry_bytes pm) L)" using Cons.prems(2) by simp
  have m: "e \<in> set (parameter_table st)" "stored_formed e pm" "param_ready (te_config env) st" "8 \<le> cfg_string_max (te_config env)"
    using Cons.prems(1) by (simp_all add: table_loadable_def)
  note nx = next_dumped [OF ready_entry(1) [OF m(3,1)] m(2,4) d]
  have new: "pi_offset (en_info e) \<notin> set seen" using Cons.prems(3) by simp
  note ce = check_dumped_entry [OF Cons.prems(1) _ new, simplified]
  have "set (seen @ [pi_offset (en_info e)]) \<inter> set (map (\<lambda>e. pi_offset (en_info e)) L) = {}"
    using Cons.prems(1,3) by (auto simp: table_loadable_def)
  note ih = Cons.IH [OF l, of "pre @ table_entry_bytes pm e" "seen @ [pi_offset (en_info e)]", OF _ this]
  let ?report = "report\<lparr>tr_failed_entry := word_of_nat (length seen) + 1, tr_failed_offset := pi_offset (en_info e),
    tr_accepted := tr_accepted report + 1\<rparr>"
  from ih [of "kept @ [(e, entry_value (te_config env) e pm)]" ?report] d nx ce show ?case by (simp add: Let_def)
qed simp

lemma read_image_whole:
  assumes law: "fs_lawful (te_files env) contents position" and rd: "fs_readable (te_files env) contents path"
    and c: "contents f path = Some data" and n: "20 \<le> length data" "length data \<le> KFSW_TABLE_MAX_BYTES env"
  shows "\<exists>f'. read_image env path f = (Inr data, f')"
proof -
  obtain f1 where o: "fs_open (te_files env) path FS_READ f = (None, f1)"
    using rd c unfolding fs_readable_def by (metis prod.collapse)
  obtain f2 where "read_all (te_files env) path (length data) f1 = (Inr data, f2)"
    using read_whole_file [OF law rd o c] by blast
  then have r: "read_exact (te_files env) path (length data) f1 = (Inr data, f2)" by (rule read_exact_same)
  obtain f3 where cl: "fs_close (te_files env) path f2 = (None, f3)" using rd unfolding fs_readable_def by (metis prod.collapse)
  have "fs_stat (te_files env) path f = Inr (True, length data)" using rd c by (simp add: fs_readable_def)
  with o r cl n show ?thesis by (simp add: read_image_def KFSW_TABLE_HEADER_SIZE_def)
qed

text \<open>What a successful dump leaves in its file.\<close>

lemma dump_file:
  assumes law: "fs_lawful (te_files env) contents position" and wide: "8 \<le> cfg_string_max (te_config env)"
    and ready: "param_ready (te_config env) (tn_param nd)"
    and d: "kfsw_table_dump env table (Some path) entries nd = (None, n, nd1)"
  obtains L payload where "L = filter (dumped table) (parameter_table (tn_param nd))" "L \<noteq> []" "length L \<le> te_max_entries env"
    "payload = concat (map (table_entry_bytes (param_memory (tn_param nd))) L)"
    "length payload \<le> length L * (4 + cfg_string_max (te_config env))"
    "contents (tn_files nd1) path = Some (table_header (length payload) (length L) table
       (te_crc32_ieee env (table_header (length payload) (length L) table 0 @ payload)) @ payload)"
    "path_usable (Some path)" "KFSW_PARAM_TABLE_CORE_FIRST \<le> table" "table \<le> KFSW_PARAM_TABLE_MODULE_LAST"
proof -
  have guards: "path_usable (Some path)" "KFSW_PARAM_TABLE_CORE_FIRST \<le> table" "table \<le> KFSW_PARAM_TABLE_MODULE_LAST"
    using d by (auto simp: kfsw_table_dump_def not_less split: if_splits)
  obtain payload count pm where
    e: "dump_entries env table (parameter_table (tn_param nd)) [] 0 (param_memory (tn_param nd)) = (Inr (payload, count), pm)"
    using d by (auto simp: kfsw_table_dump_def split: if_splits prod.splits sum.splits)
  have "\<forall>e \<in> set (parameter_table (tn_param nd)). entry_formed (te_config env) e
      \<and> stored_formed e (param_memory (tn_param nd)) \<and> quiet_entry e" using ready_entry [OF ready] by blast
  note b = dump_entries_bytes [OF wide this e, simplified]
  let ?data = "table_header (length payload) count table (te_crc32_ieee env (table_header (length payload) count table 0 @ payload)) @ payload"
  from d e obtain f1 f2 where c: "count \<noteq> 0" and f2: "tn_files nd1 = f2"
    and w: "kfsw_snapshot_write (te_files env) (Some path) (Some (path @ KFSW_TABLE_TEMPORARY_SUFFIX)) (Some ?data) f1 = (None, f2)"
    by (auto simp: kfsw_table_dump_def Let_def split: if_splits prod.splits option.splits)
  have "path @ KFSW_TABLE_TEMPORARY_SUFFIX \<noteq> path" by (simp add: KFSW_TABLE_TEMPORARY_SUFFIX_def)
  from snapshot_write_contents [OF law this w] f2 have "contents (tn_files nd1) path = Some ?data" by simp
  with b c guards that [OF refl] show ?thesis by auto
qed

lemma offsets_distinct:
  assumes "registry_ok cfg st"
  shows "distinct (map (\<lambda>e. pi_offset (en_info e)) (filter (dumped table) (parameter_table st)))" (is "distinct (map ?o ?L)")
proof -
  have "distinct (map (\<lambda>e. pi_id (en_info e)) (parameter_table st))"
    using assms ordered_distinct unfolding registry_ok_def by blast
  then have "distinct (map (\<lambda>e. pi_id (en_info e)) ?L)" by (rule distinct_map_filter)
  moreover have "map (\<lambda>e. pi_id (en_info e)) ?L = map (KFSW_PARAM_ID table) (map ?o ?L)"
    using assms by (auto simp: registry_ok_def entry_registered_def dumped_def)
  ultimately show ?thesis by (metis distinct_map)
qed

lemma examine_dumped:
  assumes law: "fs_lawful (te_files env) contents position" and rd: "fs_readable (te_files env) contents path"
    and l: "table_loadable (te_config env) (word_of_nat (length L)) table pm L (tn_param nd)" and L: "L \<noteq> []"
    and n: "length L \<le> te_max_entries env" "te_max_entries env \<le> 255"
    and payload: "payload = concat (map (table_entry_bytes pm) L)" "length payload \<le> length L * (4 + cfg_string_max (te_config env))"
    and c: "contents (tn_files nd) path = Some (table_header (length payload) (length L) table
       (te_crc32_ieee env (table_header (length payload) (length L) table 0 @ payload)) @ payload)"
    and guards: "path_usable (Some path)" "KFSW_PARAM_TABLE_CORE_FIRST \<le> table" "table \<le> KFSW_PARAM_TABLE_MODULE_LAST"
  shows "\<exists>found nd1. examine env (Some path) nd = ((None, found, map (\<lambda>e. (e, entry_value (te_config env) e pm)) L), nd1)
    \<and> tn_param nd1 = tn_param nd"
proof -
  let ?crc = "te_crc32_ieee env (table_header (length payload) (length L) table 0 @ payload)"
  define data where "data = table_header (length payload) (length L) table ?crc @ payload"
  note h = table_header_fields(2-9) [of "length payload" "length L" table ?crc payload, folded data_def]
  have pre: "length data = 20 + length payload" using table_header_fields(1) by (simp add: data_def)
  have "length payload \<le> te_max_entries env * (4 + cfg_string_max (te_config env))"
    using payload(2) mult_le_mono1 [OF n(1)] by (rule le_trans)
  then have size: "length data \<le> KFSW_TABLE_MAX_BYTES env"
    using pre by (simp add: KFSW_TABLE_MAX_BYTES_def KFSW_TABLE_HEADER_SIZE_def KFSW_TABLE_ENTRY_HEADER_SIZE_def)
  obtain f' where r: "read_image env path (tn_files nd) = (Inr data, f')"
    using read_image_whole [OF law rd c [folded data_def] _ size] pre by auto
  have count: "unat (word_of_nat (length L) :: u16) = length L" using n by (intro unat_word_of_nat_small) simp
  then have nz: "(word_of_nat (length L) :: u16) \<noteq> 0" using L by (metis length_0_conv unat_0)
  have v: "validate_header env data = Inr (word_of_nat (length L), table)"
    using h nz count n(1) guards(2,3) pre
    by (simp add: validate_header_def KFSW_TABLE_HEADER_SIZE_def KFSW_TABLE_CRC_OFFSET_def Let_def not_less del: word_of_nat_eq_0_iff)
  have ready: "param_initialized (tn_param nd)" "storage_ready (te_files env) (tn_files nd)"
    using l rd by (simp_all add: table_loadable_def param_ready_def fs_readable_def)
  have p: "prepare env (Some path) nd = (Inr (data, word_of_nat (length L), table), nd\<lparr>tn_files := f'\<rparr>)"
    using guards(1) ready r v by (simp add: prepare_def kfsw_param_is_initialized_def)
  obtain report' where "table_check_entries env data (word_of_nat (length L)) table (tn_param nd) (length L) 20 [] []
      (empty_report\<lparr>tr_table := table, tr_entries := word_of_nat (length L)\<rparr>) =
      (None, report', map (\<lambda>e. (e, entry_value (te_config env) e pm)) L)"
    using check_dumped [OF l, of data "table_header (length payload) (length L) table ?crc" "[]" "[]"] payload(1)
      table_header_fields(1) [of "length payload" "length L" table ?crc] by (auto simp: data_def)
  with p count show ?thesis by (simp add: examine_def KFSW_TABLE_HEADER_SIZE_def)
qed

lemma map_of_pairs: "map_of (map (\<lambda>e. (e, g e x)) L) f = (if f \<in> set L then Some (g f x) else None)"
  by (induction L) auto

text \<open>A plan whose writes cannot be refused is carried out.\<close>

lemma dumped_values_applied:
  assumes ready: "param_ready (te_config env) (tn_param nd)" and x: "examine env path nd = ((None, found, kept), nd0)"
    and st: "tn_param nd0 = tn_param nd"
    and taken: "\<forall>(e, v) \<in> set kept. \<forall>f pm. pd_apply (en_definition e) = Some f \<longrightarrow> fst (f (pv_scalar v) pm) = None"
  shows "\<exists>rep nd'. kfsw_table_load env now path report nd = (None, rep, nd')
    \<and> (\<forall>f \<in> set (parameter_table (tn_param nd)). mem (param_memory (tn_param nd')) (address f) =
        (case map_of kept f of None \<Rightarrow> mem (param_memory (tn_param nd)) (address f)
         | Some v \<Rightarrow> written_bytes f v (mem (param_memory (tn_param nd)) (address f))))"
proof -
  let ?cfg = "te_config env" and ?st = "tn_param nd"
  have reg: "registry_ok ?cfg ?st" "storage_ok ?cfg ?st" using ready by (simp_all add: param_ready_def)
  note plan = plan_items [OF examine_plan(1) [OF reg(1) x, unfolded st]]
  have sep: "separate ?cfg (set (parameter_table ?st))" "sized (set (parameter_table ?st)) (param_memory ?st)"
    using reg(2) sized_formed by (auto simp: storage_ok_def)
  obtain pending where rd: "read_replaced ?cfg kept [] (param_memory ?st) = Inr pending"
    using read_replaced_values [OF ready, of kept "[]"] plan(1) by (auto simp: list_all_iff)
  obtain pm where a: "apply_values (param_initialized ?st) kept 0 (param_memory ?st) = (None, pm)"
    using apply_values_taken [OF taken] by blast
  from apply_values_mem [OF sep plan(1,2) a] x st rd a show ?thesis by (simp add: kfsw_table_load_def Let_def)
qed

text \<open>The two parameters of the demonstration take every value.\<close>

lemma free_rewritable:
  assumes "param_ready cfg st" and "list_all free_of_checks (parameter_table st)" and "e \<in> set (parameter_table st)"
  shows "rewritable cfg st e"
  using accepts_without_validators [OF ready_entry(1,2) [OF assms(1,3)]] assms(2,3)
  by (auto simp: rewritable_def free_of_checks_def Option.is_none_def list_all_iff)

lemma demo_rewritable:
  "e \<in> set (parameter_table demo_state) \<Longrightarrow> rewritable demo_param_config demo_state e"
  "e \<in> set (parameter_table demo_set_state) \<Longrightarrow> rewritable demo_param_config demo_set_state e"
proof -
  have "list_all free_of_checks (parameter_table demo_state)" by code_simp
  then show "e \<in> set (parameter_table demo_state) \<Longrightarrow> rewritable demo_param_config demo_state e"
    by (rule free_rewritable [OF demo_ready(1)])
  have "list_all free_of_checks (parameter_table demo_set_state)" by code_simp
  then show "e \<in> set (parameter_table demo_set_state) \<Longrightarrow> rewritable demo_param_config demo_set_state e"
    by (rule free_rewritable [OF demo_ready(2)])
qed

section \<open>Properties\<close>







end
