(* ===== verification/Hk_Report.thy ===== *)
theory Hk_Report
  imports Contracts Parameter "HOL-Library.Multiset"
begin

text \<open>
  Housekeeping reports and the reading of their samples: the data of \<^verbatim>\<open>include/kfsw/services/hk.h\<close> and
  \<^verbatim>\<open>src/hk/hk_internal.h\<close>, the readers of \<^verbatim>\<open>src/hk/hk.c\<close> and \<^verbatim>\<open>src/hk/hk_selection.c\<close>.

  \<open>hk_state\<close> holds the static variables of \<^verbatim>\<open>hk.c\<close>. The arrays of a definition are lists of its
  \<open>entry_count\<close> first elements; the ring of a report and the collection order of its slots are lists of the
  length \<open>CONFIG_KFSW_HK_HISTORY\<close>. Every operation runs under the service's lock and is one function.

  Proved: a ring refines the list of its newest samples (an interpretation of \<open>ring_log\<close>), reading by age
  walks that list, and the selection across reports, which merges the rings by looking at one sample of
  each, gives the samples by class and, within a class, by descending order of collection.
\<close>

section \<open>Data\<close>

definition KFSW_HK_PROTOCOL_VERSION :: u8 where "KFSW_HK_PROTOCOL_VERSION = 1"
definition KFSW_HK_CLASS_MAX :: u8 where "KFSW_HK_CLASS_MAX = 7"
definition KFSW_HK_CLASS_DEFAULT :: u8 where "KFSW_HK_CLASS_DEFAULT = 4"
definition KFSW_HK_HEADER_SIZE :: nat where "KFSW_HK_HEADER_SIZE = 10"
definition KFSW_HK_FLAG_INCOMPLETE :: u8 where "KFSW_HK_FLAG_INCOMPLETE = 0x01"
definition KFSW_HK_FLAG_CLOCK_UNSET :: u8 where "KFSW_HK_FLAG_CLOCK_UNSET = 0x02"
definition KFSW_HK_NODE_LOCAL :: u16 where "KFSW_HK_NODE_LOCAL = 0"

text \<open>The build: \<open>CONFIG_KFSW_HK_REPORTS\<close> and so on.\<close>

record hk_config =
  hc_reports :: nat
  hc_entries :: nat
  hc_history :: nat
  hc_sample_bytes :: nat
  hc_period_floor_ms :: u32
  hc_store_capacity :: u32
  hc_store_floor_ms :: u32

record kfsw_hk_entry =
  hke_node :: u16
  hke_param_id :: u16

record kfsw_hk_sample =
  sm_seconds :: u32
  sm_sequence :: u16
  sm_entry_count :: u8
  sm_flags :: u8
  sm_length :: u16
  sm_data :: bytes

record kfsw_hk_report =
  hr_entries :: "kfsw_hk_entry list"
  hr_widths :: "u16 list"
  hr_offsets :: "u16 list"
  hr_entry_count :: u8
  hr_class :: u8
  hr_defined :: bool
  hr_payload_bytes :: u16
  hr_period_ms :: u32
  hr_next_uptime_ms :: int
  hr_ring :: "kfsw_hk_sample list"
  hr_order :: "u64 list"
  hr_held :: u16
  hr_next_slot :: u16
  hr_sequence :: u16

record kfsw_hk_stats =
  hst_collections :: u32
  hst_scheduled_attempts :: u32
  hst_missed_slots :: u32
  hst_settings_dirty :: bool
  hst_last_save_error :: rc
  hst_last_load_error :: rc
  hst_failures :: u32
  hst_entries_failed :: u32
  hst_overwritten :: u32
  hst_last_seconds :: u32
  hst_reports :: u8
  hst_clock_valid :: bool
  hst_enabled :: bool
  hst_beacons_sent :: u32
  hst_beacons_skipped :: u32

record hk_state =
  hk_reports :: "kfsw_hk_report list"
  hk_stats :: kfsw_hk_stats
  hk_collected_order :: u64
  hk_initialized :: bool
  hk_enabled_flag :: bool
  hk_config_revision :: u64
  hk_generations :: "u64 list"
  hk_schedule_revisions :: "u64 list"

definition kfsw_hk_report_at :: "u8 \<Rightarrow> hk_state \<Rightarrow> kfsw_hk_report option" where
  "kfsw_hk_report_at report st =
     (if unat report \<ge> length (hk_reports st) then None else Some (hk_reports st ! unat report))"

text \<open>The slot of the sample of an age: the newest is one before \<open>next_slot\<close>.\<close>

definition age_slot :: "kfsw_hk_report \<Rightarrow> nat \<Rightarrow> nat" where
  "age_slot target age = (unat (hr_next_slot target) + length (hr_ring target) - 1 - age) mod length (hr_ring target)"

definition kfsw_hk_get :: "u8 \<Rightarrow> u16 \<Rightarrow> dest \<Rightarrow> hk_state \<Rightarrow> errno + kfsw_hk_sample" where
  "kfsw_hk_get report age sample st =
     (case kfsw_hk_report_at report st of
        None \<Rightarrow> Inl EINVAL
      | Some target \<Rightarrow>
          if sample = Null then Inl EINVAL
          else if age \<ge> hr_held target then Inl ENOENT
          else Inr (hr_ring target ! age_slot target (unat age)))"

definition kfsw_hk_depth :: "u8 \<Rightarrow> dest \<Rightarrow> hk_state \<Rightarrow> errno + u16" where
  "kfsw_hk_depth report depth st =
     (case kfsw_hk_report_at report st of
        None \<Rightarrow> Inl EINVAL
      | Some target \<Rightarrow> if depth = Null then Inl EINVAL else Inr (hr_held target))"

definition kfsw_hk_get_class :: "u8 \<Rightarrow> dest \<Rightarrow> hk_state \<Rightarrow> errno + u8" where
  "kfsw_hk_get_class report retrieval_class st =
     (case kfsw_hk_report_at report st of
        None \<Rightarrow> Inl EINVAL
      | Some target \<Rightarrow>
          if retrieval_class = Null then Inl EINVAL
          else if \<not> hr_defined target then Inl ENOENT
          else Inr (hr_class target))"

text \<open>The part of a collection that puts a sample into the ring.\<close>

definition store_sample :: "u64 \<times> kfsw_hk_sample \<Rightarrow> kfsw_hk_report \<Rightarrow> kfsw_hk_report" where
  "store_sample = (\<lambda>(order, sample) target.
     (let slot = unat (hr_next_slot target); n = length (hr_ring target)
      in target\<lparr>hr_held := (if unat (hr_held target) = n then hr_held target else hr_held target + 1),
           hr_order := (hr_order target)[slot := order],
           hr_ring := (hr_ring target)[slot := sample],
           hr_next_slot := word_of_nat ((slot + 1) mod n),
           hr_sequence := hr_sequence target + 1\<rparr>))"

section \<open>Selection across reports\<close>

definition in_class :: "u8 \<Rightarrow> kfsw_hk_report \<Rightarrow> bool" where
  "in_class cls target \<longleftrightarrow> hr_defined target \<and> hr_class target = cls"

definition class_available :: "u8 \<Rightarrow> kfsw_hk_report list \<Rightarrow> u16" where
  "class_available cls reports = fold (\<lambda>target available. if in_class cls target then available + hr_held target else available) reports 0"

text \<open>One report in the inner loop of the merge: \<open>(newest, selected, chosen)\<close> is the best sample so far.\<close>

definition merge_scan ::
  "u8 \<Rightarrow> u16 list \<Rightarrow> nat \<times> kfsw_hk_report \<Rightarrow> u64 \<times> nat \<times> kfsw_hk_sample option \<Rightarrow> u64 \<times> nat \<times> kfsw_hk_sample option" where
  "merge_scan cls ages = (\<lambda>(report, target) (newest, selected, chosen).
     if \<not> in_class cls target \<or> ages ! report \<ge> hr_held target then (newest, selected, chosen)
     else
       (let slot = age_slot target (unat (ages ! report))
        in if hr_order target ! slot > newest then (hr_order target ! slot, report, Some (hr_ring target ! slot))
           else (newest, selected, chosen)))"

definition merge_pick :: "u8 \<Rightarrow> u16 list \<Rightarrow> kfsw_hk_report list \<Rightarrow> u64 \<times> nat \<times> kfsw_hk_sample option" where
  "merge_pick cls ages reports = fold (merge_scan cls ages) (enumerate 0 reports) (0, 0, None)"

text \<open>The loop over \<open>position\<close>, with the positions before \<open>index\<close> still to pass.\<close>

fun merge_walk :: "u8 \<Rightarrow> nat \<Rightarrow> u16 list \<Rightarrow> kfsw_hk_report list \<Rightarrow> kfsw_hk_sample option" where
  "merge_walk cls 0 ages reports = (case merge_pick cls ages reports of (newest, selected, chosen) \<Rightarrow> chosen)"
| "merge_walk cls (Suc left) ages reports =
     (case merge_pick cls ages reports of
        (newest, selected, chosen) \<Rightarrow> merge_walk cls left (ages[selected := ages ! selected + 1]) reports)"

fun select_classes :: "u8 list \<Rightarrow> u8 \<Rightarrow> u16 \<Rightarrow> kfsw_hk_report list \<Rightarrow> errno + kfsw_hk_sample" where
  "select_classes [] class_mask index reports = Inl ENOENT"
| "select_classes (cls # later) class_mask index reports =
     (if class_mask AND push_bit (unat cls) 1 = 0 then select_classes later class_mask index reports
      else
        (let available = class_available cls reports
         in if index \<ge> available then select_classes later class_mask (index - available) reports
            else
              (case merge_walk cls (unat index) (replicate (length reports) 0) reports of
                 None \<Rightarrow> Inl ENOENT
               | Some sample \<Rightarrow> Inr sample)))"

definition hk_classes :: "u8 list" where
  "hk_classes = map word_of_nat [0..<unat KFSW_HK_CLASS_MAX + 1]"

definition kfsw_hk_get_selected :: "u8 \<Rightarrow> u16 \<Rightarrow> dest \<Rightarrow> hk_state \<Rightarrow> errno + kfsw_hk_sample" where
  "kfsw_hk_get_selected class_mask index sample st =
     (if sample = Null then Inl EINVAL else select_classes hk_classes class_mask index (hk_reports st))"

section \<open>Specification\<close>

text \<open>The samples of a report with their collection order, the newest first.\<close>

definition newest_first :: "kfsw_hk_report \<Rightarrow> (u64 \<times> kfsw_hk_sample) list" where
  "newest_first r = map (\<lambda>a. (hr_order r ! age_slot r a, hr_ring r ! age_slot r a)) [0..<unat (hr_held r)]"

definition hk_ring_ok :: "kfsw_hk_report \<Rightarrow> bool" where
  "hk_ring_ok r \<longleftrightarrow>
     0 < length (hr_ring r) \<and> length (hr_ring r) < 65536 \<and> length (hr_order r) = length (hr_ring r)
     \<and> unat (hr_held r) \<le> length (hr_ring r) \<and> unat (hr_next_slot r) < length (hr_ring r)"

text \<open>
  A sample as a collection leaves it: its frame carries the fields of the structure, and the buffer behind the
  frame is zero.
\<close>

definition frame_header :: "u8 \<Rightarrow> kfsw_hk_sample \<Rightarrow> bytes" where
  "frame_header report s =
     [KFSW_HK_PROTOCOL_VERSION, report] @ sys_put_be16 (sm_sequence s) @ sys_put_be32 (sm_seconds s) @ [sm_entry_count s, sm_flags s]"

definition frame_ok :: "hk_config \<Rightarrow> u8 \<Rightarrow> kfsw_hk_sample \<Rightarrow> bool" where
  "frame_ok cfg report s \<longleftrightarrow>
     length (sm_data s) = hc_sample_bytes cfg
     \<and> KFSW_HK_HEADER_SIZE \<le> unat (sm_length s) \<and> unat (sm_length s) \<le> hc_sample_bytes cfg
     \<and> take KFSW_HK_HEADER_SIZE (sm_data s) = frame_header report s
     \<and> drop (unat (sm_length s)) (sm_data s) = replicate (hc_sample_bytes cfg - unat (sm_length s)) 0"

text \<open>By descending order of collection.\<close>

definition by_recency :: "(u64 \<times> 'a) list \<Rightarrow> (u64 \<times> 'a) list" where
  "by_recency xs = rev (sort_key fst xs)"

definition class_samples :: "kfsw_hk_report list \<Rightarrow> u8 \<Rightarrow> kfsw_hk_sample list" where
  "class_samples reports cls = map snd (by_recency (concat (map newest_first (filter (in_class cls) reports))))"

definition selected_samples :: "u8 \<Rightarrow> kfsw_hk_report list \<Rightarrow> kfsw_hk_sample list" where
  "selected_samples class_mask reports =
     concat (map (class_samples reports) (filter (\<lambda>cls. bit class_mask (unat cls)) hk_classes))"

text \<open>
  The order of collection over all reports: every number is used once, is not 0, and decreases with the age
  in each ring; the rings together hold fewer samples than an index can count.
\<close>

definition collected_once :: "kfsw_hk_report list \<Rightarrow> bool" where
  "collected_once reports \<longleftrightarrow>
     (\<forall>r \<in> set reports. hk_ring_ok r \<and> sorted_wrt (>) (map fst (newest_first r)))
     \<and> distinct (map fst (concat (map newest_first reports)))
     \<and> 0 \<notin> fst ` set (concat (map newest_first reports))
     \<and> length (concat (map newest_first reports)) < 65536"

section \<open>Lemmas\<close>

subsection \<open>The ring of a report\<close>

lemma length_newest_first [simp]: "length (newest_first r) = unat (hr_held r)"
  by (simp add: newest_first_def)

lemma nth_newest_first:
  "a < unat (hr_held r) \<Longrightarrow> newest_first r ! a = (hr_order r ! age_slot r a, hr_ring r ! age_slot r a)"
  by (simp add: newest_first_def)

lemma age_slots_after_store:
  fixes k n a :: nat
  assumes "k < n"
  shows "((k + 1) mod n + n - 1) mod n = k"
    "Suc a < n \<Longrightarrow> ((k + 1) mod n + n - 1 - Suc a) mod n = (k + n - 1 - a) mod n"
    "Suc a < n \<Longrightarrow> (k + n - 1 - a) mod n \<noteq> k"
proof -
  have m: "(k + 1) mod n = (if k + 1 = n then 0 else k + 1)" using assms by auto
  show "((k + 1) mod n + n - 1) mod n = k" using assms unfolding m by auto
  show "((k + 1) mod n + n - 1 - Suc a) mod n = (k + n - 1 - a) mod n" if "Suc a < n"
  proof (cases "k + 1 = n")
    case True
    then have "k + n - 1 - a = (n - 2 - a) + n" using that by simp
    then have "(k + n - 1 - a) mod n = (n - 2 - a) mod n" by (metis mod_add_self2)
    moreover have "0 + n - 1 - Suc a = n - 2 - a" by simp
    ultimately show ?thesis using True unfolding m by simp
  next
    case False
    have "k + 1 + n - 1 - Suc a = k + n - 1 - a" using that by simp
    then show ?thesis using False unfolding m by simp
  qed
  show "(k + n - 1 - a) mod n \<noteq> k" if "Suc a < n"
  proof (cases "a < k")
    case True
    then have "k + n - 1 - a = (k - 1 - a) + n" by simp
    then have "(k + n - 1 - a) mod n = k - 1 - a" using assms by (simp only: mod_add_self2) simp
    with True show ?thesis by simp
  next
    case False
    then have "k + n - 1 - a < n" using that assms by simp
    with that assms show ?thesis by simp
  qed
qed

lemma store_sample_sel [simp]:
  "length (hr_ring (store_sample x r)) = length (hr_ring r)" "length (hr_order (store_sample x r)) = length (hr_order r)"
  "hr_sequence (store_sample x r) = hr_sequence r + 1" "hr_defined (store_sample x r) = hr_defined r"
  "hr_entry_count (store_sample x r) = hr_entry_count r" "hr_payload_bytes (store_sample x r) = hr_payload_bytes r"
  by (simp_all add: store_sample_def Let_def split: prod.splits)

lemma unat_held_store:
  "hk_ring_ok r \<Longrightarrow> unat (hr_held (store_sample x r)) = min (length (hr_ring r)) (unat (hr_held r) + 1)"
  by (auto simp: store_sample_def hk_ring_ok_def Let_def unat_plus_small split: prod.splits)

lemma unat_next_store:
  assumes "hk_ring_ok r"
  shows "unat (hr_next_slot (store_sample x r)) = (unat (hr_next_slot r) + 1) mod length (hr_ring r)"
proof -
  have "(unat (hr_next_slot r) + 1) mod length (hr_ring r) < length (hr_ring r)" using assms by (simp add: hk_ring_ok_def)
  also have "\<dots> < 65536" using assms by (simp add: hk_ring_ok_def)
  finally show ?thesis by (simp add: store_sample_def Let_def unat_of_nat split: prod.splits)
qed

lemma ring_ok_store: "hk_ring_ok r \<Longrightarrow> hk_ring_ok (store_sample x r)"
  using unat_held_store [of r x] unat_next_store [of r x] by (simp add: hk_ring_ok_def)

lemma newest_first_store:
  assumes ok: "hk_ring_ok r"
  shows "newest_first (store_sample x r) = take (length (hr_ring r)) (x # newest_first r)"
proof (rule nth_equalityI)
  let ?n = "length (hr_ring r)" and ?r = "store_sample x r" and ?s = "unat (hr_next_slot r)"
  show "length (newest_first ?r) = length (take ?n (x # newest_first r))"
    using unat_held_store [OF ok] by simp
  fix a assume "a < length (newest_first ?r)"
  then have a: "a < ?n" "a \<le> unat (hr_held r)" "a < unat (hr_held ?r)" using unat_held_store [OF ok, of x] by simp_all
  have s: "?s < ?n" "length (hr_order r) = ?n" using ok by (simp_all add: hk_ring_ok_def)
  have lists: "hr_order ?r = (hr_order r)[?s := fst x]" "hr_ring ?r = (hr_ring r)[?s := snd x]"
    by (simp_all add: store_sample_def Let_def split: prod.splits)
  have slot: "age_slot ?r b = ((?s + 1) mod ?n + ?n - 1 - b) mod ?n" for b
    by (simp add: age_slot_def unat_next_store [OF ok])
  show "newest_first ?r ! a = take ?n (x # newest_first r) ! a"
  proof (cases a)
    case 0
    have "age_slot ?r 0 = ?s" using age_slots_after_store(1) [OF s(1)] by (simp add: slot)
    with 0 a s show ?thesis by (simp add: nth_newest_first lists)
  next
    case (Suc b)
    have "age_slot ?r a = age_slot r b" "age_slot r b \<noteq> ?s"
      using age_slots_after_store(2,3) [OF s(1), of b] a(1) Suc unfolding slot by (simp_all add: age_slot_def)
    with Suc a s show ?thesis by (simp add: nth_newest_first lists)
  qed
qed

interpretation hk_ring: ring_log store_sample "\<lambda>x r. x" "\<lambda>r. rev (newest_first r)" "\<lambda>r. length (hr_ring r)"
  hk_ring_ok "\<lambda>x r. True"
proof unfold_locales
  show "rev (newest_first (store_sample x s)) = keep_last (length (hr_ring s)) (rev (newest_first s) @ [x])"
    if "hk_ring_ok s" for x s
    unfolding newest_first_store [OF that] rev_take keep_last_def by simp
  show "hk_ring_ok (store_sample x s)" if "hk_ring_ok s" for x s using that by (rule ring_ok_store)
qed (auto simp: hk_ring_ok_def)

subsection \<open>Reading by age\<close>

lemma get_by_recency:
  assumes "kfsw_hk_report_at report st = Some r"
  shows "kfsw_hk_get report age Dest st =
    (if unat age < unat (hr_held r) then Inr (snd (newest_first r ! unat age)) else Inl ENOENT)"
  using assms by (auto simp: kfsw_hk_get_def nth_newest_first word_le_nat_alt)

lemma frame_ok_fields:
  assumes "frame_ok cfg report s"
  shows "sm_data s ! 0 = KFSW_HK_PROTOCOL_VERSION" "sm_data s ! 1 = report" "sys_get_be16 (drop 2 (sm_data s)) = sm_sequence s"
    "sys_get_be32 (drop 4 (sm_data s)) = sm_seconds s" "sm_data s ! 8 = sm_entry_count s" "sm_data s ! 9 = sm_flags s"
proof -
  obtain rest where d: "sm_data s = frame_header report s @ rest"
    using assms unfolding frame_ok_def by (metis append_take_drop_id)
  obtain a b where ab: "sys_put_be16 (sm_sequence s) = [a, b]" by (simp add: sys_put_be16_def)
  obtain w x y z where wxyz: "sys_put_be32 (sm_seconds s) = [w, x, y, z]" by (simp add: sys_put_be32_def sys_put_be16_def)
  show "sm_data s ! 0 = KFSW_HK_PROTOCOL_VERSION" "sm_data s ! 1 = report" by (simp_all add: d frame_header_def)
  show "sm_data s ! 8 = sm_entry_count s" "sm_data s ! 9 = sm_flags s" by (simp_all add: d frame_header_def ab wxyz)
  show "sys_get_be16 (drop 2 (sm_data s)) = sm_sequence s" by (simp add: d frame_header_def)
  have "drop 4 (sm_data s) = sys_put_be32 (sm_seconds s) @ [sm_entry_count s, sm_flags s] @ rest" by (simp add: d frame_header_def ab)
  then show "sys_get_be32 (drop 4 (sm_data s)) = sm_seconds s" by simp
qed

subsection \<open>The merge\<close>

lemma by_recency_Cons:
  assumes "mset xs = add_mset x (mset ys)" and "\<forall>y \<in> set ys. fst y < fst x" and "distinct (map fst ys)"
  shows "by_recency xs = x # by_recency ys"
proof -
  have "sort_key fst xs = sort_key fst ys @ [x]"
  proof (rule sort_key_inj_key_eq)
    show "mset xs = mset (sort_key fst ys @ [x])" using assms(1) by simp
    have "set xs = insert x (set ys)" using assms(1) by (metis set_mset_add_mset_insert set_mset_mset)
    then show "inj_on fst (set xs)" using assms(2,3) by (force simp: distinct_map inj_on_def)
    show "sorted (map fst (sort_key fst ys @ [x]))" using assms(2) by (auto simp: sorted_append intro: less_imp_le)
  qed
  then show ?thesis by (simp add: by_recency_def)
qed

lemma length_by_recency [simp]: "length (by_recency xs) = length xs"
  by (simp add: by_recency_def)

text \<open>What is left of each report's samples when \<open>ages\<close> of them have been passed.\<close>

definition left_over :: "u8 \<Rightarrow> u16 list \<Rightarrow> nat \<times> kfsw_hk_report \<Rightarrow> (u64 \<times> kfsw_hk_sample) list" where
  "left_over cls ages = (\<lambda>(i, r). if in_class cls r then drop (unat (ages ! i)) (newest_first r) else [])"

lemma merge_scan_left_over:
  "merge_scan cls ages (i, r) (newest, selected, chosen) =
     (case left_over cls ages (i, r) of
        [] \<Rightarrow> (newest, selected, chosen)
      | x # xs \<Rightarrow> if fst x > newest then (fst x, i, Some (snd x)) else (newest, selected, chosen))"
proof (cases "in_class cls r \<and> ages ! i < hr_held r")
  case True
  then have lt: "unat (ages ! i) < unat (hr_held r)" by (simp add: word_less_nat_alt)
  then have "left_over cls ages (i, r) = newest_first r ! unat (ages ! i) # drop (Suc (unat (ages ! i))) (newest_first r)"
    using True by (simp add: left_over_def Cons_nth_drop_Suc)
  with True lt show ?thesis by (simp add: merge_scan_def Let_def nth_newest_first not_le [THEN iffD2])
next
  case False
  then have "left_over cls ages (i, r) = []" by (auto simp: left_over_def not_less word_le_nat_alt)
  with False show ?thesis by (auto simp: merge_scan_def not_less)
qed

text \<open>The inner loop finds the newest of the first remaining samples.\<close>

definition picked :: "(u64 \<times> kfsw_hk_sample) list list \<Rightarrow> u64 \<times> nat \<times> kfsw_hk_sample option \<Rightarrow> bool" where
  "picked xss = (\<lambda>(k, i, chosen).
     if \<forall>xs \<in> set xss. xs = [] then k = 0 \<and> i = 0 \<and> chosen = None
     else i < length xss \<and> xss ! i \<noteq> [] \<and> fst (hd (xss ! i)) = k \<and> chosen = Some (snd (hd (xss ! i)))
       \<and> (\<forall>xs \<in> set xss. xs \<noteq> [] \<longrightarrow> fst (hd xs) \<le> k))"

lemma picked_snoc:
  assumes "picked xss (k, i, chosen)" and "\<forall>x \<in> set xs. fst x \<noteq> 0"
  shows "picked (xss @ [xs]) (case xs of [] \<Rightarrow> (k, i, chosen)
    | x # ys \<Rightarrow> if fst x > k then (fst x, length xss, Some (snd x)) else (k, i, chosen))"
proof (cases xs)
  case Nil
  with assms(1) show ?thesis by (auto simp: picked_def nth_append less_Suc_eq split: if_splits)
next
  case (Cons x ys)
  show ?thesis
  proof (cases "fst x > k")
    case True
    with assms(1) Cons show ?thesis
      by (force simp: picked_def nth_append split: if_splits)
  next
    case False
    have "fst x \<noteq> 0" using assms(2) Cons by simp
    then have "k \<noteq> 0" using False by (auto simp: word_gt_0)
    with assms(1) have "\<not> (\<forall>xs \<in> set xss. xs = [])" by (auto simp: picked_def split: if_splits)
    with assms(1) Cons False show ?thesis by (auto simp: picked_def nth_append not_less)
  qed
qed

lemma merge_pick_picked:
  assumes "0 \<notin> fst ` set (concat (map newest_first reports))"
  shows "picked (map (left_over cls ages) (enumerate 0 reports)) (merge_pick cls ages reports)"
  using assms
proof (induction reports rule: rev_induct)
  case Nil
  show ?case by (simp add: merge_pick_def picked_def)
next
  case (snoc r rs)
  obtain k i chosen where p: "merge_pick cls ages rs = (k, i, chosen)" by (cases "merge_pick cls ages rs") auto
  have "\<forall>x \<in> set (left_over cls ages (length rs, r)). fst x \<noteq> 0"
    using snoc.prems by (force simp: left_over_def dest: in_set_dropD split: if_splits)
  moreover have "picked (map (left_over cls ages) (enumerate 0 rs)) (k, i, chosen)"
    using snoc.IH snoc.prems p by (simp add: image_Un)
  ultimately show ?case
    using picked_snoc [of "map (left_over cls ages) (enumerate 0 rs)" k i chosen "left_over cls ages (length rs, r)"] p
    by (auto simp: merge_pick_def enumerate_append_eq merge_scan_left_over split: list.splits)
qed

lemma concat_update_tl:
  assumes "i < length xss" and "xss ! i \<noteq> []"
  shows "mset (concat xss) = add_mset (hd (xss ! i)) (mset (concat (xss[i := tl (xss ! i)])))"
proof -
  have "xss = take i xss @ (xss ! i) # drop (Suc i) xss" using assms(1) by (simp add: id_take_nth_drop)
  moreover have "xss[i := tl (xss ! i)] = take i xss @ tl (xss ! i) # drop (Suc i) xss"
    using assms(1) by (simp add: upd_conv_take_nth_drop)
  moreover have "mset (xss ! i) = add_mset (hd (xss ! i)) (mset (tl (xss ! i)))"
    using assms(2) by (cases "xss ! i") auto
  ultimately have "mset (concat xss) = mset (concat (take i xss @ (xss ! i) # drop (Suc i) xss))"
    "mset (concat (xss[i := tl (xss ! i)])) = mset (concat (take i xss @ tl (xss ! i) # drop (Suc i) xss))"
    "mset (xss ! i) = add_mset (hd (xss ! i)) (mset (tl (xss ! i)))" by simp_all
  then show ?thesis by simp
qed

text \<open>Streams whose orders decrease and are used once.\<close>

definition streams :: "(u64 \<times> 'a) list list \<Rightarrow> bool" where
  "streams xss \<longleftrightarrow> (\<forall>xs \<in> set xss. sorted_wrt (>) (map fst xs)) \<and> distinct (map fst (concat xss))"

lemma streams_head:
  assumes "streams xss" and "picked xss (k, i, chosen)" and "concat xss \<noteq> []"
  shows "i < length xss" "xss ! i \<noteq> []" "chosen = Some (snd (hd (xss ! i)))" "streams (xss[i := tl (xss ! i)])"
    "by_recency (concat xss) = hd (xss ! i) # by_recency (concat (xss[i := tl (xss ! i)]))"
proof -
  have ne: "\<not> (\<forall>xs \<in> set xss. xs = [])" using assms(3) by simp
  with assms(2) show i: "i < length xss" "xss ! i \<noteq> []" "chosen = Some (snd (hd (xss ! i)))"
    by (auto simp: picked_def split: if_splits)
  let ?x = "hd (xss ! i)" and ?yss = "xss[i := tl (xss ! i)]"
  note m = concat_update_tl [OF i(1,2)]
  have top: "fst x \<le> fst ?x" if "xs \<in> set xss" "x \<in> set xs" for x xs
  proof -
    have "fst (hd xs) \<le> fst ?x" using that assms(2) ne by (auto simp: picked_def split: if_splits)
    moreover have "sorted_wrt (>) (map fst xs)" using that(1) assms(1) by (simp add: streams_def)
    then have "fst x \<le> fst (hd xs)" using that(2) by (cases xs) auto
    ultimately show ?thesis by simp
  qed
  have "image_mset fst (mset (concat xss)) = add_mset (fst ?x) (image_mset fst (mset (concat ?yss)))" by (simp only: m image_mset_add_mset)
  then have "mset (map fst (concat xss)) = mset (fst ?x # map fst (concat ?yss))" by (simp only: mset_map mset.simps)
  then have dist: "distinct (fst ?x # map fst (concat ?yss))" using assms(1) unfolding streams_def by (metis mset_eq_imp_distinct_iff)
  have sub: "set (concat ?yss) \<subseteq> set (concat xss)" using arg_cong [OF m, of set_mset] by auto
  have less: "\<forall>y \<in> set (concat ?yss). fst y < fst ?x"
  proof
    fix y assume y: "y \<in> set (concat ?yss)"
    with sub have "y \<in> set (concat xss)" by blast
    with top have "fst y \<le> fst ?x" by (metis UN_E set_concat)
    moreover have "fst y \<noteq> fst ?x" using y dist by (metis distinct.simps(2) imageI list.set_map)
    ultimately show "fst y < fst ?x" by simp
  qed
  show "by_recency (concat xss) = ?x # by_recency (concat ?yss)"
    using by_recency_Cons [OF m less] dist by simp
  have "sorted_wrt (>) (map fst (tl (xss ! i)))"
    using assms(1) nth_mem [OF i(1)] i(2) by (cases "xss ! i") (auto simp: streams_def)
  then show "streams ?yss"
    using assms(1) dist set_update_subset_insert [of xss i "tl (xss ! i)"] by (auto simp: streams_def)
qed

lemma left_over_advance:
  assumes "i < length reports" and "left_over cls ages (i, reports ! i) \<noteq> []" and "length ages = length reports"
  shows "map (left_over cls (ages[i := ages ! i + 1])) (enumerate 0 reports) =
    (map (left_over cls ages) (enumerate 0 reports))[i := tl (left_over cls ages (i, reports ! i))]"
proof (rule nth_equalityI)
  fix j assume "j < length (map (left_over cls (ages[i := ages ! i + 1])) (enumerate 0 reports))"
  then have j: "j < length reports" by simp
  have "unat (ages ! i) < unat (hr_held (reports ! i))"
    using assms(2) by (auto simp: left_over_def not_le split: if_splits)
  then have "unat (ages ! i + 1) = Suc (unat (ages ! i))"
    using unat_u16_bound [of "hr_held (reports ! i)"] by (simp add: unat_plus_small)
  then have "left_over cls (ages[i := ages ! i + 1]) (i, reports ! i) = tl (left_over cls ages (i, reports ! i))"
    using assms(1,3) by (simp add: left_over_def drop_Suc tl_drop)
  moreover have "left_over cls (ages[i := ages ! i + 1]) (j, reports ! j) = left_over cls ages (j, reports ! j)" if "j \<noteq> i"
    using that by (simp add: left_over_def)
  ultimately show "map (left_over cls (ages[i := ages ! i + 1])) (enumerate 0 reports) ! j =
      (map (left_over cls ages) (enumerate 0 reports))[i := tl (left_over cls ages (i, reports ! i))] ! j"
    using j assms(1) by (cases "j = i") (simp_all add: nth_enumerate_eq)
qed simp

lemma merge_walk_recency:
  assumes "0 \<notin> fst ` set (concat (map newest_first reports))"
  shows "streams (map (left_over cls ages) (enumerate 0 reports)) \<Longrightarrow> length ages = length reports \<Longrightarrow>
    n < length (concat (map (left_over cls ages) (enumerate 0 reports))) \<Longrightarrow>
    merge_walk cls n ages reports = Some (snd (by_recency (concat (map (left_over cls ages) (enumerate 0 reports))) ! n))"
proof (induction n arbitrary: ages)
  case 0
  obtain k i chosen where p: "merge_pick cls ages reports = (k, i, chosen)" by (cases "merge_pick cls ages reports") auto
  have "concat (map (left_over cls ages) (enumerate 0 reports)) \<noteq> []" using 0(3) by (metis length_0_conv less_irrefl)
  note h = streams_head [OF 0(1) merge_pick_picked [OF assms, of cls ages, unfolded p] this]
  then show ?case using p by simp
next
  case (Suc n)
  let ?xss = "map (left_over cls ages) (enumerate 0 reports)"
  obtain k i chosen where p: "merge_pick cls ages reports = (k, i, chosen)" by (cases "merge_pick cls ages reports") auto
  have "concat ?xss \<noteq> []" using Suc.prems(3) by (metis length_0_conv not_less0)
  note h = streams_head [OF Suc.prems(1) merge_pick_picked [OF assms, of cls ages, unfolded p] this]
  have i: "i < length reports" "?xss ! i = left_over cls ages (i, reports ! i)" using h(1) by (simp_all add: nth_enumerate_eq)
  note adv = left_over_advance [OF i(1) h(2) [unfolded i(2)] Suc.prems(2)]
  have "length (concat ?xss) = Suc (length (concat (?xss[i := tl (?xss ! i)])))"
    using arg_cong [OF h(5), of length] by simp
  then have "n < length (concat (?xss[i := tl (?xss ! i)]))" using Suc.prems(3) by simp
  with Suc.IH [of "ages[i := ages ! i + 1]", unfolded adv] h(4) Suc.prems(2)
  show ?case unfolding i(2) using p h(5) i(2) by simp
qed

subsection \<open>The selection\<close>

lemma concat_at_start:
  "concat (map (left_over cls (replicate (length reports) 0)) (enumerate 0 reports)) =
     concat (map newest_first (filter (in_class cls) reports))"
proof -
  have "map (left_over cls (replicate (length reports) 0)) (enumerate 0 reports) =
      map (\<lambda>r. if in_class cls r then newest_first r else []) reports"
    by (rule nth_equalityI) (simp_all add: nth_enumerate_eq left_over_def)
  moreover have "concat (map (\<lambda>r. if in_class cls r then newest_first r else []) rs) =
      concat (map newest_first (filter (in_class cls) rs))" for rs
    by (induction rs) simp_all
  ultimately show ?thesis by simp
qed

lemma distinct_filtered: "distinct (map f (concat (map g rs))) \<Longrightarrow> distinct (map f (concat (map g (filter P rs))))"
  by (induction rs) auto

lemma streams_at_start:
  assumes "collected_once reports"
  shows "streams (map (left_over cls (replicate (length reports) 0)) (enumerate 0 reports))"
  unfolding streams_def concat_at_start
proof
  show "distinct (map fst (concat (map newest_first (filter (in_class cls) reports))))"
    using assms by (intro distinct_filtered) (simp add: collected_once_def)
  show "\<forall>xs \<in> set (map (left_over cls (replicate (length reports) 0)) (enumerate 0 reports)). sorted_wrt (>) (map fst xs)"
  proof
    fix xs assume "xs \<in> set (map (left_over cls (replicate (length reports) 0)) (enumerate 0 reports))"
    then obtain i where "i < length reports" "xs = left_over cls (replicate (length reports) 0) (i, reports ! i)"
      by (auto simp: in_set_conv_nth nth_enumerate_eq)
    then show "sorted_wrt (>) (map fst xs)" using assms by (simp add: left_over_def collected_once_def)
  qed
qed

lemma length_filtered: "length (concat (map g (filter P rs))) \<le> length (concat (map g rs))"
  by (induction rs) auto

lemma unat_class_available:
  assumes "length (concat (map newest_first (filter (in_class cls) reports))) < 65536"
  shows "unat (class_available cls reports) = length (concat (map newest_first (filter (in_class cls) reports)))"
  using assms
proof (induction reports rule: rev_induct)
  case (snoc r rs)
  show ?case
  proof (cases "in_class cls r")
    case True
    with snoc show ?thesis by (simp add: class_available_def unat_plus_small)
  next
    case False
    with snoc show ?thesis by (simp add: class_available_def)
  qed
qed (simp add: class_available_def)

lemma select_classes_samples:
  assumes once: "collected_once reports"
  shows "select_classes classes cmask index reports =
    (let samples = concat (map (class_samples reports) (filter (\<lambda>cls. bit cmask (unat cls)) classes))
     in if unat index < length samples then Inr (samples ! unat index) else Inl ENOENT)"
proof (induction classes arbitrary: index)
  case (Cons cls later)
  have sel: "cmask AND push_bit (unat cls) 1 = 0 \<longleftrightarrow> \<not> bit cmask (unat cls)"
    by (simp add: push_bit_of_1 and_exp_eq_0_iff_not_bit)
  show ?case
  proof (cases "bit cmask (unat cls)")
    case True
    let ?xs = "concat (map newest_first (filter (in_class cls) reports))"
    have lt: "length ?xs < 65536" using once length_filtered [of newest_first "in_class cls" reports] by (simp add: collected_once_def)
    note available = unat_class_available [OF lt]
    have cs: "length (class_samples reports cls) = length ?xs" by (simp add: class_samples_def)
    show ?thesis
    proof (cases "unat index < length ?xs")
      case in_class: True
      have z: "0 \<notin> fst ` set (concat (map newest_first reports))" using once by (simp add: collected_once_def)
      from merge_walk_recency [OF z streams_at_start [OF once], of "unat index" cls, unfolded concat_at_start] in_class
      have "merge_walk cls (unat index) (replicate (length reports) 0) reports = Some (class_samples reports cls ! unat index)"
        by (simp add: class_samples_def)
      moreover have "\<not> class_available cls reports \<le> index" using in_class available by (simp add: word_le_nat_alt)
      ultimately show ?thesis using True sel in_class cs by (simp add: Let_def nth_append)
    next
      case False
      then have "class_available cls reports \<le> index" using available by (simp add: word_le_nat_alt)
      moreover from this have "unat (index - class_available cls reports) = unat index - length ?xs"
        using available by (simp add: unat_sub)
      ultimately show ?thesis using True sel False cs Cons.IH [of "index - class_available cls reports"]
        by (auto simp: Let_def nth_append)
    qed
  next
    case False
    with sel Cons.IH [of index] show ?thesis by simp
  qed
qed simp

text \<open>One sample is stored in one report: the order of collection goes on.\<close>

definition orders :: "kfsw_hk_report list \<Rightarrow> u64 set" where
  "orders reports = fst ` set (concat (map newest_first reports))"

end
