(* ===== verification/Hk_Store.thy ===== *)
theory Hk_Store
  imports Hk_Report Files
begin

text \<open>
  The stored history of the housekeeping service, \<^verbatim>\<open>src/hk/hk_store.c\<close> and \<^verbatim>\<open>src/hk/hk_reader.c\<close>: each report can
  keep its samples in a file of fixed-size slots, written in batches and read back, counted and extracted by
  a filter.

  \<open>store_state\<close> is what the service keeps of one report's store; the file system and the CRC are parameters.
  The part of \<^verbatim>\<open>hk_store.c\<close> that restores stores at boot belongs to the snapshot of the definitions, a build
  option that is not modelled. Proved: a flush writes each sample of its batch into the slot of its sequence
  number and leaves every other slot alone, so a sample that was flushed is read back as it was collected.
\<close>

section \<open>The store file\<close>

definition KFSW_HK_STORE_DIRECTORY :: string where "KFSW_HK_STORE_DIRECTORY = ''/kfsw/hk''"
definition KFSW_HK_STORE_MAGIC :: bytes where "KFSW_HK_STORE_MAGIC = [0x4B, 0x48, 0x4B, 0x53]"
definition KFSW_HK_STORE_VERSION :: u8 where "KFSW_HK_STORE_VERSION = 1"
definition KFSW_HK_STORE_HEADER_SIZE :: nat where "KFSW_HK_STORE_HEADER_SIZE = 12"

record store_state =
  sst_interval_ms :: u32
  sst_every_n :: u16
  sst_pending :: u16
  sst_record_size :: u16
  sst_open :: bool

type_synonym 'f store_node = "store_state list \<times> 'f"

definition kfsw_hk_store_path :: "u8 \<Rightarrow> string" where
  "kfsw_hk_store_path report = KFSW_HK_STORE_DIRECTORY @ ''/report'' @ decimal (unat report) @ ''.bin''"

definition write_at :: "'f fs_ops \<Rightarrow> string \<Rightarrow> nat \<Rightarrow> bytes \<Rightarrow> 'f \<Rightarrow> rc \<times> 'f" where
  "write_at ops path offset data f =
     (case fs_seek ops path offset f of
        (Some e, f1) \<Rightarrow> (Some e, f1)
      | (None, f1) \<Rightarrow> write_all ops path data f1)"

definition store_header :: "hk_config \<Rightarrow> u8 \<Rightarrow> u16 \<Rightarrow> bytes" where
  "store_header cfg report record_size =
     KFSW_HK_STORE_MAGIC @ [KFSW_HK_STORE_VERSION, report] @ sys_put_be16 record_size @ sys_put_be32 (hc_store_capacity cfg)"

definition create_file :: "hk_config \<Rightarrow> 'f fs_ops \<Rightarrow> u8 \<Rightarrow> u16 \<Rightarrow> 'f \<Rightarrow> rc \<times> 'f" where
  "create_file cfg ops report record_size f =
     (case fs_mkdir ops KFSW_HK_STORE_DIRECTORY f of
        (made, f1) \<Rightarrow>
          if made \<noteq> None \<and> made \<noteq> Some EEXIST then (made, f1)
          else
            (let path = kfsw_hk_store_path report
             in case fs_open ops path FS_CREATE_WRITE_TRUNC f1 of
                  (Some e, f2) \<Rightarrow> (Some e, f2)
                | (None, f2) \<Rightarrow>
                    (case write_at ops path 0 (store_header cfg report record_size) f2 of
                       (written, f3) \<Rightarrow>
                         (case fs_close ops path f3 of (closed, f4) \<Rightarrow> (first_error written closed, f4)))))"

definition kfsw_hk_store_bytes_needed :: "hk_config \<Rightarrow> u16 \<Rightarrow> nat" where
  "kfsw_hk_store_bytes_needed cfg record_size = KFSW_HK_STORE_HEADER_SIZE + unat record_size * unat (hc_store_capacity cfg)"

text \<open>How many collections go into one write: as many as fit in the interval, at least one, at most the ring.\<close>

definition store_every :: "hk_config \<Rightarrow> u32 \<Rightarrow> u32 \<Rightarrow> u16" where
  "store_every cfg interval_ms period_ms =
     (let every = (if period_ms = 0 then 1 else ucast ((ucast interval_ms + ucast period_ms - 1 :: u64) div ucast period_ms)) :: u32;
          every1 = (if every = 0 then 1 else every)
      in if unat every1 > hc_history cfg then word_of_nat (hc_history cfg) else ucast every1)"

definition kfsw_hk_store_configure ::
  "hk_config \<Rightarrow> 'f fs_ops \<Rightarrow> u8 \<Rightarrow> u32 \<Rightarrow> u32 \<Rightarrow> u16 \<Rightarrow> 'f store_node \<Rightarrow> rc \<times> 'f store_node" where
  "kfsw_hk_store_configure cfg ops report interval_ms period_ms record_size = (\<lambda>(stores, f).
     if unat report \<ge> length stores then (Some EINVAL, stores, f)
     else if interval_ms = 0 then
       (None, stores[unat report := (stores ! unat report)\<lparr>sst_interval_ms := 0, sst_open := False, sst_pending := 0\<rparr>], f)
     else if \<not> storage_ready ops f then (Some ENODEV, stores, f)
     else if interval_ms < hc_store_floor_ms cfg then (Some ERANGE, stores, f)
     else
       (case storage_free ops f of
          Inl e \<Rightarrow> (Some e, stores, f)
        | Inr free_bytes \<Rightarrow>
            if kfsw_hk_store_bytes_needed cfg record_size > unat free_bytes then (Some ENOSPC, stores, f)
            else
              (case create_file cfg ops report record_size f of
                 (Some e, f1) \<Rightarrow> (Some e, stores, f1)
               | (None, f1) \<Rightarrow>
                   (None, stores[unat report := \<lparr>sst_interval_ms = interval_ms, sst_every_n = store_every cfg interval_ms period_ms,
                      sst_pending = 0, sst_record_size = record_size, sst_open = True\<rparr>], f1))))"

definition kfsw_hk_store_interval :: "u8 \<Rightarrow> store_state list \<Rightarrow> u32" where
  "kfsw_hk_store_interval report stores =
     (if unat report \<ge> length stores then 0 else sst_interval_ms (stores ! unat report))"

definition kfsw_hk_store_forget :: "'f fs_ops \<Rightarrow> u8 \<Rightarrow> 'f store_node \<Rightarrow> 'f store_node" where
  "kfsw_hk_store_forget ops report = (\<lambda>(stores, f).
     if unat report \<ge> length stores then (stores, f)
     else (stores[unat report := (stores ! unat report)\<lparr>sst_open := False, sst_interval_ms := 0, sst_pending := 0\<rparr>],
           snd (fs_unlink ops (kfsw_hk_store_path report) f)))"

definition record_offset :: "u32 \<Rightarrow> u16 \<Rightarrow> u16 \<Rightarrow> nat" where
  "record_offset capacity record_size sequence =
     KFSW_HK_STORE_HEADER_SIZE + (unat sequence mod unat capacity) * unat record_size"

text \<open>The loop of the flush: \<open>left\<close> samples are still to be written, the next one carries \<open>sequence\<close>.\<close>

fun flush_records ::
  "hk_config \<Rightarrow> 'f fs_ops \<Rightarrow> u8 \<Rightarrow> u16 \<Rightarrow> hk_state \<Rightarrow> nat \<Rightarrow> u16 \<Rightarrow> 'f \<Rightarrow> rc \<times> 'f" where
  "flush_records cfg ops report record_size st 0 sequence f = (None, f)"
| "flush_records cfg ops report record_size st (Suc left) sequence f =
     (case kfsw_hk_get report (word_of_nat left) Dest st of
        Inl e \<Rightarrow> (Some e, f)
      | Inr sample \<Rightarrow>
          (case write_at ops (kfsw_hk_store_path report) (record_offset (hc_store_capacity cfg) record_size sequence)
              (take (unat record_size) (sm_data sample)) f of
             (Some e, f1) \<Rightarrow> (Some e, f1)
           | (None, f1) \<Rightarrow> flush_records cfg ops report record_size st left (sequence + 1) f1))"

definition kfsw_hk_store_flush ::
  "hk_config \<Rightarrow> 'f fs_ops \<Rightarrow> u8 \<Rightarrow> u16 \<Rightarrow> hk_state \<Rightarrow> 'f store_node \<Rightarrow> rc \<times> 'f store_node" where
  "kfsw_hk_store_flush cfg ops report next_sequence st = (\<lambda>(stores, f).
     if unat report \<ge> length stores \<or> \<not> sst_open (stores ! unat report) then (Some EACCES, stores, f)
     else
       (let s = stores ! unat report;
            pending = min (unat (sst_pending s) + 1) (hc_history cfg);
            counted = stores[unat report := s\<lparr>sst_pending := word_of_nat pending\<rparr>];
            path = kfsw_hk_store_path report
        in if pending < unat (sst_every_n s) then (None, counted, f)
           else
             (case fs_open ops path FS_WRITE f of
                (Some e, f1) \<Rightarrow> (Some e, counted, f1)
              | (None, f1) \<Rightarrow>
                  (case flush_records cfg ops report (sst_record_size s) st pending (next_sequence - word_of_nat pending) f1 of
                     (written, f2) \<Rightarrow>
                       (case fs_close ops path f2 of
                          (closed, f3) \<Rightarrow>
                            (first_error written closed, stores[unat report := s\<lparr>sst_pending := 0\<rparr>], f3))))))"

section \<open>Reading it back\<close>

definition KFSW_HK_DATASET_MAGIC :: bytes where "KFSW_HK_DATASET_MAGIC = [0x4B, 0x48, 0x4B, 0x44]"
definition KFSW_HK_DATASET_VERSION :: u8 where "KFSW_HK_DATASET_VERSION = 1"
definition KFSW_HK_DATASET_HEADER_SIZE :: nat where "KFSW_HK_DATASET_HEADER_SIZE = 20"
definition KFSW_HK_DATASET_CRC_OFFSET :: nat where "KFSW_HK_DATASET_CRC_OFFSET = 16"
definition KFSW_HK_EXTRACT_PATH_MAX :: nat where "KFSW_HK_EXTRACT_PATH_MAX = 96"
definition KFSW_HK_EXTRACT_SUFFIX :: string where "KFSW_HK_EXTRACT_SUFFIX = ''.part''"

record store_reader =
  rd_record_size :: u16
  rd_capacity :: u32
  rd_newest :: u16
  rd_written :: u16

definition slot_belongs :: "bytes \<Rightarrow> u8 \<Rightarrow> u32 \<Rightarrow> nat \<Rightarrow> bool" where
  "slot_belongs record report capacity slot \<longleftrightarrow>
     record ! 0 = KFSW_HK_PROTOCOL_VERSION \<and> record ! 1 = report
     \<and> unat (sys_get_be16 (drop 2 record)) mod unat capacity = slot"

definition read_at :: "'f fs_ops \<Rightarrow> string \<Rightarrow> nat \<Rightarrow> nat \<Rightarrow> 'f \<Rightarrow> (errno + bytes) \<times> 'f" where
  "read_at ops path offset n f =
     (case fs_seek ops path offset f of
        (Some e, f1) \<Rightarrow> (Inl e, f1)
      | (None, f1) \<Rightarrow> read_exact ops path n f1)"

text \<open>\<open>(int16_t)(sequence - newest) > 0\<close>.\<close>

definition newer :: "u16 \<Rightarrow> u16 \<Rightarrow> bool" where
  "newer a b \<longleftrightarrow> 0 < sint (a - b)"

text \<open>The walk over the slots: \<open>slot\<close> is the next one, \<open>left\<close> those to come; \<open>have\<close> tells that a record was found.\<close>

fun scan_slots ::
  "'f fs_ops \<Rightarrow> string \<Rightarrow> u8 \<Rightarrow> nat \<Rightarrow> nat \<Rightarrow> bool \<Rightarrow> store_reader \<Rightarrow> 'f \<Rightarrow> store_reader \<times> 'f" where
  "scan_slots ops path report 0 slot found reader f = (reader\<lparr>rd_written := if found then rd_written reader else 0\<rparr>, f)"
| "scan_slots ops path report (Suc left) slot found reader f =
     (case read_at ops path (KFSW_HK_STORE_HEADER_SIZE + slot * unat (rd_record_size reader)) (unat (rd_record_size reader)) f of
        (Inl e, f1) \<Rightarrow> (reader\<lparr>rd_written := if found then rd_written reader else 0\<rparr>, f1)
      | (Inr record, f1) \<Rightarrow>
          if record ! 0 = 0 \<or> \<not> slot_belongs record report (rd_capacity reader) slot
          then scan_slots ops path report left (Suc slot) found reader f1
          else
            (let sequence = sys_get_be16 (drop 2 record);
                 counted = reader\<lparr>rd_written := rd_written reader + 1\<rparr>
             in scan_slots ops path report left (Suc slot) True
                  (if \<not> found \<or> newer sequence (rd_newest reader) then counted\<lparr>rd_newest := sequence\<rparr> else counted) f1))"

text \<open>A reader whose file was closed again comes as an error.\<close>

definition reader_open :: "hk_config \<Rightarrow> 'f fs_ops \<Rightarrow> u8 \<Rightarrow> 'f \<Rightarrow> (errno + store_reader) \<times> 'f" where
  "reader_open cfg ops report f =
     (let path = kfsw_hk_store_path report
      in if \<not> storage_ready ops f then (Inl ENODEV, f)
         else
           (case fs_open ops path FS_READ f of
              (Some e, f1) \<Rightarrow> (Inl e, f1)
            | (None, f1) \<Rightarrow>
                (case read_at ops path 0 KFSW_HK_STORE_HEADER_SIZE f1 of
                   (Inl e, f2) \<Rightarrow> (Inl e, snd (fs_close ops path f2))
                 | (Inr header, f2) \<Rightarrow>
                     (let record_size = sys_get_be16 (drop 6 header); capacity = sys_get_be32 (drop 8 header)
                      in if take 4 header \<noteq> KFSW_HK_STORE_MAGIC \<or> header ! 4 \<noteq> KFSW_HK_STORE_VERSION \<or> header ! 5 \<noteq> report
                         then (Inl EBADMSG, snd (fs_close ops path f2))
                         else if record_size = 0 \<or> unat record_size > hc_sample_bytes cfg \<or> capacity = 0
                         then (Inl EBADMSG, snd (fs_close ops path f2))
                         else
                           (case scan_slots ops path report (unat capacity) 0 False
                               \<lparr>rd_record_size = record_size, rd_capacity = capacity, rd_newest = 0, rd_written = 0\<rparr> f2 of
                              (reader, f3) \<Rightarrow> (Inr reader, f3))))))"

definition reader_oldest :: "store_reader \<Rightarrow> u16" where
  "reader_oldest reader = rd_newest reader - (rd_written reader - 1)"

definition reader_record ::
  "hk_config \<Rightarrow> 'f fs_ops \<Rightarrow> store_reader \<Rightarrow> u8 \<Rightarrow> u16 \<Rightarrow> 'f \<Rightarrow> (errno + kfsw_hk_sample) \<times> 'f" where
  "reader_record cfg ops reader report sequence f =
     (case read_at ops (kfsw_hk_store_path report) (record_offset (rd_capacity reader) (rd_record_size reader) sequence)
         (unat (rd_record_size reader)) f of
        (Inl e, f1) \<Rightarrow> (Inl e, f1)
      | (Inr record, f1) \<Rightarrow>
          (let data = record @ replicate (hc_sample_bytes cfg - length record) 0
           in if data ! 0 = 0 \<or> \<not> slot_belongs data report (rd_capacity reader) (unat sequence mod unat (rd_capacity reader))
                 \<or> sys_get_be16 (drop 2 data) \<noteq> sequence
              then (Inl ENOENT, f1)
              else (Inr \<lparr>sm_seconds = sys_get_be32 (drop 4 data), sm_sequence = sequence, sm_entry_count = data ! 8,
                      sm_flags = data ! 9, sm_length = rd_record_size reader, sm_data = data\<rparr>, f1)))"

record kfsw_hk_store_filter =
  sf_report :: u8
  sf_from_sequence :: u16
  sf_to_sequence :: u16
  sf_from_seconds :: u32
  sf_to_seconds :: u32
  sf_without_flags :: u8

definition sequence_within :: "kfsw_hk_store_filter \<Rightarrow> u16 \<Rightarrow> bool" where
  "sequence_within filt sequence \<longleftrightarrow>
     \<not> (sf_from_sequence filt \<noteq> 0 \<and> sint (sequence - sf_from_sequence filt) < 0)
     \<and> \<not> (sf_to_sequence filt \<noteq> 0 \<and> newer sequence (sf_to_sequence filt))"

definition sample_matches :: "kfsw_hk_store_filter \<Rightarrow> kfsw_hk_sample \<Rightarrow> bool" where
  "sample_matches filt sample \<longleftrightarrow>
     sequence_within filt (sm_sequence sample)
     \<and> \<not> (sf_from_seconds filt \<noteq> 0 \<and> sm_seconds sample < sf_from_seconds filt)
     \<and> \<not> (sf_to_seconds filt \<noteq> 0 \<and> sm_seconds sample > sf_to_seconds filt)
     \<and> \<not> (sf_without_flags filt \<noteq> 0 \<and> sm_flags sample AND sf_without_flags filt \<noteq> 0)"

text \<open>
  The visitors of the walk see the sample, its position and a context; as one of them writes a file, the files are
  part of the state they change.
\<close>

type_synonym ('f, 'c) record_visitor = "kfsw_hk_sample \<Rightarrow> u16 \<Rightarrow> 'c \<times> 'f \<Rightarrow> bool \<times> 'c \<times> 'f"

fun walk_window ::
  "hk_config \<Rightarrow> 'f fs_ops \<Rightarrow> store_reader \<Rightarrow> kfsw_hk_store_filter \<Rightarrow> ('f, 'c) record_visitor option \<Rightarrow> nat \<Rightarrow> u16 \<Rightarrow> u16
     \<Rightarrow> 'c \<times> 'f \<Rightarrow> u16 \<times> 'c \<times> 'f" where
  "walk_window cfg ops reader filt visitor 0 sequence position s = (position, s)"
| "walk_window cfg ops reader filt visitor (Suc left) sequence position (context, f) =
     (case reader_record cfg ops reader (sf_report filt) sequence f of
        (Inl e, f1) \<Rightarrow> walk_window cfg ops reader filt visitor left (sequence + 1) position (context, f1)
      | (Inr sample, f1) \<Rightarrow>
          if \<not> sample_matches filt sample
          then walk_window cfg ops reader filt visitor left (sequence + 1) position (context, f1)
          else
            (case visitor of
               None \<Rightarrow> walk_window cfg ops reader filt visitor left (sequence + 1) (position + 1) (context, f1)
             | Some v \<Rightarrow>
                 (case v sample position (context, f1) of
                    (again, s) \<Rightarrow> if again then walk_window cfg ops reader filt visitor left (sequence + 1) (position + 1) s
                                  else (position + 1, s))))"

definition hk_walk ::
  "hk_config \<Rightarrow> 'f fs_ops \<Rightarrow> kfsw_hk_store_filter option \<Rightarrow> ('f, 'c) record_visitor option \<Rightarrow> 'c \<times> 'f
     \<Rightarrow> (errno + u16) \<times> 'c \<times> 'f" where
  "hk_walk cfg ops filt visitor = (\<lambda>(context, f).
     case filt of
       None \<Rightarrow> (Inl EINVAL, context, f)
     | Some flt \<Rightarrow>
         if unat (sf_report flt) \<ge> hc_reports cfg then (Inl EINVAL, context, f)
         else
           (case reader_open cfg ops (sf_report flt) f of
              (Inl e, f1) \<Rightarrow> (Inl e, context, f1)
            | (Inr reader, f1) \<Rightarrow>
                (case walk_window cfg ops reader flt visitor (unat (rd_written reader)) (reader_oldest reader) 0 (context, f1) of
                   (matched, context', f2) \<Rightarrow>
                     (Inr matched, context', snd (fs_close ops (kfsw_hk_store_path (sf_report flt)) f2)))))"

record kfsw_hk_store_info =
  si_record_size :: u16
  si_capacity :: u32
  si_records :: u16
  si_oldest :: u16
  si_newest :: u16
  si_interval_ms :: u32

definition kfsw_hk_store_query ::
  "hk_config \<Rightarrow> 'f fs_ops \<Rightarrow> u8 \<Rightarrow> dest \<Rightarrow> 'f store_node \<Rightarrow> (errno + kfsw_hk_store_info) \<times> 'f" where
  "kfsw_hk_store_query cfg ops report info = (\<lambda>(stores, f).
     if info = Null \<or> unat report \<ge> hc_reports cfg then (Inl EINVAL, f)
     else
       (case reader_open cfg ops report f of
          (Inl e, f1) \<Rightarrow> (Inl e, f1)
        | (Inr reader, f1) \<Rightarrow>
            (Inr \<lparr>si_record_size = rd_record_size reader, si_capacity = rd_capacity reader, si_records = rd_written reader,
               si_oldest = (if rd_written reader \<noteq> 0 then reader_oldest reader else 0),
               si_newest = (if rd_written reader \<noteq> 0 then rd_newest reader else 0),
               si_interval_ms = kfsw_hk_store_interval report stores\<rparr>,
             snd (fs_close ops (kfsw_hk_store_path report) f1))))"

definition kfsw_hk_store_count ::
  "hk_config \<Rightarrow> 'f fs_ops \<Rightarrow> kfsw_hk_store_filter option \<Rightarrow> dest \<Rightarrow> 'f \<Rightarrow> (errno + u16) \<times> 'f" where
  "kfsw_hk_store_count cfg ops filt records f =
     (if records = Null then (Inl EINVAL, f)
      else (case hk_walk cfg ops filt (None :: ('f, unit) record_visitor option) ((), f) of (result, u, f1) \<Rightarrow> (result, f1)))"

text \<open>\<open>take_one\<close>: the context is the sample once it was found.\<close>

definition take_one :: "u16 \<Rightarrow> ('f, kfsw_hk_sample option) record_visitor" where
  "take_one wanted sample position s = (if position \<noteq> wanted then (True, s) else (False, Some sample, snd s))"

definition kfsw_hk_store_read ::
  "hk_config \<Rightarrow> 'f fs_ops \<Rightarrow> kfsw_hk_store_filter option \<Rightarrow> u16 \<Rightarrow> dest \<Rightarrow> 'f \<Rightarrow> (errno + kfsw_hk_sample) \<times> 'f" where
  "kfsw_hk_store_read cfg ops filt index sample f =
     (if sample = Null then (Inl EINVAL, f)
      else
        (case hk_walk cfg ops filt (Some (take_one index)) (None, f) of
           (Inl e, found, f1) \<Rightarrow> (Inl e, f1)
         | (Inr matched, None, f1) \<Rightarrow> (Inl ENOENT, f1)
         | (Inr matched, Some s, f1) \<Rightarrow> (Inr s, f1)))"

text \<open>\<open>note_window\<close>: the first and the last sequence number.\<close>

definition note_window :: "('f, u16 \<times> u16) record_visitor" where
  "note_window sample position = (\<lambda>((first, final), f).
     (True, (if position = 0 then sm_sequence sample else first, sm_sequence sample), f))"

text \<open>\<open>write_one\<close>: the context is the running CRC and the error that stopped the extract.\<close>

definition write_one ::
  "(u32 \<Rightarrow> bytes \<Rightarrow> u32) \<Rightarrow> 'f fs_ops \<Rightarrow> string \<Rightarrow> u16 \<Rightarrow> ('f, u32 \<times> rc) record_visitor" where
  "write_one crc32_update ops path record_size sample position = (\<lambda>((crc, failed), f).
     (case write_all ops path (take (unat record_size) (sm_data sample)) f of
        (Some e, f1) \<Rightarrow> (False, (crc, Some e), f1)
      | (None, f1) \<Rightarrow> (True, (crc32_update crc (take (unat record_size) (sm_data sample)), failed), f1)))"

definition dataset_header :: "u8 \<Rightarrow> u16 \<Rightarrow> u16 \<Rightarrow> u16 \<Rightarrow> u16 \<Rightarrow> bytes" where
  "dataset_header report record_size selected first final =
     KFSW_HK_DATASET_MAGIC @ [KFSW_HK_DATASET_VERSION, report] @ sys_put_be16 record_size @ sys_put_be32 (ucast selected)
       @ sys_put_be16 first @ sys_put_be16 final @ sys_put_be32 0"

text \<open>The temporary file from the header to the checksum: the result and the records written.\<close>

definition write_dataset ::
  "hk_config \<Rightarrow> (u32 \<Rightarrow> bytes \<Rightarrow> u32) \<Rightarrow> 'f fs_ops \<Rightarrow> kfsw_hk_store_filter \<Rightarrow> string \<Rightarrow> bytes \<Rightarrow> u16 \<Rightarrow> u16 \<Rightarrow> 'f
     \<Rightarrow> rc \<times> u16 \<times> 'f" where
  "write_dataset cfg crc32_update ops filt tmp header record_size selected f =
     (case fs_write ops tmp header f of
        (wrote, f1) \<Rightarrow>
          if wrote \<noteq> Inr KFSW_HK_DATASET_HEADER_SIZE then (Some EIO, 0, f1)
          else
            (case hk_walk cfg ops (Some filt) (Some (write_one crc32_update ops tmp record_size)) ((crc32_update 0 header, None), f1) of
               (Inl e, context, f2) \<Rightarrow> (Some e, 0, f2)
             | (Inr written, (crc, Some e), f2) \<Rightarrow> (Some e, written, f2)
             | (Inr written, (crc, None), f2) \<Rightarrow>
                 if written \<noteq> selected then (Some EAGAIN, written, f2)
                 else
                   (case fs_seek ops tmp KFSW_HK_DATASET_CRC_OFFSET f2 of
                      (Some e, f3) \<Rightarrow> (Some e, written, f3)
                    | (None, f3) \<Rightarrow>
                        (case fs_write ops tmp (sys_put_be32 crc) f3 of
                           (wrote, f4) \<Rightarrow>
                             if wrote \<noteq> Inr 4 then (Some EIO, written, f4)
                             else (case fs_sync ops tmp f4 of (synced, f5) \<Rightarrow> (synced, written, f5))))))"

definition kfsw_hk_store_extract ::
  "hk_config \<Rightarrow> (u32 \<Rightarrow> bytes \<Rightarrow> u32) \<Rightarrow> 'f fs_ops \<Rightarrow> kfsw_hk_store_filter option \<Rightarrow> string option \<Rightarrow> 'f store_node
     \<Rightarrow> (errno + u16) \<times> 'f" where
  "kfsw_hk_store_extract cfg crc32_update ops filt path = (\<lambda>(stores, f).
     case (filt, path) of
       (Some flt, Some p) \<Rightarrow>
         if p = [] \<or> length p \<ge> KFSW_HK_EXTRACT_PATH_MAX then (Inl EINVAL, f)
         else
           (case kfsw_hk_store_query cfg ops (sf_report flt) Dest (stores, f) of
              (Inl e, f1) \<Rightarrow> (Inl e, f1)
            | (Inr info, f1) \<Rightarrow>
                (case hk_walk cfg ops filt (Some note_window) ((0, 0), f1) of
                   (Inl e, w, f2) \<Rightarrow> (Inl e, f2)
                 | (Inr selected, (first, final), f2) \<Rightarrow>
                     if selected = 0 then (Inl ENOENT, f2)
                     else
                       (let tmp = p @ KFSW_HK_EXTRACT_SUFFIX;
                            f3 = snd (fs_unlink ops tmp f2)
                        in case fs_open ops tmp FS_CREATE_WRITE_TRUNC f3 of
                             (Some e, f4) \<Rightarrow> (Inl e, f4)
                           | (None, f4) \<Rightarrow>
                               (case write_dataset cfg crc32_update ops flt tmp
                                   (dataset_header (sf_report flt) (si_record_size info) selected first final)
                                   (si_record_size info) selected f4 of
                                  (result, written, f5) \<Rightarrow>
                                    (case fs_close ops tmp f5 of
                                       (closed, f6) \<Rightarrow>
                                         (case first_error result closed of
                                            Some e \<Rightarrow> (Inl e, snd (fs_unlink ops tmp f6))
                                          | None \<Rightarrow>
                                              (case fs_rename ops tmp p f6 of
                                                 (Some e, f7) \<Rightarrow> (Inl e, snd (fs_unlink ops tmp f7))
                                               | (None, f7) \<Rightarrow> (Inr written, f7))))))))
     | _ \<Rightarrow> (Inl EINVAL, f))"

text \<open>A store with room for eight records and one sample short of its batch.\<close>

definition demo_hk_config :: hk_config where
  "demo_hk_config = \<lparr>hc_reports = 1, hc_entries = 4, hc_history = 2, hc_sample_bytes = 32, hc_period_floor_ms = 1000,
     hc_store_capacity = 8, hc_store_floor_ms = 1000\<rparr>"

definition demo_sample :: "u16 \<Rightarrow> kfsw_hk_sample" where
  "demo_sample sequence = \<lparr>sm_seconds = 7, sm_sequence = sequence, sm_entry_count = 1, sm_flags = 0, sm_length = 12,
     sm_data = [1, 0] @ sys_put_be16 sequence @ [0, 0, 0, 7, 1, 0, 0xAB, 0xCD] @ replicate 20 0\<rparr>"

definition demo_hk_report :: kfsw_hk_report where
  "demo_hk_report = \<lparr>hr_entries = [\<lparr>hke_node = 0, hke_param_id = 1\<rparr>], hr_widths = [2], hr_offsets = [10], hr_entry_count = 1,
     hr_class = 4, hr_defined = True, hr_payload_bytes = 2, hr_period_ms = 1000, hr_next_uptime_ms = 0,
     hr_ring = [demo_sample 4, demo_sample 5], hr_order = [5, 6], hr_held = 2, hr_next_slot = 0, hr_sequence = 6\<rparr>"

definition demo_hk_state :: hk_state where
  "demo_hk_state = \<lparr>hk_reports = [demo_hk_report],
     hk_stats = \<lparr>hst_collections = 6, hst_scheduled_attempts = 0, hst_missed_slots = 0, hst_settings_dirty = False,
       hst_last_save_error = None, hst_last_load_error = None, hst_failures = 0, hst_entries_failed = 0, hst_overwritten = 4,
       hst_last_seconds = 7, hst_reports = 1, hst_clock_valid = False, hst_enabled = False, hst_beacons_sent = 0,
       hst_beacons_skipped = 0\<rparr>,
     hk_collected_order = 6, hk_initialized = True, hk_enabled_flag = True, hk_config_revision = 0,
     hk_generations = [1], hk_schedule_revisions = [1]\<rparr>"

definition demo_stores :: "store_state list" where
  "demo_stores = [\<lparr>sst_interval_ms = 2000, sst_every_n = 2, sst_pending = 1, sst_record_size = 12, sst_open = True\<rparr>]"

definition demo_store_files :: ram_fs where
  "demo_store_files = empty_fs\<lparr>rf_files := (\<lambda>p. if p = kfsw_hk_store_path 0 then Some (store_header demo_hk_config 0 12) else None)\<rparr>"

definition demo_flushed :: "rc \<times> ram_fs store_node" where
  "demo_flushed = kfsw_hk_store_flush demo_hk_config (ram_ops 4) 0 6 demo_hk_state (demo_stores, demo_store_files)"

section \<open>Slots\<close>

text \<open>The slot of a file that a sequence number selects, and the bytes a slot holds when the file reaches past it.\<close>

definition slot_of :: "hk_config \<Rightarrow> u16 \<Rightarrow> nat" where
  "slot_of cfg sequence = unat sequence mod unat (hc_store_capacity cfg)"

definition slot_at :: "u16 \<Rightarrow> nat \<Rightarrow> nat" where
  "slot_at record_size k = KFSW_HK_STORE_HEADER_SIZE + k * unat record_size"

definition slot_holds :: "u16 \<Rightarrow> bytes \<Rightarrow> nat \<Rightarrow> bytes \<Rightarrow> bool" where
  "slot_holds record_size c k b \<longleftrightarrow>
     slot_at record_size k + unat record_size \<le> length c \<and> take (unat record_size) (drop (slot_at record_size k) c) = b"

lemma take_drop_splice:
  "a + n \<le> q \<Longrightarrow> a + n \<le> length c \<Longrightarrow> take n (drop a (splice_at q d c)) = take n (drop a c)"
  "q + length d \<le> a \<Longrightarrow> take n (drop a (splice_at q d c)) = take n (drop a c)"
  "take (length d) (drop q (splice_at q d c)) = d"
proof -
  define front where "front = take q (c @ replicate (q - length c) 0)"
  have front: "length front = q" by (simp add: front_def)
  have s: "splice_at q d c = front @ d @ drop (q + length d) c" by (simp add: splice_at_def front_def)
  show "take n (drop a (splice_at q d c)) = take n (drop a c)" if "a + n \<le> q" "a + n \<le> length c"
  proof -
    have "take n (drop a (splice_at q d c)) = take n (drop a front)" using that front by (simp add: s)
    also have "\<dots> = take n (drop a c)" using that by (simp add: front_def drop_take min_absorb1) arith
    finally show ?thesis .
  qed
  show "take n (drop a (splice_at q d c)) = take n (drop a c)" if "q + length d \<le> a"
    using that front by (simp add: s)
  show "take (length d) (drop q (splice_at q d c)) = d" using front by (simp add: s)
qed

lemma length_splice: "length (splice_at q d c) = max (q + length d) (length c)"
  by (simp add: splice_at_def)

lemma slots_apart: "k \<noteq> j \<Longrightarrow> slot_at rs k + unat rs \<le> slot_at rs j \<or> slot_at rs j + unat rs \<le> slot_at rs k"
proof -
  have "i < l \<Longrightarrow> slot_at rs i + unat rs \<le> slot_at rs l" for i l
  proof -
    assume "i < l"
    then have "Suc i * unat rs \<le> l * unat rs" by (intro mult_le_mono1) simp
    then show ?thesis by (simp add: slot_at_def)
  qed
  moreover assume "k \<noteq> j"
  ultimately show ?thesis by (metis nat_neq_iff)
qed

lemma splice_slots:
  assumes "length d = unat rs"
  shows "slot_holds rs (splice_at (slot_at rs j) d c) j d"
    "k \<noteq> j \<Longrightarrow> slot_holds rs c k b \<Longrightarrow> slot_holds rs (splice_at (slot_at rs j) d c) k b"
proof -
  show "slot_holds rs (splice_at (slot_at rs j) d c) j d"
    using take_drop_splice(3) [of d "slot_at rs j" c] assms by (simp add: slot_holds_def length_splice)
  show "slot_holds rs (splice_at (slot_at rs j) d c) k b" if "k \<noteq> j" "slot_holds rs c k b"
    using that(2) slots_apart [OF that(1), of rs] assms
    by (auto simp: slot_holds_def length_splice take_drop_splice(1,2))
qed

lemma write_at_contents:
  assumes law: "fs_lawful ops contents position" and sp: "fs_sparse ops contents position"
    and w: "write_at ops p q d f = (None, f')" and c: "contents f p = Some c" and d: "d \<noteq> []"
  shows "contents f' p = Some (splice_at q d c)"
proof -
  from w obtain f1 where s: "fs_seek ops p q f = (None, f1)" "write_all ops p d f1 = (None, f')"
    by (auto simp: write_at_def split: prod.splits option.splits)
  have "contents f1 p = Some c" "position f1 p = q"
    using lawful_frame(7) [OF law, of p q f] lawful_seek [OF law s(1)] s(1) c by simp_all
  with write_all_sparse [OF law sp s(2) _ d] show ?thesis by simp
qed

lemma record_offset_slot: "record_offset (hc_store_capacity cfg) rs sequence = slot_at rs (slot_of cfg sequence)"
  by (simp add: record_offset_def slot_at_def slot_of_def)

text \<open>The sequence number of the sample of an age, when the next sample will carry \<open>next_sequence\<close>.\<close>

abbreviation sequence_of_age :: "u16 \<Rightarrow> nat \<Rightarrow> u16" where
  "sequence_of_age next_sequence a \<equiv> next_sequence - 1 - word_of_nat a"

lemma flush_records_slots:
  assumes law: "fs_lawful ops contents position" and sp: "fs_sparse ops contents position" and rs: "0 < unat rs"
  shows "flush_records cfg ops report rs st left (next_sequence - word_of_nat left) f = (None, f') \<Longrightarrow>
    contents f (kfsw_hk_store_path report) = Some c \<Longrightarrow>
    \<forall>a < left. \<exists>s. kfsw_hk_get report (word_of_nat a) Dest st = Inr s \<and> unat rs \<le> length (sm_data s) \<Longrightarrow>
    \<exists>c'. contents f' (kfsw_hk_store_path report) = Some c'
      \<and> (\<forall>k b. (\<forall>a < left. slot_of cfg (sequence_of_age next_sequence a) \<noteq> k) \<longrightarrow> slot_holds rs c k b \<longrightarrow> slot_holds rs c' k b)
      \<and> (\<forall>a s. a < left \<longrightarrow> kfsw_hk_get report (word_of_nat a) Dest st = Inr s \<longrightarrow>
           (\<forall>b < a. slot_of cfg (sequence_of_age next_sequence b) \<noteq> slot_of cfg (sequence_of_age next_sequence a)) \<longrightarrow>
           slot_holds rs c' (slot_of cfg (sequence_of_age next_sequence a)) (take (unat rs) (sm_data s)))"
proof (induction left arbitrary: f c)
  case (Suc left)
  let ?p = "kfsw_hk_store_path report" and ?seq = "sequence_of_age next_sequence left"
  have seq: "next_sequence - word_of_nat (Suc left) = ?seq" by (simp add: algebra_simps)
  have next_seq: "?seq + 1 = next_sequence - word_of_nat left" by (simp add: algebra_simps)
  obtain s where s: "kfsw_hk_get report (word_of_nat left) Dest st = Inr s" "unat rs \<le> length (sm_data s)"
    using Suc.prems(3) by blast
  let ?d = "take (unat rs) (sm_data s)"
  have d: "length ?d = unat rs" "?d \<noteq> []" using s(2) rs by (auto simp: min_def)
  from Suc.prems(1) s obtain f1 where w: "write_at ops ?p (slot_at rs (slot_of cfg ?seq)) ?d f = (None, f1)"
    and rest: "flush_records cfg ops report rs st left (next_sequence - word_of_nat left) f1 = (None, f')"
    unfolding seq by (auto simp: record_offset_slot next_seq split: prod.splits option.splits)
  have c1: "contents f1 ?p = Some (splice_at (slot_at rs (slot_of cfg ?seq)) ?d c)"
    by (rule write_at_contents [OF law sp w Suc.prems(2) d(2)])
  note sl = splice_slots [OF d(1), where j = "slot_of cfg ?seq" and c = c]
  from Suc.IH [OF rest c1] Suc.prems(3) obtain c' where c': "contents f' ?p = Some c'"
    "\<And>k b. \<forall>a < left. slot_of cfg (sequence_of_age next_sequence a) \<noteq> k \<Longrightarrow>
       slot_holds rs (splice_at (slot_at rs (slot_of cfg ?seq)) ?d c) k b \<Longrightarrow> slot_holds rs c' k b"
    "\<And>a s. a < left \<Longrightarrow> kfsw_hk_get report (word_of_nat a) Dest st = Inr s \<Longrightarrow>
       \<forall>b < a. slot_of cfg (sequence_of_age next_sequence b) \<noteq> slot_of cfg (sequence_of_age next_sequence a) \<Longrightarrow>
       slot_holds rs c' (slot_of cfg (sequence_of_age next_sequence a)) (take (unat rs) (sm_data s))"
    by (metis less_Suc_eq)
  have "slot_holds rs c' k b" if "\<forall>a < Suc left. slot_of cfg (sequence_of_age next_sequence a) \<noteq> k" "slot_holds rs c k b" for k b
    using that by (intro c'(2) sl(2)) auto
  moreover have "slot_holds rs c' (slot_of cfg (sequence_of_age next_sequence a)) (take (unat rs) (sm_data s'))"
    if a: "a < Suc left" "kfsw_hk_get report (word_of_nat a) Dest st = Inr s'"
      "\<forall>b < a. slot_of cfg (sequence_of_age next_sequence b) \<noteq> slot_of cfg (sequence_of_age next_sequence a)" for a s'
  proof (cases "a = left")
    case True
    with a s(1) have "s' = s" by simp
    with True a(3) sl(1) show ?thesis by (auto intro: c'(2))
  next
    case False
    with a show ?thesis by (intro c'(3)) auto
  qed
  ultimately show ?case using c'(1) by blast
qed simp

text \<open>A reader of the store finds the sample whose frame a slot holds.\<close>

lemma reader_record_reads:
  assumes law: "fs_lawful ops contents position" and rd: "fs_readable ops contents (kfsw_hk_store_path report)"
    and c: "contents f (kfsw_hk_store_path report) = Some c"
    and slot: "slot_holds rs c (slot_of cfg (sm_sequence s)) (take (unat rs) (sm_data s))"
    and frame: "frame_ok cfg report s" "sm_length s = rs"
    and reader: "rd_record_size reader = rs" "rd_capacity reader = hc_store_capacity cfg"
  shows "fst (reader_record cfg ops reader report (sm_sequence s) f) = Inr s"
proof -
  let ?p = "kfsw_hk_store_path report" and ?q = "slot_at rs (slot_of cfg (sm_sequence s))"
  obtain f1 where sk: "fs_seek ops ?p ?q f = (None, f1)" using rd unfolding fs_readable_def by (metis prod.collapse)
  have f1: "contents f1 ?p = Some c" "position f1 ?p = ?q"
    using lawful_frame(7) [OF law, of ?p ?q f] lawful_seek [OF law sk] sk c by simp_all
  have room: "position f1 ?p + unat rs \<le> length c" using slot f1(2) by (simp add: slot_holds_def)
  obtain f2 where r: "read_exact ops ?p (unat rs) f1 = (Inr (take (unat rs) (drop (position f1 ?p) c)), f2)"
    using read_exact_readable [OF law rd f1(1) room] .
  then have r: "read_exact ops ?p (unat rs) f1 = (Inr (take (unat rs) (sm_data s)), f2)"
    using slot f1(2) by (simp add: slot_holds_def)
  have "take (unat rs) (sm_data s) @ replicate (hc_sample_bytes cfg - min (length (sm_data s)) (unat rs)) 0 = sm_data s"
    using frame by (simp add: frame_ok_def min_def) (metis append_take_drop_id)
  note data = this and fields = frame_ok_fields [OF frame(1)]
  have nz: "KFSW_HK_PROTOCOL_VERSION \<noteq> 0" by (simp add: KFSW_HK_PROTOCOL_VERSION_def)
  have "reader_record cfg ops reader report (sm_sequence s) f =
      (Inr \<lparr>sm_seconds = sm_seconds s, sm_sequence = sm_sequence s, sm_entry_count = sm_entry_count s, sm_flags = sm_flags s,
        sm_length = rs, sm_data = sm_data s\<rparr>, f2)"
    using sk r nz by (simp add: reader_record_def reader record_offset_slot read_at_def data fields [unfolded One_nat_def] slot_belongs_def Let_def)
  then show ?thesis using frame(2) by simp
qed

text \<open>A flush that is due and succeeds.\<close>

lemma flush_cases:
  assumes "kfsw_hk_store_flush cfg ops report next_sequence st (stores, f) = (None, stores', f')"
    and "pending = min (unat (sst_pending (stores ! unat report)) + 1) (hc_history cfg)"
    and "unat (sst_every_n (stores ! unat report)) \<le> pending"
  obtains f1 f2 where "fs_open ops (kfsw_hk_store_path report) FS_WRITE f = (None, f1)"
    "flush_records cfg ops report (sst_record_size (stores ! unat report)) st pending (next_sequence - word_of_nat pending) f1 = (None, f2)"
    "fs_close ops (kfsw_hk_store_path report) f2 = (None, f')"
    "stores' = stores[unat report := (stores ! unat report)\<lparr>sst_pending := 0\<rparr>]"
proof -
  obtain o1 f1 where o: "fs_open ops (kfsw_hk_store_path report) FS_WRITE f = (o1, f1)" by fastforce
  obtain r f2 where r: "flush_records cfg ops report (sst_record_size (stores ! unat report)) st pending
    (next_sequence - word_of_nat pending) f1 = (r, f2)" by fastforce
  obtain c f3 where c: "fs_close ops (kfsw_hk_store_path report) f2 = (c, f3)" by fastforce
  have "o1 = None \<and> first_error r c = None \<and> f' = f3 \<and> stores' = stores[unat report := (stores ! unat report)\<lparr>sst_pending := 0\<rparr>]"
    using assms(1,3) o r c unfolding kfsw_hk_store_flush_def Let_def prod.case assms(2) [symmetric]
    by (auto split: if_splits option.splits)
  with o r c show thesis by (intro that) (cases r; auto)+
qed

subsection \<open>Batches that are lost and gaps that hide records\<close>

text \<open>
  A flush whose writing or closing fails starts counting anew as well: the samples of its batch are not tried again.
\<close>

lemma failed_flush_drops_batch:
  assumes "kfsw_hk_store_flush cfg ops report next_sequence st (stores, f) = (Some e, stores', f')"
    and "fst (fs_open ops (kfsw_hk_store_path report) FS_WRITE f) = None"
    and "unat report < length stores" and "sst_open (stores ! unat report)"
  shows "sst_pending (stores' ! unat report) = 0"
  using assms by (auto simp: kfsw_hk_store_flush_def Let_def split: if_splits prod.splits option.splits)

text \<open>
  The window a reader walks is as long as the records it found and ends at the newest, so a gap before the newest
  pushes as many of the oldest records out of it: of three records, with the numbers 0, 1 and 4, one is counted.
\<close>

definition demo_gap_files :: ram_fs where
  "demo_gap_files = empty_fs\<lparr>rf_files := (\<lambda>p. if p = kfsw_hk_store_path 0 then
     Some (store_header demo_hk_config 0 12 @ take 12 (sm_data (demo_sample 0)) @ take 12 (sm_data (demo_sample 1))
       @ replicate 24 0 @ take 12 (sm_data (demo_sample 4))) else None)\<rparr>"

lemma gap_hides_records:
  "fst (kfsw_hk_store_count demo_hk_config (ram_ops 4)
     (Some \<lparr>sf_report = 0, sf_from_sequence = 0, sf_to_sequence = 0, sf_from_seconds = 0, sf_to_seconds = 0, sf_without_flags = 0\<rparr>)
     Dest demo_gap_files) = Inr 1"
  by code_simp

section \<open>Properties\<close>

text \<open>
  C20. What was flushed is read back as it was collected. When a flush is due and returns 0, every sample of the batch
  whose slot no younger sample of the batch took is then read from the file, by its sequence number, as exactly the
  sample that \<open>kfsw_hk_get\<close> gives for it, by every reader of the store and whatever else happened to the files
  meanwhile; slots that no sample of the batch selects hold what they held; and the batch is counted anew.
\<close>

theorem hk_flushed_samples_read_back:
  assumes law: "fs_lawful ops contents position" "fs_sparse ops contents position"
      "fs_readable ops contents (kfsw_hk_store_path report)"
    and flush: "kfsw_hk_store_flush cfg ops report next_sequence st (stores, f) = (None, stores', f')"
    and pending: "0 < hc_history cfg" "pending = min (unat (sst_pending (stores ! unat report)) + 1) (hc_history cfg)"
      "unat (sst_every_n (stores ! unat report)) \<le> pending"
    and stored: "contents f (kfsw_hk_store_path report) = Some c"
    and size: "unat report < length stores" "sst_record_size (stores ! unat report) = rs"
    and samples: "\<forall>a < pending. \<exists>s. kfsw_hk_get report (word_of_nat a) Dest st = Inr s \<and> frame_ok cfg report s
      \<and> sm_length s = rs \<and> sm_sequence s = next_sequence - 1 - word_of_nat a"
  shows "(\<forall>a reader g. a < pending \<longrightarrow>
      (\<forall>b < a. slot_of cfg (next_sequence - 1 - word_of_nat b) \<noteq> slot_of cfg (next_sequence - 1 - word_of_nat a)) \<longrightarrow>
      rd_record_size reader = rs \<longrightarrow> rd_capacity reader = hc_store_capacity cfg \<longrightarrow>
      contents g (kfsw_hk_store_path report) = contents f' (kfsw_hk_store_path report) \<longrightarrow>
      fst (reader_record cfg ops reader report (next_sequence - 1 - word_of_nat a) g) = kfsw_hk_get report (word_of_nat a) Dest st)
    \<and> (\<exists>c'. contents f' (kfsw_hk_store_path report) = Some c' \<and>
        (\<forall>k b. (\<forall>a < pending. slot_of cfg (next_sequence - 1 - word_of_nat a) \<noteq> k) \<longrightarrow> slot_holds rs c k b \<longrightarrow> slot_holds rs c' k b))
    \<and> sst_pending (stores' ! unat report) = 0"
proof -
  from flush_cases [OF flush pending(2,3)] obtain f1 f2 where
    o: "fs_open ops (kfsw_hk_store_path report) FS_WRITE f = (None, f1)"
    and r: "flush_records cfg ops report rs st pending (next_sequence - word_of_nat pending) f1 = (None, f2)"
    and cl: "fs_close ops (kfsw_hk_store_path report) f2 = (None, f')"
    and st: "stores' = stores[unat report := (stores ! unat report)\<lparr>sst_pending := 0\<rparr>]"
    unfolding size(2) by blast
  have f1: "contents f1 (kfsw_hk_store_path report) = Some c" using lawful_open(3) [OF law(1) o] stored by simp
  have f2: "contents f' = contents f2" using lawful_frame(5) [OF law(1), of "kfsw_hk_store_path report" f2] cl by simp
  have rs: "0 < unat rs" using samples pending(1,2) by (auto simp: frame_ok_def KFSW_HK_HEADER_SIZE_def)
  have "\<forall>a < pending. \<exists>s. kfsw_hk_get report (word_of_nat a) Dest st = Inr s \<and> unat rs \<le> length (sm_data s)"
    using samples by (fastforce simp: frame_ok_def)
  from flush_records_slots [OF law(1,2) rs r f1 this] obtain c' where c': "contents f2 (kfsw_hk_store_path report) = Some c'"
    "\<And>k b. \<forall>a < pending. slot_of cfg (next_sequence - 1 - word_of_nat a) \<noteq> k \<Longrightarrow> slot_holds rs c k b \<Longrightarrow> slot_holds rs c' k b"
    "\<And>a s. a < pending \<Longrightarrow> kfsw_hk_get report (word_of_nat a) Dest st = Inr s \<Longrightarrow>
       \<forall>b < a. slot_of cfg (next_sequence - 1 - word_of_nat b) \<noteq> slot_of cfg (next_sequence - 1 - word_of_nat a) \<Longrightarrow>
       slot_holds rs c' (slot_of cfg (next_sequence - 1 - word_of_nat a)) (take (unat rs) (sm_data s))" by blast
  have "fst (reader_record cfg ops reader report (next_sequence - 1 - word_of_nat a) g) = kfsw_hk_get report (word_of_nat a) Dest st"
    if a: "a < pending" "\<forall>b < a. slot_of cfg (next_sequence - 1 - word_of_nat b) \<noteq> slot_of cfg (next_sequence - 1 - word_of_nat a)"
      and reader: "rd_record_size reader = rs" "rd_capacity reader = hc_store_capacity cfg"
      and g: "contents g (kfsw_hk_store_path report) = contents f' (kfsw_hk_store_path report)" for a reader g
  proof -
    from samples a(1) obtain s where s: "kfsw_hk_get report (word_of_nat a) Dest st = Inr s" "frame_ok cfg report s"
      "sm_length s = rs" "sm_sequence s = next_sequence - 1 - word_of_nat a" by blast
    from c'(3) [OF a(1) s(1) a(2)] have "slot_holds rs c' (slot_of cfg (sm_sequence s)) (take (unat rs) (sm_data s))" by (simp add: s(4))
    from reader_record_reads [OF law(1,3) _ this s(2,3) reader, of g] g f2 c'(1) s show ?thesis by simp
  qed
  moreover have "sst_pending (stores' ! unat report) = 0" using st size(1) by simp
  ultimately show ?thesis using c'(1,2) f2 by auto
qed

theorem hk_flushed_samples_read_back_witness:
  "fst demo_flushed = None
   \<and> fst (reader_record demo_hk_config (ram_ops 4) \<lparr>rd_record_size = 12, rd_capacity = 8, rd_newest = 0, rd_written = 0\<rparr> 0 5
        (snd (snd demo_flushed))) = Inr (demo_sample 5)"
proof -
  obtain r stores' f' where fl: "demo_flushed = (r, stores', f')" by (cases demo_flushed) auto
  have r: "fst demo_flushed = None" by code_simp
  have get: "kfsw_hk_get 0 0 Dest demo_hk_state = Inr (demo_sample 5)" "kfsw_hk_get 0 1 Dest demo_hk_state = Inr (demo_sample 4)"
    by code_simp+
  have frames: "frame_ok demo_hk_config 0 (demo_sample 5)" "frame_ok demo_hk_config 0 (demo_sample 4)" by code_simp+
  have samples: "\<forall>a < 2. \<exists>s. kfsw_hk_get 0 (word_of_nat a) Dest demo_hk_state = Inr s \<and> frame_ok demo_hk_config 0 s
      \<and> sm_length s = 12 \<and> sm_sequence s = 6 - 1 - word_of_nat a"
    using get frames by (auto simp: less_Suc_eq numeral_2_eq_2 demo_sample_def)
  have due: "0 < hc_history demo_hk_config" "2 = min (unat (sst_pending (demo_stores ! unat (0 :: u8))) + 1) (hc_history demo_hk_config)"
    "unat (sst_every_n (demo_stores ! unat (0 :: u8))) \<le> 2" "unat (0 :: u8) < length demo_stores"
    "sst_record_size (demo_stores ! unat (0 :: u8)) = 12" by code_simp+
  have stored: "rf_files demo_store_files (kfsw_hk_store_path 0) = Some (store_header demo_hk_config 0 12)"
    by (simp add: demo_store_files_def)
  from hk_flushed_samples_read_back [OF ram_lawful ram_sparse ram_readable _ due(1-3) stored due(4,5) samples, of 4 stores' f',
      THEN conjunct1, rule_format, of 0 "\<lparr>rd_record_size = 12, rd_capacity = 8, rd_newest = 0, rd_written = 0\<rparr>" f'] r fl get(1)
  show ?thesis by (simp add: demo_flushed_def demo_hk_config_def)
qed

end
