(* ===== verification/Hk.thy ===== *)
theory Hk
  imports Hk_Store "HOL-Library.Signed_Division"
begin

text \<open>
  The housekeeping service, \<^verbatim>\<open>src/hk/hk.c\<close> with \<^verbatim>\<open>src/hk/hk_thread.c\<close>, \<^verbatim>\<open>src/hk/hk_csp.c\<close> and \<^verbatim>\<open>src/hk/hk_beacon.c\<close>:
  reports are defined as lists of parameters, collected on request or on their period, kept in rings and in
  files, served to other nodes and sent as beacons.

  The build has \<open>CONFIG_KFSW_HK_STORE\<close>, \<open>CONFIG_KFSW_HK_BEACON\<close> and \<open>CONFIG_KFSW_HK_CSP\<close>, and neither
  \<open>CONFIG_KFSW_PARAM_CSP\<close> nor \<open>CONFIG_KFSW_HK_PERSISTENCE\<close>: entries of other nodes are refused when a report is
  defined, and nothing is restored at boot, so \<open>restoring\<close> stays false. The wall clock, the uptime, the addresses of the
  node and the CSP buffers are arguments. A node \<open>hk_node\<close> holds the state of the service, of its stores and beacons,
  the files and the parameter service.

  A collection copies the definition, reads the parameters without the service's lock and then stores the
  sample only if the definition is still the one it copied: \<open>collect_begin\<close>, \<open>kfsw_hk_collect_report\<close> and
  \<open>collect_finish\<close>, with any other operation in between in the reachable states \<open>hk_reachable\<close>; one collection
  reads its parameters at one moment.

  Proved: every sample that can be read has the layout of the definition in force and consecutive numbers, and
  so the selection across reports is the ordered list of the samples; a pass of the collector collects exactly the
  reports that are due and puts each back on its grid after the present; a definition is replaced whole or
  refused without a trace; a sample's frame is its header followed by the values of its entries.
\<close>

section \<open>Data\<close>

definition KFSW_HK_REPORT_ALL :: u8 where "KFSW_HK_REPORT_ALL = 0xFF"
definition KFSW_HK_CLASS_MASK_ALL :: u8 where "KFSW_HK_CLASS_MASK_ALL = 0xFF"
definition KFSW_HK_REQUEST_SIZE :: nat where "KFSW_HK_REQUEST_SIZE = 5"

record kfsw_hk_definition =
  hdf_entries :: "kfsw_hk_entry list"
  hdf_widths :: "u16 list"
  hdf_offsets :: "u16 list"
  hdf_payload_bytes :: u16
  hdf_sequence :: u16
  hdf_entry_count :: u8
  hdf_class :: u8

record kfsw_hk_due =
  due_revision :: u64
  due_uptime_ms :: int
  due_period_ms :: u32

record beacon_state =
  bs_node :: u16
  bs_interval_ms :: u32
  bs_next_uptime_ms :: int

record 'f hk_env =
  he_config :: hk_config
  he_params :: param_config
  he_files :: "'f fs_ops"
  he_own_address :: "u16 \<Rightarrow> bool"
  he_broadcast_address :: u16
  he_beacon_floor_ms :: u32
  he_beacon_buffer_reserve :: nat

record ('f, 'w) hk_node =
  hn_hk :: hk_state
  hn_stores :: "store_state list"
  hn_files :: 'f
  hn_params :: "'w param_state"
  hn_beacons :: "beacon_state list"
  hn_sent_count :: u32
  hn_skipped_count :: u32

definition zero_sample :: "hk_config \<Rightarrow> kfsw_hk_sample" where
  "zero_sample cfg = \<lparr>sm_seconds = 0, sm_sequence = 0, sm_entry_count = 0, sm_flags = 0, sm_length = 0,
     sm_data = replicate (hc_sample_bytes cfg) 0\<rparr>"

definition zero_report :: "hk_config \<Rightarrow> kfsw_hk_report" where
  "zero_report cfg = \<lparr>hr_entries = [], hr_widths = [], hr_offsets = [], hr_entry_count = 0, hr_class = 0, hr_defined = False,
     hr_payload_bytes = 0, hr_period_ms = 0, hr_next_uptime_ms = 0, hr_ring = replicate (hc_history cfg) (zero_sample cfg),
     hr_order = replicate (hc_history cfg) 0, hr_held = 0, hr_next_slot = 0, hr_sequence = 0\<rparr>"

section \<open>Widths and values\<close>

fun entry_width :: "kfsw_param_type \<Rightarrow> u16 \<Rightarrow> nat" where
  "entry_width KFSW_PARAM_U8 n = 1"
| "entry_width KFSW_PARAM_I8 n = 1"
| "entry_width KFSW_PARAM_X8 n = 1"
| "entry_width KFSW_PARAM_U16 n = 2"
| "entry_width KFSW_PARAM_I16 n = 2"
| "entry_width KFSW_PARAM_X16 n = 2"
| "entry_width KFSW_PARAM_U32 n = 4"
| "entry_width KFSW_PARAM_I32 n = 4"
| "entry_width KFSW_PARAM_X32 n = 4"
| "entry_width KFSW_PARAM_FLOAT n = 4"
| "entry_width KFSW_PARAM_U64 n = 8"
| "entry_width KFSW_PARAM_I64 n = 8"
| "entry_width KFSW_PARAM_X64 n = 8"
| "entry_width KFSW_PARAM_DOUBLE n = 8"
| "entry_width KFSW_PARAM_STRING n = unat n"
| "entry_width KFSW_PARAM_DATA n = unat n"
| "entry_width KFSW_PARAM_INVALID n = 0"

text \<open>What \<open>kfsw_hk_write_value\<close> writes over the zeroed field: the value, big-endian.\<close>

definition value_bytes :: "nat \<Rightarrow> kfsw_param_value \<Rightarrow> bytes" where
  "value_bytes width v =
     (case pv_type v of
        KFSW_PARAM_U8 \<Rightarrow> [scalar_u8 (pv_scalar v)] | KFSW_PARAM_I8 \<Rightarrow> [scalar_u8 (pv_scalar v)]
      | KFSW_PARAM_X8 \<Rightarrow> [scalar_u8 (pv_scalar v)]
      | KFSW_PARAM_U16 \<Rightarrow> sys_put_be16 (scalar_u16 (pv_scalar v)) | KFSW_PARAM_I16 \<Rightarrow> sys_put_be16 (scalar_u16 (pv_scalar v))
      | KFSW_PARAM_X16 \<Rightarrow> sys_put_be16 (scalar_u16 (pv_scalar v))
      | KFSW_PARAM_U32 \<Rightarrow> sys_put_be32 (scalar_u32 (pv_scalar v)) | KFSW_PARAM_I32 \<Rightarrow> sys_put_be32 (scalar_u32 (pv_scalar v))
      | KFSW_PARAM_X32 \<Rightarrow> sys_put_be32 (scalar_u32 (pv_scalar v)) | KFSW_PARAM_FLOAT \<Rightarrow> sys_put_be32 (scalar_u32 (pv_scalar v))
      | KFSW_PARAM_U64 \<Rightarrow> sys_put_be64 (scalar_u64 (pv_scalar v)) | KFSW_PARAM_I64 \<Rightarrow> sys_put_be64 (scalar_u64 (pv_scalar v))
      | KFSW_PARAM_X64 \<Rightarrow> sys_put_be64 (scalar_u64 (pv_scalar v)) | KFSW_PARAM_DOUBLE \<Rightarrow> sys_put_be64 (scalar_u64 (pv_scalar v))
      | KFSW_PARAM_STRING \<Rightarrow> take (min width (pv_size v)) (pv_data v)
      | KFSW_PARAM_DATA \<Rightarrow> take (min width (pv_size v)) (pv_data v)
      | KFSW_PARAM_INVALID \<Rightarrow> [])"

text \<open>\<open>memcpy(&data[offset], bytes, n)\<close> on a buffer that has the room.\<close>

definition overwrite :: "nat \<Rightarrow> bytes \<Rightarrow> bytes \<Rightarrow> bytes" where
  "overwrite offset b data = take offset data @ b @ drop (offset + length b) data"

definition kfsw_hk_write_value :: "nat \<Rightarrow> nat \<Rightarrow> kfsw_param_value \<Rightarrow> bytes \<Rightarrow> bytes" where
  "kfsw_hk_write_value offset width v data =
     overwrite offset (value_bytes width v) (overwrite offset (replicate width 0) data)"

record width_search =
  ws_wanted :: u16
  ws_width :: nat
  ws_found :: bool

definition match_width :: "kfsw_param_info \<Rightarrow> width_search \<Rightarrow> bool \<times> width_search" where
  "match_width info search =
     (if pi_id info \<noteq> ws_wanted search then (True, search)
      else (False, search\<lparr>ws_width := entry_width (pi_type info) (pi_array_size info), ws_found := True\<rparr>))"

definition entry_declared_width :: "'w param_state \<Rightarrow> kfsw_hk_entry \<Rightarrow> errno + nat" where
  "entry_declared_width params entry =
     (if hke_node entry \<noteq> KFSW_HK_NODE_LOCAL then Inl ENOTSUP
      else
        (case kfsw_param_visit (Some match_width) params \<lparr>ws_wanted = hke_param_id entry, ws_width = 0, ws_found = False\<rparr> of
           (Some e, search) \<Rightarrow> Inl e
         | (None, search) \<Rightarrow>
             if \<not> ws_found search then Inl ENOENT
             else if ws_width search = 0 then Inl ENOTSUP
             else Inr (ws_width search)))"

section \<open>Definitions\<close>

text \<open>The loop over the entries: widths, offsets and the bytes of the payload.\<close>

fun prepare_entries :: "'w param_state \<Rightarrow> kfsw_hk_entry list \<Rightarrow> nat \<Rightarrow> errno + (u16 list \<times> u16 list \<times> nat)" where
  "prepare_entries params [] payload = Inr ([], [], payload)"
| "prepare_entries params (entry # entries) payload =
     (case entry_declared_width params entry of
        Inl e \<Rightarrow> Inl e
      | Inr width \<Rightarrow>
          (case prepare_entries params entries (payload + width) of
             Inl e \<Rightarrow> Inl e
           | Inr (widths, offsets, bytes) \<Rightarrow>
               Inr (word_of_nat width # widths, word_of_nat (KFSW_HK_HEADER_SIZE + payload) # offsets, bytes)))"

definition kfsw_hk_prepare_definition ::
  "hk_config \<Rightarrow> u8 \<Rightarrow> kfsw_hk_entry list option \<Rightarrow> dest \<Rightarrow> 'w param_state \<Rightarrow> errno + kfsw_hk_definition" where
  "kfsw_hk_prepare_definition cfg report entries destination params =
     (case entries of
        None \<Rightarrow> Inl EINVAL
      | Some es \<Rightarrow>
          if unat report \<ge> hc_reports cfg \<or> destination = Null \<or> es = [] \<or> length es > hc_entries cfg then Inl EINVAL
          else
            (case prepare_entries params es 0 of
               Inl e \<Rightarrow> Inl e
             | Inr (widths, offsets, payload) \<Rightarrow>
                 if payload + KFSW_HK_HEADER_SIZE > hc_sample_bytes cfg then Inl EMSGSIZE
                 else Inr \<lparr>hdf_entries = es, hdf_widths = widths, hdf_offsets = offsets, hdf_payload_bytes = word_of_nat payload,
                   hdf_sequence = 0, hdf_entry_count = word_of_nat (length es), hdf_class = KFSW_HK_CLASS_DEFAULT\<rparr>))"

definition name_local_entries :: "(u16 \<Rightarrow> bool) \<Rightarrow> kfsw_hk_entry list \<Rightarrow> kfsw_hk_entry list" where
  "name_local_entries own entries =
     map (\<lambda>entry. if own (hke_node entry) then entry\<lparr>hke_node := KFSW_HK_NODE_LOCAL\<rparr> else entry) entries"

definition count_defined :: "kfsw_hk_report list \<Rightarrow> u8" where
  "count_defined reports = word_of_nat (length (filter hr_defined reports))"

text \<open>A report is replaced under a new generation and a new schedule, and the reports are counted again.\<close>

definition replace_report :: "u8 \<Rightarrow> kfsw_hk_report \<Rightarrow> hk_state \<Rightarrow> hk_state" where
  "replace_report report target st =
     (let i = unat report; reports = (hk_reports st)[i := target]
      in st\<lparr>hk_reports := reports, hk_generations := (hk_generations st)[i := hk_generations st ! i + 1],
           hk_schedule_revisions := (hk_schedule_revisions st)[i := hk_schedule_revisions st ! i + 1],
           hk_stats := (hk_stats st)\<lparr>hst_reports := count_defined reports\<rparr>\<rparr>)"

definition clear_impl :: "'f hk_env \<Rightarrow> u8 \<Rightarrow> ('f, 'w) hk_node \<Rightarrow> rc \<times> ('f, 'w) hk_node" where
  "clear_impl env report nd =
     (case kfsw_hk_report_at report (hn_hk nd) of
        None \<Rightarrow> (Some EINVAL, nd)
      | Some target \<Rightarrow>
          (case kfsw_hk_store_forget (he_files env) report (hn_stores nd, hn_files nd) of
             (stores, files) \<Rightarrow>
               (None, nd\<lparr>hn_stores := stores, hn_files := files,
                  hn_hk := replace_report report (zero_report (he_config env)) (hn_hk nd)\<rparr>)))"

definition define_impl ::
  "'f hk_env \<Rightarrow> u8 \<Rightarrow> kfsw_hk_entry list option \<Rightarrow> u8 \<Rightarrow> int \<Rightarrow> ('f, 'w) hk_node \<Rightarrow> rc \<times> ('f, 'w) hk_node" where
  "define_impl env report requested retrieval_class now nd =
     (if retrieval_class > KFSW_HK_CLASS_MAX then (Some ERANGE, nd)
      else
        (case (kfsw_hk_report_at report (hn_hk nd), requested) of
           (Some target, Some wanted) \<Rightarrow>
             if wanted = [] then clear_impl env report nd
             else if length wanted > hc_entries (he_config env) then (Some E2BIG, nd)
             else
               (let entries = name_local_entries (he_own_address env) wanted
                in case kfsw_hk_prepare_definition (he_config env) report (Some entries) Dest (hn_params nd) of
                     Inl e \<Rightarrow> (Some e, nd)
                   | Inr definition \<Rightarrow>
                       (let target' = target\<lparr>hr_entries := entries, hr_widths := hdf_widths definition,
                              hr_offsets := hdf_offsets definition, hr_class := retrieval_class,
                              hr_entry_count := word_of_nat (length entries), hr_payload_bytes := hdf_payload_bytes definition,
                              hr_defined := True, hr_next_uptime_ms := now + uint (hr_period_ms target),
                              hr_held := 0, hr_next_slot := 0\<rparr>
                        in case kfsw_hk_store_forget (he_files env) report (hn_stores nd, hn_files nd) of
                             (stores, files) \<Rightarrow>
                               (None, nd\<lparr>hn_hk := replace_report report target' (hn_hk nd), hn_stores := stores,
                                  hn_files := files\<rparr>)))
         | _ \<Rightarrow> (Some EINVAL, nd)))"

definition kfsw_hk_get_definition :: "u8 \<Rightarrow> nat \<Rightarrow> dest \<Rightarrow> hk_state \<Rightarrow> errno + kfsw_hk_entry list" where
  "kfsw_hk_get_definition report room entries st =
     (case kfsw_hk_report_at report st of
        None \<Rightarrow> Inl EINVAL
      | Some target \<Rightarrow>
          if entries = Null then Inl EINVAL
          else if \<not> hr_defined target then Inl ENOENT
          else if room < unat (hr_entry_count target) then Inl ENOSPC
          else Inr (take (unat (hr_entry_count target)) (hr_entries target)))"

definition kfsw_hk_set_enabled :: "bool \<Rightarrow> hk_state \<Rightarrow> hk_state" where
  "kfsw_hk_set_enabled value st =
     (if hk_enabled_flag st = value then st
      else st\<lparr>hk_enabled_flag := value, hk_schedule_revisions := map (\<lambda>r. r + 1) (hk_schedule_revisions st)\<rparr>)"

definition kfsw_hk_is_ready :: "hk_state \<Rightarrow> bool" where
  "kfsw_hk_is_ready st \<longleftrightarrow> hk_initialized st"

definition kfsw_hk_init :: "hk_state \<Rightarrow> rc \<times> hk_state" where
  "kfsw_hk_init st = (None, st\<lparr>hk_initialized := True\<rparr>)"

section \<open>Collection\<close>

text \<open>The entries with their offsets and widths, as the loops index them.\<close>

definition indexed_entries :: "kfsw_hk_definition \<Rightarrow> (kfsw_hk_entry \<times> u16 \<times> u16) list" where
  "indexed_entries d = zip (hdf_entries d) (zip (hdf_offsets d) (hdf_widths d))"

text \<open>The loop over the local entries: the buffer, the failed entries and the parameters.\<close>

fun collect_local ::
  "param_config \<Rightarrow> (kfsw_hk_entry \<times> u16 \<times> u16) list \<Rightarrow> bytes \<times> u32 \<times> 'w param_state \<Rightarrow> bytes \<times> u32 \<times> 'w param_state" where
  "collect_local cfg [] s = s"
| "collect_local cfg ((entry, offset, width) # rest) (data, failures, params) =
     (if hke_node entry \<noteq> KFSW_HK_NODE_LOCAL then collect_local cfg rest (data, failures, params)
      else
        (case kfsw_param_get_by_id cfg (hke_param_id entry) Dest params of
           (Inr value, params') \<Rightarrow>
             collect_local cfg rest (kfsw_hk_write_value (unat offset) (unat width) value data, failures, params')
         | (Inl e, params') \<Rightarrow> collect_local cfg rest (data, failures + 1, params')))"

definition remote_entries :: "kfsw_hk_definition \<Rightarrow> nat" where
  "remote_entries d = length (filter (\<lambda>entry. hke_node entry \<noteq> KFSW_HK_NODE_LOCAL) (hdf_entries d))"

definition kfsw_hk_collect_report ::
  "'f hk_env \<Rightarrow> u32 option \<Rightarrow> kfsw_hk_definition \<Rightarrow> 'w param_state \<Rightarrow> kfsw_hk_sample \<times> u32 \<times> 'w param_state" where
  "kfsw_hk_collect_report env clock d params =
     (case collect_local (he_params env) (indexed_entries d) (replicate (hc_sample_bytes (he_config env)) 0, 0, params) of
        (data, failed, params') \<Rightarrow>
          (let failures = failed + word_of_nat (remote_entries d);
               seconds = (case clock of None \<Rightarrow> 0 | Some t \<Rightarrow> t);
               flags = (if clock = None then KFSW_HK_FLAG_CLOCK_UNSET else 0)
                 OR (if failed \<noteq> 0 \<or> remote_entries d \<noteq> 0 then KFSW_HK_FLAG_INCOMPLETE else 0);
               framed = overwrite 8 [hdf_entry_count d, flags]
                 (overwrite 4 (sys_put_be32 seconds)
                   (overwrite 2 (sys_put_be16 (hdf_sequence d)) (data[0 := KFSW_HK_PROTOCOL_VERSION])))
           in (\<lparr>sm_seconds = seconds, sm_sequence = hdf_sequence d, sm_entry_count = hdf_entry_count d, sm_flags = flags,
                 sm_length = word_of_nat KFSW_HK_HEADER_SIZE + hdf_payload_bytes d, sm_data = framed\<rparr>, failures, params')))"

text \<open>The copy of the definition a collection works on, with the generation it belongs to.\<close>

type_synonym hk_flight = "u8 \<times> kfsw_hk_definition \<times> u64"

definition collect_begin :: "u8 \<Rightarrow> hk_state \<Rightarrow> errno + hk_flight" where
  "collect_begin report st =
     (case kfsw_hk_report_at report st of
        None \<Rightarrow> Inl EINVAL
      | Some target \<Rightarrow>
          if \<not> kfsw_hk_is_ready st then Inl EACCES
          else if \<not> hr_defined target then Inl ENOENT
          else Inr (report, \<lparr>hdf_entries = hr_entries target, hdf_widths = hr_widths target, hdf_offsets = hr_offsets target,
                 hdf_payload_bytes = hr_payload_bytes target, hdf_sequence = hr_sequence target,
                 hdf_entry_count = hr_entry_count target, hdf_class = hr_class target\<rparr>, hk_generations st ! unat report))"

text \<open>The sample goes into the ring, unless the definition is not the one it was collected for.\<close>

definition collect_store :: "hk_flight \<Rightarrow> kfsw_hk_sample \<Rightarrow> u32 \<Rightarrow> hk_state \<Rightarrow> rc \<times> hk_state" where
  "collect_store = (\<lambda>(report, d, generation) sample failures st.
     (let i = unat report; target = hk_reports st ! i; stats = hk_stats st
      in if \<not> hr_defined target \<or> generation \<noteq> hk_generations st ! i
         then (Some EAGAIN, st\<lparr>hk_stats := stats\<lparr>hst_failures := hst_failures stats + 1\<rparr>\<rparr>)
         else
           (let order = hk_collected_order st + 1;
                framed = sample\<lparr>sm_data := (sm_data sample)[1 := report]\<rparr>
            in (None, st\<lparr>hk_reports := (hk_reports st)[i := store_sample (order, framed) target], hk_collected_order := order,
                 hk_stats := stats\<lparr>
                   hst_overwritten := (if unat (hr_held target) = length (hr_ring target) then hst_overwritten stats + 1 else hst_overwritten stats),
                   hst_collections := hst_collections stats + 1, hst_entries_failed := hst_entries_failed stats + failures,
                   hst_last_seconds := sm_seconds sample\<rparr>\<rparr>))))"

definition collect_finish ::
  "'f hk_env \<Rightarrow> hk_flight \<Rightarrow> kfsw_hk_sample \<Rightarrow> u32 \<Rightarrow> ('f, 'w) hk_node \<Rightarrow> rc \<times> ('f, 'w) hk_node" where
  "collect_finish env flight sample failures nd =
     (case collect_store flight sample failures (hn_hk nd) of
        (Some e, st) \<Rightarrow> (Some e, nd\<lparr>hn_hk := st\<rparr>)
      | (None, st) \<Rightarrow>
          (let report = fst flight
           in if kfsw_hk_store_interval report (hn_stores nd) = 0 then (None, nd\<lparr>hn_hk := st\<rparr>)
              else
                (case kfsw_hk_store_flush (he_config env) (he_files env) report (hr_sequence (hk_reports st ! unat report)) st
                    (hn_stores nd, hn_files nd) of
                   (stored, stores, files) \<Rightarrow> (None, nd\<lparr>hn_hk := st, hn_stores := stores, hn_files := files\<rparr>))))"

text \<open>A collection that nothing interleaves with.\<close>

definition kfsw_hk_collect :: "'f hk_env \<Rightarrow> u32 option \<Rightarrow> u8 \<Rightarrow> ('f, 'w) hk_node \<Rightarrow> rc \<times> ('f, 'w) hk_node" where
  "kfsw_hk_collect env clock report nd =
     (case collect_begin report (hn_hk nd) of
        Inl e \<Rightarrow> (Some e, nd)
      | Inr flight \<Rightarrow>
          (case kfsw_hk_collect_report env clock (fst (snd flight)) (hn_params nd) of
             (sample, failures, params) \<Rightarrow> collect_finish env flight sample failures (nd\<lparr>hn_params := params\<rparr>)))"

section \<open>Settings\<close>

definition set_store_impl :: "'f hk_env \<Rightarrow> u8 \<Rightarrow> u32 \<Rightarrow> ('f, 'w) hk_node \<Rightarrow> rc \<times> ('f, 'w) hk_node" where
  "set_store_impl env report interval_ms nd =
     (case kfsw_hk_report_at report (hn_hk nd) of
        None \<Rightarrow> (Some EINVAL, nd)
      | Some target \<Rightarrow>
          if \<not> hr_defined target then (Some ENOENT, nd)
          else
            (case kfsw_hk_store_configure (he_config env) (he_files env) report interval_ms (hr_period_ms target)
                (word_of_nat KFSW_HK_HEADER_SIZE + hr_payload_bytes target) (hn_stores nd, hn_files nd) of
               (result, stores, files) \<Rightarrow> (result, nd\<lparr>hn_stores := stores, hn_files := files\<rparr>)))"

definition clear_store_impl :: "'f hk_env \<Rightarrow> u8 \<Rightarrow> ('f, 'w) hk_node \<Rightarrow> rc \<times> ('f, 'w) hk_node" where
  "clear_store_impl env report nd =
     (if unat report \<ge> hc_reports (he_config env) then (Some EINVAL, nd)
      else
        (case kfsw_hk_store_forget (he_files env) report (hn_stores nd, hn_files nd) of
           (stores, files) \<Rightarrow> (None, nd\<lparr>hn_stores := stores, hn_files := files\<rparr>)))"

definition kfsw_hk_get_store :: "hk_config \<Rightarrow> u8 \<Rightarrow> dest \<Rightarrow> store_state list \<Rightarrow> errno + u32" where
  "kfsw_hk_get_store cfg report interval_ms stores =
     (if unat report \<ge> hc_reports cfg \<or> interval_ms = Null then Inl EINVAL else Inr (kfsw_hk_store_interval report stores))"

definition set_period_impl :: "hk_config \<Rightarrow> u8 \<Rightarrow> u32 \<Rightarrow> int \<Rightarrow> hk_state \<Rightarrow> rc \<times> hk_state" where
  "set_period_impl cfg report period_ms now st =
     (case kfsw_hk_report_at report st of
        None \<Rightarrow> (Some EINVAL, st)
      | Some target \<Rightarrow>
          if period_ms \<noteq> 0 \<and> period_ms < hc_period_floor_ms cfg then (Some ERANGE, st)
          else if \<not> hr_defined target then (Some ENOENT, st)
          else
            (let i = unat report
             in (None, st\<lparr>hk_schedule_revisions := (hk_schedule_revisions st)[i := hk_schedule_revisions st ! i + 1],
                  hk_reports := (hk_reports st)[i := target\<lparr>hr_period_ms := period_ms,
                    hr_next_uptime_ms := (if period_ms = 0 then 0 else now + uint period_ms)\<rparr>]\<rparr>)))"

definition kfsw_hk_get_period :: "u8 \<Rightarrow> dest \<Rightarrow> hk_state \<Rightarrow> errno + u32" where
  "kfsw_hk_get_period report period_ms st =
     (case kfsw_hk_report_at report st of
        None \<Rightarrow> Inl EINVAL
      | Some target \<Rightarrow> if period_ms = Null then Inl EINVAL else Inr (hr_period_ms target))"

definition kfsw_hk_get_stats :: "u32 option \<Rightarrow> dest \<Rightarrow> ('f, 'w) hk_node \<Rightarrow> kfsw_hk_stats option" where
  "kfsw_hk_get_stats clock out nd =
     (if out = Null then None
      else Some ((hk_stats (hn_hk nd))\<lparr>hst_clock_valid := clock \<noteq> None, hst_enabled := hk_enabled_flag (hn_hk nd),
             hst_beacons_sent := hn_sent_count nd, hst_beacons_skipped := hn_skipped_count nd\<rparr>))"

text \<open>The frame around every setting: \<open>kfsw_hk_config_begin\<close> and \<open>kfsw_hk_config_end\<close>.\<close>

definition kfsw_hk_config_begin :: "hk_state \<Rightarrow> rc" where
  "kfsw_hk_config_begin st = (if kfsw_hk_is_ready st then None else Some EACCES)"

definition kfsw_hk_config_end :: "rc \<Rightarrow> hk_state \<Rightarrow> rc \<times> hk_state" where
  "kfsw_hk_config_end result st =
     (result,
      if result \<noteq> None then st
      else st\<lparr>hk_config_revision := hk_config_revision st + 1, hk_stats := (hk_stats st)\<lparr>hst_settings_dirty := False\<rparr>\<rparr>)"

definition configured ::
  "(('f, 'w) hk_node \<Rightarrow> rc \<times> ('f, 'w) hk_node) \<Rightarrow> ('f, 'w) hk_node \<Rightarrow> rc \<times> ('f, 'w) hk_node" where
  "configured setting nd =
     (case kfsw_hk_config_begin (hn_hk nd) of
        Some e \<Rightarrow> (Some e, nd)
      | None \<Rightarrow>
          (case setting nd of
             (result, nd') \<Rightarrow> (case kfsw_hk_config_end result (hn_hk nd') of (r, st) \<Rightarrow> (r, nd'\<lparr>hn_hk := st\<rparr>))))"

definition kfsw_hk_define_class ::
  "'f hk_env \<Rightarrow> u8 \<Rightarrow> kfsw_hk_entry list option \<Rightarrow> u8 \<Rightarrow> int \<Rightarrow> ('f, 'w) hk_node \<Rightarrow> rc \<times> ('f, 'w) hk_node" where
  "kfsw_hk_define_class env report entries retrieval_class now = configured (define_impl env report entries retrieval_class now)"

definition kfsw_hk_define ::
  "'f hk_env \<Rightarrow> u8 \<Rightarrow> kfsw_hk_entry list option \<Rightarrow> int \<Rightarrow> ('f, 'w) hk_node \<Rightarrow> rc \<times> ('f, 'w) hk_node" where
  "kfsw_hk_define env report entries now = kfsw_hk_define_class env report entries KFSW_HK_CLASS_DEFAULT now"

definition kfsw_hk_clear :: "'f hk_env \<Rightarrow> u8 \<Rightarrow> ('f, 'w) hk_node \<Rightarrow> rc \<times> ('f, 'w) hk_node" where
  "kfsw_hk_clear env report = configured (clear_impl env report)"

definition kfsw_hk_set_period :: "'f hk_env \<Rightarrow> u8 \<Rightarrow> u32 \<Rightarrow> int \<Rightarrow> ('f, 'w) hk_node \<Rightarrow> rc \<times> ('f, 'w) hk_node" where
  "kfsw_hk_set_period env report period_ms now =
     configured (\<lambda>nd. case set_period_impl (he_config env) report period_ms now (hn_hk nd) of (r, st) \<Rightarrow> (r, nd\<lparr>hn_hk := st\<rparr>))"

definition kfsw_hk_set_store :: "'f hk_env \<Rightarrow> u8 \<Rightarrow> u32 \<Rightarrow> ('f, 'w) hk_node \<Rightarrow> rc \<times> ('f, 'w) hk_node" where
  "kfsw_hk_set_store env report interval_ms = configured (set_store_impl env report interval_ms)"

definition kfsw_hk_clear_store :: "'f hk_env \<Rightarrow> u8 \<Rightarrow> ('f, 'w) hk_node \<Rightarrow> rc \<times> ('f, 'w) hk_node" where
  "kfsw_hk_clear_store env report = configured (clear_store_impl env report)"

section \<open>The schedule\<close>

definition kfsw_hk_next_due :: "int \<Rightarrow> u32 \<Rightarrow> int \<Rightarrow> int" where
  "kfsw_hk_next_due due period now = due + ((now - due) sdiv uint period + 1) * uint period"

definition kfsw_hk_schedule_take :: "u8 \<Rightarrow> int \<Rightarrow> hk_state \<Rightarrow> kfsw_hk_due option \<times> hk_state" where
  "kfsw_hk_schedule_take index now st =
     (case kfsw_hk_report_at index st of
        None \<Rightarrow> (None, st)
      | Some report \<Rightarrow>
          if hk_initialized st \<and> hk_enabled_flag st \<and> hr_defined report \<and> hr_period_ms report \<noteq> 0
             \<and> now \<ge> hr_next_uptime_ms report
          then (Some \<lparr>due_revision = hk_schedule_revisions st ! unat index, due_uptime_ms = hr_next_uptime_ms report,
                  due_period_ms = hr_period_ms report\<rparr>,
                st\<lparr>hk_stats := (hk_stats st)\<lparr>hst_scheduled_attempts := hst_scheduled_attempts (hk_stats st) + 1\<rparr>\<rparr>)
          else (None, st))"

definition missed_slots :: "kfsw_hk_due \<Rightarrow> int \<Rightarrow> u64" where
  "missed_slots due now = word_of_int (max now (due_uptime_ms due) - due_uptime_ms due) div ucast (due_period_ms due)"

definition kfsw_hk_schedule_finish :: "u8 \<Rightarrow> kfsw_hk_due \<Rightarrow> int \<Rightarrow> hk_state \<Rightarrow> hk_state" where
  "kfsw_hk_schedule_finish index due now st =
     (let stats = hk_stats st;
          counted = st\<lparr>hk_stats := stats\<lparr>hst_missed_slots := hst_missed_slots stats
            + ucast (min (missed_slots due now) (ucast (UINT32_MAX - hst_missed_slots stats)))\<rparr>\<rparr>
      in case kfsw_hk_report_at index st of
           None \<Rightarrow> counted
         | Some report \<Rightarrow>
             if hk_enabled_flag st \<and> hr_defined report \<and> hr_period_ms report \<noteq> 0
                \<and> hk_schedule_revisions st ! unat index = due_revision due
             then counted\<lparr>hk_reports := (hk_reports st)[unat index := report\<lparr>hr_next_uptime_ms :=
                    kfsw_hk_next_due (due_uptime_ms due) (due_period_ms due) (max now (due_uptime_ms due))\<rparr>]\<rparr>
             else counted)"

definition kfsw_hk_beacon_wait :: "beacon_state \<Rightarrow> int \<Rightarrow> int" where
  "kfsw_hk_beacon_wait beacon now = (if bs_interval_ms beacon = 0 then 200 else max 0 (bs_next_uptime_ms beacon - now))"

definition kfsw_hk_schedule_wait :: "int \<Rightarrow> ('f, 'w) hk_node \<Rightarrow> int" where
  "kfsw_hk_schedule_wait now nd =
     fold (\<lambda>(report, beacon) wait.
         min (if hr_defined report \<and> hr_period_ms report \<noteq> 0 then min wait (max 0 (hr_next_uptime_ms report - now)) else wait)
           (kfsw_hk_beacon_wait beacon now))
       (zip (hk_reports (hn_hk nd)) (hn_beacons nd)) 200"

section \<open>Beacons\<close>

definition set_beacon_impl :: "'f hk_env \<Rightarrow> u8 \<Rightarrow> u16 \<Rightarrow> u32 \<Rightarrow> ('f, 'w) hk_node \<Rightarrow> rc \<times> ('f, 'w) hk_node" where
  "set_beacon_impl env report node interval_ms nd =
     (if unat report \<ge> length (hn_beacons nd) then (Some EINVAL, nd)
      else if interval_ms \<noteq> 0 \<and> interval_ms < he_beacon_floor_ms env then (Some ERANGE, nd)
      else if interval_ms \<noteq> 0 \<and> (node = 0 \<or> node \<ge> he_broadcast_address env) then (Some EINVAL, nd)
      else (None, nd\<lparr>hn_beacons := (hn_beacons nd)[unat report :=
             \<lparr>bs_node = node, bs_interval_ms = interval_ms, bs_next_uptime_ms = 0\<rparr>]\<rparr>))"

definition kfsw_hk_set_beacon :: "'f hk_env \<Rightarrow> u8 \<Rightarrow> u16 \<Rightarrow> u32 \<Rightarrow> ('f, 'w) hk_node \<Rightarrow> rc \<times> ('f, 'w) hk_node" where
  "kfsw_hk_set_beacon env report node interval_ms = configured (set_beacon_impl env report node interval_ms)"

definition kfsw_hk_get_beacon :: "u8 \<Rightarrow> dest \<Rightarrow> dest \<Rightarrow> ('f, 'w) hk_node \<Rightarrow> errno + (u16 \<times> u32)" where
  "kfsw_hk_get_beacon report node interval_ms nd =
     (if unat report \<ge> length (hn_beacons nd) \<or> node = Null \<or> interval_ms = Null then Inl EINVAL
      else Inr (bs_node (hn_beacons nd ! unat report), bs_interval_ms (hn_beacons nd ! unat report)))"

text \<open>
  \<open>buffers\<close> is what \<open>csp_buffer_remaining\<close> returns and \<open>got\<close> whether \<open>csp_buffer_get\<close> gave a packet; the result is
  the beacon put on the link: its destination and its frame.
\<close>

definition kfsw_hk_beacon_tick ::
  "'f hk_env \<Rightarrow> nat \<Rightarrow> bool \<Rightarrow> u8 \<Rightarrow> int \<Rightarrow> ('f, 'w) hk_node \<Rightarrow> (u16 \<times> bytes) option \<times> ('f, 'w) hk_node" where
  "kfsw_hk_beacon_tick env buffers got report now nd =
     (if unat report \<ge> length (hn_beacons nd) then (None, nd)
      else
        (let beacon = hn_beacons nd ! unat report
         in if bs_interval_ms beacon = 0 \<or> now < bs_next_uptime_ms beacon then (None, nd)
            else
              (let nd' = nd\<lparr>hn_beacons := (hn_beacons nd)[unat report := beacon\<lparr>bs_next_uptime_ms :=
                     kfsw_hk_next_due (bs_next_uptime_ms beacon) (bs_interval_ms beacon) now\<rparr>]\<rparr>
               in case kfsw_hk_get report 0 Dest (hn_hk nd) of
                    Inl e \<Rightarrow> (None, nd')
                  | Inr sample \<Rightarrow>
                      if buffers \<le> he_beacon_buffer_reserve env \<or> \<not> got
                      then (None, nd'\<lparr>hn_skipped_count := hn_skipped_count nd + 1\<rparr>)
                      else (Some (bs_node beacon, take (unat (sm_length sample)) (sm_data sample)),
                            nd'\<lparr>hn_sent_count := hn_sent_count nd + 1\<rparr>))))"

section \<open>Serving other nodes\<close>

text \<open>The loop that sends one packet per sample; \<open>got n\<close> tells whether the packet after \<open>n\<close> sent ones had a buffer.\<close>

fun send_samples :: "(nat \<Rightarrow> bool) \<Rightarrow> (u16 \<Rightarrow> errno + kfsw_hk_sample) \<Rightarrow> nat \<Rightarrow> u16 \<Rightarrow> nat \<Rightarrow> nat \<Rightarrow> bytes list" where
  "send_samples got read 0 first_age offset depth = []"
| "send_samples got read (Suc left) first_age offset depth =
     (if unat first_age + offset \<ge> depth then []
      else
        (case read (first_age + word_of_nat offset) of
           Inl e \<Rightarrow> []
         | Inr sample \<Rightarrow>
             if \<not> got offset then []
             else take (unat (sm_length sample)) (sm_data sample) # send_samples got read left first_age (offset + 1) depth))"

text \<open>The packets a request is answered with.\<close>

definition kfsw_hk_serve_request :: "hk_config \<Rightarrow> (nat \<Rightarrow> bool) \<Rightarrow> bytes \<Rightarrow> hk_state \<Rightarrow> bytes list" where
  "kfsw_hk_serve_request cfg got request st =
     (if \<not> kfsw_hk_is_ready st \<or> length request < KFSW_HK_REQUEST_SIZE then []
      else if request ! 0 \<noteq> KFSW_HK_PROTOCOL_VERSION then []
      else
        (let report = request ! 1; wanted = unat (request ! 2); first_age = sys_get_be16 (drop 3 request)
         in if report = KFSW_HK_REPORT_ALL then
              (if length request \<noteq> KFSW_HK_REQUEST_SIZE + 1 then []
               else send_samples got (\<lambda>index. kfsw_hk_get_selected (request ! 5) index Dest st) wanted first_age 0
                      (unat (word_of_nat (hc_reports cfg * hc_history cfg) :: u16)))
            else
              (case kfsw_hk_depth report Dest st of
                 Inl e \<Rightarrow> []
               | Inr depth \<Rightarrow> send_samples got (\<lambda>age. kfsw_hk_get report age Dest st) wanted first_age 0 (unat depth))))"

section \<open>The collector\<close>

text \<open>
  What one pass of the thread reads of the outside at each report: the wall clock when it looks whether it is set,
  when it collects and before the beacon; the uptime before the collection, after it and for the beacon; the buffers.
\<close>

record hk_tick =
  tk_clock :: "u32 option"
  tk_collect_clock :: "u32 option"
  tk_beacon_clock :: "u32 option"
  tk_take :: int
  tk_finish :: int
  tk_beacon :: int
  tk_buffers :: nat
  tk_got :: bool

definition collector_report :: "'f hk_env \<Rightarrow> hk_tick \<Rightarrow> u8 \<Rightarrow> ('f, 'w) hk_node \<Rightarrow> ('f, 'w) hk_node" where
  "collector_report env tick index nd =
     (let nd1 =
        (case kfsw_hk_schedule_take index (tk_take tick) (hn_hk nd) of
           (None, st) \<Rightarrow> nd\<lparr>hn_hk := st\<rparr>
         | (Some due, st) \<Rightarrow>
             (case kfsw_hk_collect env (tk_collect_clock tick) index (nd\<lparr>hn_hk := st\<rparr>) of
                (r, nd') \<Rightarrow> nd'\<lparr>hn_hk := kfsw_hk_schedule_finish index due (tk_finish tick) (hn_hk nd')\<rparr>))
      in if hk_enabled_flag (hn_hk nd1) \<and> tk_beacon_clock tick \<noteq> None
         then snd (kfsw_hk_beacon_tick env (tk_buffers tick) (tk_got tick) index (tk_beacon tick) nd1)
         else nd1)"

fun collector_pass :: "'f hk_env \<Rightarrow> (u8 \<Rightarrow> hk_tick) \<Rightarrow> u8 list \<Rightarrow> ('f, 'w) hk_node \<Rightarrow> ('f, 'w) hk_node" where
  "collector_pass env ticks [] nd = nd"
| "collector_pass env ticks (index # rest) nd =
     (if \<not> hk_enabled_flag (hn_hk nd) \<or> tk_clock (ticks index) = None then nd
      else collector_pass env ticks rest (collector_report env (ticks index) index nd))"

definition collector_wait :: "u32 option \<Rightarrow> int \<Rightarrow> ('f, 'w) hk_node \<Rightarrow> int" where
  "collector_wait clock now nd = (if hk_enabled_flag (hn_hk nd) \<and> clock \<noteq> None then kfsw_hk_schedule_wait now nd else 200)"

definition kfsw_hk_start :: "hk_state \<Rightarrow> bool \<Rightarrow> rc \<times> bool" where
  "kfsw_hk_start st running = (if \<not> kfsw_hk_is_ready st then (Some EACCES, running) else (None, True))"

text \<open>
  The server's start: whether CSP is initialised and routing, and whether \<open>csp_listen\<close> and \<open>csp_bind\<close> succeed.
\<close>

definition kfsw_hk_server_start :: "bool \<Rightarrow> bool \<Rightarrow> bool \<Rightarrow> bool \<Rightarrow> hk_state \<Rightarrow> bool \<Rightarrow> rc \<times> bool" where
  "kfsw_hk_server_start csp_initialized router_running listens binds st running =
     (if running then (None, running)
      else if \<not> kfsw_hk_is_ready st \<or> \<not> csp_initialized \<or> \<not> router_running then (Some EACCES, running)
      else if \<not> listens then (Some EIO, running)
      else if \<not> binds then (Some EADDRINUSE, running)
      else (None, True))"

section \<open>Specification\<close>

subsection \<open>The layout of a report\<close>

text \<open>The fields follow one another from \<open>q\<close> on.\<close>

fun laid_out :: "nat \<Rightarrow> (kfsw_hk_entry \<times> u16 \<times> u16) list \<Rightarrow> bool" where
  "laid_out q [] = True"
| "laid_out q ((entry, offset, width) # rest) = (unat offset = q \<and> laid_out (q + unat width) rest)"

definition widths_sum :: "(kfsw_hk_entry \<times> u16 \<times> u16) list \<Rightarrow> nat" where
  "widths_sum parts = sum_list (map (\<lambda>(entry, offset, width). unat width) parts)"

text \<open>A field takes the values of its parameter, as the registry \<open>table\<close> declares it.\<close>

definition field_fits :: "'w kfsw_param_entry list \<Rightarrow> kfsw_hk_entry \<times> u16 \<times> u16 \<Rightarrow> bool" where
  "field_fits table = (\<lambda>(entry, offset, width).
     \<forall>e \<in> set table. pi_id (en_info e) = hke_param_id entry \<longrightarrow>
       entry_width (pi_type (en_info e)) (pi_array_size (en_info e)) = unat width)"

definition layout_ok :: "hk_config \<Rightarrow> 'w kfsw_param_entry list \<Rightarrow> (kfsw_hk_entry \<times> u16 \<times> u16) list \<Rightarrow> nat \<Rightarrow> bool" where
  "layout_ok cfg table parts payload \<longleftrightarrow>
     laid_out KFSW_HK_HEADER_SIZE parts \<and> widths_sum parts = payload
     \<and> KFSW_HK_HEADER_SIZE + payload \<le> hc_sample_bytes cfg \<and> (\<forall>x \<in> set parts. field_fits table x)"

text \<open>The build's ranges, as Kconfig keeps them.\<close>

definition hk_config_ok :: "hk_config \<Rightarrow> bool" where
  "hk_config_ok cfg \<longleftrightarrow>
     0 < hc_history cfg \<and> hc_history cfg < 65536 \<and> hc_reports cfg \<le> 255 \<and> hc_reports cfg * hc_history cfg < 65536
     \<and> KFSW_HK_HEADER_SIZE \<le> hc_sample_bytes cfg \<and> hc_sample_bytes cfg < 65536 \<and> hc_entries cfg < 256"

text \<open>What one collection reads: the bytes of each field and the entries that could not be read.\<close>

fun collect_fields ::
  "param_config \<Rightarrow> (kfsw_hk_entry \<times> u16 \<times> u16) list \<Rightarrow> 'w param_state \<Rightarrow> bytes list \<times> nat \<times> 'w param_state" where
  "collect_fields cfg [] params = ([], 0, params)"
| "collect_fields cfg ((entry, offset, width) # rest) params =
     (if hke_node entry \<noteq> KFSW_HK_NODE_LOCAL
      then (case collect_fields cfg rest params of (parts, failed, params') \<Rightarrow> (replicate (unat width) 0 # parts, failed, params'))
      else
        (case kfsw_param_get_by_id cfg (hke_param_id entry) Dest params of
           (Inr value, params1) \<Rightarrow>
             (case collect_fields cfg rest params1 of
                (parts, failed, params') \<Rightarrow>
                  ((value_bytes (unat width) value @ replicate (unat width - length (value_bytes (unat width) value)) 0) # parts,
                   failed, params'))
         | (Inl e, params1) \<Rightarrow>
             (case collect_fields cfg rest params1 of
                (parts, failed, params') \<Rightarrow> (replicate (unat width) 0 # parts, Suc failed, params'))))"

subsection \<open>What holds of every report\<close>

definition report_fields :: "kfsw_hk_report \<Rightarrow> (kfsw_hk_entry \<times> u16 \<times> u16) list" where
  "report_fields r = zip (hr_entries r) (zip (hr_offsets r) (hr_widths r))"

text \<open>A sample of age \<open>a\<close> belongs to the definition the report has now, and the numbers of the samples are consecutive.\<close>

definition sample_current :: "hk_config \<Rightarrow> u8 \<Rightarrow> kfsw_hk_report \<Rightarrow> nat \<Rightarrow> kfsw_hk_sample \<Rightarrow> bool" where
  "sample_current cfg report r a s \<longleftrightarrow>
     frame_ok cfg report s \<and> sm_length s = word_of_nat KFSW_HK_HEADER_SIZE + hr_payload_bytes r
     \<and> sm_entry_count s = hr_entry_count r \<and> sm_sequence s = hr_sequence r - 1 - word_of_nat a"

definition report_ok :: "hk_config \<Rightarrow> 'w kfsw_param_entry list \<Rightarrow> u8 \<Rightarrow> kfsw_hk_report \<Rightarrow> bool" where
  "report_ok cfg table report r \<longleftrightarrow>
     hk_ring_ok r \<and> length (hr_ring r) = hc_history cfg
     \<and> (hr_defined r \<longrightarrow> layout_ok cfg table (report_fields r) (unat (hr_payload_bytes r)))
     \<and> (\<not> hr_defined r \<longrightarrow> hr_held r = 0)
     \<and> (\<forall>a < unat (hr_held r). sample_current cfg report r a (snd (newest_first r ! a)))"

definition hk_ok :: "hk_config \<Rightarrow> 'w kfsw_param_entry list \<Rightarrow> hk_state \<Rightarrow> bool" where
  "hk_ok cfg table st \<longleftrightarrow>
     length (hk_reports st) = hc_reports cfg \<and> length (hk_generations st) = hc_reports cfg
     \<and> (\<forall>i < hc_reports cfg. report_ok cfg table (word_of_nat i) (hk_reports st ! i))
     \<and> collected_once (hk_reports st) \<and> (\<forall>k \<in> orders (hk_reports st). k \<le> hk_collected_order st)"

text \<open>
  A collection under way: if the generation it copied is still the report's, so is the definition.
\<close>

definition flight_ok :: "hk_config \<Rightarrow> 'w kfsw_param_entry list \<Rightarrow> hk_state \<Rightarrow> hk_flight \<Rightarrow> bool" where
  "flight_ok cfg table st = (\<lambda>(report, d, generation).
     unat report < hc_reports cfg \<and> layout_ok cfg table (indexed_entries d) (unat (hdf_payload_bytes d))
     \<and> generation \<le> hk_generations st ! unat report
     \<and> (generation = hk_generations st ! unat report \<longrightarrow>
          (let r = hk_reports st ! unat report
           in hr_payload_bytes r = hdf_payload_bytes d \<and> hr_entry_count r = hdf_entry_count d \<and> hr_sequence r = hdf_sequence d)))"

definition hk_boot :: "hk_config \<Rightarrow> hk_state" where
  "hk_boot cfg = \<lparr>hk_reports = replicate (hc_reports cfg) (zero_report cfg),
     hk_stats = \<lparr>hst_collections = 0, hst_scheduled_attempts = 0, hst_missed_slots = 0, hst_settings_dirty = False,
       hst_last_save_error = None, hst_last_load_error = None, hst_failures = 0, hst_entries_failed = 0, hst_overwritten = 0,
       hst_last_seconds = 0, hst_reports = 0, hst_clock_valid = False, hst_enabled = False, hst_beacons_sent = 0,
       hst_beacons_skipped = 0\<rparr>,
     hk_collected_order = 0, hk_initialized = False, hk_enabled_flag = True, hk_config_revision = 0,
     hk_generations = replicate (hc_reports cfg) 0, hk_schedule_revisions = replicate (hc_reports cfg) 0\<rparr>"

text \<open>
  The states of a node whose parameters are registered as \<open>table\<close>, with the collection under way, if any:
  the collection lock admits one. Between its begin and its end any other operation may run, the values of
  the parameters may change and the files too. The two 64-bit counters are not driven past their range.
\<close>

inductive hk_reachable ::
  "'f hk_env \<Rightarrow> 'w kfsw_param_entry list \<Rightarrow> ('f, 'w) hk_node \<Rightarrow> hk_flight option \<Rightarrow> bool" for env table where
  boot: "hn_hk nd = hk_boot (he_config env) \<Longrightarrow> parameter_table (hn_params nd) = table \<Longrightarrow> hk_reachable env table nd None"
| init: "hk_reachable env table nd fl \<Longrightarrow> hk_reachable env table (nd\<lparr>hn_hk := snd (kfsw_hk_init (hn_hk nd))\<rparr>) fl"
| redefine: "hk_reachable env table nd fl \<Longrightarrow> hk_generations (hn_hk nd) ! unat report \<noteq> - 1 \<Longrightarrow>
    hk_reachable env table (snd (kfsw_hk_define_class env report entries cls now nd)) fl"
| clear: "hk_reachable env table nd fl \<Longrightarrow> hk_generations (hn_hk nd) ! unat report \<noteq> - 1 \<Longrightarrow>
    hk_reachable env table (snd (kfsw_hk_clear env report nd)) fl"
| period: "hk_reachable env table nd fl \<Longrightarrow> hk_reachable env table (snd (kfsw_hk_set_period env report ms now nd)) fl"
| store: "hk_reachable env table nd fl \<Longrightarrow> hk_reachable env table (snd (kfsw_hk_set_store env report ms nd)) fl"
| clear_store: "hk_reachable env table nd fl \<Longrightarrow> hk_reachable env table (snd (kfsw_hk_clear_store env report nd)) fl"
| beacon: "hk_reachable env table nd fl \<Longrightarrow> hk_reachable env table (snd (kfsw_hk_set_beacon env report node ms nd)) fl"
| tick: "hk_reachable env table nd fl \<Longrightarrow> hk_reachable env table (snd (kfsw_hk_beacon_tick env buffers got report now nd)) fl"
| enabled: "hk_reachable env table nd fl \<Longrightarrow> hk_reachable env table (nd\<lparr>hn_hk := kfsw_hk_set_enabled b (hn_hk nd)\<rparr>) fl"
| take_due: "hk_reachable env table nd fl \<Longrightarrow>
    hk_reachable env table (nd\<lparr>hn_hk := snd (kfsw_hk_schedule_take report now (hn_hk nd))\<rparr>) fl"
| finish_due: "hk_reachable env table nd fl \<Longrightarrow>
    hk_reachable env table (nd\<lparr>hn_hk := kfsw_hk_schedule_finish report due now (hn_hk nd)\<rparr>) fl"
| begin_collect: "hk_reachable env table nd None \<Longrightarrow> collect_begin report (hn_hk nd) = Inr flight \<Longrightarrow>
    hk_reachable env table nd (Some flight)"
| end_collect: "hk_reachable env table nd (Some flight) \<Longrightarrow> hk_collected_order (hn_hk nd) \<noteq> - 1 \<Longrightarrow>
    kfsw_hk_collect_report env clock (fst (snd flight)) (hn_params nd) = (sample, failures, params) \<Longrightarrow>
    hk_reachable env table (snd (collect_finish env flight sample failures (nd\<lparr>hn_params := params\<rparr>))) None"
| outside: "hk_reachable env table nd fl \<Longrightarrow> parameter_table params = table \<Longrightarrow>
    hk_reachable env table (nd\<lparr>hn_files := files, hn_params := params\<rparr>) fl"

text \<open>A node with one report of one parameter, which is collected twice.\<close>

definition demo_hk_env :: "ram_fs hk_env" where
  "demo_hk_env = \<lparr>he_config = demo_hk_config, he_params = demo_param_config, he_files = ram_ops 4,
     he_own_address = (\<lambda>a. a = 5), he_broadcast_address = 0x3FFF, he_beacon_floor_ms = 1000, he_beacon_buffer_reserve = 4\<rparr>"

definition demo_level_entry :: kfsw_hk_entry where
  "demo_level_entry = \<lparr>hke_node = 5, hke_param_id = KFSW_PARAM_ID 25 9\<rparr>"

definition demo_hk_booted :: "(ram_fs, unit) hk_node" where
  "demo_hk_booted = \<lparr>hn_hk = hk_boot demo_hk_config,
     hn_stores = [\<lparr>sst_interval_ms = 0, sst_every_n = 0, sst_pending = 0, sst_record_size = 0, sst_open = False\<rparr>],
     hn_files = empty_fs, hn_params = demo_state,
     hn_beacons = [\<lparr>bs_node = 0, bs_interval_ms = 0, bs_next_uptime_ms = 0\<rparr>], hn_sent_count = 0, hn_skipped_count = 0\<rparr>"

definition demo_hk_ready :: "(ram_fs, unit) hk_node" where
  "demo_hk_ready = demo_hk_booted\<lparr>hn_hk := snd (kfsw_hk_init (hn_hk demo_hk_booted))\<rparr>"

definition demo_hk_defined :: "(ram_fs, unit) hk_node" where
  "demo_hk_defined = snd (kfsw_hk_define_class demo_hk_env 0 (Some [demo_level_entry]) 4 50 demo_hk_ready)"

definition demo_hk_periodic :: "(ram_fs, unit) hk_node" where
  "demo_hk_periodic = snd (kfsw_hk_set_period demo_hk_env 0 1000 100 demo_hk_defined)"

definition demo_hk_collected :: "(ram_fs, unit) hk_node" where
  "demo_hk_collected = snd (kfsw_hk_collect demo_hk_env (Some 7) 0 demo_hk_periodic)"

definition demo_tick :: hk_tick where
  "demo_tick = \<lparr>tk_clock = Some 9, tk_collect_clock = Some 9, tk_beacon_clock = Some 9, tk_take = 1200, tk_finish = 3500,
     tk_beacon = 3500, tk_buffers = 10, tk_got = True\<rparr>"

section \<open>Lemmas\<close>

subsection \<open>The frame of a sample\<close>

lemma length_overwrite: "offset + length b \<le> length data \<Longrightarrow> length (overwrite offset b data) = length data"
  by (simp add: overwrite_def)

lemma overwrite_at: "length front = offset \<Longrightarrow> overwrite offset b (front @ rest) = front @ b @ drop (length b) rest"
  by (simp add: overwrite_def)

lemma value_bytes_fit:
  "entry_width (pv_type v) n = w \<Longrightarrow> length (value_bytes w v) \<le> w"
  by (cases "pv_type v") (auto simp: value_bytes_def)

lemma write_value_zeros:
  assumes "length front = offset" and "length (value_bytes width v) \<le> width" and "width \<le> n"
  shows "kfsw_hk_write_value offset width v (front @ replicate n 0) =
    front @ (value_bytes width v @ replicate (width - length (value_bytes width v)) 0) @ replicate (n - width) 0"
proof -
  let ?b = "value_bytes width v"
  have "overwrite offset (replicate width 0) (front @ replicate n 0) = front @ replicate width 0 @ replicate (n - width) 0"
    using assms(1,3) by (simp add: overwrite_at)
  moreover have "overwrite offset ?b (front @ replicate width 0 @ replicate (n - width) 0) =
      front @ ?b @ replicate (width - length ?b) 0 @ replicate (n - width) 0"
    using assms(1,2) by (simp add: overwrite_at)
  ultimately show ?thesis by (simp add: kfsw_hk_write_value_def)
qed

lemma get_by_id_typed:
  assumes "kfsw_param_get_by_id cfg ident Dest params = (r, params')" and "sorted_wrt (<) (map (\<lambda>e. pi_id (en_info e)) (parameter_table params))"
  shows "parameter_table params' = parameter_table params"
    "r = Inr v \<Longrightarrow> \<exists>e \<in> set (parameter_table params). pi_id (en_info e) = ident \<and> pv_type v = pi_type (en_info e)"
proof -
  show "parameter_table params' = parameter_table params"
    using assms(1) by (auto simp: kfsw_param_get_by_id_def split: if_splits option.splits prod.splits)
  show "\<exists>e \<in> set (parameter_table params). pi_id (en_info e) = ident \<and> pv_type v = pi_type (en_info e)" if "r = Inr v"
  proof -
    from assms(1) that obtain e pm where e: "kfsw_param_find_id ident params = Some e"
      "kfsw_param_read_entry cfg (Some e) Dest (param_memory params) = (Inr v, pm)"
      by (auto simp: kfsw_param_get_by_id_def split: if_splits option.splits prod.splits)
    have "e \<in> set (parameter_table params)" "pi_id (en_info e) = ident"
      using e(1) entry_registry.get_Some [OF assms(2)] unfolding kfsw_param_find_id_def by blast+
    moreover have "pv_type v = pi_type (en_info e)"
      using e(2) by (auto simp: kfsw_param_read_entry_def read_entry_def Let_def zero_value_def split: if_splits prod.splits)
    ultimately show ?thesis by blast
  qed
qed

lemma collect_local_fields:
  assumes "sorted_wrt (<) (map (\<lambda>e. pi_id (en_info e)) table)"
  shows "parameter_table params = table \<Longrightarrow> laid_out q es \<Longrightarrow> \<forall>x \<in> set es. field_fits table x \<Longrightarrow> length front = q \<Longrightarrow>
    widths_sum es \<le> n \<Longrightarrow> collect_fields cfg es params = (parts, failed, params') \<Longrightarrow>
    collect_local cfg es (front @ replicate n 0, k, params) =
      (front @ concat parts @ replicate (n - widths_sum es) 0, k + word_of_nat failed, params')
    \<and> length (concat parts) = widths_sum es \<and> failed \<le> length es \<and> parameter_table params' = table"
proof (induction es arbitrary: params q front n k parts failed params')
  case Nil
  then show ?case by (simp add: widths_sum_def)
next
  case (Cons x es)
  obtain entry offset width where x: "x = (entry, offset, width)" by (cases x) auto
  let ?w = "unat width"
  obtain r params1 where g: "kfsw_param_get_by_id cfg (hke_param_id entry) Dest params = (r, params1)" by fastforce
  have t1: "parameter_table params1 = table" using get_by_id_typed(1) [OF g] assms Cons.prems(1) by simp
  have q: "unat offset = q" "laid_out (q + ?w) es" using Cons.prems(2) x by simp_all
  have w: "?w \<le> n" "widths_sum es \<le> n - ?w" "widths_sum (x # es) = ?w + widths_sum es"
    using Cons.prems(5) x by (simp_all add: widths_sum_def)
  have step: ?case
    if par: "parameter_table p1 = table" and field: "length field = ?w"
      and here: "collect_local cfg (x # es) (front @ replicate n 0, k, params) =
        collect_local cfg es ((front @ field) @ replicate (n - ?w) 0, k + word_of_nat d, p1)"
      and rest: "\<And>f1 g1 p2. collect_fields cfg es p1 = (f1, g1, p2) \<Longrightarrow> parts = field # f1 \<and> failed = d + g1 \<and> params' = p2"
      and d: "d \<le> 1" for field d p1
  proof -
    obtain f1 g1 p2 where c: "collect_fields cfg es p1 = (f1, g1, p2)" by (cases "collect_fields cfg es p1") auto
    note eqs = rest [OF c]
    have "length (front @ field) = q + ?w" using Cons.prems(4) field by simp
    from Cons.IH [OF par q(2) _ this w(2) c, of "k + word_of_nat d"] Cons.prems(3) here eqs d field w(3)
    show ?thesis by (simp add: algebra_simps)
  qed
  show ?case
  proof (cases "hke_node entry \<noteq> KFSW_HK_NODE_LOCAL")
    case True
    have "front @ replicate n 0 = (front @ replicate ?w 0) @ replicate (n - ?w) 0" using w(1) by (simp flip: replicate_add)
    with True x show ?thesis
      using Cons.prems(6) by (intro step [of params "replicate ?w 0" 0]) (auto simp: Cons.prems(1))
  next
    case False
    show ?thesis
    proof (cases r)
      case (Inl e)
      have "front @ replicate n 0 = (front @ replicate ?w 0) @ replicate (n - ?w) 0" using w(1) by (simp flip: replicate_add)
      with False x g Inl show ?thesis
        using Cons.prems(6) t1 by (intro step [of params1 "replicate ?w 0" 1]) auto
    next
      case (Inr v)
      obtain e where "e \<in> set table" "pi_id (en_info e) = hke_param_id entry" "pv_type v = pi_type (en_info e)"
        using get_by_id_typed(2) [OF g _ Inr] assms Cons.prems(1) by blast
      moreover have "field_fits table x" using Cons.prems(3) by simp
      ultimately have fit: "length (value_bytes ?w v) \<le> ?w"
        using value_bytes_fit [of v "pi_array_size (en_info e)"] by (auto simp: field_fits_def x)
      have "kfsw_hk_write_value q ?w v (front @ replicate n 0) =
          (front @ value_bytes ?w v @ replicate (?w - length (value_bytes ?w v)) 0) @ replicate (n - ?w) 0"
        using write_value_zeros [OF Cons.prems(4) fit w(1)] by simp
      with False x g Inr q(1) fit show ?thesis
        using Cons.prems(6) t1
        by (intro step [of params1 "value_bytes ?w v @ replicate (?w - length (value_bytes ?w v)) 0" 0]) auto
    qed
  qed
qed

lemma header_over_zeros:
  assumes "sys_put_be16 sequence = [a, b]" and "sys_put_be32 seconds = [w, x, y, z]"
  shows "(overwrite 8 [c, flags] (overwrite 4 (sys_put_be32 seconds) (overwrite 2 (sys_put_be16 sequence)
      ((replicate KFSW_HK_HEADER_SIZE 0 @ rest)[0 := version]))))[1 := report] =
    [version, report, a, b, w, x, y, z, c, flags] @ rest"
  using assms by (simp add: KFSW_HK_HEADER_SIZE_def overwrite_def eval_nat_numeral)

definition hk_fields :: "'f hk_env \<Rightarrow> kfsw_hk_definition \<Rightarrow> 'w param_state \<Rightarrow> bytes list" where
  "hk_fields env d params = fst (collect_fields (he_params env) (indexed_entries d) params)"

lemma collect_report_frame:
  assumes cfg: "hk_config_ok (he_config env)" and sorted: "sorted_wrt (<) (map (\<lambda>e. pi_id (en_info e)) (parameter_table params))"
    and layout: "layout_ok (he_config env) (parameter_table params) (indexed_entries d) (unat (hdf_payload_bytes d))"
    and c: "kfsw_hk_collect_report env clock d params = (sample, failures, params')"
  shows "frame_ok (he_config env) report (sample\<lparr>sm_data := (sm_data sample)[1 := report]\<rparr>)"
    "sm_length sample = word_of_nat KFSW_HK_HEADER_SIZE + hdf_payload_bytes d" "sm_sequence sample = hdf_sequence d"
    "sm_entry_count sample = hdf_entry_count d" "parameter_table params' = parameter_table params"
    "take (unat (hdf_payload_bytes d)) (drop KFSW_HK_HEADER_SIZE (sm_data sample)) = concat (hk_fields env d params)"
    "unat (sm_length sample) = KFSW_HK_HEADER_SIZE + unat (hdf_payload_bytes d)"
proof -
  let ?n = "hc_sample_bytes (he_config env)" and ?es = "indexed_entries d" and ?p = "unat (hdf_payload_bytes d)"
  obtain parts failed p2 where f: "collect_fields (he_params env) ?es params = (parts, failed, p2)"
    by (cases "collect_fields (he_params env) ?es params") auto
  have size: "KFSW_HK_HEADER_SIZE \<le> ?n" "KFSW_HK_HEADER_SIZE + ?p \<le> ?n" "?n < 65536" "widths_sum ?es = ?p"
    using cfg layout by (simp_all add: hk_config_ok_def layout_ok_def)
  have zeros: "replicate ?n 0 = replicate KFSW_HK_HEADER_SIZE 0 @ replicate (?n - KFSW_HK_HEADER_SIZE) (0 :: u8)"
    using size(1) by (simp flip: replicate_add)
  have "collect_local (he_params env) ?es (replicate KFSW_HK_HEADER_SIZE 0 @ replicate (?n - KFSW_HK_HEADER_SIZE) 0, 0, params) =
      (replicate KFSW_HK_HEADER_SIZE 0 @ concat parts @ replicate (?n - KFSW_HK_HEADER_SIZE - widths_sum ?es) 0, 0 + word_of_nat failed, p2)
      \<and> length (concat parts) = widths_sum ?es \<and> failed \<le> length ?es \<and> parameter_table p2 = parameter_table params"
    using layout size by (intro collect_local_fields [OF sorted _ _ _ _ _ f]) (simp_all add: layout_ok_def)
  then have l: "collect_local (he_params env) ?es (replicate ?n 0, 0, params) =
      (replicate KFSW_HK_HEADER_SIZE 0 @ concat parts @ replicate (?n - KFSW_HK_HEADER_SIZE - ?p) 0, word_of_nat failed, p2)"
    and len: "length (concat parts) = ?p" and table: "parameter_table p2 = parameter_table params"
    by (simp_all add: zeros size(4))
  note d = c [unfolded kfsw_hk_collect_report_def l prod.case Let_def, symmetric]
  show eqs: "sm_length sample = word_of_nat KFSW_HK_HEADER_SIZE + hdf_payload_bytes d" "sm_sequence sample = hdf_sequence d"
    "sm_entry_count sample = hdf_entry_count d" and "parameter_table params' = parameter_table params"
    using d table by simp_all
  show length: "unat (sm_length sample) = KFSW_HK_HEADER_SIZE + ?p"
    unfolding eqs(1) using size by (subst unat_plus_small) (simp_all add: KFSW_HK_HEADER_SIZE_def)
  obtain a b where ab: "sys_put_be16 (hdf_sequence d) = [a, b]" by (simp add: sys_put_be16_def)
  obtain w x y z where wxyz: "sys_put_be32 (sm_seconds sample) = [w, x, y, z]" by (simp add: sys_put_be32_def sys_put_be16_def)
  have data: "(sm_data sample)[1 := r] = frame_header r sample @ concat parts @ replicate (?n - KFSW_HK_HEADER_SIZE - ?p) 0" for r
  proof -
    have "sm_data sample = overwrite 8 [hdf_entry_count d, sm_flags sample] (overwrite 4 (sys_put_be32 (sm_seconds sample))
        (overwrite 2 (sys_put_be16 (hdf_sequence d))
          ((replicate KFSW_HK_HEADER_SIZE 0 @ concat parts @ replicate (?n - KFSW_HK_HEADER_SIZE - ?p) 0)[0 := KFSW_HK_PROTOCOL_VERSION])))"
      using d by simp
    with header_over_zeros [OF ab wxyz] eqs(2,3) ab wxyz show ?thesis by (simp add: frame_header_def)
  qed
  have hlen: "length (frame_header r sample) = KFSW_HK_HEADER_SIZE" for r by (simp add: frame_header_def KFSW_HK_HEADER_SIZE_def)
  have same: "frame_header r (sample\<lparr>sm_data := dd\<rparr>) = frame_header r sample" for r dd by (simp add: frame_header_def)
  show "frame_ok (he_config env) report (sample\<lparr>sm_data := (sm_data sample)[1 := report]\<rparr>)"
    unfolding frame_ok_def same using length size hlen [of report] len arg_cong [OF data [of report], of length]
    by (simp add: data [unfolded One_nat_def])
  have "drop KFSW_HK_HEADER_SIZE (sm_data sample) = drop KFSW_HK_HEADER_SIZE ((sm_data sample)[1 := 0])"
    by (simp add: drop_update_cancel KFSW_HK_HEADER_SIZE_def)
  also have "\<dots> = concat parts @ replicate (?n - KFSW_HK_HEADER_SIZE - ?p) 0" using hlen [of 0] by (simp add: data [unfolded One_nat_def])
  finally show "take ?p (drop KFSW_HK_HEADER_SIZE (sm_data sample)) = concat (hk_fields env d params)"
    using len by (simp add: hk_fields_def f)
qed

subsection \<open>What a definition lays out\<close>

lemma visit_match_width:
  "visit_list match_width infos \<lparr>ws_wanted = ident, ws_width = w, ws_found = b\<rparr> =
     (case find (\<lambda>i. pi_id i = ident) infos of
        None \<Rightarrow> \<lparr>ws_wanted = ident, ws_width = w, ws_found = b\<rparr>
      | Some i \<Rightarrow> \<lparr>ws_wanted = ident, ws_width = entry_width (pi_type i) (pi_array_size i), ws_found = True\<rparr>)"
  by (induction infos) (auto simp: match_width_def)

lemma declared_width:
  assumes "entry_declared_width params entry = Inr w"
    and "sorted_wrt (<) (map (\<lambda>e. pi_id (en_info e)) (parameter_table params))" and "w < 65536"
  shows "field_fits (parameter_table params) (entry, offset, word_of_nat w)" "0 < w" "hke_node entry = KFSW_HK_NODE_LOCAL"
proof -
  let ?infos = "map en_info (parameter_table params)"
  show local: "hke_node entry = KFSW_HK_NODE_LOCAL" using assms(1) by (simp add: entry_declared_width_def split: if_splits)
  have "find (\<lambda>i. pi_id i = hke_param_id entry) ?infos = None \<or> (\<exists>i. find (\<lambda>i. pi_id i = hke_param_id entry) ?infos = Some i)" by auto
  then obtain i where i: "find (\<lambda>i. pi_id i = hke_param_id entry) ?infos = Some i" "w = entry_width (pi_type i) (pi_array_size i)" "w \<noteq> 0"
    using assms(1) local
    by (auto simp: entry_declared_width_def kfsw_param_visit_def visit_match_width split: if_splits)
  have d: "distinct (map (\<lambda>e. pi_id (en_info e)) (parameter_table params))" using assms(2) ordered_distinct by blast
  then have "distinct (map pi_id ?infos)" by (simp add: comp_def)
  then have "en_info e = i" if "e \<in> set (parameter_table params)" "pi_id (en_info e) = hke_param_id entry" for e
    using find_distinct [of pi_id ?infos "hke_param_id entry" "en_info e"] that i(1) by auto
  then show "field_fits (parameter_table params) (entry, offset, word_of_nat w)"
    using i(2) assms(3) by (auto simp: field_fits_def unat_of_nat)
  show "0 < w" using i(3) by simp
qed

lemma prepare_lays_out:
  assumes "sorted_wrt (<) (map (\<lambda>e. pi_id (en_info e)) (parameter_table params))"
  shows "prepare_entries params es payload = Inr (ws, os, bytes) \<Longrightarrow> KFSW_HK_HEADER_SIZE + bytes < 65536 \<Longrightarrow>
    payload \<le> bytes \<and> laid_out (KFSW_HK_HEADER_SIZE + payload) (zip es (zip os ws)) \<and> payload + widths_sum (zip es (zip os ws)) = bytes
    \<and> (\<forall>x \<in> set (zip es (zip os ws)). field_fits (parameter_table params) x)
    \<and> length os = length es \<and> length ws = length es \<and> (\<forall>e \<in> set es. hke_node e = KFSW_HK_NODE_LOCAL)"
proof (induction es arbitrary: payload ws os)
  case Nil
  then show ?case by (simp add: widths_sum_def)
next
  case (Cons e es)
  from Cons.prems(1) obtain w ws1 os1 where w: "entry_declared_width params e = Inr w"
    and r: "prepare_entries params es (payload + w) = Inr (ws1, os1, bytes)"
    and l: "ws = word_of_nat w # ws1" "os = word_of_nat (KFSW_HK_HEADER_SIZE + payload) # os1"
    by (auto split: sum.splits)
  note ih = Cons.IH [OF r Cons.prems(2)]
  then have b: "payload + w \<le> bytes" by simp
  then have small: "w < 65536" "KFSW_HK_HEADER_SIZE + payload < 65536" using Cons.prems(2) by simp_all
  then have u: "unat (word_of_nat w :: u16) = w" "unat (word_of_nat (KFSW_HK_HEADER_SIZE + payload) :: u16) = KFSW_HK_HEADER_SIZE + payload"
    by (simp_all add: unat_word_of_nat_small del: of_nat_add)
  note dw = declared_width [OF w assms small(1)]
  have "KFSW_HK_HEADER_SIZE + payload + w = KFSW_HK_HEADER_SIZE + (payload + w)" by simp
  with ih u l dw(1,3) b show ?case by (simp add: widths_sum_def add.assoc)
qed

subsection \<open>The order of collection\<close>

lemma concat_update:
  assumes "i < length rs"
  shows "\<exists>A C. concat (map g rs) = A @ g (rs ! i) @ C \<and> concat (map g (rs[i := r])) = A @ g r @ C"
proof (intro exI conjI)
  let ?A = "concat (map g (take i rs))" and ?C = "concat (map g (drop (Suc i) rs))"
  have "concat (map g rs) = concat (map g (take i rs @ rs ! i # drop (Suc i) rs))" using assms by (simp add: id_take_nth_drop [symmetric])
  then show "concat (map g rs) = ?A @ g (rs ! i) @ ?C" by simp
  have "concat (map g (rs[i := r])) = concat (map g (take i rs @ r # drop (Suc i) rs))" using assms by (simp add: upd_conv_take_nth_drop)
  then show "concat (map g (rs[i := r])) = ?A @ g r @ ?C" by simp
qed

lemma length_concat_le: "\<forall>r \<in> set rs. length (g r) \<le> n \<Longrightarrow> length (concat (map g rs)) \<le> length rs * n"
  by (induction rs) (auto intro: add_mono)

text \<open>
  A report's samples are dropped, kept, or joined by a newer one than any: every order is still used once.
\<close>

lemma collected_update:
  assumes once: "collected_once reports" and i: "i < length reports" and ring: "hk_ring_ok r"
    and new: "newest_first r = take n (fresh @ newest_first (reports ! i))"
    and fresh: "fresh = [] \<or> (\<exists>x. fresh = [x] \<and> fst x \<noteq> 0 \<and> (\<forall>k \<in> orders reports. k < fst x))"
    and room: "length (concat (map newest_first (reports[i := r]))) < 65536"
  shows "collected_once (reports[i := r])" "orders (reports[i := r]) \<subseteq> fst ` set fresh \<union> orders reports"
proof -
  let ?old = "newest_first (reports ! i)"
  obtain A C where c: "concat (map newest_first reports) = A @ ?old @ C"
    "concat (map newest_first (reports[i := r])) = A @ newest_first r @ C" using concat_update [OF i] by metis
  have ord: "orders reports = fst ` set A \<union> fst ` set ?old \<union> fst ` set C" by (auto simp: orders_def c(1) simp del: set_concat)
  have sub: "fst ` set (newest_first r) \<subseteq> fst ` set fresh \<union> fst ` set ?old"
    unfolding new using set_take_subset [of n "fresh @ ?old"] by auto
  show "orders (reports[i := r]) \<subseteq> fst ` set fresh \<union> orders reports"
    unfolding ord using sub by (auto simp: orders_def c(2) simp del: set_concat)
  have d: "distinct (map fst (A @ ?old @ C))" "0 \<notin> fst ` set (A @ ?old @ C)"
    using once unfolding collected_once_def c(1) by blast+
  have fr: "distinct (map fst fresh)" "fst ` set fresh \<inter> orders reports = {}" "0 \<notin> fst ` set fresh"
    using fresh by auto
  have "distinct (map fst (fresh @ ?old))" using d(1) fr(1,2) by (auto simp: ord)
  then have "distinct (map fst (newest_first r))" unfolding new by (simp only: take_map [symmetric] distinct_take)
  then have "distinct (map fst (A @ newest_first r @ C))"
  proof -
    have disj: "F \<inter> (SA \<union> SO \<union> SC) = {} \<Longrightarrow> SR \<subseteq> F \<union> SO \<Longrightarrow> SA \<inter> (SO \<union> SC) = {} \<Longrightarrow> SO \<inter> SC = {} \<Longrightarrow>
      SA \<inter> (SR \<union> SC) = {} \<and> SR \<inter> SC = {}" for F SA SO SC SR :: "u64 set" by blast
    have "distinct (map fst A)" "distinct (map fst C)" "fst ` set ?old \<inter> fst ` set C = {}"
      "fst ` set A \<inter> (fst ` set ?old \<union> fst ` set C) = {}" using d(1) by (simp_all add: image_Un)
    with disj [OF fr(2) [unfolded ord] sub] \<open>distinct (map fst (newest_first r))\<close> show ?thesis by (simp add: image_Un)
  qed
  moreover have "0 \<notin> fst ` set (A @ newest_first r @ C)" 
  proof -
    have "0 \<notin> fst ` set A" "0 \<notin> fst ` set ?old" "0 \<notin> fst ` set C" using d(2) by (auto simp: image_Un)
    with sub fr(3) have "0 \<notin> fst ` set (newest_first r)" by blast
    with \<open>0 \<notin> fst ` set A\<close> \<open>0 \<notin> fst ` set C\<close> show ?thesis by (simp only: set_append image_Un Un_iff) simp
  qed
  moreover have "sorted_wrt (>) (map fst (newest_first r))"
  proof -
    have "sorted_wrt (>) (map fst ?old)" using once i by (simp add: collected_once_def)
    then have "sorted_wrt (>) (map fst (fresh @ ?old))" using fresh by (auto simp: ord)
    then show ?thesis unfolding new by (simp only: take_map [symmetric] sorted_wrt_take)
  qed
  moreover from this have "\<forall>q \<in> set (reports[i := r]). hk_ring_ok q \<and> sorted_wrt (>) (map fst (newest_first q))"
    using once ring set_update_subset_insert [of reports i r] unfolding collected_once_def by fastforce
  ultimately show "collected_once (reports[i := r])" using room unfolding collected_once_def c(2) by simp
qed

subsection \<open>The invariant\<close>

lemma newest_first_cong:
  "hr_order r' = hr_order r \<Longrightarrow> hr_ring r' = hr_ring r \<Longrightarrow> hr_held r' = hr_held r \<Longrightarrow> hr_next_slot r' = hr_next_slot r \<Longrightarrow>
   newest_first r' = newest_first r"
  by (simp add: newest_first_def age_slot_def)

lemma ok_same:
  assumes "hk_reports st' = hk_reports st" "hk_generations st' = hk_generations st" "hk_collected_order st' = hk_collected_order st"
  shows "hk_ok cfg table st' = hk_ok cfg table st" "flight_ok cfg table st' = flight_ok cfg table st"
  using assms by (simp_all add: hk_ok_def flight_ok_def fun_eq_iff)

lemma next_greater: "(x :: u64) \<noteq> - 1 \<Longrightarrow> x < x + 1"
proof -
  assume "x \<noteq> - 1"
  then have "1 + x \<noteq> 0" by (metis add_eq_0_iff)
  from unatSuc [OF this] show ?thesis by (simp add: word_less_nat_alt add.commute)
qed

lemma word_of_unat_index: "unat report < n \<Longrightarrow> n \<le> 255 \<Longrightarrow> (word_of_nat (unat report) :: u8) = report"
  by simp

lemma ok_reports_fit:
  assumes cfg: "hk_config_ok cfg" and ok: "\<forall>i < hc_reports cfg. report_ok cfg table (word_of_nat i) (rs ! i)" and n: "length rs = hc_reports cfg"
  shows "length (concat (map newest_first rs)) < 65536"
proof -
  have "\<forall>r \<in> set rs. length (newest_first r) \<le> hc_history cfg"
    using ok n by (fastforce simp: in_set_conv_nth report_ok_def hk_ring_ok_def)
  from length_concat_le [OF this] n cfg show ?thesis by (simp add: hk_config_ok_def)
qed

text \<open>One report changes: its samples are dropped or kept, or a new one is stored.\<close>

lemma ok_update:
  assumes cfg: "hk_config_ok cfg" and ok: "hk_ok cfg table st" and i: "unat report < hc_reports cfg"
    and st': "hk_reports st' = (hk_reports st)[unat report := r]" "length (hk_generations st') = hc_reports cfg"
      "hk_collected_order st \<le> hk_collected_order st'" "\<forall>x \<in> set fresh. fst x \<le> hk_collected_order st'"
    and r: "report_ok cfg table report r" "newest_first r = take n (fresh @ newest_first (hk_reports st ! unat report))"
    and fresh: "fresh = [] \<or> (\<exists>x. fresh = [x] \<and> fst x \<noteq> 0 \<and> hk_collected_order st < fst x)"
  shows "hk_ok cfg table st'"
proof -
  have n: "length (hk_reports st) = hc_reports cfg" and once: "collected_once (hk_reports st)"
    and le: "\<forall>k \<in> orders (hk_reports st). k \<le> hk_collected_order st" using ok by (simp_all add: hk_ok_def)
  have each: "\<forall>j < hc_reports cfg. report_ok cfg table (word_of_nat j) ((hk_reports st)[unat report := r] ! j)"
    using ok r(1) i n by (auto simp: hk_ok_def nth_list_update)
  have room: "length (concat (map newest_first ((hk_reports st)[unat report := r]))) < 65536"
    using ok_reports_fit [OF cfg each] n by simp
  have ring: "hk_ring_ok r" using r(1) by (simp add: report_ok_def)
  have fr: "fresh = [] \<or> (\<exists>x. fresh = [x] \<and> fst x \<noteq> 0 \<and> (\<forall>k \<in> orders (hk_reports st). k < fst x))"
    using fresh le by (auto intro: le_less_trans)
  note u = collected_update [OF once i [folded n] ring r(2) fr room]
  have "\<forall>k \<in> orders (hk_reports st'). k \<le> hk_collected_order st'"
    using u(2) le st'(3,4) unfolding st'(1) by (blast intro: order_trans)
  then show ?thesis using n st' each u(1) by (simp add: hk_ok_def)
qed

lemma flight_update:
  fixes report :: u8
  assumes ok: "flight_ok cfg table st fl" and i: "unat report < length (hk_generations st)" "unat report < length (hk_reports st)"
    and st': "hk_reports st' = (hk_reports st)[unat report := r]"
    and gen: "hk_generations st' = (hk_generations st)[unat report := hk_generations st ! unat report + 1] \<and> hk_generations st ! unat report \<noteq> - 1
      \<or> hk_generations st' = hk_generations st \<and> hr_payload_bytes r = hr_payload_bytes (hk_reports st ! unat report)
        \<and> hr_entry_count r = hr_entry_count (hk_reports st ! unat report) \<and> hr_sequence r = hr_sequence (hk_reports st ! unat report)"
  shows "flight_ok cfg table st' fl"
proof -
  obtain rep d g where fl: "fl = (rep, d, g)" by (cases fl) auto
  have le: "g \<le> hk_generations st ! unat rep" using ok by (simp add: flight_ok_def fl)
  show ?thesis
  proof (cases "unat rep = unat report")
    case False
    have "hk_generations st' ! unat rep = hk_generations st ! unat rep" "hk_reports st' ! unat rep = hk_reports st ! unat rep"
      using False gen st' by auto
    with ok show ?thesis by (simp add: flight_ok_def fl)
  next
    case True
    from gen show ?thesis
    proof
      assume a: "hk_generations st' = (hk_generations st)[unat report := hk_generations st ! unat report + 1] \<and> hk_generations st ! unat report \<noteq> - 1"
      let ?h = "hk_generations st ! unat report"
      have "?h < ?h + 1" using a by (simp add: next_greater)
      then have "g < hk_generations st' ! unat rep" using a le True i(1) by (simp add: le_less_trans)
      with ok show ?thesis by (auto simp: flight_ok_def fl)
    next
      assume "hk_generations st' = hk_generations st \<and> hr_payload_bytes r = hr_payload_bytes (hk_reports st ! unat report)
        \<and> hr_entry_count r = hr_entry_count (hk_reports st ! unat report) \<and> hr_sequence r = hr_sequence (hk_reports st ! unat report)"
      with ok True i(2) st' show ?thesis by (simp add: flight_ok_def fl Let_def)
    qed
  qed
qed

definition hk_inv :: "'f hk_env \<Rightarrow> 'w kfsw_param_entry list \<Rightarrow> ('f, 'w) hk_node \<Rightarrow> hk_flight option \<Rightarrow> bool" where
  "hk_inv env table nd fl \<longleftrightarrow>
     hk_ok (he_config env) table (hn_hk nd) \<and> parameter_table (hn_params nd) = table
     \<and> (\<forall>f. fl = Some f \<longrightarrow> flight_ok (he_config env) table (hn_hk nd) f)"

text \<open>Operations that touch neither the reports nor the parameters keep it.\<close>

lemma inv_same:
  assumes "hk_inv env table nd fl" and "hk_reports (hn_hk nd') = hk_reports (hn_hk nd)"
    and "hk_generations (hn_hk nd') = hk_generations (hn_hk nd)" and "hk_collected_order (hn_hk nd') = hk_collected_order (hn_hk nd)"
    and "parameter_table (hn_params nd') = parameter_table (hn_params nd)"
  shows "hk_inv env table nd' fl"
  using assms(1,5) by (simp add: hk_inv_def ok_same [OF assms(2-4)])

lemma inv_update:
  assumes cfg: "hk_config_ok (he_config env)" and inv: "hk_inv env table nd fl" and i: "unat report < hc_reports (he_config env)"
    and st': "hk_reports (hn_hk nd') = (hk_reports (hn_hk nd))[unat report := r]"
      "hk_collected_order (hn_hk nd') = hk_collected_order (hn_hk nd)" "parameter_table (hn_params nd') = parameter_table (hn_params nd)"
    and r: "report_ok (he_config env) table report r" "newest_first r = take n (newest_first (hk_reports (hn_hk nd) ! unat report))"
    and gen: "hk_generations (hn_hk nd') = (hk_generations (hn_hk nd))[unat report := hk_generations (hn_hk nd) ! unat report + 1]
        \<and> hk_generations (hn_hk nd) ! unat report \<noteq> - 1
      \<or> hk_generations (hn_hk nd') = hk_generations (hn_hk nd) \<and> hr_payload_bytes r = hr_payload_bytes (hk_reports (hn_hk nd) ! unat report)
        \<and> hr_entry_count r = hr_entry_count (hk_reports (hn_hk nd) ! unat report) \<and> hr_sequence r = hr_sequence (hk_reports (hn_hk nd) ! unat report)"
  shows "hk_inv env table nd' fl"
proof -
  have ok: "hk_ok (he_config env) table (hn_hk nd)" using inv by (simp add: hk_inv_def)
  have len: "length (hk_generations (hn_hk nd)) = hc_reports (he_config env)" "length (hk_reports (hn_hk nd)) = hc_reports (he_config env)"
    using ok by (simp_all add: hk_ok_def)
  have len': "length (hk_generations (hn_hk nd')) = hc_reports (he_config env)" using gen len(1) by auto
  have "hk_ok (he_config env) table (hn_hk nd')"
    using ok_update [OF cfg ok i st'(1) len', of "[]" n] st'(2) r by simp
  moreover have "flight_ok (he_config env) table (hn_hk nd') f" if "fl = Some f" for f
    using that inv i len by (intro flight_update [OF _ _ _ st'(1) gen]) (simp_all add: hk_inv_def)
  ultimately show ?thesis using inv st'(3) by (simp add: hk_inv_def)
qed

lemma report_at_Some:
  "kfsw_hk_report_at report st = Some r \<longleftrightarrow> unat report < length (hk_reports st) \<and> r = hk_reports st ! unat report"
  by (auto simp: kfsw_hk_report_at_def)

lemma ok_report:
  assumes "hk_ok cfg table st" and "unat report < length (hk_reports st)"
  shows "unat report < hc_reports cfg" "report_ok cfg table report (hk_reports st ! unat report)"
proof -
  show i: "unat report < hc_reports cfg" using assms by (simp add: hk_ok_def)
  have "report_ok cfg table (word_of_nat (unat report)) (hk_reports st ! unat report)"
    using assms(1) i unfolding hk_ok_def by blast
  then show "report_ok cfg table report (hk_reports st ! unat report)" by simp
qed

text \<open>A report with the samples, the layout and the number it had.\<close>

lemma report_ok_cong:
  assumes "report_ok cfg table report r" and "newest_first r' = newest_first r" and "hr_held r' = hr_held r"
    and "hr_ring r' = hr_ring r" and "hr_order r' = hr_order r" and "hr_next_slot r' = hr_next_slot r"
    and "hr_defined r' = hr_defined r" and "hr_payload_bytes r' = hr_payload_bytes r" and "hr_entry_count r' = hr_entry_count r"
    and "hr_sequence r' = hr_sequence r" and "report_fields r' = report_fields r"
  shows "report_ok cfg table report r'"
  using assms by (simp add: report_ok_def hk_ring_ok_def sample_current_def)

lemma zero_report_ok:
  assumes "hk_config_ok cfg"
  shows "report_ok cfg table report (zero_report cfg)" "newest_first (zero_report cfg) = []"
  using assms by (simp_all add: report_ok_def zero_report_def hk_ring_ok_def newest_first_def hk_config_ok_def)

lemma inv_period:
  fixes report :: u8
  assumes cfg: "hk_config_ok (he_config env)" and inv: "hk_inv env table nd fl"
    and r: "r = (hk_reports (hn_hk nd) ! unat report)\<lparr>hr_period_ms := p, hr_next_uptime_ms := u\<rparr>"
    and i: "unat report < length (hk_reports (hn_hk nd))"
    and st': "hk_reports (hn_hk nd') = (hk_reports (hn_hk nd))[unat report := r]"
      "hk_collected_order (hn_hk nd') = hk_collected_order (hn_hk nd)" "parameter_table (hn_params nd') = parameter_table (hn_params nd)"
      "hk_generations (hn_hk nd') = hk_generations (hn_hk nd)"
  shows "hk_inv env table nd' fl"
proof (rule inv_update [OF cfg inv _ st'(1-3)])
  have ok: "hk_ok (he_config env) table (hn_hk nd)" using inv by (simp add: hk_inv_def)
  note rep = ok_report [OF ok i]
  show "unat report < hc_reports (he_config env)" by (rule rep(1))
  have nf: "newest_first r = newest_first (hk_reports (hn_hk nd) ! unat report)" by (rule newest_first_cong) (simp_all add: r)
  show "report_ok (he_config env) table report r"
    by (rule report_ok_cong [OF rep(2) nf]) (simp_all add: r report_fields_def)
  show "newest_first r = take (length (newest_first r)) (newest_first (hk_reports (hn_hk nd) ! unat report))" by (simp add: nf)
qed (use st'(4) r in simp)

text \<open>Every setting runs inside the same frame.\<close>

lemma inv_configured:
  assumes "hk_inv env table nd fl" and "kfsw_hk_is_ready (hn_hk nd) \<Longrightarrow> hk_inv env table (snd (setting nd)) fl"
  shows "hk_inv env table (snd (configured setting nd)) fl"
proof (cases "kfsw_hk_is_ready (hn_hk nd)")
  case True
  obtain r nd' where s: "setting nd = (r, nd')" by fastforce
  with assms(2) True have "hk_inv env table nd' fl" by simp
  then show ?thesis
    by (rule inv_same) (use True s in \<open>simp_all add: configured_def kfsw_hk_config_begin_def kfsw_hk_config_end_def\<close>)
next
  case False
  with assms(1) show ?thesis by (simp add: configured_def kfsw_hk_config_begin_def)
qed

lemma inv_clear:
  assumes cfg: "hk_config_ok (he_config env)" and inv: "hk_inv env table nd fl"
    and gen: "hk_generations (hn_hk nd) ! unat report \<noteq> - 1"
  shows "hk_inv env table (snd (clear_impl env report nd)) fl"
proof (cases "kfsw_hk_report_at report (hn_hk nd)")
  case None
  with inv show ?thesis by (simp add: clear_impl_def)
next
  case (Some target)
  obtain stores files where f: "kfsw_hk_store_forget (he_files env) report (hn_stores nd, hn_files nd) = (stores, files)" by fastforce
  have "unat report < hc_reports (he_config env)" using Some inv by (auto simp: report_at_Some hk_inv_def hk_ok_def)
  then show ?thesis
    by (rule inv_update [OF cfg inv, where r = "zero_report (he_config env)" and n = 0])
      (use Some f gen zero_report_ok [OF cfg] in \<open>simp_all add: clear_impl_def replace_report_def Let_def\<close>)
qed

text \<open>A definition that is accepted lays the report out and leaves no samples.\<close>

lemma prepared_layout:
  assumes cfg: "hk_config_ok cfg" and sorted: "sorted_wrt (<) (map (\<lambda>e. pi_id (en_info e)) (parameter_table params))"
    and p: "kfsw_hk_prepare_definition cfg report (Some es) Dest params = Inr d"
  shows "layout_ok cfg (parameter_table params) (indexed_entries d) (unat (hdf_payload_bytes d))" "hdf_entries d = es"
    "\<forall>e \<in> set es. hke_node e = KFSW_HK_NODE_LOCAL"
    "length es \<le> hc_entries cfg" "hdf_entry_count d = word_of_nat (length es)"
proof -
  from p obtain ws os bytes where e: "prepare_entries params es 0 = Inr (ws, os, bytes)"
    and size: "bytes + KFSW_HK_HEADER_SIZE \<le> hc_sample_bytes cfg" "length es \<le> hc_entries cfg"
    and d: "d = \<lparr>hdf_entries = es, hdf_widths = ws, hdf_offsets = os, hdf_payload_bytes = word_of_nat bytes,
      hdf_sequence = 0, hdf_entry_count = word_of_nat (length es), hdf_class = KFSW_HK_CLASS_DEFAULT\<rparr>"
    by (auto simp: kfsw_hk_prepare_definition_def not_le not_less split: if_splits sum.splits)
  have small: "KFSW_HK_HEADER_SIZE + bytes < 65536" "bytes < 65536" using size cfg by (simp_all add: hk_config_ok_def)
  note l = prepare_lays_out [OF sorted e small(1)]
  show "layout_ok cfg (parameter_table params) (indexed_entries d) (unat (hdf_payload_bytes d))"
    using l size small(2) by (simp add: layout_ok_def indexed_entries_def d unat_of_nat)
  show "hdf_entries d = es" "\<forall>e \<in> set es. hke_node e = KFSW_HK_NODE_LOCAL" "length es \<le> hc_entries cfg"
    "hdf_entry_count d = word_of_nat (length es)" using l d size by simp_all
qed

lemma inv_define:
  assumes cfg: "hk_config_ok (he_config env)" and inv: "hk_inv env table nd fl"
    and sorted: "sorted_wrt (<) (map (\<lambda>e. pi_id (en_info e)) table)"
    and gen: "hk_generations (hn_hk nd) ! unat report \<noteq> - 1"
  shows "hk_inv env table (snd (define_impl env report requested cls now nd)) fl"
proof (cases "fst (define_impl env report requested cls now nd) = None \<and> requested \<noteq> Some []")
  case False
  then have "snd (define_impl env report requested cls now nd) = nd \<or> define_impl env report requested cls now nd = clear_impl env report nd"
    by (auto simp: define_impl_def Let_def split: option.splits sum.splits if_splits prod.splits)
  with inv inv_clear [OF cfg inv gen] show ?thesis by metis
next
  case True
  then obtain target wanted d where t: "kfsw_hk_report_at report (hn_hk nd) = Some target" "requested = Some wanted" "wanted \<noteq> []"
    and p: "kfsw_hk_prepare_definition (he_config env) report (Some (name_local_entries (he_own_address env) wanted)) Dest (hn_params nd) = Inr d"
    and c: "\<not> cls > KFSW_HK_CLASS_MAX" "\<not> length wanted > hc_entries (he_config env)"
    by (auto simp: define_impl_def Let_def split: option.splits sum.splits if_splits)
  let ?es = "name_local_entries (he_own_address env) wanted"
  let ?r = "target\<lparr>hr_entries := ?es, hr_widths := hdf_widths d, hr_offsets := hdf_offsets d, hr_class := cls,
      hr_entry_count := word_of_nat (length ?es), hr_payload_bytes := hdf_payload_bytes d, hr_defined := True,
      hr_next_uptime_ms := now + uint (hr_period_ms target), hr_held := 0, hr_next_slot := 0\<rparr>"
  obtain stores files where f: "kfsw_hk_store_forget (he_files env) report (hn_stores nd, hn_files nd) = (stores, files)" by fastforce
  have table: "parameter_table (hn_params nd) = table" and ok: "hk_ok (he_config env) table (hn_hk nd)" using inv by (simp_all add: hk_inv_def)
  note lay = prepared_layout [OF cfg _ p, unfolded table, OF sorted]
  have i: "unat report < length (hk_reports (hn_hk nd))" "target = hk_reports (hn_hk nd) ! unat report" using t(1) by (simp_all add: report_at_Some)
  note rep = ok_report [OF ok i(1)]
  have new: "define_impl env report requested cls now nd =
      (None, nd\<lparr>hn_hk := replace_report report ?r (hn_hk nd), hn_stores := stores, hn_files := files\<rparr>)"
    using t p c f by (simp add: define_impl_def Let_def)
  have nf: "newest_first ?r = []" by (simp add: newest_first_def)
  have "layout_ok (he_config env) table (report_fields ?r) (unat (hr_payload_bytes ?r))"
    using lay(1,2) by (simp add: report_fields_def indexed_entries_def)
  then have "report_ok (he_config env) table report ?r"
    using rep(2) i(2) by (auto simp: report_ok_def hk_ring_ok_def)
  from rep(1) show ?thesis
    by (rule inv_update [OF cfg inv, where r = ?r and n = 0])
      (use new gen nf \<open>report_ok (he_config env) table report ?r\<close> in \<open>simp_all add: replace_report_def Let_def\<close>)
qed

text \<open>A stored sample is the newest of the report, and the others age by one.\<close>

lemma report_ok_store:
  assumes ok: "report_ok cfg table report r" and def: "hr_defined r" and x: "sample_current cfg report (store_sample (k, s) r) 0 s"
  shows "report_ok cfg table report (store_sample (k, s) r)"
proof -
  let ?r = "store_sample (k, s) r"
  have ring: "hk_ring_ok r" "length (hr_ring r) = hc_history cfg" using ok by (simp_all add: report_ok_def)
  have same: "report_fields ?r = report_fields r" by (simp add: report_fields_def store_sample_def Let_def)
  have "sample_current cfg report ?r a (snd (newest_first ?r ! a))" if a: "a < unat (hr_held ?r)" for a
  proof -
    have n: "a < length (hr_ring r)" "a < Suc (unat (hr_held r))" using a unat_held_store [OF ring(1)] by simp_all
    show ?thesis
    proof (cases a)
      case 0
      with n x show ?thesis by (simp add: newest_first_store [OF ring(1)])
    next
      case (Suc b)
      with n ok have "sample_current cfg report r b (snd (newest_first r ! b))" by (simp add: report_ok_def)
      with Suc n show ?thesis by (simp add: newest_first_store [OF ring(1)] sample_current_def algebra_simps)
    qed
  qed
  with ok def ring_ok_store [OF ring(1)] same show ?thesis by (simp add: report_ok_def)
qed

text \<open>What the end of a collection does to the state of the service.\<close>

lemma finish_state:
  "hn_hk (snd (collect_finish env fl sample failures nd)) = snd (collect_store fl sample failures (hn_hk nd))"
  "hn_params (snd (collect_finish env fl sample failures nd)) = hn_params nd"
  "fst (collect_finish env fl sample failures nd) = fst (collect_store fl sample failures (hn_hk nd))"
  by (auto simp: collect_finish_def Let_def split: prod.splits option.splits)

lemma inv_collected:
  assumes cfg: "hk_config_ok (he_config env)" and sorted: "sorted_wrt (<) (map (\<lambda>e. pi_id (en_info e)) table)"
    and inv: "hk_inv env table nd (Some fl)" and order: "hk_collected_order (hn_hk nd) \<noteq> - 1"
    and c: "kfsw_hk_collect_report env clock (fst (snd fl)) (hn_params nd) = (sample, failures, params)"
  shows "hk_inv env table (snd (collect_finish env fl sample failures (nd\<lparr>hn_params := params\<rparr>))) None"
proof -
  obtain report d g where fl: "fl = (report, d, g)" by (cases fl) auto
  let ?st = "hn_hk nd" and ?cfg = "he_config env"
  have table: "parameter_table (hn_params nd) = table" and ok: "hk_ok ?cfg table ?st" and fly: "flight_ok ?cfg table ?st fl"
    using inv by (simp_all add: hk_inv_def)
  have i: "unat report < hc_reports ?cfg" "unat report < length (hk_reports ?st)"
    and lay: "layout_ok ?cfg (parameter_table (hn_params nd)) (indexed_entries d) (unat (hdf_payload_bytes d))"
    using fly ok table by (simp_all add: flight_ok_def fl hk_ok_def)
  note frame = collect_report_frame [OF cfg sorted [folded table] lay c [unfolded fl fst_conv snd_conv]]
  let ?r = "hk_reports ?st ! unat report" and ?k = "hk_collected_order ?st + 1"
  let ?s = "sample\<lparr>sm_data := (sm_data sample)[1 := report]\<rparr>"
  have params: "parameter_table params = table" using frame(5) table by simp
  have "hk_ok ?cfg table (snd (collect_store fl sample failures ?st))"
  proof (cases "hr_defined ?r \<and> g = hk_generations ?st ! unat report")
    case False
    then have "hk_ok ?cfg table (snd (collect_store fl sample failures ?st)) = hk_ok ?cfg table ?st"
      by (intro ok_same(1)) (auto simp: collect_store_def fl Let_def)
    with ok show ?thesis by simp
  next
    case True
    have st': "hk_reports (snd (collect_store fl sample failures ?st)) = (hk_reports ?st)[unat report := store_sample (?k, ?s) ?r]"
      "hk_generations (snd (collect_store fl sample failures ?st)) = hk_generations ?st"
      "hk_collected_order (snd (collect_store fl sample failures ?st)) = ?k"
      using True by (simp_all add: collect_store_def fl Let_def)
    have same: "hr_payload_bytes ?r = hdf_payload_bytes d" "hr_entry_count ?r = hdf_entry_count d" "hr_sequence ?r = hdf_sequence d"
      using fly True by (simp_all add: flight_ok_def fl Let_def)
    note rep = ok_report [OF ok i(2)]
    have "sample_current ?cfg report (store_sample (?k, ?s) ?r) 0 ?s"
      using frame(1-4) same by (simp add: sample_current_def)
    then have r': "report_ok ?cfg table report (store_sample (?k, ?s) ?r)" using report_ok_store [OF rep(2)] True by blast
    have nf: "newest_first (store_sample (?k, ?s) ?r) = take (length (hr_ring ?r)) ([(?k, ?s)] @ newest_first ?r)"
      using rep(2) by (simp add: report_ok_def newest_first_store)
    have up: "hk_collected_order ?st < ?k" using order by (simp add: next_greater)
    then have "?k \<noteq> 0" by (metis word_not_simps(1))
    then have fresh: "[(?k, ?s)] = [] \<or> (\<exists>x. [(?k, ?s)] = [x] \<and> fst x \<noteq> 0 \<and> hk_collected_order ?st < fst x)" using up by simp
    have len: "length (hk_generations (snd (collect_store fl sample failures ?st))) = hc_reports ?cfg"
      using ok st'(2) by (simp add: hk_ok_def)
    show ?thesis
      by (rule ok_update [OF cfg ok i(1) st'(1) len _ _ r' nf fresh]) (use st'(3) up in simp_all)
  qed
  then show ?thesis using params by (simp add: hk_inv_def finish_state)
qed

lemma inv_begin_collect:
  assumes inv: "hk_inv env table nd None" and b: "collect_begin report (hn_hk nd) = Inr fl"
  shows "hk_inv env table nd (Some fl)"
proof -
  have ok: "hk_ok (he_config env) table (hn_hk nd)" using inv by (simp add: hk_inv_def)
  from b obtain r where r: "kfsw_hk_report_at report (hn_hk nd) = Some r" "hr_defined r"
    and fl: "fl = (report, \<lparr>hdf_entries = hr_entries r, hdf_widths = hr_widths r, hdf_offsets = hr_offsets r,
      hdf_payload_bytes = hr_payload_bytes r, hdf_sequence = hr_sequence r, hdf_entry_count = hr_entry_count r, hdf_class = hr_class r\<rparr>,
      hk_generations (hn_hk nd) ! unat report)"
    by (auto simp: collect_begin_def split: option.splits if_splits)
  have i: "unat report < length (hk_reports (hn_hk nd))" "r = hk_reports (hn_hk nd) ! unat report" using r(1) by (simp_all add: report_at_Some)
  note rep = ok_report [OF ok i(1)]
  have "flight_ok (he_config env) table (hn_hk nd) fl"
    using rep r(2) i(2) by (simp add: flight_ok_def fl indexed_entries_def report_ok_def report_fields_def)
  with inv show ?thesis by (simp add: hk_inv_def)
qed

lemma inv_boot:
  assumes cfg: "hk_config_ok (he_config env)" and boot: "hn_hk nd = hk_boot (he_config env)" "parameter_table (hn_params nd) = table"
  shows "hk_inv env table nd None"
proof -
  let ?z = "zero_report (he_config env)" and ?n = "hc_reports (he_config env)"
  note z = zero_report_ok [OF cfg]
  have "concat (map newest_first (replicate ?n ?z)) = []" by (simp add: z(2))
  moreover have "hk_ring_ok ?z" using z(1) [of table 0] by (simp add: report_ok_def)
  ultimately have "collected_once (replicate ?n ?z)" "orders (replicate ?n ?z) = {}"
    using z(2) by (simp_all add: collected_once_def orders_def)
  with boot show ?thesis by (simp add: hk_inv_def hk_ok_def hk_boot_def z(1))
qed

lemma set_store_state:
  "hn_hk (snd (set_store_impl env report ms nd)) = hn_hk nd" "hn_params (snd (set_store_impl env report ms nd)) = hn_params nd"
  "hn_hk (snd (clear_store_impl env report nd)) = hn_hk nd" "hn_params (snd (clear_store_impl env report nd)) = hn_params nd"
  "hn_hk (snd (set_beacon_impl env report node ms nd)) = hn_hk nd" "hn_params (snd (set_beacon_impl env report node ms nd)) = hn_params nd"
  "hn_hk (snd (kfsw_hk_beacon_tick env buffers got report now nd)) = hn_hk nd"
  "hn_params (snd (kfsw_hk_beacon_tick env buffers got report now nd)) = hn_params nd"
  by (auto simp: set_store_impl_def clear_store_impl_def set_beacon_impl_def kfsw_hk_beacon_tick_def Let_def
      split: option.splits prod.splits sum.splits)

lemma inv_set_period:
  assumes cfg: "hk_config_ok (he_config env)" and inv: "hk_inv env table nd fl"
  shows "hk_inv env table (nd\<lparr>hn_hk := snd (set_period_impl (he_config env) report ms now (hn_hk nd))\<rparr>) fl"
proof (cases "fst (set_period_impl (he_config env) report ms now (hn_hk nd))")
  case (Some e)
  then have "snd (set_period_impl (he_config env) report ms now (hn_hk nd)) = hn_hk nd"
    by (auto simp: set_period_impl_def Let_def split: option.splits if_splits)
  with inv show ?thesis by (auto intro: inv_same)
next
  case None
  then have "unat report < length (hk_reports (hn_hk nd))"
    by (auto simp: set_period_impl_def report_at_Some split: option.splits if_splits)
  moreover from this have "kfsw_hk_report_at report (hn_hk nd) = Some (hk_reports (hn_hk nd) ! unat report)" by (simp add: report_at_Some)
  ultimately show ?thesis
    using None
    by (intro inv_period [OF cfg inv refl, where p = ms and u = "if ms = 0 then 0 else now + uint ms"])
      (auto simp: set_period_impl_def Let_def split: if_splits)
qed

lemma inv_schedule_finish:
  assumes cfg: "hk_config_ok (he_config env)" and inv: "hk_inv env table nd fl"
  shows "hk_inv env table (nd\<lparr>hn_hk := kfsw_hk_schedule_finish report due now (hn_hk nd)\<rparr>) fl"
proof (cases "hk_reports (kfsw_hk_schedule_finish report due now (hn_hk nd)) = hk_reports (hn_hk nd)")
  case True
  then show ?thesis
    by (intro inv_same [OF inv]) (auto simp: kfsw_hk_schedule_finish_def Let_def split: option.splits)
next
  case False
  then have "unat report < length (hk_reports (hn_hk nd))"
    by (auto simp: kfsw_hk_schedule_finish_def report_at_Some Let_def split: option.splits if_splits)
  moreover from this have "kfsw_hk_report_at report (hn_hk nd) = Some (hk_reports (hn_hk nd) ! unat report)" by (simp add: report_at_Some)
  ultimately show ?thesis
    using False
    by (intro inv_period [OF cfg inv refl, where p = "hr_period_ms (hk_reports (hn_hk nd) ! unat report)"
          and u = "kfsw_hk_next_due (due_uptime_ms due) (due_period_ms due) (max now (due_uptime_ms due))"])
      (auto simp: kfsw_hk_schedule_finish_def Let_def split: if_splits)
qed

lemma reachable_hk_inv:
  assumes "hk_reachable env table nd fl" and cfg: "hk_config_ok (he_config env)"
    and sorted: "sorted_wrt (<) (map (\<lambda>e. pi_id (en_info e)) table)"
  shows "hk_inv env table nd fl"
  using assms(1)
proof induction
  case (boot nd)
  then show ?case by (rule inv_boot [OF cfg])
next
  case (init nd fl)
  from init.IH show ?case by (rule inv_same) (simp_all add: kfsw_hk_init_def)
next
  case (redefine nd fl report entries cls now)
  then show ?case unfolding kfsw_hk_define_class_def by (intro inv_configured inv_define [OF cfg _ sorted]) auto
next
  case (clear nd fl report)
  then show ?case unfolding kfsw_hk_clear_def by (intro inv_configured inv_clear [OF cfg]) auto
next
  case (period nd fl report ms now)
  then show ?case
    unfolding kfsw_hk_set_period_def
    by (intro inv_configured) (use inv_set_period [OF cfg period.IH, of report ms now] in \<open>simp_all add: case_prod_beta\<close>)
next
  case (store nd fl report ms)
  show ?case unfolding kfsw_hk_set_store_def
    by (rule inv_configured [OF store.IH], rule inv_same [OF store.IH]) (simp_all add: set_store_state)
next
  case (clear_store nd fl report)
  show ?case unfolding kfsw_hk_clear_store_def
    by (rule inv_configured [OF clear_store.IH], rule inv_same [OF clear_store.IH]) (simp_all add: set_store_state)
next
  case (beacon nd fl report node ms)
  show ?case unfolding kfsw_hk_set_beacon_def
    by (rule inv_configured [OF beacon.IH], rule inv_same [OF beacon.IH]) (simp_all add: set_store_state)
next
  case (tick nd fl buffers got report now)
  from tick.IH show ?case by (rule inv_same) (simp_all add: set_store_state)
next
  case (enabled nd fl b)
  from enabled.IH show ?case by (rule inv_same) (simp_all add: kfsw_hk_set_enabled_def)
next
  case (take_due nd fl report now)
  from take_due.IH show ?case by (rule inv_same) (auto simp: kfsw_hk_schedule_take_def split: option.splits)
next
  case (finish_due nd fl report due now)
  then show ?case by (intro inv_schedule_finish [OF cfg])
next
  case (begin_collect nd report flight)
  then show ?case by (intro inv_begin_collect)
next
  case (end_collect nd flight clock sample failures params)
  then show ?case by (intro inv_collected [OF cfg sorted])
next
  case (outside nd fl params files)
  from outside.IH show ?case by (rule inv_same) (use outside in \<open>auto simp: hk_inv_def\<close>)
qed

subsection \<open>A pass of the collector\<close>

lemma next_due_grid:
  assumes "0 < uint period" and "due \<le> now"
  shows "now < kfsw_hk_next_due due period now" "kfsw_hk_next_due due period now \<le> now + uint period"
    "(kfsw_hk_next_due due period now - due) mod uint period = 0"
proof -
  let ?p = "uint period" and ?d = "now - due"
  have "?d sdiv ?p = ?d div ?p" using assms by (cases "?d = 0") (auto simp: signed_divide_int_def)
  then have n: "kfsw_hk_next_due due period now = due + (?d div ?p) * ?p + ?p" by (simp add: kfsw_hk_next_due_def algebra_simps)
  have m: "?d = (?d div ?p) * ?p + ?d mod ?p" "0 \<le> ?d mod ?p" "?d mod ?p < ?p" using assms(1) by simp_all
  show "now < kfsw_hk_next_due due period now" "kfsw_hk_next_due due period now \<le> now + ?p" using n m by linarith+
  have "kfsw_hk_next_due due period now - due = (?d div ?p + 1) * ?p" using n by (simp add: algebra_simps)
  then show "(kfsw_hk_next_due due period now - due) mod ?p = 0" by simp
qed

definition due_at :: "int \<Rightarrow> kfsw_hk_report \<Rightarrow> bool" where
  "due_at now r \<longleftrightarrow> hr_defined r \<and> hr_period_ms r \<noteq> 0 \<and> hr_next_uptime_ms r \<le> now"

text \<open>What one turn of the loop does: the report is collected and scheduled anew, or left alone.\<close>

definition turned :: "hk_tick \<Rightarrow> kfsw_hk_report \<Rightarrow> kfsw_hk_report \<Rightarrow> bool" where
  "turned tick r r' \<longleftrightarrow>
     (if due_at (tk_take tick) r
      then \<exists>k s. r' = (store_sample (k, s) r)\<lparr>hr_next_uptime_ms :=
          kfsw_hk_next_due (hr_next_uptime_ms r) (hr_period_ms r) (max (tk_finish tick) (hr_next_uptime_ms r))\<rparr>
        \<and> sm_sequence s = hr_sequence r
      else r' = r)"

lemma collect_stores:
  assumes "kfsw_hk_is_ready (hn_hk nd)" and "unat i < length (hk_reports (hn_hk nd))" and "hr_defined (hk_reports (hn_hk nd) ! unat i)"
  shows "\<exists>s stats. sm_sequence s = hr_sequence (hk_reports (hn_hk nd) ! unat i)
    \<and> hn_hk (snd (kfsw_hk_collect env clock i nd)) = (hn_hk nd)\<lparr>hk_reports := (hk_reports (hn_hk nd))[unat i :=
        store_sample (hk_collected_order (hn_hk nd) + 1, s) (hk_reports (hn_hk nd) ! unat i)],
        hk_collected_order := hk_collected_order (hn_hk nd) + 1, hk_stats := stats\<rparr>"
proof -
  let ?st = "hn_hk nd" and ?r = "hk_reports (hn_hk nd) ! unat i"
  obtain d g where b: "collect_begin i ?st = Inr (i, d, g)" "g = hk_generations ?st ! unat i" "hdf_sequence d = hr_sequence ?r"
    using assms by (simp add: collect_begin_def kfsw_hk_report_at_def)
  obtain sample failures params where c: "kfsw_hk_collect_report env clock d (hn_params nd) = (sample, failures, params)"
    by (cases "kfsw_hk_collect_report env clock d (hn_params nd)") auto
  then have "sm_sequence sample = hdf_sequence d"
    by (auto simp: kfsw_hk_collect_report_def Let_def split: prod.splits)
  moreover have "hn_hk (snd (kfsw_hk_collect env clock i nd)) = snd (collect_store (i, d, g) sample failures ?st)"
    using b c by (simp add: kfsw_hk_collect_def finish_state)
  moreover have "snd (collect_store (i, d, g) sample failures ?st) = ?st\<lparr>hk_reports := (hk_reports ?st)[unat i :=
      store_sample (hk_collected_order ?st + 1, sample\<lparr>sm_data := (sm_data sample)[1 := i]\<rparr>) ?r],
      hk_collected_order := hk_collected_order ?st + 1, hk_stats := hk_stats (snd (collect_store (i, d, g) sample failures ?st))\<rparr>"
    using assms(3) b(2) by (simp add: collect_store_def Let_def)
  ultimately show ?thesis using b(3)
    by (intro exI [of _ "sample\<lparr>sm_data := (sm_data sample)[1 := i]\<rparr>"] exI [of _ "hk_stats (snd (collect_store (i, d, g) sample failures ?st))"]) simp
qed

lemma collector_turn:
  assumes run: "kfsw_hk_is_ready (hn_hk nd)" "hk_enabled_flag (hn_hk nd)" and i: "unat i < length (hk_reports (hn_hk nd))"
  shows "\<exists>r'. turned tick (hk_reports (hn_hk nd) ! unat i) r'
    \<and> hk_reports (hn_hk (collector_report env tick i nd)) = (hk_reports (hn_hk nd))[unat i := r']
    \<and> kfsw_hk_is_ready (hn_hk (collector_report env tick i nd)) \<and> hk_enabled_flag (hn_hk (collector_report env tick i nd))"
proof -
  let ?st = "hn_hk nd" and ?r = "hk_reports (hn_hk nd) ! unat i"
  have at: "kfsw_hk_report_at i ?st = Some ?r" using i by (simp add: kfsw_hk_report_at_def)
  have beacon: "hn_hk (if B then snd (kfsw_hk_beacon_tick env n got rep now nd1) else nd1) = hn_hk nd1" for B n got rep now nd1
    by (simp add: set_store_state)
  show ?thesis
  proof (cases "due_at (tk_take tick) ?r")
    case False
    then have "kfsw_hk_schedule_take i (tk_take tick) ?st = (None, ?st)"
      using run at by (auto simp: kfsw_hk_schedule_take_def due_at_def kfsw_hk_is_ready_def)
    then have "hn_hk (collector_report env tick i nd) = ?st" by (simp add: collector_report_def Let_def set_store_state)
    with False run show ?thesis by (simp add: turned_def)
  next
    case True
    let ?due = "\<lparr>due_revision = hk_schedule_revisions ?st ! unat i, due_uptime_ms = hr_next_uptime_ms ?r, due_period_ms = hr_period_ms ?r\<rparr>"
    let ?st1 = "?st\<lparr>hk_stats := (hk_stats ?st)\<lparr>hst_scheduled_attempts := hst_scheduled_attempts (hk_stats ?st) + 1\<rparr>\<rparr>"
    have t: "kfsw_hk_schedule_take i (tk_take tick) ?st = (Some ?due, ?st1)"
      using True run at by (simp add: kfsw_hk_schedule_take_def due_at_def kfsw_hk_is_ready_def)
    obtain s stats where s: "sm_sequence s = hr_sequence ?r"
      "hn_hk (snd (kfsw_hk_collect env (tk_collect_clock tick) i (nd\<lparr>hn_hk := ?st1\<rparr>))) =
        ?st1\<lparr>hk_reports := (hk_reports ?st)[unat i := store_sample (hk_collected_order ?st + 1, s) ?r],
          hk_collected_order := hk_collected_order ?st + 1, hk_stats := stats\<rparr>"
      using collect_stores [of "nd\<lparr>hn_hk := ?st1\<rparr>" i env "tk_collect_clock tick"] True run i
      by (auto simp: kfsw_hk_is_ready_def due_at_def)
    let ?st2 = "?st1\<lparr>hk_reports := (hk_reports ?st)[unat i := store_sample (hk_collected_order ?st + 1, s) ?r],
          hk_collected_order := hk_collected_order ?st + 1, hk_stats := stats\<rparr>"
    have keep: "hr_period_ms (store_sample x ?r) = hr_period_ms ?r" for x by (simp add: store_sample_def Let_def split: prod.splits)
    have st3: "hn_hk (collector_report env tick i nd) = kfsw_hk_schedule_finish i ?due (tk_finish tick) ?st2"
      using t s(2) by (simp add: collector_report_def Let_def set_store_state case_prod_beta)
    have "hk_reports (kfsw_hk_schedule_finish i ?due (tk_finish tick) ?st2) =
        (hk_reports ?st)[unat i := (store_sample (hk_collected_order ?st + 1, s) ?r)\<lparr>hr_next_uptime_ms :=
          kfsw_hk_next_due (hr_next_uptime_ms ?r) (hr_period_ms ?r) (max (tk_finish tick) (hr_next_uptime_ms ?r))\<rparr>]"
      "hk_enabled_flag (kfsw_hk_schedule_finish i ?due (tk_finish tick) ?st2)"
      "hk_initialized (kfsw_hk_schedule_finish i ?due (tk_finish tick) ?st2)"
      using True run i by (simp_all add: kfsw_hk_schedule_finish_def kfsw_hk_report_at_def Let_def due_at_def keep kfsw_hk_is_ready_def)
    with st3 True s(1) show ?thesis by (auto simp: turned_def kfsw_hk_is_ready_def)
  qed
qed

lemma collector_pass_turns:
  "kfsw_hk_is_ready (hn_hk nd) \<Longrightarrow> hk_enabled_flag (hn_hk nd) \<Longrightarrow> distinct (map unat is) \<Longrightarrow>
   \<forall>i \<in> set is. unat i < length (hk_reports (hn_hk nd)) \<and> tk_clock (ticks i) \<noteq> None \<Longrightarrow>
   \<forall>i \<in> set is. turned (ticks i) (hk_reports (hn_hk nd) ! unat i) (hk_reports (hn_hk (collector_pass env ticks is nd)) ! unat i)"
  and collector_pass_frame:
  "kfsw_hk_is_ready (hn_hk nd) \<Longrightarrow> hk_enabled_flag (hn_hk nd) \<Longrightarrow> distinct (map unat is) \<Longrightarrow>
   \<forall>i \<in> set is. unat i < length (hk_reports (hn_hk nd)) \<and> tk_clock (ticks i) \<noteq> None \<Longrightarrow>
   \<forall>j. j \<notin> unat ` set is \<longrightarrow> hk_reports (hn_hk (collector_pass env ticks is nd)) ! j = hk_reports (hn_hk nd) ! j"
proof (induction "is" arbitrary: nd)
  case (Cons i "is")
  {
    case (1 nd)
    let ?nd = "collector_report env (ticks i) i nd"
    have "unat i < length (hk_reports (hn_hk nd))" using 1(4) by simp
    from collector_turn [OF 1(1,2) this, of "ticks i" env]
    obtain r' where r: "turned (ticks i) (hk_reports (hn_hk nd) ! unat i) r'" "hk_reports (hn_hk ?nd) = (hk_reports (hn_hk nd))[unat i := r']"
      "kfsw_hk_is_ready (hn_hk ?nd)" "hk_enabled_flag (hn_hk ?nd)" by blast
    have pass: "collector_pass env ticks (i # is) nd = collector_pass env ticks is ?nd" using 1(2,4) by auto
    have rest: "distinct (map unat is)" "\<forall>j \<in> set is. unat j < length (hk_reports (hn_hk ?nd)) \<and> tk_clock (ticks j) \<noteq> None"
      unfolding r(2) using 1(3,4) by simp_all
    note ih = Cons.IH(1) [OF r(3,4) rest] and fr = Cons.IH(2) [OF r(3,4) rest]
    have out: "unat i \<notin> unat ` set is" using 1(3) by simp
    show ?case unfolding pass
    proof
      fix k assume "k \<in> set (i # is)"
      then consider "k = i" | "k \<in> set is" "unat k \<noteq> unat i" using out by (metis image_eqI set_ConsD)
      then show "turned (ticks k) (hk_reports (hn_hk nd) ! unat k) (hk_reports (hn_hk (collector_pass env ticks is ?nd)) ! unat k)"
      proof cases
        case 1
        have "hk_reports (hn_hk (collector_pass env ticks is ?nd)) ! unat i = hk_reports (hn_hk ?nd) ! unat i" using fr out by blast
        also have "\<dots> = r'" unfolding r(2) using \<open>unat i < length (hk_reports (hn_hk nd))\<close> by simp
        finally show ?thesis using 1 r(1) by (simp only:)
      next
        case 2
        have "hk_reports (hn_hk ?nd) ! unat k = hk_reports (hn_hk nd) ! unat k" unfolding r(2) using 2(2) by simp
        with ih 2(1) show ?thesis by metis
      qed
    qed
  next
    case (2 nd)
    let ?nd = "collector_report env (ticks i) i nd"
    have "unat i < length (hk_reports (hn_hk nd))" using 2(4) by simp
    from collector_turn [OF 2(1,2) this, of "ticks i" env]
    obtain r' where r: "hk_reports (hn_hk ?nd) = (hk_reports (hn_hk nd))[unat i := r']"
      "kfsw_hk_is_ready (hn_hk ?nd)" "hk_enabled_flag (hn_hk ?nd)" by blast
    have pass: "collector_pass env ticks (i # is) nd = collector_pass env ticks is ?nd" using 2(2,4) by auto
    have rest: "distinct (map unat is)" "\<forall>j \<in> set is. unat j < length (hk_reports (hn_hk ?nd)) \<and> tk_clock (ticks j) \<noteq> None"
      unfolding r(1) using 2(3,4) by simp_all
    note ih = Cons.IH(2) [OF r(2,3) rest]
    show ?case unfolding pass
    proof (intro allI impI)
      fix j assume j: "j \<notin> unat ` set (i # is)"
      then have "hk_reports (hn_hk (collector_pass env ticks is ?nd)) ! j = hk_reports (hn_hk ?nd) ! j" using ih by simp
      also have "\<dots> = hk_reports (hn_hk nd) ! j" unfolding r(1) using j by simp
      finally show "hk_reports (hn_hk (collector_pass env ticks is ?nd)) ! j = hk_reports (hn_hk nd) ! j" .
    qed
  }
qed simp_all

text \<open>The batch of a store is fixed when the store is set up: a new period does not change it.\<close>

lemma set_period_keeps_batch: "hn_stores (snd (kfsw_hk_set_period env report ms now nd)) = hn_stores nd"
  by (simp add: kfsw_hk_set_period_def configured_def case_prod_beta split: option.splits)

section \<open>Properties\<close>

lemma demo_hk_table: "sorted_wrt (<) (map (\<lambda>e. pi_id (en_info e)) (parameter_table demo_state))"
  by code_simp

lemma demo_hk_config_ok: "hk_config_ok (he_config demo_hk_env)"
  by (simp add: hk_config_ok_def demo_hk_env_def demo_hk_config_def KFSW_HK_HEADER_SIZE_def)

lemma collect_reachable:
  assumes reach: "hk_reachable env table nd None" and order: "hk_collected_order (hn_hk nd) \<noteq> - 1"
  shows "hk_reachable env table (snd (kfsw_hk_collect env clock report nd)) None"
proof (cases "collect_begin report (hn_hk nd)")
  case (Inl e)
  with reach show ?thesis by (simp add: kfsw_hk_collect_def)
next
  case (Inr flight)
  obtain sample failures params where c: "kfsw_hk_collect_report env clock (fst (snd flight)) (hn_params nd) = (sample, failures, params)"
    by (cases "kfsw_hk_collect_report env clock (fst (snd flight)) (hn_params nd)") auto
  from hk_reachable.end_collect [OF hk_reachable.begin_collect [OF reach Inr] order c] Inr c
  show ?thesis by (simp add: kfsw_hk_collect_def)
qed

lemma demo_reach:
  "hk_reachable demo_hk_env (parameter_table demo_state) demo_hk_periodic None"
  "hk_reachable demo_hk_env (parameter_table demo_state) demo_hk_collected None"
proof -
  have "hk_reachable demo_hk_env (parameter_table demo_state) demo_hk_booted None"
    by (rule hk_reachable.boot) (simp_all add: demo_hk_booted_def demo_hk_env_def)
  then have "hk_reachable demo_hk_env (parameter_table demo_state) demo_hk_ready None"
    unfolding demo_hk_ready_def by (rule hk_reachable.init)
  moreover have "hk_generations (hn_hk demo_hk_ready) ! unat (0 :: u8) \<noteq> - 1" by code_simp
  ultimately have "hk_reachable demo_hk_env (parameter_table demo_state) demo_hk_defined None"
    unfolding demo_hk_defined_def by (rule hk_reachable.redefine)
  then show p: "hk_reachable demo_hk_env (parameter_table demo_state) demo_hk_periodic None"
    unfolding demo_hk_periodic_def by (rule hk_reachable.period)
  have "hk_collected_order (hn_hk demo_hk_periodic) \<noteq> - 1" by code_simp
  with p show "hk_reachable demo_hk_env (parameter_table demo_state) demo_hk_collected None"
    unfolding demo_hk_collected_def by (rule collect_reachable)
qed

text \<open>
  C18. What is read belongs to the definition in force. However definitions, clears and other settings fall between the
  begin and the end of collections, every sample that \<open>kfsw_hk_get\<close> gives is of a defined report and has the layout,
  the length and the entry count of the definition the report has now; its frame repeats its fields and the report's
  number, and the sample of age \<open>a\<close> carries the \<open>a\<close>-th last sequence number the report used.
\<close>

theorem hk_samples_belong_to_definition:
  assumes "hk_reachable env table nd fl" and "hk_config_ok (he_config env)" and "sorted_wrt (<) (map (\<lambda>e. pi_id (en_info e)) table)"
    and "kfsw_hk_get report age Dest (hn_hk nd) = Inr s"
  shows "let r = hk_reports (hn_hk nd) ! unat report
    in hr_defined r \<and> layout_ok (he_config env) table (report_fields r) (unat (hr_payload_bytes r))
      \<and> frame_ok (he_config env) report s \<and> sm_length s = word_of_nat KFSW_HK_HEADER_SIZE + hr_payload_bytes r
      \<and> sm_entry_count s = hr_entry_count r \<and> sm_sequence s = hr_sequence r - 1 - age"
proof -
  let ?r = "hk_reports (hn_hk nd) ! unat report"
  from assms(4) have i: "unat report < length (hk_reports (hn_hk nd))" by (auto simp: kfsw_hk_get_def kfsw_hk_report_at_def split: if_splits)
  then have at: "kfsw_hk_report_at report (hn_hk nd) = Some ?r" by (simp add: report_at_Some)
  have held: "unat age < unat (hr_held ?r)" and s: "s = snd (newest_first ?r ! unat age)"
    using assms(4) unfolding get_by_recency [OF at] by (auto split: if_splits)
  have "hk_ok (he_config env) table (hn_hk nd)" using reachable_hk_inv [OF assms(1-3)] by (simp add: hk_inv_def)
  from ok_report(2) [OF this i] have ok: "report_ok (he_config env) table report ?r" .
  then have "sample_current (he_config env) report ?r (unat age) s" using held s by (simp add: report_ok_def)
  moreover have "hr_defined ?r" using ok held by (auto simp: report_ok_def)
  ultimately show ?thesis using ok by (simp add: sample_current_def report_ok_def Let_def)
qed

theorem hk_samples_belong_to_definition_witness:
  "\<exists>s. kfsw_hk_get 0 0 Dest (hn_hk demo_hk_collected) = Inr s \<and> frame_ok demo_hk_config 0 s \<and> sm_sequence s = 0"
proof -
  have "case kfsw_hk_get 0 0 Dest (hn_hk demo_hk_collected) of Inl e \<Rightarrow> False | Inr s \<Rightarrow> True" by code_simp
  then obtain s where s: "kfsw_hk_get 0 0 Dest (hn_hk demo_hk_collected) = Inr s" by (auto split: sum.splits)
  have "hr_sequence (hk_reports (hn_hk demo_hk_collected) ! unat (0 :: u8)) = 1" by code_simp
  with hk_samples_belong_to_definition [OF demo_reach(2) demo_hk_config_ok demo_hk_table s] s show ?thesis
    by (simp add: Let_def demo_hk_env_def)
qed

text \<open>
  C19. The selection across reports is the ordered list of the samples. In every state that is reached,
  \<open>kfsw_hk_get_selected\<close> gives, at each index, the element of the list that has the selected classes in ascending
  order and in each class the samples of all its reports by descending order of collection, and \<open>-ENOENT\<close> past its end,
  although it only looks at one sample of each ring at a time.
\<close>

theorem hk_selection_in_order:
  assumes "hk_reachable env table nd fl" and "hk_config_ok (he_config env)" and "sorted_wrt (<) (map (\<lambda>e. pi_id (en_info e)) table)"
  shows "kfsw_hk_get_selected class_mask index Dest (hn_hk nd) =
    (let samples = selected_samples class_mask (hk_reports (hn_hk nd))
     in if unat index < length samples then Inr (samples ! unat index) else Inl ENOENT)"
proof -
  have "collected_once (hk_reports (hn_hk nd))" using reachable_hk_inv [OF assms] by (simp add: hk_inv_def hk_ok_def)
  from select_classes_samples [OF this] show ?thesis by (simp add: kfsw_hk_get_selected_def selected_samples_def)
qed

theorem hk_selection_in_order_witness:
  "kfsw_hk_get_selected 0x10 0 Dest (hn_hk demo_hk_collected) = kfsw_hk_get 0 0 Dest (hn_hk demo_hk_collected)
   \<and> kfsw_hk_get_selected 0x10 1 Dest (hn_hk demo_hk_collected) = Inl ENOENT"
proof -
  have l: "length (selected_samples 0x10 (hk_reports (hn_hk demo_hk_collected))) = 1"
    "Inr (selected_samples 0x10 (hk_reports (hn_hk demo_hk_collected)) ! 0) = kfsw_hk_get 0 0 Dest (hn_hk demo_hk_collected)"
    by code_simp+
  from hk_selection_in_order [OF demo_reach(2) demo_hk_config_ok demo_hk_table, of "0x10" 0]
    hk_selection_in_order [OF demo_reach(2) demo_hk_config_ok demo_hk_table, of "0x10" 1] l
  show ?thesis by (auto simp: Let_def)
qed

text \<open>
  C21. A pass of the collector collects every report that is due, and only those. With the service ready and enabled and
  the clock set throughout, a report that is due when its turn comes has one more sample after the pass, the newest,
  with the report's next sequence number; its next collection is the first point of its grid strictly after both the
  end of this one and the time it was due, so slots missed by a late or long collection are not made up for. A report
  that is not due is left as it was.
\<close>

theorem hk_pass_collects_due:
  assumes reach: "hk_reachable env table nd fl" and cfg: "hk_config_ok (he_config env)"
    and sorted: "sorted_wrt (<) (map (\<lambda>e. pi_id (en_info e)) table)"
    and run: "kfsw_hk_is_ready (hn_hk nd)" "hk_enabled_flag (hn_hk nd)" "\<forall>i. tk_clock (ticks i) \<noteq> None"
    and i: "i < hc_reports (he_config env)" and nd': "nd' = collector_pass env ticks (map word_of_nat [0..<hc_reports (he_config env)]) nd"
    and r: "r = hk_reports (hn_hk nd) ! i" "r' = hk_reports (hn_hk nd') ! i" and tick: "tick = ticks (word_of_nat i)"
  shows "if due_at (tk_take tick) r
    then hr_sequence r' = hr_sequence r + 1 \<and> sm_sequence (snd (newest_first r' ! 0)) = hr_sequence r
      \<and> unat (hr_held r') = min (hc_history (he_config env)) (unat (hr_held r) + 1)
      \<and> hr_next_uptime_ms r' > max (tk_finish tick) (hr_next_uptime_ms r)
      \<and> hr_next_uptime_ms r' \<le> max (tk_finish tick) (hr_next_uptime_ms r) + uint (hr_period_ms r)
      \<and> (hr_next_uptime_ms r' - hr_next_uptime_ms r) mod uint (hr_period_ms r) = 0
    else r' = r"
proof -
  let ?n = "hc_reports (he_config env)"
  have ok: "hk_ok (he_config env) table (hn_hk nd)" using reachable_hk_inv [OF reach cfg sorted] by (simp add: hk_inv_def)
  then have len: "length (hk_reports (hn_hk nd)) = ?n" by (simp add: hk_ok_def)
  have small: "unat (word_of_nat j :: u8) = j" if "j < ?n" for j using that cfg by (simp add: hk_config_ok_def unat_of_nat)
  have d: "distinct (map unat (map word_of_nat [0..<?n] :: u8 list))"
    using small by (simp add: distinct_map inj_on_def)
  have all: "\<forall>j \<in> set (map word_of_nat [0..<?n] :: u8 list). unat j < length (hk_reports (hn_hk nd)) \<and> tk_clock (ticks j) \<noteq> None"
    using run(3) len small by auto
  have "word_of_nat i \<in> set (map word_of_nat [0..<?n] :: u8 list)" using i by auto
  from collector_pass_turns [OF run(1,2) d all, rule_format, OF this, of env]
  have t: "turned tick r r'" using r tick small [OF i] nd' by simp
  have "report_ok (he_config env) table (word_of_nat i) r" using ok i r(1) by (simp add: hk_ok_def)
  then have ring: "hk_ring_ok r" "length (hr_ring r) = hc_history (he_config env)" by (simp_all add: report_ok_def)
  show ?thesis
  proof (cases "due_at (tk_take tick) r")
    case True
    then obtain k s where s: "r' = (store_sample (k, s) r)\<lparr>hr_next_uptime_ms :=
        kfsw_hk_next_due (hr_next_uptime_ms r) (hr_period_ms r) (max (tk_finish tick) (hr_next_uptime_ms r))\<rparr>"
      "sm_sequence s = hr_sequence r" using t by (auto simp: turned_def)
    have "newest_first r' = newest_first (store_sample (k, s) r)" by (rule newest_first_cong) (simp_all add: s(1))
    then have "newest_first r' ! 0 = (k, s)" using ring by (simp add: newest_first_store hk_ring_ok_def)
    moreover have "0 < uint (hr_period_ms r)" using True by (simp add: due_at_def uint_0_iff less_le)
    note g = next_due_grid [OF this, of "hr_next_uptime_ms r" "max (tk_finish tick) (hr_next_uptime_ms r)"]
    moreover have "unat (hr_held r') = min (hc_history (he_config env)) (unat (hr_held r) + 1)"
      using unat_held_store [OF ring(1), of "(k, s)"] ring(2) by (simp add: s(1))
    ultimately show ?thesis using True s by simp
  next
    case False
    with t show ?thesis by (simp add: turned_def)
  qed
qed

theorem hk_pass_collects_due_witness:
  "hr_next_uptime_ms (hk_reports (hn_hk (collector_pass demo_hk_env (\<lambda>i. demo_tick) [0] demo_hk_collected)) ! 0) = 4100
   \<and> hr_next_uptime_ms (hk_reports (hn_hk (collector_pass demo_hk_env (\<lambda>i. demo_tick) [0] demo_hk_collected)) ! 0) > 3500"
proof -
  have run: "kfsw_hk_is_ready (hn_hk demo_hk_collected)" "hk_enabled_flag (hn_hk demo_hk_collected)"
    "due_at (tk_take demo_tick) (hk_reports (hn_hk demo_hk_collected) ! 0)" by code_simp+
  have n: "hc_reports (he_config demo_hk_env) = 1" "[0 :: u8] = map word_of_nat [0..<hc_reports (he_config demo_hk_env)]"
    by (simp_all add: demo_hk_env_def demo_hk_config_def)
  have clock: "\<forall>i. tk_clock ((\<lambda>i. demo_tick) (i :: u8)) \<noteq> None" "tk_finish demo_tick = 3500" by (simp_all add: demo_tick_def)
  have four: "hr_next_uptime_ms (hk_reports (hn_hk (collector_pass demo_hk_env (\<lambda>i. demo_tick) [0] demo_hk_collected)) ! 0) = 4100"
    by code_simp
  have "0 < hc_reports (he_config demo_hk_env)" using n(1) by simp
  from hk_pass_collects_due [OF demo_reach(2) demo_hk_config_ok demo_hk_table run(1,2) clock(1) this refl refl refl refl, folded n(2)]
  have "max (tk_finish demo_tick) (hr_next_uptime_ms (hk_reports (hn_hk demo_hk_collected) ! 0)) <
      hr_next_uptime_ms (hk_reports (hn_hk (collector_pass demo_hk_env (\<lambda>i. demo_tick) [0] demo_hk_collected)) ! 0)"
    using run(3) by (metis (mono_tags, lifting))
  with clock(2) four show ?thesis by simp
qed



end
