(* ===== verification/Spec2Isabelle.thy ===== *)
theory Spec2Isabelle
  imports Health Gndwdt Fwu_Lite Ftp_Protocol Log_History Resmon Remexec Param_Persist Limits Journal Scrub Table Hk
begin

text \<open>
  A verification development for the K-FSW flight software services (C, Zephyr): shallow embeddings of the
  services under \<^verbatim>\<open>src/\<close> and theorems about them. This theory is the root: it imports every component and
  holds the property that joins client and server of remote execution.

  \<^bold>\<open>The program.\<close> A node runs a set of services over a CSP network. Services record events in one ring
  (\<^verbatim>\<open>src/event\<close>); operators invoke typed commands locally or over CSP (\<^verbatim>\<open>src/command\<close>), with tickets that make
  a repeated request run once; a health service feeds the hardware watchdog only while every registered
  component reports (\<^verbatim>\<open>src/health\<close>); a ground watchdog, fed by a command over CSP, resets a node nobody talks
  to (\<^verbatim>\<open>src/gndwdt\<close>); images are uploaded in blocks and handed to the bootloader (\<^verbatim>\<open>src/fwu\<close>); files move over a
  bounded protocol below fixed roots (\<^verbatim>\<open>src/ftp\<close>); log messages are kept across resets (\<^verbatim>\<open>src/log_history.c\<close>);
  stack use is watched (\<^verbatim>\<open>src/resmon\<close>); marked shell commands can be run from another node
  (\<^verbatim>\<open>src/remexec\<close>); typed parameters, grouped in tables by the components that own their storage, are
  read, set, restored and saved across resets (\<^verbatim>\<open>src/parameter\<close>, \<^verbatim>\<open>src/snapshot_file.c\<close>); commands are released at
  a time from a queue, and procedure files run line by line (\<^verbatim>\<open>src/fbo\<close>); rules watch parameters and put
  commands into that queue (\<^verbatim>\<open>src/limits\<close>); important events are journalled in a file (\<^verbatim>\<open>src/journal\<close>); the
  resident images are read again and compared with a learned CRC (\<^verbatim>\<open>src/scrub\<close>); a table of parameters is
  loaded from a file, undone and dumped (\<^verbatim>\<open>src/table\<close>); and reports of parameters are collected periodically, kept
  in rings and files, served to other nodes and sent as beacons (\<^verbatim>\<open>src/hk\<close>).

  \<^bold>\<open>Theories.\<close>
  \<^item> \<open>Prelude\<close>: integer types, \<open>errno\<close>, pointers (\<open>option\<close> for inputs, \<open>dest\<close> for outputs), C strings, the
    big-endian wire integers, saturating counters, list lemmas; collections \<open>wire\<close> and \<open>counters\<close>.
  \<^item> \<open>Contracts\<close>: the locales \<open>ring_log\<close> (a ring keeps the newest records), \<open>wire_codec\<close> and
    \<open>canonical_codec\<close> (encoder and decoder of a message type), \<open>crossing_latch\<close> (a counter of crossings),
    \<open>keyed_table\<close> (a table with insertion and lookup by key), \<open>planned_loop\<close> (a loop that runs the items of a
    plan one by one).
    \<open>ring_log\<close> is interpreted by the event ring, the log history and the rings of the housekeeping reports,
    \<open>canonical_codec\<close> by the command, firmware and file transfer messages, \<open>wire_codec\<close> by remote execution requests and replies and journal records,
    \<open>crossing_latch\<close> by the stack alert and by each region of the image scrub, \<open>keyed_table\<close> by the parameter
    and the table registry, \<open>planned_loop\<close> by the sweep of the release queue.
  \<^item> \<open>C_Text\<close>: \<open>strtoul\<close> and its relatives as the C library documents them, and decimal notation.
  \<^item> \<open>Event\<close> (\<^verbatim>\<open>event.c\<close>): the ring refines a bounded list, in every reachable state sequence numbers are
    consecutive, and lookups and visits agree with the list.
  \<^item> \<open>Command_Protocol\<close> (\<^verbatim>\<open>command_protocol.c\<close>): header and argument codecs, inverse in both directions.
    \<open>Command\<close> (\<^verbatim>\<open>command.c\<close>): registry, argument conversion, claims, dispatch; which registries are accepted,
    exactly when a handler runs, what an exclusive claim guarantees against any sequence of other threads'
    operations. \<open>Command_Retry\<close> (\<^verbatim>\<open>command_retry.c\<close>): each ticket runs at most once. \<open>Command_Csp\<close>
    (\<^verbatim>\<open>command_csp.c\<close>): a remote invocation delivers the outcome of the serving node.
  \<^item> \<open>Health\<close> (\<^verbatim>\<open>health.c\<close>): the watchdog is fed exactly when nothing is overdue; reachable-state invariant.
  \<^item> \<open>Gndwdt\<close> (\<^verbatim>\<open>gndwdt.c\<close>): fed over CSP only, resets exactly after the silence, a decided reset stands.
  \<^item> \<open>Fwu\<close> (\<^verbatim>\<open>fwu.c\<close>) and \<open>Fwu_Lite\<close> (\<^verbatim>\<open>fwu_lite_protocol.c\<close>): only complete images with the declared CRC are
    offered to the bootloader; the upload of any fitting image in order succeeds; the codec is canonical.
  \<^item> \<open>Ftp_Protocol\<close> (\<^verbatim>\<open>ftp_protocol.c\<close>, \<^verbatim>\<open>ftp_state.c\<close>): canonical codec; virtual paths stay inside their roots,
    writes never reach a read-only root, and resolution is exact on safe components.
  \<^item> \<open>Log_History\<close> (\<^verbatim>\<open>log_history.c\<close>): the retained ring refines a list from arbitrary memory, window and reads
    agree, histories survive a reset of the same image only.
  \<^item> \<open>Resmon\<close> (\<^verbatim>\<open>resmon.c\<close>): a sweep is exact, alerts and events count crossings.
  \<^item> \<open>Remexec_Protocol\<close> and \<open>Remexec\<close> (\<^verbatim>\<open>remexec_protocol.c\<close>, \<^verbatim>\<open>remexec.c\<close>, \<^verbatim>\<open>remexec_csp.c\<close>): only allowlisted
    lines run, one at a time under every interleaving, replies account for every byte, and (below) the
    client sees the serving node's reply.
  \<^item> \<open>Param_Values\<close> (\<^verbatim>\<open>parameter.c\<close>, \<^verbatim>\<open>param_wire.c\<close>): values, text conversion, reading and writing one
    entry, the file encoding; which numbers a type accepts, and that a file carries a value unchanged.
    \<open>Parameter\<close> (\<^verbatim>\<open>parameter.c\<close>): the registry and its operations; what registration accepts, lookup by
    binary search, storage of the declared shape in every reachable state, set and get.
  \<^item> \<open>Files\<close> (\<^verbatim>\<open>snapshot_file.c\<close>): the file system as a record of operations with laws, and the atomic
    replacement of a file. \<open>Param_Persist\<close> (\<^verbatim>\<open>parameter_persistence.c\<close>): saved parameters come back, a
    refused snapshot changes none.
  \<^item> \<open>Fbo_Schedule\<close> (\<^verbatim>\<open>fbo_schedule.c\<close>, \<^verbatim>\<open>fbo_clock.c\<close>): the queue of commands with a time; a sweep follows its
    plan, adding is exact, and under every interleaving of other threads with the steps of a release an entry
    is started at most once. \<open>Fbo\<close> (\<^verbatim>\<open>fbo.c\<close>, \<^verbatim>\<open>fbo_commands.c\<close>): procedures and the commands of both; every
    procedure ends.
  \<^item> \<open>Limits\<close> (\<^verbatim>\<open>limits.c\<close>): rule files and sweeps over the parameter registry, the command registry and the
    release queue; a file is read as its lines and taken whole, loaded actions are ones the queue takes, and a
    rule fires once per crossing.
  \<^item> \<open>Journal\<close> (\<^verbatim>\<open>journal.c\<close>, \<^verbatim>\<open>journal_store.c\<close>): the file of records and the queue before it; records survive a
    reset and are read newest first, a flush keeps the order and loses nothing.
  \<^item> \<open>Scrub\<close> (\<^verbatim>\<open>scrub.c\<close>): a learned reference is the CRC of the declared image, a sweep finds what changed, and
    changes are counted once.
  \<^item> \<open>Table\<close> (\<^verbatim>\<open>table.c\<close>): table files over the parameter service and the snapshot files; a refused load changes
    nothing, a load can be undone, a dump loads.
  \<^item> \<open>Hk_Report\<close> (the readers of \<^verbatim>\<open>hk.c\<close>, \<^verbatim>\<open>hk_selection.c\<close>): the rings of the reports and the selection that merges
    them by class and age. \<open>Hk_Store\<close> (\<^verbatim>\<open>hk_store.c\<close>, \<^verbatim>\<open>hk_reader.c\<close>): the files of samples; a flushed sample is
    read back as it was collected. \<open>Hk\<close> (\<^verbatim>\<open>hk.c\<close>, \<^verbatim>\<open>hk_thread.c\<close>, \<^verbatim>\<open>hk_csp.c\<close>, \<^verbatim>\<open>hk_beacon.c\<close>): definition,
    collection, serving and beacons; in every reachable state the samples belong to the definition in force, a
    pass collects exactly what is due, and a definition is replaced whole or refused.

  \<^bold>\<open>Correspondence.\<close> A definition has the name of the C function it models (a prefix is added where two
  files use one name); a C file's static variables are one record; an operation under a lock is one state
  transformer; \<open>-errno\<close> returns are values, \<open>rc\<close> or the left side of a sum. Integers keep their C width
  where they can wrap; sizes of objects in memory are \<open>nat\<close>. Loops are structural recursion or folds, or
  recursion with a measure, so that these definitions are total and need no fuel. The one loop whose end depends on the
  clock, the wait of a procedure, is a partial function into \<open>option\<close>; that it returns, and with it every
  procedure, is a theorem of \<open>Fbo\<close>. Places where a lock is dropped inside an operation are steps of a relation
  (the release of a queued command, a running line of remote execution, the collection of a housekeeping report).

  \<^bold>\<open>Parameters.\<close> Code outside the sources is an argument: the clocks, CSP (what a read returns, or a
  function from a packet to an answer), the random generator, flash and bootloader answers, the watchdog,
  CRC functions, cbprintf, \<open>strtof\<close>, the file system, the Zephyr shell and the kernel's thread list. What a theorem needs of them is
  a hypothesis, met by a concrete instance in its witness. Kconfig values are arguments or bounds stated
  in the theorem. Log lines are left out.

  \<^bold>\<open>Not modelled.\<close> The parameter service over CSP (it hands packets to the libparam library) and the tables
  of the services, the housekeeping snapshot and its entries of other nodes, the file transfer engine above the protocol, the firmware file front end, console
  and remote log output, boot and golden image services. Preemption inside an operation is modelled for remote execution, the release queue
  and housekeeping collections only; elsewhere operations are atomic, as their locks make them, except that a command dispatch includes its
  handler.
\<close>

section \<open>A serving node as the network of its client\<close>

definition demo_csp :: kfsw_csp_info where
  "demo_csp = \<lparr>csp_initialized = True, csp_router_running = True, csp_address = 1\<rparr>"

definition demo_link :: "(remexec_service \<times> string list) csp_link" where
  "demo_link node packet net =
     (case remexec_serve_request remexec_demo_config remexec_demo_shell True (Some packet) net of
        (answer, net') \<Rightarrow> (case answer of None \<Rightarrow> No_Reply | Some data \<Rightarrow> Reply data, net'))"

section \<open>Properties\<close>

text \<open>
  C29. Remote execution end to end: when the packets travel between a client and a serving node, the
  client's call for a line of at most 64 characters returns exactly the reply of the serving node's own
  execution of that line, refusals included, and leaves the node in the state that execution leaves.\<close>

theorem remexec_remote_delivers:
  assumes "c_string l" and "length l \<le> 64" and "xc_output_max cfg < 65536"
    and "node \<noteq> 0" and "node < broadcast" and "node \<noteq> csp_address csp_info"
    and "csp_initialized csp_info" and "csp_router_running csp_info"
    and "\<And>packet net. transact node packet net =
      (case remexec_serve_request cfg shell True (Some packet) net of
         (answer, net') \<Rightarrow> (case answer of None \<Rightarrow> No_Reply | Some data \<Rightarrow> Reply data, net'))"
    and "kfsw_remexec_run_local cfg shell (Some l) (st, w) = (r, st', w')"
  shows "kfsw_remexec_run_remote cfg transact csp_info broadcast node (Some l) Dest (st, w) = (Inr r, st', w')"
proof -
  have "remexec_request_wf (KFSW_REMEXEC_OP_RUN, l)" using assms(1,2) by (simp add: remexec_request_wf_def)
  from request_round_trip [OF this] obtain b where b:
    "kfsw_remexec_encode_request Dest 68 KFSW_REMEXEC_OP_RUN (Some l) Dest = Inr b"
    "kfsw_remexec_decode_request (Some b) (length b) Dest Dest 65 = Inr (KFSW_REMEXEC_OP_RUN, l)"
    by blast
  from reply_round_trip [OF run_wf [OF assms(3,10)], of KFSW_REMEXEC_OP_RUN] obtain d where d:
    "kfsw_remexec_encode_reply (xc_output_max cfg) Dest (18 + xc_output_max cfg) KFSW_REMEXEC_OP_RUN (Some r) Dest = Inr d"
    "kfsw_remexec_decode_reply (xc_output_max cfg) (Some d) (length d) KFSW_REMEXEC_OP_RUN Dest = Inr r"
    by auto
  have "remexec_serve_request cfg shell True (Some b) (st, w) = (Some d, st', w')"
    using assms(10) b d by (simp add: remexec_serve_request_def send_reply_def remexec_sizes)
  then have "transact node b (st, w) = (Reply d, st', w')" using assms(9) [of b "(st, w)"] by simp
  then show ?thesis
    using assms(4-8) b d
    by (simp add: kfsw_remexec_run_remote_def remexec_request_def remexec_exchange_def remexec_sizes)
qed

theorem remexec_remote_delivers_witness:
  "kfsw_remexec_run_remote remexec_demo_config demo_link demo_csp 31 2 (Some ''log -n 3'') Dest (remexec_demo_service, [])
   = (case kfsw_remexec_run_local remexec_demo_config remexec_demo_shell (Some ''log -n 3'') (remexec_demo_service, []) of
        (r, net) \<Rightarrow> (Inr r, net))"
proof -
  obtain r st' w' where run: "kfsw_remexec_run_local remexec_demo_config remexec_demo_shell (Some ''log -n 3'')
      (remexec_demo_service, []) = (r, st', w')" by (metis prod_cases3)
  have "kfsw_remexec_run_remote remexec_demo_config demo_link demo_csp 31 2 (Some ''log -n 3'') Dest
      (remexec_demo_service, []) = (Inr r, st', w')"
    by (rule remexec_remote_delivers [OF _ _ _ _ _ _ _ _ _ run])
      (simp_all add: c_string_def remexec_demo_config_def demo_csp_def demo_link_def)
  then show ?thesis by (simp add: run)
qed

end
